(* ===== verification/SmoPrelude.thy ===== *)
theory SmoPrelude
  imports Main "HOL-Library.Sublist" "HOL-Library.List_Lexorder" "HOL-Library.Char_ord"
    "HOL-Library.Product_Lexorder" "HOL-Library.Option_ord"
begin

section \<open>Vocabulary shared by the components\<close>

text \<open>
  The types and generic lemmas every component uses: what a handler of the platform answers
  (\<open>framework_error + 'a\<close>, the error being the \<open>FrameworkError\<close> of
  \<open>shared/smo_shared/errors.py\<close> the route raises), database tables as lists of rows in
  insertion order, and the collections of rewrite rules the component proofs draw on.
\<close>

named_theorems fsm_tables \<open>definitions of the transition tables\<close>
named_theorems table_simps \<open>rows of a table after an insert, an update or a delete\<close>

subsection \<open>Identifiers and time\<close>

text \<open>
  A UUID primary key is a number here: the code only compares ids and asks for a fresh one.
  A point in time is a number of seconds; every handler takes the clock it reads
  (\<open>_now()\<close>) as an argument.
\<close>

type_synonym uid = nat
type_synonym seconds = int

text \<open>
  The exceptions of the Python library the code raises itself, and what \<open>json.loads\<close>
  returns: an object is its list of members.
\<close>

datatype py_error = ValueError string | NotImplementedError string | KeyError string | RuntimeError string

datatype json =
    JNull
  | JBool bool
  | JInt int
  | JStr string
  | JList "json list"
  | JObject "(string \<times> json) list"

subsection \<open>Calls that may fail\<close>

text \<open>\<open>Inl\<close> is the exception; it ends the handler.\<close>

definition and_then :: "'e + 'a \<Rightarrow> ('a \<Rightarrow> 'e + 'b) \<Rightarrow> 'e + 'b" where
  "and_then m f = (case m of Inl err \<Rightarrow> Inl err | Inr x \<Rightarrow> f x)"

lemma and_then_simps [simp]: "and_then (Inl err) f = Inl err" "and_then (Inr x) f = f x"
  by (simp_all add: and_then_def)

lemma and_then_Inr_iff: "and_then m f = Inr y \<longleftrightarrow> (\<exists>x. m = Inr x \<and> f x = Inr y)"
  by (cases m) auto

lemma and_then_Inl_iff: "and_then m f = Inl err \<longleftrightarrow> m = Inl err \<or> (\<exists>x. m = Inr x \<and> f x = Inl err)"
  by (cases m) auto

text \<open>A \<open>for\<close> loop whose body may raise.\<close>

fun each :: "('a \<Rightarrow> 's \<Rightarrow> 'e + 's) \<Rightarrow> 'a list \<Rightarrow> 's \<Rightarrow> 'e + 's" where
  "each f [] s = Inr s"
| "each f (x # xs) s = and_then (f x s) (each f xs)"

lemma each_Inr: "(\<And>x s. x \<in> set xs \<Longrightarrow> f x s = Inr (g x s)) \<Longrightarrow> each f xs s = Inr (fold g xs s)"
  by (induction xs arbitrary: s) auto

lemma each_append: "each f (xs @ ys) s = and_then (each f xs s) (each f ys)"
proof (induction xs arbitrary: s)
  case (Cons x xs)
  then show ?case by (cases "f x s") auto
qed simp

text \<open>\<open>str\<close> of a natural number, in an f-string.\<close>

fun str :: "nat \<Rightarrow> string" where
  "str n = (if n < 10 then [char_of (48 + n)] else str (n div 10) @ [char_of (48 + n mod 10)])"

declare str.simps [simp del]

subsection \<open>Tables: rows in insertion order, looked up by key\<close>

definition row_where :: "('r \<Rightarrow> bool) \<Rightarrow> 'r list \<Rightarrow> 'r option" where
  "row_where P rows = find P rows"

definition update_where :: "('r \<Rightarrow> bool) \<Rightarrow> ('r \<Rightarrow> 'r) \<Rightarrow> 'r list \<Rightarrow> 'r list" where
  "update_where P f rows = map (\<lambda>r. if P r then f r else r) rows"

definition delete_where :: "('r \<Rightarrow> bool) \<Rightarrow> 'r list \<Rightarrow> 'r list" where
  "delete_where P rows = filter (\<lambda>r. \<not> P r) rows"

lemma row_where_None [table_simps]: "row_where P rows = None \<longleftrightarrow> (\<forall>r \<in> set rows. \<not> P r)"
  by (auto simp: row_where_def find_None_iff)

lemma row_where_SomeD: "row_where P rows = Some r \<Longrightarrow> r \<in> set rows \<and> P r"
  by (auto simp: row_where_def find_Some_iff)

lemma set_update_where [table_simps]:
  "set (update_where P f rows) = (\<lambda>r. if P r then f r else r) ` set rows"
  by (simp add: update_where_def)

lemma length_update_where [simp]: "length (update_where P f rows) = length rows"
  by (simp add: update_where_def)

lemma map_update_where: "(\<And>r. P r \<Longrightarrow> k (f r) = k r) \<Longrightarrow> map k (update_where P f rows) = map k rows"
  by (simp add: update_where_def)

lemma set_delete_where [table_simps]: "set (delete_where P rows) = {r \<in> set rows. \<not> P r}"
  by (simp add: delete_where_def)

lemma distinct_map_delete_where:
  "distinct (map k rows) \<Longrightarrow> distinct (map k (delete_where P rows))"
  by (simp add: delete_where_def distinct_map_filter)

text \<open>A primary key identifies its row.\<close>

lemma distinct_key_eq:
  "distinct (map k rows) \<Longrightarrow> r \<in> set rows \<Longrightarrow> r' \<in> set rows \<Longrightarrow> k r = k r' \<Longrightarrow> r = r'"
  by (auto simp: distinct_map inj_on_def)

lemma length_filter_one: "distinct xs \<Longrightarrow> x \<in> set xs \<Longrightarrow> length (filter (\<lambda>k. k = x) xs) = 1"
  by (induction xs) (auto simp: filter_empty_conv)

text \<open>A loop that updates one row after the other, each found by its key.\<close>

lemma fold_update_keys:
  assumes "\<And>r k. key (f r k) = key k"
  shows "distinct (map key rs) \<Longrightarrow> fold (\<lambda>r. update_where (\<lambda>k. key k = key r) (f r)) rs table =
     map (\<lambda>k. case find (\<lambda>r. key r = key k) rs of None \<Rightarrow> k | Some r \<Rightarrow> f r k) table"
proof (induction rs arbitrary: table)
  case (Cons r rs)
  have none: "find (\<lambda>r'. key r' = key k) rs = None" if "key k = key r" for k
    using Cons.prems that unfolding find_None_iff by simp (metis image_eqI)
  have "fold (\<lambda>r. update_where (\<lambda>k. key k = key r) (f r)) (r # rs) table =
      map (\<lambda>k. case find (\<lambda>r. key r = key k) rs of None \<Rightarrow> k | Some r \<Rightarrow> f r k) (update_where (\<lambda>k. key k = key r) (f r) table)"
    using Cons by simp
  also have "\<dots> = map (\<lambda>k. case find (\<lambda>r. key r = key k) (r # rs) of None \<Rightarrow> k | Some r \<Rightarrow> f r k) table"
    unfolding update_where_def map_map comp_def
  proof (rule map_cong [OF refl])
    fix k
    show "(case find (\<lambda>r'. key r' = key (if key k = key r then f r k else k)) rs of
        None \<Rightarrow> if key k = key r then f r k else k | Some r' \<Rightarrow> f r' (if key k = key r then f r k else k)) =
      (case find (\<lambda>r. key r = key k) (r # rs) of None \<Rightarrow> k | Some r \<Rightarrow> f r k)"
      by (cases "key k = key r") (use none [of k] assms [of r k] in auto)
  qed
  finally show ?case .
qed simp

lemma find_same_key: "distinct (map key rs) \<Longrightarrow> r \<in> set rs \<Longrightarrow> find (\<lambda>r'. key r' = key r) rs = Some r"
  by (induction rs) auto

text \<open>A row found by a part of it is found in the list of those parts.\<close>

lemma find_key: "find (\<lambda>j. key (f j) = i) xs = None \<longleftrightarrow> find (\<lambda>x. key x = i) (map f xs) = None"
  "map_option f (find (\<lambda>j. key (f j) = i) xs) = find (\<lambda>x. key x = i) (map f xs)"
  by (induction xs) auto

lemma find_append: "find P (xs @ ys) = (case find P xs of None \<Rightarrow> find P ys | Some x \<Rightarrow> Some x)"
  by (induction xs) auto

lemma row_where_update:
  "(\<And>r. key (g r) = key r) \<Longrightarrow>
     row_where (\<lambda>r. key r = k) (update_where (\<lambda>r. key r = a) g rows) = map_option (\<lambda>r. if key r = a then g r else r) (row_where (\<lambda>r. key r = k) rows)"
  by (induction rows) (auto simp: row_where_def update_where_def)

lemma fold_update_rows:
  assumes "\<And>r k. key (f r k) = key k" "distinct (map key table)" "distinct (map key rs)" "set rs \<subseteq> set table"
  shows "fold (\<lambda>r. update_where (\<lambda>k. key k = key r) (f r)) rs table = map (\<lambda>k. if k \<in> set rs then f k k else k) table"
  unfolding fold_update_keys [OF assms(1,3)]
proof (rule map_cong [OF refl])
  fix k assume k: "k \<in> set table"
  show "(case find (\<lambda>r. key r = key k) rs of None \<Rightarrow> k | Some r \<Rightarrow> f r k) = (if k \<in> set rs then f k k else k)"
  proof (cases "find (\<lambda>r. key r = key k) rs")
    case None
    then have "k \<notin> set rs" by (auto simp: find_None_iff)
    then show ?thesis by (simp add: None)
  next
    case (Some r)
    then have "r \<in> set rs" "key r = key k" by (auto simp: find_Some_iff)
    then have "r = k" using distinct_key_eq [OF assms(2) _ k] assms(4) by blast
    then show ?thesis using Some \<open>r \<in> set rs\<close> by simp
  qed
qed

subsection \<open>A key that is not in use\<close>

text \<open>What the default of a primary key (\<open>uuid.uuid4\<close>) gives: an id no row has.\<close>

definition fresh_id :: "uid list \<Rightarrow> uid" where
  "fresh_id ids = Suc (fold max ids 0)"

lemma fold_max_ge: "(x::nat) \<le> fold max ids x"
  by (induction ids arbitrary: x) (auto intro: order_trans [OF max.cobounded2])

lemma fold_max_upper: "i \<in> set ids \<Longrightarrow> i \<le> fold max ids (x::nat)"
proof (induction ids arbitrary: x)
  case (Cons j ids)
  then show ?case using fold_max_ge [of "max j x" ids] by auto
qed simp

lemma fresh_id_notin: "fresh_id ids \<notin> set ids"
  using fold_max_upper [of "fresh_id ids" ids 0] by (auto simp: fresh_id_def)

lemma fresh_id_neq [simp]: "i \<in> set ids \<Longrightarrow> i \<noteq> fresh_id ids" "i \<in> set ids \<Longrightarrow> fresh_id ids \<noteq> i"
  using fresh_id_notin [of ids] by auto

subsection \<open>Settings read from the environment\<close>

text \<open>\<open>str.lower\<close>, \<open>str.upper\<close> and \<open>str.strip\<close> on ASCII text.\<close>

definition ascii_lower :: "char \<Rightarrow> char" where
  "ascii_lower ch = (if CHR ''A'' \<le> ch \<and> ch \<le> CHR ''Z'' then char_of (of_char ch + (32::nat)) else ch)"

definition ascii_upper :: "char \<Rightarrow> char" where
  "ascii_upper ch = (if CHR ''a'' \<le> ch \<and> ch \<le> CHR ''z'' then char_of (of_char ch - (32::nat)) else ch)"

definition lower :: "string \<Rightarrow> string" where "lower s = map ascii_lower s"

definition upper :: "string \<Rightarrow> string" where "upper s = map ascii_upper s"

definition blank :: "char \<Rightarrow> bool" where
  "blank ch \<longleftrightarrow> ch \<in> {CHR '' '', CHR 0x09, CHR 0x0A, CHR 0x0B, CHR 0x0C, CHR 0x0D, CHR 0x1C, CHR 0x1D, CHR 0x1E, CHR 0x1F}"

definition strip :: "string \<Rightarrow> string" where
  "strip s = rev (dropWhile blank (rev (dropWhile blank s)))"

subsection \<open>Text taken apart\<close>

text \<open>\<open>str.rstrip(ch)\<close>, \<open>str.split(ch)\<close> (never empty), \<open>ch.join(parts)\<close> and \<open>str.partition(ch)\<close>.\<close>

definition rstrip_char :: "char \<Rightarrow> string \<Rightarrow> string" where
  "rstrip_char c s = rev (dropWhile (\<lambda>ch. ch = c) (rev s))"

fun split_on :: "char \<Rightarrow> string \<Rightarrow> string list" where
  "split_on c [] = [[]]"
| "split_on c (ch # s) = (if ch = c then [] # split_on c s
     else case split_on c s of [] \<Rightarrow> [[ch]] | part # parts \<Rightarrow> (ch # part) # parts)"

fun join_with :: "char \<Rightarrow> string list \<Rightarrow> string" where
  "join_with c [] = []"
| "join_with c [part] = part"
| "join_with c (part # parts) = part @ c # join_with c parts"

definition partition_at :: "char \<Rightarrow> string \<Rightarrow> string \<times> bool \<times> string" where
  "partition_at c s = (takeWhile (\<lambda>ch. ch \<noteq> c) s, c \<in> set s, drop 1 (dropWhile (\<lambda>ch. ch \<noteq> c) s))"

lemma split_on_not_Nil [simp]: "split_on c s \<noteq> []"
  by (induction s) (auto split: list.splits)

lemma split_on_append: "c \<notin> set l \<Longrightarrow> split_on c (l @ c # s) = l # split_on c s"
  by (induction l) auto

lemma split_on_one: "c \<notin> set l \<Longrightarrow> split_on c l = [l]"
  by (induction l) auto

lemma split_on_join: "parts \<noteq> [] \<Longrightarrow> \<forall>l \<in> set parts. c \<notin> set l \<Longrightarrow> split_on c (join_with c parts) = parts"
  by (induction c parts rule: join_with.induct) (auto simp: split_on_append split_on_one)

lemma split_on_parts: "part \<in> set (split_on c s) \<Longrightarrow> c \<notin> set part"
  by (induction s arbitrary: part) (auto split: list.splits if_splits)

lemma dropWhile_rev_prefix: "\<exists>zs. rev (dropWhile P (rev u)) @ zs = u"
  by (metis dropWhile_eq_drop rev_drop rev_rev_ident append_take_drop_id)

lemma strip_edges: "strip s \<noteq> [] \<Longrightarrow> \<not> blank (hd (strip s)) \<and> \<not> blank (last (strip s))"
proof -
  assume ne: "strip s \<noteq> []"
  obtain zs where zs: "strip s @ zs = dropWhile blank s"
    using dropWhile_rev_prefix [of blank "dropWhile blank s"] by (auto simp: strip_def)
  have "hd (strip s) = hd (dropWhile blank s)" using ne by (metis hd_append2 zs)
  then have "\<not> blank (hd (strip s))" using ne zs hd_dropWhile [of blank s] by (metis append_is_Nil_conv)
  moreover have "\<not> blank (last (strip s))"
    using ne hd_dropWhile [of blank "rev (dropWhile blank s)"] by (simp add: strip_def last_rev)
  ultimately show ?thesis by simp
qed

lemma strip_id: "\<not> blank (hd s) \<Longrightarrow> \<not> blank (last s) \<Longrightarrow> strip s = s"
proof (cases "s = []")
  case False
  assume "\<not> blank (hd s)" "\<not> blank (last s)"
  then have "dropWhile blank s = s" "dropWhile blank (rev s) = rev s"
    using False by (metis dropWhile_eq_self_iff hd_rev)+
  then show ?thesis by (simp add: strip_def)
qed (simp add: strip_def)

lemma strip_strip [simp]: "strip (strip s) = strip s"
proof (cases "strip s = []")
  case True
  have "strip [] = []" by (simp add: strip_def)
  then show ?thesis by (simp only: True)
next
  case False
  then show ?thesis by (intro strip_id) (use strip_edges [of s] in simp_all)
qed

lemma set_strip: "set (strip s) \<subseteq> set s"
  by (auto simp: strip_def dest!: set_dropWhileD)

text \<open>A comprehension whose body may raise.\<close>

fun collect :: "('a \<Rightarrow> 'e + 'b) \<Rightarrow> 'a list \<Rightarrow> 'e + 'b list" where
  "collect f [] = Inr []"
| "collect f (x # xs) = and_then (f x) (\<lambda>y. and_then (collect f xs) (\<lambda>ys. Inr (y # ys)))"

lemma collect_Inr: "collect f xs = Inr ys \<Longrightarrow> list_all2 (\<lambda>x y. f x = Inr y) xs ys"
  by (induction xs arbitrary: ys) (auto simp: and_then_Inr_iff)

lemma collect_all: "list_all2 (\<lambda>x y. f x = Inr y) xs ys \<Longrightarrow> collect f xs = Inr ys"
  by (induction xs ys rule: list_all2_induct) auto

lemma collect_set: "collect f xs = Inr ys \<Longrightarrow> x \<in> set xs \<Longrightarrow> \<exists>y \<in> set ys. f x = Inr y"
  by (auto simp: list_all2_conv_all_nth in_set_conv_nth dest!: collect_Inr)

subsection \<open>Interface: a claim only one caller can win\<close>

text \<open>
  What a conditional update that hands out work promises: while it is held nobody wins it again. \<open>within\<close>
  are the claims of the time window that counts.
\<close>

locale exclusive_claim =
  fixes claim :: "'c \<Rightarrow> 't \<Rightarrow> bool \<times> 't"
    and within :: "'c \<Rightarrow> bool"
    and held :: "'t \<Rightarrow> bool"
    and ok :: "'t \<Rightarrow> bool"
  assumes winning: "ok t \<Longrightarrow> within c \<Longrightarrow> claim c t = (w, t') \<Longrightarrow> ok t' \<and> (w \<longrightarrow> held t')"
    and holding: "ok t \<Longrightarrow> within c \<Longrightarrow> held t \<Longrightarrow> claim c t = (w, t') \<Longrightarrow> \<not> w \<and> held t'"
begin

fun wins :: "'c list \<Rightarrow> 't \<Rightarrow> nat" where
  "wins [] t = 0"
| "wins (c # cs) t = (case claim c t of (w, t') \<Rightarrow> of_bool w + wins cs t')"

lemma no_win_when_held: "ok t \<Longrightarrow> held t \<Longrightarrow> \<forall>c \<in> set cs. within c \<Longrightarrow> wins cs t = 0"
proof (induction cs arbitrary: t)
  case (Cons c cs)
  obtain w t' where c: "claim c t = (w, t')" by fastforce
  then have "\<not> w" "held t'" "ok t'"
    using holding [OF Cons.prems(1) _ Cons.prems(2) c] winning [OF Cons.prems(1) _ c] Cons.prems(3) by auto
  then show ?case using Cons.IH [of t'] Cons.prems(3) c by simp
qed simp

lemma at_most_one: "ok t \<Longrightarrow> \<forall>c \<in> set cs. within c \<Longrightarrow> wins cs t \<le> 1"
proof (induction cs arbitrary: t)
  case (Cons c cs)
  obtain w t' where c: "claim c t = (w, t')" by fastforce
  have "ok t'" "w \<Longrightarrow> held t'" using winning [OF Cons.prems(1) _ c] Cons.prems(2) by auto
  then show ?case using Cons.IH [of t'] Cons.prems(2) c no_win_when_held [of t' cs] by (cases w) auto
qed simp

end

end
