(* ===== verification/FsmEngine.thy ===== *)
theory FsmEngine
  imports SmoPrelude
begin

section \<open>The transition engine (shared/smo\_shared/statemachine.py)\<close>

text \<open>
  Every lifecycle of the platform is a table of transitions interpreted by one small engine.
  A row leads from a state, on an event, to a state, under an optional guard and with an
  optional action. The keyword context that \<open>fire\<close> hands to guards and actions is the
  type \<open>'c\<close>; an action that changes the objects of the context returns the changed context.
  \<open>fire\<close> also counts what happened (\<open>record_transition\<close>,
  \<open>record_illegal_transition\<close>): \<open>fire_recorded\<close> returns that observation with
  the result, \<open>fire\<close> is the result alone. The label of the metric is the name of the state
  type, so it is left out.
\<close>

record ('s, 'e, 'c) transition =
  from_state :: 's
  event :: 'e
  to_state :: 's
  guard :: "('c \<Rightarrow> bool) option"
  action :: "('c \<Rightarrow> 'c) option"

datatype ('s, 'e) illegal_transition = IllegalTransition (illegal_state: 's) (illegal_event: 'e)

datatype ('s, 'e) fsm_metric = TransitionRecorded 's 'e 's | IllegalRecorded 's 'e

type_synonym ('s, 'e, 'c) state_machine = "('s, 'e, 'c) transition list"

definition add_transition :: "('s, 'e, 'c) state_machine \<Rightarrow> ('s, 'e, 'c) transition \<Rightarrow> ('s, 'e, 'c) state_machine" where
  "add_transition fsm t = fsm @ [t]"

definition machine_of :: "('s, 'e, 'c) transition list \<Rightarrow> ('s, 'e, 'c) state_machine" where
  "machine_of rows = foldl add_transition [] rows"

abbreviation edge :: "'s \<Rightarrow> 'e \<Rightarrow> 's \<Rightarrow> ('s, 'e, 'c) transition" where
  "edge s e t \<equiv> \<lparr>from_state = s, event = e, to_state = t, guard = None, action = None\<rparr>"

abbreviation guarded_edge :: "'s \<Rightarrow> 'e \<Rightarrow> 's \<Rightarrow> ('c \<Rightarrow> bool) \<Rightarrow> ('s, 'e, 'c) transition" where
  "guarded_edge s e t g \<equiv> \<lparr>from_state = s, event = e, to_state = t, guard = Some g, action = None\<rparr>"

abbreviation acting_edge :: "'s \<Rightarrow> 'e \<Rightarrow> 's \<Rightarrow> ('c \<Rightarrow> 'c) \<Rightarrow> ('s, 'e, 'c) transition" where
  "acting_edge s e t a \<equiv> \<lparr>from_state = s, event = e, to_state = t, guard = None, action = Some a\<rparr>"

definition candidates :: "('s, 'e, 'c) state_machine \<Rightarrow> 's \<Rightarrow> 'e \<Rightarrow> ('s, 'e, 'c) transition list" where
  "candidates fsm s e = filter (\<lambda>t. from_state t = s \<and> event t = e) fsm"

definition guard_passes :: "('s, 'e, 'c) transition \<Rightarrow> 'c \<Rightarrow> bool" where
  "guard_passes t c = (case guard t of None \<Rightarrow> True | Some g \<Rightarrow> g c)"

definition run_action :: "('s, 'e, 'c) transition \<Rightarrow> 'c \<Rightarrow> 'c" where
  "run_action t c = (case action t of None \<Rightarrow> c | Some a \<Rightarrow> a c)"

text \<open>The loop of \<open>fire\<close>: the first candidate whose guard passes.\<close>

fun first_passing :: "('s, 'e, 'c) transition list \<Rightarrow> 'c \<Rightarrow> ('s, 'e, 'c) transition option" where
  "first_passing [] c = None"
| "first_passing (t # ts) c = (if guard_passes t c then Some t else first_passing ts c)"

definition fire_recorded ::
  "('s, 'e, 'c) state_machine \<Rightarrow> 's \<Rightarrow> 'e \<Rightarrow> 'c
     \<Rightarrow> ('s, 'e) fsm_metric \<times> (('s, 'e) illegal_transition + 's \<times> 'c)" where
  "fire_recorded fsm s e c =
     (let cs = candidates fsm s e
      in if cs = [] then (IllegalRecorded s e, Inl (IllegalTransition s e))
         else case first_passing cs c of
             Some t \<Rightarrow> (TransitionRecorded s e (to_state t), Inr (to_state t, run_action t c))
           | None \<Rightarrow> (IllegalRecorded s e, Inl (IllegalTransition s e)))"

definition fire :: "('s, 'e, 'c) state_machine \<Rightarrow> 's \<Rightarrow> 'e \<Rightarrow> 'c \<Rightarrow> ('s, 'e) illegal_transition + 's \<times> 'c" where
  "fire fsm s e c = snd (fire_recorded fsm s e c)"

definition legal_events :: "('s, 'e, 'c) state_machine \<Rightarrow> 's \<Rightarrow> 'e list" where
  "legal_events fsm s = map event (filter (\<lambda>t. from_state t = s) fsm)"

text \<open>A sequence of events, each fired from the state the one before it left.\<close>

fun fire_all :: "('s, 'e, 'c) state_machine \<Rightarrow> 's \<Rightarrow> 'e list \<Rightarrow> 'c \<Rightarrow> ('s, 'e) illegal_transition + 's \<times> 'c" where
  "fire_all fsm s [] c = Inr (s, c)"
| "fire_all fsm s (e # es) c =
     (case fire fsm s e c of Inl err \<Rightarrow> Inl err | Inr (s', c') \<Rightarrow> fire_all fsm s' es c')"

subsection \<open>What the engine does\<close>

lemma foldl_add_transition: "foldl add_transition acc rows = acc @ rows"
  by (induction rows arbitrary: acc) (auto simp: add_transition_def)

lemma machine_of_rows [simp]: "machine_of rows = rows"
  by (simp add: machine_of_def foldl_add_transition)

lemma candidates_Nil [simp]: "candidates [] s e = []"
  by (simp add: candidates_def)

lemma candidates_Cons [simp]:
  "candidates (t # ts) s e =
     (if from_state t = s \<and> event t = e then t # candidates ts s e else candidates ts s e)"
  by (simp add: candidates_def)

lemma guard_passes_None [simp]: "guard t = None \<Longrightarrow> guard_passes t c"
  by (simp add: guard_passes_def)

lemma guard_passes_Some [simp]: "guard t = Some g \<Longrightarrow> guard_passes t c \<longleftrightarrow> g c"
  by (simp add: guard_passes_def)

lemma run_action_None [simp]: "action t = None \<Longrightarrow> run_action t c = c"
  by (simp add: run_action_def)

lemma run_action_Some [simp]: "action t = Some a \<Longrightarrow> run_action t c = a c"
  by (simp add: run_action_def)

lemma fire_first_passing:
  "fire fsm s e c =
     (case first_passing (candidates fsm s e) c of
        Some t \<Rightarrow> Inr (to_state t, run_action t c)
      | None \<Rightarrow> Inl (IllegalTransition s e))"
  by (simp add: fire_def fire_recorded_def Let_def split: option.splits)

lemma first_passing_SomeD: "first_passing ts c = Some t \<Longrightarrow> t \<in> set ts \<and> guard_passes t c"
  by (induction ts) (auto split: if_splits)

lemma first_passing_None: "first_passing ts c = None \<longleftrightarrow> (\<forall>t \<in> set ts. \<not> guard_passes t c)"
  by (induction ts) auto

lemma first_passing_split:
  "first_passing ts c = Some t \<longleftrightarrow>
     (\<exists>pre post. ts = pre @ t # post \<and> guard_passes t c \<and> (\<forall>u \<in> set pre. \<not> guard_passes u c))"
  (is "?lhs \<longleftrightarrow> ?rhs")
proof
  show "?lhs \<Longrightarrow> ?rhs"
  proof (induction ts)
    case (Cons u ts)
    show ?case
    proof (cases "guard_passes u c")
      case True
      with Cons.prems have "u # ts = [] @ t # ts \<and> guard_passes t c \<and> (\<forall>u \<in> set []. \<not> guard_passes u c)" by simp
      then show ?thesis by blast
    next
      case False
      with Cons obtain pre post where "ts = pre @ t # post" "guard_passes t c" "\<forall>u \<in> set pre. \<not> guard_passes u c"
        by auto
      with False have "u # ts = (u # pre) @ t # post \<and> guard_passes t c \<and> (\<forall>u \<in> set (u # pre). \<not> guard_passes u c)"
        by simp
      then show ?thesis by blast
    qed
  qed simp
  have "first_passing (pre @ t # post) c = Some t"
    if "guard_passes t c" "\<forall>u \<in> set pre. \<not> guard_passes u c" for pre post
    using that by (induction pre) auto
  then show "?rhs \<Longrightarrow> ?lhs" by blast
qed

lemma fire_error: "fire fsm s e c = Inl err \<Longrightarrow> err = IllegalTransition s e"
  by (auto simp: fire_first_passing split: option.splits)

lemma fire_ok_edge:
  "fire fsm s e c = Inr (s', c') \<Longrightarrow>
     \<exists>t \<in> set fsm. from_state t = s \<and> event t = e \<and> to_state t = s' \<and> guard_passes t c \<and> c' = run_action t c"
  by (auto simp: fire_first_passing candidates_def split: option.splits dest!: first_passing_SomeD)

lemma fire_all_append:
  "fire_all fsm s (xs @ ys) c =
     (case fire_all fsm s xs c of Inl err \<Rightarrow> Inl err | Inr (s', c') \<Rightarrow> fire_all fsm s' ys c')"
  by (induction xs arbitrary: s c) (auto split: sum.splits)

subsection \<open>Interface: a table without two rows for one (state, event)\<close>

text \<open>
  All but one of the platform's tables have at most one row per (state, event): the answer of
  the engine is then the table read as a partial function.
\<close>

locale functional_table =
  fixes fsm :: "('s, 'e, 'c) state_machine"
  assumes one_row: "distinct (map (\<lambda>t. (from_state t, event t)) fsm)"
begin

lemma candidates_single:
  assumes "t \<in> set fsm" "from_state t = s" "event t = e"
  shows "candidates fsm s e = [t]"
proof -
  have "\<And>rows. distinct (map (\<lambda>t. (from_state t, event t)) rows) \<Longrightarrow> t \<in> set rows \<Longrightarrow>
      candidates rows s e = [t]"
  proof -
    fix rows
    show "distinct (map (\<lambda>t. (from_state t, event t)) rows) \<Longrightarrow> t \<in> set rows \<Longrightarrow>
        candidates rows s e = [t]"
    proof (induction rows)
      case (Cons u rows)
      have none: "candidates rows s e = []" if "u = t"
        using Cons.prems that assms(2,3) by (force simp: candidates_def filter_empty_conv image_iff)
      show ?case
      proof (cases "u = t")
        case True
        then show ?thesis using none assms(2,3) by simp
      next
        case False
        with Cons.prems have "t \<in> set rows" by simp
        moreover from this Cons.prems assms(2,3) have "\<not> (from_state u = s \<and> event u = e)"
          by (force simp: image_iff)
        ultimately show ?thesis using Cons by simp
      qed
    qed simp
  qed
  then show ?thesis using one_row assms(1) by blast
qed

lemma fire_row:
  assumes "t \<in> set fsm" "from_state t = s" "event t = e"
  shows "fire fsm s e c = (if guard_passes t c then Inr (to_state t, run_action t c) else Inl (IllegalTransition s e))"
  using candidates_single [OF assms] by (simp add: fire_first_passing)

lemma fire_iff:
  "fire fsm s e c = Inr (s', c') \<longleftrightarrow>
     (\<exists>t \<in> set fsm. from_state t = s \<and> event t = e \<and> guard_passes t c \<and> to_state t = s' \<and> c' = run_action t c)"
  using fire_ok_edge fire_row by fastforce

end

text \<open>A table without guards and actions: whether an event is legal depends on the state alone.\<close>

locale plain_table = functional_table +
  assumes plain: "t \<in> set fsm \<Longrightarrow> guard t = None \<and> action t = None"
begin

lemma fire_plain_iff:
  "fire fsm s e c = Inr (s', c') \<longleftrightarrow>
     (\<exists>t \<in> set fsm. from_state t = s \<and> event t = e \<and> to_state t = s') \<and> c' = c"
  using plain by (fastforce simp: fire_iff)

lemma legal_iff_fires: "e \<in> set (legal_events fsm s) \<longleftrightarrow> (\<exists>s'. fire fsm s e c = Inr (s', c))"
  unfolding fire_plain_iff by (auto simp: legal_events_def)

lemma stuck_iff: "legal_events fsm s = [] \<longleftrightarrow> (\<forall>e. fire fsm s e c = Inl (IllegalTransition s e))"
proof
  assume none: "legal_events fsm s = []"
  show "\<forall>e. fire fsm s e c = Inl (IllegalTransition s e)"
  proof
    fix e
    show "fire fsm s e c = Inl (IllegalTransition s e)"
    proof (cases "fire fsm s e c")
      case (Inl err)
      then show ?thesis by (simp add: fire_error)
    next
      case (Inr p)
      then obtain s' c' where "fire fsm s e c = Inr (s', c')" by (cases p) auto
      with none show ?thesis unfolding fire_plain_iff by (auto simp: legal_events_def filter_empty_conv)
    qed
  qed
next
  assume all: "\<forall>e. fire fsm s e c = Inl (IllegalTransition s e)"
  show "legal_events fsm s = []"
  proof (rule ccontr)
    assume "legal_events fsm s \<noteq> []"
    then obtain e where "e \<in> set (legal_events fsm s)" by (cases "legal_events fsm s") auto
    with all legal_iff_fires [of e s c] show False by simp
  qed
qed

lemma fire_all_plain_context: "fire_all fsm s es c = Inr (s', c') \<Longrightarrow> c' = c"
proof (induction es arbitrary: s c)
  case (Cons e es)
  then obtain s1 c1 where step: "fire fsm s e c = Inr (s1, c1)" and rest: "fire_all fsm s1 es c1 = Inr (s', c')"
    by (auto split: sum.splits)
  from step have "c1 = c" unfolding fire_plain_iff by blast
  with Cons.IH [OF rest] show ?case by simp
qed simp

end

subsection \<open>The claim about the engine\<close>

lemma first_passing_find:
  "first_passing (candidates fsm s e) c = find (\<lambda>t. from_state t = s \<and> event t = e \<and> guard_passes t c) fsm"
  by (induction fsm) auto

text \<open>The transition engine takes the first matching row: \<open>fire\<close> succeeds exactly when some row of the table
  matches the state and the event with a guard that passes while every matching row added before it is refused by
  its guard; it then gives that row's target and runs that row's action; in every other case it raises
  IllegalTransition for that very state and event.\<close>

theorem fire_takes_first_match:
  "fire fsm s e c =
     (if \<exists>row \<in> set fsm. from_state row = s \<and> event row = e \<and> guard_passes row c
      then (let i = (LEAST i. i < length fsm \<and> from_state (fsm ! i) = s \<and> event (fsm ! i) = e \<and> guard_passes (fsm ! i) c)
            in Inr (to_state (fsm ! i), run_action (fsm ! i) c))
      else Inl (IllegalTransition s e))"
proof (cases "find (\<lambda>t. from_state t = s \<and> event t = e \<and> guard_passes t c) fsm")
  case None
  then have "\<not> (\<exists>row \<in> set fsm. from_state row = s \<and> event row = e \<and> guard_passes row c)"
    by (auto simp: find_None_iff)
  with None show ?thesis by (auto simp: fire_first_passing first_passing_find)
next
  case (Some row)
  let ?ok = "\<lambda>i. i < length fsm \<and> from_state (fsm ! i) = s \<and> event (fsm ! i) = e \<and> guard_passes (fsm ! i) c"
  from Some obtain i where i: "?ok i" "row = fsm ! i" "\<forall>k < i. \<not> ?ok k"
    by (auto simp: find_Some_iff)
  then have "(LEAST i. ?ok i) = i" by (intro Least_equality) (auto simp: not_less [symmetric])
  moreover have "\<exists>row \<in> set fsm. from_state row = s \<and> event row = e \<and> guard_passes row c"
    using i nth_mem by blast
  ultimately show ?thesis using Some i(2) by (simp add: fire_first_passing first_passing_find Let_def)
qed

end
