(* ===== verification/ModelLifecycle.thy ===== *)
theory ModelLifecycle
  imports FsmEngine
begin

section \<open>The model, runtime and inference lifecycles (aimgf/app/statemachine.py)\<close>

text \<open>
  Three plain tables: a model's certification path (14 states), its serving runtime
  (8 states) and an inference job, with the event sets that say which events the operator's
  \<open>advance\<close> route may fire, and the rule that decides a group retrain.
\<close>

datatype ModelLifecycleState =
    REGISTERED | TRAINING | TRAINED | VALIDATING | VALIDATED | EMULATING | EMULATED
  | PENDING_APPROVAL | APPROVED | CERTIFIED | PROMOTED | DEPRECATED | RETIRED | FAILED

datatype ModelLifecycleEvent =
    CREATE_TRAINING | TRAINING_COMPLETE | TRAINING_FAILED | APPROVE_TRAINING | CREATE_VALIDATION
  | VALIDATION_COMPLETE | VALIDATION_FAILED | APPROVE_VALIDATION | CREATE_EMULATION
  | EMULATION_COMPLETE | EMULATION_FAILED | SUBMIT_FOR_APPROVAL | APPROVE | REJECT | CERTIFY
  | PROMOTE | ROLLBACK | DEPRECATE | RETIRE

definition GOVERNANCE_EVENTS :: "ModelLifecycleEvent list" where
  "GOVERNANCE_EVENTS = [SUBMIT_FOR_APPROVAL, APPROVE, REJECT, CERTIFY, PROMOTE, ROLLBACK,
     APPROVE_TRAINING, APPROVE_VALIDATION]"

definition ADVANCEABLE_EVENTS :: "ModelLifecycleEvent list" where
  "ADVANCEABLE_EVENTS = GOVERNANCE_EVENTS @ [DEPRECATE, RETIRE]"

definition TRAINABLE_STATES :: "ModelLifecycleState list" where
  "TRAINABLE_STATES = [REGISTERED, CERTIFIED, PROMOTED, FAILED, TRAINING]"

definition END_OF_LIFE_STATES :: "ModelLifecycleState list" where
  "END_OF_LIFE_STATES = [DEPRECATED, RETIRED]"

definition MODEL_LIFECYCLE_FSM :: "(ModelLifecycleState, ModelLifecycleEvent, unit) state_machine" where
  [fsm_tables]: "MODEL_LIFECYCLE_FSM = machine_of [
     edge REGISTERED CREATE_TRAINING TRAINING,
     edge TRAINING TRAINING_COMPLETE TRAINED,
     edge TRAINING TRAINING_FAILED FAILED,
     edge TRAINED APPROVE_TRAINING TRAINED,
     edge TRAINED CREATE_VALIDATION VALIDATING,
     edge VALIDATING VALIDATION_COMPLETE VALIDATED,
     edge VALIDATING VALIDATION_FAILED FAILED,
     edge VALIDATED APPROVE_VALIDATION VALIDATED,
     edge VALIDATED CREATE_EMULATION EMULATING,
     edge EMULATING EMULATION_COMPLETE EMULATED,
     edge EMULATING EMULATION_FAILED FAILED,
     edge EMULATED SUBMIT_FOR_APPROVAL PENDING_APPROVAL,
     edge PENDING_APPROVAL APPROVE APPROVED,
     edge PENDING_APPROVAL REJECT FAILED,
     edge APPROVED CERTIFY CERTIFIED,
     edge CERTIFIED PROMOTE PROMOTED,
     edge CERTIFIED DEPRECATE DEPRECATED,
     edge CERTIFIED CREATE_TRAINING TRAINING,
     edge PROMOTED ROLLBACK CERTIFIED,
     edge PROMOTED DEPRECATE DEPRECATED,
     edge PROMOTED CREATE_TRAINING TRAINING,
     edge DEPRECATED RETIRE RETIRED,
     edge FAILED RETIRE RETIRED,
     edge FAILED CREATE_TRAINING TRAINING]"

datatype RuntimeLifecycleState =
    NOT_DEPLOYED | DEPLOYMENT_REQUESTED | DEPLOYED | ACTIVATING | ACTIVE | SCALING | TERMINATING | TERMINATED

datatype RuntimeLifecycleEvent =
    REQUEST_DEPLOYMENT | DEPLOYMENT_COMPLETE | ACTIVATE | ACTIVATION_COMPLETE | REQUEST_SCALE
  | SCALE_COMPLETE | REQUEST_TERMINATION | TERMINATION_COMPLETE

definition RUNTIME_LIFECYCLE_FSM :: "(RuntimeLifecycleState, RuntimeLifecycleEvent, unit) state_machine" where
  [fsm_tables]: "RUNTIME_LIFECYCLE_FSM = machine_of [
     edge NOT_DEPLOYED REQUEST_DEPLOYMENT DEPLOYMENT_REQUESTED,
     edge DEPLOYMENT_REQUESTED DEPLOYMENT_COMPLETE DEPLOYED,
     edge DEPLOYED ACTIVATE ACTIVATING,
     edge ACTIVATING ACTIVATION_COMPLETE ACTIVE,
     edge ACTIVE REQUEST_SCALE SCALING,
     edge SCALING SCALE_COMPLETE ACTIVE,
     edge DEPLOYMENT_REQUESTED REQUEST_TERMINATION TERMINATING,
     edge DEPLOYED REQUEST_TERMINATION TERMINATING,
     edge ACTIVE REQUEST_TERMINATION TERMINATING,
     edge TERMINATING TERMINATION_COMPLETE TERMINATED]"

datatype InferenceState = RUNNING | COMPLETED | FAILED

datatype InferenceEvent = COMPLETE | FAIL

definition INFERENCE_JOB_FSM :: "(InferenceState, InferenceEvent, unit) state_machine" where
  [fsm_tables]: "INFERENCE_JOB_FSM = machine_of [
     edge RUNNING COMPLETE COMPLETED,
     edge RUNNING FAIL InferenceState.FAILED]"

text \<open>
  The value of \<open>retrainPropagation\<close> is untrusted text. \<open>breached\_count > member\_count / 2\<close>
  divides two integers exactly, which over the integers is \<open>2 * breached > members\<close>.
\<close>

definition should_trigger_group_retrain :: "string \<Rightarrow> int \<Rightarrow> int \<Rightarrow> py_error + bool" where
  "should_trigger_group_retrain retrain_propagation member_count breached_count =
     (if breached_count = 0 then Inr False
      else if retrain_propagation = ''ANY_MEMBER_TRIGGERS'' then Inr True
      else if retrain_propagation = ''MAJORITY_TRIGGERS'' then Inr (2 * breached_count > member_count)
      else if retrain_propagation = ''WEIGHTED_TRIGGERS'' then Inl (NotImplementedError retrain_propagation)
      else Inl (ValueError retrain_propagation))"

subsection \<open>The tables are functional and plain\<close>

interpretation model_table: plain_table MODEL_LIFECYCLE_FSM
  by unfold_locales (auto simp: fsm_tables)

interpretation runtime_table: plain_table RUNTIME_LIFECYCLE_FSM
  by unfold_locales (auto simp: fsm_tables)

interpretation inference_table: plain_table INFERENCE_JOB_FSM
  by unfold_locales (auto simp: fsm_tables)

lemma model_edge_cases:
  assumes "fire MODEL_LIFECYCLE_FSM s e c = Inr (t, c')"
  shows "(s, e, t) \<in> set (map (\<lambda>r. (from_state r, event r, to_state r)) MODEL_LIFECYCLE_FSM)"
  using assms unfolding model_table.fire_plain_iff by force

lemma runtime_edge_cases:
  assumes "fire RUNTIME_LIFECYCLE_FSM s e c = Inr (t, c')"
  shows "(s, e, t) \<in> set (map (\<lambda>r. (from_state r, event r, to_state r)) RUNTIME_LIFECYCLE_FSM)"
  using assms unfolding runtime_table.fire_plain_iff by force

subsection \<open>No shortcut to a promoted model\<close>

text \<open>The events every run must contain to arrive in a state.\<close>

definition certification_path :: "ModelLifecycleEvent list" where
  "certification_path = [CREATE_TRAINING, TRAINING_COMPLETE, CREATE_VALIDATION, VALIDATION_COMPLETE,
     CREATE_EMULATION, EMULATION_COMPLETE, SUBMIT_FOR_APPROVAL, APPROVE, CERTIFY, PROMOTE]"

fun path_length :: "ModelLifecycleState \<Rightarrow> nat" where
  "path_length REGISTERED = 0"
| "path_length TRAINING = 1"
| "path_length TRAINED = 2"
| "path_length VALIDATING = 3"
| "path_length VALIDATED = 4"
| "path_length EMULATING = 5"
| "path_length EMULATED = 6"
| "path_length PENDING_APPROVAL = 7"
| "path_length APPROVED = 8"
| "path_length CERTIFIED = 9"
| "path_length PROMOTED = 10"
| "path_length DEPRECATED = 9"
| "path_length RETIRED = 0"
| "path_length ModelLifecycleState.FAILED = 0"

lemma subseq_take: "n \<le> m \<Longrightarrow> subseq (take n xs) (take m xs)"
  by (metis prefix_imp_subseq take_is_prefix min.absorb1 take_take)

lemma path_step:
  assumes "fire MODEL_LIFECYCLE_FSM s e c = Inr (t, c')"
  shows "path_length t \<le> path_length s \<or>
    path_length t = Suc (path_length s) \<and> certification_path ! path_length s = e \<or>
    path_length t = 1 \<and> e = CREATE_TRAINING"
  using model_edge_cases [OF assms] by (auto simp: fsm_tables certification_path_def)

lemma path_in_run:
  "fire_all MODEL_LIFECYCLE_FSM REGISTERED es c = Inr (t, c') \<Longrightarrow>
     subseq (take (path_length t) certification_path) es"
proof (induction es arbitrary: t c' rule: rev_induct)
  case Nil
  then show ?case by simp
next
  case (snoc e es)
  from snoc.prems obtain s c1 where run: "fire_all MODEL_LIFECYCLE_FSM REGISTERED es c = Inr (s, c1)"
    and step: "fire MODEL_LIFECYCLE_FSM s e c1 = Inr (t, c')"
    by (auto simp: fire_all_append split: sum.splits)
  note IH = snoc.IH [OF run]
  have len: "path_length s < length certification_path" if "path_length t = Suc (path_length s)"
    using that by (cases t) (auto simp: certification_path_def)
  from path_step [OF step] show ?case
  proof (elim disjE conjE)
    assume "path_length t \<le> path_length s"
    then have "subseq (take (path_length t) certification_path) (take (path_length s) certification_path)"
      by (rule subseq_take)
    moreover have "subseq es (es @ [e])" by (simp add: prefix_imp_subseq)
    ultimately show ?thesis using IH by (meson subseq_order.trans)
  next
    assume n: "path_length t = Suc (path_length s)" and e: "certification_path ! path_length s = e"
    from n e len have "take (path_length t) certification_path = take (path_length s) certification_path @ [e]"
      by (simp add: take_Suc_conv_app_nth)
    with IH show ?thesis by (simp add: list_emb_append_mono)
  next
    assume "path_length t = 1" "e = CREATE_TRAINING"
    then have "take (path_length t) certification_path = [e]" by (simp add: certification_path_def)
    then show ?thesis by (simp add: subseq_drop_many)
  qed
qed

text \<open>The stages a model passes before any governance decision on it.\<close>

definition before_governance :: "ModelLifecycleState list" where
  "before_governance = [REGISTERED, TRAINING, TRAINED, VALIDATING, VALIDATED, EMULATING,
     ModelLifecycleState.FAILED, RETIRED]"

lemma advance_stays_before_governance:
  "fire_all MODEL_LIFECYCLE_FSM s es c = Inr (t, c') \<Longrightarrow> set es \<subseteq> set ADVANCEABLE_EVENTS \<Longrightarrow>
     s \<in> set before_governance \<Longrightarrow> t \<in> set before_governance \<and> (t = s \<or> t = RETIRED)"
proof (induction es arbitrary: s c)
  case (Cons e es)
  then obtain s1 c1 where step: "fire MODEL_LIFECYCLE_FSM s e c = Inr (s1, c1)"
    and rest: "fire_all MODEL_LIFECYCLE_FSM s1 es c1 = Inr (t, c')"
    by (auto split: sum.splits)
  have "s1 \<in> set before_governance \<and> (s1 = s \<or> s1 = RETIRED)"
    using model_edge_cases [OF step] Cons.prems(2,3)
    by (auto simp: fsm_tables before_governance_def ADVANCEABLE_EVENTS_def GOVERNANCE_EVENTS_def)
  with Cons.IH [OF rest] Cons.prems(2) show ?case by auto
qed simp

subsection \<open>The claims\<close>

text \<open>A model is PROMOTED only through the whole pipeline: every sequence of lifecycle events that takes a newly
  REGISTERED model to PROMOTED contains training, validation and emulation, created and completed, then submission,
  approval, certification and promotion, in that order.\<close>

theorem promoted_went_through_pipeline:
  assumes "fire_all MODEL_LIFECYCLE_FSM REGISTERED es c = Inr (PROMOTED, c')"
  shows "subseq [CREATE_TRAINING, TRAINING_COMPLETE, CREATE_VALIDATION, VALIDATION_COMPLETE,
     CREATE_EMULATION, EMULATION_COMPLETE, SUBMIT_FOR_APPROVAL, APPROVE, CERTIFY, PROMOTE] es"
  using path_in_run [OF assms] by (simp add: certification_path_def)

theorem promoted_went_through_pipeline_witness:
  "subseq [CREATE_TRAINING, TRAINING_COMPLETE, CREATE_VALIDATION, VALIDATION_COMPLETE,
     CREATE_EMULATION, EMULATION_COMPLETE, SUBMIT_FOR_APPROVAL, APPROVE, CERTIFY, PROMOTE] certification_path"
  by (rule promoted_went_through_pipeline [of _ "()" "()"])
     (simp add: certification_path_def fire_first_passing fsm_tables)

text \<open>The advance route cannot skip a job: from any stage before the governance decisions, no sequence of the
  events \<open>POST /models/{id}/advance\<close> accepts leads anywhere but where the model is or to RETIRED.\<close>

theorem advance_route_skips_no_job:
  assumes "fire_all MODEL_LIFECYCLE_FSM s es c = Inr (t, c')" "set es \<subseteq> set ADVANCEABLE_EVENTS"
    "s \<in> {REGISTERED, TRAINING, TRAINED, VALIDATING, VALIDATED, EMULATING, ModelLifecycleState.FAILED}"
  shows "t = s \<or> t = RETIRED"
  using advance_stays_before_governance [OF assms(1,2)] assms(3) by (auto simp: before_governance_def)

theorem advance_route_skips_no_job_witness:
  "TRAINED = TRAINED \<or> TRAINED = RETIRED"
  by (rule advance_route_skips_no_job [of TRAINED "[APPROVE_TRAINING]" "()" TRAINED "()"])
     (simp_all add: fire_first_passing fsm_tables ADVANCEABLE_EVENTS_def GOVERNANCE_EVENTS_def)

end
