(* ===== verification/Errors.thy ===== *)
theory Errors
  imports SmoPrelude
begin

section \<open>The error catalogue (shared/smo\_shared/errors.py)\<close>

text \<open>
  Every error a route raises is a pair of a code and an HTTP status; the code is the \<open>title\<close> of the
  problem body and is what clients match on. The human-readable detail is not modelled.
  \<open>Unhandled\<close> is an exception no handler catches: the 500 of the framework, which no route of the
  model is meant to answer.
\<close>

datatype http_error = Problem (title: string) (status_code: nat) | Unhandled string

definition ENDPOINT_UNREACHABLE :: http_error where "ENDPOINT_UNREACHABLE = Problem ''ENDPOINT_UNREACHABLE'' 503"
definition SCHEMA_VALIDATION_FAILED :: http_error where "SCHEMA_VALIDATION_FAILED = Problem ''SCHEMA_VALIDATION_FAILED'' 422"
definition MSAC_ACCESS_DENIED :: http_error where "MSAC_ACCESS_DENIED = Problem ''MSAC_ACCESS_DENIED'' 403"
definition PROTOCOL_NOT_SUPPORTED :: http_error where "PROTOCOL_NOT_SUPPORTED = Problem ''PROTOCOL_NOT_SUPPORTED'' 409"
definition MODEL_NOT_CERTIFIED :: http_error where "MODEL_NOT_CERTIFIED = Problem ''MODEL_NOT_CERTIFIED'' 409"
definition NODE_GROUP_NOT_CLEARED :: http_error where "NODE_GROUP_NOT_CLEARED = Problem ''NODE_GROUP_NOT_CLEARED'' 403"
definition COORDINATION_GROUP_MISMATCH :: http_error where "COORDINATION_GROUP_MISMATCH = Problem ''COORDINATION_GROUP_MISMATCH'' 422"
definition COORDINATION_GROUP_TOO_SMALL :: http_error where "COORDINATION_GROUP_TOO_SMALL = Problem ''COORDINATION_GROUP_TOO_SMALL'' 422"
definition INFERENCE_MODEL_NOT_ACTIVE :: http_error where "INFERENCE_MODEL_NOT_ACTIVE = Problem ''INFERENCE_MODEL_NOT_ACTIVE'' 409"
definition MODEL_ALREADY_REGISTERED :: http_error where "MODEL_ALREADY_REGISTERED = Problem ''MODEL_ALREADY_REGISTERED'' 409"
definition MODEL_IDENTITY_IMMUTABLE :: http_error where "MODEL_IDENTITY_IMMUTABLE = Problem ''MODEL_IDENTITY_IMMUTABLE'' 400"
definition MODEL_ACCESS_DENIED :: http_error where "MODEL_ACCESS_DENIED = Problem ''MODEL_ACCESS_DENIED'' 403"
definition MODEL_EXPIRED :: http_error where "MODEL_EXPIRED = Problem ''MODEL_EXPIRED'' 410"
definition FEATURE_GROUP_NAME_INVALID :: http_error where "FEATURE_GROUP_NAME_INVALID = Problem ''FEATURE_GROUP_NAME_INVALID'' 400"
definition FEATURE_GROUP_ALREADY_REGISTERED :: http_error where "FEATURE_GROUP_ALREADY_REGISTERED = Problem ''FEATURE_GROUP_ALREADY_REGISTERED'' 409"
definition FEATURE_GROUP_DME_JOB_REFUSED :: http_error where "FEATURE_GROUP_DME_JOB_REFUSED = Problem ''FEATURE_GROUP_DME_JOB_REFUSED'' 422"
definition FEATURE_GROUP_NOT_FOUND :: http_error where "FEATURE_GROUP_NOT_FOUND = Problem ''FEATURE_GROUP_NOT_FOUND'' 404"
definition LIFECYCLE_ILLEGAL_TRANSITION :: http_error where "LIFECYCLE_ILLEGAL_TRANSITION = Problem ''LIFECYCLE_ILLEGAL_TRANSITION'' 409"
definition GOVERNANCE_DECIDER_REQUIRED :: http_error where "GOVERNANCE_DECIDER_REQUIRED = Problem ''GOVERNANCE_DECIDER_REQUIRED'' 422"
definition DIGITAL_TWIN_INFERENCE_NOT_ELIGIBLE :: http_error where "DIGITAL_TWIN_INFERENCE_NOT_ELIGIBLE = Problem ''DIGITAL_TWIN_INFERENCE_NOT_ELIGIBLE'' 422"
definition DME_ARTIFACT_NOT_FOUND :: http_error where "DME_ARTIFACT_NOT_FOUND = Problem ''DME_ARTIFACT_NOT_FOUND'' 422"
definition TRAINING_JOB_ILLEGAL_TRANSITION :: http_error where "TRAINING_JOB_ILLEGAL_TRANSITION = Problem ''TRAINING_JOB_ILLEGAL_TRANSITION'' 409"
definition RMIH_CAPABILITY_MISMATCH :: http_error where "RMIH_CAPABILITY_MISMATCH = Problem ''RMIH_CAPABILITY_MISMATCH'' 422"
definition SUBSCRIPTION_SCOPE_CONFLICT :: http_error where "SUBSCRIPTION_SCOPE_CONFLICT = Problem ''SUBSCRIPTION_SCOPE_CONFLICT'' 422"
definition SERVICE_NAME_CONFLICT :: http_error where "SERVICE_NAME_CONFLICT = Problem ''SERVICE_NAME_CONFLICT'' 409"
definition DME_TYPE_VERSION_CONFLICT :: http_error where "DME_TYPE_VERSION_CONFLICT = Problem ''DME_TYPE_VERSION_CONFLICT'' 409"
definition DME_TYPE_NOT_FOUND :: http_error where "DME_TYPE_NOT_FOUND = Problem ''DME_TYPE_NOT_FOUND'' 404"
definition DME_TYPE_HAS_ACTIVE_PRODUCERS :: http_error where "DME_TYPE_HAS_ACTIVE_PRODUCERS = Problem ''DME_TYPE_HAS_ACTIVE_PRODUCERS'' 409"
definition DELIVERY_METHOD_NOT_OFFERED :: http_error where "DELIVERY_METHOD_NOT_OFFERED = Problem ''DELIVERY_METHOD_NOT_OFFERED'' 409"
definition DATA_JOB_TARGET_IMMUTABLE :: http_error where "DATA_JOB_TARGET_IMMUTABLE = Problem ''DATA_JOB_TARGET_IMMUTABLE'' 400"
definition APF_NOT_REGISTERED :: http_error where "APF_NOT_REGISTERED = Problem ''APF_NOT_REGISTERED'' 403"
definition ROLLBACK_HISTORY_UNAVAILABLE :: http_error where "ROLLBACK_HISTORY_UNAVAILABLE = Problem ''ROLLBACK_HISTORY_UNAVAILABLE'' 409"
definition NFDEPLOYMENT_NAME_CONFLICT :: http_error where "NFDEPLOYMENT_NAME_CONFLICT = Problem ''NFDEPLOYMENT_NAME_CONFLICT'' 409"
definition NFDEPLOYMENT_DESCRIPTOR_ALREADY_DEPLOYED :: http_error where "NFDEPLOYMENT_DESCRIPTOR_ALREADY_DEPLOYED = Problem ''NFDEPLOYMENT_DESCRIPTOR_ALREADY_DEPLOYED'' 409"
definition NFDEPLOYMENT_DESCRIPTOR_NOT_FOUND :: http_error where "NFDEPLOYMENT_DESCRIPTOR_NOT_FOUND = Problem ''NFDEPLOYMENT_DESCRIPTOR_NOT_FOUND'' 422"
definition NFDEPLOYMENT_ILLEGAL_OPERATION :: http_error where "NFDEPLOYMENT_ILLEGAL_OPERATION = Problem ''NFDEPLOYMENT_ILLEGAL_OPERATION'' 409"
definition RAPP_INSTANCE_NOT_UNDEPLOYED :: http_error where "RAPP_INSTANCE_NOT_UNDEPLOYED = Problem ''RAPP_INSTANCE_NOT_UNDEPLOYED'' 409"
definition INVOKER_NOT_REGISTERED :: http_error where "INVOKER_NOT_REGISTERED = Problem ''INVOKER_NOT_REGISTERED'' 400"
definition TRUSTED_INVOKER_NOT_FOUND :: http_error where "TRUSTED_INVOKER_NOT_FOUND = Problem ''TRUSTED_INVOKER_NOT_FOUND'' 404"
definition SECURITY_CONTEXT_INVALID :: http_error where "SECURITY_CONTEXT_INVALID = Problem ''SECURITY_CONTEXT_INVALID'' 422"
definition SOFTWARE_JOB_NOT_FOUND :: http_error where "SOFTWARE_JOB_NOT_FOUND = Problem ''SOFTWARE_JOB_NOT_FOUND'' 404"
definition UPSTREAM_FAILED :: http_error where "UPSTREAM_FAILED = Problem ''UPSTREAM_FAILED'' 502"
definition LCM_OPERATION_NOT_FOUND :: http_error where "LCM_OPERATION_NOT_FOUND = Problem ''LCM_OPERATION_NOT_FOUND'' 404"
definition SERVICE_ORDER_NOT_FOUND :: http_error where "SERVICE_ORDER_NOT_FOUND = Problem ''SERVICE_ORDER_NOT_FOUND'' 404"
definition VALUE_OUT_OF_RANGE :: http_error where "VALUE_OUT_OF_RANGE = Problem ''VALUE_OUT_OF_RANGE'' 422"
definition REFERENCED_RESOURCE_NOT_FOUND :: http_error where "REFERENCED_RESOURCE_NOT_FOUND = Problem ''REFERENCED_RESOURCE_NOT_FOUND'' 422"
definition RESOURCE_ALREADY_EXISTS :: http_error where "RESOURCE_ALREADY_EXISTS = Problem ''RESOURCE_ALREADY_EXISTS'' 409"
definition CONSTRAINT_VIOLATED :: http_error where "CONSTRAINT_VIOLATED = Problem ''CONSTRAINT_VIOLATED'' 422"
definition INTERNAL_ERROR :: http_error where "INTERNAL_ERROR = Problem ''INTERNAL_ERROR'' 500"
definition ALARM_NOT_FOUND :: http_error where "ALARM_NOT_FOUND = Problem ''ALARM_NOT_FOUND'' 404"
definition O1_ENDPOINT_NOT_FOUND :: http_error where "O1_ENDPOINT_NOT_FOUND = Problem ''O1_ENDPOINT_NOT_FOUND'' 404"
definition O1_HOST_KEY_NOT_FOUND :: http_error where "O1_HOST_KEY_NOT_FOUND = Problem ''O1_HOST_KEY_NOT_FOUND'' 404"
definition MANAGED_OBJECT_NOT_FOUND :: http_error where "MANAGED_OBJECT_NOT_FOUND = Problem ''MANAGED_OBJECT_NOT_FOUND'' 404"
definition CONFIG_JOB_NOT_FOUND :: http_error where "CONFIG_JOB_NOT_FOUND = Problem ''CONFIG_JOB_NOT_FOUND'' 404"
definition CM_SNAPSHOT_NOT_FOUND :: http_error where "CM_SNAPSHOT_NOT_FOUND = Problem ''CM_SNAPSHOT_NOT_FOUND'' 404"
definition KPI_NOT_FOUND :: http_error where "KPI_NOT_FOUND = Problem ''KPI_NOT_FOUND'' 404"
definition RAPP_LIMIT_NOT_FOUND :: http_error where "RAPP_LIMIT_NOT_FOUND = Problem ''RAPP_LIMIT_NOT_FOUND'' 404"
definition RAPP_RATE_LIMITED :: http_error where "RAPP_RATE_LIMITED = Problem ''RAPP_RATE_LIMITED'' 429"
definition RAPP_LIMIT_SELF_CHANGE :: http_error where "RAPP_LIMIT_SELF_CHANGE = Problem ''RAPP_LIMIT_SELF_CHANGE'' 403"
definition RAPP_KILLED :: http_error where "RAPP_KILLED = Problem ''RAPP_KILLED'' 403"
definition RAPP_BLAST_RADIUS_EXCEEDED :: http_error where "RAPP_BLAST_RADIUS_EXCEEDED = Problem ''RAPP_BLAST_RADIUS_EXCEEDED'' 403"
definition RAPP_MAGNITUDE_EXCEEDED :: http_error where "RAPP_MAGNITUDE_EXCEEDED = Problem ''RAPP_MAGNITUDE_EXCEEDED'' 403"
definition RAPP_KILL_NOT_FOUND :: http_error where "RAPP_KILL_NOT_FOUND = Problem ''RAPP_KILL_NOT_FOUND'' 404"
definition SAFEGUARD_SUBSCRIPTION_NOT_FOUND :: http_error where "SAFEGUARD_SUBSCRIPTION_NOT_FOUND = Problem ''SAFEGUARD_SUBSCRIPTION_NOT_FOUND'' 404"
definition KPI_SCHEDULE_NOT_FOUND :: http_error where "KPI_SCHEDULE_NOT_FOUND = Problem ''KPI_SCHEDULE_NOT_FOUND'' 404"
definition APPROVAL_NOT_FOUND :: http_error where "APPROVAL_NOT_FOUND = Problem ''APPROVAL_NOT_FOUND'' 404"
definition APPROVAL_POLICY_NOT_FOUND :: http_error where "APPROVAL_POLICY_NOT_FOUND = Problem ''APPROVAL_POLICY_NOT_FOUND'' 404"
definition APPROVAL_SUBSCRIPTION_NOT_FOUND :: http_error where "APPROVAL_SUBSCRIPTION_NOT_FOUND = Problem ''APPROVAL_SUBSCRIPTION_NOT_FOUND'' 404"
definition APPROVAL_NOT_PENDING :: http_error where "APPROVAL_NOT_PENDING = Problem ''APPROVAL_NOT_PENDING'' 409"
definition APPROVAL_SELF_DECISION :: http_error where "APPROVAL_SELF_DECISION = Problem ''APPROVAL_SELF_DECISION'' 403"
definition DECISION_RECORD_NOT_FOUND :: http_error where "DECISION_RECORD_NOT_FOUND = Problem ''DECISION_RECORD_NOT_FOUND'' 404"
definition ENROLLMENT_NOT_CONFIGURED :: http_error where "ENROLLMENT_NOT_CONFIGURED = Problem ''ENROLLMENT_NOT_CONFIGURED'' 503"
definition ENROLLMENT_REFUSED :: http_error where "ENROLLMENT_REFUSED = Problem ''ENROLLMENT_REFUSED'' 403"
definition ROLE_NOT_PERMITTED :: http_error where "ROLE_NOT_PERMITTED = Problem ''ROLE_NOT_PERMITTED'' 403"
definition SCOPE_DENIED :: http_error where "SCOPE_DENIED = Problem ''SCOPE_DENIED'' 403"
definition AUTHZ_SCOPE_INVALID :: http_error where "AUTHZ_SCOPE_INVALID = Problem ''AUTHZ_SCOPE_INVALID'' 422"
definition ROLLBACK_NOT_POSSIBLE :: http_error where "ROLLBACK_NOT_POSSIBLE = Problem ''ROLLBACK_NOT_POSSIBLE'' 422"
definition CONFIG_CHANGED_SINCE :: http_error where "CONFIG_CHANGED_SINCE = Problem ''CONFIG_CHANGED_SINCE'' 409"
definition WAVE_PAUSE_NOT_ELAPSED :: http_error where "WAVE_PAUSE_NOT_ELAPSED = Problem ''WAVE_PAUSE_NOT_ELAPSED'' 409"
definition MODEL_NOT_FOUND :: http_error where "MODEL_NOT_FOUND = Problem ''MODEL_NOT_FOUND'' 404"
definition TRAINING_JOB_NOT_FOUND :: http_error where "TRAINING_JOB_NOT_FOUND = Problem ''TRAINING_JOB_NOT_FOUND'' 404"
definition VALIDATION_JOB_NOT_FOUND :: http_error where "VALIDATION_JOB_NOT_FOUND = Problem ''VALIDATION_JOB_NOT_FOUND'' 404"
definition EMULATION_JOB_NOT_FOUND :: http_error where "EMULATION_JOB_NOT_FOUND = Problem ''EMULATION_JOB_NOT_FOUND'' 404"
definition MLMF_SUBSCRIPTION_NOT_FOUND :: http_error where "MLMF_SUBSCRIPTION_NOT_FOUND = Problem ''MLMF_SUBSCRIPTION_NOT_FOUND'' 404"
definition PRODUCER_NOT_FOUND :: http_error where "PRODUCER_NOT_FOUND = Problem ''PRODUCER_NOT_FOUND'' 404"
definition TYPE_SUBSCRIPTION_NOT_FOUND :: http_error where "TYPE_SUBSCRIPTION_NOT_FOUND = Problem ''TYPE_SUBSCRIPTION_NOT_FOUND'' 404"
definition DATA_JOB_NOT_FOUND :: http_error where "DATA_JOB_NOT_FOUND = Problem ''DATA_JOB_NOT_FOUND'' 404"
definition DATA_OFFER_NOT_FOUND :: http_error where "DATA_OFFER_NOT_FOUND = Problem ''DATA_OFFER_NOT_FOUND'' 404"
definition DME_ACTION_NOT_FOUND :: http_error where "DME_ACTION_NOT_FOUND = Problem ''DME_ACTION_NOT_FOUND'' 404"
definition RESOURCE_TYPE_NOT_FOUND :: http_error where "RESOURCE_TYPE_NOT_FOUND = Problem ''RESOURCE_TYPE_NOT_FOUND'' 404"
definition RESOURCE_POOL_NOT_FOUND :: http_error where "RESOURCE_POOL_NOT_FOUND = Problem ''RESOURCE_POOL_NOT_FOUND'' 404"
definition DEPLOYMENT_MANAGER_NOT_FOUND :: http_error where "DEPLOYMENT_MANAGER_NOT_FOUND = Problem ''DEPLOYMENT_MANAGER_NOT_FOUND'' 404"
definition INTENT_HANDLING_FUNCTION_NOT_FOUND :: http_error where "INTENT_HANDLING_FUNCTION_NOT_FOUND = Problem ''INTENT_HANDLING_FUNCTION_NOT_FOUND'' 404"
definition INTENT_NOT_FOUND :: http_error where "INTENT_NOT_FOUND = Problem ''INTENT_NOT_FOUND'' 404"
definition ARTIFACT_FORMAT_INVALID :: http_error where "ARTIFACT_FORMAT_INVALID = Problem ''ARTIFACT_FORMAT_INVALID'' 415"
definition ARTIFACT_VERSION_NOT_FOUND :: http_error where "ARTIFACT_VERSION_NOT_FOUND = Problem ''ARTIFACT_VERSION_NOT_FOUND'' 404"
definition NFDEPLOYMENT_NOT_FOUND :: http_error where "NFDEPLOYMENT_NOT_FOUND = Problem ''NFDEPLOYMENT_NOT_FOUND'' 404"
definition RAPP_INSTANCE_NOT_FOUND :: http_error where "RAPP_INSTANCE_NOT_FOUND = Problem ''RAPP_INSTANCE_NOT_FOUND'' 404"
definition ASSURANCE_MONITOR_NOT_FOUND :: http_error where "ASSURANCE_MONITOR_NOT_FOUND = Problem ''ASSURANCE_MONITOR_NOT_FOUND'' 404"
definition PUBLISHING_FUNCTION_NOT_FOUND :: http_error where "PUBLISHING_FUNCTION_NOT_FOUND = Problem ''PUBLISHING_FUNCTION_NOT_FOUND'' 404"
definition TRAINING_NOT_APPROVED :: http_error where "TRAINING_NOT_APPROVED = Problem ''TRAINING_NOT_APPROVED'' 409"
definition VALIDATION_NOT_APPROVED :: http_error where "VALIDATION_NOT_APPROVED = Problem ''VALIDATION_NOT_APPROVED'' 409"
definition AUTONOMY_DISPATCH_NOT_FOUND :: http_error where "AUTONOMY_DISPATCH_NOT_FOUND = Problem ''AUTONOMY_DISPATCH_NOT_FOUND'' 404"
definition AUTONOMY_DISPATCH_NOT_AWAITING_SCOPE :: http_error where "AUTONOMY_DISPATCH_NOT_AWAITING_SCOPE = Problem ''AUTONOMY_DISPATCH_NOT_AWAITING_SCOPE'' 409"
definition NRM_OBJECT_NOT_FOUND :: http_error where "NRM_OBJECT_NOT_FOUND = Problem ''NRM_OBJECT_NOT_FOUND'' 404"
definition INFERENCE_FUNCTION_NOT_ACTIVATED :: http_error where "INFERENCE_FUNCTION_NOT_ACTIVATED = Problem ''INFERENCE_FUNCTION_NOT_ACTIVATED'' 409"
definition MODEL_NOT_LOADED :: http_error where "MODEL_NOT_LOADED = Problem ''MODEL_NOT_LOADED'' 409"
definition MDA_CAPABILITY_NOT_SUPPORTED :: http_error where "MDA_CAPABILITY_NOT_SUPPORTED = Problem ''MDA_CAPABILITY_NOT_SUPPORTED'' 422"
definition PACKAGE_NOT_FOUND :: http_error where "PACKAGE_NOT_FOUND = Problem ''PACKAGE_NOT_FOUND'' 404"
definition O1_SERVICE_NOT_SUPPORTED :: http_error where "O1_SERVICE_NOT_SUPPORTED = Problem ''O1_SERVICE_NOT_SUPPORTED'' 409"
definition VENDOR_CAPABILITY_NOT_FOUND :: http_error where "VENDOR_CAPABILITY_NOT_FOUND = Problem ''VENDOR_CAPABILITY_NOT_FOUND'' 404"
definition CM_SCHEMA_NOT_FOUND :: http_error where "CM_SCHEMA_NOT_FOUND = Problem ''CM_SCHEMA_NOT_FOUND'' 404"
definition CM_SCHEMA_CONFLICT :: http_error where "CM_SCHEMA_CONFLICT = Problem ''CM_SCHEMA_CONFLICT'' 409"
definition MANAGED_ENTITY_NOT_FOUND :: http_error where "MANAGED_ENTITY_NOT_FOUND = Problem ''MANAGED_ENTITY_NOT_FOUND'' 404"
definition INFERENCE_JOB_NOT_FOUND :: http_error where "INFERENCE_JOB_NOT_FOUND = Problem ''INFERENCE_JOB_NOT_FOUND'' 404"
definition PACKAGE_USAGE_REGISTRATION_NOT_FOUND :: http_error where "PACKAGE_USAGE_REGISTRATION_NOT_FOUND = Problem ''PACKAGE_USAGE_REGISTRATION_NOT_FOUND'' 404"
definition RAPP_UPGRADE_TIMED_OUT :: http_error where "RAPP_UPGRADE_TIMED_OUT = Problem ''RAPP_UPGRADE_TIMED_OUT'' 409"
definition CONCURRENT_MODIFICATION :: http_error where "CONCURRENT_MODIFICATION = Problem ''CONCURRENT_MODIFICATION'' 409"
definition IDEMPOTENCY_KEY_INVALID :: http_error where "IDEMPOTENCY_KEY_INVALID = Problem ''IDEMPOTENCY_KEY_INVALID'' 422"
definition IDEMPOTENCY_KEY_REUSED :: http_error where "IDEMPOTENCY_KEY_REUSED = Problem ''IDEMPOTENCY_KEY_REUSED'' 422"
definition IDEMPOTENCY_KEY_IN_PROGRESS :: http_error where "IDEMPOTENCY_KEY_IN_PROGRESS = Problem ''IDEMPOTENCY_KEY_IN_PROGRESS'' 409"

text \<open>The catalogue, in the order of the class.\<close>

definition FrameworkError :: "http_error list" where
  "FrameworkError = [
     ENDPOINT_UNREACHABLE, SCHEMA_VALIDATION_FAILED, MSAC_ACCESS_DENIED,
     PROTOCOL_NOT_SUPPORTED, MODEL_NOT_CERTIFIED, NODE_GROUP_NOT_CLEARED,
     COORDINATION_GROUP_MISMATCH, COORDINATION_GROUP_TOO_SMALL, INFERENCE_MODEL_NOT_ACTIVE,
     MODEL_ALREADY_REGISTERED, MODEL_IDENTITY_IMMUTABLE, MODEL_ACCESS_DENIED,
     MODEL_EXPIRED, FEATURE_GROUP_NAME_INVALID, FEATURE_GROUP_ALREADY_REGISTERED,
     FEATURE_GROUP_DME_JOB_REFUSED, FEATURE_GROUP_NOT_FOUND, LIFECYCLE_ILLEGAL_TRANSITION,
     GOVERNANCE_DECIDER_REQUIRED, DIGITAL_TWIN_INFERENCE_NOT_ELIGIBLE, DME_ARTIFACT_NOT_FOUND,
     TRAINING_JOB_ILLEGAL_TRANSITION, RMIH_CAPABILITY_MISMATCH, SUBSCRIPTION_SCOPE_CONFLICT,
     SERVICE_NAME_CONFLICT, DME_TYPE_VERSION_CONFLICT, DME_TYPE_NOT_FOUND,
     DME_TYPE_HAS_ACTIVE_PRODUCERS, DELIVERY_METHOD_NOT_OFFERED, DATA_JOB_TARGET_IMMUTABLE,
     APF_NOT_REGISTERED, ROLLBACK_HISTORY_UNAVAILABLE, NFDEPLOYMENT_NAME_CONFLICT,
     NFDEPLOYMENT_DESCRIPTOR_ALREADY_DEPLOYED, NFDEPLOYMENT_DESCRIPTOR_NOT_FOUND, NFDEPLOYMENT_ILLEGAL_OPERATION,
     RAPP_INSTANCE_NOT_UNDEPLOYED, INVOKER_NOT_REGISTERED, TRUSTED_INVOKER_NOT_FOUND,
     SECURITY_CONTEXT_INVALID, SOFTWARE_JOB_NOT_FOUND, UPSTREAM_FAILED,
     LCM_OPERATION_NOT_FOUND, SERVICE_ORDER_NOT_FOUND, VALUE_OUT_OF_RANGE,
     REFERENCED_RESOURCE_NOT_FOUND, RESOURCE_ALREADY_EXISTS, CONSTRAINT_VIOLATED,
     INTERNAL_ERROR, ALARM_NOT_FOUND, O1_ENDPOINT_NOT_FOUND,
     O1_HOST_KEY_NOT_FOUND, MANAGED_OBJECT_NOT_FOUND, CONFIG_JOB_NOT_FOUND,
     CM_SNAPSHOT_NOT_FOUND, KPI_NOT_FOUND, RAPP_LIMIT_NOT_FOUND,
     RAPP_RATE_LIMITED, RAPP_LIMIT_SELF_CHANGE, RAPP_KILLED,
     RAPP_BLAST_RADIUS_EXCEEDED, RAPP_MAGNITUDE_EXCEEDED, RAPP_KILL_NOT_FOUND,
     SAFEGUARD_SUBSCRIPTION_NOT_FOUND, KPI_SCHEDULE_NOT_FOUND, APPROVAL_NOT_FOUND,
     APPROVAL_POLICY_NOT_FOUND, APPROVAL_SUBSCRIPTION_NOT_FOUND, APPROVAL_NOT_PENDING,
     APPROVAL_SELF_DECISION, DECISION_RECORD_NOT_FOUND, ENROLLMENT_NOT_CONFIGURED,
     ENROLLMENT_REFUSED, ROLE_NOT_PERMITTED, SCOPE_DENIED,
     AUTHZ_SCOPE_INVALID, ROLLBACK_NOT_POSSIBLE, CONFIG_CHANGED_SINCE,
     WAVE_PAUSE_NOT_ELAPSED, MODEL_NOT_FOUND, TRAINING_JOB_NOT_FOUND,
     VALIDATION_JOB_NOT_FOUND, EMULATION_JOB_NOT_FOUND, MLMF_SUBSCRIPTION_NOT_FOUND,
     PRODUCER_NOT_FOUND, TYPE_SUBSCRIPTION_NOT_FOUND, DATA_JOB_NOT_FOUND,
     DATA_OFFER_NOT_FOUND, DME_ACTION_NOT_FOUND, RESOURCE_TYPE_NOT_FOUND,
     RESOURCE_POOL_NOT_FOUND, DEPLOYMENT_MANAGER_NOT_FOUND, INTENT_HANDLING_FUNCTION_NOT_FOUND,
     INTENT_NOT_FOUND, ARTIFACT_FORMAT_INVALID, ARTIFACT_VERSION_NOT_FOUND,
     NFDEPLOYMENT_NOT_FOUND, RAPP_INSTANCE_NOT_FOUND, ASSURANCE_MONITOR_NOT_FOUND,
     PUBLISHING_FUNCTION_NOT_FOUND, TRAINING_NOT_APPROVED, VALIDATION_NOT_APPROVED,
     AUTONOMY_DISPATCH_NOT_FOUND, AUTONOMY_DISPATCH_NOT_AWAITING_SCOPE, NRM_OBJECT_NOT_FOUND,
     INFERENCE_FUNCTION_NOT_ACTIVATED, MODEL_NOT_LOADED, MDA_CAPABILITY_NOT_SUPPORTED,
     PACKAGE_NOT_FOUND, O1_SERVICE_NOT_SUPPORTED, VENDOR_CAPABILITY_NOT_FOUND,
     CM_SCHEMA_NOT_FOUND, CM_SCHEMA_CONFLICT, MANAGED_ENTITY_NOT_FOUND,
     INFERENCE_JOB_NOT_FOUND, PACKAGE_USAGE_REGISTRATION_NOT_FOUND, RAPP_UPGRADE_TIMED_OUT,
     CONCURRENT_MODIFICATION, IDEMPOTENCY_KEY_INVALID, IDEMPOTENCY_KEY_REUSED,
     IDEMPOTENCY_KEY_IN_PROGRESS]"

lemmas error_codes =
  ENDPOINT_UNREACHABLE_def SCHEMA_VALIDATION_FAILED_def MSAC_ACCESS_DENIED_def
  PROTOCOL_NOT_SUPPORTED_def MODEL_NOT_CERTIFIED_def NODE_GROUP_NOT_CLEARED_def
  COORDINATION_GROUP_MISMATCH_def COORDINATION_GROUP_TOO_SMALL_def INFERENCE_MODEL_NOT_ACTIVE_def
  MODEL_ALREADY_REGISTERED_def MODEL_IDENTITY_IMMUTABLE_def MODEL_ACCESS_DENIED_def
  MODEL_EXPIRED_def FEATURE_GROUP_NAME_INVALID_def FEATURE_GROUP_ALREADY_REGISTERED_def
  FEATURE_GROUP_DME_JOB_REFUSED_def FEATURE_GROUP_NOT_FOUND_def LIFECYCLE_ILLEGAL_TRANSITION_def
  GOVERNANCE_DECIDER_REQUIRED_def DIGITAL_TWIN_INFERENCE_NOT_ELIGIBLE_def DME_ARTIFACT_NOT_FOUND_def
  TRAINING_JOB_ILLEGAL_TRANSITION_def RMIH_CAPABILITY_MISMATCH_def SUBSCRIPTION_SCOPE_CONFLICT_def
  SERVICE_NAME_CONFLICT_def DME_TYPE_VERSION_CONFLICT_def DME_TYPE_NOT_FOUND_def
  DME_TYPE_HAS_ACTIVE_PRODUCERS_def DELIVERY_METHOD_NOT_OFFERED_def DATA_JOB_TARGET_IMMUTABLE_def
  APF_NOT_REGISTERED_def ROLLBACK_HISTORY_UNAVAILABLE_def NFDEPLOYMENT_NAME_CONFLICT_def
  NFDEPLOYMENT_DESCRIPTOR_ALREADY_DEPLOYED_def NFDEPLOYMENT_DESCRIPTOR_NOT_FOUND_def NFDEPLOYMENT_ILLEGAL_OPERATION_def
  RAPP_INSTANCE_NOT_UNDEPLOYED_def INVOKER_NOT_REGISTERED_def TRUSTED_INVOKER_NOT_FOUND_def
  SECURITY_CONTEXT_INVALID_def SOFTWARE_JOB_NOT_FOUND_def UPSTREAM_FAILED_def
  LCM_OPERATION_NOT_FOUND_def SERVICE_ORDER_NOT_FOUND_def VALUE_OUT_OF_RANGE_def
  REFERENCED_RESOURCE_NOT_FOUND_def RESOURCE_ALREADY_EXISTS_def CONSTRAINT_VIOLATED_def
  INTERNAL_ERROR_def ALARM_NOT_FOUND_def O1_ENDPOINT_NOT_FOUND_def
  O1_HOST_KEY_NOT_FOUND_def MANAGED_OBJECT_NOT_FOUND_def CONFIG_JOB_NOT_FOUND_def
  CM_SNAPSHOT_NOT_FOUND_def KPI_NOT_FOUND_def RAPP_LIMIT_NOT_FOUND_def
  RAPP_RATE_LIMITED_def RAPP_LIMIT_SELF_CHANGE_def RAPP_KILLED_def
  RAPP_BLAST_RADIUS_EXCEEDED_def RAPP_MAGNITUDE_EXCEEDED_def RAPP_KILL_NOT_FOUND_def
  SAFEGUARD_SUBSCRIPTION_NOT_FOUND_def KPI_SCHEDULE_NOT_FOUND_def APPROVAL_NOT_FOUND_def
  APPROVAL_POLICY_NOT_FOUND_def APPROVAL_SUBSCRIPTION_NOT_FOUND_def APPROVAL_NOT_PENDING_def
  APPROVAL_SELF_DECISION_def DECISION_RECORD_NOT_FOUND_def ENROLLMENT_NOT_CONFIGURED_def
  ENROLLMENT_REFUSED_def ROLE_NOT_PERMITTED_def SCOPE_DENIED_def
  AUTHZ_SCOPE_INVALID_def ROLLBACK_NOT_POSSIBLE_def CONFIG_CHANGED_SINCE_def
  WAVE_PAUSE_NOT_ELAPSED_def MODEL_NOT_FOUND_def TRAINING_JOB_NOT_FOUND_def
  VALIDATION_JOB_NOT_FOUND_def EMULATION_JOB_NOT_FOUND_def MLMF_SUBSCRIPTION_NOT_FOUND_def
  PRODUCER_NOT_FOUND_def TYPE_SUBSCRIPTION_NOT_FOUND_def DATA_JOB_NOT_FOUND_def
  DATA_OFFER_NOT_FOUND_def DME_ACTION_NOT_FOUND_def RESOURCE_TYPE_NOT_FOUND_def
  RESOURCE_POOL_NOT_FOUND_def DEPLOYMENT_MANAGER_NOT_FOUND_def INTENT_HANDLING_FUNCTION_NOT_FOUND_def
  INTENT_NOT_FOUND_def ARTIFACT_FORMAT_INVALID_def ARTIFACT_VERSION_NOT_FOUND_def
  NFDEPLOYMENT_NOT_FOUND_def RAPP_INSTANCE_NOT_FOUND_def ASSURANCE_MONITOR_NOT_FOUND_def
  PUBLISHING_FUNCTION_NOT_FOUND_def TRAINING_NOT_APPROVED_def VALIDATION_NOT_APPROVED_def
  AUTONOMY_DISPATCH_NOT_FOUND_def AUTONOMY_DISPATCH_NOT_AWAITING_SCOPE_def NRM_OBJECT_NOT_FOUND_def
  INFERENCE_FUNCTION_NOT_ACTIVATED_def MODEL_NOT_LOADED_def MDA_CAPABILITY_NOT_SUPPORTED_def
  PACKAGE_NOT_FOUND_def O1_SERVICE_NOT_SUPPORTED_def VENDOR_CAPABILITY_NOT_FOUND_def
  CM_SCHEMA_NOT_FOUND_def CM_SCHEMA_CONFLICT_def MANAGED_ENTITY_NOT_FOUND_def
  INFERENCE_JOB_NOT_FOUND_def PACKAGE_USAGE_REGISTRATION_NOT_FOUND_def RAPP_UPGRADE_TIMED_OUT_def
  CONCURRENT_MODIFICATION_def IDEMPOTENCY_KEY_INVALID_def IDEMPOTENCY_KEY_REUSED_def
  IDEMPOTENCY_KEY_IN_PROGRESS_def

text \<open>The two codes of \<open>lifecycle.py\<close> that are not in the shared class, and \<open>illegal_transition_error\<close>.\<close>

definition ONBOARDING_TEMPLATE_NOT_FOUND :: http_error where
  "ONBOARDING_TEMPLATE_NOT_FOUND = Problem ''ONBOARDING_TEMPLATE_NOT_FOUND'' 404"
definition ELEMENT_ONBOARDING_NOT_FOUND :: http_error where
  "ELEMENT_ONBOARDING_NOT_FOUND = Problem ''ELEMENT_ONBOARDING_NOT_FOUND'' 404"
definition SOFTWARE_CAMPAIGN_NOT_FOUND :: http_error where
  "SOFTWARE_CAMPAIGN_NOT_FOUND = Problem ''SOFTWARE_CAMPAIGN_NOT_FOUND'' 404"
definition LIFECYCLE_SUBSCRIPTION_NOT_FOUND :: http_error where
  "LIFECYCLE_SUBSCRIPTION_NOT_FOUND = Problem ''LIFECYCLE_SUBSCRIPTION_NOT_FOUND'' 404"

definition illegal_transition_error :: http_error where
  "illegal_transition_error = LIFECYCLE_ILLEGAL_TRANSITION"

text \<open>A transition fired outside every \<open>try\<close>: a refusal of the table would escape as a 500.\<close>

definition uncaught :: "'x + 's \<times> 'c \<Rightarrow> http_error + 's" where
  "uncaught r = (case r of Inl _ \<Rightarrow> Inl (Unhandled ''IllegalTransition'') | Inr (s, _) \<Rightarrow> Inr s)"

lemma uncaught_simps [simp]:
  "uncaught (Inl e) = Inl (Unhandled ''IllegalTransition'')" "uncaught (Inr (s, c)) = Inr s"
  by (simp_all add: uncaught_def)

text \<open>The same transition under the handlers' \<open>except IllegalTransition\<close>.\<close>

definition or_conflict :: "'x + 's \<times> 'c \<Rightarrow> http_error + 's" where
  "or_conflict r = (case r of Inl _ \<Rightarrow> Inl illegal_transition_error | Inr (s, _) \<Rightarrow> Inr s)"

lemma or_conflict_simps [simp]:
  "or_conflict (Inl e) = Inl illegal_transition_error" "or_conflict (Inr (s, c)) = Inr s"
  by (simp_all add: or_conflict_def)

end
