(* ===== verification/RanLifecycles.thy ===== *)
theory RanLifecycles
  imports FsmEngine
begin

section \<open>The lifecycles of RAN NF OAM (ran-nf-oam/app/statemachine.py)\<close>

text \<open>
  Five independent plain tables: the write-configuration job, the software management job, the
  health of an O1 adaptor endpoint, the onboarding of an element and the software campaign; the
  aggregation of sub-change outcomes that chooses the event ending a configuration job; and the
  order of the phases of a software job. Names two tables share are written with their type.
\<close>

datatype JobState =
    PENDING | PENDING_APPROVAL | SCHEDULED | PROCESSING | HALTED | COMPLETED | PARTIAL_SUCCESS | FAILED | REJECTED

datatype JobEvent =
    PRECHECK_PASS | PRECHECK_FAIL | AGGREGATE_ALL_APPLIED | AGGREGATE_ALL_REJECTED | AGGREGATE_MIXED
  | HALT | RESUME | REQUEST_APPROVAL | APPROVE | APPROVE_FOR_WINDOW | START | REJECT

definition aggregate_event :: "string list \<Rightarrow> JobEvent" where
  "aggregate_event sub_change_statuses =
     (let applied = length (filter (\<lambda>s. s = ''APPLIED'') sub_change_statuses);
          rejected = length (filter (\<lambda>s. s = ''REJECTED'') sub_change_statuses)
      in if applied > 0 \<and> rejected > 0 then AGGREGATE_MIXED
         else if applied > 0 \<and> rejected = 0 then AGGREGATE_ALL_APPLIED
         else AGGREGATE_ALL_REJECTED)"

definition WRITE_CONFIG_JOB_FSM :: "(JobState, JobEvent, unit) state_machine" where
  [fsm_tables]: "WRITE_CONFIG_JOB_FSM = machine_of [
     edge PENDING PRECHECK_PASS PROCESSING,
     edge PENDING PRECHECK_FAIL FAILED,
     edge PENDING REQUEST_APPROVAL PENDING_APPROVAL,
     edge PENDING_APPROVAL APPROVE PROCESSING,
     edge PENDING_APPROVAL APPROVE_FOR_WINDOW SCHEDULED,
     edge PENDING_APPROVAL REJECT REJECTED,
     edge SCHEDULED START PROCESSING,
     edge SCHEDULED REJECT REJECTED,
     edge PROCESSING AGGREGATE_ALL_APPLIED COMPLETED,
     edge PROCESSING AGGREGATE_ALL_REJECTED FAILED,
     edge PROCESSING AGGREGATE_MIXED PARTIAL_SUCCESS,
     edge PROCESSING HALT HALTED,
     edge HALTED RESUME PROCESSING,
     edge HALTED AGGREGATE_ALL_APPLIED COMPLETED,
     edge HALTED AGGREGATE_ALL_REJECTED FAILED,
     edge HALTED AGGREGATE_MIXED PARTIAL_SUCCESS]"

datatype SwmState = PENDING | IN_PROGRESS | COMPLETED | FAILED

datatype SwmPhase = DOWNLOAD | INSTALL | ACTIVATE

datatype SwmEvent = START | DOWNLOAD_OK | INSTALL_OK | ACTIVATE_OK | PHASE_FAILED

definition SOFTWARE_MANAGEMENT_FSM :: "(SwmState, SwmEvent, unit) state_machine" where
  [fsm_tables]: "SOFTWARE_MANAGEMENT_FSM = machine_of [
     edge PENDING START IN_PROGRESS,
     edge IN_PROGRESS DOWNLOAD_OK IN_PROGRESS,
     edge IN_PROGRESS INSTALL_OK IN_PROGRESS,
     edge IN_PROGRESS ACTIVATE_OK COMPLETED,
     edge IN_PROGRESS PHASE_FAILED FAILED]"

definition PHASE_ORDER :: "SwmEvent \<rightharpoonup> SwmPhase" where
  "PHASE_ORDER = [DOWNLOAD_OK \<mapsto> INSTALL, INSTALL_OK \<mapsto> ACTIVATE]"

datatype EndpointHealth = DISCOVERED | ACTIVE | DEGRADED | UNREACHABLE

datatype EndpointEvent = HEARTBEAT | MISSED_HEARTBEATS | DEREGISTERED | RE_REGISTERED

definition ENDPOINT_HEALTH_FSM :: "(EndpointHealth, EndpointEvent, unit) state_machine" where
  [fsm_tables]: "ENDPOINT_HEALTH_FSM = machine_of [
     edge DISCOVERED HEARTBEAT ACTIVE,
     edge ACTIVE MISSED_HEARTBEATS DEGRADED,
     edge DEGRADED HEARTBEAT ACTIVE,
     edge DEGRADED DEREGISTERED UNREACHABLE,
     edge UNREACHABLE RE_REGISTERED DISCOVERED]"

datatype OnboardingState = DISCOVERED | NO_TEMPLATE | TEMPLATE_SELECTED | APPLYING | ONBOARDED | FAILED

datatype OnboardingEvent = TEMPLATE_MATCHED | NO_MATCH | APPLY | APPLIED | APPLY_FAILED

definition ONBOARDING_FSM :: "(OnboardingState, OnboardingEvent, unit) state_machine" where
  [fsm_tables]: "ONBOARDING_FSM = machine_of (
     map (\<lambda>state. edge state TEMPLATE_MATCHED TEMPLATE_SELECTED)
         [DISCOVERED, NO_TEMPLATE, TEMPLATE_SELECTED, ONBOARDED, FAILED] @
     map (\<lambda>state. edge state NO_MATCH NO_TEMPLATE)
         [DISCOVERED, NO_TEMPLATE, TEMPLATE_SELECTED, ONBOARDED, FAILED] @
     map (\<lambda>state. edge state APPLY APPLYING) [TEMPLATE_SELECTED, ONBOARDED, FAILED] @
     [edge APPLYING APPLIED ONBOARDED,
      edge APPLYING APPLY_FAILED FAILED])"

datatype CampaignState =
    PENDING | RUNNING | HALTED | COMPLETED | ABORTED | ROLLING_BACK | ROLLED_BACK | ROLLBACK_FAILED

datatype CampaignEvent =
    START | HALT | RESUME | FINISH | ABORT | ROLLBACK | ROLLBACK_DONE | ROLLBACK_FAILED

definition CAMPAIGN_FSM :: "(CampaignState, CampaignEvent, unit) state_machine" where
  [fsm_tables]: "CAMPAIGN_FSM = machine_of (
     [edge PENDING START RUNNING,
      edge RUNNING HALT HALTED,
      edge RUNNING FINISH COMPLETED,
      edge HALTED RESUME RUNNING,
      edge HALTED ABORT ABORTED] @
     map (\<lambda>state. edge state ROLLBACK ROLLING_BACK)
         [RUNNING, HALTED, COMPLETED, ABORTED, CampaignState.ROLLBACK_FAILED] @
     [edge ROLLING_BACK ROLLBACK_DONE ROLLED_BACK,
      edge ROLLING_BACK ROLLBACK_FAILED CampaignState.ROLLBACK_FAILED])"

subsection \<open>The phases of a software job are ordered\<close>

instantiation SwmPhase :: linorder
begin

definition phase_rank :: "SwmPhase \<Rightarrow> nat" where
  "phase_rank p = (case p of DOWNLOAD \<Rightarrow> 0 | INSTALL \<Rightarrow> 1 | ACTIVATE \<Rightarrow> 2)"

definition less_eq_SwmPhase :: "SwmPhase \<Rightarrow> SwmPhase \<Rightarrow> bool" where
  "less_eq_SwmPhase p q = (phase_rank p \<le> phase_rank q)"

definition less_SwmPhase :: "SwmPhase \<Rightarrow> SwmPhase \<Rightarrow> bool" where
  "less_SwmPhase p q = (phase_rank p < phase_rank q)"

instance
  by standard (auto simp: less_eq_SwmPhase_def less_SwmPhase_def phase_rank_def split: SwmPhase.splits)

end

subsection \<open>The tables are functional and plain\<close>

interpretation job_table: plain_table WRITE_CONFIG_JOB_FSM
  by unfold_locales (auto simp: fsm_tables)

interpretation swm_table: plain_table SOFTWARE_MANAGEMENT_FSM
  by unfold_locales (auto simp: fsm_tables)

interpretation health_table: plain_table ENDPOINT_HEALTH_FSM
  by unfold_locales (auto simp: fsm_tables)

interpretation onboarding_table: plain_table ONBOARDING_FSM
  by unfold_locales (auto simp: fsm_tables)

interpretation campaign_table: plain_table CAMPAIGN_FSM
  by unfold_locales (auto simp: fsm_tables)

lemma job_edge_cases:
  assumes "fire WRITE_CONFIG_JOB_FSM s e c = Inr (t, c')"
  shows "(s, e, t) \<in> set (map (\<lambda>r. (from_state r, event r, to_state r)) WRITE_CONFIG_JOB_FSM)"
  using assms unfolding job_table.fire_plain_iff by force

subsection \<open>A configuration job is written only when it was approved or needed no approval\<close>

definition sends_changes :: "JobState list" where
  "sends_changes = [PROCESSING, JobState.HALTED, JobState.COMPLETED, PARTIAL_SUCCESS, JobState.FAILED]"

text \<open>What the events of a run say about the approval, for a job that waits for it.\<close>

definition approved_by :: "JobEvent list \<Rightarrow> bool" where
  "approved_by es \<longleftrightarrow> JobEvent.APPROVE \<in> set es \<or> subseq [APPROVE_FOR_WINDOW, JobEvent.START] es"

lemma approved_by_mono: "approved_by es \<Longrightarrow> approved_by (es @ fs)"
  by (auto simp: approved_by_def intro: subseq_order.trans [OF _ prefix_imp_subseq])

lemma held_job_run:
  "fire_all WRITE_CONFIG_JOB_FSM PENDING_APPROVAL es c = Inr (t, c') \<Longrightarrow>
     approved_by es \<or> t = PENDING_APPROVAL \<or> t = REJECTED \<or> t = SCHEDULED \<and> APPROVE_FOR_WINDOW \<in> set es"
proof (induction es arbitrary: t c' rule: rev_induct)
  case (snoc e es)
  from snoc.prems obtain s c1 where run: "fire_all WRITE_CONFIG_JOB_FSM PENDING_APPROVAL es c = Inr (s, c1)"
    and step: "fire WRITE_CONFIG_JOB_FSM s e c1 = Inr (t, c')"
    by (auto simp: fire_all_append split: sum.splits)
  have start: "approved_by (es @ [JobEvent.START])" if "APPROVE_FOR_WINDOW \<in> set es"
  proof -
    from that have "subseq [APPROVE_FOR_WINDOW] es" by (simp add: subseq_singleton_left)
    then have "subseq ([APPROVE_FOR_WINDOW] @ [JobEvent.START]) (es @ [JobEvent.START])"
      by (rule list_emb_append_mono) simp
    then show ?thesis by (simp add: approved_by_def)
  qed
  have approve: "approved_by (es @ [JobEvent.APPROVE])" by (simp add: approved_by_def)
  from snoc.IH [OF run] show ?case
  proof
    assume "approved_by es"
    then show ?thesis by (simp add: approved_by_mono)
  next
    assume "s = PENDING_APPROVAL \<or> s = REJECTED \<or> s = SCHEDULED \<and> APPROVE_FOR_WINDOW \<in> set es"
    then show ?thesis using job_edge_cases [OF step] start approve by (auto simp: fsm_tables)
  qed
qed simp

subsection \<open>One step of each table, as rewrite rules\<close>

lemma swm_fire [simp]:
  "fire SOFTWARE_MANAGEMENT_FSM SwmState.PENDING SwmEvent.START c = Inr (IN_PROGRESS, c)"
  "fire SOFTWARE_MANAGEMENT_FSM IN_PROGRESS PHASE_FAILED c = Inr (SwmState.FAILED, c)"
  "fire SOFTWARE_MANAGEMENT_FSM IN_PROGRESS DOWNLOAD_OK c = Inr (IN_PROGRESS, c)"
  "fire SOFTWARE_MANAGEMENT_FSM IN_PROGRESS INSTALL_OK c = Inr (IN_PROGRESS, c)"
  "fire SOFTWARE_MANAGEMENT_FSM IN_PROGRESS ACTIVATE_OK c = Inr (SwmState.COMPLETED, c)"
  "fire SOFTWARE_MANAGEMENT_FSM SwmState.FAILED e c = Inl (IllegalTransition SwmState.FAILED e)"
  "fire SOFTWARE_MANAGEMENT_FSM SwmState.COMPLETED e c = Inl (IllegalTransition SwmState.COMPLETED e)"
  by (simp_all add: fire_first_passing fsm_tables)

lemma swm_fire_pending:
  "e \<noteq> SwmEvent.START \<Longrightarrow>
     fire SOFTWARE_MANAGEMENT_FSM SwmState.PENDING e c = Inl (IllegalTransition SwmState.PENDING e)"
  by (cases e) (simp_all add: fire_first_passing fsm_tables)

lemma campaign_fire [simp]:
  "fire CAMPAIGN_FSM CampaignState.PENDING CampaignEvent.START c = Inr (RUNNING, c)"
  "fire CAMPAIGN_FSM RUNNING CampaignEvent.HALT c = Inr (CampaignState.HALTED, c)"
  "fire CAMPAIGN_FSM RUNNING FINISH c = Inr (CampaignState.COMPLETED, c)"
  "fire CAMPAIGN_FSM CampaignState.HALTED CampaignEvent.RESUME c = Inr (RUNNING, c)"
  "fire CAMPAIGN_FSM CampaignState.HALTED ABORT c = Inr (ABORTED, c)"
  "fire CAMPAIGN_FSM RUNNING ROLLBACK c = Inr (ROLLING_BACK, c)"
  "fire CAMPAIGN_FSM CampaignState.HALTED ROLLBACK c = Inr (ROLLING_BACK, c)"
  "fire CAMPAIGN_FSM CampaignState.COMPLETED ROLLBACK c = Inr (ROLLING_BACK, c)"
  "fire CAMPAIGN_FSM ABORTED ROLLBACK c = Inr (ROLLING_BACK, c)"
  "fire CAMPAIGN_FSM CampaignState.ROLLBACK_FAILED ROLLBACK c = Inr (ROLLING_BACK, c)"
  "fire CAMPAIGN_FSM ROLLING_BACK ROLLBACK_DONE c = Inr (ROLLED_BACK, c)"
  "fire CAMPAIGN_FSM ROLLING_BACK CampaignEvent.ROLLBACK_FAILED c = Inr (CampaignState.ROLLBACK_FAILED, c)"
  by (simp_all add: fire_first_passing fsm_tables)

subsection \<open>The claim about configuration jobs\<close>

text \<open>A held configuration job is written only when approved: from PENDING_APPROVAL, any run of events that takes
  the job to a state in which its changes are or were sent contains an approval, or an approval for a window and then
  the start of that window.\<close>

theorem held_job_needs_approval:
  assumes "fire_all WRITE_CONFIG_JOB_FSM PENDING_APPROVAL es c = Inr (t, c')" "t \<in> set sends_changes"
  shows "JobEvent.APPROVE \<in> set es \<or> subseq [APPROVE_FOR_WINDOW, JobEvent.START] es"
  using held_job_run [OF assms(1)] assms(2) by (auto simp: approved_by_def sends_changes_def)

theorem held_job_needs_approval_witness:
  "JobEvent.APPROVE \<in> set [APPROVE_FOR_WINDOW, JobEvent.START] \<or>
   subseq [APPROVE_FOR_WINDOW, JobEvent.START] [APPROVE_FOR_WINDOW, JobEvent.START]"
  by (rule held_job_needs_approval [of _ "()" PROCESSING "()"])
     (simp_all add: fire_first_passing fsm_tables sends_changes_def)

end
