(* ===== verification/AccessScope.thy ===== *)
theory AccessScope
  imports SmoPrelude
begin

section \<open>Who a request is for, and which elements it may touch\<close>

text \<open>
  The identity headers of a request (\<open>shared/smo_shared/invoker.py\<close>), the scope claim
  (\<open>shared/smo_shared/scope.py\<close>) and the rule of RAN NF OAM that applies the claim to the
  registry of managed elements and to the ownership of configuration jobs
  (\<open>ran-nf-oam/app/scoping.py\<close>). A \<open>frozenset\<close> is a set; the headers are a partial
  function from the (canonical) header name.
\<close>

type_synonym headers = "string \<rightharpoonup> string"

definition ROLE_HEADER :: string where "ROLE_HEADER = ''X-R1-Role''"
definition ROLE_INTERNAL :: string where "ROLE_INTERNAL = ''internal''"
definition ROLE_RAPP :: string where "ROLE_RAPP = ''rapp''"
definition INVOKER_ID_HEADER :: string where "INVOKER_ID_HEADER = ''X-R1-Invoker-Id''"
definition ON_BEHALF_OF_HEADER :: string where "ON_BEHALF_OF_HEADER = ''X-R1-On-Behalf-Of''"
definition ACTING_USER_HEADER :: string where "ACTING_USER_HEADER = ''X-R1-Acting-User''"
definition SCOPE_HEADER :: string where "SCOPE_HEADER = ''X-R1-Scope''"
definition ON_BEHALF_SCOPE_HEADER :: string where "ON_BEHALF_SCOPE_HEADER = ''X-R1-On-Behalf-Scope''"
definition ACTING_USER_SCOPE_HEADER :: string where "ACTING_USER_SCOPE_HEADER = ''X-R1-Acting-User-Scope''"

lemmas header_names = ROLE_HEADER_def ROLE_INTERNAL_def ROLE_RAPP_def INVOKER_ID_HEADER_def
  ON_BEHALF_OF_HEADER_def ACTING_USER_HEADER_def SCOPE_HEADER_def ON_BEHALF_SCOPE_HEADER_def
  ACTING_USER_SCOPE_HEADER_def

text \<open>\<open>value or None\<close>: an empty string counts as absent.\<close>

definition or_none :: "string option \<Rightarrow> string option" where
  "or_none v = (case v of None \<Rightarrow> None | Some s \<Rightarrow> if s = [] then None else Some s)"

lemma or_none_None [simp]: "or_none None = None"
  by (simp add: or_none_def)

lemma or_none_Some [simp]: "or_none v = Some s \<longleftrightarrow> v = Some s \<and> s \<noteq> []"
  by (auto simp: or_none_def split: option.splits)

definition originator_of :: "headers \<Rightarrow> string option" where
  "originator_of h =
     (if h ROLE_HEADER = Some ROLE_RAPP then or_none (h INVOKER_ID_HEADER)
      else if h ROLE_HEADER = Some ROLE_INTERNAL then or_none (h ON_BEHALF_OF_HEADER)
      else None)"

definition invoker_id :: "headers \<Rightarrow> string option" where
  "invoker_id h =
     (if h ROLE_HEADER = Some ROLE_INTERNAL \<and> or_none (h ON_BEHALF_OF_HEADER) \<noteq> None
      then h ON_BEHALF_OF_HEADER
      else or_none (h INVOKER_ID_HEADER))"

subsection \<open>The claim\<close>

record scope =
  regions :: "string set option"
  tenants :: "string set option"

definition DENY_ALL :: scope where
  "DENY_ALL = \<lparr>regions = Some {}, tenants = None\<rparr>"

definition MAX_VALUES :: nat where "MAX_VALUES = 100"

definition alnum :: "char \<Rightarrow> bool" where
  "alnum c \<longleftrightarrow> CHR ''0'' \<le> c \<and> c \<le> CHR ''9'' \<or> CHR ''A'' \<le> c \<and> c \<le> CHR ''Z'' \<or> CHR ''a'' \<le> c \<and> c \<le> CHR ''z''"

text \<open>\<open>VALUE_PATTERN.fullmatch\<close>: one letter or digit, then at most 99 of the class.\<close>

fun matches_value_pattern :: "string \<Rightarrow> bool" where
  "matches_value_pattern [] = False"
| "matches_value_pattern (c # cs) =
     (alnum c \<and> length cs \<le> 99 \<and> (\<forall>d \<in> set cs. alnum d \<or> d \<in> set ''._:/@+-''))"

fun valid_value :: "json \<Rightarrow> bool" where
  "valid_value (JStr s) = matches_value_pattern s"
| "valid_value _ = False"

fun json_text :: "json \<Rightarrow> string" where
  "json_text (JStr s) = s"
| "json_text _ = []"

text \<open>One axis of a claim: \<open>None\<close> where the claim leaves it out.\<close>

definition axis_of_claim :: "(string \<times> json) list \<Rightarrow> string \<Rightarrow> py_error + string set option" where
  "axis_of_claim members axis =
     (case map_of members axis of
        None \<Rightarrow> Inr None
      | Some JNull \<Rightarrow> Inr None
      | Some (JList values) \<Rightarrow>
          (if values = [] \<or> length values > MAX_VALUES then Inl (ValueError (axis @ '' must be a list of 1 to 100 values''))
           else if \<not> list_all valid_value values then Inl (ValueError (''every value of '' @ axis @ '' must be 1 to 100 characters''))
           else if \<not> distinct (map json_text values) then Inl (ValueError (axis @ '' lists a value twice''))
           else Inr (Some (set (map json_text values))))
      | Some _ \<Rightarrow> Inl (ValueError (axis @ '' must be a list of 1 to 100 values'')))"

fun from_claim :: "json \<Rightarrow> py_error + scope option" where
  "from_claim JNull = Inr None"
| "from_claim (JObject members) =
     (if \<not> set (map fst members) \<subseteq> {''regions'', ''tenants''}
      then Inl (ValueError ''the scope claim may only name regions and tenants'')
      else and_then (axis_of_claim members ''regions'') (\<lambda>rs.
           and_then (axis_of_claim members ''tenants'') (\<lambda>ts.
             Inr (if rs = None \<and> ts = None then None else Some \<lparr>regions = rs, tenants = ts\<rparr>))))"
| "from_claim _ = Inl (ValueError ''the scope claim must be an object with regions and/or tenants'')"

definition from_introspection :: "json \<Rightarrow> scope option" where
  "from_introspection claim = (case from_claim claim of Inl _ \<Rightarrow> Some DENY_ALL | Inr s \<Rightarrow> s)"

definition axis_members :: "string \<Rightarrow> string set option \<Rightarrow> (string \<times> json) list" where
  "axis_members axis values =
     (case values of None \<Rightarrow> [] | Some vs \<Rightarrow> [(axis, JList (map JStr (sorted_list_of_set vs)))])"

definition to_claim :: "scope option \<Rightarrow> json" where
  "to_claim sc =
     (case sc of None \<Rightarrow> JNull
      | Some s \<Rightarrow>
          let members = axis_members ''regions'' (regions s) @ axis_members ''tenants'' (tenants s)
          in if members = [] then JNull else JObject members)"

text \<open>\<open>loads\<close> is \<open>json.loads\<close>; it gives \<open>None\<close> where it raises.\<close>

definition decode :: "(string \<Rightarrow> json option) \<Rightarrow> string option \<Rightarrow> scope option" where
  "decode loads v =
     (case or_none v of None \<Rightarrow> None
      | Some text \<Rightarrow> (case loads text of None \<Rightarrow> Some DENY_ALL
                       | Some claim \<Rightarrow> (case from_claim claim of Inl _ \<Rightarrow> Some DENY_ALL | Inr s \<Rightarrow> s)))"

definition both :: "string set option \<Rightarrow> string set option \<Rightarrow> string set option" where
  "both a b = (case a of None \<Rightarrow> b | Some A \<Rightarrow> (case b of None \<Rightarrow> a | Some B \<Rightarrow> Some (A \<inter> B)))"

definition narrowed :: "scope option \<Rightarrow> scope option \<Rightarrow> scope option" where
  "narrowed a b =
     (case a of None \<Rightarrow> b
      | Some s \<Rightarrow> (case b of None \<Rightarrow> a
                  | Some t \<Rightarrow> Some \<lparr>regions = both (regions s) (regions t), tenants = both (tenants s) (tenants t)\<rparr>))"

definition scope_of :: "(string \<Rightarrow> json option) \<Rightarrow> headers \<Rightarrow> scope option" where
  "scope_of loads h =
     (let internal = (h ROLE_HEADER = Some ROLE_INTERNAL)
      in if internal \<and> or_none (h ON_BEHALF_OF_HEADER) \<noteq> None then decode loads (h ON_BEHALF_SCOPE_HEADER)
         else let own = decode loads (h SCOPE_HEADER)
              in if internal \<and> or_none (h ACTING_USER_HEADER) \<noteq> None
                 then narrowed own (decode loads (h ACTING_USER_SCOPE_HEADER))
                 else own)"

definition axis_permits :: "string set option \<Rightarrow> string option \<Rightarrow> bool" where
  "axis_permits allowed v = (case allowed of None \<Rightarrow> True | Some A \<Rightarrow> (case v of None \<Rightarrow> False | Some x \<Rightarrow> x \<in> A))"

definition permits :: "scope option \<Rightarrow> string option \<Rightarrow> string option \<Rightarrow> bool" where
  "permits sc region tenant =
     (case sc of None \<Rightarrow> True | Some s \<Rightarrow> axis_permits (regions s) region \<and> axis_permits (tenants s) tenant)"

definition axis_covers :: "string set option \<Rightarrow> string set option \<Rightarrow> bool" where
  "axis_covers allowed wanted =
     (case allowed of None \<Rightarrow> True | Some A \<Rightarrow> (case wanted of None \<Rightarrow> False | Some W \<Rightarrow> W \<subseteq> A))"

definition covers :: "scope option \<Rightarrow> scope option \<Rightarrow> bool" where
  "covers parent child =
     (case parent of None \<Rightarrow> True
      | Some p \<Rightarrow>
          axis_covers (regions p) (case child of None \<Rightarrow> None | Some c \<Rightarrow> regions c) \<and>
          axis_covers (tenants p) (case child of None \<Rightarrow> None | Some c \<Rightarrow> tenants c))"

text \<open>The \<open>IN\<close> of the database never holds for NULL; \<open>region\<close> and \<open>tenant\<close> read a row's columns.\<close>

definition in_column :: "string set \<Rightarrow> string option \<Rightarrow> bool" where
  "in_column A v = (if A = {} then False else case v of None \<Rightarrow> False | Some x \<Rightarrow> x \<in> A)"

definition filter_statement :: "scope option \<Rightarrow> ('r \<Rightarrow> string option) \<Rightarrow> ('r \<Rightarrow> string option) \<Rightarrow> 'r list \<Rightarrow> 'r list" where
  "filter_statement sc region tenant rows =
     (case sc of None \<Rightarrow> rows
      | Some s \<Rightarrow>
          let rows1 = (case regions s of None \<Rightarrow> rows | Some A \<Rightarrow> filter (\<lambda>r. in_column A (region r)) rows)
          in (case tenants s of None \<Rightarrow> rows1 | Some A \<Rightarrow> filter (\<lambda>r. in_column A (tenant r)) rows1))"

definition denied_condition :: "scope option \<Rightarrow> ('r \<Rightarrow> string option) \<Rightarrow> ('r \<Rightarrow> string option) \<Rightarrow> 'r \<Rightarrow> bool" where
  "denied_condition sc region tenant r =
     (case sc of None \<Rightarrow> False
      | Some s \<Rightarrow>
          (case regions s of None \<Rightarrow> False
           | Some A \<Rightarrow> (if A = {} then True else region r = None \<or> the (region r) \<notin> A)) \<or>
          (case tenants s of None \<Rightarrow> False
           | Some A \<Rightarrow> (if A = {} then True else tenant r = None \<or> the (tenant r) \<notin> A)))"

lemmas scope_defs = permits_def axis_permits_def narrowed_def both_def covers_def axis_covers_def
  filter_statement_def denied_condition_def in_column_def

subsection \<open>The managed elements a caller may touch\<close>

record managed_entity =
  entity_ref :: string
  entity_type :: string
  vendor_name :: "string option"
  entity_protocol :: string
  entity_region :: "string option"
  entity_tenant :: "string option"
  entity_endpoint_id :: "uid option"

definition element_permitted :: "managed_entity list \<Rightarrow> scope option \<Rightarrow> string \<Rightarrow> bool" where
  "element_permitted entities sc ref =
     (if sc = None then True
      else case row_where (\<lambda>m. entity_ref m = ref) entities of
             None \<Rightarrow> False
           | Some m \<Rightarrow> permits sc (entity_region m) (entity_tenant m))"

text \<open>\<open>list(dict.fromkeys(refs))\<close>: the first occurrence of each reference, in order.\<close>

fun dict_fromkeys :: "'a list \<Rightarrow> 'a list" where
  "dict_fromkeys [] = []"
| "dict_fromkeys (x # xs) = x # filter (\<lambda>y. y \<noteq> x) (dict_fromkeys xs)"

definition denied_refs :: "managed_entity list \<Rightarrow> scope option \<Rightarrow> string list \<Rightarrow> string list" where
  "denied_refs entities sc refs =
     (let wanted = dict_fromkeys refs
      in if sc = None \<or> wanted = [] then []
         else filter (\<lambda>ref. case row_where (\<lambda>m. entity_ref m = ref) entities of
                              None \<Rightarrow> True
                            | Some m \<Rightarrow> \<not> permits sc (entity_region m) (entity_tenant m)) wanted)"

definition visible_elements :: "managed_entity list \<Rightarrow> scope option \<Rightarrow> string list" where
  "visible_elements entities sc = map entity_ref (filter_statement sc entity_region entity_tenant entities)"

subsection \<open>The configuration jobs of an rApp\<close>

record config_job =
  cm_job_id :: uid
  config_invoker_id :: "string option"
  config_rollback_of :: "uid option"

text \<open>
  The recursive query of \<open>owned_jobs\<close>. A database works it off in rounds: the first round is the base query, a
  round joins the jobs with the rows of the one before (\<open>UNION ALL\<close> keeps duplicates), and the query ends with
  the first round that adds nothing. It is \<open>None\<close> when no round is empty.
\<close>

definition base_round :: "config_job list \<Rightarrow> string option \<Rightarrow> uid list" where
  "base_round jobs caller = map cm_job_id (filter (\<lambda>j. caller \<noteq> None \<and> config_invoker_id j = caller) jobs)"

definition next_round :: "config_job list \<Rightarrow> uid list \<Rightarrow> uid list" where
  "next_round jobs ids = concat (map (\<lambda>i. map cm_job_id (filter (\<lambda>j. config_rollback_of j = Some i) jobs)) ids)"

partial_function (option) rounds_from :: "config_job list \<Rightarrow> uid list \<Rightarrow> uid list option" where
  "rounds_from jobs ids =
     (if ids = [] then Some [] else Option.bind (rounds_from jobs (next_round jobs ids)) (\<lambda>later. Some (ids @ later)))"

definition owned_jobs :: "config_job list \<Rightarrow> string option \<Rightarrow> uid list option" where
  "owned_jobs jobs caller = rounds_from jobs (base_round jobs caller)"

text \<open>What the rule says: a job belongs to the caller when the caller made it or when it undoes one that does.\<close>

inductive owned_job :: "config_job list \<Rightarrow> string option \<Rightarrow> uid \<Rightarrow> bool" for jobs caller where
  own: "j \<in> set jobs \<Longrightarrow> caller \<noteq> None \<Longrightarrow> config_invoker_id j = caller \<Longrightarrow> owned_job jobs caller (cm_job_id j)"
| undo: "j \<in> set jobs \<Longrightarrow> config_rollback_of j = Some original \<Longrightarrow> owned_job jobs caller original \<Longrightarrow>
     owned_job jobs caller (cm_job_id j)"

text \<open>How many jobs the loop of \<open>job_owned_by\<close> has not seen: what its termination counts.\<close>

definition unseen :: "config_job list \<Rightarrow> uid set \<Rightarrow> nat" where
  "unseen jobs seen = length (filter (\<lambda>k. cm_job_id k \<notin> seen) jobs)"

lemma unseen_insert_le: "unseen jobs (insert i seen) \<le> unseen jobs seen"
  by (induction jobs) (auto simp: unseen_def)

lemma unseen_insert_less:
  "j \<in> set jobs \<Longrightarrow> cm_job_id j \<notin> seen \<Longrightarrow> unseen jobs (insert (cm_job_id j) seen) < unseen jobs seen"
proof (induction jobs)
  case (Cons k jobs)
  show ?case
  proof (cases "j \<in> set jobs")
    case True
    with Cons show ?thesis by (auto simp: unseen_def)
  next
    case False
    with Cons.prems have "k = j" by simp
    with Cons.prems unseen_insert_le [of jobs "cm_job_id j" seen] show ?thesis by (simp add: unseen_def)
  qed
qed simp

text \<open>The loop of \<open>job_owned_by\<close>: from a job to the job it undoes, each job once.\<close>

function owner_walk :: "config_job list \<Rightarrow> string option \<Rightarrow> config_job option \<Rightarrow> uid set \<Rightarrow> bool" where
  "owner_walk jobs caller None seen = False"
| "owner_walk jobs caller (Some j) seen =
     (if cm_job_id j \<in> seen then False
      else if caller \<noteq> None \<and> config_invoker_id j = caller then True
      else owner_walk jobs caller
             (case config_rollback_of j of None \<Rightarrow> None
              | Some original \<Rightarrow> row_where (\<lambda>k. cm_job_id k = original) jobs)
             (insert (cm_job_id j) seen))"
  by pat_completeness auto

termination
proof (relation "measure (\<lambda>(jobs, caller, cur, seen).
    2 * unseen jobs seen + (case cur of None \<Rightarrow> 0 | Some j \<Rightarrow> if j \<in> set jobs then 0 else 1))")
  fix jobs :: "config_job list" and caller and j :: config_job and seen
  assume new: "cm_job_id j \<notin> seen"
  let ?next = "case config_rollback_of j of None \<Rightarrow> None
              | Some original \<Rightarrow> row_where (\<lambda>k. cm_job_id k = original) jobs"
  have inside: "k \<in> set jobs" if "?next = Some k" for k
    using that by (auto split: option.splits dest: row_where_SomeD)
  have "2 * unseen jobs (insert (cm_job_id j) seen) + (case ?next of None \<Rightarrow> 0 | Some k \<Rightarrow> if k \<in> set jobs then 0 else 1)
      = 2 * unseen jobs (insert (cm_job_id j) seen)"
    using inside by (cases ?next) auto
  also have "\<dots> < 2 * unseen jobs seen + (if j \<in> set jobs then 0 else 1)"
    using unseen_insert_less [of j jobs seen] new unseen_insert_le [of jobs "cm_job_id j" seen] by auto
  finally show "((jobs, caller, ?next, insert (cm_job_id j) seen), jobs, caller, Some j, seen)
      \<in> measure (\<lambda>(jobs, caller, cur, seen).
          2 * unseen jobs seen + (case cur of None \<Rightarrow> 0 | Some j \<Rightarrow> if j \<in> set jobs then 0 else 1))"
    by simp
qed simp

definition job_owned_by :: "config_job list \<Rightarrow> config_job \<Rightarrow> string option \<Rightarrow> bool" where
  "job_owned_by jobs job caller = owner_walk jobs caller (Some job) {}"

lemma filter_statement_permits:
  "filter_statement sc region tenant rows = filter (\<lambda>r. permits sc (region r) (tenant r)) rows"
proof (cases sc)
  case (Some s)
  show ?thesis
    unfolding Some
    by (cases "regions s"; cases "tenants s")
       (auto simp: scope_defs Let_def intro!: filter_cong split: option.splits if_splits)
qed (simp add: scope_defs)

lemma denied_condition_permits: "denied_condition sc region tenant r \<longleftrightarrow> \<not> permits sc (region r) (tenant r)"
  by (cases sc) (auto simp: scope_defs split: option.splits if_splits)

lemma set_dict_fromkeys [simp]: "set (dict_fromkeys xs) = set xs"
  by (induction xs) auto

lemma distinct_dict_fromkeys [simp]: "distinct (dict_fromkeys xs)"
  by (induction xs) auto

lemma dict_fromkeys_distinct: "distinct xs \<Longrightarrow> dict_fromkeys xs = xs"
proof (induction xs)
  case (Cons x xs)
  then have "filter (\<lambda>y. y \<noteq> x) xs = xs" by (auto intro!: filter_True)
  with Cons show ?case by simp
qed simp

lemma dict_fromkeys_Nil [simp]: "dict_fromkeys xs = [] \<longleftrightarrow> xs = []"
  by (cases xs) auto

lemma denied_refs_eq:
  "denied_refs entities sc refs = filter (\<lambda>ref. \<not> element_permitted entities sc ref) (dict_fromkeys refs)"
proof (cases "sc = None")
  case True
  then show ?thesis by (simp add: denied_refs_def element_permitted_def)
next
  case False
  then show ?thesis
    by (auto simp: denied_refs_def element_permitted_def Let_def intro!: filter_cong split: option.splits)
qed

subsection \<open>The walk over the jobs a job undoes\<close>

text \<open>Ownership by the length of the chain, the measure both directions of \<open>job_owned_by\<close> use.\<close>

fun owned_in :: "config_job list \<Rightarrow> string option \<Rightarrow> nat \<Rightarrow> uid \<Rightarrow> bool" where
  "owned_in jobs caller 0 i =
     (case row_where (\<lambda>k. cm_job_id k = i) jobs of None \<Rightarrow> False
      | Some j \<Rightarrow> caller \<noteq> None \<and> config_invoker_id j = caller)"
| "owned_in jobs caller (Suc n) i =
     (case row_where (\<lambda>k. cm_job_id k = i) jobs of None \<Rightarrow> False
      | Some j \<Rightarrow> (case config_rollback_of j of None \<Rightarrow> False | Some original \<Rightarrow> owned_in jobs caller n original))"

lemma row_of_job:
  "distinct (map cm_job_id jobs) \<Longrightarrow> j \<in> set jobs \<Longrightarrow>
   row_where (\<lambda>k. cm_job_id k = cm_job_id j) jobs = Some j"
  by (induction jobs) (auto simp: row_where_def)

lemma owned_job_in:
  assumes "distinct (map cm_job_id jobs)"
  shows "owned_job jobs caller i \<longleftrightarrow> (\<exists>n. owned_in jobs caller n i)"
proof
  assume "owned_job jobs caller i"
  then show "\<exists>n. owned_in jobs caller n i"
  proof induction
    case (own j)
    with assms have "owned_in jobs caller 0 (cm_job_id j)" by (simp add: row_of_job)
    then show ?case by blast
  next
    case (undo j original)
    then obtain n where "owned_in jobs caller n original" by blast
    with undo assms have "owned_in jobs caller (Suc n) (cm_job_id j)" by (simp add: row_of_job)
    then show ?case by blast
  qed
next
  have "owned_in jobs caller n i \<Longrightarrow> owned_job jobs caller i" for n
    by (induction n arbitrary: i)
       (auto split: option.splits dest!: row_where_SomeD intro: owned_job.intros)
  then show "\<exists>n. owned_in jobs caller n i \<Longrightarrow> owned_job jobs caller i" by blast
qed

lemma owner_walk_sound:
  "owner_walk jobs caller cur seen \<Longrightarrow> set_option cur \<subseteq> set jobs \<Longrightarrow>
   \<exists>j. cur = Some j \<and> owned_job jobs caller (cm_job_id j)"
proof (induction jobs caller cur seen rule: owner_walk.induct)
  case (2 jobs caller j seen)
  show ?case
  proof (cases "caller \<noteq> None \<and> config_invoker_id j = caller")
    case True
    with 2 show ?thesis by (auto intro: owned_job.own)
  next
    case False
    with "2.prems" have "cm_job_id j \<notin> seen" by (auto split: if_splits)
    with 2 False show ?thesis
      by (auto split: option.splits dest: row_where_SomeD intro: owned_job.undo)
  qed
qed simp

lemma owner_walk_complete:
  assumes "distinct (map cm_job_id jobs)"
  shows "j \<in> set jobs \<Longrightarrow> owned_in jobs caller n (cm_job_id j) \<Longrightarrow>
    \<forall>m<n. \<not> owned_in jobs caller m (cm_job_id j) \<Longrightarrow>
    \<forall>s\<in>seen. \<forall>m\<le>n. \<not> owned_in jobs caller m s \<Longrightarrow> owner_walk jobs caller (Some j) seen"
proof (induction n arbitrary: j seen)
  case 0
  with assms show ?case by (auto simp: row_of_job)
next
  case (Suc n)
  from Suc.prems assms obtain original where original: "config_rollback_of j = Some original"
      "owned_in jobs caller n original"
    by (auto simp: row_of_job split: option.splits)
  then obtain k where k: "row_where (\<lambda>k. cm_job_id k = original) jobs = Some k"
    by (cases n) (auto split: option.splits)
  then have k_in: "k \<in> set jobs" "cm_job_id k = original" by (auto dest: row_where_SomeD)
  have nearer: "\<not> owned_in jobs caller m original" if "m < n" for m
  proof
    assume "owned_in jobs caller m original"
    then have "owned_in jobs caller (Suc m) (cm_job_id j)"
      using original assms Suc.prems(1) by (simp add: row_of_job)
    with that Suc.prems(3) show False by blast
  qed
  have "owner_walk jobs caller (Some k) (insert (cm_job_id j) seen)"
    by (rule Suc.IH) (use k_in original nearer Suc.prems in auto)
  moreover have "cm_job_id j \<notin> seen" using Suc.prems(2,4) by blast
  ultimately show ?case
    using original k by (subst owner_walk.simps(2)) (simp del: owner_walk.simps(2))
qed

subsection \<open>The rounds of the recursive query\<close>

definition round_of :: "config_job list \<Rightarrow> uid list \<Rightarrow> nat \<Rightarrow> uid list" where
  "round_of jobs ids n = (next_round jobs ^^ n) ids"

definition undoes_job :: "config_job list \<Rightarrow> (uid \<times> uid) set" where
  "undoes_job jobs = {(cm_job_id j, original) |j original. j \<in> set jobs \<and> config_rollback_of j = Some original}"

lemma set_next_round: "set (next_round jobs ids) = {i. \<exists>original \<in> set ids. (i, original) \<in> undoes_job jobs}"
  by (auto simp: next_round_def undoes_job_def)

lemma round_of_simps [simp]: "round_of jobs ids 0 = ids" "round_of jobs ids (Suc n) = next_round jobs (round_of jobs ids n)"
  by (simp_all add: round_of_def)

lemma round_of_shift: "round_of jobs (next_round jobs ids) n = round_of jobs ids (Suc n)"
  by (simp only: round_of_def funpow_Suc_right comp_apply)

lemma round_of_empty: "round_of jobs ids n = [] \<Longrightarrow> n \<le> m \<Longrightarrow> round_of jobs ids m = []"
  by (induction m) (auto simp: le_Suc_eq next_round_def)

lemma rounds_end: "round_of jobs ids n = [] \<Longrightarrow> \<exists>all. rounds_from jobs ids = Some all"
proof (induction n arbitrary: ids)
  case (Suc n)
  then obtain later where "rounds_from jobs (next_round jobs ids) = Some later"
    using round_of_shift [of jobs ids n] by metis
  then show ?case by (subst rounds_from.simps) simp
qed (simp add: rounds_from.simps)

lemma rounds_ended:
  assumes "rounds_from jobs ids = Some all"
  shows "(\<exists>n. round_of jobs ids n = []) \<and> set all = (\<Union>n. set (round_of jobs ids n))"
proof (rule rounds_from.raw_induct [where P = "\<lambda>jobs ids all. (\<exists>n. round_of jobs ids n = []) \<and> set all = (\<Union>n. set (round_of jobs ids n))", OF _ assms])
  fix f jobs ids all
  assume IH: "\<And>jobs ids all. f jobs ids = Some all \<Longrightarrow> (\<exists>n. round_of jobs ids n = []) \<and> set all = (\<Union>n. set (round_of jobs ids n))"
    and eq: "(if ids = [] then Some [] else Option.bind (f jobs (next_round jobs ids)) (\<lambda>later. Some (ids @ later))) = Some all"
  show "(\<exists>n. round_of jobs ids n = []) \<and> set all = (\<Union>n. set (round_of jobs ids n))"
  proof (cases "ids = []")
    case True
    then have "round_of jobs ids n = []" for n using round_of_empty [of jobs ids 0 n] by simp
    then show ?thesis using eq True by simp
  next
    case False
    then obtain later where later: "f jobs (next_round jobs ids) = Some later" "all = ids @ later"
      using eq by (auto simp: bind_eq_Some_conv)
    have "(\<Union>n. set (round_of jobs ids n)) = set ids \<union> (\<Union>n. set (round_of jobs ids (Suc n)))"
      by (auto simp del: round_of_simps(2)) (metis not0_implies_Suc round_of_simps(1), metis round_of_simps(1))
    moreover obtain n where "round_of jobs ids (Suc n) = []" using IH [OF later(1)] unfolding round_of_shift by blast
    moreover have "set later = (\<Union>n. set (round_of jobs ids (Suc n)))" using IH [OF later(1)] unfolding round_of_shift by blast
    ultimately show ?thesis using later(2) by (metis set_append)
  qed
qed

lemma owned_in_round: "owned_job jobs caller i \<longleftrightarrow> (\<exists>n. i \<in> set (round_of jobs (base_round jobs caller) n))"
proof
  assume "owned_job jobs caller i"
  then show "\<exists>n. i \<in> set (round_of jobs (base_round jobs caller) n)"
  proof induction
    case (own j)
    then show ?case by (intro exI [of _ 0]) (auto simp: base_round_def)
  next
    case (undo j original)
    then obtain n where "original \<in> set (round_of jobs (base_round jobs caller) n)" by blast
    then show ?case using undo by (intro exI [of _ "Suc n"]) (auto simp: set_next_round undoes_job_def)
  qed
next
  have "i \<in> set (round_of jobs (base_round jobs caller) n) \<Longrightarrow> owned_job jobs caller i" for n
    by (induction n arbitrary: i) (auto simp: base_round_def set_next_round undoes_job_def intro: owned_job.intros)
  then show "\<exists>n. i \<in> set (round_of jobs (base_round jobs caller) n) \<Longrightarrow> owned_job jobs caller i" by blast
qed

text \<open>A cycle keeps the rounds going; without one a job of round \<open>n\<close> is at the end of a chain of \<open>n\<close> different jobs.\<close>

lemma round_along: "(i, k) \<in> (undoes_job jobs)\<^sup>+ \<Longrightarrow> k \<in> set (round_of jobs ids n) \<Longrightarrow> \<exists>m > n. i \<in> set (round_of jobs ids m)"
proof (induction rule: converse_trancl_induct)
  case (base y)
  then show ?case by (intro exI [of _ "Suc n"]) (auto simp: set_next_round)
next
  case (step y z)
  then obtain m where "m > n" "z \<in> set (round_of jobs ids m)" by blast
  then show ?case using step(1) by (intro exI [of _ "Suc m"]) (auto simp: set_next_round)
qed

lemma cycle_goes_on:
  assumes "(i, i) \<in> (undoes_job jobs)\<^sup>+" "i \<in> set (round_of jobs ids n)"
  shows "round_of jobs ids m \<noteq> []"
proof -
  have "\<exists>k \<ge> m. i \<in> set (round_of jobs ids k)" for m
  proof (induction m)
    case (Suc m)
    then obtain k where "k \<ge> m" "i \<in> set (round_of jobs ids k)" by blast
    then obtain l where "l > k" "i \<in> set (round_of jobs ids l)" using round_along [OF assms(1)] by blast
    then show ?case using \<open>k \<ge> m\<close> by (intro exI [of _ l]) simp
  qed (use assms(2) in blast)
  then show ?thesis using round_of_empty [of jobs ids m] by fastforce
qed

lemma round_chain:
  "i \<in> set (round_of jobs ids n) \<Longrightarrow> \<exists>xs. length xs = n \<and> set xs \<subseteq> cm_job_id ` set jobs \<and>
     (\<forall>x \<in> set xs. x = i \<or> (i, x) \<in> (undoes_job jobs)\<^sup>+) \<and> (\<forall>x \<in> set xs. \<exists>m. x \<in> set (round_of jobs ids m)) \<and>
     (distinct xs \<or> (\<exists>x \<in> set xs. (x, x) \<in> (undoes_job jobs)\<^sup>+))"
proof (induction n arbitrary: i)
  case (Suc n)
  then obtain k where k: "k \<in> set (round_of jobs ids n)" "(i, k) \<in> undoes_job jobs" by (auto simp: set_next_round)
  obtain xs where xs: "length xs = n" "set xs \<subseteq> cm_job_id ` set jobs" "\<forall>x \<in> set xs. x = k \<or> (k, x) \<in> (undoes_job jobs)\<^sup>+"
    "\<forall>x \<in> set xs. \<exists>m. x \<in> set (round_of jobs ids m)" "distinct xs \<or> (\<exists>x \<in> set xs. (x, x) \<in> (undoes_job jobs)\<^sup>+)"
    using Suc.IH [OF k(1)] by blast
  have up: "(i, x) \<in> (undoes_job jobs)\<^sup>+" if "x \<in> set xs" for x
    using xs(3) that k(2) by (metis r_into_trancl' trancl_into_trancl2)
  have "i \<in> cm_job_id ` set jobs" using k(2) by (auto simp: undoes_job_def)
  moreover have "\<exists>m. i \<in> set (round_of jobs ids m)" using Suc.prems by blast
  ultimately show ?case using xs up by (intro exI [of _ "i # xs"]) auto
qed (auto intro: exI [of _ "[]"])

lemma no_cycle_ends:
  assumes "\<And>i n. i \<in> set (round_of jobs ids n) \<Longrightarrow> (i, i) \<notin> (undoes_job jobs)\<^sup>+"
  shows "round_of jobs ids (Suc (length jobs)) = []"
proof (rule ccontr)
  assume "round_of jobs ids (Suc (length jobs)) \<noteq> []"
  then obtain i where "i \<in> set (round_of jobs ids (Suc (length jobs)))" by (meson last_in_set)
  then obtain xs where xs: "length xs = Suc (length jobs)" "set xs \<subseteq> cm_job_id ` set jobs" "distinct xs"
    using round_chain assms by metis
  have "length xs \<le> card (cm_job_id ` set jobs)"
    using card_mono [OF _ xs(2)] distinct_card [OF xs(3)] by simp
  also have "\<dots> \<le> length jobs" by (meson card_image_le card_length finite_set order_trans)
  finally show False using xs(1) by simp
qed

subsection \<open>What the claim rule guarantees\<close>

text \<open>A scope as \<open>from_claim\<close> builds it: no axis is empty, too long or has a value out of the pattern.\<close>

definition axis_wf :: "string set option \<Rightarrow> bool" where
  "axis_wf a = (case a of None \<Rightarrow> True
     | Some A \<Rightarrow> finite A \<and> A \<noteq> {} \<and> card A \<le> MAX_VALUES \<and> (\<forall>x \<in> A. matches_value_pattern x))"

definition scope_wf :: "scope \<Rightarrow> bool" where
  "scope_wf s \<longleftrightarrow> axis_wf (regions s) \<and> axis_wf (tenants s)"

lemma valid_value_iff: "valid_value v \<longleftrightarrow> (\<exists>s. v = JStr s \<and> matches_value_pattern s)"
  by (cases v) auto

lemma axis_of_claim_wf:
  assumes "axis_of_claim members axis = Inr a"
  shows "axis_wf a"
proof (cases a)
  case (Some A)
  with assms obtain vals where "vals \<noteq> []" "length vals \<le> MAX_VALUES" "list_all valid_value vals"
      "distinct (map json_text vals)" "A = set (map json_text vals)"
    by (auto simp: axis_of_claim_def split: option.splits json.splits if_splits)
  then have "finite A" "A \<noteq> {}" "card A \<le> MAX_VALUES" "\<forall>x \<in> A. matches_value_pattern x"
    using distinct_card [of "map json_text vals"] by (auto simp: list_all_iff valid_value_iff)
  then show ?thesis using Some by (simp add: axis_wf_def)
qed (simp add: axis_wf_def)

lemma from_claim_wf: "from_claim j = Inr (Some s) \<Longrightarrow> scope_wf s"
  by (cases j) (auto simp: and_then_Inr_iff scope_wf_def dest: axis_of_claim_wf split: if_splits)

lemma axis_covers_exact:
  "axis_wf w \<Longrightarrow> axis_covers a w \<longleftrightarrow> (\<forall>v. axis_permits w v \<longrightarrow> axis_permits a v)"
  by (auto simp: axis_covers_def axis_permits_def split: option.splits)

lemma axis_wf_permits: "axis_wf a \<Longrightarrow> \<exists>v. axis_permits a v"
proof (cases a)
  case (Some A)
  moreover assume "axis_wf a"
  ultimately obtain x where "x \<in> A" by (auto simp: axis_wf_def)
  with Some have "axis_permits a (Some x)" by (simp add: axis_permits_def)
  then show ?thesis by blast
qed (simp add: axis_permits_def)

lemma covers_exact:
  assumes "\<forall>c. child = Some c \<longrightarrow> scope_wf c"
  shows "covers parent child \<longleftrightarrow> (\<forall>region tenant. permits child region tenant \<longrightarrow> permits parent region tenant)"
proof (cases parent)
  case (Some p)
  let ?r = "case child of None \<Rightarrow> None | Some c \<Rightarrow> regions c" and ?t = "case child of None \<Rightarrow> None | Some c \<Rightarrow> tenants c"
  have wf: "axis_wf ?r" "axis_wf ?t"
    using assms by (cases child; simp add: scope_wf_def axis_wf_def)+
  have child: "permits child region tenant \<longleftrightarrow> axis_permits ?r region \<and> axis_permits ?t tenant" for region tenant
    by (auto simp: permits_def axis_permits_def split: option.splits)
  obtain v w where "axis_permits ?r v" "axis_permits ?t w" using wf axis_wf_permits by blast
  then show ?thesis
    using wf Some by (auto simp: covers_def permits_def [of "Some p"] axis_covers_exact child)
qed (simp add: covers_def permits_def)

lemma axis_of_members:
  assumes "axis_wf a" "map_of members axis = (case a of None \<Rightarrow> None | Some A \<Rightarrow> Some (JList (map JStr (sorted_list_of_set A))))"
  shows "axis_of_claim members axis = Inr a"
proof (cases a)
  case (Some A)
  have "map json_text (map JStr xs) = xs" for xs by (induction xs) auto
  with Some assms show ?thesis
    by (auto simp: axis_of_claim_def axis_wf_def list_all_iff length_sorted_list_of_set)
qed (use assms in \<open>simp add: axis_of_claim_def\<close>)

lemma decode_broken: "or_none v = Some s \<Longrightarrow> loads s = None \<Longrightarrow> decode loads v = Some DENY_ALL"
  by (simp add: decode_def del: or_none_Some)

lemma permits_DENY_ALL [simp]: "\<not> permits (Some DENY_ALL) region tenant"
  by (auto simp: DENY_ALL_def permits_def axis_permits_def split: option.splits)

text \<open>The scope headers an invoker carries round-trip: the claim serialised from a scope the validator
  can build (\<open>to_claim\<close>) is read back (\<open>from_claim\<close>) as that very scope, sorted order and all.\<close>

theorem claim_roundtrip:
  assumes "scope_wf s" "regions s \<noteq> None \<or> tenants s \<noteq> None"
  shows "from_claim (to_claim (Some s)) = Inr (Some s)"
proof -
  let ?m = "axis_members ''regions'' (regions s) @ axis_members ''tenants'' (tenants s)"
  have "axis_of_claim ?m ''regions'' = Inr (regions s)" "axis_of_claim ?m ''tenants'' = Inr (tenants s)"
    using assms(1) by (auto intro!: axis_of_members simp: scope_wf_def axis_members_def split: option.splits)
  moreover have "?m \<noteq> []" "set (map fst ?m) \<subseteq> {''regions'', ''tenants''}"
    using assms(2) by (auto simp: axis_members_def split: option.splits)
  ultimately show ?thesis using assms(2) by (auto simp: to_claim_def)
qed

theorem claim_roundtrip_witness:
  "from_claim (to_claim (Some \<lparr>regions = Some {''eu''}, tenants = None\<rparr>)) = Inr (Some \<lparr>regions = Some {''eu''}, tenants = None\<rparr>)"
  by (rule claim_roundtrip) (auto simp: scope_wf_def axis_wf_def MAX_VALUES_def alnum_def less_eq_char_def)

text \<open>Delegation check: for a child claim that \<open>from_claim\<close> accepted, \<open>covers parent child\<close> holds exactly
  when every element the child scope reaches is one the parent scope reaches, so an rApp cannot be
  given more than its provider holds and is never refused a claim within it.\<close>

theorem delegation_exact:
  assumes "from_claim j = Inr child"
  shows "covers parent child \<longleftrightarrow> (\<forall>region tenant. permits child region tenant \<longrightarrow> permits parent region tenant)"
  by (rule covers_exact) (use assms from_claim_wf in blast)

theorem delegation_exact_witness:
  "covers None (None :: scope option) \<longleftrightarrow> (\<forall>region tenant. permits None region tenant \<longrightarrow> permits None region tenant)"
  using delegation_exact [of JNull None None] by simp

text \<open>Effective scope of a request: on a call of another platform service with no originator, an
  acting user's claim can only narrow what the invoker itself may reach, and a scope header that is not
  JSON reaches nothing.\<close>

theorem acting_user_narrows:
  assumes "h ROLE_HEADER = Some ROLE_INTERNAL" "or_none (h ON_BEHALF_OF_HEADER) = None"
    "or_none (h ACTING_USER_HEADER) = Some user"
  shows "(permits (scope_of loads h) region tenant \<longleftrightarrow>
      permits (decode loads (h SCOPE_HEADER)) region tenant \<and>
      permits (decode loads (h ACTING_USER_SCOPE_HEADER)) region tenant) \<and>
    (or_none (h SCOPE_HEADER) = Some v \<longrightarrow> loads v = None \<longrightarrow> \<not> permits (scope_of loads h) region tenant)"
proof -
  have narrows: "permits (narrowed a b) region tenant \<longleftrightarrow> permits a region tenant \<and> permits b region tenant" for a b
    by (auto simp: scope_defs split: option.splits)
  have eq: "permits (scope_of loads h) region tenant \<longleftrightarrow>
      permits (decode loads (h SCOPE_HEADER)) region tenant \<and>
      permits (decode loads (h ACTING_USER_SCOPE_HEADER)) region tenant"
    using assms by (simp add: scope_of_def narrows)
  show ?thesis
    unfolding eq by (auto simp: decode_broken)
qed

definition example_headers :: headers where
  "example_headers = [ROLE_HEADER \<mapsto> ROLE_INTERNAL, ACTING_USER_HEADER \<mapsto> ''ana'', SCOPE_HEADER \<mapsto> ''{'']"

theorem acting_user_narrows_witness:
  "\<not> permits (scope_of (\<lambda>_. None) example_headers) (Some ''eu'') None"
  using acting_user_narrows [of example_headers "''ana''" "\<lambda>_. None" "Some ''eu''" None "''{''"]
  by (simp add: example_headers_def header_names decode_broken [of _ "''{''"])

text \<open>Row-level filtering and the per-element check agree: with unique references, none of a request's elements
  is denied exactly when each is in the listing the same caller gets (or the caller is not limited).\<close>

theorem denied_iff_invisible:
  assumes "distinct (map entity_ref entities)"
  shows "denied_refs entities sc refs = [] \<longleftrightarrow> sc = None \<or> set refs \<subseteq> set (visible_elements entities sc)"
proof (cases "sc = None")
  case False
  have "element_permitted entities sc ref \<longleftrightarrow> ref \<in> set (visible_elements entities sc)" for ref
  proof -
    have "\<And>m m'. m \<in> set entities \<Longrightarrow> m' \<in> set entities \<Longrightarrow> entity_ref m = entity_ref m' \<Longrightarrow> m = m'"
      using distinct_key_eq [OF assms] by blast
    with False show ?thesis
      by (fastforce simp: element_permitted_def visible_elements_def filter_statement_permits
          row_where_None dest!: row_where_SomeD split: option.splits)
  qed
  with False show ?thesis by (auto simp: denied_refs_eq filter_empty_conv)
qed (simp add: denied_refs_eq element_permitted_def)

theorem denied_iff_invisible_witness:
  "denied_refs ([] :: managed_entity list) (Some DENY_ALL) [''ru1''] = [] \<longleftrightarrow>
   Some DENY_ALL = None \<or> set [''ru1''] \<subseteq> set (visible_elements ([] :: managed_entity list) (Some DENY_ALL))"
  by (rule denied_iff_invisible) simp

lemma owner_walk_rule:
  assumes "distinct (map cm_job_id jobs)" "job \<in> set jobs"
  shows "job_owned_by jobs job caller \<longleftrightarrow> owned_job jobs caller (cm_job_id job)"
proof
  assume "job_owned_by jobs job caller"
  then show "owned_job jobs caller (cm_job_id job)"
    using owner_walk_sound [of jobs caller "Some job" "{}"] assms by (simp add: job_owned_by_def)
next
  assume "owned_job jobs caller (cm_job_id job)"
  then have ex: "\<exists>n. owned_in jobs caller n (cm_job_id job)" using assms owned_job_in by blast
  then have "owned_in jobs caller (LEAST n. owned_in jobs caller n (cm_job_id job)) (cm_job_id job)"
    by (rule LeastI_ex)
  then show "job_owned_by jobs job caller"
    unfolding job_owned_by_def
    by (rule owner_walk_complete [OF assms]) (use not_less_Least in auto)
qed

text \<open>C30: Ownership of a rollback job: the loop of the single-job check ends on every chain, cycles of \<open>rollback_of\<close>
  included, and says whether the chain reaches a job the caller made; whenever the recursive query of the listing ends
  it has exactly the jobs the loop accepts; and the query fails to end exactly when an owned job undoes itself around a
  cycle, the one case in which the two differ.\<close>

theorem ownership_walk_is_query:
  assumes "distinct (map cm_job_id jobs)" "job \<in> set jobs"
  shows "(job_owned_by jobs job caller \<longleftrightarrow> owned_job jobs caller (cm_job_id job)) \<and>
    (case owned_jobs jobs caller of
       Some ids \<Rightarrow> (cm_job_id job \<in> set ids \<longleftrightarrow> job_owned_by jobs job caller) \<and>
         (\<nexists>i. owned_job jobs caller i \<and> (i, i) \<in> (undoes_job jobs)\<^sup>+)
     | None \<Rightarrow> \<exists>i. owned_job jobs caller i \<and> (i, i) \<in> (undoes_job jobs)\<^sup>+)"
proof (intro conjI owner_walk_rule [OF assms], cases "owned_jobs jobs caller")
  case None
  then have "\<exists>i n. i \<in> set (round_of jobs (base_round jobs caller) n) \<and> (i, i) \<in> (undoes_job jobs)\<^sup>+"
    using no_cycle_ends [of jobs "base_round jobs caller"] rounds_end by (fastforce simp: owned_jobs_def)
  then show "case owned_jobs jobs caller of
       Some ids \<Rightarrow> (cm_job_id job \<in> set ids \<longleftrightarrow> job_owned_by jobs job caller) \<and>
         (\<nexists>i. owned_job jobs caller i \<and> (i, i) \<in> (undoes_job jobs)\<^sup>+)
     | None \<Rightarrow> \<exists>i. owned_job jobs caller i \<and> (i, i) \<in> (undoes_job jobs)\<^sup>+"
    using None owned_in_round by auto
next
  case (Some ids)
  note ended = rounds_ended [OF Some [unfolded owned_jobs_def]]
  obtain last_round where last_round: "round_of jobs (base_round jobs caller) last_round = []" using ended by blast
  have "(i, i) \<notin> (undoes_job jobs)\<^sup>+" if owned: "owned_job jobs caller i" for i
  proof
    obtain n where n: "i \<in> set (round_of jobs (base_round jobs caller) n)" using owned owned_in_round by blast
    assume "(i, i) \<in> (undoes_job jobs)\<^sup>+"
    from cycle_goes_on [OF this n] last_round show False by simp
  qed
  then show "case owned_jobs jobs caller of
       Some ids \<Rightarrow> (cm_job_id job \<in> set ids \<longleftrightarrow> job_owned_by jobs job caller) \<and>
         (\<nexists>i. owned_job jobs caller i \<and> (i, i) \<in> (undoes_job jobs)\<^sup>+)
     | None \<Rightarrow> \<exists>i. owned_job jobs caller i \<and> (i, i) \<in> (undoes_job jobs)\<^sup>+"
    by (simp add: Some ended owned_in_round owner_walk_rule [OF assms]) blast
qed

text \<open>A job and two undos of undos of it.\<close>

definition example_jobs :: "config_job list" where
  "example_jobs = [\<lparr>cm_job_id = 1, config_invoker_id = Some ''rapp'', config_rollback_of = None\<rparr>,
                   \<lparr>cm_job_id = 2, config_invoker_id = None, config_rollback_of = Some 1\<rparr>,
                   \<lparr>cm_job_id = 3, config_invoker_id = None, config_rollback_of = Some 2\<rparr>]"

theorem ownership_walk_is_query_witness:
  "owned_jobs example_jobs (Some ''rapp'') = Some [1, 2, 3] \<and> job_owned_by example_jobs (example_jobs ! 2) (Some ''rapp'')"
proof -
  have "owned_jobs example_jobs (Some ''rapp'') = Some [1, 2, 3]"
    by (simp add: owned_jobs_def base_round_def rounds_from.simps next_round_def example_jobs_def)
  then show ?thesis
    using ownership_walk_is_query [of example_jobs "example_jobs ! 2" "Some ''rapp''"] by (auto simp: example_jobs_def)
qed

text \<open>Two jobs that undo each other: the check answers, the query does not end.\<close>

lemma cycle_never_ends:
  "job_owned_by [\<lparr>cm_job_id = 1, config_invoker_id = Some ''rapp'', config_rollback_of = Some 2\<rparr>,
       \<lparr>cm_job_id = 2, config_invoker_id = None, config_rollback_of = Some 1\<rparr>]
     \<lparr>cm_job_id = 2, config_invoker_id = None, config_rollback_of = Some 1\<rparr> (Some ''rapp'')"
  "owned_jobs [\<lparr>cm_job_id = 1, config_invoker_id = Some ''rapp'', config_rollback_of = Some 2\<rparr>,
       \<lparr>cm_job_id = 2, config_invoker_id = None, config_rollback_of = Some 1\<rparr>] (Some ''rapp'') = None"
proof -
  let ?one = "\<lparr>cm_job_id = 1, config_invoker_id = Some ''rapp'', config_rollback_of = Some 2\<rparr>"
  let ?two = "\<lparr>cm_job_id = 2, config_invoker_id = None, config_rollback_of = Some 1\<rparr>"
  show "job_owned_by [?one, ?two] ?two (Some ''rapp'')" by code_simp
  have "(1, 2) \<in> undoes_job [?one, ?two]" "(2, 1) \<in> undoes_job [?one, ?two]"
    unfolding undoes_job_def by (force intro: exI [of _ ?one], force intro: exI [of _ ?two])
  then have "(1, 1) \<in> (undoes_job [?one, ?two])\<^sup>+" by (meson r_into_trancl' trancl_into_trancl)
  moreover have "1 \<in> set (round_of [?one, ?two] (base_round [?one, ?two] (Some ''rapp'')) 0)" by (simp add: base_round_def)
  ultimately have "round_of [?one, ?two] (base_round [?one, ?two] (Some ''rapp'')) n \<noteq> []" for n
    using cycle_goes_on by blast
  then show "owned_jobs [?one, ?two] (Some ''rapp'') = None"
    unfolding owned_jobs_def using rounds_ended [of "[?one, ?two]" "base_round [?one, ?two] (Some ''rapp'')"] by (meson not_None_eq)
qed

end
