(* ===== verification/RanStore.thy ===== *)
theory RanStore
  imports Errors RanLifecycles AccessScope
begin

section \<open>The store of RAN NF OAM that the life-cycle flows work on\<close>

text \<open>
  The tables of \<open>ran-nf-oam/app/models.py\<close> that \<open>lifecycle.py\<close> reads and writes, as one record: a
  table is the list of its rows. A handler is a function from the store to an error or the
  changed store; returning an error is the rollback of its session, returning the store is the commit.
  A handler reads the clock once (\<open>now\<close>). Optimistic locking (\<open>Versioned\<close>) makes a handler's transaction
  atomic: a stale one is the transaction that did not happen.
\<close>

record o1_endpoint =
  endpoint_id :: uid
  adaptor_uri :: string
  transport :: string
  health_status :: EndpointHealth
  last_heartbeat_at :: "seconds option"
  endpoint_services :: "string list option"

record vendor_row =
  vendor_key :: string
  vendor_services :: "string list"

record alarm =
  source_alarm_id :: string
  alarm_element :: string
  severity :: string
  alarm_type :: string
  probable_cause :: string
  specific_problem :: string
  raised_at :: seconds

record software_job =
  job_id :: uid
  managed_element_ref :: string
  ru_instance_id :: "string option"
  phase :: SwmPhase
  job_status :: SwmState
  campaign_id :: "uid option"
  campaign_wave :: "nat option"
  rollback_of :: "uid option"
  job_software_version :: "string option"

record lifecycle_subscription =
  subscription_id :: uid
  callback_uri :: string
  subscribed_events :: "string list"

record notice =
  notice_target :: string
  notice_type :: string
  notice_fields :: "(string \<times> json) list"
  notice_at :: seconds

datatype gate_policy = HaltCampaign | RollbackCampaign
datatype rollback_order = AllAtOnce | LastWaveFirst
datatype halt_reason = GATE_FAILED | WAVE_PAUSE | OPERATOR_HALT

record log_entry =
  log_at :: seconds
  log_event :: string
  log_wave :: nat
  log_detail :: "string option"
  log_by :: "string option"
  log_job :: "uid option"

record campaign_selector =
  sel_entity_type :: "string option"
  sel_vendor :: "string option"
  sel_region :: "string option"
  sel_tenant :: "string option"

record campaign =
  cid :: uid
  campaign_name :: string
  requested_by :: string
  status :: CampaignState
  software_version :: "string option"
  selector :: "campaign_selector option"
  elements :: "string list"
  wave_size :: "nat option"
  wave_count :: nat
  current_wave :: nat
  wave_pause_seconds :: nat
  gate_max_new_alarms :: nat
  on_gate_failure :: gate_policy
  job_timeout_seconds :: "nat option"
  rollback_order :: rollback_order
  wave_started_at :: "seconds option"
  next_wave_at :: "seconds option"
  halted_reason :: "halt_reason option"
  halted_detail :: "string option"
  wave_log :: "log_entry list"
  created_at :: seconds
  finished_at :: "seconds option"

datatype software_check = NOT_CHECKED | MATCH | MISMATCH

record template_change =
  change_function_ref :: "string option"
  change_attributes :: "(string \<times> json) list"
  change_operation :: string

record onboarding_template =
  template_key :: string
  template_description :: "string option"
  template_entity_type :: string
  template_vendor :: "string option"
  template_baseline :: "string option"
  require_baseline :: bool
  auto_apply :: bool
  enabled :: bool
  template_changes :: "template_change list"

record element_onboarding =
  onboarded_ref :: string
  onboarding_status :: OnboardingState
  template_name :: "string option"
  reported_version :: "string option"
  software_baseline :: "string option"
  software_check :: software_check
  config_job_id :: "uid option"
  onboarding_detail :: "string option"

record ran_store =
  entities :: "managed_entity list"
  endpoints :: "o1_endpoint list"
  vendors :: "vendor_row list"
  software_jobs :: "software_job list"
  campaigns :: "campaign list"
  alarms :: "alarm list"
  subscriptions :: "lifecycle_subscription list"
  outbox :: "notice list"
  templates :: "onboarding_template list"
  onboardings :: "element_onboarding list"

subsection \<open>Which services an element has (\<open>vendors.py\<close>)\<close>

definition get_entity :: "ran_store \<Rightarrow> string \<Rightarrow> managed_entity option" where
  "get_entity db ref = row_where (\<lambda>m. entity_ref m = ref) (entities db)"

definition vendor_capability :: "ran_store \<Rightarrow> managed_entity option \<Rightarrow> vendor_row option" where
  "vendor_capability db me =
     (case me of None \<Rightarrow> None
      | Some m \<Rightarrow> (case or_none (vendor_name m) of None \<Rightarrow> None
                  | Some v \<Rightarrow> row_where (\<lambda>r. vendor_key r = v) (vendors db)))"

definition effective_services :: "ran_store \<Rightarrow> managed_entity option \<Rightarrow> string list option" where
  "effective_services db me =
     (case me of None \<Rightarrow> None
      | Some m \<Rightarrow>
          let declared = (case entity_endpoint_id m of None \<Rightarrow> None
                          | Some e \<Rightarrow> (case row_where (\<lambda>r. endpoint_id r = e) (endpoints db) of None \<Rightarrow> None
                                       | Some endpoint \<Rightarrow> endpoint_services endpoint))
          in (case declared of Some services \<Rightarrow> Some services
              | None \<Rightarrow> map_option vendor_services (vendor_capability db (Some m))))"

definition require_service :: "ran_store \<Rightarrow> string \<Rightarrow> string \<Rightarrow> http_error + unit" where
  "require_service db ref service =
     (case effective_services db (get_entity db ref) of
        None \<Rightarrow> Inr ()
      | Some services \<Rightarrow> if service \<in> set services then Inr () else Inl O1_SERVICE_NOT_SUPPORTED)"

subsection \<open>Software jobs (\<open>start_software_job\<close>, \<open>advance_software_job\<close>)\<close>

definition start_software_job ::
  "ran_store \<Rightarrow> string \<Rightarrow> string option \<Rightarrow> uid option \<Rightarrow> nat option \<Rightarrow> uid option \<Rightarrow> string option
     \<Rightarrow> http_error + ran_store \<times> software_job" where
  "start_software_job db ref ru camp wave undoes version =
     (let job = \<lparr>job_id = fresh_id (map job_id (software_jobs db)), managed_element_ref = ref, ru_instance_id = ru,
                 phase = DOWNLOAD, job_status = SwmState.PENDING, campaign_id = camp, campaign_wave = wave,
                 rollback_of = undoes, job_software_version = version\<rparr>
      in and_then (uncaught (fire SOFTWARE_MANAGEMENT_FSM SwmState.PENDING SwmEvent.START ())) (\<lambda>s.
         let started = job\<lparr>job_status := s\<rparr>
         in Inr (db\<lparr>software_jobs := software_jobs db @ [started]\<rparr>, started)))"

definition phase_event :: "SwmPhase \<Rightarrow> SwmEvent" where
  "phase_event p = (case p of DOWNLOAD \<Rightarrow> DOWNLOAD_OK | INSTALL \<Rightarrow> INSTALL_OK | ACTIVATE \<Rightarrow> ACTIVATE_OK)"

text \<open>The report on one job: the state, and the next phase when the one that ended has a successor.\<close>

definition report_outcome :: "software_job \<Rightarrow> bool \<Rightarrow> http_error + software_job" where
  "report_outcome job succeeded =
     (if \<not> succeeded
      then and_then (or_conflict (fire SOFTWARE_MANAGEMENT_FSM (job_status job) PHASE_FAILED ())) (\<lambda>s.
             Inr (job\<lparr>job_status := s\<rparr>))
      else let ev = phase_event (phase job)
           in and_then (or_conflict (fire SOFTWARE_MANAGEMENT_FSM (job_status job) ev ())) (\<lambda>s.
                Inr (job\<lparr>job_status := s, phase := (case PHASE_ORDER ev of None \<Rightarrow> phase job | Some p \<Rightarrow> p)\<rparr>)))"

definition put_job :: "software_job \<Rightarrow> ran_store \<Rightarrow> ran_store" where
  "put_job job db = db\<lparr>software_jobs := update_where (\<lambda>j. job_id j = job_id job) (\<lambda>_. job) (software_jobs db)\<rparr>"

definition get_job :: "ran_store \<Rightarrow> uid \<Rightarrow> software_job option" where
  "get_job db i = row_where (\<lambda>j. job_id j = i) (software_jobs db)"

subsection \<open>Alarms and notices\<close>

definition raise_alarm :: "seconds \<Rightarrow> string \<Rightarrow> string \<Rightarrow> string \<Rightarrow> string \<Rightarrow> string \<Rightarrow> string \<Rightarrow> ran_store \<Rightarrow> ran_store" where
  "raise_alarm now ref source sev kind cause problem db =
     (if row_where (\<lambda>a. source_alarm_id a = source \<and> alarm_element a = ref \<and> severity a \<noteq> ''cleared'') (alarms db) = None
      then db\<lparr>alarms := alarms db @ [\<lparr>source_alarm_id = source, alarm_element = ref, severity = sev, alarm_type = kind,
                                      probable_cause = cause, specific_problem = problem, raised_at = now\<rparr>]\<rparr>
      else db)"

definition notify_lifecycle :: "seconds \<Rightarrow> string \<Rightarrow> (string \<times> json) list \<Rightarrow> ran_store \<Rightarrow> ran_store" where
  "notify_lifecycle now event_type members db =
     db\<lparr>outbox := outbox db @
        map (\<lambda>sub. \<lparr>notice_target = callback_uri sub, notice_type = event_type, notice_fields = members, notice_at = now\<rparr>)
            (filter (\<lambda>sub. subscribed_events sub = [] \<or> event_type \<in> set (subscribed_events sub)) (subscriptions db))\<rparr>"

definition subscribe_to_lifecycle_events ::
  "(string \<Rightarrow> bool) \<Rightarrow> string \<Rightarrow> string list \<Rightarrow> ran_store \<Rightarrow> http_error + ran_store" where
  "subscribe_to_lifecycle_events safe uri events db =
     (if \<not> safe uri then Inl SCHEMA_VALIDATION_FAILED
      else Inr (db\<lparr>subscriptions := subscriptions db @
        [\<lparr>subscription_id = fresh_id (map subscription_id (subscriptions db)), callback_uri = uri,
          subscribed_events = sort (remdups events)\<rparr>]\<rparr>))"

definition unsubscribe_from_lifecycle_events :: "uid \<Rightarrow> ran_store \<Rightarrow> http_error + ran_store" where
  "unsubscribe_from_lifecycle_events i db =
     (if row_where (\<lambda>s. subscription_id s = i) (subscriptions db) = None then Inl LIFECYCLE_SUBSCRIPTION_NOT_FOUND
      else Inr (db\<lparr>subscriptions := delete_where (\<lambda>s. subscription_id s = i) (subscriptions db)\<rparr>))"

subsection \<open>Lemmas on jobs and notices\<close>

lemma raise_alarm_jobs [simp]:
  "software_jobs (raise_alarm now ref src sev kind cause problem db) = software_jobs db"
  "campaigns (raise_alarm now ref src sev kind cause problem db) = campaigns db"
  by (simp_all add: raise_alarm_def)

lemma notify_lifecycle_jobs [simp]:
  "software_jobs (notify_lifecycle now ev members db) = software_jobs db"
  "campaigns (notify_lifecycle now ev members db) = campaigns db"
  "alarms (notify_lifecycle now ev members db) = alarms db"
  "entities (notify_lifecycle now ev members db) = entities db"
  by (simp_all add: notify_lifecycle_def)

definition started_job ::
  "ran_store \<Rightarrow> string \<Rightarrow> string option \<Rightarrow> uid option \<Rightarrow> nat option \<Rightarrow> uid option \<Rightarrow> string option \<Rightarrow> software_job" where
  "started_job db ref ru camp wave undoes version =
     \<lparr>job_id = fresh_id (map job_id (software_jobs db)), managed_element_ref = ref, ru_instance_id = ru,
      phase = DOWNLOAD, job_status = IN_PROGRESS, campaign_id = camp, campaign_wave = wave,
      rollback_of = undoes, job_software_version = version\<rparr>"

lemma started_job_simps [simp]:
  "job_id (started_job db ref ru camp wave undoes version) = fresh_id (map job_id (software_jobs db))"
  "managed_element_ref (started_job db ref ru camp wave undoes version) = ref"
  "job_status (started_job db ref ru camp wave undoes version) = IN_PROGRESS"
  "phase (started_job db ref ru camp wave undoes version) = DOWNLOAD"
  "campaign_id (started_job db ref ru camp wave undoes version) = camp"
  "campaign_wave (started_job db ref ru camp wave undoes version) = wave"
  "rollback_of (started_job db ref ru camp wave undoes version) = undoes"
  by (simp_all add: started_job_def)

lemma start_software_job_ok [simp]:
  "start_software_job db ref ru camp wave undoes version =
     Inr (db\<lparr>software_jobs := software_jobs db @ [started_job db ref ru camp wave undoes version]\<rparr>,
          started_job db ref ru camp wave undoes version)"
  by (simp add: start_software_job_def started_job_def Let_def)

text \<open>A report moves a job that runs, changes nothing else of it, and is refused for any other job.\<close>

lemma report_outcome_Inr:
  assumes "report_outcome job succeeded = Inr job'"
  shows "job_status job = IN_PROGRESS \<and>
    job_status job' \<noteq> SwmState.PENDING \<and> job_id job' = job_id job \<and>
    managed_element_ref job' = managed_element_ref job \<and> campaign_id job' = campaign_id job \<and>
    campaign_wave job' = campaign_wave job \<and> rollback_of job' = rollback_of job"
proof (cases "job_status job")
  case PENDING
  with assms show ?thesis
    by (cases "phase job") (auto simp: report_outcome_def phase_event_def swm_fire_pending split: if_splits)
next
  case IN_PROGRESS
  with assms show ?thesis
    by (cases "phase job"; cases succeeded) (auto simp: report_outcome_def phase_event_def)
next
  case COMPLETED
  with assms show ?thesis by (auto simp: report_outcome_def split: if_splits)
next
  case FAILED
  with assms show ?thesis by (auto simp: report_outcome_def split: if_splits)
qed

lemma report_outcome_error: "report_outcome job succeeded = Inl err \<Longrightarrow> err = illegal_transition_error"
  by (auto simp: report_outcome_def or_conflict_def and_then_Inl_iff Let_def split: sum.splits if_splits)

end
