(* ===== verification/Campaigns.thy ===== *)
theory Campaigns
  imports RanStore
begin

section \<open>Software campaigns (ran-nf-oam/app/lifecycle.py)\<close>

text \<open>
  A campaign cuts its elements into waves, starts one software job per element of a wave, runs the health
  gate when the jobs of the wave have ended, and goes on, halts or rolls back. The functions below work
  on a session: the store and the campaign object loaded in it; \<open>save\<close> writes the object back, as
  the commit does. The \<open>while\<close> of \<open>_progress_wave\<close> terminates because a wave number below \<open>wave_count\<close>
  grows in every turn.
\<close>

type_synonym session = "ran_store \<times> campaign"

definition log_entry_of ::
  "seconds \<Rightarrow> campaign \<Rightarrow> string \<Rightarrow> string option \<Rightarrow> nat option \<Rightarrow> string option \<Rightarrow> uid option \<Rightarrow> log_entry" where
  "log_entry_of now c ev detail wave by_whom job =
     \<lparr>log_at = now, log_event = ev, log_wave = (case wave of None \<Rightarrow> current_wave c | Some w \<Rightarrow> w),
      log_detail = detail, log_by = by_whom, log_job = job\<rparr>"

definition log_to ::
  "seconds \<Rightarrow> string \<Rightarrow> string option \<Rightarrow> nat option \<Rightarrow> string option \<Rightarrow> uid option \<Rightarrow> campaign \<Rightarrow> campaign" where
  "log_to now ev detail wave by_whom job c =
     c\<lparr>wave_log := wave_log c @ [log_entry_of now c ev detail wave by_whom job]\<rparr>"

definition reason_text :: "halt_reason \<Rightarrow> string" where
  "reason_text r = (case r of GATE_FAILED \<Rightarrow> ''GATE_FAILED'' | WAVE_PAUSE \<Rightarrow> ''WAVE_PAUSE'' | OPERATOR_HALT \<Rightarrow> ''OPERATOR_HALT'')"

definition status_text :: "CampaignState \<Rightarrow> string" where
  "status_text s = (case s of PENDING \<Rightarrow> ''PENDING'' | RUNNING \<Rightarrow> ''RUNNING'' | HALTED \<Rightarrow> ''HALTED''
     | COMPLETED \<Rightarrow> ''COMPLETED'' | ABORTED \<Rightarrow> ''ABORTED'' | ROLLING_BACK \<Rightarrow> ''ROLLING_BACK''
     | ROLLED_BACK \<Rightarrow> ''ROLLED_BACK'' | CampaignState.ROLLBACK_FAILED \<Rightarrow> ''ROLLBACK_FAILED'')"

definition phase_text :: "SwmPhase \<Rightarrow> string" where
  "phase_text p = (case p of DOWNLOAD \<Rightarrow> ''DOWNLOAD'' | INSTALL \<Rightarrow> ''INSTALL'' | ACTIVATE \<Rightarrow> ''ACTIVATE'')"

definition opt_json :: "string option \<Rightarrow> json" where
  "opt_json v = (case v of None \<Rightarrow> JNull | Some s \<Rightarrow> JStr s)"

definition campaign_event :: "seconds \<Rightarrow> string \<Rightarrow> string option \<Rightarrow> string option \<Rightarrow> session \<Rightarrow> session" where
  "campaign_event now event_type reason detail sess = (case sess of (db, c) \<Rightarrow>
     (notify_lifecycle now event_type
        [(''campaignId'', JInt (int (cid c))), (''name'', JStr (campaign_name c)), (''status'', JStr (status_text (status c))),
         (''wave'', JInt (int (current_wave c))), (''waveCount'', JInt (int (wave_count c))),
         (''reason'', opt_json reason), (''detail'', opt_json detail)] db, c))"

text \<open>\<open>c.wave_size or len(c.elements) or 1\<close>\<close>

definition elements_per_wave :: "campaign \<Rightarrow> nat" where
  "elements_per_wave c =
     (case wave_size c of
        Some n \<Rightarrow> if n \<noteq> 0 then n else if elements c \<noteq> [] then length (elements c) else 1
      | None \<Rightarrow> if elements c \<noteq> [] then length (elements c) else 1)"

definition wave_elements :: "campaign \<Rightarrow> nat \<Rightarrow> string list" where
  "wave_elements c wave =
     (if wave = 0 then []
      else take (elements_per_wave c) (drop ((wave - 1) * elements_per_wave c) (elements c)))"

definition job_of :: "campaign \<Rightarrow> bool \<Rightarrow> software_job \<Rightarrow> bool" where
  "job_of c reverts j \<longleftrightarrow> campaign_id j = Some (cid c) \<and> (rollback_of j \<noteq> None) = reverts"

text \<open>\<open>ORDER BY campaign_wave, managed_element_ref\<close>; the jobs of a campaign all have a wave.\<close>

definition jobs :: "ran_store \<Rightarrow> campaign \<Rightarrow> nat option \<Rightarrow> bool \<Rightarrow> software_job list" where
  "jobs db c wave reverts =
     sort_key (\<lambda>j. (campaign_wave j, managed_element_ref j))
       (filter (\<lambda>j. job_of c reverts j \<and> (case wave of None \<Rightarrow> True | Some w \<Rightarrow> campaign_wave j = Some w))
          (software_jobs db))"

definition in_flight :: "software_job \<Rightarrow> bool" where
  "in_flight j \<longleftrightarrow> job_status j = SwmState.PENDING \<or> job_status j = IN_PROGRESS"

definition start_wave_job :: "campaign \<Rightarrow> nat \<Rightarrow> string \<Rightarrow> ran_store \<Rightarrow> http_error + ran_store" where
  "start_wave_job c wave ref db =
     and_then (start_software_job db ref None (Some (cid c)) (Some wave) None (software_version c)) (\<lambda>p. Inr (fst p))"

definition start_wave :: "seconds \<Rightarrow> nat \<Rightarrow> session \<Rightarrow> http_error + session" where
  "start_wave now wave sess = (case sess of (db, c0) \<Rightarrow>
     let c = c0\<lparr>current_wave := wave, wave_started_at := Some now, next_wave_at := None\<rparr>
     in and_then (each (start_wave_job c wave) (wave_elements c wave) db) (\<lambda>db'.
        Inr (db', log_to now ''WAVE_STARTED'' (Some (str (length (wave_elements c wave)) @ '' element(s)'')) None None None c)))"

subsection \<open>The health gates\<close>

type_synonym health_gate = "ran_store \<Rightarrow> campaign \<Rightarrow> software_job list \<Rightarrow> seconds \<Rightarrow> string option"

definition gate_failed_jobs :: health_gate where
  "gate_failed_jobs db c js started =
     (case filter (\<lambda>j. job_status j = SwmState.FAILED) js of
        [] \<Rightarrow> None
      | j # rest \<Rightarrow> Some (str (Suc (length rest)) @ '' software job(s) of wave '' @ str (current_wave c) @ '' failed (first: ''
                        @ managed_element_ref j @ '', in phase '' @ phase_text (phase j) @ '')''))"

definition gate_new_alarms :: health_gate where
  "gate_new_alarms db c js started =
     (let raised = length (filter (\<lambda>a. alarm_element a \<in> set (map managed_element_ref js) \<and> raised_at a \<ge> started
                                    \<and> severity a \<in> {''critical'', ''major''}) (alarms db))
      in if raised > gate_max_new_alarms c
         then Some (str raised @ '' new critical or major alarm(s) on the elements of wave '' @ str (current_wave c)
                    @ '' (limit '' @ str (gate_max_new_alarms c) @ '')'')
         else None)"

definition HEALTH_GATES :: "health_gate list" where
  "HEALTH_GATES = [gate_failed_jobs, gate_new_alarms]"

fun first_failure :: "health_gate list \<Rightarrow> health_gate" where
  "first_failure [] db c js started = None"
| "first_failure (g # gs) db c js started =
     (case g db c js started of None \<Rightarrow> first_failure gs db c js started | Some f \<Rightarrow> Some f)"

subsection \<open>Ending, halting and undoing\<close>

definition finish :: "seconds \<Rightarrow> session \<Rightarrow> http_error + session" where
  "finish now sess = (case sess of (db, c) \<Rightarrow>
     and_then (uncaught (fire CAMPAIGN_FSM (status c) FINISH ())) (\<lambda>s.
       Inr (db, log_to now ''COMPLETED'' None None None None
         (c\<lparr>status := s, finished_at := Some now, next_wave_at := None, halted_reason := None, halted_detail := None\<rparr>))))"

definition halt ::
  "seconds \<Rightarrow> halt_reason \<Rightarrow> string option \<Rightarrow> seconds option \<Rightarrow> string option \<Rightarrow> session \<Rightarrow> http_error + session" where
  "halt now reason detail next_at by_whom sess = (case sess of (db, c) \<Rightarrow>
     and_then (uncaught (fire CAMPAIGN_FSM (status c) CampaignEvent.HALT ())) (\<lambda>s.
       let c' = log_to now ''HALTED'' (Some (reason_text reason @ (case detail of None \<Rightarrow> [] | Some d \<Rightarrow> if d = [] then [] else '': '' @ d)))
                  None by_whom None
                  (c\<lparr>status := s, halted_reason := Some reason, halted_detail := detail, next_wave_at := next_at\<rparr>)
       in Inr (if reason \<noteq> WAVE_PAUSE then campaign_event now ''CAMPAIGN_HALTED'' (Some (reason_text reason)) detail (db, c')
               else (db, c'))))"

datatype undo_state = UNDO_FAILED | UNDO_IN_PROGRESS | UNDO_COMPLETED

definition undo_rank :: "undo_state \<Rightarrow> nat" where
  "undo_rank u = (case u of UNDO_COMPLETED \<Rightarrow> 2 | UNDO_IN_PROGRESS \<Rightarrow> 1 | UNDO_FAILED \<Rightarrow> 0)"

definition undo_of :: "software_job \<Rightarrow> undo_state" where
  "undo_of r = (if job_status r = SwmState.COMPLETED then UNDO_COMPLETED else if in_flight r then UNDO_IN_PROGRESS else UNDO_FAILED)"

definition note_undo :: "software_job \<Rightarrow> (uid \<times> undo_state) list \<Rightarrow> (uid \<times> undo_state) list" where
  "note_undo r st = (case rollback_of r of None \<Rightarrow> st
     | Some original \<Rightarrow> (case map_of st original of
           None \<Rightarrow> st @ [(original, undo_of r)]
         | Some old \<Rightarrow> if undo_rank (undo_of r) > undo_rank old
                       then map (\<lambda>(k, v). if k = original then (k, undo_of r) else (k, v)) st else st))"

definition undone :: "software_job list \<Rightarrow> (uid \<times> undo_state) list" where
  "undone reverts = fold note_undo reverts []"

definition revert_targets :: "ran_store \<Rightarrow> campaign \<Rightarrow> software_job list \<Rightarrow> software_job list" where
  "revert_targets db c reverts =
     (let u = undone reverts
      in filter (\<lambda>j. job_status j = SwmState.COMPLETED \<and>
                     map_of u (job_id j) \<notin> {Some UNDO_COMPLETED, Some UNDO_IN_PROGRESS})
           (jobs db c None False))"

definition wave_or_0 :: "software_job \<Rightarrow> nat" where
  "wave_or_0 j = (case campaign_wave j of None \<Rightarrow> 0 | Some w \<Rightarrow> w)"

definition start_revert_job :: "campaign \<Rightarrow> software_job \<Rightarrow> ran_store \<Rightarrow> http_error + ran_store" where
  "start_revert_job c j db =
     and_then (start_software_job db (managed_element_ref j) None (Some (cid c)) (campaign_wave j) (Some (job_id j)) None)
       (\<lambda>p. Inr (fst p))"

definition step_targets :: "campaign \<Rightarrow> software_job list \<Rightarrow> software_job list" where
  "step_targets c targets =
     (if rollback_order c = LastWaveFirst \<and> targets \<noteq> []
      then filter (\<lambda>j. wave_or_0 j = Max (set (map wave_or_0 targets))) targets else targets)"

definition start_reverts :: "seconds \<Rightarrow> software_job list \<Rightarrow> session \<Rightarrow> http_error + session \<times> nat" where
  "start_reverts now targets0 sess = (case sess of (db, c0) \<Rightarrow>
     let targets = step_targets c0 targets0;
         c1 = (if rollback_order c0 = LastWaveFirst \<and> targets0 \<noteq> []
               then log_to now ''ROLLBACK_WAVE_STARTED'' (Some (str (length targets) @ '' job(s)''))
                      (Some (Max (set (map wave_or_0 targets0)))) None None c0
               else c0);
         c2 = (if targets \<noteq> [] then c1\<lparr>wave_started_at := Some now\<rparr> else c1)
     in and_then (each (start_revert_job c2) targets db) (\<lambda>db'. Inr ((db', c2), length targets)))"

definition progress_rollback :: "seconds \<Rightarrow> session \<Rightarrow> http_error + session" where
  "progress_rollback now sess = (case sess of (db, c) \<Rightarrow>
     let reverts = jobs db c None True
     in if list_ex in_flight reverts then Inr (db, c)
        else
          let u = undone reverts;
              failed = map fst (filter (\<lambda>p. snd p = UNDO_FAILED) u);
              failed_text = str (length failed) @ '' revert job(s) failed'';
              ended = (\<lambda>(db, c). and_then (uncaught (fire CAMPAIGN_FSM (status c) ROLLBACK_DONE ())) (\<lambda>s.
                        Inr (db, log_to now ''ROLLBACK_DONE'' (Some (str (length u) @ '' job(s) undone'')) None None None
                                   (c\<lparr>status := s, finished_at := Some now\<rparr>))))
          in if failed \<noteq> [] then
               and_then (uncaught (fire CAMPAIGN_FSM (status c) CampaignEvent.ROLLBACK_FAILED ())) (\<lambda>s.
                 Inr (campaign_event now ''CAMPAIGN_ROLLBACK_FAILED'' (Some ''ROLLBACK_FAILED'') (Some failed_text)
                   (db, log_to now ''ROLLBACK_FAILED'' (Some failed_text) None None None (c\<lparr>status := s\<rparr>))))
             else if rollback_order c = LastWaveFirst then
               and_then (start_reverts now (revert_targets db c reverts) (db, c)) (\<lambda>(sess', n).
                 if n \<noteq> 0 then Inr sess' else ended sess')
             else ended (db, c))"

definition start_rollback :: "seconds \<Rightarrow> string \<Rightarrow> string option \<Rightarrow> session \<Rightarrow> http_error + session" where
  "start_rollback now why by_whom sess = (case sess of (db, c) \<Rightarrow>
     let targets = revert_targets db c (jobs db c None True)
     in and_then (uncaught (fire CAMPAIGN_FSM (status c) ROLLBACK ())) (\<lambda>s.
        and_then (start_reverts now targets (db, log_to now ''ROLLBACK_STARTED''
                    (Some (why @ ''; '' @ str (length targets) @ '' job(s) to undo'')) None by_whom None
                    (c\<lparr>status := s, halted_reason := None, halted_detail := None, next_wave_at := None, finished_at := None\<rparr>)))
          (\<lambda>(sess', n). if n = 0 then progress_rollback now sess' else Inr sess')))"

definition next_wave_or_finish :: "seconds \<Rightarrow> session \<Rightarrow> http_error + session" where
  "next_wave_or_finish now sess = (case sess of (db, c) \<Rightarrow>
     if current_wave c \<ge> wave_count c then finish now (db, c) else start_wave now (Suc (current_wave c)) (db, c))"

subsection \<open>The waves of a running campaign\<close>

lemma start_wave_current:
  "start_wave now wave (db, c) = Inr (db', c') \<Longrightarrow>
     current_wave c' = wave \<and> wave_count c' = wave_count c \<and> status c' = status c"
  by (auto simp: start_wave_def log_to_def Let_def and_then_Inr_iff)

text \<open>One turn of the \<open>while\<close>: \<open>Inl\<close> leaves the function with its result, \<open>Inr\<close> goes round again.\<close>

definition wave_turn :: "seconds \<Rightarrow> session \<Rightarrow> (http_error + session) + session" where
  "wave_turn now sess = (case sess of (db, c) \<Rightarrow>
     let js = jobs db c (Some (current_wave c)) False
     in if list_ex in_flight js then Inl (Inr (db, c))
        else
          let started = (case wave_started_at c of None \<Rightarrow> now | Some t \<Rightarrow> t)
          in case first_failure HEALTH_GATES db c js started of
               Some failure \<Rightarrow>
                 let c1 = log_to now ''GATE_FAILED'' (Some failure) None None None c
                 in Inl (if on_gate_failure c1 = RollbackCampaign then start_rollback now failure None (db, c1)
                         else halt now GATE_FAILED (Some failure) None None (db, c1))
             | None \<Rightarrow>
                 let c1 = log_to now ''GATE_PASSED'' (Some (str (length js) @ '' job(s) completed'')) None None None c
                 in if current_wave c1 \<ge> wave_count c1 then Inl (finish now (db, c1))
                    else if wave_pause_seconds c1 > 0
                      then Inl (halt now WAVE_PAUSE None (Some (now + int (wave_pause_seconds c1))) None (db, c1))
                    else (case start_wave now (Suc (current_wave c1)) (db, c1) of
                            Inl err \<Rightarrow> Inl (Inl err) | Inr sess' \<Rightarrow> Inr sess'))"

lemma wave_turn_next:
  assumes "wave_turn now (db, c) = Inr (db', c')"
  shows "current_wave c' = Suc (current_wave c) \<and> wave_count c' = wave_count c \<and> current_wave c < wave_count c"
  using assms
  by (auto simp: wave_turn_def Let_def log_to_def split: if_splits option.splits sum.splits dest!: start_wave_current)

function progress_wave :: "seconds \<Rightarrow> session \<Rightarrow> http_error + session" where
  "progress_wave now (db, c) =
     (if status c = RUNNING then (case wave_turn now (db, c) of Inl result \<Rightarrow> result | Inr sess' \<Rightarrow> progress_wave now sess')
      else Inr (db, c))"
  by pat_completeness auto

termination
  by (relation "measure (\<lambda>(now, db, c). wave_count c - current_wave c)") (auto dest!: wave_turn_next)

declare progress_wave.simps [simp del]

definition progress :: "seconds \<Rightarrow> session \<Rightarrow> http_error + session" where
  "progress now sess = (case sess of (db, c) \<Rightarrow>
     if status c = RUNNING then progress_wave now (db, c)
     else if status c = ROLLING_BACK then progress_rollback now (db, c)
     else Inr (db, c))"

end
