(* ===== verification/CampaignRoutes.thy ===== *)
theory CampaignRoutes
  imports Campaigns
begin

section \<open>The routes and the sweep of software campaigns\<close>

text \<open>
  What a request does to the store: the handlers of \<open>ran-nf-oam/app/lifecycle.py\<close> and the job routes of
  \<open>ran-nf-oam/app/main.py\<close> that report the progress of a campaign's jobs. The caller's scope is the
  claim of \<open>AccessScope\<close>. A transaction that optimistic locking refuses (\<open>StaleDataError\<close>)
  is a flag of the handlers that catch it.
\<close>

definition save :: "session \<Rightarrow> ran_store" where
  "save sess = (case sess of (db, c) \<Rightarrow>
     db\<lparr>campaigns := update_where (\<lambda>r. cid r = cid c) (\<lambda>_. c) (campaigns db)\<rparr>)"

definition commit :: "http_error + session \<Rightarrow> http_error + ran_store" where
  "commit r = and_then r (\<lambda>sess. Inr (save sess))"

definition get_campaign :: "ran_store \<Rightarrow> uid \<Rightarrow> campaign option" where
  "get_campaign db i = row_where (\<lambda>c. cid c = i) (campaigns db)"

record campaign_summary =
  sum_id :: uid
  sum_status :: CampaignState
  sum_wave :: nat
  sum_wave_count :: nat
  sum_halted_reason :: "halt_reason option"

definition summary :: "campaign \<Rightarrow> campaign_summary" where
  "summary c = \<lparr>sum_id = cid c, sum_status = status c, sum_wave = current_wave c, sum_wave_count = wave_count c,
                sum_halted_reason = halted_reason c\<rparr>"

definition on_job_advanced :: "seconds \<Rightarrow> bool \<Rightarrow> uid \<Rightarrow> ran_store \<Rightarrow> http_error + ran_store" where
  "on_job_advanced now stale camp db =
     (case get_campaign db camp of None \<Rightarrow> Inr db
      | Some c \<Rightarrow> if stale then Inr db else commit (progress now (db, c)))"

text \<open>\<open>msac\<close> is what \<open>_require_msac\<close> answers for \<open>exec\<close> on the element: \<open>None\<close>, or its refusal.\<close>

definition software_update ::
  "scope option \<Rightarrow> http_error option \<Rightarrow> string \<Rightarrow> string option \<Rightarrow> ran_store \<Rightarrow> http_error + ran_store \<times> software_job" where
  "software_update sc msac ref ru db =
     (if denied_refs (entities db) sc [ref] \<noteq> [] then Inl SCOPE_DENIED
      else case msac of Some err \<Rightarrow> Inl err
      | None \<Rightarrow> and_then (require_service db ref ''SWM'') (\<lambda>_.
             start_software_job db ref ru None None None None))"

text \<open>The store after the request (the job's commit stands whatever the campaign does) and the answer.\<close>

definition advance_software_job ::
  "seconds \<Rightarrow> scope option \<Rightarrow> bool \<Rightarrow> uid \<Rightarrow> bool \<Rightarrow> ran_store \<Rightarrow> ran_store \<times> (http_error + software_job)" where
  "advance_software_job now sc stale i succeeded db =
     (case get_job db i of None \<Rightarrow> (db, Inl SOFTWARE_JOB_NOT_FOUND)
      | Some job \<Rightarrow>
          if \<not> element_permitted (entities db) sc (managed_element_ref job) then (db, Inl SOFTWARE_JOB_NOT_FOUND)
          else (case report_outcome job succeeded of
                  Inl err \<Rightarrow> (db, Inl err)
                | Inr job' \<Rightarrow>
                    let db1 = put_job job' db
                    in (case campaign_id job' of None \<Rightarrow> (db1, Inr job')
                        | Some camp \<Rightarrow>
                            (case on_job_advanced now stale camp db1 of
                               Inl err \<Rightarrow> (db1, Inl err) | Inr db2 \<Rightarrow> (db2, Inr job')))))"

subsection \<open>Timeouts and the sweep\<close>

definition expire_job :: "seconds \<Rightarrow> nat \<Rightarrow> software_job \<Rightarrow> session \<Rightarrow> http_error + session" where
  "expire_job now limit job sess = (case sess of (db, c) \<Rightarrow>
     and_then (uncaught (fire SOFTWARE_MANAGEMENT_FSM (job_status job) PHASE_FAILED ())) (\<lambda>s.
       Inr (put_job (job\<lparr>job_status := s\<rparr>) db,
            log_to now ''JOB_TIMED_OUT'' (Some (managed_element_ref job @ '' did not report within '' @ str limit
                @ '' s (phase '' @ phase_text (phase job) @ '')'')) (campaign_wave job) None (Some (job_id job)) c)))"

definition expire_jobs :: "seconds \<Rightarrow> session \<Rightarrow> http_error + session" where
  "expire_jobs now sess = (case sess of (db, c) \<Rightarrow>
     (case (job_timeout_seconds c, wave_started_at c) of
        (Some limit, Some started) \<Rightarrow>
          if status c \<noteq> RUNNING \<and> status c \<noteq> ROLLING_BACK then Inr (db, c)
          else if now < started + int limit then Inr (db, c)
          else let js = (if status c = RUNNING then jobs db c (Some (current_wave c)) False else jobs db c None True)
               in each (expire_job now limit) (filter (\<lambda>j. job_status j = IN_PROGRESS) js) (db, c)
      | _ \<Rightarrow> Inr (db, c)))"

definition resume :: "seconds \<Rightarrow> string option \<Rightarrow> session \<Rightarrow> http_error + session" where
  "resume now by_whom sess = (case sess of (db, c) \<Rightarrow>
     and_then (uncaught (fire CAMPAIGN_FSM HALTED CampaignEvent.RESUME ())) (\<lambda>s.
       let c1 = log_to now ''CONTINUED''
                  (Some (''after '' @ (case halted_reason c of None \<Rightarrow> ''None'' | Some r \<Rightarrow> reason_text r))) None by_whom None
                  (c\<lparr>status := s, halted_reason := None, halted_detail := None, next_wave_at := None\<rparr>)
       in and_then (if halted_reason c \<in> {Some GATE_FAILED, Some WAVE_PAUSE}
                    then next_wave_or_finish now (db, c1) else Inr (db, c1))
            (progress now)))"

definition pause_over :: "seconds \<Rightarrow> campaign \<Rightarrow> bool" where
  "pause_over now c \<longleftrightarrow> status c = HALTED \<and> halted_reason c = Some WAVE_PAUSE
     \<and> (case next_wave_at c of None \<Rightarrow> False | Some t \<Rightarrow> t \<le> now)"

definition sweep_due :: "seconds \<Rightarrow> uid \<Rightarrow> ran_store \<times> campaign_summary list \<Rightarrow> http_error + ran_store \<times> campaign_summary list" where
  "sweep_due now i acc = (case acc of (db, moved) \<Rightarrow>
     (case get_campaign db i of None \<Rightarrow> Inr (db, moved)
      | Some c \<Rightarrow> and_then (resume now (Some ''sweep'') (db, c)) (\<lambda>(db', c').
                    Inr (save (db', c'), moved @ [summary c']))))"

definition sweep_live ::
  "seconds \<Rightarrow> (uid \<Rightarrow> bool) \<Rightarrow> uid \<Rightarrow> ran_store \<times> campaign_summary list \<Rightarrow> http_error + ran_store \<times> campaign_summary list" where
  "sweep_live now stale i acc = (case acc of (db, moved) \<Rightarrow>
     (case get_campaign db i of None \<Rightarrow> Inr (db, moved)
      | Some c \<Rightarrow>
          if stale i then Inr (db, moved)
          else and_then (expire_jobs now (db, c)) (\<lambda>sess. and_then (progress now sess) (\<lambda>(db', c').
                 if (status c', current_wave c', length (wave_log c')) \<noteq> (status c, current_wave c, length (wave_log c))
                 then Inr (save (db', c'), moved @ [summary c']) else Inr (db, moved)))))"

definition advance_due :: "seconds \<Rightarrow> (uid \<Rightarrow> bool) \<Rightarrow> ran_store \<Rightarrow> http_error + ran_store \<times> campaign_summary list" where
  "advance_due now stale db =
     and_then (each (sweep_due now) (map cid (sort_key next_wave_at (filter (pause_over now) (campaigns db)))) (db, []))
       (\<lambda>(db1, moved).
         each (sweep_live now stale)
           (map cid (filter (\<lambda>c. status c = RUNNING \<or> status c = ROLLING_BACK) (campaigns db1))) (db1, moved))"

subsection \<open>Creating a campaign\<close>

definition MAX_CAMPAIGN_ELEMENTS :: nat where "MAX_CAMPAIGN_ELEMENTS = 5000"

record campaign_request =
  req_requested_by :: string
  req_name :: string
  req_software_version :: "string option"
  req_refs :: "string list option"
  req_selector :: "campaign_selector option"
  req_wave_size :: "nat option"
  req_wave_pause :: nat
  req_max_new_alarms :: nat
  req_on_gate_failure :: gate_policy
  req_job_timeout :: "nat option"
  req_rollback_order :: rollback_order
  req_dry_run :: bool

definition selector_not_empty :: "campaign_selector \<Rightarrow> bool" where
  "selector_not_empty s \<longleftrightarrow> or_none (sel_entity_type s) \<noteq> None \<or> or_none (sel_vendor s) \<noteq> None
     \<or> or_none (sel_region s) \<noteq> None \<or> or_none (sel_tenant s) \<noteq> None"

definition length_in :: "nat \<Rightarrow> nat \<Rightarrow> 'a list \<Rightarrow> bool" where
  "length_in lo hi xs \<longleftrightarrow> lo \<le> length xs \<and> length xs \<le> hi"

definition if_given :: "('a \<Rightarrow> bool) \<Rightarrow> 'a option \<Rightarrow> bool" where
  "if_given P v = (case v of None \<Rightarrow> True | Some x \<Rightarrow> P x)"

text \<open>The body model: field bounds, then the validators; \<open>None\<close> is the framework's 422.\<close>

definition validated :: "campaign_request \<Rightarrow> campaign_request option" where
  "validated r =
     (if \<not> (length_in 1 200 (req_requested_by r) \<and> length_in 1 200 (req_name r)
            \<and> if_given (length_in 1 100) (req_software_version r)
            \<and> if_given (length_in 1 MAX_CAMPAIGN_ELEMENTS) (req_refs r)
            \<and> if_given (\<lambda>s. if_given (length_in 0 100) (sel_entity_type s) \<and> if_given (length_in 0 100) (sel_vendor s)
                          \<and> if_given (length_in 0 100) (sel_region s) \<and> if_given (length_in 0 100) (sel_tenant s)
                          \<and> selector_not_empty s) (req_selector r)
            \<and> if_given (\<lambda>n. 1 \<le> n) (req_wave_size r)
            \<and> if_given (\<lambda>n. 1 \<le> n \<and> n \<le> 7 * 86400) (req_job_timeout r)) then None
      else if (req_refs r = None) = (req_selector r = None) then None
      else Some (r\<lparr>req_refs := map_option dict_fromkeys (req_refs r)\<rparr>))"

definition has_swm :: "ran_store \<Rightarrow> managed_entity option \<Rightarrow> bool" where
  "has_swm db me = (case effective_services db me of None \<Rightarrow> True | Some s \<Rightarrow> ''SWM'' \<in> set s)"

definition selected :: "campaign_selector \<Rightarrow> managed_entity \<Rightarrow> bool" where
  "selected s m \<longleftrightarrow> if_given (\<lambda>v. entity_type m = v) (sel_entity_type s)
     \<and> if_given (\<lambda>v. vendor_name m = Some v) (sel_vendor s)
     \<and> if_given (\<lambda>v. entity_region m = Some v) (sel_region s)
     \<and> if_given (\<lambda>v. entity_tenant m = Some v) (sel_tenant s)"

definition named_elements :: "ran_store \<Rightarrow> scope option \<Rightarrow> string list \<Rightarrow> http_error + string list" where
  "named_elements db sc refs =
     (if denied_refs (entities db) sc refs \<noteq> [] then Inl SCOPE_DENIED
      else if filter (\<lambda>r. r \<notin> set (map entity_ref (entities db))) refs \<noteq> [] then Inl SCHEMA_VALIDATION_FAILED
      else if filter (\<lambda>r. \<not> has_swm db (get_entity db r)) refs \<noteq> [] then Inl O1_SERVICE_NOT_SUPPORTED
      else Inr refs)"

definition selected_elements :: "ran_store \<Rightarrow> scope option \<Rightarrow> campaign_selector \<Rightarrow> http_error + string list" where
  "selected_elements db sc s =
     (let visible = filter_statement sc entity_region entity_tenant (entities db);
          rows = sort_key entity_ref (filter (selected s) visible);
          found = map entity_ref (filter (\<lambda>m. has_swm db (Some m)) rows)
      in if found = [] then Inl SCHEMA_VALIDATION_FAILED
         else if length found > MAX_CAMPAIGN_ELEMENTS then Inl SCHEMA_VALIDATION_FAILED
         else Inr found)"

definition resolve_elements :: "ran_store \<Rightarrow> scope option \<Rightarrow> campaign_request \<Rightarrow> http_error + string list" where
  "resolve_elements db sc r =
     and_then (case req_refs r of Some refs \<Rightarrow> named_elements db sc refs
               | None \<Rightarrow> (case req_selector r of Some s \<Rightarrow> selected_elements db sc s | None \<Rightarrow> Inl SCHEMA_VALIDATION_FAILED))
       (\<lambda>found. if list_ex (\<lambda>j. managed_element_ref j \<in> set found \<and> in_flight j) (software_jobs db)
                then Inl SERVICE_NAME_CONFLICT else Inr found)"

definition ceil_div :: "nat \<Rightarrow> nat \<Rightarrow> nat" where
  "ceil_div n d = (n + d - 1) div d"

datatype create_answer = Validated nat "string list list" | Created campaign_summary

definition new_campaign :: "seconds \<Rightarrow> campaign_request \<Rightarrow> string list \<Rightarrow> nat \<Rightarrow> uid \<Rightarrow> campaign" where
  "new_campaign now r els count i =
     \<lparr>cid = i, campaign_name = req_name r, requested_by = req_requested_by r, status = CampaignState.PENDING,
      software_version = req_software_version r, selector = req_selector r, elements = els, wave_size = req_wave_size r,
      wave_count = count, current_wave = 0, wave_pause_seconds = req_wave_pause r,
      gate_max_new_alarms = req_max_new_alarms r, on_gate_failure = req_on_gate_failure r,
      job_timeout_seconds = req_job_timeout r, rollback_order = req_rollback_order r, wave_started_at = None,
      next_wave_at = None, halted_reason = None, halted_detail = None, wave_log = [], created_at = now, finished_at = None\<rparr>"

definition create_software_campaign ::
  "seconds \<Rightarrow> scope option \<Rightarrow> campaign_request \<Rightarrow> ran_store \<Rightarrow> http_error + ran_store \<times> create_answer" where
  "create_software_campaign now sc r db =
     and_then (resolve_elements db sc r) (\<lambda>els.
       let size = (case req_wave_size r of Some n \<Rightarrow> if n = 0 then length els else n | None \<Rightarrow> length els);
           count = ceil_div (length els) size
       in if req_dry_run r
          then Inr (db, Validated count (map (\<lambda>i. take size (drop (i * size) els)) [0..<count]))
          else
            let c = new_campaign now r els count (fresh_id (map cid (campaigns db)));
                db1 = db\<lparr>campaigns := campaigns db @ [c]\<rparr>
            in and_then (uncaught (fire CAMPAIGN_FSM CampaignState.PENDING CampaignEvent.START ())) (\<lambda>s.
               and_then (start_wave now 1 (db1, log_to now ''STARTED''
                   (Some (str (length els) @ '' element(s) in '' @ str count @ '' wave(s)'')) (Some 0)
                   (Some (req_requested_by r)) None (c\<lparr>status := s\<rparr>)))
                 (\<lambda>(db2, c2). Inr (save (db2, c2), Created (summary c2)))))"

subsection \<open>What an operator does to a campaign\<close>

definition campaign_or_404 :: "ran_store \<Rightarrow> scope option \<Rightarrow> uid \<Rightarrow> http_error + campaign" where
  "campaign_or_404 db sc i =
     (case get_campaign db i of None \<Rightarrow> Inl SOFTWARE_CAMPAIGN_NOT_FOUND
      | Some c \<Rightarrow> if denied_refs (entities db) sc (elements c) \<noteq> [] then Inl SOFTWARE_CAMPAIGN_NOT_FOUND else Inr c)"

definition halted_or_409 :: "ran_store \<Rightarrow> scope option \<Rightarrow> uid \<Rightarrow> http_error + campaign" where
  "halted_or_409 db sc i =
     and_then (campaign_or_404 db sc i) (\<lambda>c. if status c \<noteq> HALTED then Inl illegal_transition_error else Inr c)"

definition continue_software_campaign ::
  "seconds \<Rightarrow> scope option \<Rightarrow> uid \<Rightarrow> string \<Rightarrow> bool \<Rightarrow> ran_store \<Rightarrow> http_error + ran_store" where
  "continue_software_campaign now sc i by_whom force db =
     and_then (halted_or_409 db sc i) (\<lambda>c.
       if halted_reason c = Some WAVE_PAUSE \<and> (case next_wave_at c of None \<Rightarrow> False | Some t \<Rightarrow> t > now) \<and> \<not> force
       then Inl WAVE_PAUSE_NOT_ELAPSED
       else commit (resume now (Some by_whom) (db, c)))"

definition halt_software_campaign ::
  "seconds \<Rightarrow> scope option \<Rightarrow> uid \<Rightarrow> string \<Rightarrow> ran_store \<Rightarrow> http_error + ran_store" where
  "halt_software_campaign now sc i by_whom db =
     and_then (campaign_or_404 db sc i) (\<lambda>c.
       if status c = RUNNING then
         commit (halt now OPERATOR_HALT (Some (''halted by '' @ by_whom)) None (Some by_whom) (db, c))
       else if status c = HALTED \<and> halted_reason c = Some WAVE_PAUSE then
         commit (Inr (campaign_event now ''CAMPAIGN_HALTED'' (Some ''OPERATOR_HALT'') (Some (''halted by '' @ by_whom))
           (db, log_to now ''HALTED'' (Some ''OPERATOR_HALT'') None (Some by_whom) None
                  (c\<lparr>halted_reason := Some OPERATOR_HALT, halted_detail := Some (''halted by '' @ by_whom), next_wave_at := None\<rparr>))))
       else if status c \<noteq> HALTED then Inl illegal_transition_error
       else commit (Inr (db, c)))"

definition abort_software_campaign ::
  "seconds \<Rightarrow> scope option \<Rightarrow> uid \<Rightarrow> string \<Rightarrow> ran_store \<Rightarrow> http_error + ran_store" where
  "abort_software_campaign now sc i by_whom db =
     and_then (halted_or_409 db sc i) (\<lambda>c.
       and_then (uncaught (fire CAMPAIGN_FSM HALTED ABORT ())) (\<lambda>s.
         commit (Inr (db, log_to now ''ABORTED''
             (Some (''after '' @ (case halted_reason c of None \<Rightarrow> ''None'' | Some r \<Rightarrow> reason_text r))) None (Some by_whom) None
             (c\<lparr>status := s, finished_at := Some now, next_wave_at := None\<rparr>)))))"

definition rollback_software_campaign ::
  "seconds \<Rightarrow> scope option \<Rightarrow> uid \<Rightarrow> string \<Rightarrow> ran_store \<Rightarrow> http_error + ran_store" where
  "rollback_software_campaign now sc i by_whom db =
     and_then (campaign_or_404 db sc i) (\<lambda>c.
       if status c \<notin> {HALTED, COMPLETED, ABORTED, CampaignState.ROLLBACK_FAILED} then Inl illegal_transition_error
       else if list_ex in_flight (jobs db c None False) then Inl ROLLBACK_NOT_POSSIBLE
       else commit (start_rollback now (''requested by '' @ by_whom) (Some by_whom) (db, c)))"

end
