(* ===== verification/CampaignSafety.thy ===== *)
theory CampaignSafety
  imports CampaignRoutes
begin

section \<open>What a campaign may and may not do\<close>

text \<open>
  The invariant of a campaign against the table of software jobs, that every function of the session
  keeps it and raises nothing, and that it holds in every store the routes and the sweep can reach, in
  whatever order they run and whatever the rest of the module does to the other tables.
\<close>

subsection \<open>The invariant\<close>

definition forward :: "campaign \<Rightarrow> software_job list \<Rightarrow> software_job list" where
  "forward c js = filter (job_of c False) js"

definition reverts :: "campaign \<Rightarrow> software_job list \<Rightarrow> software_job list" where
  "reverts c js = filter (job_of c True) js"

definition wave_jobs :: "campaign \<Rightarrow> nat \<Rightarrow> software_job list \<Rightarrow> software_job list" where
  "wave_jobs c w js = filter (\<lambda>j. campaign_wave j = Some w) (forward c js)"

definition undoes :: "software_job \<Rightarrow> software_job \<Rightarrow> bool" where
  "undoes r j \<longleftrightarrow> rollback_of r = Some (job_id j)"

definition waves_inv :: "software_job list \<Rightarrow> campaign \<Rightarrow> bool" where
  "waves_inv js c \<longleftrightarrow>
     current_wave c \<le> wave_count c \<and> status c \<noteq> PENDING \<and>
     elements c \<noteq> [] \<and> distinct (elements c) \<and>
     wave_count c = ceil_div (length (elements c)) (elements_per_wave c) \<and>
     (status c = COMPLETED \<longrightarrow> current_wave c = wave_count c) \<and>
     (\<forall>w. 1 \<le> w \<and> w \<le> current_wave c \<longrightarrow> map managed_element_ref (wave_jobs c w js) = wave_elements c w)"

definition forward_inv :: "software_job list \<Rightarrow> campaign \<Rightarrow> bool" where
  "forward_inv js c \<longleftrightarrow>
     (\<forall>j \<in> set (forward c js).
        (\<exists>w. campaign_wave j = Some w \<and> 1 \<le> w \<and> w \<le> current_wave c) \<and>
        (in_flight j \<longrightarrow> campaign_wave j = Some (current_wave c) \<and>
           (status c = RUNNING \<or> status c = ABORTED \<or> status c = HALTED \<and> halted_reason c = Some OPERATOR_HALT)))"

definition tied_inv :: "software_job list \<Rightarrow> campaign \<Rightarrow> bool" where
  "tied_inv js c \<longleftrightarrow>
     (\<forall>r \<in> set (reverts c js).
        (\<exists>j \<in> set (forward c js). undoes r j \<and> job_status j = SwmState.COMPLETED \<and>
           managed_element_ref r = managed_element_ref j \<and> campaign_wave r = campaign_wave j) \<and>
        (in_flight r \<longrightarrow> status c = ROLLING_BACK))"

definition undo_inv :: "software_job list \<Rightarrow> campaign \<Rightarrow> bool" where
  "undo_inv js c \<longleftrightarrow>
     (\<forall>j \<in> set (forward c js). job_status j = SwmState.COMPLETED \<longrightarrow>
        (status c = ROLLED_BACK \<longrightarrow> (\<exists>r \<in> set (reverts c js). undoes r j \<and> job_status r = SwmState.COMPLETED)) \<and>
        (status c = ROLLING_BACK \<and> rollback_order c = AllAtOnce \<longrightarrow> (\<exists>r \<in> set (reverts c js). undoes r j)))"

definition base_inv :: "software_job list \<Rightarrow> campaign \<Rightarrow> bool" where
  "base_inv js c \<longleftrightarrow> distinct (map job_id js) \<and> waves_inv js c \<and> forward_inv js c \<and> tied_inv js c"

definition camp_inv :: "software_job list \<Rightarrow> campaign \<Rightarrow> bool" where
  "camp_inv js c \<longleftrightarrow> distinct (map job_id js) \<and> waves_inv js c \<and> forward_inv js c \<and> tied_inv js c \<and> undo_inv js c"

lemmas inv_defs = camp_inv_def waves_inv_def forward_inv_def tied_inv_def undo_inv_def

definition quiet :: "software_job list \<Rightarrow> campaign \<Rightarrow> bool" where
  "quiet js c \<longleftrightarrow> (\<forall>j \<in> set (forward c js). \<not> in_flight j)"

text \<open>What a function of the session changes in the store: nothing of another campaign.\<close>

definition frame :: "uid \<Rightarrow> ran_store \<Rightarrow> ran_store \<Rightarrow> bool" where
  "frame i db db' \<longleftrightarrow> campaigns db' = campaigns db \<and> entities db' = entities db \<and>
     filter (\<lambda>j. campaign_id j \<noteq> Some i) (software_jobs db') = filter (\<lambda>j. campaign_id j \<noteq> Some i) (software_jobs db)"

definition good :: "ran_store \<Rightarrow> campaign \<Rightarrow> http_error + session \<Rightarrow> bool" where
  "good db c r \<longleftrightarrow> (\<exists>db' c'. r = Inr (db', c') \<and> cid c' = cid c \<and> frame (cid c) db db' \<and> camp_inv (software_jobs db') c')"

lemma frame_refl [simp, intro]: "frame i db db"
  by (simp add: frame_def)

lemma frame_trans: "frame i a b \<Longrightarrow> frame i b c \<Longrightarrow> frame i a c"
  by (simp add: frame_def)

lemma good_Inr: "cid c' = cid c \<Longrightarrow> frame (cid c) db db' \<Longrightarrow> camp_inv (software_jobs db') c' \<Longrightarrow> good db c (Inr (db', c'))"
  by (auto simp: good_def)

lemma good_trans: "good db1 c1 r \<Longrightarrow> cid c1 = cid c \<Longrightarrow> frame (cid c) db db1 \<Longrightarrow> good db c r"
  unfolding good_def by (metis frame_trans)

subsection \<open>Which fields of the campaign count\<close>

lemma per_wave_cong: "elements c' = elements c \<Longrightarrow> wave_size c' = wave_size c \<Longrightarrow> elements_per_wave c' = elements_per_wave c"
  by (simp add: elements_per_wave_def split: option.split)

lemma wave_elements_cong:
  "elements c' = elements c \<Longrightarrow> wave_size c' = wave_size c \<Longrightarrow> wave_elements c' w = wave_elements c w"
  using per_wave_cong [of c' c] by (simp add: wave_elements_def)

lemma job_of_cong: "cid c' = cid c \<Longrightarrow> job_of c' = job_of c"
  by (rule ext)+ (simp add: job_of_def)

lemma forward_cong: "cid c' = cid c \<Longrightarrow> forward c' js = forward c js"
  by (simp add: forward_def job_of_cong [of c' c])

lemma reverts_cong: "cid c' = cid c \<Longrightarrow> reverts c' js = reverts c js"
  by (simp add: reverts_def job_of_cong [of c' c])

lemma wave_jobs_cong: "cid c' = cid c \<Longrightarrow> wave_jobs c' w js = wave_jobs c w js"
  by (simp add: wave_jobs_def forward_cong [of c' c])

lemma log_to_fields [simp]:
  "cid (log_to now ev d w b i c) = cid c" "status (log_to now ev d w b i c) = status c"
  "elements (log_to now ev d w b i c) = elements c" "wave_size (log_to now ev d w b i c) = wave_size c"
  "wave_count (log_to now ev d w b i c) = wave_count c" "current_wave (log_to now ev d w b i c) = current_wave c"
  "rollback_order (log_to now ev d w b i c) = rollback_order c" "halted_reason (log_to now ev d w b i c) = halted_reason c"
  "wave_pause_seconds (log_to now ev d w b i c) = wave_pause_seconds c"
  "on_gate_failure (log_to now ev d w b i c) = on_gate_failure c" "next_wave_at (log_to now ev d w b i c) = next_wave_at c"
  "wave_started_at (log_to now ev d w b i c) = wave_started_at c"
  by (simp_all add: log_to_def)

text \<open>A session that keeps the identity, the plan and the jobs of a campaign.\<close>

definition same_plan :: "campaign \<Rightarrow> campaign \<Rightarrow> bool" where
  "same_plan c' c \<longleftrightarrow> cid c' = cid c \<and> elements c' = elements c \<and> wave_size c' = wave_size c \<and> wave_count c' = wave_count c
     \<and> rollback_order c' = rollback_order c"

lemma same_plan_fields:
  assumes "same_plan c' c"
  shows "cid c' = cid c" "forward c' js = forward c js" "reverts c' js = reverts c js" "wave_jobs c' w js = wave_jobs c w js"
    "wave_elements c' w = wave_elements c w" "elements_per_wave c' = elements_per_wave c" "wave_count c' = wave_count c"
    "elements c' = elements c" "rollback_order c' = rollback_order c"
  using assms forward_cong [of c' c js] reverts_cong [of c' c js] wave_jobs_cong [of c' c w js]
    wave_elements_cong [of c' c w] per_wave_cong [of c' c]
  by (simp_all add: same_plan_def)

text \<open>The status moves while no wave is started: what the invariant asks for the new status.\<close>

lemma camp_inv_move:
  assumes inv: "camp_inv js c" and plan: "same_plan c' c" and wave: "current_wave c' = current_wave c"
    and status: "status c' \<noteq> PENDING" "status c' = COMPLETED \<Longrightarrow> current_wave c = wave_count c"
    and fwd: "\<And>j. j \<in> set (forward c js) \<Longrightarrow> in_flight j \<Longrightarrow>
        status c' = RUNNING \<or> status c' = ABORTED \<or> status c' = HALTED \<and> halted_reason c' = Some OPERATOR_HALT"
    and rev: "\<And>r. r \<in> set (reverts c js) \<Longrightarrow> in_flight r \<Longrightarrow> status c' = ROLLING_BACK"
    and undo: "\<And>j. j \<in> set (forward c js) \<Longrightarrow> job_status j = SwmState.COMPLETED \<Longrightarrow> status c' = ROLLED_BACK \<Longrightarrow>
        \<exists>r \<in> set (reverts c js). undoes r j \<and> job_status r = SwmState.COMPLETED"
    and all: "\<And>j. j \<in> set (forward c js) \<Longrightarrow> job_status j = SwmState.COMPLETED \<Longrightarrow> status c' = ROLLING_BACK \<Longrightarrow>
        rollback_order c = AllAtOnce \<Longrightarrow> \<exists>r \<in> set (reverts c js). undoes r j"
  shows "camp_inv js c'"
proof -
  note same = same_plan_fields [OF plan] wave
  have "waves_inv js c'"
    using inv status unfolding camp_inv_def waves_inv_def same by blast
  moreover have "forward_inv js c'"
    using inv fwd unfolding camp_inv_def forward_inv_def same by blast
  moreover have "tied_inv js c'" "undo_inv js c'"
    using inv rev unfolding camp_inv_def tied_inv_def same apply blast
    using undo all unfolding undo_inv_def same by blast
  ultimately show ?thesis using inv by (simp add: camp_inv_def)
qed

lemma camp_inv_same:
  assumes "camp_inv js c" "same_plan c' c" "current_wave c' = current_wave c" "status c' = status c" "halted_reason c' = halted_reason c"
  shows "camp_inv js c'"
  by (rule camp_inv_move [OF assms(1,2,3)])
     (use assms in \<open>auto simp: inv_defs\<close>)

lemma camp_inv_log [simp]: "camp_inv js c \<Longrightarrow> camp_inv js (log_to now ev d w b i c)"
  by (erule camp_inv_same) (simp_all add: same_plan_def)

subsection \<open>Another campaign's jobs do not matter\<close>

lemma other_filter:
  assumes "filter (\<lambda>j. campaign_id j \<noteq> Some i) js' = filter (\<lambda>j. campaign_id j \<noteq> Some i) js" "cid c \<noteq> i"
  shows "filter (job_of c b) js' = filter (job_of c b) js"
proof -
  have "filter (job_of c b) xs = filter (job_of c b) (filter (\<lambda>j. campaign_id j \<noteq> Some i) xs)" for xs
    using assms(2) by (auto simp: job_of_def intro!: filter_cong)
  with assms(1) show ?thesis by metis
qed

lemma camp_inv_other:
  assumes "camp_inv js c" "filter (\<lambda>j. campaign_id j \<noteq> Some i) js' = filter (\<lambda>j. campaign_id j \<noteq> Some i) js"
    "cid c \<noteq> i" "distinct (map job_id js')"
  shows "camp_inv js' c"
proof -
  have "forward c js' = forward c js" "reverts c js' = reverts c js"
    unfolding forward_def reverts_def by (rule other_filter [OF assms(2,3)])+
  then show ?thesis using assms(1,4) by (simp add: inv_defs wave_jobs_def)
qed

subsection \<open>A report on a job\<close>

definition same_job :: "software_job \<Rightarrow> software_job \<Rightarrow> bool" where
  "same_job j' j \<longleftrightarrow> job_id j' = job_id j \<and> managed_element_ref j' = managed_element_ref j \<and>
     campaign_id j' = campaign_id j \<and> campaign_wave j' = campaign_wave j \<and> rollback_of j' = rollback_of j \<and>
     (job_status j' = job_status j \<or> job_status j = IN_PROGRESS \<and> job_status j' \<noteq> SwmState.PENDING)"

lemma same_job_in_flight: "same_job j' j \<Longrightarrow> in_flight j' \<Longrightarrow> in_flight j"
  by (auto simp: same_job_def in_flight_def)

lemma same_job_ended: "same_job j' j \<Longrightarrow> \<not> in_flight j \<Longrightarrow> job_status j' = job_status j"
  by (auto simp: same_job_def in_flight_def)

lemma filter_same_job:
  assumes "\<forall>j \<in> set js. same_job (h j) j"
  shows "filter (job_of c b) (map h js) = map h (filter (job_of c b) js)"
  using assms by (induction js) (auto simp: same_job_def job_of_def)

lemma camp_inv_report:
  assumes inv: "camp_inv js c" and h: "\<forall>j \<in> set js. same_job (h j) j"
  shows "camp_inv (map h js) c"
proof -
  have fw: "forward c (map h js) = map h (forward c js)" and rv: "reverts c (map h js) = map h (reverts c js)"
    unfolding forward_def reverts_def by (rule filter_same_job [OF h])+
  have hf: "\<forall>j \<in> set (forward c js). same_job (h j) j" and hr: "\<forall>j \<in> set (reverts c js). same_job (h j) j"
    using h by (auto simp: forward_def reverts_def)
  have ids: "map job_id (map h js) = map job_id js" using h by (induction js) (auto simp: same_job_def)
  have "map managed_element_ref (wave_jobs c w (map h js)) = map managed_element_ref (wave_jobs c w js)" for w
  proof -
    have "map managed_element_ref (filter (\<lambda>j. campaign_wave j = Some w) (map h xs))
        = map managed_element_ref (filter (\<lambda>j. campaign_wave j = Some w) xs)" if "\<forall>j \<in> set xs. same_job (h j) j" for xs
      using that by (induction xs) (auto simp: same_job_def)
    then show ?thesis using hf by (simp add: wave_jobs_def fw)
  qed
  then have "waves_inv (map h js) c" using inv by (simp add: camp_inv_def waves_inv_def)
  moreover have "forward_inv (map h js) c"
  proof -
    have "(\<exists>w. campaign_wave (h j) = Some w \<and> 1 \<le> w \<and> w \<le> current_wave c) \<and>
        (in_flight (h j) \<longrightarrow> campaign_wave (h j) = Some (current_wave c) \<and>
           (status c = RUNNING \<or> status c = ABORTED \<or> status c = HALTED \<and> halted_reason c = Some OPERATOR_HALT))"
      if j: "j \<in> set (forward c js)" for j
    proof -
      from hf j have "same_job (h j) j" by blast
      then have "campaign_wave (h j) = campaign_wave j" "in_flight (h j) \<Longrightarrow> in_flight j"
        using same_job_in_flight by (auto simp: same_job_def)
      with inv j show ?thesis by (auto simp: camp_inv_def forward_inv_def)
    qed
    then show ?thesis by (simp add: forward_inv_def fw)
  qed
  moreover have "tied_inv (map h js) c" "undo_inv (map h js) c"
  proof -
    have ended: "job_status (h j) = SwmState.COMPLETED" if "j \<in> set js" "job_status j = SwmState.COMPLETED" for j
      using h that by (auto simp: same_job_def)
    have sub: "set (forward c js) \<subseteq> set js" "set (reverts c js) \<subseteq> set js" by (auto simp: forward_def reverts_def)
    have tied: "\<exists>k \<in> h ` set (forward c js). undoes (h r) k \<and> job_status k = SwmState.COMPLETED \<and>
        managed_element_ref (h r) = managed_element_ref k \<and> campaign_wave (h r) = campaign_wave k"
      if r: "r \<in> set (reverts c js)" for r
    proof -
      from inv r obtain j where j: "j \<in> set (forward c js)" "undoes r j" "job_status j = SwmState.COMPLETED"
          "managed_element_ref r = managed_element_ref j" "campaign_wave r = campaign_wave j"
        unfolding camp_inv_def tied_inv_def undo_inv_def by blast
      then have "undoes (h r) (h j) \<and> job_status (h j) = SwmState.COMPLETED \<and>
          managed_element_ref (h r) = managed_element_ref (h j) \<and> campaign_wave (h r) = campaign_wave (h j)"
        using hf hr r ended sub by (auto simp: same_job_def undoes_def)
      with j(1) show ?thesis by blast
    qed
    have flying: "status c = ROLLING_BACK" if "r \<in> set (reverts c js)" "in_flight (h r)" for r
      using inv hr that same_job_in_flight unfolding camp_inv_def tied_inv_def undo_inv_def by blast
    have quiet_before: "job_status (h j) = job_status j"
      if "j \<in> set (forward c js)" "status c \<noteq> RUNNING" "status c \<noteq> ABORTED" "status c \<noteq> HALTED" for j
      using inv hf that same_job_ended unfolding camp_inv_def forward_inv_def by blast
    have undone: "\<exists>r \<in> h ` set (reverts c js). undoes r (h j) \<and> job_status r = SwmState.COMPLETED"
      if j: "j \<in> set (forward c js)" "job_status (h j) = SwmState.COMPLETED" "status c = ROLLED_BACK" for j
    proof -
      from j quiet_before have "job_status j = SwmState.COMPLETED" by simp
      with inv j obtain r where "r \<in> set (reverts c js)" "undoes r j" "job_status r = SwmState.COMPLETED"
        unfolding camp_inv_def tied_inv_def undo_inv_def by blast
      moreover from this hf hr j(1) ended sub have "undoes (h r) (h j)" "job_status (h r) = SwmState.COMPLETED"
        by (auto simp: same_job_def undoes_def)
      ultimately show ?thesis by blast
    qed
    have begun: "\<exists>r \<in> h ` set (reverts c js). undoes r (h j)"
      if j: "j \<in> set (forward c js)" "job_status (h j) = SwmState.COMPLETED" "status c = ROLLING_BACK"
        "rollback_order c = AllAtOnce" for j
    proof -
      from j quiet_before have "job_status j = SwmState.COMPLETED" by simp
      with inv j obtain r where "r \<in> set (reverts c js)" "undoes r j"
        unfolding camp_inv_def tied_inv_def undo_inv_def by blast
      moreover from this hf hr j(1) have "undoes (h r) (h j)" by (auto simp: same_job_def undoes_def)
      ultimately show ?thesis by blast
    qed
    show "tied_inv (map h js) c" unfolding tied_inv_def fw rv using tied flying by fastforce
    show "undo_inv (map h js) c" unfolding undo_inv_def fw rv using undone begun by fastforce
  qed
  ultimately show ?thesis using inv ids by (simp add: camp_inv_def del: map_map)
qed

subsection \<open>Starting jobs\<close>

text \<open>The jobs a loop of \<open>start_software_job\<close> adds, one per item.\<close>

definition job_for :: "uid \<Rightarrow> ('a \<Rightarrow> string) \<Rightarrow> ('a \<Rightarrow> nat option) \<Rightarrow> ('a \<Rightarrow> uid option) \<Rightarrow> 'a \<Rightarrow> software_job \<Rightarrow> bool" where
  "job_for i rf wv bf x j \<longleftrightarrow> managed_element_ref j = rf x \<and> job_status j = IN_PROGRESS \<and> campaign_id j = Some i \<and>
     campaign_wave j = wv x \<and> rollback_of j = bf x"

lemma start_each:
  assumes f: "\<And>x db. f x db = Inr (db\<lparr>software_jobs := software_jobs db @ [started_job db (rf x) None (Some i) (wv x) (bf x) v]\<rparr>)"
  shows "\<exists>new. each f xs db = Inr (db\<lparr>software_jobs := software_jobs db @ new\<rparr>) \<and> list_all2 (job_for i rf wv bf) xs new \<and>
    (distinct (map job_id (software_jobs db)) \<longrightarrow> distinct (map job_id (software_jobs db @ new)))"
proof (induction xs arbitrary: db)
  case Nil
  show ?case by (intro exI [of _ "[]"]) simp
next
  case (Cons x xs)
  let ?j = "started_job db (rf x) None (Some i) (wv x) (bf x) v"
  let ?db = "db\<lparr>software_jobs := software_jobs db @ [?j]\<rparr>"
  from Cons.IH [of ?db] obtain new where new: "each f xs ?db = Inr (?db\<lparr>software_jobs := software_jobs ?db @ new\<rparr>)"
      "list_all2 (job_for i rf wv bf) xs new"
      "distinct (map job_id (software_jobs ?db)) \<longrightarrow> distinct (map job_id (software_jobs ?db @ new))"
    by blast
  have "each f (x # xs) db = Inr (db\<lparr>software_jobs := software_jobs db @ (?j # new)\<rparr>)"
    using new(1) by (simp add: f)
  moreover have "list_all2 (job_for i rf wv bf) (x # xs) (?j # new)"
    using new(2) by (simp add: job_for_def)
  moreover have "distinct (map job_id (software_jobs db)) \<longrightarrow> distinct (map job_id (software_jobs db @ (?j # new)))"
    using new(3) fresh_id_notin [of "map job_id (software_jobs db)"] by simp
  ultimately show ?case by blast
qed

lemma job_for_all:
  assumes "list_all2 (job_for i rf wv bf) xs new"
  shows "map managed_element_ref new = map rf xs"
    and "j \<in> set new \<Longrightarrow> \<exists>x \<in> set xs. job_for i rf wv bf x j"
    and "x \<in> set xs \<Longrightarrow> \<exists>j \<in> set new. job_for i rf wv bf x j"
  using assms by (induction xs new rule: list_all2_induct) (auto simp: job_for_def)

lemma frame_append: "\<forall>j \<in> set new. campaign_id j = Some i \<Longrightarrow> frame i db (db\<lparr>software_jobs := software_jobs db @ new\<rparr>)"
  by (auto simp: frame_def filter_empty_conv)

lemma start_wave_good:
  assumes inv: "camp_inv (software_jobs db) c" and q: "quiet (software_jobs db) c" and run: "status c = RUNNING"
    and more: "current_wave c < wave_count c"
  shows "\<exists>db' c'. start_wave now (Suc (current_wave c)) (db, c) = Inr (db', c') \<and> cid c' = cid c \<and> status c' = RUNNING \<and>
    frame (cid c) db db' \<and> camp_inv (software_jobs db') c'"
proof -
  let ?w = "Suc (current_wave c)" and ?js = "software_jobs db"
  let ?c1 = "c\<lparr>current_wave := ?w, wave_started_at := Some now, next_wave_at := None\<rparr>"
  obtain new where new: "each (start_wave_job ?c1 ?w) (wave_elements ?c1 ?w) db = Inr (db\<lparr>software_jobs := ?js @ new\<rparr>)"
      "list_all2 (job_for (cid c) (\<lambda>x. x) (\<lambda>_. Some ?w) (\<lambda>_. None)) (wave_elements ?c1 ?w) new"
      "distinct (map job_id ?js) \<longrightarrow> distinct (map job_id (?js @ new))"
    using start_each [of "start_wave_job ?c1 ?w" "\<lambda>x. x" "cid c" "\<lambda>_. Some ?w" "\<lambda>_. None" "software_version c" "wave_elements ?c1 ?w" db]
    by (auto simp: start_wave_job_def)
  have each_new: "campaign_id j = Some (cid c) \<and> campaign_wave j = Some ?w \<and> rollback_of j = None \<and> job_status j = IN_PROGRESS"
    if "j \<in> set new" for j
    using job_for_all(2) [OF new(2) that] by (auto simp: job_for_def)
  let ?c' = "log_to now ''WAVE_STARTED'' (Some (str (length (wave_elements ?c1 ?w)) @ '' element(s)'')) None None None ?c1"
  have step: "start_wave now ?w (db, c) = Inr (db\<lparr>software_jobs := ?js @ new\<rparr>, ?c')"
    using new(1) by (simp add: start_wave_def Let_def)
  have plan: "same_plan ?c' c" by (simp add: same_plan_def)
  note same = same_plan_fields [OF plan]
  have fw: "forward c (?js @ new) = forward c ?js @ new" and rv: "reverts c (?js @ new) = reverts c ?js"
    using each_new by (auto simp: forward_def reverts_def job_of_def filter_empty_conv intro!: filter_True)
  have wj: "wave_jobs c w (?js @ new) = (if w = ?w then new else wave_jobs c w ?js)" if "w \<le> ?w" for w
  proof -
    have "filter (\<lambda>j. campaign_wave j = Some w) new = (if w = ?w then new else [])"
      using each_new by (auto simp: filter_empty_conv intro!: filter_True)
    moreover have "w = ?w \<Longrightarrow> filter (\<lambda>j. campaign_wave j = Some w) (forward c ?js) = []"
      using inv by (auto simp: camp_inv_def forward_inv_def filter_empty_conv)
    ultimately show ?thesis by (simp add: wave_jobs_def fw)
  qed
  have "map managed_element_ref new = wave_elements c ?w"
    using job_for_all(1) [OF new(2)] wave_elements_cong [of ?c1 c ?w] by simp
  then have "waves_inv (?js @ new) ?c'"
    using inv more wj run by (auto simp: camp_inv_def waves_inv_def same le_Suc_eq)
  moreover have "forward_inv (?js @ new) ?c'"
    using inv q run each_new by (fastforce simp: camp_inv_def forward_inv_def same fw quiet_def)
  moreover have "tied_inv (?js @ new) ?c'" "undo_inv (?js @ new) ?c'"
    using inv run by (fastforce simp: camp_inv_def tied_inv_def undo_inv_def same fw rv)+
  ultimately have "camp_inv (?js @ new) ?c'" using inv new(3) by (simp add: camp_inv_def)
  moreover have "frame (cid c) db (db\<lparr>software_jobs := ?js @ new\<rparr>)" using each_new by (intro frame_append) blast
  ultimately show ?thesis using step run by auto
qed

subsection \<open>The state of an undo\<close>

lemma map_of_replace:
  "map_of (map (\<lambda>(k, v). if k = o' then (k, x) else (k, v)) st) i =
     (if i = o' \<and> map_of st i \<noteq> None then Some x else map_of st i)"
  by (induction st) auto

lemma undone_append: "undone (rs @ [r]) = note_undo r (undone rs)"
  by (simp add: undone_def)

text \<open>The answer for a job is the best state any of its reverts is in.\<close>

definition best_undo :: "software_job list \<Rightarrow> uid \<Rightarrow> undo_state \<Rightarrow> bool" where
  "best_undo rs i u \<longleftrightarrow> (\<exists>r \<in> set rs. rollback_of r = Some i \<and> undo_of r = u) \<and>
     (\<forall>r \<in> set rs. rollback_of r = Some i \<longrightarrow> undo_rank (undo_of r) \<le> undo_rank u)"

lemma undone_spec:
  "(map_of (undone rs) i = None \<longleftrightarrow> (\<forall>r \<in> set rs. rollback_of r \<noteq> Some i)) \<and>
   (\<forall>u. map_of (undone rs) i = Some u \<longrightarrow> best_undo rs i u)"
proof (induction rs rule: rev_induct)
  case (snoc r rs)
  show ?case
  proof (cases "rollback_of r")
    case None
    with snoc show ?thesis by (auto simp: undone_append note_undo_def best_undo_def)
  next
    case (Some k)
    with snoc show ?thesis
      by (cases "i = k")
         (fastforce simp: undone_append note_undo_def best_undo_def map_of_replace map_add_def split: option.splits if_splits)+
  qed
qed (simp add: undone_def)

lemma undone_keys: "distinct (map fst (undone rs))"
proof (induction rs rule: rev_induct)
  case (snoc r rs)
  have keys: "map fst (map (\<lambda>(k, v). if k = o' then (k, x) else (k, v)) st) = map fst st" for o' x and st :: "(uid \<times> undo_state) list"
    by (induction st) auto
  show ?case
    using snoc by (auto simp: undone_append note_undo_def keys map_of_eq_None_iff simp del: map_map split: option.splits)
qed (simp add: undone_def)

lemma no_failed_undo:
  assumes "map fst (filter (\<lambda>p. snd p = UNDO_FAILED) (undone rs)) = []"
  shows "map_of (undone rs) i \<noteq> Some UNDO_FAILED"
  using assms map_of_SomeD [of "undone rs" i UNDO_FAILED] by (force simp: filter_empty_conv)

lemma best_undo_completed: "best_undo rs i UNDO_COMPLETED \<Longrightarrow> \<exists>r \<in> set rs. rollback_of r = Some i \<and> job_status r = SwmState.COMPLETED"
  by (auto simp: best_undo_def undo_of_def split: if_splits)

lemma best_undo_in_progress: "best_undo rs i UNDO_IN_PROGRESS \<Longrightarrow> \<exists>r \<in> set rs. rollback_of r = Some i \<and> in_flight r"
  by (auto simp: best_undo_def undo_of_def split: if_splits)

lemma set_jobs_None: "set (jobs db c None b) = set (filter (job_of c b) (software_jobs db))"
  by (auto simp: jobs_def)

lemma set_reverts: "set (jobs db c None True) = set (reverts c (software_jobs db))"
  by (simp add: set_jobs_None reverts_def)

lemma set_forward: "set (jobs db c None False) = set (forward c (software_jobs db))"
  by (simp add: set_jobs_None forward_def)

lemma set_current: "set (jobs db c (Some w) False) = {j \<in> set (forward c (software_jobs db)). campaign_wave j = Some w}"
  by (auto simp: jobs_def forward_def)

lemma revert_targets_set:
  "set (revert_targets db c (jobs db c None True)) =
     {j \<in> set (forward c (software_jobs db)). job_status j = SwmState.COMPLETED \<and>
        map_of (undone (jobs db c None True)) (job_id j) \<notin> {Some UNDO_COMPLETED, Some UNDO_IN_PROGRESS}}"
  by (auto simp: revert_targets_def Let_def set_forward)

lemma step_targets_subset: "set (step_targets c ts) \<subseteq> set ts"
  by (auto simp: step_targets_def)

lemma step_targets_Nil [simp]: "step_targets c ts = [] \<longleftrightarrow> ts = []"
proof (cases "ts = []")
  case False
  then have "Max (set (map wave_or_0 ts)) \<in> set (map wave_or_0 ts)" by (intro Max_in) auto
  then obtain x where "x \<in> set ts" "wave_or_0 x = Max (set (map wave_or_0 ts))" by auto
  then show ?thesis using False by (auto simp: step_targets_def filter_empty_conv)
qed (simp add: step_targets_def)

subsection \<open>Rolling back\<close>

lemma start_reverts_step:
  assumes inv: "base_inv (software_jobs db) c" and rolling: "status c = ROLLING_BACK"
    and ts: "\<forall>j \<in> set ts. j \<in> set (forward c (software_jobs db)) \<and> job_status j = SwmState.COMPLETED"
  shows "\<exists>new c'. start_reverts now ts (db, c) =
      Inr ((db\<lparr>software_jobs := software_jobs db @ new\<rparr>, c'), length (step_targets c ts)) \<and>
    same_plan c' c \<and> status c' = ROLLING_BACK \<and> base_inv (software_jobs db @ new) c' \<and>
    frame (cid c) db (db\<lparr>software_jobs := software_jobs db @ new\<rparr>) \<and>
    forward c' (software_jobs db @ new) = forward c (software_jobs db) \<and>
    reverts c' (software_jobs db @ new) = reverts c (software_jobs db) @ new \<and>
    (\<forall>j \<in> set (step_targets c ts). \<exists>r \<in> set new. undoes r j)"
proof -
  let ?js = "software_jobs db" and ?ts = "step_targets c ts"
  define c1 where "c1 = (if rollback_order c = LastWaveFirst \<and> ts \<noteq> []
      then log_to now ''ROLLBACK_WAVE_STARTED'' (Some (str (length ?ts) @ '' job(s)''))
             (Some (Max (set (map wave_or_0 ts)))) None None c else c)"
  define c2 where "c2 = (if ?ts \<noteq> [] then c1\<lparr>wave_started_at := Some now\<rparr> else c1)"
  have c2: "same_plan c2 c" "status c2 = status c" "current_wave c2 = current_wave c" "halted_reason c2 = halted_reason c"
    by (simp_all add: c2_def c1_def same_plan_def)
  note same = same_plan_fields [OF c2(1)]
  obtain new where new: "each (start_revert_job c2) ?ts db = Inr (db\<lparr>software_jobs := ?js @ new\<rparr>)"
      "list_all2 (job_for (cid c) managed_element_ref campaign_wave (\<lambda>j. Some (job_id j))) ?ts new"
      "distinct (map job_id ?js) \<longrightarrow> distinct (map job_id (?js @ new))"
    using start_each [of "start_revert_job c2" managed_element_ref "cid c" campaign_wave "\<lambda>j. Some (job_id j)" None ?ts db] same
    by (auto simp: start_revert_job_def)
  have step: "start_reverts now ts (db, c) = Inr ((db\<lparr>software_jobs := ?js @ new\<rparr>, c2), length ?ts)"
    by (simp only: start_reverts_def prod.case Let_def c1_def [symmetric] c2_def [symmetric] new(1) and_then_simps)
  have each_new: "\<exists>j \<in> set (forward c ?js). job_status j = SwmState.COMPLETED \<and> campaign_id r = Some (cid c) \<and> undoes r j \<and>
      managed_element_ref r = managed_element_ref j \<and> campaign_wave r = campaign_wave j"
    if "r \<in> set new" for r
    using job_for_all(2) [OF new(2) that] ts step_targets_subset [of c ts] by (fastforce simp: job_for_def undoes_def)
  have fw: "forward c (?js @ new) = forward c ?js" and rv: "reverts c (?js @ new) = reverts c ?js @ new"
    using each_new by (fastforce simp: forward_def reverts_def job_of_def undoes_def filter_empty_conv intro!: filter_True)+
  have made: "\<forall>j \<in> set ?ts. \<exists>r \<in> set new. undoes r j"
    using job_for_all(3) [OF new(2)] by (auto simp: job_for_def undoes_def)
  have "waves_inv (?js @ new) c2" "forward_inv (?js @ new) c2"
    using inv by (auto simp: base_inv_def waves_inv_def forward_inv_def same wave_jobs_def fw c2)
  moreover have "tied_inv (?js @ new) c2"
    using inv each_new rolling by (auto simp: base_inv_def tied_inv_def same fw rv c2)
  ultimately have "base_inv (?js @ new) c2" using inv new(3) by (simp add: base_inv_def)
  moreover have "frame (cid c) db (db\<lparr>software_jobs := ?js @ new\<rparr>)" using each_new by (intro frame_append) blast
  ultimately show ?thesis using step c2 rolling fw rv made same by (intro exI [of _ new] exI [of _ c2]) simp
qed

lemma camp_inv_base: "camp_inv js c \<longleftrightarrow> base_inv js c \<and> undo_inv js c"
  by (auto simp: camp_inv_def base_inv_def)

lemma rolling_quiet: "camp_inv js c \<Longrightarrow> status c = ROLLING_BACK \<Longrightarrow> quiet js c"
  by (auto simp: camp_inv_def forward_inv_def quiet_def)

lemma progress_rollback_good:
  assumes inv: "camp_inv (software_jobs db) c" and rolling: "status c = ROLLING_BACK"
  shows "good db c (progress_rollback now (db, c))"
proof -
  let ?js = "software_jobs db" and ?rs = "jobs db c None True"
  let ?failed = "map fst (filter (\<lambda>p. snd p = UNDO_FAILED) (undone ?rs))"
  have quiet: "\<And>j. j \<in> set (forward c ?js) \<Longrightarrow> \<not> in_flight j"
    using rolling_quiet [OF inv rolling] by (auto simp: quiet_def)
  consider (running) "list_ex in_flight ?rs" | (failed) "\<not> list_ex in_flight ?rs" "?failed \<noteq> []"
    | (clean) "\<not> list_ex in_flight ?rs" "?failed = []" by blast
  then show ?thesis
  proof cases
    case running
    then show ?thesis using inv by (simp add: progress_rollback_def Let_def good_Inr)
  next
    case failed
    then have landed: "\<And>r. r \<in> set (reverts c ?js) \<Longrightarrow> \<not> in_flight r" by (auto simp: list_ex_iff set_reverts)
    have "camp_inv ?js (c\<lparr>status := CampaignState.ROLLBACK_FAILED\<rparr>)"
      by (rule camp_inv_move [OF inv]) (use quiet landed in \<open>auto simp: same_plan_def\<close>)
    with failed rolling show ?thesis
      by (auto simp: progress_rollback_def Let_def campaign_event_def frame_def intro!: good_Inr camp_inv_log)
  next
    case clean
    then have landed: "\<And>r. r \<in> set (reverts c ?js) \<Longrightarrow> \<not> in_flight r" by (auto simp: list_ex_iff set_reverts)
    have ended: "good db c (and_then (uncaught (fire CAMPAIGN_FSM (status c1) ROLLBACK_DONE ()))
        (\<lambda>s. Inr (db1, log_to now ''ROLLBACK_DONE'' d None None None (c1\<lparr>status := s, finished_at := Some now\<rparr>))))"
      if c1: "camp_inv (software_jobs db1) c1" "same_plan c1 c" "status c1 = ROLLING_BACK" "frame (cid c) db db1"
        "software_jobs db1 = ?js"
        and undo: "\<And>j. j \<in> set (forward c ?js) \<Longrightarrow> job_status j = SwmState.COMPLETED \<Longrightarrow>
          \<exists>r \<in> set (reverts c ?js). undoes r j" for db1 c1 d
    proof -
      have undone: "\<exists>r \<in> set (reverts c ?js). undoes r j \<and> job_status r = SwmState.COMPLETED"
        if j: "j \<in> set (forward c ?js)" "job_status j = SwmState.COMPLETED" for j
      proof -
        from undo [OF j] have "map_of (undone ?rs) (job_id j) \<noteq> None"
          using undone_spec [of ?rs "job_id j"] by (auto simp: set_reverts undoes_def)
        then obtain u where u: "map_of (undone ?rs) (job_id j) = Some u" by blast
        then have best: "best_undo ?rs (job_id j) u" using undone_spec by blast
        have "u \<noteq> UNDO_FAILED" using u no_failed_undo clean(2) by blast
        moreover have "u \<noteq> UNDO_IN_PROGRESS" using best best_undo_in_progress [of ?rs "job_id j"] landed by (auto simp: set_reverts)
        ultimately have "u = UNDO_COMPLETED" by (cases u) auto
        with best best_undo_completed [of ?rs "job_id j"] show ?thesis by (auto simp: set_reverts undoes_def)
      qed
      note same = same_plan_fields [OF c1(2)]
      have "camp_inv ?js (c1\<lparr>status := ROLLED_BACK, finished_at := Some now\<rparr>)"
        by (rule camp_inv_move [OF c1(1) [unfolded c1(5)]])
           (use quiet landed undone same in \<open>auto simp: same_plan_def\<close>)
      with c1 same show ?thesis by (auto intro!: good_Inr camp_inv_log)
    qed
    show ?thesis
    proof (cases "rollback_order c")
      case AllAtOnce
      with clean inv rolling ended [of db c "Some (str (length (undone ?rs)) @ '' job(s) undone'')"] show ?thesis
        by (auto simp: progress_rollback_def Let_def same_plan_def camp_inv_def undo_inv_def)
    next
      case LastWaveFirst
      let ?ts = "revert_targets db c ?rs"
      obtain new c' where step: "start_reverts now ?ts (db, c) =
            Inr ((db\<lparr>software_jobs := ?js @ new\<rparr>, c'), length (step_targets c ?ts))"
          "same_plan c' c" "status c' = ROLLING_BACK" "base_inv (?js @ new) c'"
          "frame (cid c) db (db\<lparr>software_jobs := ?js @ new\<rparr>)" "reverts c' (?js @ new) = reverts c ?js @ new"
        using start_reverts_step [of db c ?ts now] inv rolling by (auto simp: camp_inv_base revert_targets_set)
      note same = same_plan_fields [OF step(2)]
      have inv': "camp_inv (?js @ new) c'"
        using step LastWaveFirst same by (simp add: camp_inv_base undo_inv_def)
      show ?thesis
      proof (cases "?ts = []")
        case False
        with clean LastWaveFirst step inv' same show ?thesis
          by (auto simp: progress_rollback_def Let_def intro!: good_Inr)
      next
        case True
        then have "start_reverts now ?ts (db, c) = Inr ((db, c), 0)"
          by (simp add: start_reverts_def step_targets_def)
        moreover from True have "\<exists>r \<in> set (reverts c ?js). undoes r j"
          if "j \<in> set (forward c ?js)" "job_status j = SwmState.COMPLETED" for j
        proof -
          from that True revert_targets_set [of db c] have "map_of (undone ?rs) (job_id j) \<noteq> None" by auto
          then show ?thesis using undone_spec [of ?rs "job_id j"] by (auto simp: set_reverts undoes_def)
        qed
        ultimately show ?thesis
          using clean LastWaveFirst inv rolling ended [of db c "Some (str (length (undone ?rs)) @ '' job(s) undone'')"]
          by (simp add: progress_rollback_def Let_def same_plan_def)
      qed
    qed
  qed
qed

lemma start_rollback_good:
  assumes inv: "camp_inv (software_jobs db) c" and q: "quiet (software_jobs db) c"
    and from_status: "status c \<in> {RUNNING, HALTED, COMPLETED, ABORTED, CampaignState.ROLLBACK_FAILED}"
  shows "good db c (start_rollback now why by_whom (db, c))"
proof -
  let ?js = "software_jobs db" and ?rs = "jobs db c None True"
  let ?ts = "revert_targets db c ?rs"
  define c1 where "c1 = log_to now ''ROLLBACK_STARTED'' (Some (why @ ''; '' @ str (length ?ts) @ '' job(s) to undo'')) None by_whom None
      (c\<lparr>status := ROLLING_BACK, halted_reason := None, halted_detail := None, next_wave_at := None, finished_at := None\<rparr>)"
  have c1: "same_plan c1 c" "status c1 = ROLLING_BACK" "current_wave c1 = current_wave c"
    by (simp_all add: c1_def same_plan_def)
  note same = same_plan_fields [OF c1(1)]
  have fired: "uncaught (fire CAMPAIGN_FSM (status c) ROLLBACK ()) = Inr ROLLING_BACK"
    using from_status by auto
  have base: "base_inv ?js c1"
    using inv q c1 unfolding camp_inv_def base_inv_def waves_inv_def forward_inv_def tied_inv_def quiet_def same by auto
  have ts: "\<forall>j \<in> set ?ts. j \<in> set (forward c1 ?js) \<and> job_status j = SwmState.COMPLETED"
    using same by (auto simp: revert_targets_set)
  obtain new c' where step: "start_reverts now ?ts (db, c1) =
        Inr ((db\<lparr>software_jobs := ?js @ new\<rparr>, c'), length (step_targets c1 ?ts))"
      "same_plan c' c1" "status c' = ROLLING_BACK" "base_inv (?js @ new) c'"
      "frame (cid c1) db (db\<lparr>software_jobs := ?js @ new\<rparr>)" "forward c' (?js @ new) = forward c1 ?js"
      "reverts c' (?js @ new) = reverts c1 ?js @ new" "\<forall>j \<in> set (step_targets c1 ?ts). \<exists>r \<in> set new. undoes r j"
    using start_reverts_step [OF base c1(2) ts] by blast
  note same' = same_plan_fields [OF step(2)]
  have "\<exists>r \<in> set (reverts c ?js) \<union> set new. undoes r j"
    if j: "j \<in> set (forward c ?js)" "job_status j = SwmState.COMPLETED" and order: "rollback_order c = AllAtOnce" for j
  proof (cases "j \<in> set ?ts")
    case True
    with order same step(8) show ?thesis by (auto simp: step_targets_def)
  next
    case False
    with j have "map_of (undone ?rs) (job_id j) \<noteq> None" by (auto simp: revert_targets_set)
    then show ?thesis using undone_spec [of ?rs "job_id j"] by (auto simp: set_reverts undoes_def)
  qed
  then have "undo_inv (?js @ new) c'"
    using step same same' by (simp add: undo_inv_def)
  with step(4) have inv': "camp_inv (?js @ new) c'" by (simp add: camp_inv_base)
  have "start_rollback now why by_whom (db, c) =
      (if length (step_targets c1 ?ts) = 0 then progress_rollback now (db\<lparr>software_jobs := ?js @ new\<rparr>, c')
       else Inr (db\<lparr>software_jobs := ?js @ new\<rparr>, c'))"
    by (simp only: start_rollback_def prod.case Let_def fired and_then_simps c1_def [symmetric] step(1))
  moreover have "good (db\<lparr>software_jobs := ?js @ new\<rparr>) c' (progress_rollback now (db\<lparr>software_jobs := ?js @ new\<rparr>, c'))"
    by (rule progress_rollback_good) (use inv' step in auto)
  then have "good db c (progress_rollback now (db\<lparr>software_jobs := ?js @ new\<rparr>, c'))"
    by (rule good_trans) (use step same same' in auto)
  ultimately show ?thesis using inv' step same same' by (auto intro!: good_Inr)
qed

subsection \<open>The wave in progress\<close>

lemma running_no_revert: "camp_inv js c \<Longrightarrow> status c \<noteq> ROLLING_BACK \<Longrightarrow> r \<in> set (reverts c js) \<Longrightarrow> \<not> in_flight r"
  by (auto simp: camp_inv_def tied_inv_def)

lemma wave_ended_quiet:
  assumes "camp_inv (software_jobs db) c" "\<not> list_ex in_flight (jobs db c (Some (current_wave c)) False)"
  shows "quiet (software_jobs db) c"
  using assms unfolding list_ex_iff set_current camp_inv_def forward_inv_def quiet_def by blast

lemma finish_good:
  assumes inv: "camp_inv (software_jobs db) c" and q: "quiet (software_jobs db) c" and run: "status c = RUNNING"
    and last: "wave_count c \<le> current_wave c"
  shows "good db c (finish now (db, c))"
proof -
  from inv last have at_end: "current_wave c = wave_count c" by (simp add: camp_inv_def waves_inv_def)
  have "camp_inv (software_jobs db)
      (c\<lparr>status := COMPLETED, finished_at := Some now, next_wave_at := None, halted_reason := None, halted_detail := None\<rparr>)"
    by (rule camp_inv_move [OF inv])
       (use at_end q run running_no_revert [OF inv] in \<open>auto simp: same_plan_def quiet_def\<close>)
  then show ?thesis using run by (simp add: finish_def good_Inr)
qed

lemma campaign_event_store [simp]:
  "software_jobs (fst (campaign_event now ev r d (db, c))) = software_jobs db"
  "snd (campaign_event now ev r d (db, c)) = c" "frame i db (fst (campaign_event now ev r d (db, c)))"
  by (simp_all add: campaign_event_def frame_def)

lemma good_event: "cid c' = cid c \<Longrightarrow> camp_inv (software_jobs db) c' \<Longrightarrow> good db c (Inr (campaign_event now ev r d (db, c')))"
  by (simp add: campaign_event_def good_Inr frame_def)

lemma halt_good:
  assumes inv: "camp_inv (software_jobs db) c" and run: "status c = RUNNING"
    and q: "reason \<noteq> OPERATOR_HALT \<Longrightarrow> quiet (software_jobs db) c"
  shows "good db c (halt now reason detail next_at by_whom (db, c))"
proof -
  have "camp_inv (software_jobs db)
      (c\<lparr>status := HALTED, halted_reason := Some reason, halted_detail := detail, next_wave_at := next_at\<rparr>)"
    by (rule camp_inv_move [OF inv])
       (use q run running_no_revert [OF inv] in \<open>auto simp: same_plan_def quiet_def\<close>)
  then show ?thesis using run by (auto simp: halt_def Let_def intro!: good_Inr good_event)
qed

lemma wave_turn_good:
  assumes inv: "camp_inv (software_jobs db) c" and run: "status c = RUNNING"
  shows "case wave_turn now (db, c) of
      Inl result \<Rightarrow> good db c result
    | Inr (db', c') \<Rightarrow> cid c' = cid c \<and> status c' = RUNNING \<and> frame (cid c) db db' \<and> camp_inv (software_jobs db') c'"
proof (cases "list_ex in_flight (jobs db c (Some (current_wave c)) False)")
  case True
  then show ?thesis using inv by (simp add: wave_turn_def Let_def good_Inr)
next
  case False
  let ?started = "case wave_started_at c of None \<Rightarrow> now | Some t \<Rightarrow> t"
  note q = wave_ended_quiet [OF inv False]
  have logged: "good db c r" if "good db (log_to now ev d w b i c) r" for r ev d w b i
    using that by (rule good_trans) simp_all
  have q': "quiet (software_jobs db) (log_to now ev d w b i c)" for ev d w b i
    using q by (simp add: quiet_def forward_cong [of "log_to now ev d w b i c" c])
  show ?thesis
  proof (cases "first_failure HEALTH_GATES db c (jobs db c (Some (current_wave c)) False) ?started")
    case (Some failure)
    with False run show ?thesis
      by (auto simp: wave_turn_def Let_def intro!: logged start_rollback_good halt_good q' camp_inv_log [OF inv])
  next
    case None
    let ?c1 = "log_to now ''GATE_PASSED'' (Some (str (length (jobs db c (Some (current_wave c)) False)) @ '' job(s) completed'')) None None None c"
    consider "wave_count c \<le> current_wave c" | "current_wave c < wave_count c" "wave_pause_seconds c > 0"
      | (go_on) "current_wave c < wave_count c" "wave_pause_seconds c = 0" by linarith
    then show ?thesis
    proof cases
      case 1
      with False None run show ?thesis
        by (auto simp: wave_turn_def Let_def intro!: logged finish_good q' camp_inv_log [OF inv])
    next
      case 2
      with False None run show ?thesis
        by (auto simp: wave_turn_def Let_def intro!: logged halt_good q' camp_inv_log [OF inv])
    next
      case go_on
      obtain db' c' where "start_wave now (Suc (current_wave c)) (db, ?c1) = Inr (db', c')" "cid c' = cid c" "status c' = RUNNING"
          "frame (cid c) db db'" "camp_inv (software_jobs db') c'"
        using start_wave_good [OF camp_inv_log [OF inv] q', where now = now] go_on run by fastforce
      with False None go_on show ?thesis by (simp add: wave_turn_def Let_def)
    qed
  qed
qed

lemma progress_wave_good:
  "camp_inv (software_jobs db) c \<Longrightarrow> good db c (progress_wave now (db, c))"
proof (induction now "(db, c)" arbitrary: db c rule: progress_wave.induct)
  case (1 now db c)
  show ?case
  proof (cases "status c = RUNNING")
    case True
    note turn = wave_turn_good [OF 1(2) True, where now = now]
    show ?thesis
    proof (cases "wave_turn now (db, c)")
      case (Inl r)
      with turn True show ?thesis by (subst progress_wave.simps) simp
    next
      case (Inr sess')
      obtain db' c' where sess': "sess' = (db', c')" by fastforce
      with turn Inr have next': "cid c' = cid c" "frame (cid c) db db'" "camp_inv (software_jobs db') c'" by auto
      from 1(1) [OF True Inr [unfolded sess'] next'(3)] have "good db' c' (progress_wave now (db', c'))" .
      then have "good db c (progress_wave now (db', c'))" using next' by (auto intro: good_trans)
      then show ?thesis using True Inr sess' by (subst progress_wave.simps) simp
    qed
  next
    case False
    with 1(2) show ?thesis by (subst progress_wave.simps) (simp add: good_Inr)
  qed
qed

lemma progress_good: "camp_inv (software_jobs db) c \<Longrightarrow> good db c (progress now (db, c))"
  by (simp add: progress_def progress_wave_good progress_rollback_good good_Inr)

lemma good_and_then:
  assumes "good db c r" "\<And>db' c'. camp_inv (software_jobs db') c' \<Longrightarrow> good db' c' (f (db', c'))"
  shows "good db c (and_then r f)"
proof -
  from assms(1) obtain db' c' where r: "r = Inr (db', c')" "cid c' = cid c" "frame (cid c) db db'" "camp_inv (software_jobs db') c'"
    by (auto simp: good_def)
  with assms(2) [of db' c'] show ?thesis by (auto intro: good_trans)
qed

lemma resume_good:
  assumes inv: "camp_inv (software_jobs db) c" and halted: "status c = HALTED"
  shows "good db c (resume now by_whom (db, c))"
proof -
  define c1 where "c1 = log_to now ''CONTINUED''
        (Some (''after '' @ (case halted_reason c of None \<Rightarrow> ''None'' | Some r \<Rightarrow> reason_text r))) None by_whom None
        (c\<lparr>status := RUNNING, halted_reason := None, halted_detail := None, next_wave_at := None\<rparr>)"
  have c1: "same_plan c1 c" "status c1 = RUNNING" "current_wave c1 = current_wave c"
    by (simp_all add: c1_def same_plan_def)
  note same = same_plan_fields [OF c1(1)]
  have inv1: "camp_inv (software_jobs db) c1"
    by (rule camp_inv_move [OF inv c1(1,3)]) (use c1 halted running_no_revert [OF inv] in auto)
  let ?go = "if halted_reason c \<in> {Some GATE_FAILED, Some WAVE_PAUSE} then next_wave_or_finish now (db, c1) else Inr (db, c1)"
  have "good db c1 ?go"
  proof (cases "halted_reason c \<in> {Some GATE_FAILED, Some WAVE_PAUSE}")
    case True
    with inv halted have q: "quiet (software_jobs db) c1"
      by (auto simp: camp_inv_def forward_inv_def quiet_def same)
    show ?thesis
    proof (cases "wave_count c1 \<le> current_wave c1")
      case True
      then show ?thesis using finish_good [OF inv1 q c1(2)] inv1 by (simp add: next_wave_or_finish_def good_Inr)
    next
      case False
      then show ?thesis
        using start_wave_good [OF inv1 q c1(2), where now = now] inv1 by (auto simp: next_wave_or_finish_def good_def)
    qed
  qed (use inv1 in \<open>simp add: good_Inr\<close>)
  then have "good db c1 (and_then ?go (progress now))" by (rule good_and_then) (rule progress_good)
  then have "good db c (and_then ?go (progress now))" by (rule good_trans) (simp_all add: same)
  moreover have "resume now by_whom (db, c) = and_then ?go (progress now)"
    by (simp only: resume_def prod.case campaign_fire uncaught_simps and_then_simps Let_def c1_def [symmetric])
  ultimately show ?thesis by simp
qed

subsection \<open>Timeouts\<close>

lemma put_job_map:
  "software_jobs (put_job job db) = map (\<lambda>j. if job_id j = job_id job then job else j) (software_jobs db)"
  by (simp add: put_job_def update_where_def)

lemma filter_map_outside:
  "(\<And>k. k \<in> set xs \<Longrightarrow> h k = k \<or> \<not> P k \<and> \<not> P (h k)) \<Longrightarrow> filter P (map h xs) = filter P xs"
proof (induction xs)
  case (Cons x xs)
  from Cons.prems [of x] have "h x = x \<or> \<not> P x \<and> \<not> P (h x)" by simp
  moreover have "filter P (map h xs) = filter P xs" using Cons by simp
  ultimately show ?case by auto
qed simp

lemma put_job_good:
  assumes inv: "camp_inv (software_jobs db) c" and j: "job \<in> set (software_jobs db)" "same_job job' job"
    "campaign_id job = Some (cid c)"
  shows "frame (cid c) db (put_job job' db) \<and> camp_inv (software_jobs (put_job job' db)) c"
proof -
  have job': "job_id job' = job_id job" "campaign_id job' = Some (cid c)" using j by (auto simp: same_job_def)
  have eq: "k = job" if "k \<in> set (software_jobs db)" "job_id k = job_id job'" for k
    using inv j(1) that job'(1) by (auto simp: camp_inv_def intro: distinct_key_eq)
  have "filter (\<lambda>j. campaign_id j \<noteq> Some (cid c)) (software_jobs (put_job job' db))
      = filter (\<lambda>j. campaign_id j \<noteq> Some (cid c)) (software_jobs db)"
    unfolding put_job_map by (rule filter_map_outside) (use eq j(3) job' in force)
  then have "frame (cid c) db (put_job job' db)" by (simp add: frame_def) (simp add: put_job_def)
  moreover have "\<forall>k \<in> set (software_jobs db). same_job (if job_id k = job_id job' then job' else k) k"
    using eq j(2) by (auto simp: same_job_def)
  then have "camp_inv (software_jobs (put_job job' db)) c"
    unfolding put_job_map by (rule camp_inv_report [OF inv])
  ultimately show ?thesis by blast
qed

lemma expire_each_good:
  "camp_inv (software_jobs db) c \<Longrightarrow> distinct (map job_id js) \<Longrightarrow>
   \<forall>j \<in> set js. j \<in> set (software_jobs db) \<and> campaign_id j = Some (cid c) \<and> job_status j = IN_PROGRESS \<Longrightarrow>
   good db c (each (expire_job now limit) js (db, c))"
proof (induction js arbitrary: db c)
  case (Cons job js)
  let ?job' = "job\<lparr>job_status := SwmState.FAILED\<rparr>"
  obtain c' where step: "expire_job now limit job (db, c) = Inr (put_job ?job' db, c')"
      "cid c' = cid c" "\<And>xs. camp_inv xs c \<Longrightarrow> camp_inv xs c'"
    using Cons.prems(3) by (simp add: expire_job_def)
  have job: "job \<in> set (software_jobs db)" "campaign_id job = Some (cid c)" "job_status job = IN_PROGRESS"
    using Cons.prems(3) by simp_all
  then have "same_job ?job' job" by (simp add: same_job_def)
  then have put: "frame (cid c) db (put_job ?job' db)" "camp_inv (software_jobs (put_job ?job' db)) c"
    using put_job_good [OF Cons.prems(1) job(1) _ job(2)] by blast+
  have rest: "j \<in> set (software_jobs (put_job ?job' db))" if "j \<in> set js" for j
    unfolding put_job_map set_map by (rule image_eqI [of _ _ j]) (use that Cons.prems(2,3) in \<open>auto simp: image_iff\<close>)
  have "good (put_job ?job' db) c' (each (expire_job now limit) js (put_job ?job' db, c'))"
    by (rule Cons.IH) (use Cons.prems(2,3) put step(2,3) rest in simp_all)
  then have "good db c (each (expire_job now limit) js (put_job ?job' db, c'))"
    using step(2) put(1) by (rule good_trans)
  then show ?case using step(1) by simp
qed (simp add: good_Inr)

lemma distinct_map_sort_filter:
  "distinct (map job_id js) \<Longrightarrow> distinct (map job_id (filter P (sort_key f (filter Q js))))"
  by (auto simp: distinct_map inj_on_def)

lemma expire_jobs_good:
  assumes "camp_inv (software_jobs db) c"
  shows "good db c (expire_jobs now (db, c))"
proof -
  have "good db c (each (expire_job now limit) (filter (\<lambda>j. job_status j = IN_PROGRESS) (jobs db c w b)) (db, c))" for limit w b
    by (rule expire_each_good [OF assms])
       (use assms in \<open>auto simp: jobs_def job_of_def camp_inv_def intro: distinct_map_sort_filter\<close>)
  then show ?thesis using assms by (auto simp: expire_jobs_def good_Inr split: option.splits)
qed

end
