(* ===== verification/CampaignReach.thy ===== *)
theory CampaignReach
  imports CampaignSafety
begin

section \<open>Every store the module can reach\<close>

text \<open>
  One step of \<open>ran_step\<close> is a committed request or sweep of the module, or a change of another table
  (an alarm raised or cleared, an element registered, a subscription made). Reachable stores start
  without campaigns and software jobs; the routes may run in any order and at any clock.
\<close>

inductive ran_step :: "ran_store \<Rightarrow> ran_store \<Rightarrow> bool" where
  update: "software_update sc msac ref ru db = Inr (db', job) \<Longrightarrow> ran_step db db'"
| advance: "advance_software_job now sc stale i succeeded db = (db', answer) \<Longrightarrow> ran_step db db'"
| create: "validated r0 = Some r \<Longrightarrow> create_software_campaign now sc r db = Inr (db', answer) \<Longrightarrow> ran_step db db'"
| continue: "continue_software_campaign now sc i by_whom force db = Inr db' \<Longrightarrow> ran_step db db'"
| halt: "halt_software_campaign now sc i by_whom db = Inr db' \<Longrightarrow> ran_step db db'"
| abort: "abort_software_campaign now sc i by_whom db = Inr db' \<Longrightarrow> ran_step db db'"
| rollback: "rollback_software_campaign now sc i by_whom db = Inr db' \<Longrightarrow> ran_step db db'"
| sweep: "advance_due now stale_ids db = Inr (db', moved) \<Longrightarrow> ran_step db db'"
| elsewhere: "software_jobs db' = software_jobs db \<Longrightarrow> campaigns db' = campaigns db \<Longrightarrow>
    distinct (map entity_ref (entities db')) \<Longrightarrow> ran_step db db'"

inductive ran_reachable :: "ran_store \<Rightarrow> bool" where
  start: "software_jobs db = [] \<Longrightarrow> campaigns db = [] \<Longrightarrow> distinct (map entity_ref (entities db)) \<Longrightarrow> ran_reachable db"
| step: "ran_reachable db \<Longrightarrow> ran_step db db' \<Longrightarrow> ran_reachable db'"

definition store_inv :: "ran_store \<Rightarrow> bool" where
  "store_inv db \<longleftrightarrow> distinct (map cid (campaigns db)) \<and> distinct (map job_id (software_jobs db)) \<and>
     distinct (map entity_ref (entities db)) \<and>
     (\<forall>c \<in> set (campaigns db). camp_inv (software_jobs db) c) \<and>
     (\<forall>j \<in> set (software_jobs db). \<forall>i. campaign_id j = Some i \<longrightarrow> i \<in> set (map cid (campaigns db)))"

subsection \<open>Saving a session\<close>

lemma get_campaign_SomeD: "get_campaign db i = Some c \<Longrightarrow> c \<in> set (campaigns db) \<and> cid c = i"
  by (auto simp: get_campaign_def dest: row_where_SomeD)

lemma camp_inv_jobs:
  assumes "camp_inv js c" "forward c js' = forward c js" "reverts c js' = reverts c js" "distinct (map job_id js')"
  shows "camp_inv js' c"
  using assms by (simp add: inv_defs wave_jobs_def)

text \<open>The session of one campaign keeps the store sound when every other campaign was.\<close>

lemma save_inv:
  assumes store: "distinct (map cid (campaigns db))" "distinct (map entity_ref (entities db))"
      "\<forall>d \<in> set (campaigns db). cid d \<noteq> cid c \<longrightarrow> camp_inv (software_jobs db) d"
      "\<forall>j \<in> set (software_jobs db). \<forall>i. campaign_id j = Some i \<longrightarrow> i \<in> set (map cid (campaigns db))"
    and row: "cid c \<in> set (map cid (campaigns db))"
    and sess: "cid c' = cid c" "frame (cid c) db db'" "camp_inv (software_jobs db') c'"
  shows "store_inv (save (db', c'))"
proof -
  let ?cs = "update_where (\<lambda>r. cid r = cid c') (\<lambda>_. c') (campaigns db)"
  have same: "campaigns db' = campaigns db" "entities db' = entities db"
      "filter (\<lambda>j. campaign_id j \<noteq> Some (cid c)) (software_jobs db') = filter (\<lambda>j. campaign_id j \<noteq> Some (cid c)) (software_jobs db)"
    using sess(2) by (simp_all add: frame_def)
  have dist: "distinct (map job_id (software_jobs db'))" using sess(3) by (simp add: camp_inv_def)
  have cids: "map cid ?cs = map cid (campaigns db)" by (rule map_update_where) simp
  have "camp_inv (software_jobs db') d" if "d \<in> set ?cs" for d
    using that sess(1,3) store(3) camp_inv_other [OF _ same(3) _ dist]
    by (auto simp: table_simps split: if_splits)
  moreover have "i \<in> set (map cid (campaigns db))" if "j \<in> set (software_jobs db')" "campaign_id j = Some i" for i j
  proof (cases "i = cid c")
    case False
    then have "j \<in> set (filter (\<lambda>j. campaign_id j \<noteq> Some (cid c)) (software_jobs db'))" using that by simp
    then show ?thesis using same(3) store(4) that(2) by auto
  qed (use row in simp)
  ultimately show ?thesis
    using store(1,2) same dist cids by (auto simp: store_inv_def save_def simp del: set_map)
qed

lemma commit_inv:
  assumes "store_inv db" "c \<in> set (campaigns db)" "cid c1 = cid c" "good db c1 r"
  shows "\<exists>db'. commit r = Inr db' \<and> store_inv db'"
proof -
  from assms(4) obtain db' c' where r: "r = Inr (db', c')" "cid c' = cid c1" "frame (cid c1) db db'" "camp_inv (software_jobs db') c'"
    by (auto simp: good_def)
  have "store_inv (save (db', c'))"
    by (rule save_inv [of db c1]) (use assms(1,2,3) r in \<open>auto simp: store_inv_def\<close>)
  with r(1) show ?thesis by (simp add: commit_def)
qed

lemma store_camp: "store_inv db \<Longrightarrow> get_campaign db i = Some c \<Longrightarrow> camp_inv (software_jobs db) c"
  by (auto simp: store_inv_def dest: get_campaign_SomeD)

subsection \<open>The job routes\<close>

lemma software_update_inv:
  assumes "store_inv db" "software_update sc msac ref ru db = Inr (db', job)"
  shows "store_inv db'"
proof -
  from assms(2) have db': "db' = db\<lparr>software_jobs := software_jobs db @ [started_job db ref ru None None None None]\<rparr>"
    by (auto simp: software_update_def and_then_Inr_iff split: if_splits option.splits)
  have new: "forward c (software_jobs db') = forward c (software_jobs db)" "reverts c (software_jobs db') = reverts c (software_jobs db)" for c
    by (simp_all add: db' forward_def reverts_def job_of_def)
  have "distinct (map job_id (software_jobs db'))"
    using assms(1) fresh_id_notin [of "map job_id (software_jobs db)"] by (simp add: db' store_inv_def)
  with assms(1) new show ?thesis
    by (auto simp: store_inv_def db' intro: camp_inv_jobs)
qed

lemma put_job_store_inv:
  assumes inv: "store_inv db" and j: "job \<in> set (software_jobs db)" "same_job job' job"
  shows "store_inv (put_job job' db)"
proof -
  let ?h = "\<lambda>k. if job_id k = job_id job' then job' else k"
  have ids: "job_id job' = job_id job" "campaign_id job' = campaign_id job" using j(2) by (simp_all add: same_job_def)
  have eq: "k = job" if "k \<in> set (software_jobs db)" "job_id k = job_id job" for k
    using inv j(1) that by (auto simp: store_inv_def intro: distinct_key_eq)
  have h: "\<forall>k \<in> set (software_jobs db). same_job (?h k) k"
    using eq j(2) ids by (auto simp: same_job_def)
  have "map job_id (map ?h (software_jobs db)) = map job_id (software_jobs db)"
    using h by (induction "software_jobs db") (auto simp: same_job_def)
  moreover have "\<forall>c \<in> set (campaigns db). camp_inv (map ?h (software_jobs db)) c"
    using inv h camp_inv_report by (auto simp: store_inv_def)
  moreover have "campaigns (put_job job' db) = campaigns db" "entities (put_job job' db) = entities db"
    by (simp_all add: put_job_def)
  ultimately show ?thesis
    using inv j ids by (auto simp: store_inv_def put_job_map simp del: map_map)
qed

lemma on_job_advanced_inv:
  assumes "store_inv db"
  shows "\<exists>db'. on_job_advanced now stale i db = Inr db' \<and> store_inv db'"
proof (cases "get_campaign db i")
  case (Some c)
  have "\<exists>db'. commit (progress now (db, c)) = Inr db' \<and> store_inv db'"
    by (rule commit_inv [OF assms, of c c]) (use get_campaign_SomeD [OF Some] store_camp [OF assms Some] progress_good in auto)
  with Some assms show ?thesis by (auto simp: on_job_advanced_def)
qed (use assms in \<open>simp add: on_job_advanced_def\<close>)

lemma advance_software_job_inv:
  assumes "store_inv db" "advance_software_job now sc stale i succeeded db = (db', answer)"
  shows "store_inv db' \<and> answer \<noteq> Inl (Unhandled m)"
proof (cases "get_job db i")
  case None
  with assms show ?thesis by (auto simp: advance_software_job_def error_codes)
next
  case (Some job)
  then have job: "job \<in> set (software_jobs db)" by (auto simp: get_job_def dest: row_where_SomeD)
  consider (denied) "\<not> element_permitted (entities db) sc (managed_element_ref job)"
    | (refused) err where "element_permitted (entities db) sc (managed_element_ref job)" "report_outcome job succeeded = Inl err"
    | (moved) job' where "element_permitted (entities db) sc (managed_element_ref job)" "report_outcome job succeeded = Inr job'"
    by (cases "report_outcome job succeeded") auto
  then show ?thesis
  proof cases
    case denied
    with Some assms show ?thesis by (auto simp: advance_software_job_def error_codes)
  next
    case refused
    with Some assms report_outcome_error [OF refused(2)] show ?thesis
      by (auto simp: advance_software_job_def error_codes illegal_transition_error_def)
  next
    case moved
    then have "same_job job' job" using report_outcome_Inr by (auto simp: same_job_def)
    then have inv': "store_inv (put_job job' db)" using put_job_store_inv assms(1) job by blast
    show ?thesis
    proof (cases "campaign_id job'")
      case None
      with Some assms(2) moved inv' show ?thesis by (auto simp: advance_software_job_def Let_def)
    next
      case (Some camp)
      obtain db2 where "on_job_advanced now stale camp (put_job job' db) = Inr db2" "store_inv db2"
        using on_job_advanced_inv [OF inv'] by blast
      with Some \<open>get_job db i = Some job\<close> assms(2) moved show ?thesis
        by (auto simp: advance_software_job_def Let_def)
    qed
  qed
qed

subsection \<open>Creating a campaign\<close>

lemma filter_statement_set: "set (filter_statement sc reg ten rows) \<subseteq> set rows"
  by (auto simp: filter_statement_permits)

lemma validated_refs:
  assumes "validated r0 = Some r"
  shows "req_refs r = map_option dict_fromkeys (req_refs r0)" "if_given (length_in 1 MAX_CAMPAIGN_ELEMENTS) (req_refs r0)"
  using assms unfolding validated_def by (simp_all split: if_split_asm) auto

lemma resolve_elements_wf:
  assumes "distinct (map entity_ref (entities db))" "validated r0 = Some r" "resolve_elements db sc r = Inr els"
  shows "els \<noteq> [] \<and> distinct els"
proof (cases "req_refs r")
  case (Some refs)
  with validated_refs(1) [OF assms(2)] obtain refs0 where refs0: "req_refs r0 = Some refs0" "refs = dict_fromkeys refs0"
    by (cases "req_refs r0") simp_all
  moreover have "refs0 \<noteq> []"
    using validated_refs(2) [OF assms(2)] refs0(1) by (auto simp: if_given_def length_in_def)
  moreover from assms(3) Some have "els = refs"
    by (auto simp: resolve_elements_def named_elements_def and_then_Inr_iff split: if_splits)
  ultimately show ?thesis by simp
next
  case None
  with assms(3) obtain s where s: "selected_elements db sc s = Inr els"
    by (auto simp: resolve_elements_def and_then_Inr_iff split: if_splits option.splits)
  have "distinct (map entity_ref (filter_statement sc entity_region entity_tenant (entities db)))"
    using assms(1) by (simp add: filter_statement_permits distinct_map_filter)
  then have "distinct (map entity_ref (filter P (sort_key entity_ref (filter Q (filter_statement sc entity_region entity_tenant (entities db))))))" for P Q
    by (auto simp: distinct_map inj_on_def)
  with s show ?thesis by (auto simp: selected_elements_def Let_def split: if_splits)
qed

lemma ceil_div_pos: "0 < n \<Longrightarrow> 0 < d \<Longrightarrow> 0 < ceil_div n d"
  by (simp add: ceil_div_def div_greater_zero_iff)

lemma resolve_elements_err: "resolve_elements db sc r = Inl err \<Longrightarrow> err \<noteq> Unhandled m"
  by (auto simp: resolve_elements_def named_elements_def selected_elements_def and_then_Inl_iff Let_def error_codes
      split: option.splits if_splits)

lemma create_inv:
  assumes inv: "store_inv db" and valid: "validated r0 = Some r"
  shows "case create_software_campaign now sc r db of Inl err \<Rightarrow> err \<noteq> Unhandled m | Inr (db', _) \<Rightarrow> store_inv db'"
proof (cases "resolve_elements db sc r")
  case (Inl err)
  with resolve_elements_err show ?thesis by (simp add: create_software_campaign_def)
next
  case (Inr els)
  have els: "els \<noteq> []" "distinct els"
    using resolve_elements_wf [OF _ valid Inr] inv by (auto simp: store_inv_def)
  define per where "per = (case req_wave_size r of Some n \<Rightarrow> if n = 0 then length els else n | None \<Rightarrow> length els)"
  define count where "count = ceil_div (length els) per"
  let ?c = "new_campaign now r els count (fresh_id (map cid (campaigns db)))"
  define c1 where "c1 = log_to now ''STARTED'' (Some (str (length els) @ '' element(s) in '' @ str count @ '' wave(s)'')) (Some 0)
      (Some (req_requested_by r)) None (?c\<lparr>status := RUNNING\<rparr>)"
  define db1 where "db1 = db\<lparr>campaigns := campaigns db @ [?c]\<rparr>"
  have c1: "cid c1 = fresh_id (map cid (campaigns db))" "status c1 = RUNNING" "current_wave c1 = 0" "wave_count c1 = count"
      "elements c1 = els" "wave_size c1 = req_wave_size r"
    by (simp_all add: c1_def new_campaign_def)
  have per: "elements_per_wave c1 = per" "0 < per"
    using els c1 by (auto simp: elements_per_wave_def per_def split: option.splits)
  have "fresh_id (map cid (campaigns db)) \<notin> cid ` set (campaigns db)"
    using fresh_id_notin [of "map cid (campaigns db)"] by simp
  then have none: "campaign_id j \<noteq> Some (cid c1)" if "j \<in> set (software_jobs db)" for j
    using inv that c1(1) by (auto simp: store_inv_def)
  then have fr: "forward c1 (software_jobs db) = []" "reverts c1 (software_jobs db) = []"
    by (auto simp: forward_def reverts_def job_of_def filter_empty_conv)
  have inv1: "camp_inv (software_jobs db1) c1"
    using inv els c1 per by (auto simp: db1_def inv_defs fr store_inv_def count_def)
  have more: "current_wave c1 < wave_count c1"
    using c1 els per ceil_div_pos by (simp add: count_def)
  have quiet1: "quiet (software_jobs db1) c1" by (simp add: quiet_def db1_def fr)
  obtain db2 c2 where started: "start_wave now 1 (db1, c1) = Inr (db2, c2)" "cid c2 = cid c1"
      "frame (cid c1) db1 db2" "camp_inv (software_jobs db2) c2"
    using start_wave_good [OF inv1 quiet1 c1(2) more, where now = now] c1(3) by auto
  have "store_inv (save (db2, c2))"
    by (rule save_inv [of db1 c1])
       (use inv started c1 fresh_id_notin [of "map cid (campaigns db)"] in \<open>auto simp: store_inv_def db1_def new_campaign_def\<close>)
  moreover have "create_software_campaign now sc r db =
      (if req_dry_run r then Inr (db, Validated count (map (\<lambda>i. take per (drop (i * per) els)) [0..<count]))
       else Inr (save (db2, c2), Created (summary c2)))"
    using Inr started(1)
    by (simp only: create_software_campaign_def and_then_simps Let_def per_def [symmetric] count_def [symmetric]
        db1_def [symmetric] campaign_fire uncaught_simps c1_def [symmetric] prod.case)
  ultimately show ?thesis using inv by auto
qed

subsection \<open>The operator's routes\<close>

lemma campaign_or_404_Inr: "campaign_or_404 db sc i = Inr c \<Longrightarrow> get_campaign db i = Some c"
  by (auto simp: campaign_or_404_def split: option.splits if_splits)

lemma campaign_or_404_Inl: "campaign_or_404 db sc i = Inl err \<Longrightarrow> err = SOFTWARE_CAMPAIGN_NOT_FOUND"
  by (auto simp: campaign_or_404_def split: option.splits if_splits)

lemma halted_or_409_Inr: "halted_or_409 db sc i = Inr c \<Longrightarrow> get_campaign db i = Some c \<and> status c = HALTED"
  by (auto simp: halted_or_409_def and_then_Inr_iff split: if_splits dest: campaign_or_404_Inr)

lemma halted_or_409_Inl: "halted_or_409 db sc i = Inl err \<Longrightarrow> err \<in> {SOFTWARE_CAMPAIGN_NOT_FOUND, illegal_transition_error}"
  by (auto simp: halted_or_409_def and_then_Inl_iff split: if_splits dest: campaign_or_404_Inl)

text \<open>A handler's answer: a sound store, or one of the published codes.\<close>

definition sound :: "http_error + ran_store \<Rightarrow> bool" where
  "sound r \<longleftrightarrow> (case r of Inl err \<Rightarrow> (\<exists>t n. err = Problem t n) | Inr db' \<Rightarrow> store_inv db')"

lemma sound_codes [simp]:
  "sound (Inl SOFTWARE_CAMPAIGN_NOT_FOUND)" "sound (Inl illegal_transition_error)"
  "sound (Inl WAVE_PAUSE_NOT_ELAPSED)" "sound (Inl ROLLBACK_NOT_POSSIBLE)"
  by (simp_all add: sound_def error_codes illegal_transition_error_def SOFTWARE_CAMPAIGN_NOT_FOUND_def)

lemma sound_commit:
  assumes "store_inv db" "get_campaign db i = Some c" "good db c r"
  shows "sound (commit r)"
  using commit_inv [OF assms(1) _ refl assms(3)] get_campaign_SomeD [OF assms(2)] by (auto simp: sound_def)

lemma sound_campaign:
  assumes "\<And>c. get_campaign db i = Some c \<Longrightarrow> sound (f c)"
  shows "sound (and_then (campaign_or_404 db sc i) f)"
  using assms campaign_or_404_Inr campaign_or_404_Inl by (cases "campaign_or_404 db sc i") fastforce+

lemma sound_halted:
  assumes "\<And>c. get_campaign db i = Some c \<Longrightarrow> status c = HALTED \<Longrightarrow> sound (f c)"
  shows "sound (and_then (halted_or_409 db sc i) f)"
  using assms halted_or_409_Inr halted_or_409_Inl by (cases "halted_or_409 db sc i") fastforce+

lemma continue_sound: "store_inv db \<Longrightarrow> sound (continue_software_campaign now sc i by_whom force db)"
  unfolding continue_software_campaign_def
  by (rule sound_halted) (auto intro!: sound_commit resume_good intro: store_camp)

lemma halt_sound:
  assumes inv: "store_inv db"
  shows "sound (halt_software_campaign now sc i by_whom db)"
  unfolding halt_software_campaign_def
proof (rule sound_campaign)
  fix c
  assume c: "get_campaign db i = Some c"
  note ci = store_camp [OF inv c]
  have paused: "good db c (Inr (campaign_event now ev rs d (db, log_to now ev' d' w b k
      (c\<lparr>halted_reason := Some OPERATOR_HALT, halted_detail := x, next_wave_at := None\<rparr>))))"
    if "status c = HALTED" for ev rs d ev' d' w b k x
  proof (rule good_event)
    have "camp_inv (software_jobs db) (c\<lparr>halted_reason := Some OPERATOR_HALT, halted_detail := x, next_wave_at := None\<rparr>)"
      by (rule camp_inv_move [OF ci]) (use that running_no_revert [OF ci] in \<open>auto simp: same_plan_def\<close>)
    then show "camp_inv (software_jobs db) (log_to now ev' d' w b k
        (c\<lparr>halted_reason := Some OPERATOR_HALT, halted_detail := x, next_wave_at := None\<rparr>))" by simp
  qed simp
  show "sound (if status c = RUNNING then
         commit (halt now OPERATOR_HALT (Some (''halted by '' @ by_whom)) None (Some by_whom) (db, c))
       else if status c = HALTED \<and> halted_reason c = Some WAVE_PAUSE then
         commit (Inr (campaign_event now ''CAMPAIGN_HALTED'' (Some ''OPERATOR_HALT'') (Some (''halted by '' @ by_whom))
           (db, log_to now ''HALTED'' (Some ''OPERATOR_HALT'') None (Some by_whom) None
                  (c\<lparr>halted_reason := Some OPERATOR_HALT, halted_detail := Some (''halted by '' @ by_whom), next_wave_at := None\<rparr>))))
       else if status c \<noteq> HALTED then Inl illegal_transition_error
       else commit (Inr (db, c)))"
    using ci by (auto intro!: sound_commit [OF inv c] halt_good paused good_Inr)
qed

lemma abort_sound:
  assumes inv: "store_inv db"
  shows "sound (abort_software_campaign now sc i by_whom db)"
  unfolding abort_software_campaign_def
proof (rule sound_halted)
  fix c
  assume c: "get_campaign db i = Some c" "status c = HALTED"
  note ci = store_camp [OF inv c(1)]
  have "camp_inv (software_jobs db) (c\<lparr>status := ABORTED, finished_at := Some now, next_wave_at := None\<rparr>)"
    by (rule camp_inv_move [OF ci]) (use c running_no_revert [OF ci] in \<open>auto simp: same_plan_def\<close>)
  then show "sound (and_then (uncaught (fire CAMPAIGN_FSM HALTED ABORT ())) (\<lambda>s.
         commit (Inr (db, log_to now ''ABORTED''
             (Some (''after '' @ (case halted_reason c of None \<Rightarrow> ''None'' | Some r \<Rightarrow> reason_text r))) None (Some by_whom) None
             (c\<lparr>status := s, finished_at := Some now, next_wave_at := None\<rparr>)))))"
    by (auto intro!: sound_commit [OF inv c(1)] good_Inr)
qed

lemma rollback_sound:
  assumes inv: "store_inv db"
  shows "sound (rollback_software_campaign now sc i by_whom db)"
  unfolding rollback_software_campaign_def
proof (rule sound_campaign)
  fix c
  assume c: "get_campaign db i = Some c"
  have "quiet (software_jobs db) c" if "\<not> list_ex in_flight (jobs db c None False)"
    using that by (auto simp: quiet_def list_ex_iff set_forward)
  then show "sound (if status c \<notin> {HALTED, COMPLETED, ABORTED, CampaignState.ROLLBACK_FAILED} then Inl illegal_transition_error
       else if list_ex in_flight (jobs db c None False) then Inl ROLLBACK_NOT_POSSIBLE
       else commit (start_rollback now (''requested by '' @ by_whom) (Some by_whom) (db, c)))"
    using store_camp [OF inv c] by (auto intro!: sound_commit [OF inv c] start_rollback_good)
qed

subsection \<open>The sweep\<close>

lemma save_other: "cid c \<noteq> i \<Longrightarrow> campaigns db' = campaigns db \<Longrightarrow> get_campaign (save (db', c)) i = get_campaign db i"
proof -
  assume "cid c \<noteq> i" "campaigns db' = campaigns db"
  moreover have "row_where (\<lambda>r. cid r = i) (update_where (\<lambda>r. cid r = cid c) (\<lambda>_. c) cs) = row_where (\<lambda>r. cid r = i) cs" for cs
    using calculation(1) by (induction cs) (auto simp: row_where_def update_where_def)
  ultimately show ?thesis by (simp add: get_campaign_def save_def)
qed

lemma sweep_due_each:
  "store_inv db \<Longrightarrow> distinct is \<Longrightarrow> \<forall>i \<in> set is. \<exists>c. get_campaign db i = Some c \<and> status c = HALTED \<Longrightarrow>
   \<exists>db' moved'. each (sweep_due now) is (db, moved) = Inr (db', moved') \<and> store_inv db'"
proof (induction "is" arbitrary: db moved)
  case (Cons i "is")
  then obtain c where c: "get_campaign db i = Some c" "status c = HALTED" by auto
  obtain db1 c1 where res: "resume now (Some ''sweep'') (db, c) = Inr (db1, c1)" "cid c1 = cid c" "frame (cid c) db db1"
      "camp_inv (software_jobs db1) c1"
    using resume_good [OF store_camp [OF Cons.prems(1) c(1)] c(2), of now "Some ''sweep''"] by (auto simp: good_def)
  have i: "cid c = i" using get_campaign_SomeD [OF c(1)] by simp
  have "\<exists>d. get_campaign (save (db1, c1)) k = Some d \<and> status d = HALTED" if k: "k \<in> set is" for k
  proof -
    from k i Cons.prems(2) res(2) have "cid c1 \<noteq> k" by auto
    then have "get_campaign (save (db1, c1)) k = get_campaign db k"
      using res(3) by (intro save_other) (simp_all add: frame_def)
    with k Cons.prems(3) show ?thesis by simp
  qed
  then have "\<forall>k \<in> set is. \<exists>d. get_campaign (save (db1, c1)) k = Some d \<and> status d = HALTED" by blast
  moreover have "store_inv (save (db1, c1))"
    using commit_inv [OF Cons.prems(1) _ refl, of c "Inr (db1, c1)"] get_campaign_SomeD [OF c(1)] res
    by (auto simp: commit_def good_def)
  ultimately obtain db' moved' where
      "each (sweep_due now) is (save (db1, c1), moved @ [summary c1]) = Inr (db', moved')" "store_inv db'"
    using Cons.IH Cons.prems(2) by fastforce
  moreover have "sweep_due now i (db, moved) = Inr (save (db1, c1), moved @ [summary c1])"
    using c res(1) by (simp add: sweep_due_def)
  ultimately show ?case by simp
qed simp

lemma sweep_live_step:
  assumes "store_inv db"
  shows "\<exists>db' moved'. sweep_live now stale_ids i (db, moved) = Inr (db', moved') \<and> store_inv db'"
proof (cases "get_campaign db i")
  case (Some c)
  note ci = store_camp [OF assms Some]
  have "good db c (and_then (expire_jobs now (db, c)) (progress now))"
    by (rule good_and_then [OF expire_jobs_good [OF ci] progress_good])
  then obtain db1 c1 where done': "and_then (expire_jobs now (db, c)) (progress now) = Inr (db1, c1)" "cid c1 = cid c"
      "frame (cid c) db db1" "camp_inv (software_jobs db1) c1"
    by (auto simp: good_def)
  have "store_inv (save (db1, c1))"
    using commit_inv [OF assms _ refl, of c "Inr (db1, c1)"] get_campaign_SomeD [OF Some] done'
    by (auto simp: commit_def good_def)
  moreover obtain sess where expired: "expire_jobs now (db, c) = Inr sess" "progress now sess = Inr (db1, c1)"
    using done'(1) by (auto simp: and_then_Inr_iff)
  ultimately show ?thesis
    using Some assms expired by (simp add: sweep_live_def)
qed (use assms in \<open>simp add: sweep_live_def\<close>)

lemma sweep_live_each:
  "store_inv db \<Longrightarrow> \<exists>db' moved'. each (sweep_live now stale_ids) is (db, moved) = Inr (db', moved') \<and> store_inv db'"
proof (induction "is" arbitrary: db moved)
  case (Cons i "is")
  obtain db1 moved1 where "sweep_live now stale_ids i (db, moved) = Inr (db1, moved1)" "store_inv db1"
    using sweep_live_step [OF Cons.prems] by blast
  with Cons.IH [of db1 moved1] show ?case by simp
qed simp

lemma advance_due_inv:
  assumes "store_inv db"
  shows "\<exists>db' moved. advance_due now stale_ids db = Inr (db', moved) \<and> store_inv db'"
proof -
  let ?due = "sort_key next_wave_at (filter (pause_over now) (campaigns db))"
  have dist: "distinct (map cid (campaigns db))" using assms by (simp add: store_inv_def)
  then have "distinct (map cid ?due)" by (auto simp: distinct_map inj_on_def)
  moreover have "\<forall>i \<in> set (map cid ?due). \<exists>c. get_campaign db i = Some c \<and> status c = HALTED"
  proof
    fix i assume "i \<in> set (map cid ?due)"
    then obtain c where c: "c \<in> set (campaigns db)" "cid c = i" "status c = HALTED" by (auto simp: pause_over_def)
    then have "row_where (\<lambda>r. cid r = i) (campaigns db) \<noteq> None" by (auto simp: row_where_None)
    then obtain d where "get_campaign db i = Some d" by (auto simp: get_campaign_def)
    moreover from this have "d = c" using get_campaign_SomeD c dist distinct_key_eq by metis
    ultimately show "\<exists>c. get_campaign db i = Some c \<and> status c = HALTED" using c by blast
  qed
  ultimately obtain db1 moved1 where "each (sweep_due now) (map cid ?due) (db, []) = Inr (db1, moved1)" "store_inv db1"
    using sweep_due_each assms by blast
  with sweep_live_each [of db1] show ?thesis by (simp add: advance_due_def)
qed

subsection \<open>The invariant holds everywhere\<close>

lemma ran_step_inv: "ran_step db db' \<Longrightarrow> store_inv db \<Longrightarrow> store_inv db'"
proof (induction rule: ran_step.induct)
  case (update sc ref ru db db' job)
  then show ?case using software_update_inv by blast
next
  case (advance now sc stale i succeeded db db' answer)
  then show ?case using advance_software_job_inv by blast
next
  case (create r0 r now sc db db' answer)
  then show ?case using create_inv [where db = db and r = r and now = now and sc = sc] by simp
next
  case (continue now sc i by_whom force db db')
  then show ?case using continue_sound [where db = db and now = now and sc = sc and i = i and by_whom = by_whom and force = force] by (simp add: sound_def)
next
  case (halt now sc i by_whom db db')
  then show ?case using halt_sound [where db = db and now = now and sc = sc and i = i and by_whom = by_whom] by (simp add: sound_def)
next
  case (abort now sc i by_whom db db')
  then show ?case using abort_sound [where db = db and now = now and sc = sc and i = i and by_whom = by_whom] by (simp add: sound_def)
next
  case (rollback now sc i by_whom db db')
  then show ?case using rollback_sound [where db = db and now = now and sc = sc and i = i and by_whom = by_whom] by (simp add: sound_def)
next
  case (sweep now stale_ids db db' moved)
  then show ?case using advance_due_inv [where db = db and now = now and stale_ids = stale_ids] by auto
next
  case (elsewhere db' db)
  then show ?case by (simp add: store_inv_def)
qed

lemma reachable_inv: "ran_reachable db \<Longrightarrow> store_inv db"
proof (induction rule: ran_reachable.induct)
  case (step db db')
  then show ?case using ran_step_inv by blast
qed (simp add: store_inv_def)

lemma reachable_camp: "ran_reachable db \<Longrightarrow> c \<in> set (campaigns db) \<Longrightarrow> camp_inv (software_jobs db) c"
  by (auto dest: reachable_inv simp: store_inv_def)

end
