(* ===== verification/CampaignProperties.thy ===== *)
theory CampaignProperties
  imports CampaignReach
begin

section \<open>Properties of software campaigns\<close>

text \<open>
  The claims about campaigns, over every reachable store, with a run of the routes on a small store
  at which each of them is applied.
\<close>

subsection \<open>Waves partition the elements\<close>

lemma concat_slices: "concat (map (\<lambda>i. take n (drop (i * n) xs)) [0..<k]) = take (k * n) xs"
proof (induction k)
  case (Suc k)
  have "Suc k * n = k * n + n" by simp
  with Suc show ?case by (simp only: take_add) simp
qed simp

lemma ceil_div_covers: "0 < d \<Longrightarrow> n \<le> ceil_div n d * d"
proof -
  assume d: "0 < d"
  let ?m = "n + d - 1"
  have "?m = ?m div d * d + ?m mod d" by simp
  moreover have "?m mod d < d" using d by simp
  ultimately show ?thesis unfolding ceil_div_def using d by linarith
qed

lemma ceil_div_below: "0 < d \<Longrightarrow> i < ceil_div n d \<Longrightarrow> i * d < n"
proof -
  assume d: "0 < d" and i: "i < ceil_div n d"
  have "Suc i * d \<le> n + d - 1"
    using i d by (simp add: ceil_div_def less_eq_div_iff_mult_less_eq Suc_le_eq [symmetric])
  with d show ?thesis by simp
qed

lemma per_wave_pos [simp]: "0 < elements_per_wave c"
  by (simp add: elements_per_wave_def split: option.split)

lemma concat_waves:
  assumes "wave_count c = ceil_div (length (elements c)) (elements_per_wave c)"
  shows "concat (map (wave_elements c) [1..<Suc (wave_count c)]) = elements c"
proof -
  have "map (wave_elements c) [1..<Suc k]
      = map (\<lambda>i. take (elements_per_wave c) (drop (i * elements_per_wave c) (elements c))) [0..<k]" for k
    by (induction k) (simp_all add: wave_elements_def)
  then have "concat (map (wave_elements c) [1..<Suc (wave_count c)])
      = take (wave_count c * elements_per_wave c) (elements c)"
    by (simp add: concat_slices)
  then show ?thesis using ceil_div_covers [of "elements_per_wave c" "length (elements c)"] assms by simp
qed

subsection \<open>What a turn of the loop leaves behind\<close>

lemma fire_rollback_status: "uncaught (fire CAMPAIGN_FSM s ROLLBACK ()) = Inr t \<Longrightarrow> t = ROLLING_BACK"
  by (cases s) (simp_all add: fire_first_passing fsm_tables)

lemma fire_rollback_done: "uncaught (fire CAMPAIGN_FSM s ROLLBACK_DONE ()) = Inr t \<Longrightarrow> t = ROLLED_BACK"
  by (cases s) (simp_all add: fire_first_passing fsm_tables)

lemma fire_rollback_failed: "uncaught (fire CAMPAIGN_FSM s CampaignEvent.ROLLBACK_FAILED ()) = Inr t \<Longrightarrow> t = CampaignState.ROLLBACK_FAILED"
  by (cases s) (simp_all add: fire_first_passing fsm_tables)

lemma start_reverts_status: "start_reverts now ts (db, c) = Inr ((db', c'), n) \<Longrightarrow> status c' = status c"
  by (auto simp: start_reverts_def Let_def and_then_Inr_iff split: if_splits)

text \<open>A rollback ends, or waits for a revert job it can name.\<close>

lemma each_start_reverts:
  "each (start_revert_job c) ts db = Inr db' \<Longrightarrow> ts \<noteq> [] \<Longrightarrow> \<exists>r \<in> set (software_jobs db'). job_of c True r \<and> in_flight r"
proof -
  assume run: "each (start_revert_job c) ts db = Inr db'" and ts: "ts \<noteq> []"
  obtain new where "each (start_revert_job c) ts db = Inr (db\<lparr>software_jobs := software_jobs db @ new\<rparr>)"
      and all: "list_all2 (job_for (cid c) managed_element_ref campaign_wave (\<lambda>j. Some (job_id j))) ts new"
    using start_each [of "start_revert_job c" managed_element_ref "cid c" campaign_wave "\<lambda>j. Some (job_id j)" None ts db]
    by (auto simp: start_revert_job_def)
  with run have db': "db' = db\<lparr>software_jobs := software_jobs db @ new\<rparr>" by simp
  from ts obtain x where "x \<in> set ts" by (cases ts) auto
  then obtain r where "r \<in> set new" "job_for (cid c) managed_element_ref campaign_wave (\<lambda>j. Some (job_id j)) x r"
    using job_for_all(3) [OF all] by blast
  then show ?thesis using db' by (auto simp: job_for_def job_of_def in_flight_def)
qed

lemma start_reverts_flying:
  assumes "start_reverts now ts (db, c) = Inr ((db', c'), n)" "n \<noteq> 0"
  shows "\<exists>r \<in> set (software_jobs db'). job_of c' True r \<and> in_flight r"
  using assms each_start_reverts by (fastforce simp: start_reverts_def Let_def and_then_Inr_iff split: if_splits)

definition waits :: "session \<Rightarrow> bool" where
  "waits sess \<longleftrightarrow> (case sess of (db, c) \<Rightarrow>
     (status c = RUNNING \<longrightarrow> (\<exists>j \<in> set (software_jobs db). job_of c False j \<and> campaign_wave j = Some (current_wave c) \<and> in_flight j)) \<and>
     (status c = ROLLING_BACK \<longrightarrow> (\<exists>r \<in> set (software_jobs db). job_of c True r \<and> in_flight r)))"

lemma progress_rollback_waits:
  assumes "progress_rollback now (db, c) = Inr (db', c')" "status c \<noteq> RUNNING"
  shows "waits (db', c')"
proof (cases "list_ex in_flight (jobs db c None True)")
  case True
  with assms show ?thesis by (auto simp: progress_rollback_def Let_def waits_def list_ex_iff set_jobs_None)
next
  case landed: False
  let ?rs = "jobs db c None True"
  let ?failed = "map fst (filter (\<lambda>p. snd p = UNDO_FAILED) (undone ?rs))"
  show ?thesis
  proof (cases "?failed = [] \<and> rollback_order c = LastWaveFirst")
    case True
    obtain db1 c1 n where started: "start_reverts now (revert_targets db c ?rs) (db, c) = Inr ((db1, c1), n)"
      using landed assms(1) True
      by (cases "start_reverts now (revert_targets db c ?rs) (db, c)") (auto simp: progress_rollback_def Let_def)
    have rest: "(if n \<noteq> 0 then Inr (db1, c1)
          else and_then (uncaught (fire CAMPAIGN_FSM (status c1) ROLLBACK_DONE ())) (\<lambda>s.
            Inr (db1, log_to now ''ROLLBACK_DONE'' (Some (str (length (undone ?rs)) @ '' job(s) undone'')) None None None
                   (c1\<lparr>status := s, finished_at := Some now\<rparr>)))) = Inr (db', c')"
      using landed assms(1) True started by (simp add: progress_rollback_def Let_def cong: if_cong)
    show ?thesis
    proof (cases "n = 0")
      case False
      with rest started start_reverts_flying [OF started] start_reverts_status [OF started] assms(2) show ?thesis
        by (auto simp: waits_def)
    next
      case True
      with rest show ?thesis by (auto simp: and_then_Inr_iff waits_def dest!: fire_rollback_done)
    qed
  next
    case False
    with landed assms show ?thesis
      by (auto simp: progress_rollback_def Let_def waits_def and_then_Inr_iff campaign_event_def
          dest!: fire_rollback_done fire_rollback_failed split: if_splits)
  qed
qed

lemma progress_rollback_status:
  "progress_rollback now (db, c) = Inr (db', c') \<Longrightarrow> status c' \<in> {status c, ROLLED_BACK, CampaignState.ROLLBACK_FAILED}"
  by (auto simp: progress_rollback_def Let_def and_then_Inr_iff campaign_event_def
      dest!: fire_rollback_done fire_rollback_failed dest: start_reverts_status split: if_splits)

lemma start_rollback_waits:
  assumes "start_rollback now why by_whom (db, c) = Inr (db', c')"
  shows "status c' \<noteq> RUNNING \<and> waits (db', c')"
proof -
  let ?ts = "revert_targets db c (jobs db c None True)"
  obtain s where s: "uncaught (fire CAMPAIGN_FSM (status c) ROLLBACK ()) = Inr s"
    using assms by (auto simp: start_rollback_def Let_def and_then_Inr_iff)
  then have s: "uncaught (fire CAMPAIGN_FSM (status c) ROLLBACK ()) = Inr ROLLING_BACK"
    using fire_rollback_status by blast
  define c1 where "c1 = log_to now ''ROLLBACK_STARTED'' (Some (why @ ''; '' @ str (length ?ts) @ '' job(s) to undo'')) None by_whom None
      (c\<lparr>status := ROLLING_BACK, halted_reason := None, halted_detail := None, next_wave_at := None, finished_at := None\<rparr>)"
  have c1: "status c1 = ROLLING_BACK" by (simp add: c1_def)
  have eq: "start_rollback now why by_whom (db, c) =
      and_then (start_reverts now ?ts (db, c1)) (\<lambda>(sess', n). if n = 0 then progress_rollback now sess' else Inr sess')"
    by (simp only: start_rollback_def prod.case Let_def s and_then_simps c1_def [symmetric])
  obtain db2 c2 n where started: "start_reverts now ?ts (db, c1) = Inr ((db2, c2), n)"
    using assms eq by (cases "start_reverts now ?ts (db, c1)") auto
  have status: "status c2 = ROLLING_BACK" using start_reverts_status [OF started] c1 by simp
  have rest: "(if n = 0 then progress_rollback now (db2, c2) else Inr (db2, c2)) = Inr (db', c')"
    using assms eq started by simp
  show ?thesis
  proof (cases "n = 0")
    case True
    with rest have "progress_rollback now (db2, c2) = Inr (db', c')" by simp
    then show ?thesis
      using progress_rollback_waits [of now db2 c2 db' c'] progress_rollback_status [of now db2 c2 db' c'] status by auto
  next
    case False
    with rest status start_reverts_flying [OF started] show ?thesis by (auto simp: waits_def)
  qed
qed

lemma finish_status: "finish now (db, c) = Inr (db', c') \<Longrightarrow> status c' = COMPLETED"
  by (cases "status c") (auto simp: finish_def fire_first_passing fsm_tables and_then_Inr_iff)

lemma halt_status: "halt now r d n b (db, c) = Inr (db', c') \<Longrightarrow> status c' = HALTED"
  by (cases "status c")
     (auto simp: halt_def Let_def fire_first_passing fsm_tables and_then_Inr_iff campaign_event_def split: if_splits)

lemma wave_turn_waits:
  assumes "wave_turn now (db, c) = Inl (Inr (db', c'))" "status c = RUNNING"
  shows "waits (db', c')"
proof (cases "list_ex in_flight (jobs db c (Some (current_wave c)) False)")
  case True
  with assms show ?thesis
    by (auto simp: wave_turn_def Let_def waits_def list_ex_iff jobs_def)
next
  case False
  with assms show ?thesis
    by (auto simp: wave_turn_def Let_def waits_def split: option.splits if_splits sum.splits
        dest: start_rollback_waits finish_status halt_status)
qed

lemma progress_wave_waits: "progress_wave now (db, c) = Inr (db', c') \<Longrightarrow> status c \<noteq> ROLLING_BACK \<Longrightarrow> waits (db', c')"
proof (induction now "(db, c)" arbitrary: db c rule: progress_wave.induct)
  case (1 now db c)
  show ?case
  proof (cases "status c = RUNNING")
    case True
    show ?thesis
    proof (cases "wave_turn now (db, c)")
      case (Inl r)
      with True 1(2) have "r = Inr (db', c')" by (simp add: progress_wave.simps [of now db c])
      with Inl True wave_turn_waits show ?thesis by blast
    next
      case (Inr sess')
      obtain db1 c1 where sess': "sess' = (db1, c1)" by fastforce
      have "status c1 = RUNNING"
        using Inr True sess' by (auto simp: wave_turn_def Let_def split: if_splits option.splits sum.splits dest!: start_wave_current)
      with 1(1) [OF True Inr [unfolded sess']] 1(2) True Inr sess' show ?thesis
        by (simp add: progress_wave.simps [of now db c])
    qed
  next
    case False
    with 1(2,3) show ?thesis by (auto simp: progress_wave.simps [of now db c] waits_def)
  qed
qed

lemma progress_waits: "progress now (db, c) = Inr (db', c') \<Longrightarrow> waits (db', c')"
  using progress_wave_waits [of now db c db' c'] progress_rollback_waits [of now db c db' c']
  by (auto simp: progress_def split: if_splits) (simp add: waits_def)

subsection \<open>A run on a small store\<close>

definition demo_element :: "string \<Rightarrow> managed_entity" where
  "demo_element ref = \<lparr>entity_ref = ref, entity_type = ''RU'', vendor_name = None, entity_protocol = ''NETCONF'', entity_region = None,
     entity_tenant = None, entity_endpoint_id = None\<rparr>"

definition demo_store :: ran_store where
  "demo_store = \<lparr>entities = [demo_element ''a''], endpoints = [], vendors = [], software_jobs = [], campaigns = [],
     alarms = [], subscriptions = [], outbox = [], templates = [], onboardings = []\<rparr>"

definition demo_request :: campaign_request where
  "demo_request = \<lparr>req_requested_by = ''op'', req_name = ''c'', req_software_version = None, req_refs = Some [''a''],
     req_selector = None, req_wave_size = None, req_wave_pause = 0, req_max_new_alarms = 0,
     req_on_gate_failure = HaltCampaign, req_job_timeout = None, req_rollback_order = AllAtOnce, req_dry_run = False\<rparr>"

definition store_after :: "'e + ran_store \<times> 'a \<Rightarrow> ran_store" where
  "store_after r = (case r of Inl _ \<Rightarrow> demo_store | Inr (db, _) \<Rightarrow> db)"

definition demo_running :: ran_store where
  "demo_running = store_after (create_software_campaign 0 None demo_request demo_store)"

definition demo_report :: "uid \<Rightarrow> ran_store \<Rightarrow> ran_store" where
  "demo_report i db = fst (advance_software_job 1 None False i True db)"

definition demo_completed :: ran_store where
  "demo_completed = demo_report 1 (demo_report 1 (demo_report 1 demo_running))"

definition demo_rolled_back :: ran_store where
  "demo_rolled_back = demo_report 2 (demo_report 2 (demo_report 2
     (case rollback_software_campaign 2 None 1 ''op'' demo_completed of Inl _ \<Rightarrow> demo_store | Inr db \<Rightarrow> db)))"

lemma demo_store_reachable: "ran_reachable demo_store"
  by (rule ran_reachable.start) (simp_all add: demo_store_def demo_element_def)

lemma demo_created: "\<exists>answer. create_software_campaign 0 None demo_request demo_store = Inr (demo_running, answer)"
proof -
  have "case create_software_campaign 0 None demo_request demo_store of Inl _ \<Rightarrow> False | Inr _ \<Rightarrow> True"
    by code_simp
  then show ?thesis by (auto simp: demo_running_def store_after_def split: sum.splits)
qed

lemma demo_validated: "validated demo_request = Some demo_request"
  by code_simp

lemma demo_running_reachable: "ran_reachable demo_running"
  using demo_created ran_reachable.step [OF demo_store_reachable ran_step.create [OF demo_validated]] by blast

lemma demo_report_reachable: "ran_reachable db \<Longrightarrow> ran_reachable (demo_report i db)"
proof -
  assume db: "ran_reachable db"
  obtain db' answer where "advance_software_job 1 None False i True db = (db', answer)" by fastforce
  then show ?thesis using ran_reachable.step [OF db ran_step.advance] by (auto simp: demo_report_def)
qed

lemma demo_completed_reachable: "ran_reachable demo_completed"
  by (simp add: demo_completed_def demo_report_reachable demo_running_reachable)

lemma demo_rolled_back_reachable: "ran_reachable demo_rolled_back"
proof (cases "rollback_software_campaign 2 None 1 ''op'' demo_completed")
  case (Inl err)
  then show ?thesis by (simp add: demo_rolled_back_def demo_report_reachable demo_store_reachable)
next
  case (Inr db)
  then have "ran_reachable db"
    using ran_reachable.step [OF demo_completed_reachable ran_step.rollback] by blast
  with Inr show ?thesis by (simp add: demo_rolled_back_def demo_report_reachable)
qed

lemma demo_statuses:
  "map status (campaigns demo_running) = [RUNNING]" "map status (campaigns demo_completed) = [COMPLETED]"
  "map status (campaigns demo_rolled_back) = [ROLLED_BACK]"
  by code_simp+

definition demo_campaign :: "ran_store \<Rightarrow> campaign" where
  "demo_campaign db = hd (campaigns db)"

lemma demo_campaigns:
  "demo_campaign demo_running \<in> set (campaigns demo_running)" "demo_campaign demo_completed \<in> set (campaigns demo_completed)"
  "demo_campaign demo_rolled_back \<in> set (campaigns demo_rolled_back)"
  "status (demo_campaign demo_running) = RUNNING" "status (demo_campaign demo_completed) = COMPLETED"
  "status (demo_campaign demo_rolled_back) = ROLLED_BACK"
  using demo_statuses by (auto simp: demo_campaign_def)

subsection \<open>The claims\<close>

text \<open>C21: One wave at a time: in every reachable store, each job a campaign started belongs to a wave it has reached,
  and a job still in flight belongs to the current wave of a campaign that runs, was halted by an operator or
  was aborted after that: no wave starts while a job of an earlier one runs.\<close>

theorem one_wave_at_a_time:
  assumes "ran_reachable db" "c \<in> set (campaigns db)" "j \<in> set (software_jobs db)" "job_of c False j"
  shows "\<exists>w. campaign_wave j = Some w \<and> 1 \<le> w \<and> w \<le> current_wave c \<and> current_wave c \<le> wave_count c \<and>
    (in_flight j \<longrightarrow> w = current_wave c \<and> status c \<in> {RUNNING, HALTED, ABORTED} \<and>
       (status c = HALTED \<longrightarrow> halted_reason c = Some OPERATOR_HALT))"
  using reachable_camp [OF assms(1,2)] assms(3,4)
  by (auto simp: camp_inv_def forward_inv_def waves_inv_def forward_def)

theorem one_wave_at_a_time_witness:
  "list_all (\<lambda>j. \<exists>w. campaign_wave j = Some w \<and> 1 \<le> w \<and> w \<le> current_wave (demo_campaign demo_running) \<and>
     current_wave (demo_campaign demo_running) \<le> wave_count (demo_campaign demo_running) \<and>
     (in_flight j \<longrightarrow> w = current_wave (demo_campaign demo_running) \<and> status (demo_campaign demo_running) \<in> {RUNNING, HALTED, ABORTED} \<and>
       (status (demo_campaign demo_running) = HALTED \<longrightarrow> halted_reason (demo_campaign demo_running) = Some OPERATOR_HALT)))
     (filter (job_of (demo_campaign demo_running) False) (software_jobs demo_running))"
  unfolding list_all_iff
  by (intro ballI one_wave_at_a_time [OF demo_running_reachable demo_campaigns(1)]) auto

text \<open>C22: A campaign that ends ROLLED_BACK undid everything: no job of it is in flight and every software job it
  completed has a completed revert job on the same element and wave, whether the reverts ran all at once or
  last wave first, and through any number of failed rollbacks before.\<close>

theorem rolled_back_undid_all:
  assumes "ran_reachable db" "c \<in> set (campaigns db)" "status c = ROLLED_BACK" "j \<in> set (software_jobs db)" "job_of c False j"
  shows "\<not> in_flight j \<and> (job_status j = SwmState.COMPLETED \<longrightarrow>
    (\<exists>r \<in> set (software_jobs db). job_of c True r \<and> rollback_of r = Some (job_id j) \<and> job_status r = SwmState.COMPLETED \<and>
       managed_element_ref r = managed_element_ref j \<and> campaign_wave r = campaign_wave j))"
proof -
  note inv = reachable_camp [OF assms(1,2)]
  have undo: "undo_inv (software_jobs db) c" and tied: "tied_inv (software_jobs db) c" using inv by (simp_all add: camp_inv_def)
  have j: "j \<in> set (forward c (software_jobs db))" using assms(4,5) by (simp add: forward_def)
  have "\<not> in_flight j" using inv j assms(3) by (auto simp: camp_inv_def forward_inv_def)
  moreover have "\<exists>r \<in> set (software_jobs db). job_of c True r \<and> rollback_of r = Some (job_id j) \<and> job_status r = SwmState.COMPLETED \<and>
       managed_element_ref r = managed_element_ref j \<and> campaign_wave r = campaign_wave j"
    if comp: "job_status j = SwmState.COMPLETED"
  proof -
    obtain r where r: "r \<in> set (reverts c (software_jobs db))" "undoes r j" "job_status r = SwmState.COMPLETED"
      using undo j comp assms(3) unfolding undo_inv_def by blast
    moreover obtain k where "k \<in> set (forward c (software_jobs db))" "undoes r k"
        "managed_element_ref r = managed_element_ref k" "campaign_wave r = campaign_wave k"
      using tied r(1) unfolding tied_inv_def by blast
    moreover from this r(2) j inv have "k = j"
      by (intro distinct_key_eq [of job_id "software_jobs db"]) (auto simp: undoes_def camp_inv_def forward_def)
    ultimately show ?thesis by (auto simp: reverts_def undoes_def)
  qed
  ultimately show ?thesis by blast
qed

theorem rolled_back_undid_all_witness:
  "list_all (\<lambda>j. \<not> in_flight j) (filter (job_of (demo_campaign demo_rolled_back) False) (software_jobs demo_rolled_back))"
  unfolding list_all_iff
  using rolled_back_undid_all [OF demo_rolled_back_reachable demo_campaigns(3,6)] by auto

text \<open>C23: A campaign that COMPLETED reached every element exactly once: its jobs, wave by wave and in the order they
  were started, are on exactly the campaign's elements in order, no element twice, and each of them has ended.\<close>

theorem completed_reached_all:
  assumes "ran_reachable db" "c \<in> set (campaigns db)" "status c = COMPLETED"
  shows "map managed_element_ref (concat (map (\<lambda>w. wave_jobs c w (software_jobs db)) [1..<Suc (wave_count c)])) = elements c
    \<and> distinct (elements c) \<and> list_all (\<lambda>j. \<not> in_flight j) (forward c (software_jobs db))"
proof -
  note inv = reachable_camp [OF assms(1,2)]
  have waves: "map managed_element_ref (wave_jobs c w (software_jobs db)) = wave_elements c w"
    if "w \<in> set [1..<Suc (wave_count c)]" for w
    using inv assms(3) that by (auto simp: camp_inv_def waves_inv_def)
  have "map managed_element_ref (concat (map (\<lambda>w. wave_jobs c w (software_jobs db)) [1..<Suc (wave_count c)]))
      = concat (map (\<lambda>w. map managed_element_ref (wave_jobs c w (software_jobs db))) [1..<Suc (wave_count c)])"
    by (simp only: map_concat map_map comp_def)
  also have "\<dots> = concat (map (wave_elements c) [1..<Suc (wave_count c)])"
    using waves by (intro arg_cong [where f = concat] map_cong refl) blast
  also have "\<dots> = elements c" using inv by (intro concat_waves) (simp add: camp_inv_def waves_inv_def)
  finally show ?thesis
    using inv assms(3) by (auto simp: camp_inv_def waves_inv_def forward_inv_def list_all_iff)
qed

theorem completed_reached_all_witness:
  "distinct (elements (demo_campaign demo_completed))"
  using completed_reached_all [OF demo_completed_reachable demo_campaigns(2,5)] by blast

text \<open>C24: No campaign gets stuck: after the campaign has been told to go on (a job reported, or the sweep looked), it
  is not left RUNNING without a job of its current wave in flight, nor ROLLING_BACK without a revert job in flight.\<close>

theorem progress_never_stuck:
  assumes "ran_reachable db" "c \<in> set (campaigns db)"
  shows "\<exists>db' c'. progress now (db, c) = Inr (db', c') \<and>
    (status c' = RUNNING \<longrightarrow>
       (\<exists>j \<in> set (software_jobs db'). job_of c' False j \<and> campaign_wave j = Some (current_wave c') \<and> in_flight j)) \<and>
    (status c' = ROLLING_BACK \<longrightarrow> (\<exists>r \<in> set (software_jobs db'). job_of c' True r \<and> in_flight r))"
proof -
  obtain db' c' where "progress now (db, c) = Inr (db', c')"
    using progress_good [OF reachable_camp [OF assms], of now] by (auto simp: good_def)
  with progress_waits [of now db c db' c'] show ?thesis by (auto simp: waits_def)
qed

theorem progress_never_stuck_witness:
  "\<exists>db' c'. progress 5 (demo_running, demo_campaign demo_running) = Inr (db', c')"
  using progress_never_stuck [OF demo_running_reachable demo_campaigns(1), of 5] by blast

text \<open>C26: The health gate holds the next wave back: a turn of the campaign loop that starts a wave has seen every job
  of the wave before it COMPLETED, no more critical or major alarms on its elements since the wave started than
  the limit, no configured pause and a wave left to run.\<close>

theorem next_wave_only_through_gate:
  assumes "wave_turn now (db, c) = Inr (db', c')"
  shows "(\<forall>j \<in> set (software_jobs db). job_of c False j \<and> campaign_wave j = Some (current_wave c) \<longrightarrow> job_status j = SwmState.COMPLETED) \<and>
    length (filter (\<lambda>a. (\<exists>j \<in> set (software_jobs db). job_of c False j \<and> campaign_wave j = Some (current_wave c) \<and> managed_element_ref j = alarm_element a) \<and>
        raised_at a \<ge> (case wave_started_at c of None \<Rightarrow> now | Some t \<Rightarrow> t) \<and> severity a \<in> {''critical'', ''major''}) (alarms db))
      \<le> gate_max_new_alarms c \<and>
    wave_pause_seconds c = 0 \<and> current_wave c < wave_count c \<and> current_wave c' = Suc (current_wave c)"
proof -
  let ?js = "jobs db c (Some (current_wave c)) False"
  let ?started = "case wave_started_at c of None \<Rightarrow> now | Some t \<Rightarrow> t"
  have facts: "\<not> list_ex in_flight ?js" "first_failure HEALTH_GATES db c ?js ?started = None" "wave_pause_seconds c = 0"
    using assms by (auto simp: wave_turn_def Let_def split: if_splits option.splits sum.splits)
  have set_js: "set ?js = {j \<in> set (software_jobs db). job_of c False j \<and> campaign_wave j = Some (current_wave c)}"
    by (auto simp: jobs_def)
  have none_failed: "gate_failed_jobs db c ?js ?started = None" and few: "gate_new_alarms db c ?js ?started = None"
    using facts(2) by (auto simp: HEALTH_GATES_def split: option.splits)
  have ended: "job_status j = SwmState.COMPLETED" if "j \<in> set ?js" for j
    using that none_failed facts(1)
    by (cases "job_status j") (auto simp: gate_failed_jobs_def list_ex_iff in_flight_def filter_empty_conv split: list.splits)
  have few': "length (filter (\<lambda>a. alarm_element a \<in> set (map managed_element_ref ?js) \<and> raised_at a \<ge> ?started \<and>
      severity a \<in> {''critical'', ''major''}) (alarms db)) \<le> gate_max_new_alarms c"
    using few by (auto simp: gate_new_alarms_def Let_def split: if_splits)
  have eq: "(\<lambda>a. alarm_element a \<in> set (map managed_element_ref ?js) \<and> raised_at a \<ge> ?started \<and> severity a \<in> {''critical'', ''major''})
      = (\<lambda>a. (\<exists>j \<in> set (software_jobs db). job_of c False j \<and> campaign_wave j = Some (current_wave c) \<and> managed_element_ref j = alarm_element a) \<and>
        raised_at a \<ge> ?started \<and> severity a \<in> {''critical'', ''major''})"
    by (rule ext) (auto simp: set_js image_iff)
  show ?thesis
    using ended few' [unfolded eq] facts(3) wave_turn_next [OF assms] unfolding set_js by blast
qed

definition demo_two_waves :: campaign where
  "demo_two_waves = (new_campaign 0 demo_request [''a'', ''b''] 2 1)\<lparr>status := RUNNING, wave_size := Some 1\<rparr>"

lemma demo_two_waves_turn: "case wave_turn 5 (demo_store, demo_two_waves) of Inl _ \<Rightarrow> False | Inr _ \<Rightarrow> True"
  by code_simp

theorem next_wave_only_through_gate_witness:
  "wave_pause_seconds demo_two_waves = 0 \<and> current_wave demo_two_waves < wave_count demo_two_waves"
proof -
  obtain db' c' where "wave_turn 5 (demo_store, demo_two_waves) = Inr (db', c')"
    using demo_two_waves_turn by (auto split: sum.splits)
  then show ?thesis using next_wave_only_through_gate by blast
qed

text \<open>A dry run changes nothing and tells the truth: it leaves the store as it was and answers waves that are
  the campaign's elements cut in order, none empty and none longer than the wave size.\<close>

theorem dry_run_plans_only:
  assumes "distinct (map entity_ref (entities db))" "validated r0 = Some r" "req_dry_run r"
    "create_software_campaign now sc r db = Inr (db', answer)"
  shows "db' = db \<and> (\<exists>els ws. resolve_elements db sc r = Inr els \<and> answer = Validated (length ws) ws \<and> concat ws = els \<and>
    list_all (\<lambda>w. w \<noteq> [] \<and> length w \<le> (case req_wave_size r of Some n \<Rightarrow> if n = 0 then length els else n | None \<Rightarrow> length els)) ws)"
proof -
  obtain els where els: "resolve_elements db sc r = Inr els"
    using assms(4) by (auto simp: create_software_campaign_def and_then_Inr_iff)
  define per where "per = (case req_wave_size r of Some n \<Rightarrow> if n = 0 then length els else n | None \<Rightarrow> length els)"
  let ?ws = "map (\<lambda>i. take per (drop (i * per) els)) [0..<ceil_div (length els) per]"
  have ne: "els \<noteq> []" using resolve_elements_wf [OF assms(1,2) els] by simp
  then have per: "0 < per" by (auto simp: per_def split: option.split)
  have ans: "db' = db \<and> answer = Validated (ceil_div (length els) per) ?ws"
    using assms(3,4) els by (auto simp: create_software_campaign_def Let_def per_def)
  have "concat ?ws = els"
    using ceil_div_covers [OF per, of "length els"] by (simp add: concat_slices)
  moreover have "list_all (\<lambda>w. w \<noteq> [] \<and> length w \<le> per) ?ws"
    using per by (auto simp: list_all_iff dest!: ceil_div_below [OF per])
  ultimately show ?thesis
    using ans els by (intro conjI exI [of _ els] exI [of _ ?ws]) (simp_all add: per_def)
qed

theorem dry_run_plans_only_witness:
  "fst (projr (create_software_campaign 0 None (demo_request\<lparr>req_dry_run := True\<rparr>) demo_store)) = demo_store"
proof -
  have valid: "validated (demo_request\<lparr>req_dry_run := True\<rparr>) = Some (demo_request\<lparr>req_dry_run := True\<rparr>)" by code_simp
  have "case create_software_campaign 0 None (demo_request\<lparr>req_dry_run := True\<rparr>) demo_store of Inl _ \<Rightarrow> False | Inr _ \<Rightarrow> True"
    by code_simp
  then obtain db' answer where ok: "create_software_campaign 0 None (demo_request\<lparr>req_dry_run := True\<rparr>) demo_store = Inr (db', answer)"
    by (auto split: sum.splits)
  have "db' = demo_store"
    using dry_run_plans_only [OF _ valid _ ok] by (simp add: demo_store_def)
  with ok show ?thesis by simp
qed

text \<open>C25: No route of the module answers a 500 over the campaign state machine: in every reachable store, creating,
  continuing, halting, aborting and rolling back a campaign, reporting on a job and the sweep either succeed or
  answer one of the published error codes; a transition refused by the table never escapes.\<close>

theorem no_unhandled_transition:
  assumes "ran_reachable db" "validated r0 = Some r"
  shows "create_software_campaign now sc r db \<noteq> Inl (Unhandled m) \<and>
    continue_software_campaign now sc i by_whom force db \<noteq> Inl (Unhandled m) \<and>
    halt_software_campaign now sc i by_whom db \<noteq> Inl (Unhandled m) \<and>
    abort_software_campaign now sc i by_whom db \<noteq> Inl (Unhandled m) \<and>
    rollback_software_campaign now sc i by_whom db \<noteq> Inl (Unhandled m) \<and>
    snd (advance_software_job now sc stale i succeeded db) \<noteq> Inl (Unhandled m) \<and>
    (\<exists>out. advance_due now stale_ids db = Inr out)"
proof -
  note inv = reachable_inv [OF assms(1)]
  have bad: "\<not> sound (Inl (Unhandled m))" by (simp add: sound_def)
  have create: "create_software_campaign now sc r db \<noteq> Inl (Unhandled m)"
    using create_inv [OF inv assms(2), where now = now and sc = sc and m = m] by auto
  have advance: "snd (advance_software_job now sc stale i succeeded db) \<noteq> Inl (Unhandled m)"
    using advance_software_job_inv [OF inv, where now = now and sc = sc and stale = stale and i = i and succeeded = succeeded and m = m]
    by (cases "advance_software_job now sc stale i succeeded db") auto
  have sweep: "\<exists>out. advance_due now stale_ids db = Inr out"
    using advance_due_inv [OF inv, where now = now and stale_ids = stale_ids] by blast
  have "continue_software_campaign now sc i by_whom force db \<noteq> Inl (Unhandled m)"
      "halt_software_campaign now sc i by_whom db \<noteq> Inl (Unhandled m)"
      "abort_software_campaign now sc i by_whom db \<noteq> Inl (Unhandled m)"
      "rollback_software_campaign now sc i by_whom db \<noteq> Inl (Unhandled m)"
    using continue_sound [OF inv, where now = now and sc = sc and i = i and by_whom = by_whom and force = force]
      halt_sound [OF inv, where now = now and sc = sc and i = i and by_whom = by_whom]
      abort_sound [OF inv, where now = now and sc = sc and i = i and by_whom = by_whom]
      rollback_sound [OF inv, where now = now and sc = sc and i = i and by_whom = by_whom] bad
    by (metis)+
  with create advance sweep show ?thesis by blast
qed

theorem no_unhandled_transition_witness:
  "\<exists>out. advance_due 9 (\<lambda>_. False) demo_running = Inr out"
  using no_unhandled_transition [OF demo_running_reachable demo_validated] by blast

end
