(* ===== verification/Onboarding.thy ===== *)
theory Onboarding
  imports RanStore
begin

section \<open>Zero-touch onboarding of a new element (ran-nf-oam/app/lifecycle.py)\<close>

text \<open>
  Templates, the match of an element to a template, the baseline check, and the apply that writes the
  template as a configuration job. The dispatch of that job (\<open>main._execute_write\<close>) is the argument
  \<open>write\<close>: it answers how the job ended, was refused or crashed. A row is written back with
  \<open>put_onboarding\<close>; a handler that raises after its last commit leaves the store of that commit, so
  \<open>apply_template\<close> answers the store and the result separately.
\<close>

definition name_char :: "char \<Rightarrow> bool" where
  "name_char ch \<longleftrightarrow> alnum ch \<or> ch \<in> set ''._-''"

text \<open>\<open>_NAME.match\<close>: a letter or digit, then at most 99 of the class, and the \<open>$\<close> of Python also accepts a final newline.\<close>

definition valid_name :: "string \<Rightarrow> bool" where
  "valid_name s = (case s of [] \<Rightarrow> False | ch # rest \<Rightarrow>
     let body = (if rest \<noteq> [] \<and> last rest = CHR 0x0A then butlast rest else rest)
     in alnum ch \<and> length body \<le> 99 \<and> list_all name_char body)"

definition get_template :: "ran_store \<Rightarrow> string \<Rightarrow> onboarding_template option" where
  "get_template db n = row_where (\<lambda>t. template_key t = n) (templates db)"

definition template_or_404 :: "ran_store \<Rightarrow> string \<Rightarrow> http_error + onboarding_template" where
  "template_or_404 db n =
     (case (if valid_name n then get_template db n else None) of
        None \<Rightarrow> Inl ONBOARDING_TEMPLATE_NOT_FOUND | Some t \<Rightarrow> Inr t)"

text \<open>The body model of a template: the list bounds and \<open>_baseline_needed\<close>.\<close>

definition template_body_ok :: "onboarding_template \<Rightarrow> bool" where
  "template_body_ok t \<longleftrightarrow> template_changes t \<noteq> [] \<and> length (template_changes t) \<le> 200 \<and>
     template_entity_type t \<noteq> [] \<and> length (template_entity_type t) \<le> 100 \<and>
     (require_baseline t \<longrightarrow> template_baseline t \<noteq> None)"

definition put_onboarding_template :: "string \<Rightarrow> onboarding_template \<Rightarrow> ran_store \<Rightarrow> http_error + ran_store" where
  "put_onboarding_template n body db =
     (if \<not> valid_name n then Inl SCHEMA_VALIDATION_FAILED
      else let t = body\<lparr>template_key := n\<rparr>
           in Inr (if get_template db n = None then db\<lparr>templates := templates db @ [t]\<rparr>
                   else db\<lparr>templates := update_where (\<lambda>r. template_key r = n) (\<lambda>_. t) (templates db)\<rparr>))"

definition delete_onboarding_template :: "string \<Rightarrow> ran_store \<Rightarrow> http_error + ran_store" where
  "delete_onboarding_template n db =
     and_then (template_or_404 db n) (\<lambda>t.
       Inr (db\<lparr>templates := delete_where (\<lambda>r. template_key r = template_key t) (templates db)\<rparr>))"

subsection \<open>The match and the baseline\<close>

definition fits :: "managed_entity \<Rightarrow> onboarding_template \<Rightarrow> bool" where
  "fits me t \<longleftrightarrow> enabled t \<and> template_entity_type t = entity_type me \<and>
     (template_vendor t = None \<or> template_vendor t = vendor_name me)"

definition matching_template :: "ran_store \<Rightarrow> managed_entity \<Rightarrow> onboarding_template option" where
  "matching_template db me =
     (case sort_key (\<lambda>t. (template_vendor t = None, template_key t)) (filter (fits me) (templates db)) of
        [] \<Rightarrow> None | t # _ \<Rightarrow> Some t)"

definition check_baseline ::
  "seconds \<Rightarrow> onboarding_template option \<Rightarrow> string option \<Rightarrow> ran_store \<times> element_onboarding \<Rightarrow> ran_store \<times> element_onboarding" where
  "check_baseline now template version s = (case s of (db, row0) \<Rightarrow>
     let row1 = (case version of None \<Rightarrow> row0 | Some v \<Rightarrow> row0\<lparr>reported_version := Some v\<rparr>);
         row = row1\<lparr>software_baseline := (case template of None \<Rightarrow> None | Some t \<Rightarrow> template_baseline t)\<rparr>;
         ref = onboarded_ref row
     in case (software_baseline row, reported_version row) of
          (Some expected, Some runs) \<Rightarrow>
            if expected = runs then (db, row\<lparr>software_check := MATCH\<rparr>)
            else (raise_alarm now ref (''onboarding-software:'' @ ref) ''warning'' ''OPERATIONAL_VIOLATION''
                    ''SOFTWARE_BASELINE_MISMATCH'' (''runs '' @ runs @ '', the template expects '' @ expected) db,
                  row\<lparr>software_check := MISMATCH\<rparr>)
        | _ \<Rightarrow> (db, row\<lparr>software_check := NOT_CHECKED\<rparr>))"

definition choose_template :: "ran_store \<Rightarrow> managed_entity \<Rightarrow> string option \<Rightarrow> http_error + onboarding_template option" where
  "choose_template db me named =
     (case named of
        None \<Rightarrow> Inr (matching_template db me)
      | Some n \<Rightarrow> and_then (template_or_404 db n) (\<lambda>t.
          if template_entity_type t \<noteq> entity_type me then Inl SCHEMA_VALIDATION_FAILED else Inr (Some t)))"

definition select_for ::
  "seconds \<Rightarrow> managed_entity \<Rightarrow> string option \<Rightarrow> string option \<Rightarrow> ran_store \<times> element_onboarding
     \<Rightarrow> http_error + ran_store \<times> element_onboarding" where
  "select_for now me named version s = (case s of (db, row) \<Rightarrow>
     and_then (choose_template db me named) (\<lambda>template.
     and_then (or_conflict (fire ONBOARDING_FSM (onboarding_status row)
         (if template \<noteq> None then TEMPLATE_MATCHED else NO_MATCH) ())) (\<lambda>st.
       Inr (check_baseline now template version (db, row\<lparr>onboarding_status := st,
           template_name := map_option template_key template, config_job_id := None,
           onboarding_detail := (if template \<noteq> None then None
             else Some (''no enabled template for entity type '' @ entity_type me))\<rparr>)))))"

definition get_onboarding :: "ran_store \<Rightarrow> string \<Rightarrow> element_onboarding option" where
  "get_onboarding db ref = row_where (\<lambda>r. onboarded_ref r = ref) (onboardings db)"

definition put_onboarding :: "ran_store \<times> element_onboarding \<Rightarrow> ran_store" where
  "put_onboarding s = (case s of (db, row) \<Rightarrow>
     if get_onboarding db (onboarded_ref row) = None then db\<lparr>onboardings := onboardings db @ [row]\<rparr>
     else db\<lparr>onboardings := update_where (\<lambda>r. onboarded_ref r = onboarded_ref row) (\<lambda>_. row) (onboardings db)\<rparr>)"

definition fresh_onboarding :: "string \<Rightarrow> element_onboarding" where
  "fresh_onboarding ref = \<lparr>onboarded_ref = ref, onboarding_status = OnboardingState.DISCOVERED, template_name = None,
     reported_version = None, software_baseline = None, software_check = NOT_CHECKED, config_job_id = None,
     onboarding_detail = None\<rparr>"

text \<open>Within the registration's own transaction: no template defined, no row.\<close>

definition on_registered :: "seconds \<Rightarrow> managed_entity \<Rightarrow> string option \<Rightarrow> ran_store \<Rightarrow> http_error + ran_store" where
  "on_registered now me version db =
     (if \<not> list_ex enabled (templates db) then Inr db
      else and_then (select_for now me None version (db, fresh_onboarding (entity_ref me))) (\<lambda>s. Inr (put_onboarding s)))"

definition onboarding_or_404 :: "ran_store \<Rightarrow> scope option \<Rightarrow> string \<Rightarrow> http_error + element_onboarding" where
  "onboarding_or_404 db sc ref =
     (if denied_refs (entities db) sc [ref] \<noteq> [] then Inl SCOPE_DENIED
      else case get_onboarding db ref of None \<Rightarrow> Inl ELEMENT_ONBOARDING_NOT_FOUND | Some row \<Rightarrow> Inr row)"

definition select_template ::
  "seconds \<Rightarrow> scope option \<Rightarrow> string \<Rightarrow> string option \<Rightarrow> string option \<Rightarrow> ran_store \<Rightarrow> http_error + ran_store" where
  "select_template now sc ref named version db =
     (if denied_refs (entities db) sc [ref] \<noteq> [] then Inl SCOPE_DENIED
      else case get_entity db ref of
        None \<Rightarrow> Inl O1_ENDPOINT_NOT_FOUND
      | Some me \<Rightarrow>
          let row = (case get_onboarding db ref of None \<Rightarrow> fresh_onboarding ref | Some r \<Rightarrow> r)
          in and_then (select_for now me named version (db, row)) (\<lambda>s. Inr (put_onboarding s)))"

subsection \<open>Applying the template\<close>

text \<open>\<open>_fail\<close>: the caller's transaction is rolled back, the row as committed moves with APPLY_FAILED.\<close>

definition fail_onboarding :: "seconds \<Rightarrow> string \<Rightarrow> string \<Rightarrow> ran_store \<Rightarrow> http_error + ran_store" where
  "fail_onboarding now ref detail db =
     (case get_onboarding db ref of
        None \<Rightarrow> Inl (Unhandled ''InvalidRequestError'')
      | Some row \<Rightarrow>
          and_then (uncaught (fire ONBOARDING_FSM (onboarding_status row) APPLY_FAILED ())) (\<lambda>st.
            let row' = row\<lparr>onboarding_status := st, onboarding_detail := Some (take 1000 detail)\<rparr>;
                db1 = raise_alarm now ref (''onboarding:'' @ ref) ''major'' ''PROCESSING_ERROR_ALARM''
                        ''ONBOARDING_FAILED'' (take 200 detail) db;
                db2 = notify_lifecycle now ''ONBOARDING_FAILED''
                        [(''managedElementRef'', JStr ref),
                         (''templateName'', (case template_name row' of None \<Rightarrow> JNull | Some n \<Rightarrow> JStr n)),
                         (''configJobId'', (case config_job_id row' of None \<Rightarrow> JNull | Some i \<Rightarrow> JInt (int i))),
                         (''detail'', JStr (take 1000 detail))] db1
            in Inr (put_onboarding (db2, row'))))"

text \<open>How the configuration job of an apply ends.\<close>

datatype write_outcome =
    WriteRefused string "string option"
  | WriteCrashed string
  | WriteCompleted uid
  | WriteEnded uid string "(string \<times> string) option"

definition apply_template ::
  "seconds \<Rightarrow> (onboarding_template \<Rightarrow> string \<Rightarrow> write_outcome) \<Rightarrow> string option \<Rightarrow> element_onboarding \<Rightarrow> ran_store
     \<Rightarrow> ran_store \<times> (http_error + unit)" where
  "apply_template now write version row db =
     (let ref = onboarded_ref row;
          closing = (\<lambda>detail answer db'. case fail_onboarding now ref detail db' of
                       Inl err \<Rightarrow> (db', Inl err) | Inr db'' \<Rightarrow> (db'', answer))
      in case or_conflict (fire ONBOARDING_FSM (onboarding_status row) APPLY ()) of
           Inl err \<Rightarrow> (db, Inl err)
         | Inr st \<Rightarrow>
             (case (case or_none (template_name row) of None \<Rightarrow> None | Some n \<Rightarrow> get_template db n) of
                None \<Rightarrow> (db, Inl ONBOARDING_TEMPLATE_NOT_FOUND)
              | Some template \<Rightarrow>
                  let (db1, row1) = check_baseline now (Some template) version (db, row\<lparr>onboarding_status := st\<rparr>);
                      row2 = row1\<lparr>onboarding_detail := None, config_job_id := None\<rparr>;
                      applying = put_onboarding (db1, row2)
                  in if require_baseline template \<and> software_check row2 \<noteq> MATCH
                     then closing (''SOFTWARE_BASELINE_MISMATCH: the template requires ''
                            @ (case template_baseline template of None \<Rightarrow> ''None'' | Some b \<Rightarrow> b) @ '', the element runs ''
                            @ (case or_none (reported_version row2) of None \<Rightarrow> ''not reported'' | Some v \<Rightarrow> v)) (Inr ()) applying
                     else (case write template ref of
                         WriteRefused t why \<Rightarrow>
                           closing (''the configuration was refused ('' @ t @ '')''
                              @ (case or_none why of None \<Rightarrow> [] | Some w \<Rightarrow> '': '' @ w)) (Inr ()) applying
                       | WriteCrashed exc \<Rightarrow>
                           closing (''internal error while writing the configuration ('' @ exc @ '')'') (Inl (Unhandled exc)) applying
                       | WriteCompleted i \<Rightarrow>
                           (case uncaught (fire ONBOARDING_FSM (onboarding_status row2) APPLIED ()) of
                              Inl err \<Rightarrow> (applying, Inl err)
                            | Inr st' \<Rightarrow> (put_onboarding (applying, row2\<lparr>config_job_id := Some i, onboarding_status := st'\<rparr>), Inr ()))
                       | WriteEnded i outcome rejected \<Rightarrow>
                           closing (''config job '' @ str i @ '' ended '' @ outcome
                              @ (case rejected of None \<Rightarrow> [] | Some (what, why) \<Rightarrow> '': '' @ what @ '': '' @ why)) (Inr ())
                             (put_onboarding (applying, row2\<lparr>config_job_id := Some i\<rparr>)))))"

definition apply_element_template ::
  "seconds \<Rightarrow> (onboarding_template \<Rightarrow> string \<Rightarrow> write_outcome) \<Rightarrow> scope option \<Rightarrow> string \<Rightarrow> string option \<Rightarrow> ran_store
     \<Rightarrow> ran_store \<times> (http_error + unit)" where
  "apply_element_template now write sc ref version db =
     (case onboarding_or_404 db sc ref of Inl err \<Rightarrow> (db, Inl err) | Inr row \<Rightarrow> apply_template now write version row db)"

text \<open>The first heartbeat applies an automatic template and never fails itself.\<close>

definition on_first_heartbeat ::
  "seconds \<Rightarrow> (onboarding_template \<Rightarrow> string \<Rightarrow> write_outcome) \<Rightarrow> string \<Rightarrow> ran_store \<Rightarrow> ran_store" where
  "on_first_heartbeat now write ref db =
     (case get_onboarding db ref of
        None \<Rightarrow> db
      | Some row \<Rightarrow>
          if onboarding_status row \<noteq> TEMPLATE_SELECTED then db
          else (case (case or_none (template_name row) of None \<Rightarrow> None | Some n \<Rightarrow> get_template db n) of
                  None \<Rightarrow> db
                | Some t \<Rightarrow> if \<not> auto_apply t \<or> \<not> enabled t then db else fst (apply_template now write None row db)))"

subsection \<open>Rows and transitions\<close>

lemma onboarding_fire [simp]:
  "fire ONBOARDING_FSM APPLYING APPLY_FAILED c = Inr (OnboardingState.FAILED, c)"
  "fire ONBOARDING_FSM APPLYING APPLIED c = Inr (ONBOARDED, c)"
  by (simp_all add: fire_first_passing fsm_tables)

lemma apply_fires: "or_conflict (fire ONBOARDING_FSM s APPLY ()) = Inr t \<Longrightarrow> t = APPLYING"
  by (cases s) (simp_all add: fire_first_passing fsm_tables)

lemma row_where_put:
  "(\<And>r. P r \<Longrightarrow> P (f r)) \<Longrightarrow> row_where P (update_where P f rows) = map_option f (row_where P rows)"
  by (induction rows) (auto simp: row_where_def update_where_def)

lemma row_where_update_other:
  "(\<And>r. Q r \<Longrightarrow> \<not> P r \<and> \<not> P (f r)) \<Longrightarrow> row_where P (update_where Q f rows) = row_where P rows"
  by (induction rows) (auto simp: row_where_def update_where_def)

lemma row_where_append: "row_where P (xs @ ys) = (case row_where P xs of None \<Rightarrow> row_where P ys | Some r \<Rightarrow> Some r)"
  by (induction xs) (auto simp: row_where_def)

lemma get_put_onboarding [simp]:
  "get_onboarding (put_onboarding (db, row)) ref = (if ref = onboarded_ref row then Some row else get_onboarding db ref)"
proof (cases "ref = onboarded_ref row")
  case True
  show ?thesis
  proof (cases "get_onboarding db ref")
    case None
    then have "row_where (\<lambda>r. onboarded_ref r = ref) (onboardings db @ [row]) = Some row"
      using True by (simp add: get_onboarding_def row_where_append) (simp add: row_where_def)
    with None True show ?thesis by (simp add: put_onboarding_def get_onboarding_def)
  next
    case (Some old)
    then have "row_where (\<lambda>r. onboarded_ref r = ref) (update_where (\<lambda>r. onboarded_ref r = ref) (\<lambda>_. row) (onboardings db)) = Some row"
      using True by (subst row_where_put) (auto simp: get_onboarding_def)
    with Some True show ?thesis by (simp add: put_onboarding_def get_onboarding_def)
  qed
next
  case False
  have "row_where (\<lambda>r. onboarded_ref r = ref) (onboardings db @ [row]) = row_where (\<lambda>r. onboarded_ref r = ref) (onboardings db)"
    using False by (simp add: row_where_append split: option.split) (simp add: row_where_def)
  moreover have "row_where (\<lambda>r. onboarded_ref r = ref) (update_where (\<lambda>r. onboarded_ref r = onboarded_ref row) (\<lambda>_. row) (onboardings db))
      = row_where (\<lambda>r. onboarded_ref r = ref) (onboardings db)"
    using False by (intro row_where_update_other) auto
  ultimately show ?thesis using False by (simp add: put_onboarding_def get_onboarding_def)
qed

definition standing_alarm :: "ran_store \<Rightarrow> string \<Rightarrow> string \<Rightarrow> bool" where
  "standing_alarm db ref source \<longleftrightarrow>
     (\<exists>a \<in> set (alarms db). source_alarm_id a = source \<and> alarm_element a = ref \<and> severity a \<noteq> ''cleared'')"

lemma raise_alarm_stands: "sev \<noteq> ''cleared'' \<Longrightarrow> standing_alarm (raise_alarm now ref source sev kind cause problem db) ref source"
  by (auto simp: raise_alarm_def standing_alarm_def row_where_None split: if_splits)

lemma put_onboarding_alarms [simp]: "alarms (put_onboarding (db, row)) = alarms db"
  by (simp add: put_onboarding_def)

lemma notify_onboardings [simp]: "get_onboarding (notify_lifecycle now ev members db) ref = get_onboarding db ref"
  by (simp add: notify_lifecycle_def get_onboarding_def)

lemma raise_alarm_onboardings [simp]: "get_onboarding (raise_alarm now r src sev kind cause problem db) ref = get_onboarding db ref"
  by (simp add: raise_alarm_def get_onboarding_def)

lemma fail_onboarding_applying:
  assumes "get_onboarding db ref = Some row" "onboarding_status row = APPLYING"
  shows "\<exists>db' row'. fail_onboarding now ref detail db = Inr db' \<and> get_onboarding db' ref = Some row' \<and>
    onboarding_status row' = OnboardingState.FAILED \<and> standing_alarm db' ref (''onboarding:'' @ ref)"
proof -
  have "onboarded_ref row = ref" using assms(1) by (auto simp: get_onboarding_def dest: row_where_SomeD)
  then show ?thesis
    using assms raise_alarm_stands [of "''major''" now ref "''onboarding:'' @ ref"]
    by (simp add: fail_onboarding_def Let_def standing_alarm_def)
qed

lemma check_baseline_row:
  "check_baseline now t v (db, row) = (db', row') \<Longrightarrow> onboarded_ref row' = onboarded_ref row \<and>
     onboarding_status row' = onboarding_status row \<and> template_name row' = template_name row"
  by (auto simp: check_baseline_def Let_def split: option.splits if_splits)

subsection \<open>The claims\<close>

text \<open>C39: An onboarding never stays half applied: applying a template either changes nothing and answers a conflict or
  a missing template, or leaves the element's row ONBOARDED or FAILED, and FAILED only with an uncleared alarm for
  it, however the configuration job ends, crashes included.\<close>

theorem apply_always_settles:
  assumes "get_onboarding db ref = Some row" "apply_template now write version row db = (db', answer)"
  shows "db' = db \<and> answer \<in> {Inl illegal_transition_error, Inl ONBOARDING_TEMPLATE_NOT_FOUND} \<or>
    (\<exists>row'. get_onboarding db' ref = Some row' \<and> (onboarding_status row' = ONBOARDED \<or>
       onboarding_status row' = OnboardingState.FAILED \<and> standing_alarm db' ref (''onboarding:'' @ ref)))"
proof (cases "or_conflict (fire ONBOARDING_FSM (onboarding_status row) APPLY ())")
  case (Inl err)
  then have "err = illegal_transition_error" by (auto simp: or_conflict_def split: sum.splits prod.splits)
  with Inl assms(2) show ?thesis by (simp add: apply_template_def Let_def)
next
  case (Inr st)
  then have st: "st = APPLYING" by (rule apply_fires)
  have ref: "onboarded_ref row = ref" using assms(1) by (auto simp: get_onboarding_def dest: row_where_SomeD)
  show ?thesis
  proof (cases "case or_none (template_name row) of None \<Rightarrow> None | Some n \<Rightarrow> get_template db n")
    case None
    with Inr assms(2) show ?thesis by (simp add: apply_template_def Let_def)
  next
    case (Some template)
    obtain db1 row1 where base: "check_baseline now (Some template) version (db, row\<lparr>onboarding_status := st\<rparr>) = (db1, row1)"
      by fastforce
    let ?row2 = "row1\<lparr>onboarding_detail := None, config_job_id := None\<rparr>"
    let ?applying = "put_onboarding (db1, ?row2)"
    have row2: "onboarded_ref ?row2 = ref" "onboarding_status ?row2 = APPLYING"
      using check_baseline_row [OF base] ref st by simp_all
    have closes: "\<exists>row'. get_onboarding db' ref = Some row' \<and> (onboarding_status row' = ONBOARDED \<or>
        onboarding_status row' = OnboardingState.FAILED \<and> standing_alarm db' ref (''onboarding:'' @ ref))"
      if "(case fail_onboarding now ref detail d of Inl err \<Rightarrow> (d, Inl err) | Inr d'' \<Rightarrow> (d'', ans)) = (db', answer)"
        "get_onboarding d ref = Some r" "onboarding_status r = APPLYING" for d r detail ans
      using fail_onboarding_applying [OF that(2,3), of now detail] that(1) by auto
    have at: "get_onboarding ?applying ref = Some ?row2"
      "\<And>i. get_onboarding (put_onboarding (?applying, ?row2\<lparr>config_job_id := Some i\<rparr>)) ref = Some (?row2\<lparr>config_job_id := Some i\<rparr>)"
      using row2 by simp_all
    note unfolded = assms(2) [unfolded apply_template_def Let_def ref Inr sum.case Some option.case base prod.case]
    show ?thesis
    proof (cases "require_baseline template \<and> software_check ?row2 \<noteq> MATCH")
      case True
      have "\<exists>detail ans. (case fail_onboarding now ref detail ?applying of Inl err \<Rightarrow> (?applying, Inl err) | Inr d'' \<Rightarrow> (d'', ans)) = (db', answer)"
        using unfolded unfolding if_P [OF True] by blast
      with closes [OF _ at(1) row2(2)] show ?thesis by blast
    next
      case False
      note unfolded = unfolded [unfolded if_not_P [OF False]]
      show ?thesis
      proof (cases "write template ref")
        case (WriteRefused t why)
        have "\<exists>detail ans. (case fail_onboarding now ref detail ?applying of Inl err \<Rightarrow> (?applying, Inl err) | Inr d'' \<Rightarrow> (d'', ans)) = (db', answer)"
          using unfolded unfolding WriteRefused write_outcome.case by blast
        with closes [OF _ at(1) row2(2)] show ?thesis by blast
      next
        case (WriteCrashed exc)
        have "\<exists>detail ans. (case fail_onboarding now ref detail ?applying of Inl err \<Rightarrow> (?applying, Inl err) | Inr d'' \<Rightarrow> (d'', ans)) = (db', answer)"
          using unfolded unfolding WriteCrashed write_outcome.case by blast
        with closes [OF _ at(1) row2(2)] show ?thesis by blast
      next
        case (WriteCompleted i)
        with row2 unfolded show ?thesis by auto
      next
        case (WriteEnded i outcome rejected)
        let ?kept = "put_onboarding (?applying, ?row2\<lparr>config_job_id := Some i\<rparr>)"
        have "\<exists>detail ans. (case fail_onboarding now ref detail ?kept of Inl err \<Rightarrow> (?kept, Inl err) | Inr d'' \<Rightarrow> (d'', ans)) = (db', answer)"
          using unfolded unfolding WriteEnded write_outcome.case by blast
        moreover have "onboarding_status (?row2\<lparr>config_job_id := Some i\<rparr>) = APPLYING" using row2(2) by simp
        ultimately show ?thesis using closes [OF _ at(2)] by blast
      qed
    qed
  qed
qed

definition demo_row :: element_onboarding where
  "demo_row = (fresh_onboarding ''ru1'')\<lparr>onboarding_status := TEMPLATE_SELECTED, template_name := Some ''t''\<rparr>"

definition demo_template :: onboarding_template where
  "demo_template = \<lparr>template_key = ''t'', template_description = None, template_entity_type = ''RU'', template_vendor = None,
     template_baseline = Some ''2.0'', require_baseline = True, auto_apply = False, enabled = True,
     template_changes = [\<lparr>change_function_ref = None, change_attributes = [], change_operation = ''merge''\<rparr>]\<rparr>"

definition demo_onboarding_store :: ran_store where
  "demo_onboarding_store = \<lparr>entities = [], endpoints = [], vendors = [], software_jobs = [], campaigns = [],
     alarms = [], subscriptions = [], outbox = [], templates = [demo_template], onboardings = [demo_row]\<rparr>"

lemma demo_row_stored: "get_onboarding demo_onboarding_store ''ru1'' = Some demo_row"
  by (simp add: get_onboarding_def demo_onboarding_store_def demo_row_def fresh_onboarding_def row_where_def)

theorem apply_always_settles_witness:
  "\<exists>row'. get_onboarding (fst (apply_template 0 (\<lambda>_ _. WriteCrashed ''KeyError'') (Some ''2.0'') demo_row demo_onboarding_store)) ''ru1'' = Some row'"
  using apply_always_settles [OF demo_row_stored, of 0 "\<lambda>_ _. WriteCrashed ''KeyError''" "Some ''2.0''"] demo_row_stored
  by (cases "apply_template 0 (\<lambda>_ _. WriteCrashed ''KeyError'') (Some ''2.0'') demo_row demo_onboarding_store") auto

text \<open>A required software baseline is enforced before anything is written: when the template requires a baseline
  and the element is not known to run exactly that version, the apply answers the same whatever writing the
  configuration would do, and the element ends FAILED.\<close>

theorem required_baseline_blocks_write:
  assumes "get_onboarding db ref = Some row" "onboarding_status row \<in> {TEMPLATE_SELECTED, ONBOARDED, OnboardingState.FAILED}"
    "template_name row = Some n" "n \<noteq> []" "get_template db n = Some template" "require_baseline template"
    "template_baseline template = None \<or>
     (case version of None \<Rightarrow> reported_version row | Some v \<Rightarrow> Some v) \<noteq> template_baseline template"
  shows "apply_template now write version row db = apply_template now write' version row db \<and>
    (\<exists>row'. get_onboarding (fst (apply_template now write version row db)) ref = Some row' \<and>
       onboarding_status row' = OnboardingState.FAILED)"
proof -
  have fired: "or_conflict (fire ONBOARDING_FSM (onboarding_status row) APPLY ()) = Inr APPLYING"
    using assms(2) by (auto simp: fire_first_passing fsm_tables)
  have named: "or_none (template_name row) = Some n" using assms(3,4) by simp
  obtain db1 row1 where base: "check_baseline now (Some template) version (db, row\<lparr>onboarding_status := APPLYING\<rparr>) = (db1, row1)"
    by fastforce
  then have "software_check row1 \<noteq> MATCH"
    using assms(7) by (auto simp: check_baseline_def Let_def split: option.splits if_splits)
  then have stop: "require_baseline template \<and> software_check (row1\<lparr>onboarding_detail := None, config_job_id := None\<rparr>) \<noteq> MATCH"
    using assms(6) by simp
  have ref: "onboarded_ref row = ref" using assms(1) by (auto simp: get_onboarding_def dest: row_where_SomeD)
  let ?row2 = "row1\<lparr>onboarding_detail := None, config_job_id := None\<rparr>"
  let ?detail = "''SOFTWARE_BASELINE_MISMATCH: the template requires ''
      @ (case template_baseline template of None \<Rightarrow> ''None'' | Some b \<Rightarrow> b) @ '', the element runs ''
      @ (case or_none (reported_version ?row2) of None \<Rightarrow> ''not reported'' | Some v \<Rightarrow> v)"
  have eq: "apply_template now w version row db =
      (case fail_onboarding now ref ?detail (put_onboarding (db1, ?row2)) of
         Inl err \<Rightarrow> (put_onboarding (db1, ?row2), Inl err) | Inr db'' \<Rightarrow> (db'', Inr ()))" for w
    by (simp only: apply_template_def Let_def ref fired sum.case named option.case assms(5) base prod.case if_P [OF stop])
  have "get_onboarding (put_onboarding (db1, ?row2)) ref = Some ?row2" "onboarding_status ?row2 = APPLYING"
    using check_baseline_row [OF base] ref by simp_all
  from fail_onboarding_applying [OF this, of now ?detail] show ?thesis
    unfolding eq by auto
qed

theorem required_baseline_blocks_write_witness:
  "apply_template 0 (\<lambda>_ _. WriteCompleted 1) (Some ''1.0'') demo_row demo_onboarding_store =
   apply_template 0 (\<lambda>_ _. WriteCrashed ''x'') (Some ''1.0'') demo_row demo_onboarding_store"
  by (rule required_baseline_blocks_write [OF demo_row_stored, THEN conjunct1, of "''t''" demo_template])
     (simp_all add: demo_row_def demo_onboarding_store_def demo_template_def get_template_def row_where_def)

lemma sort_key_hd:
  assumes "sort_key f xs = y # ys"
  shows "y \<in> set xs \<and> (\<forall>x \<in> set xs. f y \<le> f x)"
proof -
  have "set (y # ys) = set xs" using assms by (metis set_sort)
  moreover have "sorted (map f (y # ys))" using assms by (metis sorted_sort_key)
  ultimately show ?thesis by auto
qed

text \<open>The most specific template wins: the template matched to an element is enabled, is for the element's type, names
  its vendor or none, and names the vendor whenever any fitting template does; there is none only when none fits.\<close>

theorem most_specific_template:
  "case matching_template db me of
     None \<Rightarrow> \<not> (\<exists>t \<in> set (templates db). fits me t)
   | Some t \<Rightarrow> t \<in> set (templates db) \<and> fits me t \<and>
       ((\<exists>u \<in> set (templates db). fits me u \<and> template_vendor u \<noteq> None) \<longrightarrow> template_vendor t = vendor_name me \<and> template_vendor t \<noteq> None)"
proof (cases "sort_key (\<lambda>t. (template_vendor t = None, template_key t)) (filter (fits me) (templates db))")
  case Nil
  then have "set (filter (fits me) (templates db)) = {}" by (metis set_sort set_empty)
  with Nil show ?thesis by (auto simp: matching_template_def)
next
  case (Cons t ts)
  from sort_key_hd [OF Cons] have t: "t \<in> set (templates db)" "fits me t"
      "\<And>u. u \<in> set (templates db) \<Longrightarrow> fits me u \<Longrightarrow> (template_vendor t = None, template_key t) \<le> (template_vendor u = None, template_key u)"
    by auto
  have named: "template_vendor t \<noteq> None" if "u \<in> set (templates db)" "fits me u" "template_vendor u \<noteq> None" for u
    using t(3) [OF that(1,2)] that(3) by (auto simp: less_eq_prod_def)
  have matched: "matching_template db me = Some t" by (simp add: matching_template_def Cons)
  have "template_vendor t = vendor_name me \<and> template_vendor t \<noteq> None"
    if "\<exists>u \<in> set (templates db). fits me u \<and> template_vendor u \<noteq> None"
  proof -
    from that named have some: "template_vendor t \<noteq> None" by blast
    then show ?thesis using t(2) unfolding fits_def by metis
  qed
  then have spec: "t \<in> set (templates db) \<and> fits me t \<and>
      ((\<exists>u \<in> set (templates db). fits me u \<and> template_vendor u \<noteq> None) \<longrightarrow> template_vendor t = vendor_name me \<and> template_vendor t \<noteq> None)"
    using t(1,2) by blast
  show ?thesis unfolding matched option.case by (rule spec)
qed

definition demo_element_row :: managed_entity where
  "demo_element_row = \<lparr>entity_ref = ''ru1'', entity_type = template_entity_type demo_template, vendor_name = template_vendor demo_template, entity_protocol = ''NETCONF'',
     entity_region = None, entity_tenant = None, entity_endpoint_id = None\<rparr>"

theorem most_specific_template_witness: "\<exists>t. matching_template demo_onboarding_store demo_element_row = Some t \<and> fits demo_element_row t"
proof -
  have "fits demo_element_row demo_template" "demo_template \<in> set (templates demo_onboarding_store)"
    by (simp_all add: fits_def demo_element_row_def demo_template_def demo_onboarding_store_def)
  then show ?thesis using most_specific_template [of demo_onboarding_store demo_element_row] by (auto split: option.splits)
qed

end
