(* ===== verification/AuditTrail.thy ===== *)
theory AuditTrail
  imports SmoPrelude
begin

section \<open>The tamper-evident audit log (shared/smo\_shared/audit.py)\<close>

text \<open>
  A row hashes its own fields and the hash of the row before; the head names the last row. SHA-256 over
  the serialised body is the argument \<open>digest\<close>, a function of the JSON object with its keys in
  order; the object has every column but the hash, so two rows with the same object differ at most in
  their stored hash. The rows of the table are kept in \<open>seq\<close> order, as \<open>verify\<close> reads them.
\<close>

record audit_entry =
  seq :: nat
  audit_id :: uid
  occurred_at :: seconds
  actor :: string
  actor_role :: "string option"
  action_name :: string
  target :: string
  result :: string
  correlation_id :: "string option"
  detail :: "json option"
  prev_hash :: string
  entry_hash :: string

record audit_head =
  last_seq :: nat
  last_hash :: string

record audit_db =
  audit_log :: "audit_entry list"
  head_row :: "audit_head option"

definition GENESIS :: string where "GENESIS = replicate 64 (CHR ''0'')"

definition text_or_null :: "string option \<Rightarrow> json" where
  "text_or_null v = (case v of None \<Rightarrow> JNull | Some s \<Rightarrow> JStr s)"

text \<open>The body with sorted keys. A detail of \<open>null\<close> cannot be told from no detail, as in JSON.\<close>

definition body :: "audit_entry \<Rightarrow> json" where
  "body e = JObject [(''action'', JStr (action_name e)), (''actor'', JStr (actor e)), (''actor_role'', text_or_null (actor_role e)),
     (''audit_id'', JInt (int (audit_id e))), (''correlation_id'', text_or_null (correlation_id e)),
     (''detail'', (case detail e of None \<Rightarrow> JNull | Some d \<Rightarrow> d)), (''occurred_at'', JInt (occurred_at e)),
     (''prev_hash'', JStr (prev_hash e)), (''result'', JStr (result e)), (''seq'', JInt (int (seq e))), (''target'', JStr (target e))]"

definition compute_hash :: "(json \<Rightarrow> string) \<Rightarrow> audit_entry \<Rightarrow> string" where
  "compute_hash digest e = digest (body e)"

definition locked_head :: "audit_db \<Rightarrow> audit_head" where
  "locked_head db = (case head_row db of None \<Rightarrow> \<lparr>last_seq = 0, last_hash = GENESIS\<rparr> | Some h \<Rightarrow> h)"

record audit_fields =
  f_actor :: string
  f_action :: string
  f_target :: string
  f_result :: string
  f_role :: "string option"
  f_correlation :: "string option"
  f_detail :: "json option"

text \<open>\<open>record\<close>; \<open>i\<close> is the fresh id, \<open>now\<close> the clock.\<close>

definition record_entry :: "(json \<Rightarrow> string) \<Rightarrow> uid \<Rightarrow> seconds \<Rightarrow> audit_fields \<Rightarrow> audit_db \<Rightarrow> audit_db" where
  "record_entry digest i now f db =
     (let head = locked_head db;
          e0 = \<lparr>seq = last_seq head + 1, audit_id = i, occurred_at = now, actor = f_actor f, actor_role = f_role f,
                action_name = upper (f_action f), target = f_target f, result = f_result f,
                correlation_id = f_correlation f, detail = f_detail f, prev_hash = last_hash head, entry_hash = []\<rparr>;
          e = e0\<lparr>entry_hash := compute_hash digest e0\<rparr>
      in db\<lparr>audit_log := audit_log db @ [e], head_row := Some \<lparr>last_seq = seq e, last_hash = entry_hash e\<rparr>\<rparr>)"

datatype audit_problem =
    RowMissing nat nat
  | PrevHashMismatch nat
  | RowChanged nat
  | HeadMissing nat
  | HeadMismatch nat nat

text \<open>The loop of \<open>verify\<close>: the state is \<open>expected_seq\<close>, \<open>previous\<close> and the hash of the row the first head named.\<close>

fun check_rows ::
  "(json \<Rightarrow> string) \<Rightarrow> nat \<Rightarrow> nat \<times> string \<times> string option \<Rightarrow> audit_entry list \<Rightarrow> audit_problem + nat \<times> string \<times> string option" where
  "check_rows digest first_seq st [] = Inr st"
| "check_rows digest first_seq (expected, previous, at) (e # es) =
     (if seq e \<noteq> expected then Inl (RowMissing expected (seq e))
      else if prev_hash e \<noteq> previous then Inl (PrevHashMismatch (seq e))
      else if compute_hash digest e \<noteq> entry_hash e then Inl (RowChanged (seq e))
      else check_rows digest first_seq
             (seq e + 1, entry_hash e, if seq e = first_seq then Some (entry_hash e) else at) es)"

text \<open>The head before the rows, the rows, and the head after them: three reads a writer may come between.\<close>

definition verify :: "(json \<Rightarrow> string) \<Rightarrow> audit_head option \<Rightarrow> audit_entry list \<Rightarrow> audit_head option \<Rightarrow> audit_problem option" where
  "verify digest first rows head_after =
     (let (first_seq, first_hash) = (case first of None \<Rightarrow> (0, GENESIS) | Some h \<Rightarrow> (last_seq h, last_hash h))
      in case check_rows digest first_seq (1, GENESIS, if first_seq = 0 then Some GENESIS else None) rows of
           Inl problem \<Rightarrow> Some problem
         | Inr (expected, previous, at) \<Rightarrow>
             let ends = expected - 1
             in (case head_after of
                   None \<Rightarrow> if ends = 0 then None else Some (HeadMissing ends)
                 | Some h \<Rightarrow>
                     if \<not> (first_seq \<le> ends \<and> ends \<le> last_seq h) \<or> at \<noteq> Some first_hash \<or>
                        (ends = last_seq h \<and> last_hash h \<noteq> previous)
                     then Some (HeadMismatch ends (last_seq h)) else None))"

text \<open>\<open>write_audit\<close>: at most three attempts; \<open>outcome\<close> says how attempt \<open>k\<close> at committing ends.\<close>

datatype commit_outcome = Committed | NumberTaken | OtherFailure

function write_attempts :: "(nat \<Rightarrow> commit_outcome) \<Rightarrow> nat \<Rightarrow> nat option" where
  "write_attempts outcome attempt =
     (case outcome attempt of
        Committed \<Rightarrow> Some attempt
      | NumberTaken \<Rightarrow> if attempt \<ge> 2 then None else write_attempts outcome (attempt + 1)
      | OtherFailure \<Rightarrow> None)"
  by auto

termination
  by (relation "measure (\<lambda>(outcome, attempt). 3 - attempt)") auto

declare write_attempts.simps [simp del]

definition write_audit :: "(json \<Rightarrow> string) \<Rightarrow> (nat \<Rightarrow> commit_outcome) \<Rightarrow> uid \<Rightarrow> seconds \<Rightarrow> audit_fields \<Rightarrow> audit_db \<Rightarrow> audit_db \<times> bool" where
  "write_audit digest outcome i now f db =
     (case write_attempts outcome 0 of None \<Rightarrow> (db, False) | Some _ \<Rightarrow> (record_entry digest i now f db, True))"

definition audit_enabled :: "string option \<Rightarrow> bool" where
  "audit_enabled setting =
     (lower (strip (case setting of None \<Rightarrow> ''on'' | Some s \<Rightarrow> s)) \<notin> {''off'', ''false'', ''0'', ''no''})"

text \<open>\<open>export\<close>: the rows after \<open>since\<close>, then the anchor.\<close>

definition export_rows :: "nat \<Rightarrow> audit_db \<Rightarrow> audit_entry list \<times> audit_head" where
  "export_rows since db = (filter (\<lambda>e. seq e > since) (audit_log db), locked_head db)"

subsection \<open>A chain is intact from the genesis to its head\<close>

text \<open>What the loop accepts, from a row number and the hash before it.\<close>

fun chained :: "(json \<Rightarrow> string) \<Rightarrow> nat \<Rightarrow> string \<Rightarrow> audit_entry list \<Rightarrow> bool" where
  "chained digest n previous [] = True"
| "chained digest n previous (e # es) =
     (seq e = n \<and> prev_hash e = previous \<and> compute_hash digest e = entry_hash e \<and> chained digest (Suc n) (entry_hash e) es)"

fun end_hash :: "string \<Rightarrow> audit_entry list \<Rightarrow> string" where
  "end_hash previous [] = previous"
| "end_hash previous (e # es) = end_hash (entry_hash e) es"

lemma end_hash_append: "end_hash p (xs @ ys) = end_hash (end_hash p xs) ys"
  by (induction xs arbitrary: p) auto

lemma chained_append:
  "chained digest n p (xs @ ys) \<longleftrightarrow> chained digest n p xs \<and> chained digest (n + length xs) (end_hash p xs) ys"
  by (induction xs arbitrary: n p) auto

text \<open>The hash of row number \<open>k\<close>, the genesis for 0.\<close>

definition hash_at :: "audit_entry list \<Rightarrow> nat \<Rightarrow> string" where
  "hash_at rows k = end_hash GENESIS (take k rows)"

lemma check_rows_chained:
  "check_rows digest fs (n, p, at) rows = Inr (m, q, at') \<longleftrightarrow>
     chained digest n p rows \<and> m = n + length rows \<and> q = end_hash p rows \<and>
     at' = (if n \<le> fs \<and> fs < n + length rows then Some (end_hash p (take (Suc fs - n) rows)) else at)"
proof (induction rows arbitrary: n p at)
  case (Cons e es)
  have drop1: "take (Suc fs - n) (e # es) = (if n \<le> fs then e # take (fs - n) es else [])"
    by (auto simp: Suc_diff_le)
  show ?case
    by (auto simp: Cons drop1)
qed auto

lemma check_rows_error: "\<not> chained digest n p rows \<Longrightarrow> \<exists>problem. check_rows digest fs (n, p, at) rows = Inl problem"
  by (cases "check_rows digest fs (n, p, at) rows") (auto simp: check_rows_chained split_paired_all)

lemma verify_None:
  "verify digest (Some a) rows (Some b) = None \<longleftrightarrow>
     chained digest 1 GENESIS rows \<and> last_seq a \<le> length rows \<and> length rows \<le> last_seq b \<and>
     last_hash a = hash_at rows (last_seq a) \<and> (length rows = last_seq b \<longrightarrow> last_hash b = hash_at rows (length rows))"
proof (cases "chained digest 1 GENESIS rows")
  case True
  then have "check_rows digest (last_seq a) (1, GENESIS, if last_seq a = 0 then Some GENESIS else None) rows =
      Inr (1 + length rows, end_hash GENESIS rows,
        if 1 \<le> last_seq a \<and> last_seq a < 1 + length rows then Some (end_hash GENESIS (take (last_seq a) rows))
        else if last_seq a = 0 then Some GENESIS else None)"
    by (simp add: check_rows_chained)
  with True show ?thesis by (auto simp: verify_def hash_at_def Let_def split: if_splits)
next
  case False
  then show ?thesis
    using check_rows_error [OF False, of "last_seq a" "if last_seq a = 0 then Some GENESIS else None"]
    by (auto simp: verify_def)
qed

subsection \<open>Every sequence of records keeps the chain\<close>

fun record_all :: "(json \<Rightarrow> string) \<Rightarrow> (uid \<times> seconds \<times> audit_fields) list \<Rightarrow> audit_db \<Rightarrow> audit_db" where
  "record_all digest [] db = db"
| "record_all digest ((i, now, f) # fs) db = record_all digest fs (record_entry digest i now f db)"

definition empty_log :: audit_db where
  "empty_log = \<lparr>audit_log = [], head_row = None\<rparr>"

definition intact :: "(json \<Rightarrow> string) \<Rightarrow> audit_db \<Rightarrow> bool" where
  "intact digest db \<longleftrightarrow> chained digest 1 GENESIS (audit_log db) \<and>
     locked_head db = \<lparr>last_seq = length (audit_log db), last_hash = end_hash GENESIS (audit_log db)\<rparr> \<and>
     (head_row db = None \<longrightarrow> audit_log db = [])"

lemma body_hash_field [simp]: "body (e\<lparr>entry_hash := h\<rparr>) = body e"
  by (simp add: body_def)

lemma record_entry_intact:
  assumes "intact digest db"
  shows "intact digest (record_entry digest i now f db) \<and> (\<exists>e. audit_log (record_entry digest i now f db) = audit_log db @ [e])"
proof -
  have head: "last_seq (locked_head db) = length (audit_log db)" "last_hash (locked_head db) = end_hash GENESIS (audit_log db)"
    using assms by (simp_all add: intact_def)
  show ?thesis
    using assms unfolding intact_def
    by (simp add: record_entry_def Let_def locked_head_def [of "_\<lparr>audit_log := _, head_row := _\<rparr>"]
        chained_append end_hash_append compute_hash_def body_def head)
qed

lemma record_all_intact:
  "intact digest db \<Longrightarrow> intact digest (record_all digest fs db) \<and> (\<exists>es. audit_log (record_all digest fs db) = audit_log db @ es)"
proof (induction digest fs db rule: record_all.induct)
  case (2 digest i now f fs db)
  then show ?case using record_entry_intact [of digest db i now f] by fastforce
qed simp

lemma intact_empty: "intact digest empty_log"
  by (simp add: intact_def empty_log_def locked_head_def)

lemma verify_no_first: "verify digest None rows b = verify digest (Some \<lparr>last_seq = 0, last_hash = GENESIS\<rparr>) rows b"
  by (simp add: verify_def)

lemma verify_empty: "verify digest (Some \<lparr>last_seq = 0, last_hash = GENESIS\<rparr>) [] None = None"
  by (simp add: verify_def)

lemma intact_head:
  "intact digest db \<Longrightarrow> head_row db = Some h \<Longrightarrow> last_seq h = length (audit_log db) \<and> last_hash h = end_hash GENESIS (audit_log db)"
  by (auto simp: intact_def locked_head_def)

text \<open>The audit log verifies beside its writers: start from an empty log, record any rows, read the head, let writers record
  any more rows, read the rows, let them record again and read the head again: \<open>verify\<close> finds nothing wrong.\<close>

theorem verify_accepts_recorded:
  "verify digest (head_row (record_all digest xs empty_log))
     (audit_log (record_all digest ys (record_all digest xs empty_log)))
     (head_row (record_all digest zs (record_all digest ys (record_all digest xs empty_log)))) = None"
proof -
  let ?a = "record_all digest xs empty_log"
  let ?b = "record_all digest ys ?a"
  let ?c = "record_all digest zs ?b"
  have a: "intact digest ?a" using record_all_intact intact_empty by blast
  obtain es where b: "intact digest ?b" "audit_log ?b = audit_log ?a @ es" using record_all_intact [OF a] by blast
  obtain fs where c: "intact digest ?c" "audit_log ?c = audit_log ?b @ fs" using record_all_intact [OF b(1)] by blast
  obtain h where h: "verify digest (head_row ?a) rows k = verify digest (Some h) rows k"
      "last_seq h = length (audit_log ?a)" "last_hash h = end_hash GENESIS (audit_log ?a)" for rows k
  proof (cases "head_row ?a")
    case None
    with a have "audit_log ?a = []" by (simp add: intact_def)
    with None that [of "\<lparr>last_seq = 0, last_hash = GENESIS\<rparr>"] show thesis by (simp add: verify_no_first)
  next
    case (Some h)
    with a that [of h] show thesis by (simp add: intact_head)
  qed
  show ?thesis
  proof (cases "head_row ?c")
    case None
    with c b have "audit_log ?b = []" "audit_log ?a = []" by (auto simp: intact_def)
    moreover from this h(2,3) have "h = \<lparr>last_seq = 0, last_hash = GENESIS\<rparr>" by (cases h) simp
    ultimately show ?thesis using None by (simp add: h(1) verify_empty)
  next
    case (Some k)
    with c have k: "last_seq k = length (audit_log ?c)" "last_hash k = end_hash GENESIS (audit_log ?c)"
      by (simp_all add: intact_head)
    have "chained digest 1 GENESIS (audit_log ?b)" using b(1) by (simp add: intact_def)
    then show ?thesis
      unfolding h(1) Some verify_None using h(2,3) k b(2) c(2) by (auto simp: hash_at_def)
  qed
qed

subsection \<open>Tampering needs a collision\<close>

lemma chained_collision:
  "chained digest n p xs \<Longrightarrow> chained digest n p' ys \<Longrightarrow> length xs = length ys \<Longrightarrow> end_hash p xs = end_hash p' ys \<Longrightarrow> xs \<noteq> [] \<Longrightarrow>
   map body xs = map body ys \<or> (\<exists>a \<in> set xs. \<exists>b \<in> set ys. body a \<noteq> body b \<and> digest (body a) = digest (body b))"
proof (induction xs arbitrary: ys rule: rev_induct)
  case (snoc x xs)
  then obtain y ys' where ys: "ys = ys' @ [y]" "length ys' = length xs" by (cases ys rule: rev_exhaust) auto
  have chains: "chained digest n p xs" "chained digest n p' ys'" "prev_hash x = end_hash p xs" "prev_hash y = end_hash p' ys'"
      "digest (body x) = digest (body y)"
    using snoc.prems ys by (auto simp: chained_append end_hash_append compute_hash_def)
  show ?case
  proof (cases "body x = body y")
    case True
    then have "end_hash p xs = end_hash p' ys'" using chains(3,4) by (simp add: body_def)
    with snoc.IH [OF chains(1,2)] ys True show ?thesis by (cases "xs = []") auto
  next
    case False
    with chains(5) ys show ?thesis by auto
  qed
qed simp

text \<open>C40: Tampering shows or breaks the hash: two logs that \<open>verify\<close> accepts against one and the same head (an exported anchor,
  say) have the same bodies row for row, unless two of their rows are different bodies with the same SHA-256: changed,
  dropped, reordered or added rows cannot be hidden behind a known head.\<close>

theorem tampering_needs_collision:
  assumes "verify digest (Some h) rows (Some h) = None" "verify digest (Some h) rows' (Some h) = None"
  shows "map body rows = map body rows' \<or>
    (\<exists>a \<in> set rows. \<exists>b \<in> set rows'. body a \<noteq> body b \<and> digest (body a) = digest (body b))"
proof -
  have rows: "chained digest 1 GENESIS rows" "length rows = last_seq h" "end_hash GENESIS rows = last_hash h"
    using assms(1) by (auto simp: verify_None hash_at_def)
  have rows': "chained digest 1 GENESIS rows'" "length rows' = last_seq h" "end_hash GENESIS rows' = last_hash h"
    using assms(2) by (auto simp: verify_None hash_at_def)
  show ?thesis
  proof (cases "rows = []")
    case True
    with rows rows' show ?thesis by simp
  next
    case False
    with rows rows' show ?thesis by (intro chained_collision) auto
  qed
qed

definition demo_digest :: "json \<Rightarrow> string" where
  "demo_digest j = (case j of JObject ms \<Rightarrow> (case map_of ms ''actor'' of Some (JStr s) \<Rightarrow> s | _ \<Rightarrow> []) | _ \<Rightarrow> [])"

text \<open>Under this poor hash a log and a log of another target have one head, and the collision is found.\<close>

definition demo_log :: "string \<Rightarrow> audit_db" where
  "demo_log path = record_entry demo_digest 1 0 \<lparr>f_actor = ''ana'', f_action = ''put'', f_target = path, f_result = ''200'',
     f_role = None, f_correlation = None, f_detail = None\<rparr> empty_log"

lemma demo_logs: "locked_head (demo_log ''/y'') = locked_head (demo_log ''/x'')"
  "map body (audit_log (demo_log ''/x'')) \<noteq> map body (audit_log (demo_log ''/y''))"
  by code_simp+

theorem tampering_needs_collision_witness:
  "\<exists>a \<in> set (audit_log (demo_log ''/x'')). \<exists>b \<in> set (audit_log (demo_log ''/y'')).
     body a \<noteq> body b \<and> demo_digest (body a) = demo_digest (body b)"
proof -
  have "intact demo_digest (demo_log path)" for path unfolding demo_log_def using record_entry_intact intact_empty by blast
  then have "verify demo_digest (Some (locked_head (demo_log path))) (audit_log (demo_log path)) (Some (locked_head (demo_log path))) = None" for path
    by (simp add: verify_None intact_def hash_at_def)
  from tampering_needs_collision [OF this this [of "''/y''", unfolded demo_logs(1)]] demo_logs(2) show ?thesis by blast
qed

end
