(* ===== verification/RateLimit.thy ===== *)
theory RateLimit
  imports SmoPrelude Complex_Main
begin

section \<open>The request limiter (shared/smo\_shared/ratelimit.py)\<close>

text \<open>
  The in-process token buckets and the buckets of the shared table. Token counts, rates and clocks are
  floats in the code and exact rationals here; the locks of the code make each call atomic. A bucket
  table is an association list from the caller. The shared limiter is told whether its statement and
  its purge reach the database (\<open>up\<close>).
\<close>

definition MAX_TRACKED_CALLERS :: nat where "MAX_TRACKED_CALLERS = 10000"
definition FAIL_BACKOFF_SECONDS :: rat where "FAIL_BACKOFF_SECONDS = 5"
definition PURGE_INTERVAL_SECONDS :: rat where "PURGE_INTERVAL_SECONDS = 60"

type_synonym buckets = "(string \<times> rat \<times> rat) list"

fun put_bucket :: "string \<Rightarrow> rat \<times> rat \<Rightarrow> buckets \<Rightarrow> buckets" where
  "put_bucket c b [] = [(c, b)]"
| "put_bucket c b ((k, v) # bs) = (if k = c then (c, b) # bs else (k, v) # put_bucket c b bs)"

definition retry_after :: "rat \<Rightarrow> rat \<Rightarrow> int" where
  "retry_after rate tokens = max 1 \<lceil>(1 - tokens) / rate\<rceil>"

definition forget_idle :: "rat \<Rightarrow> rat \<Rightarrow> rat \<Rightarrow> buckets \<Rightarrow> buckets" where
  "forget_idle now rate burst bs = filter (\<lambda>(c, tokens, stamp). \<not> tokens + (now - stamp) * rate \<ge> burst) bs"

text \<open>\<open>TokenBuckets.take\<close>: the answer (\<open>None\<close>: go ahead) and the buckets after it.\<close>

definition take_token :: "rat \<Rightarrow> rat \<Rightarrow> rat \<Rightarrow> string \<Rightarrow> buckets \<Rightarrow> int option \<times> buckets" where
  "take_token rate burst now c bs =
     (if rate \<le> 0 then (None, bs)
      else
        let (tokens0, stamp) = (case map_of bs c of None \<Rightarrow> (burst, now) | Some b \<Rightarrow> b);
            tokens = min burst (tokens0 + (now - stamp) * rate);
            (allowed, bs1) = (if tokens \<ge> 1 then (None, put_bucket c (tokens - 1, now) bs)
                              else (Some (retry_after rate tokens), put_bucket c (tokens, now) bs))
        in (allowed, if length bs1 > MAX_TRACKED_CALLERS then forget_idle now rate burst bs1 else bs1))"

subsection \<open>The shared table\<close>

record rate_bucket =
  caller :: string
  tokens :: rat
  refilled_at :: rat
  last_allowed :: bool

text \<open>The upsert of \<open>_statements\<close>, with the tokens and the verdict it returns.\<close>

definition refilled :: "rat \<Rightarrow> rat \<Rightarrow> rat \<Rightarrow> rate_bucket \<Rightarrow> rat" where
  "refilled rate burst now r = min burst (tokens r + max 0 (now - refilled_at r) * rate)"

definition upsert_row :: "rat \<Rightarrow> rat \<Rightarrow> rat \<Rightarrow> rate_bucket \<Rightarrow> rate_bucket" where
  "upsert_row rate burst now r =
     r\<lparr>last_allowed := refilled rate burst now r \<ge> 1,
       tokens := (if refilled rate burst now r \<ge> 1 then refilled rate burst now r - 1 else refilled rate burst now r),
       refilled_at := max (refilled_at r) now\<rparr>"

definition take_shared :: "rat \<Rightarrow> rat \<Rightarrow> rat \<Rightarrow> string \<Rightarrow> rate_bucket list \<Rightarrow> (rat \<times> bool) \<times> rate_bucket list" where
  "take_shared rate burst now c rows =
     (case row_where (\<lambda>r. caller r = c) rows of
        None \<Rightarrow>
          let first = \<lparr>caller = c, tokens = (if burst \<ge> 1 then burst - 1 else burst), refilled_at = now, last_allowed = burst \<ge> 1\<rparr>
          in ((tokens first, last_allowed first), rows @ [first])
      | Some r \<Rightarrow>
          let r' = upsert_row rate burst now r
          in ((tokens r', last_allowed r'), update_where (\<lambda>r. caller r = c) (upsert_row rate burst now) rows))"

definition purge :: "rat \<Rightarrow> rat \<Rightarrow> rat \<Rightarrow> rate_bucket list \<Rightarrow> rate_bucket list" where
  "purge rate burst now rows = delete_where (\<lambda>r. tokens r + max 0 (now - refilled_at r) * rate \<ge> burst) rows"

record shared_limiter =
  rows :: "rate_bucket list"
  local_buckets :: buckets
  down_until :: rat
  last_purge :: rat

text \<open>\<open>_maybe_purge\<close>: at most once an interval; a failing purge is ignored.\<close>

definition maybe_purge :: "rat \<Rightarrow> rat \<Rightarrow> rat \<Rightarrow> rat \<Rightarrow> bool \<Rightarrow> shared_limiter \<Rightarrow> shared_limiter" where
  "maybe_purge rate burst now tick up s =
     (if tick - last_purge s < PURGE_INTERVAL_SECONDS then s
      else s\<lparr>last_purge := tick, rows := (if up then purge rate burst now (rows s) else rows s)\<rparr>)"

text \<open>\<open>SharedTokenBuckets.take\<close>; \<open>now\<close> is the wall clock, \<open>tick\<close> the monotonic one.\<close>

definition take_or_fall_back ::
  "rat \<Rightarrow> rat \<Rightarrow> rat \<Rightarrow> rat \<Rightarrow> bool \<Rightarrow> bool \<Rightarrow> string \<Rightarrow> shared_limiter \<Rightarrow> int option \<times> shared_limiter" where
  "take_or_fall_back rate burst now tick up purge_up c s =
     (if rate \<le> 0 then (None, s)
      else
        let local = (\<lambda>s. case take_token rate burst tick c (local_buckets s) of (a, bs) \<Rightarrow> (a, s\<lparr>local_buckets := bs\<rparr>))
        in if tick < down_until s then local s
           else if \<not> up then local (s\<lparr>down_until := tick + FAIL_BACKOFF_SECONDS\<rparr>)
           else (case take_shared rate burst now c (rows s) of ((left, allowed), rows') \<Rightarrow>
                  (if allowed then None else Some (retry_after rate left),
                   maybe_purge rate burst now tick purge_up (s\<lparr>rows := rows'\<rparr>))))"

definition store_from_environment :: "string option \<Rightarrow> py_error + string" where
  "store_from_environment setting =
     (let v = lower (strip (case setting of None \<Rightarrow> [] | Some s \<Rightarrow> s));
          chosen = (if v = [] then ''memory'' else v)
      in if chosen \<in> {''memory'', ''postgres''} then Inr chosen
         else Inl (RuntimeError ''R1_RATE_STORE must be memory or postgres''))"

subsection \<open>Interface: a store that spends a budget\<close>

text \<open>
  What both limiters promise about one caller: a request that goes through costs one token of what is
  left, and what is left grows with the store's clock by the rate alone.
\<close>

locale budget =
  fixes serve :: "'q \<Rightarrow> 's \<Rightarrow> bool \<times> 's"
    and left :: "'s \<Rightarrow> rat"
    and clock :: "'s \<Rightarrow> rat"
    and rate :: rat
    and legal :: "'q \<Rightarrow> 's \<Rightarrow> bool"
    and inv :: "'s \<Rightarrow> bool"
  assumes spends: "inv s \<Longrightarrow> legal q s \<Longrightarrow> serve q s = (a, s') \<Longrightarrow>
      inv s' \<and> left s' + of_bool a \<le> left s + rate * (clock s' - clock s)"
    and solvent: "inv s \<Longrightarrow> 0 \<le> left s"
begin

fun serve_all :: "'q list \<Rightarrow> 's \<Rightarrow> nat \<times> 's" where
  "serve_all [] s = (0, s)"
| "serve_all (q # qs) s = (case serve q s of (a, s') \<Rightarrow> (case serve_all qs s' of (n, s'') \<Rightarrow> (of_bool a + n, s'')))"

fun legal_all :: "'q list \<Rightarrow> 's \<Rightarrow> bool" where
  "legal_all [] s = True"
| "legal_all (q # qs) s = (legal q s \<and> legal_all qs (snd (serve q s)))"

lemma served_within_budget:
  "inv s \<Longrightarrow> legal_all qs s \<Longrightarrow> serve_all qs s = (n, s') \<Longrightarrow>
     inv s' \<and> of_nat n + left s' \<le> left s + rate * (clock s' - clock s)"
proof (induction qs arbitrary: s n)
  case (Cons q qs)
  obtain a s1 where one: "serve q s = (a, s1)" by fastforce
  obtain m s2 where rest: "serve_all qs s1 = (m, s2)" by fastforce
  have n: "n = of_bool a + m" and rest: "serve_all qs s1 = (m, s')" using Cons.prems(3) one rest by auto
  from spends [OF Cons.prems(1) _ one] Cons.prems(2)
  have step: "inv s1" "left s1 + of_bool a \<le> left s + rate * (clock s1 - clock s)" by auto
  have "of_nat m + left s' \<le> left s1 + rate * (clock s' - clock s1)" "inv s'"
    using Cons.IH [OF step(1) _ rest] Cons.prems(2) one by auto
  then show ?case using step(2) n by (cases a) (auto simp: algebra_simps)
qed simp

lemma served_bound:
  "inv s \<Longrightarrow> legal_all qs s \<Longrightarrow> serve_all qs s = (n, s') \<Longrightarrow> of_nat n \<le> left s + rate * (clock s' - clock s)"
  using served_within_budget [of s qs n s'] solvent [of s'] by auto

end

subsection \<open>The in-process buckets keep the contract\<close>

text \<open>What a caller has left at a time: a bucket that was dropped counts as full.\<close>

definition available :: "rat \<Rightarrow> rat \<Rightarrow> string \<Rightarrow> rat \<Rightarrow> buckets \<Rightarrow> rat" where
  "available rate burst c t bs =
     (case map_of bs c of None \<Rightarrow> burst | Some (tok, stamp) \<Rightarrow> min burst (tok + (t - stamp) * rate))"

definition buckets_inv :: "rat \<Rightarrow> rat \<Rightarrow> buckets \<times> rat \<Rightarrow> bool" where
  "buckets_inv rate burst s \<longleftrightarrow> 0 < rate \<and> 0 \<le> burst \<and> distinct (map fst (fst s)) \<and>
     (\<forall>(c, tok, stamp) \<in> set (fst s). 0 \<le> tok \<and> stamp \<le> snd s)"

definition serve_local :: "rat \<Rightarrow> rat \<Rightarrow> string \<Rightarrow> rat \<times> string \<Rightarrow> buckets \<times> rat \<Rightarrow> bool \<times> buckets \<times> rat" where
  "serve_local rate burst c q s =
     (case take_token rate burst (fst q) (snd q) (fst s) of (a, bs) \<Rightarrow> (snd q = c \<and> a = None, bs, fst q))"

lemma map_of_put_bucket [simp]: "map_of (put_bucket c b bs) d = (if d = c then Some b else map_of bs d)"
  by (induction bs) auto

lemma fst_put_bucket: "set (map fst (put_bucket c b bs)) = insert c (set (map fst bs))"
  by (induction c b bs rule: put_bucket.induct) auto

lemma distinct_put_bucket: "distinct (map fst bs) \<Longrightarrow> distinct (map fst (put_bucket c b bs))"
proof (induction c b bs rule: put_bucket.induct)
  case (2 c b k v bs)
  then show ?case using fst_put_bucket [of c b bs] by auto
qed simp

lemma set_put_bucket: "set (put_bucket c b bs) \<subseteq> insert (c, b) (set bs)"
  by (induction c b bs rule: put_bucket.induct) auto

lemma map_of_filter:
  "distinct (map fst bs) \<Longrightarrow> map_of (filter P bs) c = (case map_of bs c of None \<Rightarrow> None | Some b \<Rightarrow> if P (c, b) then Some b else None)"
proof (induction bs)
  case (Cons x bs)
  moreover have "fst x \<notin> set (map fst bs) \<Longrightarrow> map_of bs (fst x) = None" by (simp add: map_of_eq_None_iff)
  ultimately show ?case by (cases x) (auto split: option.splits)
qed simp

lemma available_forget:
  "distinct (map fst bs) \<Longrightarrow> available rate burst c now (forget_idle now rate burst bs) = available rate burst c now bs"
  by (auto simp: available_def forget_idle_def map_of_filter split: option.splits)

lemma take_token_available:
  assumes inv: "buckets_inv rate burst (bs, T)" and t: "T \<le> t" and take: "take_token rate burst t d bs = (a, bs')"
  shows "buckets_inv rate burst (bs', t)"
    and "available rate burst c t bs' + of_bool (d = c \<and> a = None) = available rate burst c t bs"
proof -
  let ?tok = "available rate burst d t bs"
  have rate: "0 < rate" "0 \<le> burst" "distinct (map fst bs)" using inv by (auto simp: buckets_inv_def)
  have old: "0 \<le> tok \<and> stamp \<le> T" if "map_of bs k = Some (tok, stamp)" for k tok stamp
    using inv map_of_SomeD [OF that] by (auto simp: buckets_inv_def)
  have tok: "min burst ((case map_of bs d of None \<Rightarrow> burst | Some b \<Rightarrow> fst b)
      + (t - (case map_of bs d of None \<Rightarrow> t | Some b \<Rightarrow> snd b)) * rate) = ?tok" "?tok \<le> burst"
    using rate by (auto simp: available_def split: option.splits)
  have pos: "0 \<le> ?tok"
  proof (cases "map_of bs d")
    case (Some b)
    then have "0 \<le> fst b" "snd b \<le> t" using old [of d "fst b" "snd b"] t by auto
    then have "0 \<le> fst b + (t - snd b) * rate" using rate(1) by simp
    then show ?thesis using Some rate(2) by (cases b) (simp add: available_def)
  qed (use rate in \<open>simp add: available_def\<close>)
  define bs1 where "bs1 = put_bucket d (if ?tok \<ge> 1 then ?tok - 1 else ?tok, t) bs"
  have split: "(case map_of bs d of None \<Rightarrow> (burst, t) | Some b \<Rightarrow> b) =
      (case map_of bs d of None \<Rightarrow> burst | Some b \<Rightarrow> fst b, case map_of bs d of None \<Rightarrow> t | Some b \<Rightarrow> snd b)"
    by (auto split: option.splits)
  have res: "a = (if ?tok \<ge> 1 then None else Some (retry_after rate ?tok))"
    "bs' = bs1 \<or> bs' = forget_idle t rate burst bs1"
    using take rate(1) unfolding take_token_def split Let_def prod.case tok(1) bs1_def
    by (auto split: if_splits)
  have inv1: "buckets_inv rate burst (bs1, t)"
    unfolding buckets_inv_def fst_conv snd_conv
  proof (intro conjI ballI)
    show "distinct (map fst bs1)" unfolding bs1_def by (rule distinct_put_bucket) (rule rate)
    fix x assume "x \<in> set bs1"
    then have "x = (d, if ?tok \<ge> 1 then ?tok - 1 else ?tok, t) \<or> x \<in> set bs"
      using set_put_bucket unfolding bs1_def by blast
    then show "case x of (c, tok, stamp) \<Rightarrow> 0 \<le> tok \<and> stamp \<le> t"
      using inv pos t by (auto simp: buckets_inv_def)
  qed (use rate in auto)
  have "buckets_inv rate burst (forget_idle t rate burst bs1, t)"
    using inv1 by (auto simp: buckets_inv_def forget_idle_def distinct_map_filter)
  with inv1 res(2) show "buckets_inv rate burst (bs', t)" by auto
  have "available rate burst c t bs' = available rate burst c t bs1"
    using res(2) available_forget [of bs1] inv1 by (auto simp: buckets_inv_def)
  moreover have "available rate burst c t bs1 + of_bool (d = c \<and> a = None) = available rate burst c t bs"
    using tok(2) res(1) by (auto simp: bs1_def available_def [of rate burst c t bs1] min_def) (auto simp: available_def bs1_def)
  ultimately show "available rate burst c t bs' + of_bool (d = c \<and> a = None) = available rate burst c t bs" by simp
qed

lemma available_later:
  "0 < rate \<Longrightarrow> T \<le> t \<Longrightarrow> available rate burst c t bs \<le> available rate burst c T bs + rate * (t - T)"
proof -
  assume "0 < rate" "T \<le> t"
  then have "0 \<le> rate * (t - T)" by simp
  moreover have "tok + (t - stamp) * rate = tok + (T - stamp) * rate + rate * (t - T)" for tok stamp
    by (simp add: algebra_simps)
  ultimately show ?thesis by (auto simp: available_def min_def split: option.splits)
qed

lemma available_nonneg: "buckets_inv rate burst (bs, T) \<Longrightarrow> 0 \<le> available rate burst c T bs"
proof (cases "map_of bs c")
  case (Some b)
  assume inv: "buckets_inv rate burst (bs, T)"
  then have "0 \<le> fst b" "snd b \<le> T" "0 < rate" "0 \<le> burst"
    using map_of_SomeD [OF Some] by (auto simp: buckets_inv_def)
  then show ?thesis using Some by (cases b) (simp add: available_def)
qed (simp add: available_def buckets_inv_def)

interpretation local_budget: budget "serve_local rate burst c" "\<lambda>(bs, T). available rate burst c T bs" snd rate
  "\<lambda>q s. snd s \<le> fst q" "buckets_inv rate burst" for rate burst c
proof
  fix s q a s'
  assume inv: "buckets_inv rate burst s" and legal: "snd s \<le> fst q" and serve: "serve_local rate burst c q s = (a, s')"
  obtain bs T where s: "s = (bs, T)" by fastforce
  obtain t d where q: "q = (t, d)" by fastforce
  obtain ans bs' where take: "take_token rate burst t d bs = (ans, bs')" by fastforce
  have res: "a \<longleftrightarrow> d = c \<and> ans = None" "s' = (bs', t)" using serve take s q by (auto simp: serve_local_def)
  have later: "T \<le> t" using legal s q by simp
  have "buckets_inv rate burst (bs', t)"
    "available rate burst c t bs' + of_bool (d = c \<and> ans = None) = available rate burst c t bs"
    using take_token_available [OF inv [unfolded s] later take] by blast+
  moreover have "available rate burst c t bs \<le> available rate burst c T bs + rate * (t - T)"
    using inv legal s q by (intro available_later) (auto simp: buckets_inv_def)
  ultimately show "buckets_inv rate burst s' \<and>
      (case s' of (bs, T) \<Rightarrow> available rate burst c T bs) + of_bool a
        \<le> (case s of (bs, T) \<Rightarrow> available rate burst c T bs) + rate * (snd s' - snd s)"
    using res s by simp
next
  fix s assume "buckets_inv rate burst s"
  then show "0 \<le> (case s of (bs, T) \<Rightarrow> available rate burst c T bs)"
    using available_nonneg by (cases s) auto
qed

subsection \<open>The shared table keeps it for every order of its statements\<close>

definition row_of :: "string \<Rightarrow> rate_bucket list \<Rightarrow> rate_bucket option" where
  "row_of c rs = row_where (\<lambda>r. caller r = c) rs"

definition shared_inv :: "rat \<Rightarrow> rat \<Rightarrow> string \<Rightarrow> rate_bucket list \<Rightarrow> bool" where
  "shared_inv rate burst c rs \<longleftrightarrow> 0 < rate \<and> 0 \<le> burst \<and> (\<exists>r. row_of c rs = Some r \<and> 0 \<le> tokens r)"

definition serve_shared :: "rat \<Rightarrow> rat \<Rightarrow> string \<Rightarrow> rat \<times> string \<Rightarrow> rate_bucket list \<Rightarrow> bool \<times> rate_bucket list" where
  "serve_shared rate burst c q rs =
     (case take_shared rate burst (fst q) (snd q) rs of ((left, allowed), rs') \<Rightarrow> (snd q = c \<and> allowed, rs'))"

lemma row_where_update_same:
  "(\<And>r. caller (f r) = caller r) \<Longrightarrow>
   row_where (\<lambda>r. caller r = d) (update_where (\<lambda>r. caller r = c) f rs) =
     (if c = d then map_option f (row_where (\<lambda>r. caller r = d) rs) else row_where (\<lambda>r. caller r = d) rs)"
  by (induction rs) (auto simp: row_where_def update_where_def)

lemma take_shared_row:
  assumes "row_of c rs = Some r" "take_shared rate burst t d rs = ((left, allowed), rs')"
  shows "row_of c rs' = Some (if d = c then upsert_row rate burst t r else r) \<and>
    (d = c \<longrightarrow> (allowed \<longleftrightarrow> refilled rate burst t r \<ge> 1))"
proof (cases "row_where (\<lambda>r. caller r = d) rs")
  case None
  with assms(1) have "d \<noteq> c" by (auto simp: row_of_def)
  have "row_where (\<lambda>r. caller r = c) (rs @ [x]) = row_where (\<lambda>r. caller r = c) rs" if "caller x = d" for x
    using assms(1) by (induction rs) (auto simp: row_where_def row_of_def)
  then show ?thesis using None assms \<open>d \<noteq> c\<close> by (auto simp: take_shared_def Let_def row_of_def)
next
  case (Some r')
  have "rs' = update_where (\<lambda>r. caller r = d) (upsert_row rate burst t) rs" "allowed = last_allowed (upsert_row rate burst t r')"
    using Some assms(2) by (auto simp: take_shared_def Let_def)
  moreover have "row_where (\<lambda>r. caller r = c) (update_where (\<lambda>r. caller r = d) (upsert_row rate burst t) rs) =
      (if d = c then map_option (upsert_row rate burst t) (row_where (\<lambda>r. caller r = c) rs) else row_where (\<lambda>r. caller r = c) rs)"
    by (rule row_where_update_same) (simp add: upsert_row_def)
  ultimately show ?thesis using assms(1) Some by (auto simp: row_of_def upsert_row_def)
qed

interpretation shared_budget: budget "serve_shared rate burst c" "\<lambda>rs. tokens (the (row_of c rs))"
  "\<lambda>rs. refilled_at (the (row_of c rs))" rate "\<lambda>q rs. True" "shared_inv rate burst c" for rate burst c
proof
  fix rs q a rs'
  assume inv: "shared_inv rate burst c rs" and serve: "serve_shared rate burst c q rs = (a, rs')"
  then obtain r where r: "row_of c rs = Some r" "0 \<le> tokens r" "0 < rate" "0 \<le> burst" by (auto simp: shared_inv_def)
  obtain t d where q: "q = (t, d)" by fastforce
  obtain left allowed where take: "take_shared rate burst t d rs = ((left, allowed), rs')" and a: "a \<longleftrightarrow> d = c \<and> allowed"
    using serve q by (auto simp: serve_shared_def split: prod.splits)
  note row = take_shared_row [OF r(1) take]
  have refill: "0 \<le> refilled rate burst t r" "refilled rate burst t r \<le> tokens r + rate * (max (refilled_at r) t - refilled_at r)"
  proof -
    have "0 \<le> max 0 (t - refilled_at r) * rate" using r(3) by simp
    then show "0 \<le> refilled rate burst t r" using r by (simp add: refilled_def)
    have "max 0 (t - refilled_at r) = max (refilled_at r) t - refilled_at r" by (simp add: max_def)
    then show "refilled rate burst t r \<le> tokens r + rate * (max (refilled_at r) t - refilled_at r)"
      by (simp add: refilled_def mult.commute)
  qed
  show "shared_inv rate burst c rs' \<and>
      tokens (the (row_of c rs')) + of_bool a \<le> tokens (the (row_of c rs)) + rate * (refilled_at (the (row_of c rs')) - refilled_at (the (row_of c rs)))"
    using row r a refill by (auto simp: shared_inv_def upsert_row_def)
next
  fix rs assume "shared_inv rate burst c rs"
  then show "0 \<le> tokens (the (row_of c rs))" by (auto simp: shared_inv_def)
qed

subsection \<open>The claims\<close>

text \<open>A run of requests: each is a time and a caller; the answers of the store, in order.\<close>

fun takes_local :: "rat \<Rightarrow> rat \<Rightarrow> (rat \<times> string) list \<Rightarrow> buckets \<Rightarrow> (string \<times> int option) list" where
  "takes_local rate burst [] bs = []"
| "takes_local rate burst ((t, d) # qs) bs =
     (case take_token rate burst t d bs of (a, bs') \<Rightarrow> (d, a) # takes_local rate burst qs bs')"

fun takes_shared :: "rat \<Rightarrow> rat \<Rightarrow> (rat \<times> string) list \<Rightarrow> rate_bucket list \<Rightarrow> (string \<times> bool) list" where
  "takes_shared rate burst [] rs = []"
| "takes_shared rate burst ((t, d) # qs) rs =
     (case take_shared rate burst t d rs of ((left, allowed), rs') \<Rightarrow> (d, allowed) # takes_shared rate burst qs rs')"

definition let_through :: "string \<Rightarrow> (string \<times> 'a) list \<Rightarrow> ('a \<Rightarrow> bool) \<Rightarrow> nat" where
  "let_through c answers ok = length (filter (\<lambda>(d, a). d = c \<and> ok a) answers)"

lemma serve_local_Cons:
  "take_token rate burst t d bs = (a, bs') \<Longrightarrow> local_budget.serve_all rate burst c ((t, d) # qs) (bs, T) =
     (of_bool (d = c \<and> a = None) + fst (local_budget.serve_all rate burst c qs (bs', t)), snd (local_budget.serve_all rate burst c qs (bs', t)))"
  using serve_local_def [of rate burst c "(t, d)" "(bs, T)"] by (simp split: prod.split)

lemma takes_local_served:
  "fst (local_budget.serve_all rate burst c qs (bs, T)) = let_through c (takes_local rate burst qs bs) (\<lambda>a. a = None)"
proof (induction qs arbitrary: bs T)
  case (Cons q qs)
  obtain t d a bs' where "q = (t, d)" "take_token rate burst t d bs = (a, bs')" by (meson surj_pair)
  then show ?case using Cons.IH [of bs' t] serve_local_Cons [of rate burst t d bs a bs' c qs T] by (simp add: let_through_def)
qed (simp add: let_through_def)

lemma takes_local_legal:
  "sorted (map fst qs) \<Longrightarrow> \<forall>q \<in> set qs. T \<le> fst q \<Longrightarrow> local_budget.legal_all rate burst c qs (bs, T)"
  by (induction qs arbitrary: bs T) (auto simp: serve_local_def split: prod.splits)

lemma takes_local_clock:
  "sorted (map fst qs) \<Longrightarrow> \<forall>q \<in> set qs. fst q \<le> U \<Longrightarrow> T \<le> U \<Longrightarrow> snd (snd (local_budget.serve_all rate burst c qs (bs, T))) \<le> U"
proof (induction qs arbitrary: bs T)
  case (Cons q qs)
  obtain t d a bs' where "q = (t, d)" "take_token rate burst t d bs = (a, bs')" by (meson surj_pair)
  then show ?case using Cons.IH [of t bs'] Cons.prems serve_local_Cons [of rate burst t d bs a bs' c qs T] by simp
qed simp

text \<open>The in-process limiter keeps its budget: among any requests of any callers from time \<open>T\<close> to time \<open>U\<close>, starting with no
  bucket, at most \<open>burst + rate * (U - T)\<close> of one caller's are let through, however often idle buckets are forgotten.\<close>

theorem local_limit:
  assumes "0 < rate" "0 \<le> burst" "sorted (map fst qs)" "\<forall>q \<in> set qs. T \<le> fst q \<and> fst q \<le> U" "T \<le> U"
  shows "of_nat (let_through c (takes_local rate burst qs []) (\<lambda>a. a = None)) \<le> burst + rate * (U - T)"
proof -
  obtain n bs' T' where run: "local_budget.serve_all rate burst c qs ([], T) = (n, bs', T')" by (metis prod_cases3)
  have inv: "buckets_inv rate burst ([], T)" using assms(1,2) by (simp add: buckets_inv_def)
  have "of_nat n \<le> burst + rate * (T' - T)"
    using local_budget.served_bound [OF inv takes_local_legal run] assms(3,4) by (simp add: available_def)
  moreover have "T' \<le> U" using takes_local_clock [of qs U T rate burst c "[]"] assms(3,4,5) run by simp
  moreover from this assms(1) have "rate * (T' - T) \<le> rate * (U - T)" by simp
  ultimately show ?thesis using takes_local_served [of rate burst c qs "[]" T] run by simp
qed

theorem local_limit_witness:
  "of_nat (let_through ''a'' (takes_local 1 2 [(0, ''a''), (0, ''a''), (0, ''a''), (1, ''a'')] []) (\<lambda>a. a = None)) \<le> (2::rat) + 1 * (1 - 0)"
  by (rule local_limit) simp_all

lemma serve_shared_Cons:
  "take_shared rate burst t d rs = ((left, allowed), rs') \<Longrightarrow> shared_budget.serve_all rate burst c ((t, d) # qs) rs =
     (of_bool (d = c \<and> allowed) + fst (shared_budget.serve_all rate burst c qs rs'), snd (shared_budget.serve_all rate burst c qs rs'))"
  using serve_shared_def [of rate burst c "(t, d)" rs] by (simp split: prod.split)

lemma takes_shared_served:
  "fst (shared_budget.serve_all rate burst c qs rs) = let_through c (takes_shared rate burst qs rs) (\<lambda>a. a)"
proof (induction qs arbitrary: rs)
  case (Cons q qs)
  obtain t d where "q = (t, d)" by fastforce
  moreover obtain left allowed rs' where "take_shared rate burst t d rs = ((left, allowed), rs')" by (metis prod_cases3 surj_pair)
  ultimately show ?case using Cons.IH [of rs'] serve_shared_Cons [of rate burst t d rs left allowed rs' c qs] by (simp add: let_through_def)
qed (simp add: let_through_def)

lemma takes_shared_clock:
  "row_of c rs = Some r \<Longrightarrow> refilled_at r \<le> U \<Longrightarrow> \<forall>q \<in> set qs. fst q \<le> U \<Longrightarrow>
   \<exists>r'. row_of c (snd (shared_budget.serve_all rate burst c qs rs)) = Some r' \<and> refilled_at r' \<le> U"
proof (induction qs arbitrary: rs r)
  case (Cons q qs)
  obtain t d where q: "q = (t, d)" by fastforce
  obtain left allowed rs' where take: "take_shared rate burst t d rs = ((left, allowed), rs')" by (metis prod_cases3 surj_pair)
  note row = take_shared_row [OF Cons.prems(1) take]
  have "refilled_at (if d = c then upsert_row rate burst t r else r) \<le> U"
    using Cons.prems(2,3) q by (simp add: upsert_row_def)
  with Cons.IH [of rs' "if d = c then upsert_row rate burst t r else r"] row Cons.prems(3)
  have "\<exists>r'. row_of c (snd (shared_budget.serve_all rate burst c qs rs')) = Some r' \<and> refilled_at r' \<le> U" by auto
  then show ?case using serve_shared_Cons [OF take, of c qs] q by simp
qed simp

text \<open>The shared limiter keeps one budget for all replicas: whatever order their statements are applied in, late and equal
  time stamps included, the caller's row refills no interval twice: at most the tokens it holds plus \<open>rate\<close> times the
  time from its clock to the latest stamp are let through.\<close>

theorem shared_limit:
  assumes "0 < rate" "0 \<le> burst" "row_of c rs = Some r" "0 \<le> tokens r" "refilled_at r \<le> U" "\<forall>q \<in> set qs. fst q \<le> U"
  shows "of_nat (let_through c (takes_shared rate burst qs rs) (\<lambda>a. a)) \<le> tokens r + rate * (U - refilled_at r)"
proof -
  obtain n rs' where run: "shared_budget.serve_all rate burst c qs rs = (n, rs')" by fastforce
  have inv: "shared_inv rate burst c rs" using assms by (simp add: shared_inv_def)
  have legal: "shared_budget.legal_all rate burst c qs rs" for qs rs by (induction qs arbitrary: rs) auto
  obtain r' where r': "row_of c rs' = Some r'" "refilled_at r' \<le> U"
    using takes_shared_clock [OF assms(3,5,6), of rate burst] run by auto
  have "of_nat n \<le> tokens r + rate * (refilled_at r' - refilled_at r)"
    using shared_budget.served_bound [OF inv legal run] assms(3) r'(1) by simp
  moreover have "rate * (refilled_at r' - refilled_at r) \<le> rate * (U - refilled_at r)"
    using assms(1) r'(2) by simp
  ultimately show ?thesis using takes_shared_served [of rate burst c qs rs] run by simp
qed

theorem shared_limit_witness:
  "of_nat (let_through ''a'' (takes_shared 1 2 [(5, ''a''), (3, ''a''), (5, ''a'')]
      [\<lparr>caller = ''a'', tokens = 0, refilled_at = 3, last_allowed = True\<rparr>]) (\<lambda>a. a)) \<le> (0::rat) + 1 * (5 - 3)"
  using shared_limit [of 1 2 "''a''" "[\<lparr>caller = ''a'', tokens = 0, refilled_at = 3, last_allowed = True\<rparr>]"
      "\<lparr>caller = ''a'', tokens = 0, refilled_at = 3, last_allowed = True\<rparr>" 5 "[(5, ''a''), (3, ''a''), (5, ''a'')]"]
  by (simp add: row_of_def row_where_def)

text \<open>The shared limiter fails open, to the replica's own bucket: when the statement fails, and for the back-off after it
  whether or not the store is back, a request gets exactly the answer of the in-process limiter, the store is left
  alone, and the back-off is \<open>FAIL_BACKOFF_SECONDS\<close> from the failure.\<close>

theorem fails_open_locally:
  assumes "0 < rate" "tick < down_until s \<or> \<not> up"
  shows "case take_token rate burst tick c (local_buckets s) of (a, bs) \<Rightarrow>
    take_or_fall_back rate burst now tick up purge_up c s =
      (a, s\<lparr>local_buckets := bs, down_until := (if tick < down_until s then down_until s else tick + FAIL_BACKOFF_SECONDS)\<rparr>)"
  using assms by (cases s) (auto simp: take_or_fall_back_def Let_def split: prod.splits)

definition demo_limiter :: shared_limiter where
  "demo_limiter = \<lparr>rows = [], local_buckets = [], down_until = 0, last_purge = 0\<rparr>"

theorem fails_open_locally_witness:
  "case take_token 1 2 9 ''a'' (local_buckets demo_limiter) of (a, bs) \<Rightarrow>
    take_or_fall_back 1 2 9 9 False True ''a'' demo_limiter =
      (a, demo_limiter\<lparr>local_buckets := bs,
         down_until := (if 9 < down_until demo_limiter then down_until demo_limiter else 9 + FAIL_BACKOFF_SECONDS)\<rparr>)"
  by (rule fails_open_locally) simp_all

end
