(* ===== verification/Idempotency.thy ===== *)
theory Idempotency
  imports Errors
begin

section \<open>Idempotency keys of command routes (shared/smo\_shared/idempotency.py)\<close>

text \<open>
  The table of reservations and stored answers, the two halves of one pass of \<open>_begin\<close> (what it
  decides from the row it reads, and the write it then makes in a table that may have changed), the
  release and the completion, \<open>run_idempotent\<close> for a caller nobody disturbs, and a step relation in
  which requests of all replicas interleave. The request fingerprint (SHA-256 of canonical JSON) is a
  string the request carries; the route body is an argument.
\<close>

datatype key_state = IN_PROGRESS | COMPLETED

type_synonym key_id = "string \<times> string \<times> string"

record idempotency_key =
  key_id :: key_id
  request_hash :: string
  key_state :: key_state
  response_status :: "nat option"
  response_body :: json
  created_at :: seconds

definition MAX_KEY_LENGTH :: nat where "MAX_KEY_LENGTH = 255"
definition KEY_TTL_SECONDS :: seconds where "KEY_TTL_SECONDS = 86400"
definition IN_PROGRESS_SECONDS :: seconds where "IN_PROGRESS_SECONDS = 300"

text \<open>A header value is Latin-1 text; these are the characters \<open>str.isprintable\<close> accepts of it.\<close>

definition printable :: "char \<Rightarrow> bool" where
  "printable ch = (let n = (of_char ch :: nat) in 32 \<le> n \<and> n \<le> 126 \<or> 161 \<le> n \<and> n \<noteq> 173)"

definition valid_key :: "string \<Rightarrow> bool" where
  "valid_key k \<longleftrightarrow> k \<noteq> [] \<and> length k \<le> MAX_KEY_LENGTH \<and> list_all printable k"

type_synonym answer = "nat \<times> json"

text \<open>\<open>_replay\<close>: the stored answer; a damaged row without a status is a 500.\<close>

definition replay :: "idempotency_key \<Rightarrow> answer" where
  "replay r = (case response_status r of Some st \<Rightarrow> st | None \<Rightarrow> 500, response_body r)"

subsection \<open>One pass of \<open>_begin\<close>\<close>

datatype decision = Reserve | Replay answer | Refuse http_error | Take_over seconds

definition find_key :: "key_id \<Rightarrow> idempotency_key list \<Rightarrow> idempotency_key option" where
  "find_key k t = row_where (\<lambda>r. key_id r = k) t"

definition decide :: "seconds \<Rightarrow> string \<Rightarrow> idempotency_key option \<Rightarrow> decision" where
  "decide now h read =
     (case read of
        None \<Rightarrow> Reserve
      | Some r \<Rightarrow>
          if request_hash r \<noteq> h then Refuse IDEMPOTENCY_KEY_REUSED
          else if key_state r = COMPLETED then Replay (replay r)
          else if now - created_at r > IN_PROGRESS_SECONDS then Take_over (created_at r)
          else Refuse IDEMPOTENCY_KEY_IN_PROGRESS)"

text \<open>The purge and the insert are one transaction: losing the insert race undoes both. A takeover is
  an update guarded by the \<open>created_at\<close> that was read. The flag: this request owns the key.\<close>

definition expire_keys :: "seconds \<Rightarrow> idempotency_key list \<Rightarrow> idempotency_key list" where
  "expire_keys now t = delete_where (\<lambda>r. created_at r < now - KEY_TTL_SECONDS) t"

definition reserve :: "seconds \<Rightarrow> key_id \<Rightarrow> string \<Rightarrow> idempotency_key list \<Rightarrow> bool \<times> idempotency_key list" where
  "reserve now k h t =
     (let t' = expire_keys now t in
      if find_key k t' = None
      then (True, t' @ [\<lparr>key_id = k, request_hash = h, key_state = IN_PROGRESS, response_status = None,
                        response_body = JNull, created_at = now\<rparr>])
      else (False, t))"

definition take_over :: "seconds \<Rightarrow> key_id \<Rightarrow> seconds \<Rightarrow> idempotency_key list \<Rightarrow> bool \<times> idempotency_key list" where
  "take_over now k seen t =
     (let P = (\<lambda>r. key_id r = k \<and> created_at r = seen) in
      (length (filter P t) = 1, update_where P (\<lambda>r. r\<lparr>created_at := now\<rparr>) t))"

text \<open>\<open>_release\<close> and \<open>_complete\<close>; a route returns a value or a response of its own.\<close>

datatype route_result = Value json | Response nat "json option"

definition release :: "key_id \<Rightarrow> idempotency_key list \<Rightarrow> idempotency_key list" where
  "release k t = delete_where (\<lambda>r. key_id r = k \<and> key_state r = IN_PROGRESS) t"

definition stored_answer :: "nat \<Rightarrow> route_result \<Rightarrow> answer" where
  "stored_answer declared res =
     (case res of Value v \<Rightarrow> (declared, v)
      | Response st b \<Rightarrow> (st, case b of None \<Rightarrow> JNull | Some v \<Rightarrow> v))"

definition complete :: "key_id \<Rightarrow> nat \<Rightarrow> route_result \<Rightarrow> idempotency_key list \<Rightarrow> idempotency_key list" where
  "complete k declared res t =
     update_where (\<lambda>r. key_id r = k)
       (\<lambda>r. r\<lparr>key_state := COMPLETED, response_status := Some (fst (stored_answer declared res)),
             response_body := snd (stored_answer declared res)\<rparr>) t"

subsection \<open>\<open>run_idempotent\<close> of a caller nobody disturbs\<close>

fun begin_passes :: "nat \<Rightarrow> seconds \<Rightarrow> key_id \<Rightarrow> string \<Rightarrow> idempotency_key list \<Rightarrow>
    (http_error + answer option) \<times> idempotency_key list" where
  "begin_passes 0 now k h t = (Inl IDEMPOTENCY_KEY_IN_PROGRESS, t)"
| "begin_passes (Suc n) now k h t =
     (case decide now h (find_key k t) of
        Reserve \<Rightarrow> (case reserve now k h t of (won, t') \<Rightarrow> if won then (Inr None, t') else begin_passes n now k h t')
      | Replay a \<Rightarrow> (Inr (Some a), t)
      | Refuse err \<Rightarrow> (Inl err, t)
      | Take_over seen \<Rightarrow> (case take_over now k seen t of (won, t') \<Rightarrow>
          if won then (Inr None, t') else begin_passes n now k h t'))"

datatype served = Ran route_result | Replayed answer

text \<open>\<open>run\<close> is the route body on the module's own state \<open>'s\<close>; it raises or returns.\<close>

definition run_idempotent ::
  "string option \<Rightarrow> string option \<Rightarrow> string \<Rightarrow> nat \<Rightarrow> string \<Rightarrow> ('s \<Rightarrow> (http_error + route_result) \<times> 's) \<Rightarrow> seconds \<Rightarrow>
   idempotency_key list \<times> 's \<Rightarrow> (http_error + served) \<times> idempotency_key list \<times> 's" where
  "run_idempotent header invoker module status h run now ts =
     (case header of
        None \<Rightarrow> (case run (snd ts) of (r, s') \<Rightarrow> (map_sum id Ran r, fst ts, s'))
      | Some k \<Rightarrow>
          if \<not> valid_key k then (Inl IDEMPOTENCY_KEY_INVALID, ts)
          else
            let who = (case invoker of None \<Rightarrow> ''anonymous'' | Some i \<Rightarrow> if i = [] then ''anonymous'' else i);
                kid = (module, who, k)
            in (case begin_passes 2 now kid h (fst ts) of
                  (Inl err, t) \<Rightarrow> (Inl err, t, snd ts)
                | (Inr (Some a), t) \<Rightarrow> (Inr (Replayed a), t, snd ts)
                | (Inr None, t) \<Rightarrow>
                    (case run (snd ts) of
                       (Inl err, s') \<Rightarrow> (Inl err, release kid t, s')
                     | (Inr res, s') \<Rightarrow> (Inr (Ran res), complete kid status res t, s'))))"

subsection \<open>Requests of all replicas, interleaved\<close>

text \<open>
  A request reads the key's row and decides at that instant, writes in the table as it then is, runs
  and finishes; a replica may also die while it runs (the reservation stays). \<open>Running began\<close> carries
  the \<open>created_at\<close> the request wrote.
\<close>

datatype phase =
    Starting nat
  | Writing nat decision
  | Running seconds
  | Finished "http_error + served"
  | Crashed

record request =
  wants :: key_id
  fingerprint :: string
  phase :: phase

record key_system =
  clock :: seconds
  keys :: "idempotency_key list"
  requests :: "request list"

definition set_phase :: "nat \<Rightarrow> phase \<Rightarrow> key_system \<Rightarrow> key_system" where
  "set_phase i p s = s\<lparr>requests := (requests s)[i := (requests s ! i)\<lparr>phase := p\<rparr>]\<rparr>"

definition after_write :: "nat \<Rightarrow> seconds \<Rightarrow> bool \<Rightarrow> phase" where
  "after_write n now won = (if won then Running now
     else if n = 0 then Finished (Inl IDEMPOTENCY_KEY_IN_PROGRESS) else Starting n)"

inductive key_step :: "key_system \<Rightarrow> key_system \<Rightarrow> bool" where
  tick: "0 < d \<Longrightarrow> key_step s (s\<lparr>clock := clock s + d\<rparr>)"
| arrive: "key_step s (s\<lparr>requests := requests s @ [\<lparr>wants = k, fingerprint = h, phase = Starting 2\<rparr>]\<rparr>)"
| read: "i < length (requests s) \<Longrightarrow> phase (requests s ! i) = Starting (Suc n) \<Longrightarrow>
    dec = decide (clock s) (fingerprint (requests s ! i)) (find_key (wants (requests s ! i)) (keys s)) \<Longrightarrow>
    key_step s (set_phase i
      (case dec of Replay a \<Rightarrow> Finished (Inr (Replayed a)) | Refuse err \<Rightarrow> Finished (Inl err) | _ \<Rightarrow> Writing n dec) s)"
| insert_row: "i < length (requests s) \<Longrightarrow> phase (requests s ! i) = Writing n Reserve \<Longrightarrow>
    reserve (clock s) (wants (requests s ! i)) (fingerprint (requests s ! i)) (keys s) = (won, t) \<Longrightarrow>
    key_step s (set_phase i (after_write n (clock s) won) (s\<lparr>keys := t\<rparr>))"
| cas: "i < length (requests s) \<Longrightarrow> phase (requests s ! i) = Writing n (Take_over seen) \<Longrightarrow>
    take_over (clock s) (wants (requests s ! i)) seen (keys s) = (won, t) \<Longrightarrow>
    key_step s (set_phase i (after_write n (clock s) won) (s\<lparr>keys := t\<rparr>))"
| answered: "i < length (requests s) \<Longrightarrow> phase (requests s ! i) = Running began \<Longrightarrow>
    key_step s (set_phase i (Finished (Inr (Ran res))) (s\<lparr>keys := complete (wants (requests s ! i)) declared res (keys s)\<rparr>))"
| raised: "i < length (requests s) \<Longrightarrow> phase (requests s ! i) = Running began \<Longrightarrow>
    key_step s (set_phase i (Finished (Inl err)) (s\<lparr>keys := release (wants (requests s ! i)) (keys s)\<rparr>))"
| crash: "i < length (requests s) \<Longrightarrow> phase (requests s ! i) = Running began \<Longrightarrow> key_step s (set_phase i Crashed s)"

text \<open>No route has been running longer than the takeover timeout.\<close>

definition prompt :: "key_system \<Rightarrow> bool" where
  "prompt s \<longleftrightarrow> (\<forall>r \<in> set (requests s). case phase r of Running began \<Rightarrow> clock s - began \<le> IN_PROGRESS_SECONDS | _ \<Rightarrow> True)"

inductive prompt_run :: "key_system \<Rightarrow> key_system \<Rightarrow> bool" where
  start: "prompt s \<Longrightarrow> prompt_run s s"
| step: "prompt_run s s' \<Longrightarrow> key_step s' s'' \<Longrightarrow> prompt s'' \<Longrightarrow> prompt_run s s''"

text \<open>What holds then: a running request owns its row, and a pending takeover names a reservation of
  nobody who is still running.\<close>

definition owns_row :: "key_system \<Rightarrow> nat \<Rightarrow> bool" where
  "owns_row s i \<longleftrightarrow> (case phase (requests s ! i) of
       Running began \<Rightarrow> began \<le> clock s \<and> (\<exists>r \<in> set (keys s). key_id r = wants (requests s ! i) \<and>
          key_state r = IN_PROGRESS \<and> created_at r = began)
     | Writing n (Take_over seen) \<Rightarrow> seen < clock s \<and> (\<forall>r \<in> set (keys s). key_id r = wants (requests s ! i) \<longrightarrow>
          created_at r = seen \<longrightarrow> key_state r = IN_PROGRESS) \<and>
          (\<forall>j < length (requests s). wants (requests s ! j) = wants (requests s ! i) \<longrightarrow>
             phase (requests s ! j) \<noteq> Running seen)
     | _ \<Rightarrow> True)"

definition key_inv :: "key_system \<Rightarrow> bool" where
  "key_inv s \<longleftrightarrow> distinct (map key_id (keys s)) \<and> (\<forall>r \<in> set (keys s). created_at r \<le> clock s) \<and>
     (\<forall>i < length (requests s). owns_row s i) \<and>
     (\<forall>i < length (requests s). \<forall>j < length (requests s). \<forall>b b'.
        phase (requests s ! i) = Running b \<longrightarrow> phase (requests s ! j) = Running b' \<longrightarrow>
        wants (requests s ! i) = wants (requests s ! j) \<longrightarrow> i = j)"

lemma set_phase_simps [simp]:
  "clock (set_phase i p s) = clock s" "keys (set_phase i p s) = keys s"
  "length (requests (set_phase i p s)) = length (requests s)"
  "wants (requests (set_phase i p s) ! j) = wants (requests s ! j)"
  "i < length (requests s) \<Longrightarrow> phase (requests (set_phase i p s) ! j) = (if j = i then p else phase (requests s ! j))"
  by (auto simp: set_phase_def nth_list_update) (metis list_update_beyond not_le nth_list_update_eq nth_list_update_neq request.select_convs(1) request.surjective request.update_convs(3))

text \<open>The invariant, for one request and for a pair.\<close>

lemma key_invI:
  assumes "distinct (map key_id (keys s))" "\<And>r. r \<in> set (keys s) \<Longrightarrow> created_at r \<le> clock s"
    and "\<And>i. i < length (requests s) \<Longrightarrow> owns_row s i"
    and "\<And>i j b b'. i < length (requests s) \<Longrightarrow> j < length (requests s) \<Longrightarrow> phase (requests s ! i) = Running b \<Longrightarrow>
      phase (requests s ! j) = Running b' \<Longrightarrow> wants (requests s ! i) = wants (requests s ! j) \<Longrightarrow> i = j"
  shows "key_inv s"
  using assms unfolding key_inv_def by blast

lemma key_invD:
  assumes "key_inv s"
  shows "distinct (map key_id (keys s))" "r \<in> set (keys s) \<Longrightarrow> created_at r \<le> clock s"
    and "i < length (requests s) \<Longrightarrow> owns_row s i"
    and "i < length (requests s) \<Longrightarrow> j < length (requests s) \<Longrightarrow> phase (requests s ! i) = Running b \<Longrightarrow>
      phase (requests s ! j) = Running b' \<Longrightarrow> wants (requests s ! i) = wants (requests s ! j) \<Longrightarrow> i = j"
  using assms unfolding key_inv_def by blast+

lemma running_row:
  assumes "key_inv s" "i < length (requests s)" "phase (requests s ! i) = Running b"
  obtains r where "r \<in> set (keys s)" "key_id r = wants (requests s ! i)" "key_state r = IN_PROGRESS" "created_at r = b" "b \<le> clock s"
  using key_invD(3) [OF assms(1,2)] assms(3) by (auto simp: owns_row_def)

lemma prompt_running:
  "prompt s \<Longrightarrow> i < length (requests s) \<Longrightarrow> phase (requests s ! i) = Running b \<Longrightarrow> clock s - b \<le> IN_PROGRESS_SECONDS"
  unfolding prompt_def by (drule bspec [OF _ nth_mem]) auto

text \<open>A step in which request \<open>i\<close> reaches phase \<open>p\<close> and the table becomes \<open>t\<close>.\<close>

lemma key_inv_phase:
  assumes inv: "key_inv s" and i: "i < length (requests s)"
    and table: "distinct (map key_id t)" "\<And>r. r \<in> set t \<Longrightarrow> created_at r \<le> clock s"
    and mine: "owns_row (set_phase i p (s\<lparr>keys := t\<rparr>)) i"
    and rows: "\<And>j r. j < length (requests s) \<Longrightarrow> j \<noteq> i \<Longrightarrow> (\<exists>b. phase (requests s ! j) = Running b) \<Longrightarrow>
      r \<in> set (keys s) \<Longrightarrow> key_id r = wants (requests s ! j) \<Longrightarrow> r \<in> set t"
    and pending: "\<And>j n seen r. j < length (requests s) \<Longrightarrow> j \<noteq> i \<Longrightarrow> phase (requests s ! j) = Writing n (Take_over seen) \<Longrightarrow>
      r \<in> set t \<Longrightarrow> key_id r = wants (requests s ! j) \<Longrightarrow> created_at r = seen \<Longrightarrow> seen < clock s \<Longrightarrow> key_state r = IN_PROGRESS"
    and runs: "\<And>b. p = Running b \<Longrightarrow> b = clock s \<and> (\<forall>j < length (requests s). \<forall>b'. j \<noteq> i \<longrightarrow>
      wants (requests s ! j) = wants (requests s ! i) \<longrightarrow> phase (requests s ! j) \<noteq> Running b')"
  shows "key_inv (set_phase i p (s\<lparr>keys := t\<rparr>))"
proof (rule key_invI)
  fix j assume j: "j < length (requests (set_phase i p (s\<lparr>keys := t\<rparr>)))"
  show "owns_row (set_phase i p (s\<lparr>keys := t\<rparr>)) j"
  proof (cases "j = i")
    case False
    have own: "owns_row s j" using key_invD(3) [OF inv] j by simp
    show ?thesis
    proof (cases "phase (requests s ! j)")
      case (Running b)
      then show ?thesis using own rows [of j] j i False by (fastforce simp: owns_row_def)
    next
      case (Writing n dec)
      then show ?thesis using own pending [of j n] runs j i False by (cases dec) (auto simp: owns_row_def)
    qed (use i False in \<open>auto simp: owns_row_def\<close>)
  qed (use mine in simp)
next
  fix j k b b'
  assume "j < length (requests (set_phase i p (s\<lparr>keys := t\<rparr>)))" "k < length (requests (set_phase i p (s\<lparr>keys := t\<rparr>)))"
    "phase (requests (set_phase i p (s\<lparr>keys := t\<rparr>)) ! j) = Running b" "phase (requests (set_phase i p (s\<lparr>keys := t\<rparr>)) ! k) = Running b'"
    "wants (requests (set_phase i p (s\<lparr>keys := t\<rparr>)) ! j) = wants (requests (set_phase i p (s\<lparr>keys := t\<rparr>)) ! k)"
  then show "j = k" using key_invD(4) [OF inv, of j k b b'] runs i by (auto split: if_splits)
qed (use table in auto)

lemma find_key_Some: "find_key k t = Some r \<Longrightarrow> r \<in> set t \<and> key_id r = k"
  by (auto simp: find_key_def dest: row_where_SomeD)

lemma find_key_None: "find_key k t = None \<longleftrightarrow> k \<notin> key_id ` set t"
  by (auto simp: find_key_def row_where_None)

lemma find_key_row: "distinct (map key_id t) \<Longrightarrow> r \<in> set t \<Longrightarrow> find_key (key_id r) t = Some r"
proof (cases "find_key (key_id r) t")
  case (Some r')
  assume "distinct (map key_id t)" "r \<in> set t"
  then show ?thesis using Some find_key_Some [OF Some] distinct_key_eq [of key_id t r' r] by auto
qed (use find_key_None in blast)

lemma read_keeps:
  assumes inv: "key_inv s" and prompt: "prompt s" and i: "i < length (requests s)" and phase: "phase (requests s ! i) = Starting (Suc n)"
    and dec: "dec = decide (clock s) (fingerprint (requests s ! i)) (find_key (wants (requests s ! i)) (keys s))"
  shows "key_inv (set_phase i
      (case dec of Replay a \<Rightarrow> Finished (Inr (Replayed a)) | Refuse err \<Rightarrow> Finished (Inl err) | _ \<Rightarrow> Writing n dec) s)"
    (is "key_inv (set_phase i ?p s)")
proof -
  have s: "set_phase i ?p s = set_phase i ?p (s\<lparr>keys := keys s\<rparr>)" by simp
  have mine: "owns_row (set_phase i ?p (s\<lparr>keys := keys s\<rparr>)) i"
  proof (cases dec)
    case (Take_over seen)
    then obtain r where r: "find_key (wants (requests s ! i)) (keys s) = Some r" "key_state r = IN_PROGRESS"
        "seen = created_at r" "clock s - created_at r > IN_PROGRESS_SECONDS"
      using dec key_state.exhaust by (auto simp: decide_def split: option.splits if_splits)
    note row = find_key_Some [OF r(1)]
    have "r' = r" if "r' \<in> set (keys s)" "key_id r' = wants (requests s ! i)" for r'
      using distinct_key_eq [OF key_invD(1) [OF inv] that(1) _] row that(2) by auto
    moreover have "phase (requests s ! j) \<noteq> Running seen" if "j < length (requests s)" for j
      using prompt_running [OF prompt that] r(3,4) by force
    ultimately show ?thesis using Take_over r i by (auto simp: owns_row_def IN_PROGRESS_SECONDS_def)
  qed (use i in \<open>auto simp: owns_row_def\<close>)
  show ?thesis unfolding s
  proof (rule key_inv_phase [OF inv i])
    fix j m seen r
    assume "j < length (requests s)" "phase (requests s ! j) = Writing m (Take_over seen)" "r \<in> set (keys s)"
      "key_id r = wants (requests s ! j)" "created_at r = seen"
    then show "key_state r = IN_PROGRESS" using key_invD(3) [OF inv, of j] by (auto simp: owns_row_def)
  qed (use key_invD(1,2) [OF inv] mine in \<open>auto split: decision.splits\<close>)
qed

lemma insert_keeps:
  assumes inv: "key_inv s" and prompt: "prompt s" and i: "i < length (requests s)" and phase: "phase (requests s ! i) = Writing n Reserve"
    and won: "reserve (clock s) (wants (requests s ! i)) (fingerprint (requests s ! i)) (keys s) = (won, t)"
  shows "key_inv (set_phase i (after_write n (clock s) won) (s\<lparr>keys := t\<rparr>))"
proof -
  let ?old = "expire_keys (clock s) (keys s)"
  have kept: "r \<in> set ?old" if "j < length (requests s)" "phase (requests s ! j) = Running b" "r \<in> set (keys s)"
      "key_id r = wants (requests s ! j)" for j b r
  proof -
    note a = that
    obtain r' where r': "r' \<in> set (keys s)" "key_id r' = wants (requests s ! j)" "created_at r' = b"
      using running_row [OF inv a(1,2)] by metis
    then have "r' = r" using distinct_key_eq [OF key_invD(1) [OF inv] r'(1) a(3)] a(4) by simp
    then show ?thesis using prompt_running [OF prompt a(1,2)] r'(3) a(3)
      by (auto simp: expire_keys_def set_delete_where KEY_TTL_SECONDS_def IN_PROGRESS_SECONDS_def)
  qed
  have sub: "set ?old \<subseteq> set (keys s)" by (auto simp: expire_keys_def set_delete_where)
  have t: "if won then find_key (wants (requests s ! i)) ?old = None \<and> (\<exists>new. t = ?old @ [new] \<and> key_id new = wants (requests s ! i) \<and>
      key_state new = IN_PROGRESS \<and> created_at new = clock s) else t = keys s"
    using won by (auto simp: reserve_def Let_def split: if_splits)
  have pending: "key_state r = IN_PROGRESS" if "j < length (requests s)" "phase (requests s ! j) = Writing m (Take_over seen)"
      "r \<in> set (keys s)" "key_id r = wants (requests s ! j)" "created_at r = seen" for j m seen r
    using key_invD(3) [OF inv that(1)] that by (auto simp: owns_row_def)
  show ?thesis
  proof (cases won)
    case False
    have "t = keys s" using t False by simp
    show ?thesis unfolding \<open>t = keys s\<close>
    proof (rule key_inv_phase [OF inv i])
      show "owns_row (set_phase i (after_write n (clock s) won) (s\<lparr>keys := keys s\<rparr>)) i"
        using False i by (auto simp: owns_row_def after_write_def)
    qed (use False pending key_invD(1,2) [OF inv] in \<open>auto simp: after_write_def split: if_splits\<close>)
  next
    case True
    then obtain new where new: "t = ?old @ [new]" "key_id new = wants (requests s ! i)" "key_state new = IN_PROGRESS" "created_at new = clock s"
      and free: "wants (requests s ! i) \<notin> key_id ` set ?old" using t by (auto simp: find_key_None)
    have dist: "distinct (map key_id ?old)" unfolding expire_keys_def
      by (rule distinct_map_delete_where) (rule key_invD(1) [OF inv])
    show ?thesis
    proof (rule key_inv_phase [OF inv i])
      show "distinct (map key_id t)" using dist free new by auto
      show "owns_row (set_phase i (after_write n (clock s) won) (s\<lparr>keys := t\<rparr>)) i"
        using True new i by (auto simp: owns_row_def after_write_def)
      fix b assume "after_write n (clock s) won = Running b"
      moreover have "phase (requests s ! j) \<noteq> Running b'" if j: "j < length (requests s)" "wants (requests s ! j) = wants (requests s ! i)" for j b'
      proof
        assume r: "phase (requests s ! j) = Running b'"
        obtain r where "r \<in> set (keys s)" "key_id r = wants (requests s ! j)" using running_row [OF inv j(1) r] by metis
        then show False using kept [OF j(1) r] free j(2) by force
      qed
      ultimately show "b = clock s \<and> (\<forall>j < length (requests s). \<forall>b'. j \<noteq> i \<longrightarrow>
          wants (requests s ! j) = wants (requests s ! i) \<longrightarrow> phase (requests s ! j) \<noteq> Running b')"
        using True by (simp add: after_write_def)
    qed (use new sub kept pending key_invD(2) [OF inv] in \<open>fastforce+\<close>)
  qed
qed

lemma take_over_keeps:
  assumes inv: "key_inv s" and prompt: "prompt s" and i: "i < length (requests s)"
    and phase: "phase (requests s ! i) = Writing n (Take_over seen)"
    and won: "take_over (clock s) (wants (requests s ! i)) seen (keys s) = (won, t)"
  shows "key_inv (set_phase i (after_write n (clock s) won) (s\<lparr>keys := t\<rparr>))"
proof -
  let ?k = "wants (requests s ! i)"
  have own: "seen < clock s" "\<And>r. r \<in> set (keys s) \<Longrightarrow> key_id r = ?k \<Longrightarrow> created_at r = seen \<Longrightarrow> key_state r = IN_PROGRESS"
    "\<And>j. j < length (requests s) \<Longrightarrow> wants (requests s ! j) = ?k \<Longrightarrow> phase (requests s ! j) \<noteq> Running seen"
    using key_invD(3) [OF inv i] phase by (auto simp: owns_row_def)
  let ?hit = "\<lambda>r. key_id r = ?k \<and> created_at r = seen"
  have t: "t = update_where ?hit (\<lambda>r. r\<lparr>created_at := clock s\<rparr>) (keys s)" and won: "won \<longleftrightarrow> length (filter ?hit (keys s)) = 1"
    using won by (auto simp: take_over_def Let_def)
  have ids: "map key_id t = map key_id (keys s)" unfolding t by (rule map_update_where) simp
  have mem: "r \<in> set t \<longleftrightarrow> (\<exists>r' \<in> set (keys s). r = (if ?hit r' then r'\<lparr>created_at := clock s\<rparr> else r'))" for r
    unfolding t set_update_where by (simp only: image_iff)
  have pending: "key_state r = IN_PROGRESS" if "j < length (requests s)" "phase (requests s ! j) = Writing m (Take_over c)"
      "r \<in> set t" "key_id r = wants (requests s ! j)" "created_at r = c" "c < clock s" for j m c r
    using key_invD(3) [OF inv that(1)] that by (auto simp: owns_row_def mem split: if_splits)
  have rows: "r \<in> set t" if "j < length (requests s)" "phase (requests s ! j) = Running b" "r \<in> set (keys s)" "key_id r = wants (requests s ! j)"
    for j b r
  proof -
    note a = that
    obtain r' where "r' \<in> set (keys s)" "key_id r' = wants (requests s ! j)" "created_at r' = b" using running_row [OF inv a(1,2)] by metis
    then have "created_at r = b" using distinct_key_eq [OF key_invD(1) [OF inv] _ a(3)] a(4) by metis
    then have "\<not> ?hit r" using own(3) [OF a(1)] a(2,4) by auto
    then show ?thesis unfolding mem using a(3) by (intro bexI [of _ r]) auto
  qed
  have mine: "owns_row (set_phase i (after_write n (clock s) won) (s\<lparr>keys := t\<rparr>)) i"
  proof (cases won)
    case True
    then have "filter ?hit (keys s) \<noteq> []" using won by auto
    then obtain r where "r \<in> set (keys s)" "?hit r" unfolding filter_empty_conv by auto
    moreover have "r\<lparr>created_at := clock s\<rparr> \<in> set t" unfolding mem using \<open>r \<in> set (keys s)\<close> \<open>?hit r\<close>
      by (intro bexI [of _ r]) simp_all
    ultimately have "\<exists>r \<in> set t. key_id r = ?k \<and> key_state r = IN_PROGRESS \<and> created_at r = clock s"
      using own(2) [of r] by (intro bexI [of _ "r\<lparr>created_at := clock s\<rparr>"]) simp_all
    then show ?thesis using True i by (simp add: owns_row_def after_write_def)
  qed (use i in \<open>simp add: owns_row_def after_write_def\<close>)
  have alone: "phase (requests s ! j) \<noteq> Running b'" if win: won and j: "j < length (requests s)" "wants (requests s ! j) = ?k" for j b'
  proof
    assume run: "phase (requests s ! j) = Running b'"
    have "filter ?hit (keys s) \<noteq> []" using won win by auto
    then obtain r where r: "r \<in> set (keys s)" "?hit r" unfolding filter_empty_conv by auto
    obtain r' where "r' \<in> set (keys s)" "key_id r' = ?k" "created_at r' = b'" using running_row [OF inv j(1) run] j(2) by metis
    then have "b' = seen" using distinct_key_eq [OF key_invD(1) [OF inv] _ r(1)] r(2) by metis
    then show False using own(3) [OF j] run by simp
  qed
  show ?thesis
  proof (rule key_inv_phase [OF inv i _ _ mine])
    show "distinct (map key_id t)" using ids key_invD(1) [OF inv] by simp
    show "created_at r \<le> clock s" if "r \<in> set t" for r using that key_invD(2) [OF inv] by (auto simp: mem)
    show "b = clock s \<and> (\<forall>j < length (requests s). \<forall>b'. j \<noteq> i \<longrightarrow> wants (requests s ! j) = ?k \<longrightarrow> phase (requests s ! j) \<noteq> Running b')"
      if "after_write n (clock s) won = Running b" for b
      using that alone by (simp add: after_write_def split: if_splits)
  qed (use rows pending in blast)+
qed

text \<open>A running request finishes: its own row changes or goes, the others are untouched.\<close>

lemma finish_keeps:
  assumes inv: "key_inv s" and i: "i < length (requests s)" and phase: "phase (requests s ! i) = Running b"
    and ids: "distinct (map key_id t)"
    and same: "\<And>r. key_id r \<noteq> wants (requests s ! i) \<Longrightarrow> r \<in> set t \<longleftrightarrow> r \<in> set (keys s)"
    and own: "\<And>r. r \<in> set t \<Longrightarrow> key_id r = wants (requests s ! i) \<Longrightarrow> \<exists>r' \<in> set (keys s). key_id r' = key_id r \<and> created_at r' = created_at r"
    and p: "p = Finished x"
  shows "key_inv (set_phase i p (s\<lparr>keys := t\<rparr>))"
proof (rule key_inv_phase [OF inv i])
  have at: "created_at r = b" if "r \<in> set t" "key_id r = wants (requests s ! i)" for r
  proof -
    note a = that
    obtain r' where r': "r' \<in> set (keys s)" "key_id r' = key_id r" "created_at r' = created_at r" using own [OF a] by metis
    obtain r0 where "r0 \<in> set (keys s)" "key_id r0 = wants (requests s ! i)" "created_at r0 = b" using running_row [OF inv i phase] by metis
    then show ?thesis using distinct_key_eq [OF key_invD(1) [OF inv] r'(1)] r'(2,3) a(2) by metis
  qed
  show "created_at r \<le> clock s" if "r \<in> set t" for r
    using that same [of r] at [of r] running_row [OF inv i phase] key_invD(2) [OF inv, of r] by (metis (no_types))
  show "owns_row (set_phase i p (s\<lparr>keys := t\<rparr>)) i" using i by (simp add: owns_row_def p)
  show "r \<in> set t" if "j < length (requests s)" "j \<noteq> i" "\<exists>b. phase (requests s ! j) = Running b" "r \<in> set (keys s)"
      "key_id r = wants (requests s ! j)" for j r
    using that same [of r] key_invD(4) [OF inv that(1) i _ phase] by auto
  show "key_state r = IN_PROGRESS" if "j < length (requests s)" "phase (requests s ! j) = Writing n (Take_over seen)" "r \<in> set t"
      "key_id r = wants (requests s ! j)" "created_at r = seen" for j n seen r
  proof -
    have w: "\<And>r. r \<in> set (keys s) \<Longrightarrow> key_id r = wants (requests s ! j) \<Longrightarrow> created_at r = seen \<Longrightarrow> key_state r = IN_PROGRESS"
      "wants (requests s ! i) = wants (requests s ! j) \<Longrightarrow> phase (requests s ! i) \<noteq> Running seen"
      using key_invD(3) [OF inv that(1)] that(2) i by (auto simp: owns_row_def)
    show ?thesis
    proof (cases "wants (requests s ! i) = wants (requests s ! j)")
      case True
      then show ?thesis using w(2) at [of r] that(3-5) phase by auto
    qed (use w(1) same that(3-5) in auto)
  qed
qed (use ids p in auto)

lemma step_keeps:
  assumes "key_step s s'" "key_inv s" "prompt s"
  shows "key_inv s'"
  using assms
proof (induction rule: key_step.induct)
  case (tick d s)
  then have own: "owns_row s i" if "i < length (requests s)" for i using that key_invD(3) by blast
  show ?case
  proof (rule key_invI)
    fix i assume "i < length (requests (s\<lparr>clock := clock s + d\<rparr>))"
    then show "owns_row (s\<lparr>clock := clock s + d\<rparr>) i" using own [of i] tick(1)
      by (fastforce simp: owns_row_def split: phase.splits decision.splits)
  next
    fix r assume "r \<in> set (keys (s\<lparr>clock := clock s + d\<rparr>))"
    then show "created_at r \<le> clock (s\<lparr>clock := clock s + d\<rparr>)" using key_invD(2) [OF tick(2), of r] tick(1) by simp
  qed (use key_invD(1,4) [OF tick(2)] in auto)
next
  case (arrive s k h)
  let ?s = "s\<lparr>requests := requests s @ [\<lparr>wants = k, fingerprint = h, phase = Starting 2\<rparr>]\<rparr>"
  have nth: "requests ?s ! i = (if i < length (requests s) then requests s ! i else \<lparr>wants = k, fingerprint = h, phase = Starting 2\<rparr>)"
    if "i < length (requests ?s)" for i using that by (auto simp: nth_append not_less)
  show ?case
  proof (rule key_invI)
    fix i assume i: "i < length (requests ?s)"
    have "owns_row s i" if "i < length (requests s)" using that key_invD(3) [OF arrive(1)] by blast
    then show "owns_row ?s i" using nth [OF i] nth i unfolding owns_row_def
      by (cases "i < length (requests s)") (auto split: phase.splits decision.splits)
  next
    fix i j b b' assume "i < length (requests ?s)" "j < length (requests ?s)" "phase (requests ?s ! i) = Running b"
      "phase (requests ?s ! j) = Running b'" "wants (requests ?s ! i) = wants (requests ?s ! j)"
    then show "i = j" using nth key_invD(4) [OF arrive(1), of i j b b'] by (auto split: if_splits)
  qed (use key_invD(1,2) [OF arrive(1)] in auto)
next
  case (answered i s began res declared)
  have same: "map key_id (complete k d res t) = map key_id t" for k d t unfolding complete_def by (rule map_update_where) simp
  show ?case
    by (rule finish_keeps [OF answered(3,1,2) _ _ _ refl])
      (use same key_invD(1) [OF answered(3)] in \<open>auto simp: complete_def set_update_where image_iff\<close>)
next
  case (raised i s began err)
  show ?case
    by (rule finish_keeps [OF raised(3,1,2) _ _ _ refl])
      (use key_invD(1) [OF raised(3)] in \<open>auto simp: release_def set_delete_where intro: distinct_map_delete_where\<close>)
next
  case (crash i s began)
  have "key_inv (set_phase i Crashed (s\<lparr>keys := keys s\<rparr>))"
  proof (rule key_inv_phase [OF crash(3,1)])
    show "owns_row (set_phase i Crashed (s\<lparr>keys := keys s\<rparr>)) i" using crash(1) by (simp add: owns_row_def)
    fix j n seen r assume "j < length (requests s)" "phase (requests s ! j) = Writing n (Take_over seen)" "r \<in> set (keys s)"
      "key_id r = wants (requests s ! j)" "created_at r = seen"
    then show "key_state r = IN_PROGRESS" using key_invD(3) [OF crash(3), of j] by (auto simp: owns_row_def)
  qed (use key_invD(1,2) [OF crash(3)] in auto)
  then show ?case by simp
qed (use read_keeps insert_keeps take_over_keeps in blast)+

lemma prompt_run_keeps: "prompt_run s s' \<Longrightarrow> key_inv s \<Longrightarrow> key_inv s' \<and> prompt s'"
  by (induction rule: prompt_run.induct) (use step_keeps in blast)+

lemma step_clock: "key_step s s' \<Longrightarrow> clock s \<le> clock s'"
  by (induction rule: key_step.induct) (auto split: decision.splits)

lemma prompt_run_clock: "prompt_run s s' \<Longrightarrow> clock s \<le> clock s'"
  by (induction rule: prompt_run.induct) (auto dest: step_clock)

lemma step_keeps_answer:
  assumes "key_step s s'" "key_inv s" "r \<in> set (keys s)" "key_state r = COMPLETED" "clock s' \<le> created_at r + KEY_TTL_SECONDS"
  shows "r \<in> set (keys s')"
  using assms
proof (induction rule: key_step.induct)
  case (insert_row i s n won t)
  then show ?case by (auto simp: reserve_def Let_def expire_keys_def set_delete_where split: if_splits)
next
  case (cas i s n seen won t)
  have "\<not> (key_id r = wants (requests s ! i) \<and> created_at r = seen)"
    using key_invD(3) [OF cas(4,1)] cas(2,5,6) by (auto simp: owns_row_def)
  then show ?case using cas(3,5) by (auto simp: take_over_def Let_def set_update_where intro: image_eqI [of _ _ r])
next
  case (answered i s began res declared)
  have "key_id r \<noteq> wants (requests s ! i)"
    using running_row [OF answered(3,1,2)] distinct_key_eq [OF key_invD(1) [OF answered(3)] _ answered(4)] answered(5)
    by (metis key_state.distinct(1))
  then show ?case using answered(4) by (auto simp: complete_def set_update_where intro: image_eqI [of _ _ r])
next
  case (raised i s began err)
  then show ?case by (auto simp: release_def set_delete_where)
qed (auto split: decision.splits)

lemma prompt_run_keeps_answer:
  "prompt_run s s' \<Longrightarrow> key_inv s \<Longrightarrow> r \<in> set (keys s) \<Longrightarrow> key_state r = COMPLETED \<Longrightarrow>
   clock s' \<le> created_at r + KEY_TTL_SECONDS \<Longrightarrow> r \<in> set (keys s')"
proof (induction rule: prompt_run.induct)
  case (step s s' s'')
  have "clock s' \<le> created_at r + KEY_TTL_SECONDS" using step_clock [OF step(2)] step.prems(4) by simp
  then have "r \<in> set (keys s')" using step.IH step.prems by blast
  then show ?case using step_keeps_answer [OF step(2)] prompt_run_keeps [OF step(1)] step.prems by blast
qed

definition no_keys :: "seconds \<Rightarrow> key_system" where
  "no_keys now = \<lparr>clock = now, keys = [], requests = []\<rparr>"

lemma no_keys_inv: "key_inv (no_keys now)"
  by (simp add: key_inv_def no_keys_def)

text \<open>C31: However the requests of all replicas interleave, the inserts and takeovers of one key race and replicas crash: in every
  run in which no route body runs longer than the takeover timeout (which the code does not enforce), no two requests run
  under one key of one caller at the same time.\<close>

theorem one_owner_per_key:
  assumes "prompt_run (no_keys now) s" "i < length (requests s)" "j < length (requests s)"
    and "phase (requests s ! i) = Running b" "phase (requests s ! j) = Running b'"
    and "wants (requests s ! i) = wants (requests s ! j)"
  shows "i = j"
  using key_invD(4) [OF conjunct1 [OF prompt_run_keeps [OF assms(1) no_keys_inv]]] assms(2-) by blast

text \<open>C32: A command that was answered is not run again under its key: in every run in which no route body runs longer than the
  takeover timeout (the code does not enforce this; a route that does can overwrite the answer), until the answer expires
  its row stays as it is however the requests interleave, no request runs under the key, and the same request is answered
  with the stored answer.\<close>

theorem answered_once:
  assumes "prompt_run (no_keys now) s" "prompt_run s s'" "find_key k (keys s) = Some r" "key_state r = COMPLETED"
    and "clock s' \<le> created_at r + KEY_TTL_SECONDS"
  shows "find_key k (keys s') = Some r \<and> (\<forall>i < length (requests s'). \<forall>b. wants (requests s' ! i) = k \<longrightarrow> phase (requests s' ! i) \<noteq> Running b) \<and>
    decide (clock s') (request_hash r) (find_key k (keys s')) = Replay (replay r)"
proof -
  have inv: "key_inv s" using prompt_run_keeps [OF assms(1) no_keys_inv] by simp
  have inv': "key_inv s'" using prompt_run_keeps [OF assms(2) inv] by simp
  note r = find_key_Some [OF assms(3)]
  have here: "r \<in> set (keys s')" using prompt_run_keeps_answer [OF assms(2) inv] r assms(4,5) by blast
  have found: "find_key k (keys s') = Some r" using find_key_row [OF key_invD(1) [OF inv'] here] r by simp
  have "phase (requests s' ! i) \<noteq> Running b" if "i < length (requests s')" "wants (requests s' ! i) = k" for i b
  proof
    note a = that
    assume "phase (requests s' ! i) = Running b"
    then obtain r' where "r' \<in> set (keys s')" "key_id r' = k" "key_state r' = IN_PROGRESS"
      using running_row [OF inv' a(1)] a(2) by metis
    then show False using distinct_key_eq [OF key_invD(1) [OF inv'] _ here] r assms(4) by (metis key_state.distinct(1))
  qed
  then show ?thesis using found assms(4) by (auto simp: decide_def)
qed

lemma begin_absent:
  "find_key k t = None \<Longrightarrow> begin_passes (Suc n) now k h t = (Inr None, snd (reserve now k h t)) \<and>
   snd (reserve now k h t) = expire_keys now t @ [\<lparr>key_id = k, request_hash = h, key_state = IN_PROGRESS, response_status = None,
                        response_body = JNull, created_at = now\<rparr>]"
proof -
  assume none: "find_key k t = None"
  then have "find_key k (expire_keys now t) = None" by (auto simp: find_key_None expire_keys_def set_delete_where)
  then have "reserve now k h t = (True, expire_keys now t @ [\<lparr>key_id = k, request_hash = h, key_state = IN_PROGRESS,
      response_status = None, response_body = JNull, created_at = now\<rparr>])" by (simp add: reserve_def)
  then show ?thesis by (simp add: none decide_def)
qed

lemma find_key_append: "k \<notin> key_id ` set t \<Longrightarrow> find_key k (t @ [r]) = (if key_id r = k then Some r else None)"
  by (induction t) (auto simp: find_key_def row_where_def)

text \<open>A key on first use: the command runs once. If it raises, its error is passed on and the key is free again; if it
  returns, then until the answer expires the same request is answered with the stored status and body, and any other request
  under the key is refused with a 422, both without running or changing anything.\<close>

theorem first_use_then_repeat:
  assumes first: "first = run_idempotent (Some k) (Some who) module status h run now ts"
    and "valid_key k" "who \<noteq> []" "find_key (module, who, k) (fst ts) = None" "now \<le> later" "later \<le> now + KEY_TTL_SECONDS"
  shows "case run (snd ts) of
      (Inl err, state') \<Rightarrow> fst first = Inl err \<and> snd (snd first) = state' \<and> find_key (module, who, k) (fst (snd first)) = None
    | (Inr res, state') \<Rightarrow> fst first = Inr (Ran res) \<and> snd (snd first) = state' \<and>
        run_idempotent (Some k) (Some who) module status h run later (snd first) = (Inr (Replayed (stored_answer status res)), snd first) \<and>
        (h' \<noteq> h \<longrightarrow> run_idempotent (Some k) (Some who) module status h' run' later (snd first) = (Inl IDEMPOTENCY_KEY_REUSED, snd first))"
proof -
  let ?kid = "(module, who, k)"
  define own where "own = \<lparr>key_id = ?kid, request_hash = h, key_state = IN_PROGRESS, response_status = None, response_body = JNull, created_at = now\<rparr>"
  let ?t = "expire_keys now (fst ts)"
  have start: "begin_passes 2 now ?kid h (fst ts) = (Inr None, ?t @ [own])"
    using begin_absent [OF assms(4), of 1 now h] by (simp add: own_def numeral_2_eq_2)
  have absent: "?kid \<notin> key_id ` set ?t" using assms(4) by (auto simp: find_key_None expire_keys_def set_delete_where)
  have done_rows: "complete ?kid status res (?t @ [own]) = ?t @ [own\<lparr>key_state := COMPLETED,
      response_status := Some (fst (stored_answer status res)), response_body := snd (stored_answer status res)\<rparr>]" for res
  proof -
    have "update_where (\<lambda>r. key_id r = ?kid) f ?t = ?t" for f unfolding update_where_def by (rule map_idI) (use absent in \<open>auto simp: image_iff\<close>)
    then show ?thesis by (simp add: complete_def update_where_def own_def)
  qed
  have freed: "find_key ?kid (release ?kid (?t @ [own])) = None" using absent
    by (auto simp: find_key_None release_def set_delete_where own_def)
  have first: "first = (case run (snd ts) of
      (Inl err, s') \<Rightarrow> (Inl err, release ?kid (?t @ [own]), s')
    | (Inr res, s') \<Rightarrow> (Inr (Ran res), complete ?kid status res (?t @ [own]), s'))"
    using assms(2,3) start by (simp add: first run_idempotent_def Let_def)
  show ?thesis
  proof (cases "run (snd ts)")
    case (Pair r s')
    show ?thesis
    proof (cases r)
      case (Inr res)
      have found: "find_key ?kid (complete ?kid status res (?t @ [own])) = Some (own\<lparr>key_state := COMPLETED,
          response_status := Some (fst (stored_answer status res)), response_body := snd (stored_answer status res)\<rparr>)"
        unfolding done_rows using find_key_append [OF absent] by (simp add: own_def)
      show ?thesis using assms(2,3) found Pair Inr first
        by (simp add: run_idempotent_def Let_def numeral_2_eq_2 decide_def replay_def own_def)
    qed (use freed Pair first in simp)
  qed
qed

text \<open>The steps as functions, to run a schedule.\<close>

datatype key_move = Tick nat | Arrive string | Read nat | Write nat | Answer nat json | Crash nat

definition demo_kid :: key_id where "demo_kid = (''m'', ''rapp'', ''k'')"

definition move :: "key_move \<Rightarrow> key_system \<Rightarrow> key_system" where
  "move mv s =
     (case mv of
        Tick d \<Rightarrow> s\<lparr>clock := clock s + int (Suc d)\<rparr>
      | Arrive h \<Rightarrow> s\<lparr>requests := requests s @ [\<lparr>wants = demo_kid, fingerprint = h, phase = Starting 2\<rparr>]\<rparr>
      | Read i \<Rightarrow> (case phase (requests s ! i) of
            Starting (Suc n) \<Rightarrow>
              let dec = decide (clock s) (fingerprint (requests s ! i)) (find_key (wants (requests s ! i)) (keys s))
              in set_phase i (case dec of Replay a \<Rightarrow> Finished (Inr (Replayed a)) | Refuse err \<Rightarrow> Finished (Inl err) | _ \<Rightarrow> Writing n dec) s
          | _ \<Rightarrow> s)
      | Write i \<Rightarrow> (case phase (requests s ! i) of
            Writing n Reserve \<Rightarrow>
              (case reserve (clock s) (wants (requests s ! i)) (fingerprint (requests s ! i)) (keys s) of
                 (won, t) \<Rightarrow> set_phase i (after_write n (clock s) won) (s\<lparr>keys := t\<rparr>))
          | Writing n (Take_over seen) \<Rightarrow>
              (case take_over (clock s) (wants (requests s ! i)) seen (keys s) of
                 (won, t) \<Rightarrow> set_phase i (after_write n (clock s) won) (s\<lparr>keys := t\<rparr>))
          | _ \<Rightarrow> s)
      | Answer i v \<Rightarrow> set_phase i (Finished (Inr (Ran (Value v)))) (s\<lparr>keys := complete (wants (requests s ! i)) 201 (Value v) (keys s)\<rparr>)
      | Crash i \<Rightarrow> set_phase i Crashed s)"

definition enabled :: "key_move \<Rightarrow> key_system \<Rightarrow> bool" where
  "enabled mv s =
     (case mv of Tick d \<Rightarrow> True | Arrive h \<Rightarrow> True
      | Read i \<Rightarrow> i < length (requests s) \<and> (case phase (requests s ! i) of Starting n \<Rightarrow> n \<noteq> 0 | _ \<Rightarrow> False)
      | Write i \<Rightarrow> i < length (requests s) \<and>
          (case phase (requests s ! i) of Writing n Reserve \<Rightarrow> True | Writing n (Take_over seen) \<Rightarrow> True | _ \<Rightarrow> False)
      | Answer i v \<Rightarrow> i < length (requests s) \<and> (case phase (requests s ! i) of Running b \<Rightarrow> True | _ \<Rightarrow> False)
      | Crash i \<Rightarrow> i < length (requests s) \<and> (case phase (requests s ! i) of Running b \<Rightarrow> True | _ \<Rightarrow> False))"

lemma move_step: "enabled mv s \<Longrightarrow> key_step s (move mv s)"
proof (cases mv)
  case (Tick d)
  then show ?thesis using key_step.tick [of "int (Suc d)" s] by (simp add: move_def)
next
  case (Arrive h)
  then show ?thesis using key_step.arrive [of s demo_kid h] by (simp add: move_def)
next
  case (Read i)
  assume "enabled mv s"
  then obtain n where n: "i < length (requests s)" "phase (requests s ! i) = Starting (Suc n)"
    using Read not0_implies_Suc by (fastforce simp: enabled_def split: phase.splits)
  from key_step.read [OF n refl] show ?thesis using Read n by (simp add: move_def Let_def)
next
  case (Write i)
  assume "enabled mv s"
  then obtain n dec where n: "i < length (requests s)" "phase (requests s ! i) = Writing n dec" "dec = Reserve \<or> (\<exists>seen. dec = Take_over seen)"
    using Write by (auto simp: enabled_def split: phase.splits decision.splits)
  show ?thesis
  proof (cases dec)
    case Reserve
    then show ?thesis using Write n key_step.insert_row [of i s n] by (simp add: move_def split: prod.split)
  next
    case (Take_over seen)
    then show ?thesis using Write n key_step.cas [of i s n seen] by (simp add: move_def split: prod.split)
  qed (use n(3) in auto)
next
  case (Answer i v)
  assume "enabled mv s"
  then show ?thesis using Answer key_step.answered [of i s _ "Value v" 201]
    by (auto simp: move_def enabled_def split: phase.splits)
next
  case (Crash i)
  assume "enabled mv s"
  then show ?thesis using Crash key_step.crash [of i s]
    by (auto simp: move_def enabled_def split: phase.splits)
qed

fun schedule_ok :: "key_move list \<Rightarrow> key_system \<Rightarrow> bool" where
  "schedule_ok [] s = True"
| "schedule_ok (mv # mvs) s = (enabled mv s \<and> prompt (move mv s) \<and> schedule_ok mvs (move mv s))"

lemma prompt_run_trans: "prompt_run b c \<Longrightarrow> prompt_run a b \<Longrightarrow> prompt_run a c"
  by (induction rule: prompt_run.induct) (auto intro: prompt_run.step)

lemma schedule_run: "prompt s \<Longrightarrow> schedule_ok mvs s \<Longrightarrow> prompt_run s (fold move mvs s)"
proof (induction mvs arbitrary: s)
  case (Cons mv mvs)
  then have "prompt_run s (move mv s)" using prompt_run.step [OF prompt_run.start] move_step by auto
  moreover have "prompt_run (move mv s) (fold move mvs (move mv s))" using Cons by auto
  ultimately show ?case using prompt_run_trans by auto
qed (simp add: prompt_run.start)

text \<open>
  Requests 0 and 1 read that the key is new; 0 inserts its row, 1 loses the race, reads again and is told to come
  back. The replica of 0 dies. After the timeout 2 and 3 both read the abandoned row; 2 takes it over and 3 loses.
\<close>

definition demo_race :: "key_move list" where
  "demo_race = [Arrive ''h'', Arrive ''h'', Read 0, Read 1, Write 0, Write 1, Read 1, Crash 0, Tick 300,
     Arrive ''h'', Arrive ''h'', Read 2, Read 3, Write 2, Write 3, Read 3]"

definition demo_raced :: key_system where
  "demo_raced = fold move demo_race (no_keys 0)"

lemma demo_race_ok: "schedule_ok demo_race (no_keys 0)" "prompt (no_keys 0)"
  by code_simp+

lemma demo_race_run: "prompt_run (no_keys 0) demo_raced"
  unfolding demo_raced_def by (rule schedule_run) (rule demo_race_ok)+

lemma demo_race_end:
  "map phase (requests demo_raced) = [Crashed, Finished (Inl IDEMPOTENCY_KEY_IN_PROGRESS), Running 301, Finished (Inl IDEMPOTENCY_KEY_IN_PROGRESS)]"
  "map wants (requests demo_raced) = [demo_kid, demo_kid, demo_kid, demo_kid]"
  by code_simp+

theorem one_owner_per_key_witness:
  "{i. i < length (requests demo_raced) \<and> wants (requests demo_raced ! i) = demo_kid \<and> (\<exists>b. phase (requests demo_raced ! i) = Running b)} = {2}"
proof -
  have four: "length (requests demo_raced) = 4" using arg_cong [OF demo_race_end(1), of length] by simp
  have two: "phase (requests demo_raced ! 2) = Running 301" "wants (requests demo_raced ! 2) = demo_kid"
    using demo_race_end four nth_map [of 2 "requests demo_raced" phase] nth_map [of 2 "requests demo_raced" wants] by simp_all
  have "i = 2" if "i < 4" "wants (requests demo_raced ! i) = demo_kid" "phase (requests demo_raced ! i) = Running b" for i b
    using one_owner_per_key [OF demo_race_run, of i 2 b 301] that two four by simp
  then show ?thesis using two four by auto
qed

text \<open>The one that took over answers; a fifth request reads the table a minute later.\<close>

definition demo_late :: key_system where
  "demo_late = fold move [Tick 59, Arrive ''h'', Read 4] (move (Answer 2 (JInt 1)) demo_raced)"

lemma demo_late_run: "prompt_run (no_keys 0) (move (Answer 2 (JInt 1)) demo_raced)" "prompt_run (move (Answer 2 (JInt 1)) demo_raced) demo_late"
proof -
  have ok: "enabled (Answer 2 (JInt 1)) demo_raced" "prompt (move (Answer 2 (JInt 1)) demo_raced)"
    "schedule_ok [Tick 59, Arrive ''h'', Read 4] (move (Answer 2 (JInt 1)) demo_raced)"
    by code_simp+
  then show "prompt_run (no_keys 0) (move (Answer 2 (JInt 1)) demo_raced)" using prompt_run.step [OF demo_race_run] move_step by blast
  show "prompt_run (move (Answer 2 (JInt 1)) demo_raced) demo_late" unfolding demo_late_def by (rule schedule_run) (rule ok)+
qed

theorem answered_once_witness:
  "phase (requests demo_late ! 4) = Finished (Inr (Replayed (201, JInt 1))) \<and>
   map response_body (keys demo_late) = [JInt 1] \<and> decide (clock demo_late) ''h'' (find_key demo_kid (keys demo_late)) = Replay (201, JInt 1)"
proof -
  define row where "row = \<lparr>key_id = demo_kid, request_hash = ''h'', key_state = COMPLETED, response_status = Some 201,
      response_body = JInt 1, created_at = 301\<rparr>"
  have "find_key demo_kid (keys (move (Answer 2 (JInt 1)) demo_raced)) = Some row" "clock demo_late \<le> created_at row + KEY_TTL_SECONDS"
    unfolding row_def by code_simp+
  then have "decide (clock demo_late) (request_hash row) (find_key demo_kid (keys demo_late)) = Replay (replay row)"
    using answered_once [OF demo_late_run, of demo_kid row] by (auto simp: row_def)
  then have "decide (clock demo_late) ''h'' (find_key demo_kid (keys demo_late)) = Replay (201, JInt 1)"
    by (simp add: row_def replay_def)
  moreover have "phase (requests demo_late ! 4) = Finished (Inr (Replayed (201, JInt 1)))" "map response_body (keys demo_late) = [JInt 1]" by code_simp+
  ultimately show ?thesis by blast
qed

text \<open>
  Without the bound: request 0 outlives the timeout, 1 takes its key over and answers, and 0 then answers in its
  turn: the command ran twice and the answer stored first is lost.
\<close>

lemma slow_route_overwrites:
  "map response_body (keys (fold move [Arrive ''h'', Read 0, Write 0, Tick 300, Arrive ''h'', Read 1, Write 1, Answer 1 (JInt 1)] (no_keys 0))) = [JInt 1] \<and>
   map response_body (keys (fold move [Arrive ''h'', Read 0, Write 0, Tick 300, Arrive ''h'', Read 1, Write 1, Answer 1 (JInt 1), Answer 0 (JInt 2)] (no_keys 0))) = [JInt 2]"
  by code_simp

theorem first_use_then_repeat_witness:
  "fst (run_idempotent (Some ''k'') (Some ''rapp'') ''m'' 201 ''h2'' (\<lambda>n. (Inr (Value (JInt 2)), n + 1)) 9
     (snd (run_idempotent (Some ''k'') (Some ''rapp'') ''m'' 201 ''h'' (\<lambda>n. (Inr (Value (JInt 1)), n + 1)) 0 ([], 0::nat)))) =
   Inl IDEMPOTENCY_KEY_REUSED"
proof -
  have "valid_key ''k''" by code_simp
  from first_use_then_repeat [OF refl this, where who = "''rapp''" and module = "''m''" and ts = "([], 0::nat)" and now = 0 and later = 9
      and run = "\<lambda>n. (Inr (Value (JInt 1)), n + 1)" and status = 201 and h = "''h''" and h' = "''h2''"
      and run' = "\<lambda>n. (Inr (Value (JInt 2)), n + 1)"]
  show ?thesis by (simp add: find_key_def row_where_def KEY_TTL_SECONDS_def)
qed

end
