(* ===== verification/Webhook.thy ===== *)
theory Webhook
  imports SmoPrelude "HOL-Library.Word"
begin

unbundle bit_operations_syntax

section \<open>The destination guard of outgoing callbacks (shared/smo\_shared/webhook.py)\<close>

text \<open>
  Host names are ASCII here, on which the compatibility folding of \<open>_canonical_host\<close> changes
  nothing. An IPv4 address is a 32-bit word and an IPv6 address a 128-bit word. Parameters, because
  they are the standard library's or the network's: \<open>urlsplit\<close>, the IPv6 reader of \<open>ipaddress\<close>, the
  resolver and the HTTP client.
\<close>

datatype ip_address = IPv4 "32 word" | IPv6 "128 word"

text \<open>What \<open>urlsplit\<close> gives: reading the port may raise on its own.\<close>

record split_url =
  scheme :: string
  hostname :: "string option"
  port :: "py_error + nat option"
  userinfo :: "string option \<times> string option"
  url_path :: string

definition ALLOWED_SCHEMES :: "string list" where "ALLOWED_SCHEMES = [''http'', ''https'']"

definition BLOCKED_HOSTNAMES :: "string list" where
  "BLOCKED_HOSTNAMES = [''localhost'', ''localhost.localdomain'', ''ip6-localhost'', ''ip6-loopback'',
     ''metadata.google.internal'', ''metadata'']"

definition BLOCKED_SUFFIX :: string where "BLOCKED_SUFFIX = ''.localhost''"

definition rstrip_dots :: "string \<Rightarrow> string" where
  "rstrip_dots s = rev (dropWhile (\<lambda>ch. ch = CHR ''.'') (rev s))"

definition canonical_host :: "string \<Rightarrow> string" where
  "canonical_host host = lower (rstrip_dots host)"

fun split_dots :: "string \<Rightarrow> string list" where
  "split_dots [] = [[]]"
| "split_dots (ch # s) = (if ch = CHR ''.'' then [] # split_dots s
     else case split_dots s of [] \<Rightarrow> [[ch]] | l # ls \<Rightarrow> (ch # l) # ls)"

subsection \<open>Numbers as \<open>inet_aton\<close> reads them\<close>

definition decimal_digit :: "char \<Rightarrow> bool" where "decimal_digit ch \<longleftrightarrow> CHR ''0'' \<le> ch \<and> ch \<le> CHR ''9''"

definition hex_digit :: "char \<Rightarrow> bool" where
  "hex_digit ch \<longleftrightarrow> decimal_digit ch \<or> CHR ''a'' \<le> ch \<and> ch \<le> CHR ''f'' \<or> CHR ''A'' \<le> ch \<and> ch \<le> CHR ''F''"

definition digit_value :: "char \<Rightarrow> nat" where
  "digit_value ch = (if decimal_digit ch then of_char ch - 48
     else if CHR ''a'' \<le> ch then of_char ch - 87 else of_char ch - 55)"

definition hex_prefix :: "string \<Rightarrow> bool" where "hex_prefix l \<longleftrightarrow> take 2 l = ''0x'' \<or> take 2 l = ''0X''"

definition numeric_label :: "string \<Rightarrow> bool" where
  "numeric_label l \<longleftrightarrow> hex_prefix l \<and> list_all hex_digit (drop 2 l) \<or> l \<noteq> [] \<and> list_all decimal_digit l"

definition read_number :: "nat \<Rightarrow> string \<Rightarrow> nat" where
  "read_number b s = foldl (\<lambda>v ch. v * b + digit_value ch) 0 s"

text \<open>\<open>None\<close>: a digit 8 or 9 in an octal-looking label.\<close>

definition label_value :: "string \<Rightarrow> nat option" where
  "label_value l =
     (if hex_prefix l then Some (read_number 16 (drop 2 l))
      else if take 1 l = ''0'' then (if list_all (\<lambda>ch. digit_value ch < 8) l then Some (read_number 8 l) else None)
      else Some (read_number 10 l))"

fun or_leading :: "nat \<Rightarrow> nat list \<Rightarrow> 32 word \<Rightarrow> 32 word" where
  "or_leading position [] v = v"
| "or_leading position (n # ns) v = or_leading (Suc position) ns (v OR push_bit (8 * (3 - position)) (of_nat n))"

definition parse_inet_aton :: "string \<Rightarrow> py_error + ip_address option" where
  "parse_inet_aton host =
     (let labels = split_dots host in
      if \<not> (1 \<le> length labels \<and> length labels \<le> 4) \<or> \<not> list_all numeric_label labels
      then if labels \<noteq> [] \<and> list_all numeric_label labels then Inl (ValueError ''too many numeric labels'') else Inr None
      else (case those (map label_value labels) of
              None \<Rightarrow> Inl (ValueError ''bad numeric label'')
            | Some numbers \<Rightarrow>
                if list_ex (\<lambda>n. n > 255) (butlast numbers) \<or> last numbers \<ge> 256 ^ (5 - length numbers)
                then Inl (ValueError ''numeric label out of range'')
                else Inr (Some (IPv4 (or_leading 0 (butlast numbers) (of_nat (last numbers)))))))"

definition literal_ip :: "(string \<Rightarrow> ip_address option) \<Rightarrow> string \<Rightarrow> py_error + ip_address option" where
  "literal_ip read_ipv6 name =
     (let host = canonical_host name in
      if CHR '':'' \<in> set host
      then (case read_ipv6 (takeWhile (\<lambda>ch. ch \<noteq> CHR ''%'') host) of
              None \<Rightarrow> Inl (ValueError ''not an IPv6 address'') | Some ip \<Rightarrow> Inr (Some ip))
      else parse_inet_aton host)"

subsection \<open>Blocked addresses\<close>

definition in_net4 :: "32 word \<Rightarrow> nat \<Rightarrow> 32 word \<Rightarrow> bool" where
  "in_net4 base len ip \<longleftrightarrow> drop_bit (32 - len) ip = drop_bit (32 - len) base"

definition in_net6 :: "128 word \<Rightarrow> nat \<Rightarrow> 128 word \<Rightarrow> bool" where
  "in_net6 base len ip \<longleftrightarrow> drop_bit (128 - len) ip = drop_bit (128 - len) base"

text \<open>\<open>is_loopback\<close>, \<open>is_link_local\<close>, \<open>is_multicast\<close>, \<open>is_unspecified\<close> and \<open>is_reserved\<close> of
  the library's two address classes.\<close>

definition blocked4 :: "32 word \<Rightarrow> bool" where
  "blocked4 ip \<longleftrightarrow> in_net4 0x7F000000 8 ip \<or> in_net4 0xA9FE0000 16 ip \<or> in_net4 0xE0000000 4 ip \<or> ip = 0 \<or>
     in_net4 0xF0000000 4 ip"

definition reserved_nets6 :: "(128 word \<times> nat) list" where
  "reserved_nets6 = [(0, 8), (push_bit 120 1, 8), (push_bit 120 2, 7), (push_bit 120 4, 6), (push_bit 120 8, 5),
     (push_bit 120 0x10, 4), (push_bit 120 0x40, 3), (push_bit 120 0x60, 3), (push_bit 120 0x80, 3),
     (push_bit 120 0xA0, 3), (push_bit 120 0xC0, 3), (push_bit 120 0xE0, 4), (push_bit 120 0xF0, 5),
     (push_bit 120 0xF8, 6), (push_bit 120 0xFE, 9)]"

definition ipv4_mapped :: "128 word \<Rightarrow> 32 word option" where
  "ipv4_mapped ip = (if drop_bit 32 ip = 0xFFFF then Some (ucast ip) else None)"

text \<open>Since Python 3.13 (the image has 3.14) the predicates of a mapped address are those of the IPv4 address in it.\<close>

definition blocked6 :: "128 word \<Rightarrow> bool" where
  "blocked6 ip \<longleftrightarrow> (case ipv4_mapped ip of
       Some e \<Rightarrow> blocked4 e
     | None \<Rightarrow> ip = 1 \<or> in_net6 (push_bit 112 0xFE80) 10 ip \<or> in_net6 (push_bit 120 0xFF) 8 ip \<or> ip = 0 \<or>
         list_ex (\<lambda>(base, len). in_net6 base len ip) reserved_nets6)"

definition sixtofour :: "128 word \<Rightarrow> 32 word option" where
  "sixtofour ip = (if drop_bit 112 ip = 0x2002 then Some (ucast (drop_bit 80 ip)) else None)"

definition NAT64_PREFIX :: "128 word" where "NAT64_PREFIX = push_bit 96 0x64FF9B"

definition is_blocked_address :: "ip_address \<Rightarrow> bool" where
  "is_blocked_address ip =
     (case ip of
        IPv4 a \<Rightarrow> blocked4 a
      | IPv6 a \<Rightarrow>
          (case (case ipv4_mapped a of None \<Rightarrow> sixtofour a | Some e \<Rightarrow> Some e) of Some e \<Rightarrow> blocked4 e | None \<Rightarrow> False) \<or>
          in_net6 NAT64_PREFIX 96 a \<or> blocked6 a)"

definition is_blocked_literal_ip :: "(string \<Rightarrow> ip_address option) \<Rightarrow> string \<Rightarrow> bool" where
  "is_blocked_literal_ip read_ipv6 host =
     (case literal_ip read_ipv6 host of Inl _ \<Rightarrow> True | Inr None \<Rightarrow> False | Inr (Some ip) \<Rightarrow> is_blocked_address ip)"

definition is_blocked_hostname :: "string \<Rightarrow> bool" where
  "is_blocked_hostname host \<longleftrightarrow> canonical_host host \<in> set BLOCKED_HOSTNAMES \<or> suffix BLOCKED_SUFFIX (canonical_host host)"

text \<open>\<open>urlsplit\<close> raising is \<open>None\<close>. An empty host is no host.\<close>

definition host_of :: "split_url \<Rightarrow> string option" where
  "host_of u = (case hostname u of None \<Rightarrow> None | Some h \<Rightarrow> if h = [] then None else Some h)"

definition is_safe_webhook_destination :: "(string \<Rightarrow> split_url option) \<Rightarrow> (string \<Rightarrow> ip_address option) \<Rightarrow> string option \<Rightarrow> bool" where
  "is_safe_webhook_destination urlsplit read_ipv6 destination =
     (case destination of
        None \<Rightarrow> False
      | Some d \<Rightarrow>
          d \<noteq> [] \<and>
          (case urlsplit d of
             None \<Rightarrow> False
           | Some u \<Rightarrow>
               scheme u \<in> set ALLOWED_SCHEMES \<and>
               (case host_of u of
                  None \<Rightarrow> False
                | Some h \<Rightarrow> \<not> is_blocked_hostname h \<and> \<not> is_blocked_literal_ip read_ipv6 h)))"

definition resolves_to_blocked_address ::
  "(string \<Rightarrow> split_url option) \<Rightarrow> (string \<Rightarrow> ip_address option) \<Rightarrow> (string \<Rightarrow> nat option \<Rightarrow> ip_address list) \<Rightarrow> string option \<Rightarrow> bool" where
  "resolves_to_blocked_address urlsplit read_ipv6 resolve destination =
     (case destination of
        None \<Rightarrow> True
      | Some d \<Rightarrow>
          d = [] \<or>
          (case urlsplit d of
             None \<Rightarrow> True
           | Some u \<Rightarrow>
               (case (host_of u, port u) of
                  (_, Inl _) \<Rightarrow> True
                | (None, Inr _) \<Rightarrow> True
                | (Some h, Inr p) \<Rightarrow>
                    (case literal_ip read_ipv6 h of
                       Inl _ \<Rightarrow> True
                     | Inr (Some _) \<Rightarrow> False
                     | Inr None \<Rightarrow> list_ex is_blocked_address (resolve h p)))))"

text \<open>The base URL a workload or an operator registers, without its trailing slashes.\<close>

definition url_character :: "char \<Rightarrow> bool" where
  "url_character ch \<longleftrightarrow> \<not> (of_char ch < (33::nat) \<or> of_char ch = (127::nat)) \<and> ch \<notin> {CHR ''?'', CHR ''#'', CHR 0x5C, CHR ''%''}"

definition normalise_base_url :: "(string \<Rightarrow> split_url option) \<Rightarrow> (string \<Rightarrow> ip_address option) \<Rightarrow> string option \<Rightarrow> string option" where
  "normalise_base_url urlsplit read_ipv6 value =
     (case value of
        None \<Rightarrow> None
      | Some v \<Rightarrow>
          if v = [] \<or> length v > 300 \<or> v \<noteq> strip v \<or> \<not> list_all url_character v then None
          else (case urlsplit v of
            None \<Rightarrow> None
          | Some u \<Rightarrow>
              (case port u of
                 Inl _ \<Rightarrow> None
               | Inr p \<Rightarrow>
                   if userinfo u \<noteq> (None, None) \<or> p = Some 0 \<or> sublist ''..'' (url_path u) \<or> sublist ''//'' (url_path u) then None
                   else if \<not> is_safe_webhook_destination urlsplit read_ipv6 (Some v) then None
                   else Some (rstrip_char (CHR ''/'') v))))"

text \<open>\<open>_send\<close> of webhook.py: the calls that leave the process are logged in order; \<open>client\<close> answers
  with a status code or, on a timeout or transport error, nothing.\<close>

type_synonym http_call = "string \<times> string \<times> json"

definition send_webhook ::
  "(string \<Rightarrow> split_url option) \<Rightarrow> (string \<Rightarrow> ip_address option) \<Rightarrow> (string \<Rightarrow> nat option \<Rightarrow> ip_address list) \<Rightarrow>
   (http_call \<Rightarrow> nat option) \<Rightarrow> string \<Rightarrow> string option \<Rightarrow> json \<Rightarrow> http_call list \<Rightarrow> nat option \<times> http_call list" where
  "send_webhook urlsplit read_ipv6 resolve client verb destination body calls =
     (if \<not> is_safe_webhook_destination urlsplit read_ipv6 destination \<or>
         resolves_to_blocked_address urlsplit read_ipv6 resolve destination
      then (None, calls)
      else let call = (verb, the destination, body) in (client call, calls @ [call]))"

subsection \<open>Spelling an address\<close>

text \<open>The other direction: a number written in one of the three ways a client accepts.\<close>

datatype radix = Dec | Oct | Hex

fun digit_char :: "nat \<Rightarrow> char" where
  "digit_char d = (if d < 10 then char_of (48 + d) else char_of (87 + d))"

declare digit_char.simps [simp del]

fun digits :: "nat \<Rightarrow> nat \<Rightarrow> string" where
  "digits b n = (if b < 2 \<or> n < b then [digit_char n] else digits b (n div b) @ [digit_char (n mod b)])"

declare digits.simps [simp del]

fun spell :: "radix \<Rightarrow> nat \<Rightarrow> string" where
  "spell Dec n = digits 10 n"
| "spell Oct n = CHR ''0'' # digits 8 n"
| "spell Hex n = ''0x'' @ digits 16 n"

fun join_dots :: "string list \<Rightarrow> string" where
  "join_dots [] = []"
| "join_dots [l] = l"
| "join_dots (l # ls) = l @ CHR ''.'' # join_dots ls"

text \<open>The one to four numbers the address \<open>a.b.c.d\<close> can be written with.\<close>

fun parts_of :: "nat \<Rightarrow> nat \<times> nat \<times> nat \<times> nat \<Rightarrow> nat list" where
  "parts_of n (a, b, c, d) =
     (if n = 1 then [((a * 256 + b) * 256 + c) * 256 + d]
      else if n = 2 then [a, (b * 256 + c) * 256 + d]
      else if n = 3 then [a, b, c * 256 + d]
      else [a, b, c, d])"

definition address_of :: "nat \<times> nat \<times> nat \<times> nat \<Rightarrow> 32 word" where
  "address_of q = (case q of (a, b, c, d) \<Rightarrow> of_nat (((a * 256 + b) * 256 + c) * 256 + d))"

lemma digit_char_cases: "d < 16 \<Longrightarrow> digit_char d \<in> set ''0123456789abcdef'' \<and> digit_value (digit_char d) = d \<and>
    (d < 10 \<longrightarrow> decimal_digit (digit_char d)) \<and> hex_digit (digit_char d)"
proof -
  have "\<forall>d \<in> set [0..<16]. digit_char d \<in> set ''0123456789abcdef'' \<and> digit_value (digit_char d) = d \<and>
      (d < 10 \<longrightarrow> decimal_digit (digit_char d)) \<and> hex_digit (digit_char d)"
    by code_simp
  then show "d < 16 \<Longrightarrow> ?thesis" by auto
qed

lemma digits_ne: "digits b n \<noteq> []"
  by (subst digits.simps) simp

lemma digits_chars: "2 \<le> b \<Longrightarrow> ch \<in> set (digits b n) \<Longrightarrow> \<exists>d < b. ch = digit_char d"
proof (induction b n rule: digits.induct)
  case (1 b n)
  show ?case
  proof (cases "n < b")
    case True
    then show ?thesis using 1(2,3) by (subst (asm) digits.simps) auto
  next
    case False
    then have "ch \<in> set (digits b (n div b)) \<or> ch = digit_char (n mod b)" using 1(2,3) by (subst (asm) digits.simps) auto
    moreover have "n mod b < b" using 1(2) by simp
    ultimately show ?thesis using 1(1,2) False by (metis not_less)
  qed
qed

lemma read_number_append: "read_number b (s @ [ch]) = read_number b s * b + digit_value ch"
  by (simp add: read_number_def)

lemma read_number_digits: "2 \<le> b \<Longrightarrow> b \<le> 16 \<Longrightarrow> read_number b (digits b n) = n"
proof (induction b n rule: digits.induct)
  case (1 b n)
  show ?case
  proof (cases "n < b")
    case True
    then have "digit_value (digit_char n) = n" using 1(3) digit_char_cases [of n] by simp
    then show ?thesis using True by (subst digits.simps) (simp add: read_number_def)
  next
    case False
    have "n mod b < 16" using 1(2,3) by (meson less_le_trans mod_less_divisor zero_less_numeral order_less_le_trans)
    then have "digit_value (digit_char (n mod b)) = n mod b" using digit_char_cases [of "n mod b"] by simp
    then show ?thesis using False 1 by (subst digits.simps) (simp add: read_number_append)
  qed
qed

lemma digits_hd: "2 \<le> b \<Longrightarrow> b \<le> 16 \<Longrightarrow> hd (digits b n) = CHR ''0'' \<Longrightarrow> n = 0"
proof (induction b n rule: digits.induct)
  case (1 b n)
  show ?case
  proof (cases "n < b")
    case True
    then have "digit_char n = CHR ''0''" "digit_value (digit_char n) = n"
      using 1(2-4) digit_char_cases [of n] by (simp_all add: digits.simps [of b n])
    then show ?thesis by (simp add: digit_value_def decimal_digit_def)
  next
    case False
    then have "n div b = 0" using 1 by (simp add: digits.simps [of b n] digits_ne)
    then show ?thesis using False 1(2) by (simp add: div_eq_0_iff)
  qed
qed

lemma spell_chars: "set (spell r n) \<subseteq> set ''0123456789abcdefx''"
proof -
  have "ch \<in> set ''0123456789abcdef''" if "ch \<in> set (digits b n)" "2 \<le> b" "b \<le> 16" for b ch
    using digits_chars [OF that(2,1)] digit_char_cases that(3) by (meson less_le_trans)
  then show ?thesis by (cases r) fastforce+
qed

lemma decimal_digits: "2 \<le> b \<Longrightarrow> b \<le> 10 \<Longrightarrow> list_all (\<lambda>ch. decimal_digit ch \<and> digit_value ch < b) (digits b n)"
  unfolding list_all_iff using digits_chars digit_char_cases by fastforce

lemma decimal_no_prefix: "list_all decimal_digit l \<Longrightarrow> \<not> hex_prefix l"
proof
  assume l: "list_all decimal_digit l" and h: "hex_prefix l"
  then have "CHR ''x'' \<in> set (take 2 l) \<or> CHR ''X'' \<in> set (take 2 l)" by (auto simp: hex_prefix_def)
  then have "CHR ''x'' \<in> set l \<or> CHR ''X'' \<in> set l" by (meson in_set_takeD)
  then have "decimal_digit CHR ''x'' \<or> decimal_digit CHR ''X''" using l by (auto simp: list_all_iff)
  then show False by (auto simp: decimal_digit_def)
qed

lemma spell_decimal: "r \<noteq> Hex \<Longrightarrow> list_all decimal_digit (spell r n)"
  using decimal_digits [of 10 n] decimal_digits [of 8 n]
  by (cases r) (auto simp: list_all_iff decimal_digit_def)

lemma numeric_spell: "numeric_label (spell r n)"
proof (cases "r = Hex")
  case True
  then show ?thesis using digits_chars [of 16 _ n] digit_char_cases
    by (fastforce simp: numeric_label_def hex_prefix_def list_all_iff)
next
  case False
  moreover have "spell r n \<noteq> []" using digits_ne by (cases r) auto
  ultimately show ?thesis using spell_decimal by (auto simp: numeric_label_def)
qed

lemma label_value_spell: "label_value (spell r n) = Some n"
proof (cases r)
  case Dec
  have no: "\<not> hex_prefix (digits 10 n)" using decimal_no_prefix spell_decimal [of Dec n] by simp
  show ?thesis
  proof (cases "take 1 (digits 10 n) = ''0''")
    case True
    then have "hd (digits 10 n) = CHR ''0''" using digits_ne by (cases "digits 10 n") auto
    then have "n = 0" by (rule digits_hd [rotated 2]) simp_all
    moreover have "label_value (digits 10 0) = Some 0" by code_simp
    ultimately show ?thesis using Dec by simp
  qed (use no Dec read_number_digits in \<open>simp add: label_value_def\<close>)
next
  case Oct
  have no: "\<not> hex_prefix (CHR ''0'' # digits 8 n)" using decimal_no_prefix spell_decimal [of Oct n] by simp
  have "list_all (\<lambda>ch. digit_value ch < 8) (CHR ''0'' # digits 8 n)"
    using decimal_digits [of 8 n] by (auto simp: list_all_iff digit_value_def decimal_digit_def)
  moreover have "read_number 8 (CHR ''0'' # s) = read_number 8 s" for s
    by (simp add: read_number_def digit_value_def decimal_digit_def)
  ultimately show ?thesis using no Oct read_number_digits [of 8 n] by (simp add: label_value_def)
next
  case Hex
  then show ?thesis using read_number_digits [of 16 n] by (simp add: label_value_def hex_prefix_def)
qed

lemma split_dots_append: "CHR ''.'' \<notin> set l \<Longrightarrow> split_dots (l @ CHR ''.'' # s) = l # split_dots s"
  by (induction l) auto

lemma split_dots_one: "CHR ''.'' \<notin> set l \<Longrightarrow> split_dots l = [l]"
  by (induction l) auto

lemma split_join: "ls \<noteq> [] \<Longrightarrow> \<forall>l \<in> set ls. CHR ''.'' \<notin> set l \<Longrightarrow> split_dots (join_dots ls) = ls"
  by (induction ls rule: join_dots.induct) (auto simp: split_dots_append split_dots_one)

lemma in_join_dots: "ch \<in> set (join_dots ls) \<Longrightarrow> ch = CHR ''.'' \<or> (\<exists>l \<in> set ls. ch \<in> set l)"
  by (induction ls rule: join_dots.induct) auto

lemma last_join_dots: "ls \<noteq> [] \<Longrightarrow> \<forall>l \<in> set ls. l \<noteq> [] \<Longrightarrow> last (join_dots ls) = last (last ls) \<and> join_dots ls \<noteq> []"
  by (induction ls rule: join_dots.induct) auto

subsection \<open>Every spelling is read as its address\<close>

lemma or_shift: "m < 2 ^ k \<Longrightarrow> m + x * 2 ^ k = m OR push_bit k x" for m x :: nat
proof -
  assume "m < 2 ^ k"
  then have "take_bit k m = m" by (simp add: take_bit_nat_eq_self)
  then have "bit m n \<Longrightarrow> n < k" for n by (metis bit_take_bit_iff)
  then have "m + push_bit k x = m OR push_bit k x" by (intro disjunctive_add) (metis bit_push_bit_iff_nat not_less)
  then show ?thesis by (simp add: push_bit_eq_mult)
qed
lemma word_or_shift: "m < 2 ^ k \<Longrightarrow> (of_nat (m + x * 2 ^ k) :: 32 word) = of_nat m OR push_bit k (of_nat x)"
  by (simp only: or_shift of_nat_or_eq flip: push_bit_of_nat)

lemma or_leading_parts:
  assumes "a < 256" "b < 256" "c < 256" "d < 256" "n \<in> {1, 2, 3, 4}"
  shows "or_leading 0 (butlast (parts_of n (a, b, c, d))) (of_nat (last (parts_of n (a, b, c, d)))) = address_of (a, b, c, d)"
proof -
  have eq: "((a * 256 + b) * 256 + c) * 256 + d = (d + c * 2 ^ 8 + b * 2 ^ 16) + a * 2 ^ 24"
    "(b * 256 + c) * 256 + d = (d + c * 2 ^ 8) + b * 2 ^ 16" "c * 256 + d = d + c * 2 ^ 8" by simp_all
  have bound: "d < 2 ^ 8" "d + c * 2 ^ 8 < 2 ^ 16" "d + c * 2 ^ 8 + b * 2 ^ 16 < 2 ^ 24" using assms by simp_all
  have w: "(of_nat (d + c * 2 ^ 8) :: 32 word) = of_nat d OR push_bit 8 (of_nat c)"
    "(of_nat ((d + c * 2 ^ 8) + b * 2 ^ 16) :: 32 word) = of_nat (d + c * 2 ^ 8) OR push_bit 16 (of_nat b)"
    "(of_nat ((d + c * 2 ^ 8 + b * 2 ^ 16) + a * 2 ^ 24) :: 32 word) = of_nat (d + c * 2 ^ 8 + b * 2 ^ 16) OR push_bit 24 (of_nat a)"
    using word_or_shift bound by blast+
  have addr: "address_of (a, b, c, d) = ((of_nat d OR push_bit 8 (of_nat c)) OR push_bit 16 (of_nat b)) OR push_bit 24 (of_nat a)"
    by (simp only: address_of_def prod.case eq(1) w)
  from assms(5) consider "n = 1" | "n = 2" | "n = 3" | "n = 4" by auto
  then show ?thesis
  proof cases
    case 1
    then show ?thesis by (simp add: address_of_def)
  next
    case 2
    have "or_leading 0 (butlast (parts_of n (a, b, c, d))) (of_nat (last (parts_of n (a, b, c, d)))) =
        of_nat ((b * 256 + c) * 256 + d) OR push_bit 24 (of_nat a)" using 2 by simp
    then show ?thesis by (simp only: eq(2) w addr)
  next
    case 3
    have "or_leading 0 (butlast (parts_of n (a, b, c, d))) (of_nat (last (parts_of n (a, b, c, d)))) =
        (of_nat (c * 256 + d) OR push_bit 24 (of_nat a)) OR push_bit 16 (of_nat b)" using 3 by (simp add: numeral_2_eq_2)
    then show ?thesis by (simp only: eq(3) w addr) (simp add: ac_simps)
  next
    case 4
    have "or_leading 0 (butlast (parts_of n (a, b, c, d))) (of_nat (last (parts_of n (a, b, c, d)))) =
        ((of_nat d OR push_bit 24 (of_nat a)) OR push_bit 16 (of_nat b)) OR push_bit 8 (of_nat c)" using 4 by (simp add: numeral_2_eq_2)
    then show ?thesis by (simp only: addr) (simp add: ac_simps)
  qed
qed
lemma parts_of_range:
  "a < 256 \<Longrightarrow> b < 256 \<Longrightarrow> c < 256 \<Longrightarrow> d < 256 \<Longrightarrow> n \<in> {1, 2, 3, 4} \<Longrightarrow>
   length (parts_of n (a, b, c, d)) = n \<and> \<not> list_ex (\<lambda>m. m > 255) (butlast (parts_of n (a, b, c, d))) \<and>
   \<not> last (parts_of n (a, b, c, d)) \<ge> 256 ^ (5 - n)"
  by auto

definition spelling :: "radix list \<Rightarrow> nat \<Rightarrow> nat \<times> nat \<times> nat \<times> nat \<Rightarrow> nat \<Rightarrow> string" where
  "spelling rs n q k = join_dots (map2 spell rs (parts_of n q)) @ replicate k CHR ''.''"

lemma dropWhile_replicate: "s \<noteq> [] \<Longrightarrow> \<not> P (hd s) \<Longrightarrow> P x \<Longrightarrow> dropWhile P (replicate k x @ s) = s"
  by (induction k) (cases s; simp)+

lemma spell_ne: "spell r n \<noteq> []"
  by (cases r) (simp_all add: digits_ne)

lemma in_spelled: "l \<in> set (map2 spell rs ns) \<Longrightarrow> \<exists>r n. l = spell r n"
  by auto

lemma canonical_spelling:
  assumes "n \<in> {1, 2, 3, 4}" "length rs = n"
  shows "canonical_host (spelling rs n (a, b, c, d) k) = join_dots (map2 spell rs (parts_of n (a, b, c, d)))"
proof -
  let ?ls = "map2 spell rs (parts_of n (a, b, c, d))"
  have len: "length (parts_of n (a, b, c, d)) = n" using assms(1) by auto
  have ls: "\<forall>l \<in> set ?ls. l \<noteq> [] \<and> set l \<subseteq> set ''0123456789abcdefx''"
    using in_spelled spell_chars spell_ne by metis
  have ne: "?ls \<noteq> []" using len assms by (cases rs; cases "parts_of n (a, b, c, d)") auto
  have "last ?ls \<in> set ?ls" using ne last_in_set by blast
  then have "last (last ?ls) \<in> set ''0123456789abcdefx''" using ls last_in_set by blast
  then have "last (join_dots ?ls) \<noteq> CHR ''.''" "join_dots ?ls \<noteq> []" using last_join_dots [OF ne] ls by auto
  then have "rstrip_dots (spelling rs n (a, b, c, d) k) = join_dots ?ls"
    by (simp add: rstrip_dots_def spelling_def dropWhile_replicate hd_rev)
  moreover have "lower (join_dots ?ls) = join_dots ?ls" unfolding lower_def
  proof (rule map_idI)
    fix ch assume "ch \<in> set (join_dots ?ls)"
    then have "ch \<in> set ''.0123456789abcdefx''" using in_join_dots ls by fastforce
    moreover have "\<forall>ch \<in> set ''.0123456789abcdefx''. ascii_lower ch = ch" by code_simp
    ultimately show "ascii_lower ch = ch" by blast
  qed
  ultimately show ?thesis by (simp add: canonical_host_def)
qed

lemma literal_spelling:
  assumes "a < 256" "b < 256" "c < 256" "d < 256" "n \<in> {1, 2, 3, 4}" "length rs = n"
  shows "literal_ip read_ipv6 (spelling rs n (a, b, c, d) k) = Inr (Some (IPv4 (address_of (a, b, c, d))))"
proof -
  let ?parts = "parts_of n (a, b, c, d)"
  let ?ls = "map2 spell rs ?parts"
  note range = parts_of_range [OF assms(1-5)]
  have chars: "\<forall>l \<in> set ?ls. set l \<subseteq> set ''0123456789abcdefx''" using in_spelled spell_chars by metis
  then have nodot: "\<forall>l \<in> set ?ls. CHR ''.'' \<notin> set l" by fastforce
  have len: "length ?ls = n" using range assms(6) by simp
  then have "?ls \<noteq> []" using assms(5) by auto
  then have labels: "split_dots (join_dots ?ls) = ?ls" using split_join nodot by blast
  have numeric: "list_all numeric_label ?ls" unfolding list_all_iff using in_spelled numeric_spell by metis
  have "map label_value ?ls = map Some ?parts"
    using range assms(6) by (auto simp: list_eq_iff_nth_eq label_value_spell)
  moreover have "those (map Some xs) = Some xs" for xs :: "nat list" by (induction xs) auto
  ultimately have vals: "those (map label_value ?ls) = Some ?parts" by metis
  have "CHR '':'' \<notin> set (join_dots ?ls)" using in_join_dots chars by fastforce
  moreover have "parse_inet_aton (join_dots ?ls) = Inr (Some (IPv4 (address_of (a, b, c, d))))"
    using assms(5) len numeric range or_leading_parts [OF assms(1-5)]
    by (simp only: parse_inet_aton_def labels Let_def vals option.case) auto
  ultimately show ?thesis by (simp add: literal_ip_def canonical_spelling [OF assms(5,6)])
qed

text \<open>The two ranges an attacker wants, as numbers.\<close>

lemma len32: "LENGTH(32) = 32" by simp

lemma drop_of_nat: "m < 2 ^ 32 \<Longrightarrow> drop_bit k (of_nat m :: 32 word) = of_nat (m div 2 ^ k)"
proof (rule word_unat_eq_iff [THEN iffD2])
  assume "m < 2 ^ 32"
  moreover from this have "m div 2 ^ k < 2 ^ 32" by (meson div_le_dividend le_less_trans)
  ultimately show "unat (drop_bit k (of_nat m :: 32 word)) = unat (of_nat (m div 2 ^ k) :: 32 word)"
    by (simp only: unat_drop_bit_eq unat_of_nat drop_bit_eq_div [where 'a = nat] len32 mod_less)
qed

lemma address_drop:
  assumes "a < 256" "b < 256" "c < 256" "d < 256"
  shows "drop_bit 24 (address_of (a, b, c, d)) = of_nat a" "drop_bit 16 (address_of (a, b, c, d)) = of_nat (a * 256 + b)"
proof -
  let ?n = "((a * 256 + b) * 256 + c) * 256 + d"
  have "?n < 2 ^ 32" using assms by simp
  note drop = drop_of_nat [OF this]
  have "?n div 2 ^ 24 = a" "?n div 2 ^ 16 = a * 256 + b" using assms by simp_all
  then show "drop_bit 24 (address_of (a, b, c, d)) = of_nat a" "drop_bit 16 (address_of (a, b, c, d)) = of_nat (a * 256 + b)"
    by (simp_all only: address_of_def prod.case drop)
qed

lemma loopback_blocked: "b < 256 \<Longrightarrow> c < 256 \<Longrightarrow> d < 256 \<Longrightarrow> blocked4 (address_of (127, b, c, d))"
  using address_drop(1) [of 127 b c d] by (simp add: blocked4_def in_net4_def)

lemma link_local_blocked: "c < 256 \<Longrightarrow> d < 256 \<Longrightarrow> blocked4 (address_of (169, 254, c, d))"
  using address_drop(2) [of 169 254 c d] by (simp add: blocked4_def in_net4_def)

text \<open>C35: A blocked IPv4 address cannot be smuggled past the guard by its spelling: written with one, two, three or four numbers, each
  decimal, octal or hexadecimal, with any number of trailing dots, a URL whose host is that text is never called: the answer is none and no
  call leaves the process. Every address of 127.0.0.0/8 and 169.254.0.0/16 (the metadata address) is such an address.\<close>

theorem no_call_to_any_spelling:
  assumes "n \<in> {1, 2, 3, 4}" "length rs = n" "a < 256" "b < 256" "c < 256" "d < 256"
    and "blocked4 (address_of (a, b, c, d)) \<or> a = 127 \<or> a = 169 \<and> b = 254"
    and "urlsplit dest = Some u" "hostname u = Some (spelling rs n (a, b, c, d) k)"
  shows "send_webhook urlsplit read_ipv6 resolve client verb (Some dest) body calls = (None, calls)"
proof -
  have "blocked4 (address_of (a, b, c, d))" using assms(3-7) loopback_blocked link_local_blocked by auto
  moreover have "literal_ip read_ipv6 (spelling rs n (a, b, c, d) k) = Inr (Some (IPv4 (address_of (a, b, c, d))))"
    by (rule literal_spelling [OF assms(3-6,1,2)])
  ultimately have "is_blocked_literal_ip read_ipv6 (spelling rs n (a, b, c, d) k)"
    by (simp add: is_blocked_literal_ip_def is_blocked_address_def)
  then show ?thesis using assms(8,9) by (simp add: send_webhook_def is_safe_webhook_destination_def host_of_def)
qed

definition demo_url :: "string \<Rightarrow> split_url option" where
  "demo_url d = Some \<lparr>scheme = ''http'', hostname = Some (drop 7 d), port = Inr None, userinfo = (None, None), url_path = []\<rparr>"

theorem no_call_to_any_spelling_witness:
  "send_webhook demo_url (\<lambda>_. None) (\<lambda>_ _. []) (\<lambda>_. Some 200) ''post'' (Some (''http://'' @ spelling [Hex, Oct] 2 (127, 0, 0, 1) 1)) JNull [] = (None, [])"
  by (rule no_call_to_any_spelling [of 2 "[Hex, Oct]" 127 0 0 1 _ _ "\<lparr>scheme = ''http'', hostname = Some (spelling [Hex, Oct] 2 (127, 0, 0, 1) 1), port = Inr None, userinfo = (None, None), url_path = []\<rparr>" 1])
    (simp_all add: demo_url_def)

text \<open>IPv4 addresses inside IPv6 ones.\<close>

lemma drop_ucast: "32 \<le> k \<Longrightarrow> drop_bit k (ucast e :: 128 word) = 0" for e :: "32 word"
  by (rule bit_eqI) (auto simp: bit_simps dest: bit_imp_le_length)

lemma mapped_back: "ucast (push_bit 32 x OR ucast e :: 128 word) = e" for e :: "32 word"
  by (rule bit_eqI) (auto simp: bit_simps)

lemma ipv4_mapped_of: "ipv4_mapped (push_bit 32 0xFFFF OR ucast e) = Some e"
proof -
  have "drop_bit 32 (push_bit 32 0xFFFF OR ucast e :: 128 word) = 0xFFFF" by (simp add: drop_ucast)
  then show ?thesis unfolding ipv4_mapped_def mapped_back by simp
qed

lemma sixtofour_back: "ucast (drop_bit 80 (push_bit 112 x OR push_bit 80 (ucast e) OR take_bit 80 low) :: 128 word) = e"
  for e :: "32 word"
  by (rule bit_eqI) (auto simp: bit_simps)

lemma sixtofour_of: "sixtofour (push_bit 112 0x2002 OR push_bit 80 (ucast e) OR take_bit 80 low) = Some e"
proof -
  have "drop_bit 112 (take_bit 80 low) = (0 :: 128 word)" by (rule bit_eqI) (auto simp: bit_simps)
  moreover have "drop_bit 112 (push_bit 80 (ucast e :: 128 word)) = 0" by (rule bit_eqI) (auto simp: bit_simps dest: bit_imp_le_length)
  ultimately have "drop_bit 112 (push_bit 112 0x2002 OR push_bit 80 (ucast e) OR take_bit 80 low :: 128 word) = 0x2002" by simp
  then show ?thesis unfolding sixtofour_def sixtofour_back by simp
qed

lemma not_mapped: "ipv4_mapped (push_bit 112 0x2002 OR push_bit 80 (ucast e) OR take_bit 80 low) = None"
  for e :: "32 word"
proof -
  let ?ip = "push_bit 112 0x2002 OR push_bit 80 (ucast e) OR take_bit 80 low :: 128 word"
  have top: "drop_bit 112 ?ip = 0x2002" using sixtofour_of [of e low] by (simp only: sixtofour_def option.distinct split: if_splits)
  have "drop_bit 32 ?ip \<noteq> 0xFFFF"
  proof
    assume low: "drop_bit 32 ?ip = 0xFFFF"
    have "drop_bit 112 ?ip = drop_bit 80 (drop_bit 32 ?ip)" by (simp only: drop_bit_drop_bit) simp
    also have "\<dots> = 0" unfolding low by simp
    finally show False unfolding top by simp
  qed
  then show ?thesis by (simp only: ipv4_mapped_def if_False)
qed

text \<open>Nor by wrapping it: the IPv4-mapped and the 6to4 IPv6 form of a blocked IPv4 address, whatever the bits the form leaves
  free, are blocked, and so is every address of the NAT64 prefix.\<close>

theorem wrapped_addresses_blocked:
  assumes "blocked4 e"
  shows "is_blocked_address (IPv6 (push_bit 32 0xFFFF OR ucast e)) \<and>
    is_blocked_address (IPv6 (push_bit 112 0x2002 OR push_bit 80 (ucast e) OR take_bit 80 low)) \<and>
    is_blocked_address (IPv6 (NAT64_PREFIX OR ucast (any :: 32 word)))"
proof -
  have "in_net6 NAT64_PREFIX 96 (NAT64_PREFIX OR ucast any)" by (simp add: in_net6_def drop_ucast)
  then show ?thesis using assms unfolding is_blocked_address_def
    by (simp only: ip_address.case ipv4_mapped_of sixtofour_of not_mapped option.case) simp
qed

theorem wrapped_addresses_blocked_witness: "is_blocked_address (IPv6 (push_bit 32 0xFFFF OR ucast (address_of (127, 0, 0, 1))))"
  using wrapped_addresses_blocked [OF loopback_blocked [of 0 0 1]] by simp

end
