(* ===== verification/Outbox.thy ===== *)
theory Outbox
  imports Webhook
begin

section \<open>The notification outbox (shared/smo\_shared/outbox.py)\<close>

text \<open>
  The table of notifications, the transaction that enqueues them with its commit and rollback hooks, the
  claim, and the drain of due rows. The network of a process is one record. The log lists the calls that
  left the process; a drain sends its claimed rows at once, so their order in the log means nothing.
\<close>

datatype outbox_status = PENDING | SENT | DEAD

record outbox_row =
  row_id :: uid
  row_module :: string
  destination :: string
  payload :: json
  verb :: string
  status :: outbox_status
  attempts :: nat
  next_attempt_at :: seconds
  last_error :: "string option"
  created :: seconds

record network =
  urlsplit :: "string \<Rightarrow> split_url option"
  read_ipv6 :: "string \<Rightarrow> ip_address option"
  resolve :: "string \<Rightarrow> nat option \<Rightarrow> ip_address list"
  client :: "http_call \<Rightarrow> nat option"

definition METHODS :: "string list" where "METHODS = [''POST'', ''DELETE'']"
definition MAX_ATTEMPTS :: nat where "MAX_ATTEMPTS = 5"
definition LEASE_SECONDS :: seconds where "LEASE_SECONDS = 60"
definition BACKOFF_SECONDS :: "seconds list" where "BACKOFF_SECONDS = [5, 30, 120, 600]"
definition SENT_RETENTION_SECONDS :: seconds where "SENT_RETENTION_SECONDS = 86400"

definition safe :: "network \<Rightarrow> string \<Rightarrow> bool" where
  "safe net d = is_safe_webhook_destination (urlsplit net) (read_ipv6 net) (Some d)"

text \<open>A transaction: the rows it added, not yet in the table, and the ids the commit hook will drain.\<close>

record session =
  added :: "outbox_row list"
  pending_ids :: "uid list"

definition enqueue :: "network \<Rightarrow> string option \<Rightarrow> json \<Rightarrow> string option \<Rightarrow> string option \<Rightarrow> string \<Rightarrow> seconds \<Rightarrow>
    outbox_row list \<Rightarrow> session \<Rightarrow> (py_error + outbox_row option) \<times> session" where
  "enqueue net dest body module env_module method now table s =
     (if method \<notin> set METHODS then (Inl (ValueError ''outbox method must be one of POST, DELETE''), s)
      else case dest of
        None \<Rightarrow> (Inr None, s)
      | Some d \<Rightarrow>
          if \<not> safe net d then (Inr None, s)
          else let row = \<lparr>row_id = fresh_id (map row_id (table @ added s)),
                          row_module = (case module of Some m \<Rightarrow> if m = [] then (case env_module of None \<Rightarrow> ''unknown'' | Some e \<Rightarrow> e) else m
                             | None \<Rightarrow> (case env_module of None \<Rightarrow> ''unknown'' | Some e \<Rightarrow> e)),
                          destination = d, payload = body, verb = method, status = PENDING, attempts = 0,
                          next_attempt_at = now, last_error = None, created = now\<rparr>
               in (Inr (Some row), s\<lparr>added := added s @ [row], pending_ids := pending_ids s @ [row_id row]\<rparr>))"

definition backoff :: "nat \<Rightarrow> seconds" where
  "backoff n = BACKOFF_SECONDS ! (min n (length BACKOFF_SECONDS) - 1)"

text \<open>\<open>_claim\<close>: the conditional update, and whether it matched a row.\<close>

definition claimable :: "uid \<Rightarrow> seconds \<Rightarrow> outbox_row \<Rightarrow> bool" where
  "claimable i now r \<longleftrightarrow> row_id r = i \<and> status r = PENDING \<and> next_attempt_at r \<le> now"

definition claim :: "uid \<Rightarrow> seconds \<Rightarrow> outbox_row list \<Rightarrow> bool \<times> outbox_row list" where
  "claim i now table =
     (length (filter (claimable i now) table) = 1,
      update_where (claimable i now) (\<lambda>r. r\<lparr>attempts := attempts r + 1, next_attempt_at := now + LEASE_SECONDS\<rparr>) table)"

text \<open>\<open>_send\<close>: delivered, the error and whether to retry.\<close>

definition send :: "network \<Rightarrow> outbox_row \<Rightarrow> http_call list \<Rightarrow> (bool \<times> string option \<times> bool) \<times> http_call list" where
  "send net r calls =
     (if \<not> safe net (destination r) then ((False, Some ''destination rejected by the SSRF guard'', False), calls)
      else
        case (if verb r = ''DELETE''
              then send_webhook (urlsplit net) (read_ipv6 net) (resolve net) (client net) ''delete'' (Some (destination r)) JNull calls
              else send_webhook (urlsplit net) (read_ipv6 net) (resolve net) (client net) ''post'' (Some (destination r)) (payload r) calls)
        of (answer, calls') \<Rightarrow>
          (case answer of
             None \<Rightarrow> (False, Some ''no answer from the destination'', True)
           | Some code \<Rightarrow> if code \<ge> 500 then (False, Some (''destination answered '' @ str code), True) else (True, None, False),
           calls'))"

record tally = sent :: nat retry :: nat dead :: nat

text \<open>The rows that are due, oldest first; with ids, only those.\<close>

definition due_ids :: "uid list option \<Rightarrow> seconds \<Rightarrow> nat \<Rightarrow> outbox_row list \<Rightarrow> uid list" where
  "due_ids ids now limit table =
     map row_id (take limit (sort_key (\<lambda>r. (created r, row_id r))
       (filter (\<lambda>r. status r = PENDING \<and> next_attempt_at r \<le> now \<and> (case ids of None \<Rightarrow> True | Some is' \<Rightarrow> row_id r \<in> set is')) table)))"

fun claim_all :: "uid list \<Rightarrow> seconds \<Rightarrow> outbox_row list \<Rightarrow> outbox_row list \<times> outbox_row list" where
  "claim_all [] now table = ([], table)"
| "claim_all (i # is') now table =
     (case claim i now table of (won, table1) \<Rightarrow>
       (case claim_all is' now table1 of (rows, table2) \<Rightarrow>
         (case (won, row_where (\<lambda>r. row_id r = i) table1) of (True, Some r) \<Rightarrow> r # rows | _ \<Rightarrow> rows, table2)))"

fun send_all :: "network \<Rightarrow> outbox_row list \<Rightarrow> http_call list \<Rightarrow> (outbox_row \<times> bool \<times> string option \<times> bool) list \<times> http_call list" where
  "send_all net [] calls = ([], calls)"
| "send_all net (r # rs) calls =
     (case send net r calls of (outcome, calls1) \<Rightarrow>
       (case send_all net rs calls1 of (rest, calls2) \<Rightarrow> ((r, outcome) # rest, calls2)))"

definition record_outcome :: "seconds \<Rightarrow> outbox_row \<times> bool \<times> string option \<times> bool \<Rightarrow> tally \<times> outbox_row list \<Rightarrow> tally \<times> outbox_row list" where
  "record_outcome now x st =
     (case x of (r, delivered, err, retryable) \<Rightarrow> case st of (n, table) \<Rightarrow>
       let upd = (\<lambda>f. update_where (\<lambda>k. row_id k = row_id r) f table)
       in if delivered then (n\<lparr>sent := sent n + 1\<rparr>, upd (\<lambda>k. k\<lparr>status := SENT, last_error := None\<rparr>))
          else if retryable \<and> attempts r < MAX_ATTEMPTS
          then (n\<lparr>retry := retry n + 1\<rparr>, upd (\<lambda>k. k\<lparr>last_error := err, next_attempt_at := now + backoff (attempts r)\<rparr>))
          else (n\<lparr>dead := dead n + 1\<rparr>, upd (\<lambda>k. k\<lparr>status := DEAD, last_error := err\<rparr>)))"

definition purge_sent :: "seconds \<Rightarrow> outbox_row list \<Rightarrow> outbox_row list" where
  "purge_sent now table = delete_where (\<lambda>r. status r = SENT \<and> created r < now - SENT_RETENTION_SECONDS) table"

definition drain :: "network \<Rightarrow> uid list option \<Rightarrow> seconds \<Rightarrow> nat \<Rightarrow> outbox_row list \<times> http_call list \<Rightarrow>
    tally \<times> outbox_row list \<times> http_call list" where
  "drain net ids now limit st =
     (case claim_all (due_ids ids now limit (fst st)) now (fst st) of (claimed, table1) \<Rightarrow>
       (case send_all net claimed (snd st) of (outcomes, calls) \<Rightarrow>
         (case fold (record_outcome now) outcomes (\<lparr>sent = 0, retry = 0, dead = 0\<rparr>, table1) of (n, table2) \<Rightarrow>
           (n, if ids = None then purge_sent now table2 else table2, calls))))"

definition inline_drain_enabled :: "string option \<Rightarrow> bool" where
  "inline_drain_enabled setting = (lower (strip (case setting of None \<Rightarrow> ''true'' | Some v \<Rightarrow> v)) \<notin> {''0'', ''false'', ''no'', ''off''})"

text \<open>Commit and rollback of a transaction, with the hooks on them.\<close>

definition commit :: "network \<Rightarrow> string option \<Rightarrow> seconds \<Rightarrow> session \<Rightarrow> outbox_row list \<times> http_call list \<Rightarrow>
    session \<times> outbox_row list \<times> http_call list" where
  "commit net setting now s st =
     (let st' = (fst st @ added s, snd st) in
      (\<lparr>added = [], pending_ids = []\<rparr>,
       if pending_ids s = [] \<or> \<not> inline_drain_enabled setting then st'
       else snd (drain net (Some (pending_ids s)) now 100 st')))"

definition rollback :: "session \<Rightarrow> session" where
  "rollback s = \<lparr>added = [], pending_ids = []\<rparr>"

subsection \<open>A claim is won once in a lease\<close>

definition claim_of :: "uid \<Rightarrow> uid \<times> seconds \<Rightarrow> outbox_row list \<Rightarrow> bool \<times> outbox_row list" where
  "claim_of i c table = (case claim (fst c) (snd c) table of (won, table') \<Rightarrow> (won \<and> fst c = i, table'))"

definition held_until :: "seconds \<Rightarrow> uid \<Rightarrow> outbox_row list \<Rightarrow> bool" where
  "held_until t i table \<longleftrightarrow> (\<forall>r \<in> set table. row_id r = i \<longrightarrow> status r = PENDING \<longrightarrow> t \<le> next_attempt_at r)"

definition distinct_rows :: "outbox_row list \<Rightarrow> bool" where
  "distinct_rows table \<longleftrightarrow> distinct (map row_id table)"

lemma claim_ids: "map row_id (snd (claim i now table)) = map row_id table"
  by (simp add: claim_def map_update_where)

lemma in_claim:
  "r \<in> set (snd (claim i now table)) \<Longrightarrow> \<exists>r' \<in> set table. row_id r' = row_id r \<and> status r' = status r \<and>
     (if claimable i now r' then next_attempt_at r = now + LEASE_SECONDS else r = r')"
  by (auto simp: claim_def set_update_where)

interpretation lease: exclusive_claim "claim_of i" "\<lambda>c. t0 \<le> snd c \<and> snd c < t0 + LEASE_SECONDS" "held_until (t0 + LEASE_SECONDS) i" distinct_rows
  for i t0
proof
  fix table c w table'
  assume ok: "distinct_rows table" and c: "t0 \<le> snd c \<and> snd c < t0 + LEASE_SECONDS" and claim: "claim_of i c table = (w, table')"
  have t: "table' = snd (claim (fst c) (snd c) table)" and w: "w \<longleftrightarrow> fst c = i \<and> length (filter (claimable i (snd c)) table) = 1"
    using claim by (auto simp: claim_of_def claim_def)
  have "held_until (t0 + LEASE_SECONDS) i table'" if w
  proof -
    have "filter (claimable i (snd c)) table \<noteq> []" using that w by auto
    then obtain r0 where r0: "r0 \<in> set table" "claimable i (snd c) r0" unfolding filter_empty_conv by auto
    have "t0 + LEASE_SECONDS \<le> next_attempt_at r" if r: "r \<in> set table'" "row_id r = i" for r
    proof -
      obtain r' where r': "r' \<in> set table" "row_id r' = i" "claimable (fst c) (snd c) r' \<Longrightarrow> next_attempt_at r = snd c + LEASE_SECONDS"
        using in_claim r unfolding t by metis
      then have "r' = r0" using distinct_key_eq [of row_id table r' r0] ok r0 by (simp add: distinct_rows_def claimable_def)
      then show ?thesis using r' r0 c w \<open>w\<close> by auto
    qed
    then show ?thesis by (simp add: held_until_def)
  qed
  then show "distinct_rows table' \<and> (w \<longrightarrow> held_until (t0 + LEASE_SECONDS) i table')" using ok claim_ids by (simp add: distinct_rows_def t)
  assume held: "held_until (t0 + LEASE_SECONDS) i table"
  have "\<not> claimable i (snd c) r" if "r \<in> set table" for r using held c that by (auto simp: held_until_def claimable_def)
  then have "\<not> w" using w by (auto simp: filter_False)
  moreover have "held_until (t0 + LEASE_SECONDS) i table'" unfolding held_until_def
  proof (intro ballI impI)
    fix r assume r: "r \<in> set table'" "row_id r = i" "status r = PENDING"
    then obtain r' where "r' \<in> set table" "row_id r' = i" "status r' = PENDING"
        "if claimable (fst c) (snd c) r' then next_attempt_at r = snd c + LEASE_SECONDS else r = r'"
      using in_claim unfolding t by metis
    then show "t0 + LEASE_SECONDS \<le> next_attempt_at r" using held c by (auto simp: held_until_def split: if_splits)
  qed
  ultimately show "\<not> w \<and> held_until (t0 + LEASE_SECONDS) i table'" by simp
qed

text \<open>How many of a sequence of claims, of any replicas and on any rows, win the row \<open>i\<close>.\<close>

fun claims_won :: "uid \<Rightarrow> (uid \<times> seconds) list \<Rightarrow> outbox_row list \<Rightarrow> nat" where
  "claims_won i [] table = 0"
| "claims_won i ((j, now) # cs) table =
     (case claim j now table of (won, table') \<Rightarrow> of_bool (won \<and> j = i) + claims_won i cs table')"

lemma claims_won_lease: "claims_won i cs table = lease.wins i cs table"
proof (induction i cs table rule: claims_won.induct)
  case (2 i j now cs table)
  then show ?case using claim_of_def [of i "(j, now)" table] by (cases "claim j now table") simp
qed simp

text \<open>C33: However many replicas try to claim notifications, in whatever order their updates are applied, within one lease
  no notification is handed to more than one of them.\<close>

theorem claimed_once_per_lease:
  assumes "distinct (map row_id table)" "\<forall>c \<in> set cs. t0 \<le> snd c \<and> snd c < t0 + LEASE_SECONDS"
  shows "claims_won i cs table \<le> 1"
  unfolding claims_won_lease by (rule lease.at_most_one [of _ _ t0]) (use assms in \<open>simp_all add: distinct_rows_def\<close>)

definition demo_note :: outbox_row where
  "demo_note = \<lparr>row_id = 1, row_module = ''dme'', destination = ''http://rapp/cb'', payload = JNull, verb = ''POST'', status = PENDING,
     attempts = 0, next_attempt_at = 0, last_error = None, created = 0\<rparr>"

theorem claimed_once_per_lease_witness: "claims_won 1 [(1, 5), (1, 6), (1, 64)] [demo_note] \<le> 1"
  by (rule claimed_once_per_lease [of _ _ 5]) (simp_all add: LEASE_SECONDS_def)

subsection \<open>What a drain does to each row\<close>

definition claimed_row :: "seconds \<Rightarrow> outbox_row \<Rightarrow> outbox_row" where
  "claimed_row now r = r\<lparr>attempts := attempts r + 1, next_attempt_at := now + LEASE_SECONDS\<rparr>"

definition settled :: "seconds \<Rightarrow> bool \<times> string option \<times> bool \<Rightarrow> outbox_row \<Rightarrow> outbox_row" where
  "settled now outcome r =
     (case outcome of (delivered, err, retryable) \<Rightarrow>
        if delivered then r\<lparr>status := SENT, last_error := None\<rparr>
        else if retryable \<and> attempts r < MAX_ATTEMPTS then r\<lparr>last_error := err, next_attempt_at := now + backoff (attempts r)\<rparr>
        else r\<lparr>status := DEAD, last_error := err\<rparr>)"

text \<open>The outcome of a send does not depend on the calls before it.\<close>

definition outcome_of :: "network \<Rightarrow> outbox_row \<Rightarrow> bool \<times> string option \<times> bool" where
  "outcome_of net r = fst (send net r [])"

definition calls_of :: "network \<Rightarrow> outbox_row \<Rightarrow> http_call list" where
  "calls_of net r = snd (send net r [])"

lemma send_split: "send net r calls = (outcome_of net r, calls @ calls_of net r)"
  by (simp add: send_def outcome_of_def calls_of_def send_webhook_def Let_def split: option.split prod.split)

lemma send_all_split: "send_all net rs calls = (map (\<lambda>r. (r, outcome_of net r)) rs, calls @ concat (map (calls_of net) rs))"
  by (induction rs arbitrary: calls) (simp_all add: send_split)

lemma update_one: "distinct (map row_id table) \<Longrightarrow> r \<in> set table \<Longrightarrow> P r \<Longrightarrow> (\<And>k. P k \<Longrightarrow> row_id k = row_id r) \<Longrightarrow>
   update_where P f table = update_where (\<lambda>k. row_id k = row_id r) f table"
  unfolding update_where_def by (rule map_cong) (metis distinct_key_eq)+

lemma row_where_id: "distinct (map row_id table) \<Longrightarrow> r \<in> set table \<Longrightarrow> row_where (\<lambda>k. row_id k = row_id r) table = Some r"
proof (cases "row_where (\<lambda>k. row_id k = row_id r) table")
  case (Some r')
  assume "distinct (map row_id table)" "r \<in> set table"
  then show ?thesis using Some row_where_SomeD [OF Some] distinct_key_eq [of row_id table r' r] by simp
qed (auto simp: row_where_None)

lemma claim_due:
  assumes "distinct (map row_id table)" "r \<in> set table" "claimable (row_id r) now r"
  shows "claim (row_id r) now table = (True, update_where (\<lambda>k. row_id k = row_id r) (claimed_row now) table)"
    and "row_where (\<lambda>k. row_id k = row_id r) (snd (claim (row_id r) now table)) = Some (claimed_row now r)"
proof -
  have "filter (claimable (row_id r) now) table = filter (\<lambda>k. k = r) table"
    by (rule filter_cong) (use assms distinct_key_eq [of row_id table] in \<open>auto simp: claimable_def\<close>)
  moreover have "distinct table" using assms(1) by (simp add: distinct_map)
  then have "length (filter (\<lambda>k. k = r) table) = 1" by (rule length_filter_one) (rule assms(2))
  ultimately show c: "claim (row_id r) now table = (True, update_where (\<lambda>k. row_id k = row_id r) (claimed_row now) table)"
    using update_one [where P = "claimable (row_id r) now", OF assms(1,2,3), of "claimed_row now"] by (simp add: claim_def claimed_row_def [abs_def] claimable_def)
  have "map row_id (update_where (\<lambda>k. row_id k = row_id r) (claimed_row now) table) = map row_id table"
    by (rule map_update_where) (simp add: claimed_row_def)
  moreover have "claimed_row now r \<in> set (update_where (\<lambda>k. row_id k = row_id r) (claimed_row now) table)"
    using assms(2) by (auto simp: set_update_where image_iff)
  moreover have "row_id (claimed_row now r) = row_id r" by (simp add: claimed_row_def)
  ultimately show "row_where (\<lambda>k. row_id k = row_id r) (snd (claim (row_id r) now table)) = Some (claimed_row now r)"
    using row_where_id [of _ "claimed_row now r"] assms(1) c by simp
qed

lemma claimed_row_id [simp]: "row_id (claimed_row now r) = row_id r"
  by (simp add: claimed_row_def)

lemma settled_id [simp]: "row_id (settled now out r) = row_id r"
  by (simp add: settled_def split: prod.split)

lemma claim_all_due:
  "distinct (map row_id table) \<Longrightarrow> distinct (map row_id rs) \<Longrightarrow> set rs \<subseteq> set table \<Longrightarrow> \<forall>r \<in> set rs. claimable (row_id r) now r \<Longrightarrow>
   claim_all (map row_id rs) now table =
     (map (claimed_row now) rs, fold (\<lambda>r. update_where (\<lambda>k. row_id k = row_id r) (claimed_row now)) rs table)"
proof (induction rs arbitrary: table)
  case (Cons r rs)
  let ?t = "update_where (\<lambda>k. row_id k = row_id r) (claimed_row now) table"
  have ids: "map row_id ?t = map row_id table" by (rule map_update_where) simp
  have "set rs \<subseteq> set ?t" using Cons.prems(2,3) by (auto simp: set_update_where image_iff)
  then have "claim_all (map row_id rs) now ?t =
      (map (claimed_row now) rs, fold (\<lambda>r. update_where (\<lambda>k. row_id k = row_id r) (claimed_row now)) rs ?t)"
    using Cons ids by simp
  moreover have "claim (row_id r) now table = (True, ?t)" "row_where (\<lambda>k. row_id k = row_id r) ?t = Some (claimed_row now r)"
    using claim_due [OF Cons.prems(1), of r now] Cons.prems(3,4) by auto
  ultimately show ?case by simp
qed simp

text \<open>The record of an outcome reads the attempts of the row it claimed, which is the row in the table.\<close>

definition settle_as :: "seconds \<Rightarrow> bool \<times> string option \<times> bool \<Rightarrow> outbox_row \<Rightarrow> outbox_row \<Rightarrow> outbox_row" where
  "settle_as now out r k =
     (case out of (delivered, err, retryable) \<Rightarrow>
        if delivered then k\<lparr>status := SENT, last_error := None\<rparr>
        else if retryable \<and> attempts r < MAX_ATTEMPTS then k\<lparr>last_error := err, next_attempt_at := now + backoff (attempts r)\<rparr>
        else k\<lparr>status := DEAD, last_error := err\<rparr>)"

lemma settle_as_same: "settle_as now out r r = settled now out r"
  by (simp add: settle_as_def settled_def)

lemma record_outcome_row:
  "snd (record_outcome now (r, out) st) = update_where (\<lambda>k. row_id k = row_id r) (settle_as now out r) (snd st)"
  by (cases out; cases st; cases "fst out"; cases "snd (snd out) \<and> attempts r < MAX_ATTEMPTS")
    (auto simp: record_outcome_def settle_as_def [abs_def] Let_def)

lemma record_outcomes_rows:
  "snd (fold (record_outcome now) (map (\<lambda>r. (r, out r)) rs) st) =
     fold (\<lambda>r. update_where (\<lambda>k. row_id k = row_id r) (settle_as now (out r) r)) rs (snd st)"
  by (induction rs arbitrary: st) (simp_all add: record_outcome_row)

text \<open>The rows a drain takes.\<close>

definition due_rows :: "uid list option \<Rightarrow> seconds \<Rightarrow> nat \<Rightarrow> outbox_row list \<Rightarrow> outbox_row list" where
  "due_rows ids now limit table = take limit (sort_key (\<lambda>r. (created r, row_id r))
     (filter (\<lambda>r. status r = PENDING \<and> next_attempt_at r \<le> now \<and> (case ids of None \<Rightarrow> True | Some is' \<Rightarrow> row_id r \<in> set is')) table))"

lemma due_rows_set:
  "r \<in> set (due_rows ids now limit table) \<Longrightarrow> r \<in> set table \<and> claimable (row_id r) now r \<and>
     (case ids of None \<Rightarrow> True | Some is' \<Rightarrow> row_id r \<in> set is')"
  by (auto simp: due_rows_def claimable_def dest: in_set_takeD split: option.splits)

lemma due_rows_distinct: "distinct (map row_id table) \<Longrightarrow> distinct (map row_id (due_rows ids now limit table))"
proof -
  assume "distinct (map row_id table)"
  then have "distinct (map row_id (sort_key (\<lambda>r. (created r, row_id r)) (filter P table)))" for P
    by (simp add: distinct_map distinct_filter inj_on_def)
  then show ?thesis unfolding due_rows_def take_map [symmetric] by (rule distinct_take)
qed

definition drained :: "network \<Rightarrow> seconds \<Rightarrow> outbox_row \<Rightarrow> outbox_row" where
  "drained net now r = settled now (outcome_of net (claimed_row now r)) (claimed_row now r)"

text \<open>The whole of a drain: the due rows are claimed, sent and settled, each once, and no other row is touched.\<close>

lemma drain_rows:
  assumes "distinct (map row_id table)"
  shows "snd (drain net ids now limit (table, calls)) =
    ((if ids = None then purge_sent now else (\<lambda>t. t))
       (map (\<lambda>r. if r \<in> set (due_rows ids now limit table) then drained net now r else r) table),
     calls @ concat (map (\<lambda>r. calls_of net (claimed_row now r)) (due_rows ids now limit table)))"
proof -
  let ?due = "due_rows ids now limit table"
  let ?t1 = "map (\<lambda>r. if r \<in> set ?due then claimed_row now r else r) table"
  have due: "distinct (map row_id ?due)" "set ?due \<subseteq> set table" "\<forall>r \<in> set ?due. claimable (row_id r) now r"
    using due_rows_distinct [OF assms] due_rows_set by blast+
  have claims: "claim_all (due_ids ids now limit table) now table = (map (claimed_row now) ?due, ?t1)"
    using claim_all_due [OF assms due] fold_update_rows [OF _ assms due(1,2), of "\<lambda>_. claimed_row now"]
    by (simp add: due_ids_def due_rows_def)
  have "map row_id ?t1 = map row_id table" by simp
  then have ids1: "distinct (map row_id ?t1)" using assms by (simp only:)
  have sub: "set (map (claimed_row now) ?due) \<subseteq> set ?t1" using due(2) by (auto simp: image_iff)
  have "fold (\<lambda>r. update_where (\<lambda>k. row_id k = row_id r) (settle_as now (outcome_of net r) r)) (map (claimed_row now) ?due) ?t1 =
      map (\<lambda>k. if k \<in> set (map (claimed_row now) ?due) then settle_as now (outcome_of net k) k k else k) ?t1"
    by (rule fold_update_rows [OF _ ids1 _ sub]) (use due(1) in \<open>simp_all add: settle_as_def comp_def split: prod.split\<close>)
  also have "\<dots> = map (\<lambda>r. if r \<in> set ?due then drained net now r else r) table"
  proof -
    have "r \<notin> claimed_row now ` set ?due" if "r \<in> set table" "r \<notin> set ?due" for r
    proof
      assume "r \<in> claimed_row now ` set ?due"
      then obtain q where q: "q \<in> set ?due" "r = claimed_row now q" by blast
      then have "q = r" using distinct_key_eq [OF assms, of q r] due(2) that(1) by auto
      then show False using q that(2) by simp
    qed
    then show ?thesis by (auto simp: settle_as_same drained_def)
  qed
  finally have settle: "snd (fold (record_outcome now) (map (\<lambda>r. (r, outcome_of net r)) (map (claimed_row now) ?due)) (n, ?t1)) =
      map (\<lambda>r. if r \<in> set ?due then drained net now r else r) table" for n
    by (simp only: record_outcomes_rows snd_conv)
  obtain n table2 where out: "fold (record_outcome now) (map (\<lambda>r. (r, outcome_of net r)) (map (claimed_row now) ?due))
      (\<lparr>sent = 0, retry = 0, dead = 0\<rparr>, ?t1) = (n, table2)" by fastforce
  then have "table2 = map (\<lambda>r. if r \<in> set ?due then drained net now r else r) table"
    using settle [of "\<lparr>sent = 0, retry = 0, dead = 0\<rparr>"] by (simp only: snd_conv)
  then show ?thesis unfolding drain_def fst_conv snd_conv claims prod.case send_all_split out
    by (simp add: comp_def)
qed

subsection \<open>The claims\<close>

lemma claimable_drained:
  "status r = PENDING \<Longrightarrow> attempts (drained net now r) = attempts r + 1 \<and>
     (status (drained net now r) = PENDING \<longrightarrow> attempts r + 1 < MAX_ATTEMPTS \<and> now < next_attempt_at (drained net now r))"
proof -
  assume "status r = PENDING"
  moreover have "0 < backoff n" for n
  proof -
    have "min n 4 - 1 \<in> {0, 1, 2, 3}" by auto
    then show ?thesis by (auto simp: backoff_def BACKOFF_SECONDS_def)
  qed
  ultimately show ?thesis by (auto simp: drained_def settled_def claimed_row_def split: prod.splits)
qed

definition outbox_inv :: "outbox_row list \<Rightarrow> bool" where
  "outbox_inv table \<longleftrightarrow> distinct (map row_id table) \<and>
     (\<forall>r \<in> set table. attempts r \<le> MAX_ATTEMPTS \<and> (status r = PENDING \<longrightarrow> attempts r < MAX_ATTEMPTS))"

lemma drain_inv: "outbox_inv table \<Longrightarrow> outbox_inv (fst (snd (drain net ids now limit (table, calls))))"
proof -
  assume inv: "outbox_inv table"
  let ?f = "\<lambda>r. if r \<in> set (due_rows ids now limit table) then drained net now r else r"
  have keep: "row_id (?f r) = row_id r" for r by (simp add: drained_def)
  have "distinct (map row_id (map ?f table))" using inv keep by (simp add: outbox_inv_def comp_def)
  moreover have "attempts (?f r) \<le> MAX_ATTEMPTS \<and> (status (?f r) = PENDING \<longrightarrow> attempts (?f r) < MAX_ATTEMPTS)" if "r \<in> set table" for r
    using inv that due_rows_set [of r ids now limit table] claimable_drained [of r net now]
    by (cases "r \<in> set (due_rows ids now limit table)") (fastforce simp: outbox_inv_def claimable_def)+
  ultimately have "outbox_inv (map ?f table)" unfolding outbox_inv_def by (simp only: set_map ball_simps) blast
  then show ?thesis using drain_rows [of table net ids now limit calls] inv
    by (auto simp: outbox_inv_def purge_sent_def set_delete_where intro: distinct_map_delete_where)
qed

text \<open>A drain settles what is due and nothing else: each due notification is claimed once, sent once and settled by the answer it
  got, every other row of the table stays as it is, the calls that leave the process are those of the due rows, and a
  full drain then removes only rows that are SENT and older than the retention.\<close>

theorem drain_settles_due:
  assumes "distinct (map row_id table)"
  shows "snd (drain net ids now limit (table, calls)) =
    ((if ids = None then purge_sent now else (\<lambda>t. t))
       (map (\<lambda>r. if row_id r \<in> set (due_ids ids now limit table)
          then settled now (outcome_of net (claimed_row now r)) (claimed_row now r) else r) table),
     calls @ concat (map (\<lambda>r. calls_of net (claimed_row now r)) (due_rows ids now limit table)))"
proof -
  have "r \<in> set (due_rows ids now limit table) \<longleftrightarrow> row_id r \<in> set (due_ids ids now limit table)" if "r \<in> set table" for r
  proof -
    have ids: "due_ids ids now limit table = map row_id (due_rows ids now limit table)" by (simp add: due_ids_def due_rows_def)
    show ?thesis
    proof
      assume "row_id r \<in> set (due_ids ids now limit table)"
      then obtain q where q: "q \<in> set (due_rows ids now limit table)" "row_id q = row_id r" unfolding ids by auto
      then have "q \<in> set table" using due_rows_set by blast
      then have "q = r" using distinct_key_eq [OF assms _ that q(2)] by blast
      then show "r \<in> set (due_rows ids now limit table)" using q(1) by simp
    qed (simp add: ids)
  qed
  then have "map (\<lambda>r. if r \<in> set (due_rows ids now limit table) then drained net now r else r) table =
      map (\<lambda>r. if row_id r \<in> set (due_ids ids now limit table)
          then settled now (outcome_of net (claimed_row now r)) (claimed_row now r) else r) table"
    unfolding drained_def by (intro map_cong [OF refl]) (simp only:)
  then show ?thesis using drain_rows [OF assms] by (simp only:)
qed

theorem drain_settles_due_witness:
  "snd (drain \<lparr>urlsplit = demo_url, read_ipv6 = \<lambda>_. None, resolve = \<lambda>_ _. [], client = \<lambda>_. Some 204\<rparr> None 7 100 ([], [])) = ([], [])"
  using drain_settles_due [of "[]"] by (simp add: due_rows_def purge_sent_def delete_where_def)

text \<open>Full drains one after the other, and how often they sent a row.\<close>

fun drains :: "(network \<times> seconds \<times> nat) list \<Rightarrow> outbox_row list \<times> http_call list \<Rightarrow> outbox_row list \<times> http_call list" where
  "drains [] st = st"
| "drains ((net, now, limit) # ds) st = drains ds (snd (drain net None now limit st))"

text \<open>No notification is tried more than \<open>MAX_ATTEMPTS\<close> times and none waits forever: through any drains, with any answers of the
  network and no replica dying in the middle, every row has at most five attempts, and one still pending has fewer.\<close>

theorem attempts_bounded:
  assumes "distinct (map row_id table)" "\<forall>r \<in> set table. attempts r = 0" "r \<in> set (fst (drains ds (table, calls)))"
  shows "attempts r \<le> MAX_ATTEMPTS \<and> (status r = PENDING \<longrightarrow> attempts r < MAX_ATTEMPTS)"
proof -
  have "outbox_inv table" using assms(1,2) by (simp add: outbox_inv_def MAX_ATTEMPTS_def)
  then have "outbox_inv (fst (drains ds (table, calls)))"
  proof (induction ds arbitrary: table calls)
    case (Cons d ds)
    obtain net now limit where d: "d = (net, now, limit)" by (cases d)
    have "outbox_inv (fst (snd (drain net None now limit (table, calls))))" by (rule drain_inv) (rule Cons.prems)
    then show ?case using Cons.IH [of "fst (snd (drain net None now limit (table, calls)))"
        "snd (snd (drain net None now limit (table, calls)))"] d by simp
  qed simp
  then show ?thesis using assms(3) by (simp add: outbox_inv_def)
qed

theorem attempts_bounded_witness: "attempts demo_note \<le> MAX_ATTEMPTS"
  by (rule attempts_bounded [of "[demo_note]" _ "[]" "[]", THEN conjunct1]) (simp_all add: demo_note_def)

text \<open>A full drain that takes everything, once everything pending is due.\<close>

definition pending_by :: "nat \<Rightarrow> seconds \<Rightarrow> outbox_row list \<Rightarrow> bool" where
  "pending_by n t table \<longleftrightarrow> outbox_inv table \<and> (\<forall>r \<in> set table. status r = PENDING \<longrightarrow> n \<le> attempts r \<and> next_attempt_at r \<le> t)"

lemma backoff_le: "backoff n \<le> 600"
proof -
  have "min n 4 - 1 \<in> {0, 1, 2, 3}" by auto
  then show ?thesis by (auto simp: backoff_def BACKOFF_SECONDS_def)
qed

lemma pending_drained: "status (drained net now r) = PENDING \<Longrightarrow> next_attempt_at (drained net now r) \<le> now + 600"
  using backoff_le by (auto simp: drained_def settled_def claimed_row_def split: prod.splits if_splits)

lemma due_rows_all:
  "length table \<le> limit \<Longrightarrow> r \<in> set table \<Longrightarrow> status r = PENDING \<Longrightarrow> next_attempt_at r \<le> now \<Longrightarrow> r \<in> set (due_rows None now limit table)"
  by (simp add: due_rows_def le_trans [OF length_filter_le])

lemma drain_advances:
  assumes "pending_by n t table" "t \<le> now" "length table \<le> limit"
  shows "pending_by (Suc n) (now + 600) (fst (snd (drain net None now limit (table, calls))))"
proof -
  have inv: "outbox_inv table" using assms(1) by (simp add: pending_by_def)
  have "Suc n \<le> attempts r \<and> next_attempt_at r \<le> now + 600"
    if r: "r \<in> set (fst (snd (drain net None now limit (table, calls))))" "status r = PENDING" for r
  proof -
    obtain q where q: "q \<in> set table" "r = (if q \<in> set (due_rows None now limit table) then drained net now q else q)"
      using r(1) drain_rows [of table net None now limit calls] inv by (auto simp: outbox_inv_def purge_sent_def set_delete_where)
    show ?thesis
    proof (cases "q \<in> set (due_rows None now limit table)")
      case True
      then have "status q = PENDING" using due_rows_set [OF True] by (simp add: claimable_def)
      then show ?thesis using True q r(2) claimable_drained [of q net now] pending_drained [of net now q] assms(1)
        by (auto simp: pending_by_def)
    next
      case False
      then have "status q = PENDING" using q r(2) by simp
      moreover from this have "next_attempt_at q \<le> now" using assms(1,2) q(1) by (auto simp: pending_by_def)
      ultimately show ?thesis using due_rows_all [OF assms(3) q(1)] False by simp
    qed
  qed
  then show ?thesis using drain_inv [OF inv] by (simp add: pending_by_def)
qed

lemma drain_length: "distinct (map row_id table) \<Longrightarrow> length (fst (snd (drain net None now limit (table, calls)))) \<le> length table"
  by (simp add: drain_rows purge_sent_def delete_where_def order_trans [OF length_filter_le])

fun spaced :: "seconds \<Rightarrow> nat \<Rightarrow> (network \<times> seconds \<times> nat) list \<Rightarrow> bool" where
  "spaced t n [] = True"
| "spaced t n ((net, now, limit) # ds) = (t \<le> now \<and> n \<le> limit \<and> spaced (now + 600) n ds)"

lemma drains_advance:
  "pending_by n t table \<Longrightarrow> spaced t m ds \<Longrightarrow> length table \<le> m \<Longrightarrow> \<exists>t'. pending_by (n + length ds) t' (fst (drains ds (table, calls)))"
proof (induction ds arbitrary: n t table calls)
  case (Cons d ds)
  obtain net now limit where d: "d = (net, now, limit)" by (cases d)
  let ?st = "snd (drain net None now limit (table, calls))"
  have "pending_by (Suc n) (now + 600) (fst ?st)"
    using drain_advances [OF Cons.prems(1)] Cons.prems(2,3) d by simp
  moreover have "length (fst ?st) \<le> m"
    using drain_length [of table net now limit calls] Cons.prems(1,3) by (simp add: pending_by_def outbox_inv_def)
  ultimately show ?case using Cons.IH [of "Suc n" "now + 600" "fst ?st" "snd ?st"] Cons.prems(2) d by simp
qed auto


definition silent :: network where
  "silent = \<lparr>urlsplit = demo_url, read_ipv6 = \<lambda>_. None, resolve = \<lambda>_ _. [], client = \<lambda>_. None\<rparr>"

definition demo_dead :: outbox_row where
  "demo_dead = demo_note\<lparr>attempts := 5, status := DEAD, next_attempt_at := 2460, last_error := Some ''no answer from the destination''\<rparr>"

lemma demo_drains:
  "fst (drains [(silent, 0, 1), (silent, 600, 1), (silent, 1200, 1), (silent, 1800, 1), (silent, 2400, 1)] ([demo_note], [])) = [demo_dead]"
  by code_simp


text \<open>A notification exists exactly when its change does: after a commit, with the inline drain off, the table has the rows the transaction
  enqueued, and no call was made before the commit; with it on, the calls the commit makes are of those rows only and every
  other row is as it was. A rollback leaves nothing to drain.\<close>

theorem commit_sends_its_own:
  assumes "distinct (map row_id (table @ added s))" "set (pending_ids s) = row_id ` set (added s)"
  shows "case commit net setting now s (table, calls) of (s', table', calls') \<Rightarrow>
    added s' = [] \<and> pending_ids s' = [] \<and> map row_id table' = map row_id (table @ added s) \<and> take (length table) table' = table \<and>
    (\<not> inline_drain_enabled setting \<longrightarrow> table' = table @ added s \<and> calls' = calls) \<and>
    (\<exists>rs. set rs \<subseteq> set (added s) \<and> distinct (map row_id rs) \<and> calls' = calls @ concat (map (\<lambda>r. calls_of net (claimed_row now r)) rs))"
proof -
  let ?ids = "Some (pending_ids s)" and ?all = "table @ added s"
  let ?due = "due_rows ?ids now 100 ?all"
  have mine: "r \<in> set (added s)" if r: "r \<in> set ?due" for r
  proof -
    have "r \<in> set ?all" "row_id r \<in> row_id ` set (added s)" using due_rows_set [OF r] assms(2) by auto
    then show ?thesis using assms(1) distinct_key_eq [OF assms(1), of r] by fastforce
  qed
  have same: "map (\<lambda>r. if r \<in> set ?due then drained net now r else r) table = table"
    using mine assms(1) by (intro map_idI) force
  have rows: "snd (drain net ?ids now 100 (?all, calls)) =
      (table @ map (\<lambda>r. if r \<in> set ?due then drained net now r else r) (added s),
       calls @ concat (map (\<lambda>r. calls_of net (claimed_row now r)) ?due))"
    using drain_rows [OF assms(1), of net ?ids now 100 calls] same by simp
  have keep: "row_id (drained net now r) = row_id r" for r by (simp add: drained_def)
  have "\<exists>rs. set rs \<subseteq> set (added s) \<and> distinct (map row_id rs) \<and> concat (map (\<lambda>r. calls_of net (claimed_row now r)) ?due) =
      concat (map (\<lambda>r. calls_of net (claimed_row now r)) rs)"
    by (rule exI [of _ ?due]) (use mine due_rows_distinct [OF assms(1)] in auto)
  moreover have "\<exists>rs. set rs \<subseteq> set (added s) \<and> distinct (map row_id rs) \<and> [] = concat (map (\<lambda>r. calls_of net (claimed_row now r)) rs)"
    by (rule exI [of _ "[]"]) simp
  ultimately show ?thesis using rows keep by (auto simp: commit_def Let_def)
qed

theorem commit_sends_its_own_witness:
  "fst (snd (commit silent (Some ''off'') 9 \<lparr>added = [demo_note], pending_ids = [1]\<rparr> ([], []))) = [demo_note]"
proof -
  have "\<not> inline_drain_enabled (Some ''off'')" by code_simp
  then show ?thesis using commit_sends_its_own [where table = "[]" and s = "\<lparr>added = [demo_note], pending_ids = [1]\<rparr>" and net = silent
      and setting = "Some ''off''" and now = 9 and calls = "[]"]
    by (auto simp: demo_note_def split: prod.splits)
qed

end
