(* ===== verification/Computations.thy ===== *)
theory Computations
  imports SmoPrelude
begin

section \<open>Computations that keep a state and may raise\<close>

text \<open>
  A handler that calls other systems or works in a database session is a function from a state to an
  error or an answer, and the state it leaves. What is known of such a computation is a triple: from a
  state where \<open>P\<close> holds, an answer satisfies \<open>Q\<close> with the state it comes with, an error \<open>E\<close>. \<open>gives\<close> is
  the triple that does not mention the state and leaves errors open.
\<close>

type_synonym ('s, 'e, 'a) comp = "'s \<Rightarrow> ('e + 'a) \<times> 's"

definition give :: "'a \<Rightarrow> ('s, 'e, 'a) comp" where "give x = (\<lambda>s. (Inr x, s))"
definition fail_with :: "'e \<Rightarrow> ('s, 'e, 'a) comp" where "fail_with err = (\<lambda>s. (Inl err, s))"
definition then_do :: "('s, 'e, 'a) comp \<Rightarrow> ('a \<Rightarrow> ('s, 'e, 'b) comp) \<Rightarrow> ('s, 'e, 'b) comp" where
  "then_do m f = (\<lambda>s. case m s of (Inl err, s') \<Rightarrow> (Inl err, s') | (Inr x, s') \<Rightarrow> f x s')"

text \<open>Reading and changing the state, a call of something that cannot raise, and \<open>try\<close>.\<close>

definition look :: "('s \<Rightarrow> 'a) \<Rightarrow> ('s, 'e, 'a) comp" where "look f = (\<lambda>s. (Inr (f s), s))"
definition change :: "('s \<Rightarrow> 's) \<Rightarrow> ('s, 'e, unit) comp" where "change f = (\<lambda>s. (Inr (), f s))"
definition catch :: "('s, 'e, 'a) comp \<Rightarrow> ('e \<Rightarrow> ('s, 'e, 'a) comp) \<Rightarrow> ('s, 'e, 'a) comp" where
  "catch m h = (\<lambda>s. case m s of (Inl err, s') \<Rightarrow> h err s' | (Inr x, s') \<Rightarrow> (Inr x, s'))"

text \<open>A value that may be an error, and a loop whose body may raise.\<close>

definition from_sum :: "'e + 'a \<Rightarrow> ('s, 'e, 'a) comp" where "from_sum r = (\<lambda>s. (r, s))"

fun for_each :: "('x \<Rightarrow> ('s, 'e, unit) comp) \<Rightarrow> 'x list \<Rightarrow> ('s, 'e, unit) comp" where
  "for_each f [] = give ()"
| "for_each f (x # xs) = then_do (f x) (\<lambda>_. for_each f xs)"

fun map_each :: "('x \<Rightarrow> ('s, 'e, 'y) comp) \<Rightarrow> 'x list \<Rightarrow> ('s, 'e, 'y list) comp" where
  "map_each f [] = give []"
| "map_each f (x # xs) = then_do (f x) (\<lambda>y. then_do (map_each f xs) (\<lambda>ys. give (y # ys)))"

lemmas comp_defs = give_def fail_with_def then_do_def look_def change_def catch_def from_sum_def

subsection \<open>What a computation gives\<close>

named_theorems io_rules \<open>introduction rules for what a computation gives\<close>

text \<open>If the computation returns, what it returns satisfies \<open>P\<close>.\<close>

definition gives :: "('s, 'e, 'a) comp \<Rightarrow> ('a \<Rightarrow> bool) \<Rightarrow> bool" where
  "gives m P \<longleftrightarrow> (\<forall>s x s'. m s = (Inr x, s') \<longrightarrow> P x)"

lemma givesD: "gives m P \<Longrightarrow> m s = (Inr x, s') \<Longrightarrow> P x"
  by (auto simp: gives_def)

lemma gives_give [io_rules]: "P x \<Longrightarrow> gives (give x) P"
  by (simp add: gives_def give_def)

lemma gives_fail [io_rules]: "gives (fail_with err) P"
  by (simp add: gives_def fail_with_def)

lemma gives_then [io_rules]: "gives m (\<lambda>x. gives (f x) P) \<Longrightarrow> gives (then_do m f) P"
  unfolding gives_def then_do_def by (clarsimp split: prod.splits sum.splits) blast

lemma gives_any: "gives m (\<lambda>_. True)"
  by (simp add: gives_def)

lemma gives_mono: "gives m Q \<Longrightarrow> (\<And>x. Q x \<Longrightarrow> P x) \<Longrightarrow> gives m P"
  by (auto simp: gives_def)

subsection \<open>Triples\<close>

named_theorems triple_rules \<open>one rule for each way to build a computation, applied backwards\<close>

definition triple :: "('s \<Rightarrow> bool) \<Rightarrow> ('s, 'e, 'a) comp \<Rightarrow> ('a \<Rightarrow> 's \<Rightarrow> bool) \<Rightarrow> ('e \<Rightarrow> 's \<Rightarrow> bool) \<Rightarrow> bool" where
  "triple P m Q E \<longleftrightarrow> (\<forall>s. P s \<longrightarrow> (case m s of (Inr x, s') \<Rightarrow> Q x s' | (Inl err, s') \<Rightarrow> E err s'))"

lemma tripleD: "triple P m Q E \<Longrightarrow> P s \<Longrightarrow> m s = (Inr x, s') \<Longrightarrow> Q x s'"
  by (force simp: triple_def)

lemma triple_errorD: "triple P m Q E \<Longrightarrow> P s \<Longrightarrow> m s = (Inl err, s') \<Longrightarrow> E err s'"
  by (force simp: triple_def)

lemma triple_weaken:
  "triple P' m Q' E' \<Longrightarrow> (\<And>s. P s \<Longrightarrow> P' s) \<Longrightarrow> (\<And>x s. Q' x s \<Longrightarrow> Q x s) \<Longrightarrow> (\<And>err s. E' err s \<Longrightarrow> E err s) \<Longrightarrow> triple P m Q E"
  unfolding triple_def by (force split: prod.splits sum.splits)

lemma triple_give [triple_rules]: "triple (Q x) (give x) Q E"
  by (simp add: triple_def give_def)

lemma triple_fail [triple_rules]: "triple (E err) (fail_with err) Q E"
  by (simp add: triple_def fail_with_def)

lemma triple_then [triple_rules]: "(\<And>x. triple (R x) (f x) Q E) \<Longrightarrow> triple P m R E \<Longrightarrow> triple P (then_do m f) Q E"
proof (unfold triple_def, intro allI impI)
  fix s assume f: "\<And>x. \<forall>s. R x s \<longrightarrow> (case f x s of (Inr y, s') \<Rightarrow> Q y s' | (Inl err, s') \<Rightarrow> E err s')"
    and m: "\<forall>s. P s \<longrightarrow> (case m s of (Inr x, s') \<Rightarrow> R x s' | (Inl err, s') \<Rightarrow> E err s')" and s: "P s"
  have "case m s of (Inr x, s') \<Rightarrow> R x s' | (Inl err, s') \<Rightarrow> E err s'" using m [rule_format, OF s] .
  then show "case then_do m f s of (Inr y, s') \<Rightarrow> Q y s' | (Inl err, s') \<Rightarrow> E err s'"
    using f [rule_format] by (cases "m s"; cases "fst (m s)") (auto simp: then_do_def)
qed

lemma triple_look [triple_rules]: "triple (\<lambda>s. Q (f s) s) (look f) Q E"
  by (simp add: triple_def look_def)

lemma triple_change [triple_rules]: "triple (\<lambda>s. Q () (f s)) (change f) Q E"
  by (simp add: triple_def change_def)

lemma triple_catch [triple_rules]: "(\<And>err. triple (R err) (h err) Q E) \<Longrightarrow> triple P m Q R \<Longrightarrow> triple P (catch m h) Q E"
proof (unfold triple_def, intro allI impI)
  fix s assume h: "\<And>err. \<forall>s. R err s \<longrightarrow> (case h err s of (Inr y, s') \<Rightarrow> Q y s' | (Inl err, s') \<Rightarrow> E err s')"
    and m: "\<forall>s. P s \<longrightarrow> (case m s of (Inr x, s') \<Rightarrow> Q x s' | (Inl err, s') \<Rightarrow> R err s')" and s: "P s"
  have "case m s of (Inr x, s') \<Rightarrow> Q x s' | (Inl err, s') \<Rightarrow> R err s'" using m [rule_format, OF s] .
  then show "case catch m h s of (Inr y, s') \<Rightarrow> Q y s' | (Inl err, s') \<Rightarrow> E err s'"
    using h [rule_format] by (cases "m s"; cases "fst (m s)") (auto simp: catch_def)
qed

lemma triple_from_sum [triple_rules]: "triple (\<lambda>s. case r of Inl err \<Rightarrow> E err s | Inr x \<Rightarrow> Q x s) (from_sum r) Q E"
  by (auto simp: triple_def from_sum_def split: sum.splits)

text \<open>What holds after every part of a loop holds after the loop.\<close>

lemma triple_for_each:
  "(\<And>x. x \<in> set xs \<Longrightarrow> triple I (f x) (\<lambda>_. I) E) \<Longrightarrow> triple I (for_each f xs) (\<lambda>_. I) E"
proof (induction xs)
  case (Cons x xs)
  then show ?case by (auto intro!: triple_then [where R = "\<lambda>_. I"])
qed (simp add: triple_def give_def)

lemma triple_map_each:
  "(\<And>x. x \<in> set xs \<Longrightarrow> triple I (f x) (\<lambda>_. I) E) \<Longrightarrow> triple I (map_each f xs) (\<lambda>_. I) E"
proof (induction xs)
  case (Cons x xs)
  then show ?case by (auto intro!: triple_then [where R = "\<lambda>_. I"] triple_give)
qed (simp add: triple_def give_def)

end
