(* ===== verification/RappLifecycle.thy ===== *)
theory RappLifecycle
  imports FsmEngine Errors Computations
begin

section \<open>rApp instances (rapp-mgmt/app/statemachine.py and provisioning.py)\<close>

text \<open>
  The lifecycle of an rApp instance, what bringing one up asks of the other modules, and its
  teardown. The other modules are reached by HTTP: the log lists the calls made, and the peers are a
  function from the log and a call to the answer (a status and a JSON body) or to nothing, an
  \<open>httpx.HTTPError\<close>. The bodies of the SME registrations are functions of the declaration and the
  client id the call carries.
\<close>

datatype InstanceState = DEPLOYING | RUNNING | UPGRADING | UNDEPLOYED | FAULTED

datatype InstanceEvent =
    BOOTSTRAP_OK | BOOTSTRAP_FAILED | START_UPGRADE | UPGRADE_COMMIT | UPGRADE_ROLLBACK | TERMINATE | CRASH | RECOVER

record stored_policy =
  timeout_seconds :: nat
  on_timeout :: string
  required_approvals :: "nat option"

record teardown =
  torn_instance :: uid
  reason :: string
  nfo_terminate :: string
  usage_stop :: string
  credential_secret :: string
  torn_at :: seconds

record rapp_instance =
  instance_id :: uid
  package_id :: uid
  instance_state :: InstanceState
  configuration :: "json option"
  workload_ref :: "string option"
  oauth_client_id :: "string option"
  instance_created :: seconds
  upgrade_timeout :: seconds
  pending_upgrade :: "uid option"
  usage_registration :: "string option"
  sme_service_ids :: "string list option"
  rapp_limits_set :: bool
  autonomy_mode :: string
  region_scope :: "json option"
  approval_policy :: "stored_policy option"
  authz_scope :: "json option"
  last_teardown :: "teardown option"
  rollback_of_version :: "uid option"
  operator_api_base :: "string option"

subsection \<open>Calls to the other modules\<close>

datatype peer_call =
    Get_onboarding_status uid
  | Register_invoker uid "json option"
  | Delete_invoker string
  | Delete_production_capabilities string
  | Delete_service_api string string
  | Delete_provider string
  | Register_provider string json
  | Register_service_api string json
  | Put_rapp_limits string "(string \<times> json) list"
  | Delete_rapp_limits string
  | Put_approval_policy string stored_policy
  | Delete_approval_policy string
  | Put_kill string string "string option"
  | Delete_kill string
  | Get_kill_list nat nat
  | Create_deployment string uid "json option"
  | Delete_deployment string
  | Start_usage uid uid
  | Stop_usage uid string
  | Post_secret uid string string
  | Put_secret uid string string
  | Delete_secret uid

type_synonym reply = "nat \<times> json"
type_synonym peer_log = "peer_call list"
type_synonym peers = "peer_log \<Rightarrow> peer_call \<Rightarrow> reply option"

datatype delivery_mode = Off | Broken string | Kubernetes

record environment =
  peers :: peers
  delivery :: delivery_mode

text \<open>A computation that calls peers and may raise.\<close>

type_synonym 'a io = "(peer_log, http_error, 'a) comp"

definition call :: "environment \<Rightarrow> peer_call \<Rightarrow> reply option io" where
  "call env c = (\<lambda>log. (Inr (peers env log c), log @ [c]))"

text \<open>A call whose transport failure nobody catches.\<close>

definition must_answer :: "environment \<Rightarrow> peer_call \<Rightarrow> reply io" where
  "must_answer env c = then_do (call env c) (\<lambda>r. case r of None \<Rightarrow> fail_with (Unhandled ''httpx.HTTPError'') | Some rep \<Rightarrow> give rep)"

text \<open>\<open>body.get(name)\<close>, where null reads as absent, and \<open>body[name]\<close> of a text.\<close>

definition member :: "string \<Rightarrow> json \<Rightarrow> json option" where
  "member name body = (case body of JObject ms \<Rightarrow> (case map_of ms name of Some JNull \<Rightarrow> None | x \<Rightarrow> x) | _ \<Rightarrow> None)"

definition text_member :: "string \<Rightarrow> json \<Rightarrow> string option" where
  "text_member name body = (case member name body of Some (JStr s) \<Rightarrow> Some s | _ \<Rightarrow> None)"

text \<open>\<open>body[name]\<close>, a text. The peers answer with texts here; of a JSON null, which the code would store, this makes a missing member.\<close>

definition text_item :: "string \<Rightarrow> json \<Rightarrow> string io" where
  "text_item name body = (case text_member name body of Some s \<Rightarrow> give s | None \<Rightarrow> fail_with (Unhandled ''KeyError''))"

subsection \<open>Teardown\<close>

type_synonym instance_context = "rapp_instance \<times> peer_log"

definition log_call :: "peer_call \<Rightarrow> instance_context \<Rightarrow> instance_context" where
  "log_call c ctx = (fst ctx, snd ctx @ [c])"

definition revoke_credential :: "instance_context \<Rightarrow> instance_context" where
  "revoke_credential ctx =
     (case oauth_client_id (fst ctx) of None \<Rightarrow> ctx
      | Some cid \<Rightarrow> (case log_call (Delete_invoker cid) ctx of (i, log) \<Rightarrow> (i\<lparr>oauth_client_id := None\<rparr>, log)))"

definition reconsider_dme_registration :: "instance_context \<Rightarrow> instance_context" where
  "reconsider_dme_registration ctx =
     (case oauth_client_id (fst ctx) of None \<Rightarrow> ctx | Some cid \<Rightarrow> log_call (Delete_production_capabilities cid) ctx)"

text \<open>The services one after the other, then the provider; a transport failure ends the sequence.\<close>

fun delete_until_failure :: "environment \<Rightarrow> peer_call list \<Rightarrow> instance_context \<Rightarrow> instance_context" where
  "delete_until_failure env [] ctx = ctx"
| "delete_until_failure env (c # cs) ctx =
     (case peers env (snd ctx) c of None \<Rightarrow> log_call c ctx | Some _ \<Rightarrow> delete_until_failure env cs (log_call c ctx))"

definition reconsider_sme_registration :: "environment \<Rightarrow> instance_context \<Rightarrow> instance_context" where
  "reconsider_sme_registration env ctx =
     (case oauth_client_id (fst ctx) of None \<Rightarrow> ctx
      | Some cid \<Rightarrow>
          delete_until_failure env
            (map (Delete_service_api cid) (case sme_service_ids (fst ctx) of None \<Rightarrow> [] | Some ids \<Rightarrow> ids) @ [Delete_provider cid]) ctx)"

definition reconsider_rapp_limits :: "instance_context \<Rightarrow> instance_context" where
  "reconsider_rapp_limits ctx =
     (case oauth_client_id (fst ctx) of None \<Rightarrow> ctx
      | Some cid \<Rightarrow> if rapp_limits_set (fst ctx) then log_call (Delete_rapp_limits cid) ctx else ctx)"

definition reconsider_approval_policy :: "instance_context \<Rightarrow> instance_context" where
  "reconsider_approval_policy ctx =
     (case oauth_client_id (fst ctx) of None \<Rightarrow> ctx
      | Some cid \<Rightarrow> if approval_policy (fst ctx) \<noteq> None then log_call (Delete_approval_policy cid) ctx else ctx)"

definition reconsider_registrations :: "environment \<Rightarrow> instance_context \<Rightarrow> instance_context" where
  "reconsider_registrations env ctx =
     reconsider_approval_policy (reconsider_rapp_limits (reconsider_sme_registration env (reconsider_dme_registration ctx)))"

definition terminate_side_effects :: "environment \<Rightarrow> instance_context \<Rightarrow> instance_context" where
  "terminate_side_effects env ctx = revoke_credential (reconsider_registrations env ctx)"

definition RAPP_INSTANCE_FSM :: "environment \<Rightarrow> (InstanceState, InstanceEvent, instance_context) state_machine" where
  [fsm_tables]: "RAPP_INSTANCE_FSM env = machine_of [
     edge DEPLOYING BOOTSTRAP_OK RUNNING,
     edge DEPLOYING BOOTSTRAP_FAILED FAULTED,
     edge RUNNING START_UPGRADE UPGRADING,
     acting_edge UPGRADING UPGRADE_COMMIT UNDEPLOYED (terminate_side_effects env),
     edge UPGRADING UPGRADE_ROLLBACK RUNNING,
     acting_edge RUNNING TERMINATE UNDEPLOYED (terminate_side_effects env),
     acting_edge FAULTED TERMINATE UNDEPLOYED (terminate_side_effects env),
     acting_edge DEPLOYING TERMINATE UNDEPLOYED (terminate_side_effects env),
     acting_edge RUNNING CRASH FAULTED (reconsider_registrations env),
     edge FAULTED RECOVER DEPLOYING]"

text \<open>\<open>_step\<close> and \<open>release_instance_resources\<close>: best-effort calls whose outcome is kept.\<close>

definition step_outcome :: "reply option \<Rightarrow> string" where
  "step_outcome r = (case r of None \<Rightarrow> ''FAILED: HTTPError''
     | Some (code, _) \<Rightarrow> if code \<in> {200, 202, 204, 404} then ''DONE'' else ''FAILED: HTTP '' @ str code)"

definition withdraw :: "environment \<Rightarrow> uid \<Rightarrow> peer_log \<Rightarrow> string \<times> peer_log" where
  "withdraw env i log =
     (case delivery env of
        Off \<Rightarrow> (''SKIPPED: credential delivery is off'', log)
      | Broken why \<Rightarrow> (''FAILED: '' @ why, log)
      | Kubernetes \<Rightarrow>
          (case peers env log (Delete_secret i) of
             None \<Rightarrow> ''FAILED: HTTPError''
           | Some (code, _) \<Rightarrow> if code \<in> {200, 202, 404} then ''DONE'' else ''FAILED: the Kubernetes API answered '' @ str code,
           log @ [Delete_secret i]))"

definition release_instance_resources :: "environment \<Rightarrow> seconds \<Rightarrow> string \<Rightarrow> instance_context \<Rightarrow> teardown \<times> instance_context" where
  "release_instance_resources env now why ctx =
     (let (nfo, ctx1) = (case workload_ref (fst ctx) of
              Some ref \<Rightarrow> if ref = [] then (''SKIPPED: no workloadRef'', ctx)
                else (step_outcome (peers env (snd ctx) (Delete_deployment ref)), log_call (Delete_deployment ref) ctx)
            | None \<Rightarrow> (''SKIPPED: no workloadRef'', ctx));
          (usage, ctx2) = (case usage_registration (fst ctx1) of
              Some reg \<Rightarrow>
                (let c = Stop_usage (package_id (fst ctx1)) reg; out = step_outcome (peers env (snd ctx1) c); ctx' = log_call c ctx1
                 in (out, if out = ''DONE'' then ((fst ctx')\<lparr>usage_registration := None\<rparr>, snd ctx') else ctx'))
            | None \<Rightarrow> (''SKIPPED: no usage registration'', ctx1));
          (secret, log) = withdraw env (instance_id (fst ctx2)) (snd ctx2)
      in (\<lparr>torn_instance = instance_id (fst ctx2), reason = why, nfo_terminate = nfo, usage_stop = usage,
            credential_secret = secret, torn_at = now\<rparr>, (fst ctx2, log)))"

subsection \<open>Bringing an instance up\<close>

definition DEPLOYABLE_PACKAGE_STATES :: "string list" where
  "DEPLOYABLE_PACKAGE_STATES = [''AVAILABLE'', ''PRIMED'']"

definition scope_claim :: "rapp_instance \<Rightarrow> json option" where
  "scope_claim inst = (if authz_scope inst = Some (JObject []) then None else authz_scope inst)"

definition register_instance_invoker :: "environment \<Rightarrow> rapp_instance \<Rightarrow> (rapp_instance \<times> string) io" where
  "register_instance_invoker env inst =
     then_do (call env (Register_invoker (instance_id inst) (scope_claim inst))) (\<lambda>r.
       case r of
         None \<Rightarrow> fail_with ENDPOINT_UNREACHABLE
       | Some (code, body) \<Rightarrow>
           if code \<noteq> 201 then fail_with ENDPOINT_UNREACHABLE
           else if scope_claim inst \<noteq> None \<and> member ''authzScope'' body \<noteq> scope_claim inst
           then then_do (text_item ''apiInvokerId'' body) (\<lambda>cid.
                  then_do (call env (Delete_invoker cid)) (\<lambda>_. fail_with ENDPOINT_UNREACHABLE))
           else then_do (text_item ''apiInvokerId'' body) (\<lambda>cid.
                  then_do (text_item ''onboardingSecret'' body) (\<lambda>secret.
                    give (inst\<lparr>oauth_client_id := Some cid\<rparr>, secret))))"

text \<open>Whether the credentials went to a Secret of the workload. A delivery that fails takes the invoker away again.\<close>

definition delivery_failed :: "environment \<Rightarrow> rapp_instance \<Rightarrow> 'a io" where
  "delivery_failed env inst =
     then_do (case oauth_client_id inst of None \<Rightarrow> give None | Some cid \<Rightarrow> call env (Delete_invoker cid)) (\<lambda>_. fail_with ENDPOINT_UNREACHABLE)"

definition deliver_credentials :: "environment \<Rightarrow> rapp_instance \<Rightarrow> string \<Rightarrow> bool io" where
  "deliver_credentials env inst secret =
     (let cid = (case oauth_client_id inst of None \<Rightarrow> [] | Some c \<Rightarrow> c);
          ok = (\<lambda>code. code = (200::nat) \<or> code = 201)
      in case delivery env of
        Off \<Rightarrow> give False
      | Broken _ \<Rightarrow> delivery_failed env inst
      | Kubernetes \<Rightarrow>
          then_do (call env (Post_secret (instance_id inst) cid secret)) (\<lambda>r.
            case r of
              None \<Rightarrow> delivery_failed env inst
            | Some (code, _) \<Rightarrow>
                if code = 409
                then then_do (call env (Put_secret (instance_id inst) cid secret)) (\<lambda>r'.
                       case r' of None \<Rightarrow> delivery_failed env inst
                       | Some (code', _) \<Rightarrow> if ok code' then give True else delivery_failed env inst)
                else if ok code then give True else delivery_failed env inst))"

text \<open>\<open>provision_instance\<close>: the new row, not yet in the table; \<open>new_id\<close> is its fresh id.\<close>

definition provision_instance ::
  "environment \<Rightarrow> seconds \<Rightarrow> uid \<Rightarrow> uid \<Rightarrow> json option \<Rightarrow> string \<Rightarrow> json option \<Rightarrow> stored_policy option \<Rightarrow> json option \<Rightarrow> rapp_instance io" where
  "provision_instance env now new_id package config mode region policy claim =
     then_do (must_answer env (Get_onboarding_status package)) (\<lambda>(code, pkg).
       if code = 404 then fail_with PACKAGE_NOT_FOUND
       else if code \<noteq> 200 \<or> (case text_member ''state'' pkg of None \<Rightarrow> True | Some st \<Rightarrow> st \<notin> set DEPLOYABLE_PACKAGE_STATES)
       then fail_with MODEL_NOT_CERTIFIED
       else case text_member ''nfDeploymentDescriptorId'' pkg of
         None \<Rightarrow> fail_with MODEL_NOT_CERTIFIED
       | Some descriptor \<Rightarrow>
           if descriptor = [] then fail_with MODEL_NOT_CERTIFIED
           else
             let inst = \<lparr>instance_id = new_id, package_id = package, instance_state = DEPLOYING, configuration = config,
                 workload_ref = None, oauth_client_id = Some (''uuid4-'' @ str new_id), instance_created = now, upgrade_timeout = 300,
                 pending_upgrade = None, usage_registration = None, sme_service_ids = None, rapp_limits_set = False,
                 autonomy_mode = mode, region_scope = region, approval_policy = policy, authz_scope = claim,
                 last_teardown = None, rollback_of_version = None, operator_api_base = None\<rparr>
             in then_do (register_instance_invoker env inst) (\<lambda>(inst1, secret).
                then_do (deliver_credentials env inst1 secret) (\<lambda>_.
                then_do (must_answer env (Create_deployment descriptor new_id
                    (case config of None \<Rightarrow> None | Some cfg \<Rightarrow> member ''requiredResourceTypeId'' cfg))) (\<lambda>(code, nfo).
                let inst2 = inst1\<lparr>workload_ref := (if code = 200 \<or> code = 202 then text_member ''nfDeploymentId'' nfo else None)\<rparr>
                in then_do (must_answer env (Start_usage package new_id)) (\<lambda>(code, usage).
                if code = 200
                then then_do (text_item ''registrationId'' usage) (\<lambda>reg. give (inst2\<lparr>usage_registration := Some reg\<rparr>))
                else give inst2)))))"

subsection \<open>When the workload reports that it is up\<close>

definition onboarding_status :: "environment \<Rightarrow> rapp_instance \<Rightarrow> json io" where
  "onboarding_status env inst =
     then_do (must_answer env (Get_onboarding_status (package_id inst))) (\<lambda>(code, body). give (if code = 200 then body else JObject []))"

text \<open>The limits the manifest declares, under the names RAN NF OAM takes.\<close>

definition declared_limits :: "json \<Rightarrow> (string \<times> json) list" where
  "declared_limits status =
     (let limits = (case member ''aiCapabilities'' status of None \<Rightarrow> JObject [] | Some caps \<Rightarrow>
            (case member ''limits'' caps of None \<Rightarrow> JObject [] | Some l \<Rightarrow> l))
      in List.map_filter (\<lambda>(name, field). map_option (\<lambda>v. (field, v)) (member name limits))
           [(''configJobsPerHour'', ''maxConfigJobsPerHour''), (''maxElementsPerJob'', ''maxElementsPerJob''),
            (''maxChangePercent'', ''maxChangePercent'')])"

definition client_id :: "rapp_instance \<Rightarrow> string" where
  "client_id inst = (case oauth_client_id inst of None \<Rightarrow> ''None'' | Some cid \<Rightarrow> cid)"

definition apply_rapp_limits :: "environment \<Rightarrow> json \<Rightarrow> rapp_instance \<Rightarrow> rapp_instance io" where
  "apply_rapp_limits env status inst =
     (let body = declared_limits status in
      if body = [] then give inst
      else then_do (call env (Put_rapp_limits (client_id inst) body)) (\<lambda>r.
        case r of
          Some (code, _) \<Rightarrow> if code = 200 then give (inst\<lparr>rapp_limits_set := True\<rparr>) else fail_with ENDPOINT_UNREACHABLE
        | None \<Rightarrow> fail_with ENDPOINT_UNREACHABLE))"

definition apply_approval_policy :: "environment \<Rightarrow> rapp_instance \<Rightarrow> unit io" where
  "apply_approval_policy env inst =
     (case approval_policy inst of
        None \<Rightarrow> give ()
      | Some policy \<Rightarrow>
          let wanted = (case required_approvals policy of None \<Rightarrow> 1 | Some n \<Rightarrow> n)
          in then_do (call env (Put_approval_policy (client_id inst) policy)) (\<lambda>r.
               case r of
                 Some (code, body) \<Rightarrow>
                   if code = 200 \<and> (wanted > 1 \<longrightarrow> member ''requiredApprovals'' body = Some (JInt (int wanted)))
                   then give () else fail_with ENDPOINT_UNREACHABLE
               | None \<Rightarrow> fail_with ENDPOINT_UNREACHABLE))"

definition listed :: "string \<Rightarrow> json \<Rightarrow> json list" where
  "listed name body = (case member name body of Some (JList xs) \<Rightarrow> xs | _ \<Rightarrow> [])"

text \<open>The registrations of \<open>register_sme_declarations\<close>: \<open>None\<close> once a transport failure ended them.\<close>

fun register_providers :: "environment \<Rightarrow> string \<Rightarrow> json list \<Rightarrow> bool io" where
  "register_providers env cid [] = give True"
| "register_providers env cid (p # ps) =
     then_do (call env (Register_provider cid p)) (\<lambda>r. case r of None \<Rightarrow> give False | Some _ \<Rightarrow> register_providers env cid ps)"

fun register_services :: "environment \<Rightarrow> string \<Rightarrow> json list \<Rightarrow> string list \<Rightarrow> string list option io" where
  "register_services env cid [] ids = give (Some ids)"
| "register_services env cid (s # ss) ids =
     then_do (call env (Register_service_api cid s)) (\<lambda>r.
       case r of
         None \<Rightarrow> give None
       | Some (code, body) \<Rightarrow>
           if code = 201 then then_do (text_item ''serviceId'' body) (\<lambda>i. register_services env cid ss (ids @ [i]))
           else register_services env cid ss ids)"

definition register_sme_declarations :: "environment \<Rightarrow> json \<Rightarrow> rapp_instance \<Rightarrow> rapp_instance io" where
  "register_sme_declarations env status inst =
     (case (member ''smeDeclarations'' status, oauth_client_id inst) of
        (Some decl, Some cid) \<Rightarrow>
          if decl = JObject [] \<or> cid = [] then give inst
          else then_do (register_providers env cid (listed ''providers'' decl)) (\<lambda>up.
            if \<not> up then give inst
            else then_do (register_services env cid (listed ''serviceApis'' decl) []) (\<lambda>ids.
              give (case ids of None \<Rightarrow> inst | Some is' \<Rightarrow> inst\<lparr>sme_service_ids := (if is' = [] then None else Some is')\<rparr>)))
      | _ \<Rightarrow> give inst)"

text \<open>\<open>_on_bootstrap\<close> of main.py.\<close>

definition on_bootstrap :: "environment \<Rightarrow> rapp_instance \<Rightarrow> rapp_instance io" where
  "on_bootstrap env inst =
     then_do (onboarding_status env inst) (\<lambda>status.
     then_do (apply_rapp_limits env status inst) (\<lambda>inst1.
     then_do (apply_approval_policy env inst1) (\<lambda>_.
     register_sme_declarations env status inst1)))"

end
