(* ===== verification/RappUpgrade.thy ===== *)
theory RappUpgrade
  imports RappLifecycle
begin

section \<open>Upgrades, rollbacks and the version history (rapp-mgmt/app/upgrade.py)\<close>

text \<open>
  An upgrade is two rows: the old one, UPGRADING, names its replacement. The functions change the
  tables of the module and return them; what a refused call wrote is dropped with its transaction by
  the routes.
\<close>

datatype version_kind = UPGRADE | ROLLBACK

record instance_version =
  version_id :: uid
  version_instance :: uid
  previous_instance :: uid
  version_package :: uid
  previous_package :: uid
  previous_configuration :: "json option"
  previous_autonomy_mode :: string
  previous_region_scope :: "json option"
  previous_approval_policy :: "stored_policy option"
  previous_authz_scope :: "json option"
  version_kind :: version_kind
  rolled_back_by :: "uid option"

record rapp_store =
  instances :: "rapp_instance list"
  versions :: "instance_version list"
  fault_reports :: "(uid \<times> string \<times> string) list"
  performance_reports :: "(uid \<times> json) list"

definition get_instance :: "rapp_store \<Rightarrow> uid \<Rightarrow> rapp_instance option" where
  "get_instance db i = row_where (\<lambda>r. instance_id r = i) (instances db)"

definition put_instance :: "rapp_instance \<Rightarrow> rapp_store \<Rightarrow> rapp_store" where
  "put_instance row db = db\<lparr>instances := update_where (\<lambda>r. instance_id r = instance_id row) (\<lambda>_. row) (instances db)\<rparr>"

definition insert_instance :: "rapp_instance \<Rightarrow> rapp_store \<Rightarrow> rapp_store" where
  "insert_instance row db = db\<lparr>instances := instances db @ [row]\<rparr>"

text \<open>\<open>_delete_row\<close>: the row and its reports.\<close>

definition delete_row :: "uid \<Rightarrow> rapp_store \<Rightarrow> rapp_store" where
  "delete_row i db = db\<lparr>instances := delete_where (\<lambda>r. instance_id r = i) (instances db),
     fault_reports := delete_where (\<lambda>f. fst f = i) (fault_reports db),
     performance_reports := delete_where (\<lambda>p. fst p = i) (performance_reports db)\<rparr>"

definition fresh_instance_id :: "rapp_store \<Rightarrow> uid" where
  "fresh_instance_id db = fresh_id (map instance_id (instances db) @ map version_instance (versions db) @ map previous_instance (versions db) @
     List.map_filter pending_upgrade (instances db) @ map fst (fault_reports db) @ map fst (performance_reports db))"

definition fire_io :: "environment \<Rightarrow> InstanceEvent \<Rightarrow> rapp_instance \<Rightarrow> rapp_instance io" where
  "fire_io env e inst = (\<lambda>log. case fire (RAPP_INSTANCE_FSM env) (instance_state inst) e (inst, log) of
     Inl _ \<Rightarrow> (Inl illegal_transition_error, log)
   | Inr (st, (inst', log')) \<Rightarrow> (Inr (inst'\<lparr>instance_state := st\<rparr>), log'))"

definition release_io :: "environment \<Rightarrow> seconds \<Rightarrow> string \<Rightarrow> rapp_instance \<Rightarrow> (teardown \<times> rapp_instance) io" where
  "release_io env now why inst = (\<lambda>log. case release_instance_resources env now why (inst, log) of (t, (inst', log')) \<Rightarrow> (Inr (t, inst'), log'))"

subsection \<open>Starting, committing and rolling back\<close>

text \<open>The answer of \<open>start_upgrade\<close> is the replacement.\<close>

definition start_upgrade :: "environment \<Rightarrow> seconds \<Rightarrow> rapp_store \<Rightarrow> rapp_instance \<Rightarrow> uid \<Rightarrow> instance_version option \<Rightarrow>
    (rapp_instance \<times> rapp_store) io" where
  "start_upgrade env now db old new_package restore =
     (if START_UPGRADE \<notin> set (legal_events (RAPP_INSTANCE_FSM env) (instance_state old)) then fail_with illegal_transition_error
      else
        let (config, mode, region, policy, claim) = (case restore of
              None \<Rightarrow> (configuration old, autonomy_mode old, region_scope old, approval_policy old, authz_scope old)
            | Some v \<Rightarrow> (previous_configuration v, previous_autonomy_mode v, previous_region_scope v, previous_approval_policy v,
                previous_authz_scope v))
        in then_do (provision_instance env now (fresh_instance_id db) new_package config mode region policy claim) (\<lambda>new0.
           let new = new0\<lparr>upgrade_timeout := upgrade_timeout old, rollback_of_version := map_option version_id restore\<rparr>
           in then_do (fire_io env START_UPGRADE old) (\<lambda>old'.
              give (new, insert_instance new (put_instance (old'\<lparr>pending_upgrade := Some (instance_id new)\<rparr>) db)))))"

definition upgrade_deadline :: "rapp_instance \<Rightarrow> rapp_instance \<Rightarrow> seconds" where
  "upgrade_deadline old new = instance_created new + upgrade_timeout old"

definition roll_back :: "environment \<Rightarrow> seconds \<Rightarrow> rapp_store \<Rightarrow> rapp_instance \<Rightarrow> rapp_instance option \<Rightarrow> string \<Rightarrow> rapp_store io" where
  "roll_back env now db old new why =
     then_do (fire_io env UPGRADE_ROLLBACK old) (\<lambda>old'.
       case new of
         None \<Rightarrow> give (put_instance (old'\<lparr>pending_upgrade := None\<rparr>) db)
       | Some n \<Rightarrow>
           then_do (\<lambda>log. case terminate_side_effects env (n, log) of (n', log') \<Rightarrow> (Inr n', log')) (\<lambda>n'.
           then_do (release_io env now why n') (\<lambda>(t, _).
             give (put_instance (old'\<lparr>pending_upgrade := None, last_teardown := Some t\<rparr>) (delete_row (instance_id n) db)))))"

definition record_version :: "rapp_instance \<Rightarrow> rapp_instance \<Rightarrow> rapp_store \<Rightarrow> instance_version \<times> rapp_store" where
  "record_version old new db =
     (let v = \<lparr>version_id = fresh_id (map version_id (versions db)), version_instance = instance_id new, previous_instance = instance_id old,
            version_package = package_id new, previous_package = package_id old, previous_configuration = configuration old,
            previous_autonomy_mode = autonomy_mode old, previous_region_scope = region_scope old,
            previous_approval_policy = approval_policy old, previous_authz_scope = authz_scope old,
            version_kind = (if rollback_of_version new \<noteq> None then ROLLBACK else UPGRADE), rolled_back_by = None\<rparr>;
          vs = versions db @ [v]
      in (v, db\<lparr>versions := (case rollback_of_version new of
            None \<Rightarrow> vs
          | Some undone \<Rightarrow> update_where (\<lambda>u. version_id u = undone) (\<lambda>u. u\<lparr>rolled_back_by := Some (version_id v)\<rparr>) vs)\<rparr>))"

text \<open>\<open>resolve_upgrade\<close> with \<open>_on_bootstrap\<close> as \<open>register_identity\<close>.\<close>

definition resolve_upgrade :: "environment \<Rightarrow> seconds \<Rightarrow> rapp_store \<Rightarrow> rapp_instance \<Rightarrow> rapp_instance \<Rightarrow> bool \<Rightarrow> rapp_store io" where
  "resolve_upgrade env now db old new succeeded =
     (if \<not> succeeded then roll_back env now db old (Some new) ''UPGRADE_ROLLBACK''
      else if instance_state new \<notin> {DEPLOYING, RUNNING} then fail_with illegal_transition_error
      else if instance_state old \<noteq> UPGRADING then fail_with illegal_transition_error
      else
        then_do (if instance_state new = DEPLOYING then then_do (fire_io env BOOTSTRAP_OK new) (on_bootstrap env) else give new) (\<lambda>new1.
        then_do (fire_io env UPGRADE_COMMIT old) (\<lambda>old1.
        let db1 = snd (record_version old1 new1 db)
        in then_do (release_io env now ''UPGRADE_COMMIT'' old1) (\<lambda>(t, _).
             give (delete_row (instance_id old) (put_instance (new1\<lparr>last_teardown := Some t\<rparr>) db1))))))"

text \<open>\<open>expire_overdue_upgrade\<close>: \<open>None\<close> when there was nothing to do.\<close>

definition expire_overdue_upgrade :: "environment \<Rightarrow> seconds \<Rightarrow> rapp_store \<Rightarrow> rapp_instance \<Rightarrow> rapp_store option io" where
  "expire_overdue_upgrade env now db old =
     (case pending_upgrade old of
        None \<Rightarrow> give None
      | Some p \<Rightarrow>
          if instance_state old \<noteq> UPGRADING then give None
          else
            let new = get_instance db p
            in if (case new of None \<Rightarrow> False | Some n \<Rightarrow> upgrade_deadline old n > now) then give None
               else then_do (roll_back env now db old new ''UPGRADE_TIMEOUT'') (\<lambda>db'. give (Some db')))"

subsection \<open>The history\<close>

definition version_that_made :: "rapp_store \<Rightarrow> uid \<Rightarrow> instance_version option" where
  "version_that_made db i = row_where (\<lambda>v. version_instance v = i) (versions db)"

definition successor_of :: "rapp_store \<Rightarrow> uid \<Rightarrow> uid option" where
  "successor_of db i = map_option version_instance (row_where (\<lambda>v. previous_instance v = i) (versions db))"

text \<open>What the loops count down: the versions whose id they have not walked through.\<close>

definition unwalked :: "('v \<Rightarrow> uid) \<Rightarrow> 'v list \<Rightarrow> uid set \<Rightarrow> nat" where
  "unwalked key vs seen = length (filter (\<lambda>v. key v \<notin> seen) vs)"

lemma unwalked_insert_le: "unwalked key vs (insert i seen) \<le> unwalked key vs seen"
  by (induction vs) (auto simp: unwalked_def)

lemma unwalked_insert_less: "v \<in> set vs \<Longrightarrow> key v \<notin> seen \<Longrightarrow> unwalked key vs (insert (key v) seen) < unwalked key vs seen"
proof (induction vs)
  case (Cons u vs)
  show ?case
  proof (cases "v = u")
    case True
    then show ?thesis using Cons.prems unwalked_insert_le [of key vs "key v" seen] by (simp add: unwalked_def)
  next
    case False
    then show ?thesis using Cons by (auto simp: unwalked_def)
  qed
qed simp

lemma successor_unwalked:
  "successor_of db i = Some j \<Longrightarrow> i \<notin> seen \<Longrightarrow> unwalked previous_instance (versions db) (insert i seen) < unwalked previous_instance (versions db) seen"
  using unwalked_insert_less [of _ "versions db" previous_instance seen]
  by (fastforce simp: successor_of_def dest: row_where_SomeD)

function walk_forward :: "rapp_store \<Rightarrow> uid \<Rightarrow> uid set \<Rightarrow> uid option" where
  "walk_forward db i seen =
     (if get_instance db i \<noteq> None then Some i
      else case successor_of db i of
        None \<Rightarrow> None
      | Some j \<Rightarrow> if j \<in> seen then None else walk_forward db j (insert i seen))"
  by pat_completeness auto

termination
proof (relation "measures [\<lambda>(db, i, seen). unwalked previous_instance (versions db) seen, \<lambda>(db, i, seen). if i \<in> seen then 1 else 0]")
  fix db i seen j assume "successor_of db i = Some j" "j \<notin> seen"
  then show "((db, j, insert i seen), (db, i, seen)) \<in> measures [\<lambda>(db, i, seen). unwalked previous_instance (versions db) seen,
      \<lambda>(db, i, seen). if i \<in> seen then 1 else 0]"
    using successor_unwalked [of db i j seen] by (cases "i \<in> seen") (auto simp: insert_absorb)
qed simp

definition current_instance_id :: "rapp_store \<Rightarrow> uid \<Rightarrow> uid option" where
  "current_instance_id db i = walk_forward db i {}"

text \<open>The versions come from the table, so the membership test never stops the walk.\<close>

function walk_back :: "rapp_store \<Rightarrow> instance_version option \<Rightarrow> uid set \<Rightarrow> instance_version list" where
  "walk_back db v seen =
     (case v of None \<Rightarrow> []
      | Some u \<Rightarrow> if version_id u \<in> seen \<or> u \<notin> set (versions db) then []
          else u # walk_back db (version_that_made db (previous_instance u)) (insert (version_id u) seen))"
  by pat_completeness auto

termination
  by (relation "measure (\<lambda>(db, v, seen). unwalked version_id (versions db) seen)") (auto simp: unwalked_insert_less)

declare walk_forward.simps [simp del] walk_back.simps [simp del]

definition version_history :: "rapp_store \<Rightarrow> uid \<Rightarrow> instance_version list" where
  "version_history db i = walk_back db (version_that_made db i) {}"

definition rollback_target :: "rapp_store \<Rightarrow> uid \<Rightarrow> instance_version option" where
  "rollback_target db i = find (\<lambda>v. version_kind v = UPGRADE \<and> rolled_back_by v = None) (version_history db i)"

definition start_rollback :: "environment \<Rightarrow> seconds \<Rightarrow> rapp_store \<Rightarrow> rapp_instance \<Rightarrow>
    ((rapp_instance \<times> rapp_store) \<times> instance_version) option io" where
  "start_rollback env now db current =
     (case rollback_target db (instance_id current) of
        None \<Rightarrow> give None
      | Some target \<Rightarrow> then_do (start_upgrade env now db current (previous_package target) (Some target)) (\<lambda>r. give (Some (r, target))))"

end
