(* ===== verification/RappRoutes.thy ===== *)
theory RappRoutes
  imports RappUpgrade AccessScope Webhook
begin

section \<open>The routes of rApp Management (rapp-mgmt/app/main.py)\<close>

text \<open>
  Each route that changes something, on the tables and the log of peer calls. A request is one
  transaction: what it wrote is dropped when it raises, except the sweep of an overdue upgrade, which
  commits on its own. Requests run one at a time here, so a write never loses to another replica's
  (\<open>StaleDataError\<close>).
\<close>

type_synonym 'a served = "(http_error + 'a) \<times> rapp_store \<times> peer_log"

text \<open>The transaction of a request that is loaded and then does its work.\<close>

definition commit :: "rapp_store \<Rightarrow> ('a \<times> rapp_store) io \<Rightarrow> peer_log \<Rightarrow> 'a served" where
  "commit db work log = (case work log of (Inl err, log') \<Rightarrow> (Inl err, db, log') | (Inr (a, db'), log') \<Rightarrow> (Inr a, db', log'))"

definition instance_or_404 :: "rapp_store \<Rightarrow> uid \<Rightarrow> http_error + rapp_instance" where
  "instance_or_404 db i = (case get_instance db i of None \<Rightarrow> Inl RAPP_INSTANCE_NOT_FOUND | Some r \<Rightarrow> Inr r)"

definition upgrade_owner :: "rapp_store \<Rightarrow> rapp_instance \<Rightarrow> rapp_instance option" where
  "upgrade_owner db inst =
     (if pending_upgrade inst \<noteq> None then Some inst
      else row_where (\<lambda>r. pending_upgrade r = Some (instance_id inst)) (instances db))"

text \<open>Whether this request rolled the upgrade back.\<close>

definition sweep_overdue_upgrade :: "environment \<Rightarrow> seconds \<Rightarrow> rapp_store \<Rightarrow> rapp_instance \<Rightarrow> peer_log \<Rightarrow> bool served" where
  "sweep_overdue_upgrade env now db old log =
     commit db (then_do (expire_overdue_upgrade env now db old) (\<lambda>r. give (case r of None \<Rightarrow> (False, db) | Some db' \<Rightarrow> (True, db')))) log"

definition load_instance :: "environment \<Rightarrow> seconds \<Rightarrow> uid \<Rightarrow> rapp_store \<Rightarrow> peer_log \<Rightarrow> rapp_instance served" where
  "load_instance env now i db log =
     (case instance_or_404 db i of
        Inl err \<Rightarrow> (Inl err, db, log)
      | Inr inst \<Rightarrow>
          (case upgrade_owner db inst of
             None \<Rightarrow> (Inr inst, db, log)
           | Some owner \<Rightarrow>
               (case sweep_overdue_upgrade env now db owner log of
                  (Inl err, db', log') \<Rightarrow> (Inl err, db', log')
                | (Inr swept, db', log') \<Rightarrow>
                    if swept \<and> instance_id owner \<noteq> i then (Inl RAPP_INSTANCE_NOT_FOUND, db', log')
                    else (instance_or_404 db' i, db', log'))))"

definition with_instance :: "environment \<Rightarrow> seconds \<Rightarrow> uid \<Rightarrow> (rapp_instance \<Rightarrow> rapp_store \<Rightarrow> ('a \<times> rapp_store) io) \<Rightarrow>
    rapp_store \<Rightarrow> peer_log \<Rightarrow> 'a served" where
  "with_instance env now i work db log =
     (case load_instance env now i db log of
        (Inl err, db', log') \<Rightarrow> (Inl err, db', log')
      | (Inr inst, db', log') \<Rightarrow> commit db' (work inst db') log')"

subsection \<open>Creating an instance\<close>

record create_request =
  req_package :: uid
  req_config :: json
  req_mode :: string
  req_region :: "json option"
  req_policy :: "(nat \<times> string \<times> nat) option"
  req_claim :: "json option"
  req_operator_api :: "string option"

definition policy_to_store :: "(nat \<times> string \<times> nat) option \<Rightarrow> stored_policy option" where
  "policy_to_store p = map_option (\<lambda>(t, on, n). \<lparr>timeout_seconds = t, on_timeout = on, required_approvals = (if n = 1 then None else Some n)\<rparr>) p"

text \<open>The check and normal form of a scope claim (\<open>to_claim(from_claim(...))\<close>) and of an operator API base.\<close>

definition normal_claim :: "json option \<Rightarrow> py_error + json option" where
  "normal_claim c =
     map_sum id (\<lambda>s. case to_claim s of JNull \<Rightarrow> None | j \<Rightarrow> Some j) (from_claim (case c of None \<Rightarrow> JNull | Some j \<Rightarrow> j))"

record url_reader =
  split_text :: "string \<Rightarrow> split_url option"
  ipv6_text :: "string \<Rightarrow> ip_address option"

definition checked_operator_api_base :: "url_reader \<Rightarrow> string \<Rightarrow> http_error + string" where
  "checked_operator_api_base urls v =
     (case normalise_base_url (split_text urls) (ipv6_text urls) (Some v) of
        None \<Rightarrow> Inl (Problem ''OPERATOR_API_BASE_INVALID'' 422) | Some b \<Rightarrow> Inr b)"

definition create_instance :: "url_reader \<Rightarrow> environment \<Rightarrow> seconds \<Rightarrow> create_request \<Rightarrow> rapp_store \<Rightarrow> peer_log \<Rightarrow> rapp_instance served" where
  "create_instance urls env now req db log =
     (case (case req_operator_api req of None \<Rightarrow> Inr None | Some v \<Rightarrow> map_sum id Some (checked_operator_api_base urls v)) of
        Inl err \<Rightarrow> (Inl err, db, log)
      | Inr base \<Rightarrow>
          if req_policy req \<noteq> None \<and> req_mode req \<noteq> ''ASSIST'' then (Inl (Problem ''APPROVAL_POLICY_NEEDS_ASSIST'' 422), db, log)
          else (case normal_claim (req_claim req) of
             Inl _ \<Rightarrow> (Inl AUTHZ_SCOPE_INVALID, db, log)
           | Inr claim \<Rightarrow>
               commit db (then_do (provision_instance env now (fresh_instance_id db) (req_package req) (Some (req_config req)) (req_mode req)
                   (req_region req) (policy_to_store (req_policy req)) claim) (\<lambda>inst.
                 let inst' = inst\<lparr>operator_api_base := base\<rparr> in give (inst', insert_instance inst' db))) log))"

definition issue_instance_credentials :: "environment \<Rightarrow> seconds \<Rightarrow> uid \<Rightarrow> rapp_store \<Rightarrow> peer_log \<Rightarrow> (string option \<times> string option) served" where
  "issue_instance_credentials env now i db log =
     (case with_instance env now i (\<lambda>inst db.
          if instance_state inst \<noteq> DEPLOYING then fail_with illegal_transition_error
          else then_do (register_instance_invoker env inst) (\<lambda>(inst', secret).
               then_do (deliver_credentials env inst' secret) (\<lambda>delivered.
                 give ((oauth_client_id inst, oauth_client_id inst', if delivered then None else Some secret), put_instance inst' db)))) db log of
        (Inl err, db', log') \<Rightarrow> (Inl err, db', log')
      | (Inr (previous, cid, secret), db', log') \<Rightarrow>
          (Inr (cid, secret), db', case previous of None \<Rightarrow> log' | Some p \<Rightarrow> if p = [] then log' else log' @ [Delete_invoker p]))"

subsection \<open>The lifecycle routes\<close>

text \<open>\<open>caller\<close>: the identity headers; a rApp acts for itself only.\<close>

definition own_instance_or_operator :: "headers \<Rightarrow> rapp_instance \<Rightarrow> http_error + unit" where
  "own_instance_or_operator caller inst =
     (if caller ROLE_HEADER = Some ROLE_RAPP \<and>
         (oauth_client_id inst \<in> {None, Some []} \<or> caller INVOKER_ID_HEADER \<noteq> oauth_client_id inst)
      then Inl (Problem ''NOT_THIS_INSTANCE'' 403) else Inr ())"

definition check :: "http_error + unit \<Rightarrow> 'a io \<Rightarrow> 'a io" where
  "check ok m = (case ok of Inl err \<Rightarrow> fail_with err | Inr _ \<Rightarrow> m)"

definition keep :: "rapp_instance \<Rightarrow> rapp_store \<Rightarrow> (rapp_instance \<times> rapp_store) io" where
  "keep inst db = give (inst, put_instance inst db)"

definition bootstrap_complete :: "environment \<Rightarrow> seconds \<Rightarrow> headers \<Rightarrow> uid \<Rightarrow> rapp_store \<Rightarrow> peer_log \<Rightarrow> rapp_instance served" where
  "bootstrap_complete env now caller i =
     with_instance env now i (\<lambda>inst db.
       check (own_instance_or_operator caller inst)
         (if instance_state inst \<noteq> DEPLOYING then fail_with illegal_transition_error
          else then_do (on_bootstrap env inst) (\<lambda>inst'. then_do (fire_io env BOOTSTRAP_OK inst') (\<lambda>inst''. keep inst'' db))))"

definition recover_instance :: "environment \<Rightarrow> seconds \<Rightarrow> uid \<Rightarrow> rapp_store \<Rightarrow> peer_log \<Rightarrow> rapp_instance served" where
  "recover_instance env now i = with_instance env now i (\<lambda>inst db. then_do (fire_io env RECOVER inst) (\<lambda>inst'. keep inst' db))"

definition upgrade_instance :: "environment \<Rightarrow> seconds \<Rightarrow> uid \<Rightarrow> uid \<Rightarrow> rapp_store \<Rightarrow> peer_log \<Rightarrow> rapp_instance served" where
  "upgrade_instance env now i new_package =
     with_instance env now i (\<lambda>old db. start_upgrade env now db old new_package None)"

text \<open>The surviving instance.\<close>

definition resolve_upgrade_outcome :: "environment \<Rightarrow> seconds \<Rightarrow> uid \<Rightarrow> bool \<Rightarrow> rapp_store \<Rightarrow> peer_log \<Rightarrow> rapp_instance served" where
  "resolve_upgrade_outcome env now i succeeded db log =
     (case instance_or_404 db i of
        Inl err \<Rightarrow> (Inl err, db, log)
      | Inr old \<Rightarrow>
          (case pending_upgrade old of
             None \<Rightarrow> (Inl RAPP_INSTANCE_NOT_FOUND, db, log)
           | Some p \<Rightarrow>
               (case sweep_overdue_upgrade env now db old log of
                  (Inl err, db', log') \<Rightarrow> (Inl err, db', log')
                | (Inr True, db', log') \<Rightarrow> (if succeeded then Inl RAPP_UPGRADE_TIMED_OUT else instance_or_404 db' i, db', log')
                | (Inr False, db', log') \<Rightarrow>
                    (case instance_or_404 db' p of
                       Inl err \<Rightarrow> (Inl err, db', log')
                     | Inr new \<Rightarrow>
                         commit db' (then_do (resolve_upgrade env now db' old new succeeded) (\<lambda>db''.
                           case instance_or_404 db'' (if succeeded then p else i) of
                             Inl err \<Rightarrow> fail_with err | Inr survivor \<Rightarrow> give (survivor, db''))) log'))))"

definition rollback_instance :: "environment \<Rightarrow> seconds \<Rightarrow> uid \<Rightarrow> rapp_store \<Rightarrow> peer_log \<Rightarrow> (rapp_instance \<times> instance_version) served" where
  "rollback_instance env now i db log =
     (case current_instance_id db i of
        None \<Rightarrow> (Inl RAPP_INSTANCE_NOT_FOUND, db, log)
      | Some c \<Rightarrow>
          with_instance env now c (\<lambda>current db.
            then_do (start_rollback env now db current) (\<lambda>started.
              case started of None \<Rightarrow> fail_with ROLLBACK_HISTORY_UNAVAILABLE
              | Some ((new, db'), target) \<Rightarrow> give ((new, target), db'))) db log)"

definition terminate_instance :: "environment \<Rightarrow> seconds \<Rightarrow> uid \<Rightarrow> rapp_store \<Rightarrow> peer_log \<Rightarrow> rapp_instance served" where
  "terminate_instance env now i =
     with_instance env now i (\<lambda>inst db.
       if (case upgrade_owner db inst of None \<Rightarrow> False | Some owner \<Rightarrow> instance_id owner \<noteq> instance_id inst)
       then fail_with LIFECYCLE_ILLEGAL_TRANSITION
       else then_do (fire_io env TERMINATE inst) (\<lambda>inst1.
            then_do (release_io env now ''TERMINATE'' inst1) (\<lambda>(t, inst2). keep (inst2\<lparr>last_teardown := Some t\<rparr>) db)))"

definition delete_instance :: "environment \<Rightarrow> seconds \<Rightarrow> uid \<Rightarrow> rapp_store \<Rightarrow> peer_log \<Rightarrow> unit served" where
  "delete_instance env now i =
     with_instance env now i (\<lambda>inst db.
       if instance_state inst \<noteq> UNDEPLOYED then fail_with RAPP_INSTANCE_NOT_UNDEPLOYED
       else give ((), delete_row i db))"

definition set_config :: "headers \<Rightarrow> uid \<Rightarrow> json \<Rightarrow> rapp_store \<Rightarrow> peer_log \<Rightarrow> unit served" where
  "set_config caller i config db log =
     (case instance_or_404 db i of
        Inl err \<Rightarrow> (Inl err, db, log)
      | Inr inst \<Rightarrow> commit db (check (own_instance_or_operator caller inst) (give ((), put_instance (inst\<lparr>configuration := Some config\<rparr>) db))) log)"

definition report_performance :: "headers \<Rightarrow> uid \<Rightarrow> json \<Rightarrow> rapp_store \<Rightarrow> peer_log \<Rightarrow> unit served" where
  "report_performance caller i metrics db log =
     (case instance_or_404 db i of
        Inl err \<Rightarrow> (Inl err, db, log)
      | Inr inst \<Rightarrow> commit db (check (own_instance_or_operator caller inst)
          (give ((), db\<lparr>performance_reports := performance_reports db @ [(i, metrics)]\<rparr>))) log)"

definition report_fault :: "environment \<Rightarrow> seconds \<Rightarrow> headers \<Rightarrow> uid \<Rightarrow> string \<Rightarrow> string \<Rightarrow> rapp_store \<Rightarrow> peer_log \<Rightarrow> rapp_instance served" where
  "report_fault env now caller i severity description =
     with_instance env now i (\<lambda>inst db.
       check (own_instance_or_operator caller inst)
         (then_do (if severity = ''critical'' then fire_io env CRASH inst else give inst) (\<lambda>inst'.
            give (inst', (put_instance inst' db)\<lparr>fault_reports := fault_reports db @ [(i, severity, description)]\<rparr>))))"

definition serves :: "rapp_instance \<Rightarrow> bool" where "serves inst \<longleftrightarrow> instance_state inst \<noteq> UNDEPLOYED"

definition register_operator_api :: "url_reader \<Rightarrow> environment \<Rightarrow> seconds \<Rightarrow> headers \<Rightarrow> uid \<Rightarrow> string \<Rightarrow> rapp_store \<Rightarrow> peer_log \<Rightarrow>
    rapp_instance served" where
  "register_operator_api urls env now caller i base =
     with_instance env now i (\<lambda>inst db.
       check (own_instance_or_operator caller inst)
         (if \<not> serves inst then fail_with LIFECYCLE_ILLEGAL_TRANSITION
          else case checked_operator_api_base urls base of
            Inl err \<Rightarrow> fail_with err
          | Inr b \<Rightarrow> keep (inst\<lparr>operator_api_base := Some b\<rparr>) db))"

definition clear_operator_api :: "environment \<Rightarrow> seconds \<Rightarrow> headers \<Rightarrow> uid \<Rightarrow> rapp_store \<Rightarrow> peer_log \<Rightarrow> rapp_instance served" where
  "clear_operator_api env now caller i =
     with_instance env now i (\<lambda>inst db.
       check (own_instance_or_operator caller inst) (keep (inst\<lparr>operator_api_base := None\<rparr>) db))"

subsection \<open>The kill switches\<close>

definition KILL_LIST_PAGE :: nat where "KILL_LIST_PAGE = 500"

text \<open>The item's invoker id, where it has one.\<close>

definition invoker_ids :: "json list \<Rightarrow> string list" where
  "invoker_ids items = List.map_filter (\<lambda>i. case text_member ''invokerId'' i of Some s \<Rightarrow> if s = [] then None else Some s | None \<Rightarrow> None) items"

text \<open>The pages of RAN NF OAM's list, until one is short: \<open>fuel\<close> bounds how many are read.\<close>

fun stopped_invoker_ids :: "nat \<Rightarrow> environment \<Rightarrow> nat \<Rightarrow> string list \<Rightarrow> string list option io" where
  "stopped_invoker_ids 0 env offset stopped = give None"
| "stopped_invoker_ids (Suc fuel) env offset stopped =
     then_do (call env (Get_kill_list KILL_LIST_PAGE offset)) (\<lambda>r.
       case r of
         None \<Rightarrow> fail_with ENDPOINT_UNREACHABLE
       | Some (code, body) \<Rightarrow>
           if code \<noteq> 200 then fail_with ENDPOINT_UNREACHABLE
           else let items = listed ''items'' body; stopped' = stopped @ invoker_ids items
             in if length items < KILL_LIST_PAGE then give (Some stopped')
                else stopped_invoker_ids fuel env (offset + KILL_LIST_PAGE) stopped')"

definition live_instances :: "rapp_store \<Rightarrow> rapp_instance list" where
  "live_instances db = sort_key (\<lambda>r. (instance_created r, instance_id r))
     (filter (\<lambda>r. instance_state r \<noteq> UNDEPLOYED \<and> oauth_client_id r \<noteq> None) (instances db))"

definition kill_call :: "environment \<Rightarrow> rapp_instance \<Rightarrow> (string \<Rightarrow> peer_call) \<Rightarrow> reply io" where
  "kill_call env inst c =
     (case oauth_client_id inst of
        None \<Rightarrow> fail_with RAPP_INSTANCE_NOT_FOUND
      | Some cid \<Rightarrow> then_do (call env (c cid)) (\<lambda>r.
          case r of None \<Rightarrow> fail_with ENDPOINT_UNREACHABLE
          | Some rep \<Rightarrow> if fst rep = 200 \<or> fst rep = 204 then give rep else fail_with ENDPOINT_UNREACHABLE))"

definition lift_kill_call :: "environment \<Rightarrow> rapp_instance \<Rightarrow> unit io" where
  "lift_kill_call env inst =
     (case oauth_client_id inst of
        None \<Rightarrow> give ()
      | Some cid \<Rightarrow>
          if cid = [] then fail_with ENDPOINT_UNREACHABLE
          else then_do (call env (Delete_kill cid)) (\<lambda>r.
            case r of None \<Rightarrow> fail_with ENDPOINT_UNREACHABLE
            | Some rep \<Rightarrow> if fst rep = 204 \<or> fst rep = 404 then give () else fail_with ENDPOINT_UNREACHABLE))"

definition kill_instance :: "environment \<Rightarrow> seconds \<Rightarrow> uid \<Rightarrow> string \<Rightarrow> string option \<Rightarrow> rapp_store \<Rightarrow> peer_log \<Rightarrow> reply served" where
  "kill_instance env now i by why =
     with_instance env now i (\<lambda>inst db. then_do (kill_call env inst (\<lambda>cid. Put_kill cid by why)) (\<lambda>rep. give (rep, db)))"

definition lift_instance_kill :: "environment \<Rightarrow> seconds \<Rightarrow> uid \<Rightarrow> rapp_store \<Rightarrow> peer_log \<Rightarrow> unit served" where
  "lift_instance_kill env now i = with_instance env now i (\<lambda>inst db. then_do (lift_kill_call env inst) (\<lambda>_. give ((), db)))"

text \<open>The loop of \<open>kill_all_instances\<close>: stopped, already stopped, failed.\<close>

fun kill_each :: "environment \<Rightarrow> string \<Rightarrow> string option \<Rightarrow> string list \<Rightarrow> rapp_instance list \<Rightarrow> (nat \<times> nat \<times> uid list) io" where
  "kill_each env by why already [] = give (0, 0, [])"
| "kill_each env by why already (inst # rest) =
     (\<lambda>log.
       if (case oauth_client_id inst of None \<Rightarrow> False | Some cid \<Rightarrow> cid \<in> set already)
       then then_do (kill_each env by why already rest) (\<lambda>(s, a, f). give (s, a + 1, f)) log
       else case kill_call env inst (\<lambda>cid. Put_kill cid by why) log of
         (Inl _, log') \<Rightarrow> then_do (kill_each env by why already rest) (\<lambda>(s, a, f). give (s, a, instance_id inst # f)) log'
       | (Inr _, log') \<Rightarrow> then_do (kill_each env by why already rest) (\<lambda>(s, a, f). give (s + 1, a, f)) log')"

definition kill_all_instances :: "nat \<Rightarrow> environment \<Rightarrow> string \<Rightarrow> string option \<Rightarrow> rapp_store \<Rightarrow> (nat \<times> nat \<times> uid list) option io" where
  "kill_all_instances fuel env by why db =
     then_do (stopped_invoker_ids fuel env 0 []) (\<lambda>already.
       case already of None \<Rightarrow> give None
       | Some ids \<Rightarrow> then_do (kill_each env by why ids (live_instances db)) (\<lambda>r. give (Some r)))"

fun resume_each :: "environment \<Rightarrow> string list \<Rightarrow> rapp_instance list \<Rightarrow> (nat \<times> uid list) io" where
  "resume_each env stopped [] = give (0, [])"
| "resume_each env stopped (inst # rest) =
     (\<lambda>log.
       if \<not> (case oauth_client_id inst of None \<Rightarrow> False | Some cid \<Rightarrow> cid \<in> set stopped) then resume_each env stopped rest log
       else case lift_kill_call env inst log of
         (Inl _, log') \<Rightarrow> then_do (resume_each env stopped rest) (\<lambda>(n, f). give (n, instance_id inst # f)) log'
       | (Inr _, log') \<Rightarrow> then_do (resume_each env stopped rest) (\<lambda>(n, f). give (n + 1, f)) log')"

definition resume_all_instances :: "nat \<Rightarrow> environment \<Rightarrow> rapp_store \<Rightarrow> (nat \<times> uid list) option io" where
  "resume_all_instances fuel env db =
     then_do (stopped_invoker_ids fuel env 0 []) (\<lambda>stopped.
       case stopped of None \<Rightarrow> give None
       | Some ids \<Rightarrow> then_do (resume_each env ids (live_instances db)) (\<lambda>r. give (Some r)))"

end
