(* ===== verification/RappSafety.thy ===== *)
theory RappSafety
  imports RappRoutes
begin

section \<open>What every request keeps of the rApp tables\<close>

subsection \<open>Reasoning about computations that call peers\<close>

lemma gives_call [io_rules]: "(\<And>r. P r) \<Longrightarrow> gives (call env c) P"
  by (simp add: gives_def call_def)

lemma gives_must [io_rules]: "(\<And>r. P r) \<Longrightarrow> gives (must_answer env c) P"
  unfolding must_answer_def by (auto intro!: io_rules split: option.split)

lemma gives_check [io_rules]: "gives m P \<Longrightarrow> gives (check ok m) P"
  by (simp add: check_def gives_fail split: sum.split)

lemma gives_text_item [io_rules]: "(\<And>s. P s) \<Longrightarrow> gives (text_item name body) P"
  by (auto simp: text_item_def intro: io_rules split: option.split)

subsection \<open>The invariant\<close>

definition row_ok :: "rapp_instance \<Rightarrow> bool" where
  "row_ok r \<longleftrightarrow> (pending_upgrade r \<noteq> None \<longleftrightarrow> instance_state r = UPGRADING) \<and> (oauth_client_id r = None \<longleftrightarrow> instance_state r = UNDEPLOYED)"

text \<open>The history, on the pairs of a row's id and its pending pointer: no version retired a live row, ids are not used
  twice, and what an upgrade is pending on is nobody else's replacement and no version's result.\<close>

type_synonym pointers = "(uid \<times> uid option) set"

definition pointers :: "rapp_instance list \<Rightarrow> pointers" where
  "pointers rs = (\<lambda>r. (instance_id r, pending_upgrade r)) ` set rs"

definition history_ok :: "instance_version list \<Rightarrow> pointers \<Rightarrow> bool" where
  "history_ok vs P \<longleftrightarrow> distinct (map version_id vs) \<and> distinct (map version_instance vs) \<and>
     (\<forall>i \<in> fst ` P. i \<notin> previous_instance ` set vs) \<and>
     (\<forall>i p. (i, Some p) \<in> P \<longrightarrow> p \<notin> version_instance ` set vs) \<and>
     (\<forall>i j p. (i, Some p) \<in> P \<longrightarrow> (j, Some p) \<in> P \<longrightarrow> i = j)"

lemma history_okI:
  assumes "distinct (map version_id vs)" "distinct (map version_instance vs)" "\<And>i. i \<in> fst ` P \<Longrightarrow> i \<notin> previous_instance ` set vs"
    "\<And>i p. (i, Some p) \<in> P \<Longrightarrow> p \<notin> version_instance ` set vs" "\<And>i j p. (i, Some p) \<in> P \<Longrightarrow> (j, Some p) \<in> P \<Longrightarrow> i = j"
  shows "history_ok vs P"
  unfolding history_ok_def using assms by (intro conjI ballI allI impI) metis+

lemma history_okD:
  assumes "history_ok vs P"
  shows "distinct (map version_id vs)" "distinct (map version_instance vs)" "i \<in> fst ` P \<Longrightarrow> i \<notin> previous_instance ` set vs"
    "(i, Some p) \<in> P \<Longrightarrow> p \<notin> version_instance ` set vs" "(i, Some p) \<in> P \<Longrightarrow> (j, Some p) \<in> P \<Longrightarrow> i = j"
proof -
  show "distinct (map version_id vs)" "distinct (map version_instance vs)" using assms by (simp_all add: history_ok_def)
  show "i \<in> fst ` P \<Longrightarrow> i \<notin> previous_instance ` set vs" using assms unfolding history_ok_def by metis
  show "(i, Some p) \<in> P \<Longrightarrow> p \<notin> version_instance ` set vs" using assms unfolding history_ok_def by metis
  show "(i, Some p) \<in> P \<Longrightarrow> (j, Some p) \<in> P \<Longrightarrow> i = j" using assms unfolding history_ok_def by metis
qed

definition rapp_inv :: "rapp_store \<Rightarrow> bool" where
  "rapp_inv db \<longleftrightarrow> distinct (map instance_id (instances db)) \<and> (\<forall>r \<in> set (instances db). row_ok r) \<and>
     history_ok (versions db) (pointers (instances db))"

text \<open>Pointers may go, rows may go.\<close>

lemma history_shrink:
  assumes "history_ok vs P" "\<And>i p. (i, p) \<in> P' \<Longrightarrow> (i, p) \<in> P \<or> p = None \<and> i \<in> fst ` P"
  shows "history_ok vs P'"
proof -
  have ids: "i \<in> fst ` P" if "i \<in> fst ` P'" for i
  proof -
    from that obtain p where "(i, p) \<in> P'" by auto
    then show ?thesis using assms(2) [of i p] by (auto intro: rev_image_eqI)
  qed
  have ptr: "(i, Some p) \<in> P" if "(i, Some p) \<in> P'" for i p using assms(2) [OF that] by simp
  show ?thesis
    by (rule history_okI) (use history_okD [OF assms(1)] ids ptr in metis)+
qed

lemma in_pointers: "r \<in> set rs \<Longrightarrow> (instance_id r, pending_upgrade r) \<in> pointers rs"
  by (auto simp: pointers_def)

lemma pointers_ids: "fst ` pointers rs = instance_id ` set rs"
  by (auto simp: pointers_def image_image)

text \<open>A changed row that fits its table: its pending pointer is the one it had, or none.\<close>

definition row_fits :: "rapp_store \<Rightarrow> rapp_instance \<Rightarrow> bool" where
  "row_fits db r \<longleftrightarrow> row_ok r \<and> (pending_upgrade r = None \<or> (instance_id r, pending_upgrade r) \<in> pointers (instances db))"

lemma get_instance_inv: "rapp_inv db \<Longrightarrow> get_instance db i = Some r \<Longrightarrow> row_ok r \<and> instance_id r = i \<and> r \<in> set (instances db)"
  by (auto simp: rapp_inv_def get_instance_def dest: row_where_SomeD)

lemma map_put_instance [simp]: "map instance_id (instances (put_instance r db)) = map instance_id (instances db)"
  unfolding put_instance_def by simp (rule map_update_where, simp)

lemma put_instance_ids [simp]: "instance_id ` set (instances (put_instance r db)) = instance_id ` set (instances db)"
  by (metis list.set_map map_put_instance)

lemma put_instance_versions [simp]: "versions (put_instance r db) = versions db"
  by (simp add: put_instance_def)

lemma in_put_instance: "r' \<in> set (instances (put_instance r db)) \<Longrightarrow> r' = r \<and> instance_id r \<in> instance_id ` set (instances db) \<or>
    r' \<in> set (instances db) \<and> instance_id r' \<noteq> instance_id r"
  by (auto simp: put_instance_def set_update_where split: if_splits intro: rev_image_eqI)

lemma pointers_put:
  "(i, p) \<in> pointers (instances (put_instance r db)) \<Longrightarrow>
     (i, p) = (instance_id r, pending_upgrade r) \<and> i \<in> fst ` pointers (instances db) \<or> (i, p) \<in> pointers (instances db) \<and> i \<noteq> instance_id r"
  unfolding pointers_ids by (auto simp: pointers_def dest!: in_put_instance)

lemma put_instance_inv:
  assumes inv: "rapp_inv db" and fits: "row_fits db r"
  shows "rapp_inv (put_instance r db)"
proof -
  have "history_ok (versions db) (pointers (instances (put_instance r db)))"
    by (rule history_shrink [of _ "pointers (instances db)"])
      (use inv fits in \<open>auto simp: rapp_inv_def row_fits_def dest!: pointers_put\<close>)
  then show ?thesis using inv fits in_put_instance by (auto simp: rapp_inv_def row_fits_def)
qed

lemma insert_instance_inv:
  assumes "rapp_inv db" "row_ok r" "pending_upgrade r = None" "instance_id r \<notin> instance_id ` set (instances db)"
    "instance_id r \<notin> previous_instance ` set (versions db)"
  shows "rapp_inv (insert_instance r db)"
proof -
  have "pointers (instances db @ [r]) = insert (instance_id r, None) (pointers (instances db))" using assms(3) by (auto simp: pointers_def)
  then have "history_ok (versions db) (pointers (instances db @ [r]))" using assms(1,5) by (simp add: rapp_inv_def history_ok_def)
  then show ?thesis using assms by (auto simp: rapp_inv_def insert_instance_def)
qed

lemma delete_row_inv: "rapp_inv db \<Longrightarrow> rapp_inv (delete_row i db)"
proof -
  assume inv: "rapp_inv db"
  have "history_ok (versions db) (pointers (delete_where (\<lambda>r. instance_id r = i) (instances db)))"
    by (rule history_shrink [of _ "pointers (instances db)"]) (use inv in \<open>auto simp: rapp_inv_def pointers_def set_delete_where\<close>)
  then show ?thesis using inv by (auto simp: rapp_inv_def delete_row_def set_delete_where intro: distinct_map_delete_where)
qed

lemma same_instances_inv: "rapp_inv db \<Longrightarrow> instances db' = instances db \<Longrightarrow> versions db' = versions db \<Longrightarrow> rapp_inv db'"
  by (simp add: rapp_inv_def)

lemma fresh_instance:
  "fresh_instance_id db \<notin> instance_id ` set (instances db)" "fresh_instance_id db \<notin> version_instance ` set (versions db)"
  "fresh_instance_id db \<notin> previous_instance ` set (versions db)"
  "(i, Some (fresh_instance_id db)) \<notin> pointers (instances db)"
proof -
  let ?ids = "map instance_id (instances db) @ map version_instance (versions db) @ map previous_instance (versions db) @
     List.map_filter pending_upgrade (instances db) @ map fst (fault_reports db) @ map fst (performance_reports db)"
  have new: "fresh_instance_id db \<notin> set ?ids" unfolding fresh_instance_id_def by (rule fresh_id_notin)
  then show "fresh_instance_id db \<notin> instance_id ` set (instances db)" "fresh_instance_id db \<notin> version_instance ` set (versions db)"
    "fresh_instance_id db \<notin> previous_instance ` set (versions db)"
    by auto
  have "x \<in> set (List.map_filter pending_upgrade rs)" if "(i, Some x) \<in> pointers rs" for rs :: "rapp_instance list" and i x
    using that by (induction rs) (auto simp: pointers_def map_filter_simps split: option.split)
  then show "(i, Some (fresh_instance_id db)) \<notin> pointers (instances db)" using new by auto
qed

text \<open>A row that points to its new replacement.\<close>

lemma upgrade_pair_inv:
  assumes inv: "rapp_inv db" and old: "old \<in> set (instances db)" "instance_id old' = instance_id old" "row_ok old'"
    and p: "pending_upgrade old' = Some (fresh_instance_id db)"
    and new: "row_ok new" "pending_upgrade new = None" "instance_id new = fresh_instance_id db"
  shows "rapp_inv (insert_instance new (put_instance old' db))"
proof (rule insert_instance_inv)
  let ?P = "pointers (instances (put_instance old' db))"
  have ids: "fst ` ?P = fst ` pointers (instances db)" by (simp add: pointers_ids)
  have hist: "history_ok (versions db) (pointers (instances db))" using inv by (simp add: rapp_inv_def)
  have ptr: "i = instance_id old' \<and> q = fresh_instance_id db \<or> (i, Some q) \<in> pointers (instances db)" if "(i, Some q) \<in> ?P" for i q
    using pointers_put [OF that] p by auto
  have fst: "q \<notin> version_instance ` set (versions db)" if "(i, Some q) \<in> ?P" for i q
    using ptr [OF that] history_okD(4) [OF hist] fresh_instance(2) by metis
  have snd: "i = j" if "(i, Some q) \<in> ?P" "(j, Some q) \<in> ?P" for i j q
    using ptr [OF that(1)] ptr [OF that(2)] history_okD(5) [OF hist] fresh_instance(4) by metis
  have "history_ok (versions db) ?P" by (rule history_okI) (use history_okD(1-3) [OF hist] fst snd in \<open>auto simp: ids\<close>)
  then show "rapp_inv (put_instance old' db)" using inv old in_put_instance by (auto simp: rapp_inv_def)
qed (use new fresh_instance in auto)

subsection \<open>What the parts give\<close>

text \<open>The fields a bring-up or a teardown never touches.\<close>

definition same_core :: "rapp_instance \<Rightarrow> rapp_instance \<Rightarrow> bool" where
  "same_core r r' \<longleftrightarrow> instance_id r' = instance_id r \<and> instance_state r' = instance_state r \<and> pending_upgrade r' = pending_upgrade r \<and>
     package_id r' = package_id r \<and> configuration r' = configuration r \<and> rollback_of_version r' = rollback_of_version r"

lemma register_invoker_gives [io_rules]:
  "(\<And>inst' s. same_core inst inst' \<Longrightarrow> oauth_client_id inst' \<noteq> None \<Longrightarrow> P (inst', s)) \<Longrightarrow> gives (register_instance_invoker env inst) P"
  unfolding register_instance_invoker_def by (auto simp: same_core_def intro!: io_rules split: option.split prod.split)

lemma deliver_gives [io_rules]: "(\<And>b. P b) \<Longrightarrow> gives (deliver_credentials env inst secret) P"
  by (rule gives_mono [OF gives_any])

lemma provision_gives [io_rules]:
  "(\<And>r. instance_id r = i \<Longrightarrow> instance_state r = DEPLOYING \<Longrightarrow> row_ok r \<Longrightarrow> package_id r = package \<Longrightarrow> configuration r = config \<Longrightarrow> P r) \<Longrightarrow>
   gives (provision_instance env now i package config mode region policy claim) P"
proof -
  assume P: "\<And>r. instance_id r = i \<Longrightarrow> instance_state r = DEPLOYING \<Longrightarrow> row_ok r \<Longrightarrow> package_id r = package \<Longrightarrow> configuration r = config \<Longrightarrow> P r"
  have "gives (provision_instance env now i package config mode region policy claim)
     (\<lambda>r. instance_id r = i \<and> instance_state r = DEPLOYING \<and> row_ok r \<and> package_id r = package \<and> configuration r = config)"
    unfolding provision_instance_def
    by (auto simp: Let_def same_core_def row_ok_def intro!: io_rules split: option.split prod.split)
  then show ?thesis by (rule gives_mono) (use P in auto)
qed

lemma delete_until_failure_row [simp]: "fst (delete_until_failure env cs ctx) = fst ctx"
  by (induction env cs ctx rule: delete_until_failure.induct) (simp_all add: log_call_def split: option.split)

lemma reconsider_row [simp]: "fst (reconsider_registrations env ctx) = fst ctx"
  by (simp add: reconsider_registrations_def reconsider_approval_policy_def reconsider_rapp_limits_def reconsider_sme_registration_def
      reconsider_dme_registration_def log_call_def split: option.split)

lemma terminate_side_effects_row: "fst (terminate_side_effects env ctx) = (fst ctx)\<lparr>oauth_client_id := None\<rparr>"
  by (cases "fst ctx") (simp add: terminate_side_effects_def revoke_credential_def log_call_def split: option.split)

lemma release_row:
  "\<exists>u. fst (snd (release_instance_resources env now why ctx)) = (fst ctx)\<lparr>usage_registration := u\<rparr>"
proof -
  have "\<exists>u. i = i\<lparr>usage_registration := u\<rparr>" for i :: rapp_instance by (rule exI [of _ "usage_registration i"]) simp
  then show ?thesis
    by (auto simp: release_instance_resources_def Let_def log_call_def split: prod.splits option.splits if_splits)
qed

definition fired :: "rapp_instance \<Rightarrow> InstanceEvent \<Rightarrow> rapp_instance \<Rightarrow> bool" where
  "fired r e r' \<longleftrightarrow> instance_id r' = instance_id r \<and> pending_upgrade r' = pending_upgrade r \<and> package_id r' = package_id r \<and>
     configuration r' = configuration r \<and> rollback_of_version r' = rollback_of_version r \<and>
     oauth_client_id r' = (if instance_state r' = UNDEPLOYED then None else oauth_client_id r) \<and>
     (instance_state r, e, instance_state r') \<in>
       {(DEPLOYING, BOOTSTRAP_OK, RUNNING), (DEPLOYING, BOOTSTRAP_FAILED, FAULTED), (RUNNING, START_UPGRADE, UPGRADING),
        (UPGRADING, UPGRADE_COMMIT, UNDEPLOYED), (UPGRADING, UPGRADE_ROLLBACK, RUNNING), (RUNNING, TERMINATE, UNDEPLOYED),
        (FAULTED, TERMINATE, UNDEPLOYED), (DEPLOYING, TERMINATE, UNDEPLOYED), (RUNNING, CRASH, FAULTED), (FAULTED, RECOVER, DEPLOYING)}"

lemma fire_io_gives [io_rules]: "(\<And>r'. fired r e r' \<Longrightarrow> P r') \<Longrightarrow> gives (fire_io env e r) P"
proof -
  assume P: "\<And>r'. fired r e r' \<Longrightarrow> P r'"
  have ctx: "fst (terminate_side_effects env (r, log)) = r\<lparr>oauth_client_id := None\<rparr>" "fst (reconsider_registrations env (r, log)) = r" for log
    by (simp_all add: terminate_side_effects_row)
  have "fired r e r'" if "fire_io env e r log = (Inr r', log')" for r' log log'
  proof -
    from that obtain st i where f: "fire (RAPP_INSTANCE_FSM env) (instance_state r) e (r, log) = Inr (st, (i, log'))" "r' = i\<lparr>instance_state := st\<rparr>"
      by (auto simp: fire_io_def split: sum.splits prod.splits)
    have "(instance_state r, e, st) \<in> {(DEPLOYING, BOOTSTRAP_OK, RUNNING), (DEPLOYING, BOOTSTRAP_FAILED, FAULTED), (RUNNING, START_UPGRADE, UPGRADING),
        (UPGRADING, UPGRADE_COMMIT, UNDEPLOYED), (UPGRADING, UPGRADE_ROLLBACK, RUNNING), (RUNNING, TERMINATE, UNDEPLOYED),
        (FAULTED, TERMINATE, UNDEPLOYED), (DEPLOYING, TERMINATE, UNDEPLOYED), (RUNNING, CRASH, FAULTED), (FAULTED, RECOVER, DEPLOYING)} \<and>
        i = (if st = UNDEPLOYED then r\<lparr>oauth_client_id := None\<rparr> else r)"
      using f(1) ctx [of log]
      by (cases "instance_state r"; cases e) (auto simp: fire_first_passing fsm_tables run_action_def)
    then show ?thesis using f(2) by (auto simp: fired_def)
  qed
  then show ?thesis using P by (auto simp: gives_def)
qed

lemma release_gives [io_rules]:
  "(\<And>t u. P (t, r\<lparr>usage_registration := u\<rparr>)) \<Longrightarrow> gives (release_io env now why r) P"
proof -
  assume P: "\<And>t u. P (t, r\<lparr>usage_registration := u\<rparr>)"
  have "P x" if "release_io env now why r log = (Inr x, log')" for x log log'
    using that release_row [of env now why "(r, log)"] P by (auto simp: release_io_def split: prod.splits)
  then show ?thesis by (auto simp: gives_def)
qed

lemma registrations_give [io_rules]:
  "(\<And>b. P b) \<Longrightarrow> gives (register_providers env cid ps) P" "(\<And>ids. Q ids) \<Longrightarrow> gives (register_services env cid ss ids) Q"
  "(\<And>u. R u) \<Longrightarrow> gives (apply_approval_policy env r) R"
  by (rule gives_mono [OF gives_any]; blast)+

lemma on_bootstrap_gives [io_rules]:
  "(\<And>r'. same_core r r' \<Longrightarrow> oauth_client_id r' = oauth_client_id r \<Longrightarrow> P r') \<Longrightarrow> gives (on_bootstrap env r) P"
proof -
  assume P: "\<And>r'. same_core r r' \<Longrightarrow> oauth_client_id r' = oauth_client_id r \<Longrightarrow> P r'"
  have limits: "gives (apply_rapp_limits env status r) Q" if "\<And>b. Q (r\<lparr>rapp_limits_set := b\<rparr>)" for status r Q
    using that [of True] that [of "rapp_limits_set r"]
    by (auto simp: apply_rapp_limits_def Let_def intro!: io_rules split: option.split)
  have sme: "gives (register_sme_declarations env status r) Q" if "\<And>ids. Q (r\<lparr>sme_service_ids := ids\<rparr>)" for status r Q
    using that [of "sme_service_ids r"] that
    by (auto simp: register_sme_declarations_def intro!: io_rules split: option.split)
  show ?thesis unfolding on_bootstrap_def onboarding_status_def
    by (auto intro!: io_rules limits sme P simp: same_core_def split: prod.split)
qed

subsection \<open>Upgrades keep the invariant\<close>

lemma start_upgrade_inv [io_rules]:
  assumes "rapp_inv db" "row_ok old" "old \<in> set (instances db)"
    and P: "\<And>new db'. rapp_inv db' \<Longrightarrow> P (new, db')"
  shows "gives (start_upgrade env now db old package restore) P"
proof -
  have "rapp_inv (insert_instance (new\<lparr>upgrade_timeout := t, rollback_of_version := v\<rparr>) (put_instance (old'\<lparr>pending_upgrade := Some (fresh_instance_id db)\<rparr>) db))"
    if "fired old START_UPGRADE old'" "instance_id new = fresh_instance_id db" "instance_state new = DEPLOYING" "row_ok new" for old' new t v
    by (rule upgrade_pair_inv [OF assms(1,3)]) (use that assms(2) in \<open>auto simp: fired_def row_ok_def\<close>)
  then show ?thesis unfolding start_upgrade_def
    by (auto simp: Let_def intro!: io_rules P split: prod.split)
qed

lemma roll_back_inv [io_rules]:
  assumes "rapp_inv db" "row_ok old" and P: "\<And>db'. rapp_inv db' \<Longrightarrow> P db'"
  shows "gives (roll_back env now db old new why) P"
proof -
  have ok: "row_fits db' (old'\<lparr>pending_upgrade := None, last_teardown := t\<rparr>)" "row_fits db' (old'\<lparr>pending_upgrade := None\<rparr>)"
    if "fired old UPGRADE_ROLLBACK old'" for old' t db'
    using that assms(2) by (auto simp: fired_def row_ok_def row_fits_def)
  have effects: "gives (\<lambda>log. case terminate_side_effects env (n, log) of (n', log') \<Rightarrow> (Inr n', log')) (\<lambda>_. True)" for n by (rule gives_any)
  show ?thesis unfolding roll_back_def
    by (auto intro!: io_rules gives_mono [OF effects] P put_instance_inv delete_row_inv assms(1) ok split: option.split prod.split)
qed

text \<open>The commit: the version is recorded, the replacement stays and the old row goes.\<close>

lemma record_version_versions:
  "versions (snd (record_version old new db)) =
     (let v = fst (record_version old new db); vs = versions db @ [v]
      in case rollback_of_version new of None \<Rightarrow> vs | Some u \<Rightarrow> update_where (\<lambda>w. version_id w = u) (\<lambda>w. w\<lparr>rolled_back_by := Some (version_id v)\<rparr>) vs)"
  "version_id (fst (record_version old new db)) = fresh_id (map version_id (versions db))"
  "version_instance (fst (record_version old new db)) = instance_id new" "previous_instance (fst (record_version old new db)) = instance_id old"
  by (simp_all add: record_version_def Let_def)

lemma record_version_instances [simp]: "instances (snd (record_version old new db)) = instances db"
  by (simp add: record_version_def Let_def)

lemma record_version_keys:
  "map version_id (versions (snd (record_version old new db))) = map version_id (versions db) @ [fresh_id (map version_id (versions db))]"
  "map version_instance (versions (snd (record_version old new db))) = map version_instance (versions db) @ [instance_id new]"
  "map previous_instance (versions (snd (record_version old new db))) = map previous_instance (versions db) @ [instance_id old]"
  by (simp_all add: record_version_versions Let_def map_update_where split: option.split)

lemma commit_inv_rows:
  assumes inv: "rapp_inv db" and old: "old \<in> set (instances db)" "pending_upgrade old = Some (instance_id new)"
    and new: "new0 \<in> set (instances db)" "instance_id new0 = instance_id new" "pending_upgrade new0 = pending_upgrade new" "row_ok new"
    and ids: "instance_id old1 = instance_id old"
  shows "rapp_inv (delete_row (instance_id old) (put_instance (new\<lparr>last_teardown := t\<rparr>) (snd (record_version old1 new db))))"
    (is "rapp_inv ?db'")
proof -
  let ?row = "new\<lparr>last_teardown := t\<rparr>"
  let ?base = "delete_row (instance_id old) (put_instance ?row db)"
  have same: "instances ?db' = instances ?base" by (simp add: delete_row_def put_instance_def)
  have "row_fits db ?row" using new in_pointers [OF new(1)] by (simp add: row_fits_def row_ok_def)
  then have base: "rapp_inv ?base" by (intro delete_row_inv put_instance_inv inv)
  have vs: "versions ?db' = versions (snd (record_version old1 new db))" by (simp add: delete_row_def)
  have "set (map previous_instance (versions ?db')) = insert (instance_id old) (set (map previous_instance (versions db)))"
    "set (map version_instance (versions ?db')) = insert (instance_id new) (set (map version_instance (versions db)))"
    unfolding vs record_version_keys ids by simp_all
  then have prev: "previous_instance ` set (versions ?db') = insert (instance_id old) (previous_instance ` set (versions db))"
    and made: "version_instance ` set (versions ?db') = insert (instance_id new) (version_instance ` set (versions db))"
    by simp_all
  have hist: "history_ok (versions db) (pointers (instances db))" using inv by (simp add: rapp_inv_def)
  have histb: "history_ok (versions db) (pointers (instances ?base))" using base by (simp add: rapp_inv_def delete_row_def)
  have gone: "instance_id old \<notin> fst ` pointers (instances ?base)" by (auto simp: pointers_ids delete_row_def set_delete_where)
  have other: "q \<noteq> instance_id new" if "(i, Some q) \<in> pointers (instances ?base)" for i q
  proof
    assume q: "q = instance_id new"
    have "(i, Some q) \<in> pointers (instances (put_instance ?row db))" using that by (auto simp: pointers_def delete_row_def set_delete_where)
    from pointers_put [OF this] have "(i, Some q) \<in> pointers (instances db)" using new(2,3) in_pointers [OF new(1)] by auto
    moreover have "(instance_id old, Some q) \<in> pointers (instances db)" using in_pointers [OF old(1)] old(2) q by simp
    ultimately have "i = instance_id old" using history_okD(5) [OF hist] by metis
    then show False using gone that by force
  qed
  have d1: "distinct (map version_id (versions ?db'))" unfolding vs record_version_keys
    using hist fresh_id_notin [of "map version_id (versions db)"] by (simp add: history_ok_def)
  have "instance_id new \<notin> version_instance ` set (versions db)"
    using history_okD(4) [OF hist] in_pointers [OF old(1)] old(2) by metis
  then have d2: "distinct (map version_instance (versions ?db'))" unfolding vs record_version_keys
    using hist by (simp add: history_ok_def)
  have "history_ok (versions ?db') (pointers (instances ?base))"
  proof (rule history_okI [OF d1 d2], goal_cases)
    case (1 i) then show ?case using history_okD(3) [OF histb] gone unfolding prev by (metis insert_iff)
  next
    case (2 i q) then show ?case using history_okD(4) [OF histb] other unfolding made by (metis insert_iff)
  next
    case (3 i j q) then show ?case using history_okD(5) [OF histb] by metis
  qed
  then show ?thesis using base unfolding rapp_inv_def same by simp
qed

lemma resolve_upgrade_inv [io_rules]:
  assumes inv: "rapp_inv db" and old: "row_ok old" "old \<in> set (instances db)" "pending_upgrade old = Some (instance_id new)"
    and new: "row_ok new" "new \<in> set (instances db)" and P: "\<And>db'. rapp_inv db' \<Longrightarrow> P db'"
  shows "gives (resolve_upgrade env now db old new ok) P"
proof -
  have up: "rapp_inv (delete_row (instance_id old) (put_instance (new1\<lparr>last_teardown := t\<rparr>) (snd (record_version old1 new1 db))))"
    if "same_core new' new1" "oauth_client_id new1 = oauth_client_id new'" "fired new BOOTSTRAP_OK new'" "instance_id old1 = instance_id old"
    for new' new1 t old1
    by (rule commit_inv_rows [OF inv old(2) _ new(2)]) (use that old(3) new(1) in \<open>auto simp: same_core_def fired_def row_ok_def\<close>)
  have running: "rapp_inv (delete_row (instance_id old) (put_instance (new\<lparr>last_teardown := t\<rparr>) (snd (record_version old1 new db))))"
    if "instance_id old1 = instance_id old" for t old1
    by (rule commit_inv_rows [OF inv old(2) _ new(2)]) (use that old(3) new(1) in auto)
  show ?thesis unfolding resolve_upgrade_def
    by (auto simp: Let_def fired_def [of old] intro!: io_rules P running inv old new(1) intro: up split: option.split prod.split)
qed

lemma expire_inv [io_rules]:
  assumes "rapp_inv db" "row_ok old" and P: "\<And>db'. rapp_inv db' \<Longrightarrow> P (Some db')" "P None"
  shows "gives (expire_overdue_upgrade env now db old) P"
  unfolding expire_overdue_upgrade_def by (auto simp: Let_def intro!: io_rules assms split: option.split)

subsection \<open>Routes keep it\<close>

definition after :: "'a served \<Rightarrow> rapp_store" where "after r = fst (snd r)"

lemma served_inv: "rapp_inv db \<Longrightarrow> gives work (\<lambda>(_, db'). rapp_inv db') \<Longrightarrow> rapp_inv (after (commit db work log))"
  by (auto simp: commit_def after_def gives_def split: prod.splits sum.splits)

lemma upgrade_owner_ok: "rapp_inv db \<Longrightarrow> upgrade_owner db inst = Some owner \<Longrightarrow> row_ok inst \<Longrightarrow> row_ok owner"
  by (auto simp: upgrade_owner_def rapp_inv_def split: if_splits dest: row_where_SomeD)

lemma sweep_inv: "rapp_inv db \<Longrightarrow> row_ok old \<Longrightarrow> rapp_inv (after (sweep_overdue_upgrade env now db old log))"
  unfolding sweep_overdue_upgrade_def by (rule served_inv) (auto intro!: io_rules split: option.split)

lemma instance_or_404_ok: "rapp_inv db \<Longrightarrow> instance_or_404 db i = Inr r \<Longrightarrow> row_ok r \<and> r \<in> set (instances db) \<and> instance_id r = i"
  using get_instance_inv by (auto simp: instance_or_404_def split: option.splits)

lemma load_inv:
  assumes "rapp_inv db" "load_instance env now i db log = (r, db', log')"
  shows "rapp_inv db' \<and> (\<forall>inst. r = Inr inst \<longrightarrow> row_ok inst \<and> inst \<in> set (instances db') \<and> instance_id inst = i)"
proof (cases "instance_or_404 db i")
  case (Inr inst)
  note ok = instance_or_404_ok [OF assms(1) Inr]
  show ?thesis
  proof (cases "upgrade_owner db inst")
    case None
    then show ?thesis using assms Inr ok by (auto simp: load_instance_def)
  next
    case (Some owner)
    have "rapp_inv (after (sweep_overdue_upgrade env now db owner log))"
      using sweep_inv [OF assms(1)] upgrade_owner_ok [OF assms(1) Some] ok by blast
    then have inv: "rapp_inv db'" using assms(2) Inr Some by (auto simp: load_instance_def after_def split: prod.splits sum.splits if_splits)
    then show ?thesis using instance_or_404_ok [OF inv] assms(2) Inr Some
      by (auto simp: load_instance_def split: prod.splits sum.splits if_splits)
  qed
qed (use assms in \<open>auto simp: load_instance_def\<close>)

lemma with_instance_inv:
  assumes "rapp_inv db"
    and "\<And>inst db. rapp_inv db \<Longrightarrow> row_ok inst \<Longrightarrow> inst \<in> set (instances db) \<Longrightarrow> instance_id inst = i \<Longrightarrow> gives (work inst db) (\<lambda>(_, db'). rapp_inv db')"
  shows "rapp_inv (after (with_instance env now i work db log))"
proof -
  obtain r db' log' where load: "load_instance env now i db log = (r, db', log')" by (metis prod_cases3)
  note inv = load_inv [OF assms(1) load]
  show ?thesis
  proof (cases r)
    case (Inl err)
    then show ?thesis using inv load by (simp add: with_instance_def after_def)
  next
    case (Inr inst)
    then show ?thesis using inv load served_inv [OF _ assms(2), of db' db' inst log'] by (simp add: with_instance_def)
  qed
qed

lemma keep_inv [io_rules]: "rapp_inv db \<Longrightarrow> row_fits db r \<Longrightarrow> gives (keep r db) (\<lambda>(_, db'). rapp_inv db')"
  by (auto simp: keep_def intro!: io_rules put_instance_inv)

lemma fired_fits:
  "fired r e r' \<Longrightarrow> row_ok r \<Longrightarrow> r \<in> set (instances db) \<Longrightarrow> e \<notin> {START_UPGRADE, UPGRADE_COMMIT, UPGRADE_ROLLBACK} \<Longrightarrow> row_fits db r'"
  by (auto simp: fired_def row_ok_def row_fits_def)

text \<open>A change of fields the invariant does not mention.\<close>

lemma same_fits:
  "row_fits db r \<Longrightarrow> same_core r r' \<Longrightarrow> (oauth_client_id r' = None \<longleftrightarrow> oauth_client_id r = None) \<Longrightarrow> row_fits db r'"
  by (auto simp: same_core_def row_ok_def row_fits_def)

lemma own_fits: "row_ok r \<Longrightarrow> r \<in> set (instances db) \<Longrightarrow> row_fits db r"
  by (auto simp: row_fits_def dest: in_pointers)

end
