(* ===== verification/RappProperties.thy ===== *)
theory RappProperties
  imports RappSafety
begin

section \<open>The claims about rApp Management\<close>

text \<open>The tables after any requests, one after the other, at any times and with any answers of the peers.\<close>

definition no_rapps :: rapp_store where
  "no_rapps = \<lparr>instances = [], versions = [], fault_reports = [], performance_reports = []\<rparr>"

inductive rapp_reach :: "rapp_store \<Rightarrow> bool" where
  start: "rapp_reach no_rapps"
| create: "rapp_reach db \<Longrightarrow> rapp_reach (after (create_instance urls env now req db log))"
| credentials: "rapp_reach db \<Longrightarrow> rapp_reach (after (issue_instance_credentials env now i db log))"
| bootstrap: "rapp_reach db \<Longrightarrow> rapp_reach (after (bootstrap_complete env now who i db log))"
| recover: "rapp_reach db \<Longrightarrow> rapp_reach (after (recover_instance env now i db log))"
| upgrade: "rapp_reach db \<Longrightarrow> rapp_reach (after (upgrade_instance env now i package db log))"
| resolve: "rapp_reach db \<Longrightarrow> rapp_reach (after (resolve_upgrade_outcome env now i ok db log))"
| rollback: "rapp_reach db \<Longrightarrow> rapp_reach (after (rollback_instance env now i db log))"
| terminate: "rapp_reach db \<Longrightarrow> rapp_reach (after (terminate_instance env now i db log))"
| delete: "rapp_reach db \<Longrightarrow> rapp_reach (after (delete_instance env now i db log))"
| config: "rapp_reach db \<Longrightarrow> rapp_reach (after (set_config who i cfg db log))"
| performance: "rapp_reach db \<Longrightarrow> rapp_reach (after (report_performance who i m db log))"
| fault: "rapp_reach db \<Longrightarrow> rapp_reach (after (report_fault env now who i sev text db log))"
| operator_api: "rapp_reach db \<Longrightarrow> rapp_reach (after (register_operator_api urls env now who i base db log))"
| no_operator_api: "rapp_reach db \<Longrightarrow> rapp_reach (after (clear_operator_api env now who i db log))"
| kill: "rapp_reach db \<Longrightarrow> rapp_reach (after (kill_instance env now i by' why db log))"
| unkill: "rapp_reach db \<Longrightarrow> rapp_reach (after (lift_instance_kill env now i db log))"

lemma create_instance_inv: "rapp_inv db \<Longrightarrow> rapp_inv (after (create_instance urls env now req db log))"
proof -
  assume inv: "rapp_inv db"
  have "rapp_inv (insert_instance (r\<lparr>operator_api_base := b\<rparr>) db)"
    if "row_ok r" "instance_id r = fresh_instance_id db" "instance_state r = DEPLOYING" for r b
    using that inv fresh_instance(1,3) [of db] by (intro insert_instance_inv) (auto simp: row_ok_def)
  then have "gives (then_do (provision_instance env now (fresh_instance_id db) package config mode region policy claim) (\<lambda>inst.
        let inst' = inst\<lparr>operator_api_base := base\<rparr> in give (inst', insert_instance inst' db))) (\<lambda>(_, db'). rapp_inv db')"
    for package config mode region policy claim base
    by (auto simp: Let_def intro!: io_rules)
  then have "rapp_inv (after (commit db (then_do (provision_instance env now (fresh_instance_id db) package config mode region policy claim) (\<lambda>inst.
        let inst' = inst\<lparr>operator_api_base := base\<rparr> in give (inst', insert_instance inst' db))) log))"
    for package config mode region policy claim base
    using served_inv [OF inv] by blast
  moreover have "after (Inl err, db, log) = db" for err :: http_error by (simp add: after_def)
  ultimately show ?thesis using inv by (auto simp: create_instance_def after_def split: sum.split)
qed

lemma credentials_inv: "rapp_inv db \<Longrightarrow> rapp_inv (after (issue_instance_credentials env now i db log))"
proof -
  assume inv: "rapp_inv db"
  let ?work = "\<lambda>inst db. if instance_state inst \<noteq> DEPLOYING then fail_with illegal_transition_error
          else then_do (register_instance_invoker env inst) (\<lambda>(inst', secret).
               then_do (deliver_credentials env inst' secret) (\<lambda>delivered.
                 give ((oauth_client_id inst, oauth_client_id inst', if delivered then None else Some secret), put_instance inst' db)))"
  have "rapp_inv (after (with_instance env now i ?work db log))"
    by (rule with_instance_inv [OF inv]) (auto simp: same_core_def row_ok_def row_fits_def intro!: io_rules put_instance_inv)
  then show ?thesis by (auto simp: issue_instance_credentials_def after_def split: prod.splits sum.splits)
qed

lemma resolve_outcome_inv: "rapp_inv db \<Longrightarrow> rapp_inv (after (resolve_upgrade_outcome env now i ok db log))"
proof (cases "instance_or_404 db i")
  case (Inr old)
  assume inv: "rapp_inv db"
  note old = instance_or_404_ok [OF inv Inr]
  show ?thesis
  proof (cases "pending_upgrade old")
    case (Some p)
    obtain r db' log' where sweep: "sweep_overdue_upgrade env now db old log = (r, db', log')" by (metis prod_cases3)
    have inv': "rapp_inv db'" using sweep_inv [OF inv, of old env now log] old sweep by (simp add: after_def)
    have same: "r = Inr False \<Longrightarrow> db' = db"
      using sweep by (auto simp: sweep_overdue_upgrade_def commit_def then_do_def give_def split: prod.splits sum.splits option.splits)
    have "rapp_inv (after (commit db' (then_do (resolve_upgrade env now db' old new ok) (\<lambda>db''.
        case instance_or_404 db'' (if ok then p else i) of Inl err \<Rightarrow> fail_with err | Inr survivor \<Rightarrow> give (survivor, db''))) log'))"
      if "row_ok new" "new \<in> set (instances db')" "instance_id new = p" "db' = db" for new
      by (rule served_inv [OF inv']) (use inv' old that Some in \<open>auto intro!: io_rules split: sum.split\<close>)
    then have work: "rapp_inv (after (commit db' (then_do (resolve_upgrade env now db' old new ok) (\<lambda>db''.
        case instance_or_404 db'' (if ok then p else i) of Inl err \<Rightarrow> fail_with err | Inr survivor \<Rightarrow> give (survivor, db''))) log'))"
      if "r = Inr False" "instance_or_404 db' p = Inr new" for new
      using same that instance_or_404_ok [OF inv' that(2)] by blast
    show ?thesis
    proof (cases r)
      case (Inl err)
      then show ?thesis using inv' Inr Some sweep by (simp add: resolve_upgrade_outcome_def after_def)
    next
      case (Inr swept)
      then show ?thesis using work inv' \<open>instance_or_404 db i = Inr old\<close> Some sweep
        by (cases swept) (auto simp: resolve_upgrade_outcome_def after_def split: sum.split)
    qed
  qed (use inv Inr in \<open>simp add: resolve_upgrade_outcome_def after_def\<close>)
qed (simp add: resolve_upgrade_outcome_def after_def)

lemma after_error [simp]: "after (Inl err, db, log) = db"
  by (simp add: after_def)

lemma rollback_inv: "rapp_inv db \<Longrightarrow> rapp_inv (after (rollback_instance env now i db log))"
proof -
  assume inv: "rapp_inv db"
  have "rapp_inv (after (with_instance env now c (\<lambda>current db.
      then_do (start_rollback env now db current) (\<lambda>started.
        case started of None \<Rightarrow> fail_with ROLLBACK_HISTORY_UNAVAILABLE
        | Some ((new, db'), target) \<Rightarrow> give ((new, target), db'))) db log))" for c
    by (rule with_instance_inv [OF inv]) (auto simp: start_rollback_def intro!: io_rules split: option.split prod.split)
  then show ?thesis using inv by (simp add: rollback_instance_def split: option.split)
qed

lemma config_inv: "rapp_inv db \<Longrightarrow> rapp_inv (after (set_config who i cfg db log))"
proof (cases "instance_or_404 db i")
  case (Inr r)
  assume inv: "rapp_inv db"
  have "row_fits db (r\<lparr>configuration := Some cfg\<rparr>)"
    using instance_or_404_ok [OF inv Inr] own_fits [of r db] by (auto simp: row_ok_def row_fits_def)
  then show ?thesis using Inr inv by (auto simp: set_config_def intro!: served_inv io_rules put_instance_inv)
qed (simp add: set_config_def)

lemma performance_inv: "rapp_inv db \<Longrightarrow> rapp_inv (after (report_performance who i m db log))"
  using same_instances_inv [of db "db\<lparr>performance_reports := performance_reports db @ [(i, m)]\<rparr>"]
  by (auto simp: report_performance_def intro!: served_inv io_rules split: sum.split)

lemma fault_inv: "rapp_inv db \<Longrightarrow> rapp_inv (after (report_fault env now who i sev text db log))"
proof -
  assume inv: "rapp_inv db"
  have "rapp_inv (put_instance r db\<lparr>fault_reports := f\<rparr>)" if "rapp_inv db" "row_fits db r" for r db f
    by (rule same_instances_inv [OF put_instance_inv [OF that]]) simp_all
  then show ?thesis unfolding report_fault_def
    by (intro with_instance_inv [OF inv]) (auto intro!: io_rules intro: fired_fits own_fits)
qed

lemma operator_api_inv:
  "rapp_inv db \<Longrightarrow> rapp_inv (after (register_operator_api urls env now who i base db log))"
  "rapp_inv db \<Longrightarrow> rapp_inv (after (clear_operator_api env now who i db log))"
proof -
  have ok: "row_fits db (r\<lparr>operator_api_base := b\<rparr>)" if "row_ok r" "r \<in> set (instances db)" for r b db
    by (rule same_fits [OF own_fits [OF that]]) (simp_all add: same_core_def)
  show "rapp_inv db \<Longrightarrow> rapp_inv (after (register_operator_api urls env now who i base db log))"
    unfolding register_operator_api_def by (rule with_instance_inv) (auto intro!: io_rules ok split: sum.split)
  show "rapp_inv db \<Longrightarrow> rapp_inv (after (clear_operator_api env now who i db log))"
    unfolding clear_operator_api_def by (rule with_instance_inv) (auto intro!: io_rules ok)
qed

lemma kill_inv:
  "rapp_inv db \<Longrightarrow> rapp_inv (after (kill_instance env now i by' why db log))"
  "rapp_inv db \<Longrightarrow> rapp_inv (after (lift_instance_kill env now i db log))"
  unfolding kill_instance_def lift_instance_kill_def
  by (rule with_instance_inv; auto intro!: gives_then intro: gives_mono [OF gives_any] io_rules)+

lemma terminate_inv: "rapp_inv db \<Longrightarrow> rapp_inv (after (terminate_instance env now i db log))"
proof -
  assume inv: "rapp_inv db"
  have ok: "row_fits db (r'\<lparr>usage_registration := u, last_teardown := t\<rparr>)"
    if "row_ok r" "r \<in> set (instances db)" "fired r TERMINATE r'" for r r' u t db
    by (rule same_fits [OF fired_fits [OF that(3,1,2)]]) (simp_all add: same_core_def)
  show ?thesis unfolding terminate_instance_def
    by (rule with_instance_inv [OF inv]) (auto intro!: io_rules intro: ok split: option.split)
qed

lemma bootstrap_inv: "rapp_inv db \<Longrightarrow> rapp_inv (after (bootstrap_complete env now who i db log))"
proof -
  assume inv: "rapp_inv db"
  have ok: "row_fits db r''"
    if "row_ok r" "r \<in> set (instances db)" "same_core r r'" "oauth_client_id r' = oauth_client_id r" "fired r' BOOTSTRAP_OK r''" for r r' r'' db
    using own_fits [OF that(1,2)] that(3-5) by (auto simp: fired_def same_core_def row_ok_def row_fits_def)
  show ?thesis unfolding bootstrap_complete_def
    by (rule with_instance_inv [OF inv]) (auto intro!: io_rules intro: ok)
qed

lemma lifecycle_inv:
  "rapp_inv db \<Longrightarrow> rapp_inv (after (recover_instance env now i db log))"
  "rapp_inv db \<Longrightarrow> rapp_inv (after (upgrade_instance env now i package db log))"
  "rapp_inv db \<Longrightarrow> rapp_inv (after (delete_instance env now i db log))"
  unfolding recover_instance_def upgrade_instance_def delete_instance_def
  by (rule with_instance_inv; auto intro!: io_rules delete_row_inv intro: fired_fits)+

lemmas route_invariants = create_instance_inv credentials_inv resolve_outcome_inv rollback_inv config_inv performance_inv fault_inv
  operator_api_inv kill_inv terminate_inv bootstrap_inv lifecycle_inv

lemma reach_inv: "rapp_reach db \<Longrightarrow> rapp_inv db"
  by (induction rule: rapp_reach.induct) (simp add: no_rapps_def rapp_inv_def history_ok_def pointers_def, (erule route_invariants)+)

end
