(* ===== verification/RappClaims.thy ===== *)
theory RappClaims
  imports RappProperties
begin

section \<open>What upgrades, rollbacks and terminations of rApps leave behind\<close>

subsection \<open>Peers that accept everything\<close>

definition willing_peers :: peers where
  "willing_peers log c = (case c of
       Get_onboarding_status _ \<Rightarrow> Some (200, JObject [(''state'', JStr ''PRIMED''), (''nfDeploymentDescriptorId'', JStr ''descr'')])
     | Register_invoker i _ \<Rightarrow> Some (201, JObject [(''apiInvokerId'', JStr (''inv-'' @ str i)), (''onboardingSecret'', JStr ''secret'')])
     | Create_deployment _ i _ \<Rightarrow> Some (202, JObject [(''nfDeploymentId'', JStr (''nf-'' @ str i))])
     | Start_usage _ i \<Rightarrow> Some (200, JObject [(''registrationId'', JStr (''use-'' @ str i))])
     | Put_approval_policy _ p \<Rightarrow> Some (200, JObject [(''requiredApprovals'', JInt (case required_approvals p of None \<Rightarrow> 1 | Some n \<Rightarrow> int n))])
     | Get_kill_list _ _ \<Rightarrow> Some (200, JObject [(''items'', JList [JObject [(''invokerId'', JStr ''inv-1'')]])])
     | Put_kill _ _ _ \<Rightarrow> Some (200, JNull)
     | _ \<Rightarrow> Some (204, JNull))"

definition willing :: environment where
  "willing = \<lparr>peers = willing_peers, delivery = Off\<rparr>"

definition no_urls :: url_reader where
  "no_urls = \<lparr>split_text = (\<lambda>_. None), ipv6_text = (\<lambda>_. None)\<rparr>"

definition demo_create :: create_request where
  "demo_create = \<lparr>req_package = 7, req_config = JObject [], req_mode = ''ASSIST'', req_region = None,
     req_policy = Some (600, ''REJECT'', 2), req_claim = None, req_operator_api = None\<rparr>"

text \<open>One rApp, created and running.\<close>

definition one_running :: rapp_store where
  "one_running =
     (let db = after (create_instance no_urls willing 0 demo_create no_rapps [])
      in after (bootstrap_complete willing 5 (\<lambda>_. None) 1 db []))"

lemma one_running_reach: "rapp_reach one_running"
  unfolding one_running_def Let_def by (intro rapp_reach.intros)

definition running_row :: rapp_instance where
  "running_row = \<lparr>instance_id = 1, package_id = 7, instance_state = RUNNING, configuration = Some (JObject []),
     workload_ref = Some ''nf-1'', oauth_client_id = Some ''inv-1'', instance_created = 0, upgrade_timeout = 300,
     pending_upgrade = None, usage_registration = Some ''use-1'', sme_service_ids = None, rapp_limits_set = False,
     autonomy_mode = ''ASSIST'', region_scope = None,
     approval_policy = Some \<lparr>timeout_seconds = 600, on_timeout = ''REJECT'', required_approvals = Some 2\<rparr>,
     authz_scope = None, last_teardown = None, rollback_of_version = None, operator_api_base = None\<rparr>"

lemma one_running_rows: "one_running = \<lparr>instances = [running_row], versions = [], fault_reports = [], performance_reports = []\<rparr>"
  by code_simp

subsection \<open>Credentials and pending upgrades\<close>

text \<open>C36: In every store the requests can produce, a rApp row holds an OAuth client exactly until it is UNDEPLOYED, it names
  a pending replacement exactly while it is UPGRADING, no version of the history retired a row that is still there, and no two
  rows wait for the same replacement.\<close>

theorem credential_until_undeployed:
  assumes "rapp_reach db" "r \<in> set (instances db)"
  shows "(oauth_client_id r = None \<longleftrightarrow> instance_state r = UNDEPLOYED) \<and> (pending_upgrade r = None \<longleftrightarrow> instance_state r \<noteq> UPGRADING) \<and>
     instance_id r \<notin> previous_instance ` set (versions db) \<and>
     {r' \<in> set (instances db). pending_upgrade r' \<noteq> None \<and> pending_upgrade r' = pending_upgrade r} \<subseteq> {r}"
proof -
  have inv: "rapp_inv db" using assms(1) by (rule reach_inv)
  then have ok: "row_ok r" and dist: "distinct (map instance_id (instances db))" and hist: "history_ok (versions db) (pointers (instances db))"
    using assms(2) by (auto simp: rapp_inv_def)
  have inj: "r' = r" if r': "r' \<in> set (instances db)" "pending_upgrade r' = Some p" "pending_upgrade r = Some p" for r' p
  proof -
    have "(instance_id r', Some p) \<in> pointers (instances db)" using in_pointers [OF r'(1)] r'(2) by simp
    moreover have "(instance_id r, Some p) \<in> pointers (instances db)" using in_pointers [OF assms(2)] r'(3) by simp
    ultimately have "instance_id r' = instance_id r" by (rule history_okD(5) [OF hist])
    moreover have "inj_on instance_id (set (instances db))" using dist by (simp add: distinct_map)
    ultimately show ?thesis using r'(1) assms(2) by (auto dest: inj_onD)
  qed
  have "{r' \<in> set (instances db). pending_upgrade r' \<noteq> None \<and> pending_upgrade r' = pending_upgrade r} \<subseteq> {r}"
  proof
    fix r' assume r': "r' \<in> {r' \<in> set (instances db). pending_upgrade r' \<noteq> None \<and> pending_upgrade r' = pending_upgrade r}"
    then obtain p where p: "pending_upgrade r' = Some p" by (cases "pending_upgrade r'") auto
    have "r' = r" by (rule inj [of r' p]) (use r' p in auto)
    then show "r' \<in> {r}" by simp
  qed
  moreover have "instance_id r \<notin> previous_instance ` set (versions db)"
    by (rule history_okD(3) [OF hist]) (use assms(2) in \<open>simp add: pointers_ids\<close>)
  moreover have "(oauth_client_id r = None \<longleftrightarrow> instance_state r = UNDEPLOYED) \<and> (pending_upgrade r = None \<longleftrightarrow> instance_state r \<noteq> UPGRADING)"
    using ok by (auto simp: row_ok_def)
  ultimately show ?thesis by (simp only: simp_thms)
qed

theorem credential_until_undeployed_witness:
  "rapp_reach one_running \<and> oauth_client_id running_row = Some ''inv-1'' \<and> (oauth_client_id running_row = None \<longleftrightarrow> instance_state running_row = UNDEPLOYED)"
  using one_running_reach credential_until_undeployed [OF one_running_reach, of running_row]
  by (simp add: one_running_rows running_row_def)

subsection \<open>An upgrade that fails\<close>

lemma get_instance_iff:
  "distinct (map instance_id (instances db)) \<Longrightarrow> get_instance db i = Some r \<longleftrightarrow> r \<in> set (instances db) \<and> instance_id r = i"
proof
  assume dist: "distinct (map instance_id (instances db))" and r: "r \<in> set (instances db) \<and> instance_id r = i"
  show "get_instance db i = Some r"
  proof (cases "get_instance db i")
    case None
    then show ?thesis using r by (auto simp: get_instance_def table_simps)
  next
    case (Some r')
    then have "r' \<in> set (instances db) \<and> instance_id r' = i" by (auto simp: get_instance_def dest: row_where_SomeD)
    then show ?thesis using Some r dist by (auto simp: distinct_map dest: inj_onD)
  qed
qed (auto simp: get_instance_def dest: row_where_SomeD)

lemma put_put_instance: "instance_id r = instance_id r' \<Longrightarrow> put_instance r (put_instance r' db) = put_instance r db"
  by (simp add: put_instance_def update_where_def)

lemma put_in_instances: "r0 \<in> set (instances db) \<Longrightarrow> instance_id r0 = instance_id r \<Longrightarrow> r \<in> set (instances (put_instance r db))"
  by (force simp: put_instance_def update_where_def)

lemma fire_upgrade_events:
  "fire_io env START_UPGRADE r log =
     (if instance_state r = RUNNING then (Inr (r\<lparr>instance_state := UPGRADING\<rparr>), log) else (Inl illegal_transition_error, log))"
  "fire_io env UPGRADE_ROLLBACK r log =
     (if instance_state r = UPGRADING then (Inr (r\<lparr>instance_state := RUNNING\<rparr>), log) else (Inl illegal_transition_error, log))"
  by (cases "instance_state r"; simp add: fire_io_def fire_first_passing fsm_tables)+

text \<open>What a started upgrade is: the two rows.\<close>

definition started :: "rapp_store \<Rightarrow> rapp_instance \<Rightarrow> uid \<Rightarrow> instance_version option \<Rightarrow> rapp_instance \<Rightarrow> rapp_store \<Rightarrow> bool" where
  "started db old package restore new db' \<longleftrightarrow> instance_state old = RUNNING \<and> instance_id new = fresh_instance_id db \<and> instance_state new = DEPLOYING \<and>
     row_ok new \<and> rollback_of_version new = map_option version_id restore \<and> package_id new = package \<and>
     configuration new = (case restore of None \<Rightarrow> configuration old | Some v \<Rightarrow> previous_configuration v) \<and>
     db' = insert_instance new (put_instance (old\<lparr>instance_state := UPGRADING, pending_upgrade := Some (instance_id new)\<rparr>) db)"

lemma start_upgrade_gives: "gives (start_upgrade env now db old package restore) (\<lambda>(new, db'). started db old package restore new db')"
proof -
  have fire: "gives (fire_io env START_UPGRADE old) (\<lambda>old'. instance_state old = RUNNING \<and> old' = old\<lparr>instance_state := UPGRADING\<rparr>)"
    by (auto simp: gives_def fire_upgrade_events split: if_splits)
  show ?thesis unfolding start_upgrade_def
    by (cases restore) (auto simp: Let_def started_def row_ok_def intro!: io_rules gives_mono [OF fire] split: prod.split)
qed

lemma start_upgradeD: "start_upgrade env now db old package restore log = (Inr (new, db'), log') \<Longrightarrow> started db old package restore new db'"
  using givesD [OF start_upgrade_gives] by fastforce

lemma started_inv:
  assumes inv: "rapp_inv db" and old: "old \<in> set (instances db)" and st: "started db old package restore new db'"
  defines "old' \<equiv> old\<lparr>instance_state := UPGRADING, pending_upgrade := Some (instance_id new)\<rparr>"
  shows "rapp_inv db'" "get_instance db' (instance_id old) = Some old'" "get_instance db' (instance_id new) = Some new"
    "instance_id new \<noteq> instance_id old"
proof -
  have ok: "row_ok old" using inv old by (simp add: rapp_inv_def)
  have new: "row_ok new" "instance_id new = fresh_instance_id db" "pending_upgrade new = None"
    using st by (auto simp: started_def row_ok_def)
  have db': "db' = insert_instance new (put_instance old' db)" using st by (simp add: started_def old'_def)
  show inv': "rapp_inv db'" unfolding db'
    by (rule upgrade_pair_inv [OF inv old]) (use ok st new in \<open>auto simp: old'_def started_def row_ok_def\<close>)
  then have dist: "distinct (map instance_id (instances db'))" by (simp add: rapp_inv_def)
  have "old' \<in> set (instances db')" unfolding db' using put_in_instances [OF old, of old'] by (simp add: insert_instance_def old'_def)
  then show "get_instance db' (instance_id old) = Some old'" using get_instance_iff [OF dist] by (simp add: old'_def)
  have "new \<in> set (instances db')" unfolding db' by (simp add: insert_instance_def)
  then show "get_instance db' (instance_id new) = Some new" using get_instance_iff [OF dist] by simp
  show "instance_id new \<noteq> instance_id old" using fresh_instance(1) [of db] old new(2) by auto
qed

lemma upgrade_instance_started:
  assumes "get_instance db i = Some old" "upgrade_owner db old = None" "upgrade_instance env now i package db log = (Inr new, db', log')"
  shows "started db old package None new db'"
  using assms by (auto simp: upgrade_instance_def with_instance_def load_instance_def instance_or_404_def commit_def
      split: prod.splits sum.splits dest: start_upgradeD)

lemma fresh_reports: "delete_where (\<lambda>f. fst f = fresh_instance_id db) (fault_reports db) = fault_reports db"
  "delete_where (\<lambda>f. fst f = fresh_instance_id db) (performance_reports db) = performance_reports db"
proof -
  have new: "fresh_instance_id db \<notin> set (map fst (fault_reports db) @ map fst (performance_reports db))"
    unfolding fresh_instance_id_def using fresh_id_notin by (metis (no_types, lifting) UnCI set_append)
  have other: "delete_where (\<lambda>f. fst f = i) xs = xs" if "i \<notin> fst ` set xs" for i :: uid and xs :: "(uid \<times> 'b) list"
    unfolding delete_where_def using that by (intro filter_True) (metis image_eqI)
  show "delete_where (\<lambda>f. fst f = fresh_instance_id db) (fault_reports db) = fault_reports db"
    "delete_where (\<lambda>f. fst f = fresh_instance_id db) (performance_reports db) = performance_reports db"
    using new by (auto intro!: other)
qed

lemma started_then_deleted:
  assumes "started db old package restore new db'" "old \<in> set (instances db)"
  shows "delete_row (instance_id new) db' = put_instance (old\<lparr>instance_state := UPGRADING, pending_upgrade := Some (instance_id new)\<rparr>) db"
proof -
  have new: "instance_id new = fresh_instance_id db" using assms(1) by (simp add: started_def)
  let ?X = "put_instance (old\<lparr>instance_state := UPGRADING, pending_upgrade := Some (instance_id new)\<rparr>) db"
  have "filter (\<lambda>r. instance_id r \<noteq> fresh_instance_id db) (instances ?X) = instances ?X"
    by (intro filter_True) (use fresh_instance(1) [of db] put_instance_ids [of _ db] in \<open>metis image_eqI\<close>)
  moreover have "fault_reports ?X = fault_reports db" "performance_reports ?X = performance_reports db" by (simp_all add: put_instance_def)
  ultimately have "delete_row (fresh_instance_id db) (insert_instance new ?X) = ?X"
    using fresh_reports [of db] new by (simp add: delete_row_def insert_instance_def delete_where_def)
  then show ?thesis using assms(1) new by (simp add: started_def)
qed

lemma roll_back_returns:
  assumes "instance_state old = UPGRADING"
  obtains t log' where "roll_back env now db old (Some n) why log =
    (Inr (put_instance (old\<lparr>instance_state := RUNNING, pending_upgrade := None, last_teardown := Some t\<rparr>) (delete_row (instance_id n) db)), log')"
proof -
  obtain n1 log1 where effects: "terminate_side_effects env (n, log) = (n1, log1)" by fastforce
  obtain t n2 log2 where release: "release_instance_resources env now why (n1, log1) = (t, n2, log2)" by (metis prod_cases3)
  show thesis
    by (rule that [of t log2]) (use assms effects release in \<open>simp add: roll_back_def then_do_def fire_upgrade_events give_def release_io_def\<close>)
qed

lemma resolve_failed_returns:
  assumes "get_instance db i = Some old" "pending_upgrade old = Some (instance_id new)" "instance_state old = UPGRADING"
    "get_instance db (instance_id new) = Some new"
    "\<And>t. get_instance (put_instance (old\<lparr>instance_state := RUNNING, pending_upgrade := None, last_teardown := Some t\<rparr>)
       (delete_row (instance_id new) db)) i = Some (old\<lparr>instance_state := RUNNING, pending_upgrade := None, last_teardown := Some t\<rparr>)"
  obtains t log' where "resolve_upgrade_outcome env now i False db log =
     (Inr (old\<lparr>instance_state := RUNNING, pending_upgrade := None, last_teardown := Some t\<rparr>),
      put_instance (old\<lparr>instance_state := RUNNING, pending_upgrade := None, last_teardown := Some t\<rparr>) (delete_row (instance_id new) db), log')"
proof (cases "upgrade_deadline old new > now")
  case True
  obtain t log' where rolled: "roll_back env now db old (Some new) ''UPGRADE_ROLLBACK'' log =
      (Inr (put_instance (old\<lparr>instance_state := RUNNING, pending_upgrade := None, last_teardown := Some t\<rparr>) (delete_row (instance_id new) db)), log')"
    by (rule roll_back_returns [OF assms(3)])
  show thesis
    by (rule that [of t log']) (use assms rolled True in \<open>simp add: resolve_upgrade_outcome_def instance_or_404_def sweep_overdue_upgrade_def
        expire_overdue_upgrade_def commit_def then_do_def give_def resolve_upgrade_def\<close>)
next
  case False
  obtain t log' where rolled: "roll_back env now db old (Some new) ''UPGRADE_TIMEOUT'' log =
      (Inr (put_instance (old\<lparr>instance_state := RUNNING, pending_upgrade := None, last_teardown := Some t\<rparr>) (delete_row (instance_id new) db)), log')"
    by (rule roll_back_returns [OF assms(3)])
  show thesis
    by (rule that [of t log']) (use assms rolled False in \<open>simp add: resolve_upgrade_outcome_def instance_or_404_def sweep_overdue_upgrade_def
        expire_overdue_upgrade_def commit_def then_do_def give_def\<close>)
qed

text \<open>C37: An upgrade that is resolved as failed, or whose time ran out, at whatever time and however the peers answer, leaves
  the tables as they were before it: the old instance is RUNNING again under its old package and configuration, the
  replacement and its reports are gone, the history is untouched, and only the record of the teardown is new.\<close>

theorem failed_upgrade_restores:
  assumes "rapp_reach db" "get_instance db i = Some old" "upgrade_owner db old = None"
    "upgrade_instance env now i package db log = (Inr new, db1, log1)"
  shows "\<exists>t log2. resolve_upgrade_outcome env' now' i False db1 log' =
     (Inr (old\<lparr>last_teardown := Some t\<rparr>), put_instance (old\<lparr>last_teardown := Some t\<rparr>) db, log2)"
proof -
  have inv: "rapp_inv db" by (rule reach_inv) fact
  note old = get_instance_inv [OF inv assms(2)]
  have st: "started db old package None new db1" by (rule upgrade_instance_started) fact+
  note two = started_inv [OF inv _ st]
  let ?up = "old\<lparr>instance_state := UPGRADING, pending_upgrade := Some (instance_id new)\<rparr>"
  have row: "old\<lparr>instance_state := RUNNING, pending_upgrade := None, last_teardown := t\<rparr> = old\<lparr>last_teardown := t\<rparr>" for t
    using st old by (cases old) (auto simp: started_def row_ok_def)
  have dist: "distinct (map instance_id (instances (put_instance r db)))" for r using inv by (simp add: rapp_inv_def)
  have get: "get_instance (put_instance (old\<lparr>last_teardown := t\<rparr>) db) i = Some (old\<lparr>last_teardown := t\<rparr>)" for t
    unfolding get_instance_iff [OF dist] using old put_in_instances [of old db] by simp
  have gone: "delete_row (instance_id new) db1 = put_instance ?up db" by (rule started_then_deleted) (use st old in auto)
  obtain t log2 where "resolve_upgrade_outcome env' now' i False db1 log' =
     (Inr (?up\<lparr>instance_state := RUNNING, pending_upgrade := None, last_teardown := Some t\<rparr>),
      put_instance (?up\<lparr>instance_state := RUNNING, pending_upgrade := None, last_teardown := Some t\<rparr>) (delete_row (instance_id new) db1), log2)"
    by (rule resolve_failed_returns [of db1 i ?up new]) (use two old in \<open>simp_all add: gone row put_put_instance get\<close>)
  then show ?thesis by (auto simp: gone row put_put_instance)
qed

text \<open>The upgrade of the running rApp to package 8.\<close>

definition upgrading :: rapp_store where "upgrading = after (upgrade_instance willing 10 1 8 one_running [])"

definition replacement_row :: rapp_instance where
  "replacement_row = running_row\<lparr>instance_id := 2, package_id := 8, instance_state := DEPLOYING, workload_ref := Some ''nf-2'',
     oauth_client_id := Some ''inv-2'', instance_created := 10, usage_registration := Some ''use-2''\<rparr>"

lemma upgrading_starts:
  "get_instance one_running 1 = Some running_row" "upgrade_owner one_running running_row = None"
  "upgrade_instance willing 10 1 8 one_running [] = (Inr replacement_row, upgrading, snd (snd (upgrade_instance willing 10 1 8 one_running [])))"
  unfolding one_running_rows upgrading_def by code_simp+

theorem failed_upgrade_restores_witness:
  "\<exists>t log2. resolve_upgrade_outcome willing 400 1 False upgrading [] =
     (Inr (running_row\<lparr>last_teardown := Some t\<rparr>), put_instance (running_row\<lparr>last_teardown := Some t\<rparr>) one_running, log2)"
  by (rule failed_upgrade_restores [OF one_running_reach upgrading_starts])

end
