(* ===== verification/RappHistory.thy ===== *)
theory RappHistory
  imports RappClaims
begin

section \<open>Committed upgrades and the way back through the history\<close>

subsection \<open>What a commit writes\<close>

definition committed :: "rapp_store \<Rightarrow> rapp_instance \<Rightarrow> rapp_instance \<Rightarrow> rapp_store \<Rightarrow> bool" where
  "committed db old new db' \<longleftrightarrow> (\<exists>old1 new1 t. instance_id old1 = instance_id old \<and> instance_id new1 = instance_id new \<and>
     instance_state new1 = RUNNING \<and> package_id new1 = package_id new \<and> configuration new1 = configuration new \<and>
     rollback_of_version new1 = rollback_of_version new \<and> pending_upgrade new1 = pending_upgrade new \<and>
     db' = delete_row (instance_id old) (put_instance (new1\<lparr>last_teardown := Some t\<rparr>) (snd (record_version old1 new1 db))))"

lemma committedI:
  "instance_id old1 = instance_id old \<Longrightarrow> instance_id new1 = instance_id new \<Longrightarrow> instance_state new1 = RUNNING \<Longrightarrow>
   package_id new1 = package_id new \<Longrightarrow> configuration new1 = configuration new \<Longrightarrow> rollback_of_version new1 = rollback_of_version new \<Longrightarrow>
   pending_upgrade new1 = pending_upgrade new \<Longrightarrow>
   committed db old new (delete_row (instance_id old) (put_instance (new1\<lparr>last_teardown := Some t\<rparr>) (snd (record_version old1 new1 db))))"
  unfolding committed_def by (intro exI [of _ old1] exI [of _ new1] exI [of _ t] conjI) (assumption | rule refl)+

lemma resolve_upgrade_commits: "gives (resolve_upgrade env now db old new True) (committed db old new)"
  unfolding resolve_upgrade_def
  by (auto simp: Let_def fired_def same_core_def intro!: io_rules committedI split: prod.split)

lemma resolve_outcome_commits:
  assumes "get_instance db i = Some old" "pending_upgrade old = Some p" "get_instance db p = Some new" "instance_state old = UPGRADING"
    "resolve_upgrade_outcome env now i True db log = (Inr survivor, db', log')"
  shows "committed db old new db'" "get_instance db' p = Some survivor" "now < upgrade_deadline old new"
proof -
  obtain r db1 log1 where sweep: "sweep_overdue_upgrade env now db old log = (r, db1, log1)" by (metis prod_cases3)
  have r: "r = Inr False" using assms sweep
    by (cases r) (auto simp: resolve_upgrade_outcome_def instance_or_404_def split: bool.splits)
  then have db1: "db1 = db"
    using sweep by (auto simp: sweep_overdue_upgrade_def commit_def then_do_def give_def split: prod.splits sum.splits option.splits)
  show "now < upgrade_deadline old new" using sweep r assms(2-4)
    by (auto simp: sweep_overdue_upgrade_def commit_def then_do_def give_def expire_overdue_upgrade_def split: prod.splits sum.splits option.splits if_splits)
  have work: "commit db (then_do (resolve_upgrade env now db old new True) (\<lambda>db''.
      case instance_or_404 db'' p of Inl err \<Rightarrow> fail_with err | Inr survivor \<Rightarrow> give (survivor, db''))) log1 = (Inr survivor, db', log')"
    using assms(5,1-3) sweep r db1 by (simp add: resolve_upgrade_outcome_def instance_or_404_def)
  have "gives (then_do (resolve_upgrade env now db old new True) (\<lambda>db''.
      case instance_or_404 db'' p of Inl err \<Rightarrow> fail_with err | Inr survivor \<Rightarrow> give (survivor, db'')))
      (\<lambda>(s, db''). committed db old new db'' \<and> get_instance db'' p = Some s)"
    by (rule gives_then [OF gives_mono [OF resolve_upgrade_commits]])
      (auto simp: instance_or_404_def intro!: io_rules split: option.split)
  then have "committed db old new db' \<and> get_instance db' p = Some survivor"
    using work by (auto simp: commit_def gives_def split: prod.splits sum.splits)
  then show "committed db old new db'" "get_instance db' p = Some survivor" by simp_all
qed

lemma find_map_last: "(\<And>v. P (f v) = P v) \<Longrightarrow> \<forall>v \<in> set vs. \<not> P v \<Longrightarrow> P w \<Longrightarrow> find P (map f (vs @ [w])) = Some (f w)"
  by (induction vs) auto

text \<open>The tables after a commit, from the rows before it.\<close>

abbreviation mark_undone :: "uid option \<Rightarrow> uid \<Rightarrow> instance_version \<Rightarrow> instance_version" where
  "mark_undone undone by' u \<equiv> if undone = Some (version_id u) then u\<lparr>rolled_back_by := Some by'\<rparr> else u"

lemma committed_versions:
  assumes "committed db old new db'"
  obtains w where "version_instance w = instance_id new" "previous_instance w = instance_id old"
    "version_id w = fresh_id (map version_id (versions db))"
    "version_kind w = (if rollback_of_version new = None then UPGRADE else ROLLBACK)" "version_package w = package_id new"
    "versions db' = map (mark_undone (rollback_of_version new) (version_id w)) (versions db @ [w])"
proof -
  obtain old1 new1 t where c: "instance_id old1 = instance_id old" "instance_id new1 = instance_id new" "package_id new1 = package_id new"
      "rollback_of_version new1 = rollback_of_version new"
      "db' = delete_row (instance_id old) (put_instance (new1\<lparr>last_teardown := Some t\<rparr>) (snd (record_version old1 new1 db)))"
    using assms by (auto simp: committed_def)
  show thesis
    by (rule that [of "fst (record_version old1 new1 db)"])
      (use c in \<open>auto simp: record_version_def Let_def delete_row_def update_where_def split: option.split\<close>)
qed

lemma committed_rows:
  assumes "committed db old new db'" "rapp_inv db" "new \<in> set (instances db)" "instance_id new \<noteq> instance_id old"
  obtains new1 where "get_instance db' (instance_id new) = Some new1" "instance_state new1 = RUNNING" "package_id new1 = package_id new"
    "configuration new1 = configuration new" "get_instance db' (instance_id old) = None"
    "instance_id ` set (instances db') = instance_id ` set (instances db) - {instance_id old}"
proof -
  obtain old1 new1 t where c: "instance_id new1 = instance_id new" "package_id new1 = package_id new" "instance_state new1 = RUNNING"
      "configuration new1 = configuration new"
      "db' = delete_row (instance_id old) (put_instance (new1\<lparr>last_teardown := Some t\<rparr>) (snd (record_version old1 new1 db)))"
    using assms(1) by (auto simp: committed_def)
  let ?row = "new1\<lparr>last_teardown := Some t\<rparr>"
  have rows: "instances db' = filter (\<lambda>r. instance_id r \<noteq> instance_id old) (instances (put_instance ?row db))"
    using c(5) by (simp add: delete_row_def delete_where_def put_instance_def)
  have "distinct (map instance_id (instances (put_instance ?row db)))" using assms(2) by (simp add: rapp_inv_def)
  then have dist: "distinct (map instance_id (instances db'))" unfolding rows by (rule distinct_map_filter)
  show thesis
  proof (rule that [of ?row])
    show "get_instance db' (instance_id new) = Some ?row" unfolding get_instance_iff [OF dist] rows
      using put_in_instances [OF assms(3), of ?row] c(1) assms(4) by simp
    show "get_instance db' (instance_id old) = None" by (simp add: get_instance_def table_simps rows)
    show "instance_id ` set (instances db') = instance_id ` set (instances db) - {instance_id old}"
    proof -
      have "instance_id ` {r \<in> S. instance_id r \<noteq> i} = instance_id ` S - {i}" for S :: "rapp_instance set" and i by auto
      then show ?thesis by (simp add: rows)
    qed
  qed (use c in simp_all)
qed

lemma successor_after_commit:
  assumes "committed db old new db'" "rapp_inv db" "old \<in> set (instances db)"
  shows "successor_of db' (instance_id old) = Some (instance_id new)"
proof -
  obtain w where w: "version_instance w = instance_id new" "previous_instance w = instance_id old"
    "versions db' = map (mark_undone (rollback_of_version new) (version_id w)) (versions db @ [w])"
    by (rule committed_versions [OF assms(1)]) blast
  have hist: "history_ok (versions db) (pointers (instances db))" using assms(2) by (simp add: rapp_inv_def)
  have "instance_id old \<notin> previous_instance ` set (versions db)"
    by (rule history_okD(3) [OF hist]) (use assms(3) in \<open>simp add: pointers_ids\<close>)
  then have "\<forall>v \<in> set (versions db). previous_instance v \<noteq> instance_id old" by (metis image_eqI)
  then have found: "find (\<lambda>v. previous_instance v = instance_id old) (map f (versions db @ [w])) = Some (f w)"
    if "\<And>v. previous_instance (f v) = previous_instance v" for f :: "instance_version \<Rightarrow> instance_version"
    using that w(2) by (intro find_map_last) auto
  have "find (\<lambda>v. previous_instance v = instance_id old) (versions db') = Some (mark_undone (rollback_of_version new) (version_id w) w)"
    unfolding w(3) by (rule found) simp
  then show ?thesis using w(1) by (simp add: successor_of_def row_where_def)
qed

text \<open>When an upgrade is confirmed, the deadline had not passed, the old row is gone, its replacement is the one
  survivor, RUNNING with an OAuth client under the package asked for and the configuration of the old row, and whoever asks
  for the old id by its history is led to the replacement.\<close>

theorem commit_leaves_one:
  assumes "rapp_reach db" "get_instance db i = Some old" "upgrade_owner db old = None"
    "upgrade_instance env now i package db log = (Inr new, db1, log1)"
    "resolve_upgrade_outcome env' now' i True db1 log' = (Inr survivor, db2, log2)"
  shows "now' < instance_created new + upgrade_timeout old \<and> get_instance db2 i = None \<and> instance_id survivor = instance_id new \<and>
     instance_state survivor = RUNNING \<and> oauth_client_id survivor \<noteq> None \<and> package_id survivor = package \<and>
     configuration survivor = configuration old \<and>
     instance_id ` set (instances db2) = insert (instance_id new) (instance_id ` set (instances db) - {i}) \<and>
     current_instance_id db2 i = Some (instance_id new)"
proof -
  have inv: "rapp_inv db" by (rule reach_inv) fact
  note old = get_instance_inv [OF inv assms(2)]
  have st: "started db old package None new db1" by (rule upgrade_instance_started) fact+
  let ?up = "old\<lparr>instance_state := UPGRADING, pending_upgrade := Some (instance_id new)\<rparr>"
  note two = started_inv [OF inv _ st]
  have up: "get_instance db1 i = Some ?up" using two old by auto
  have new: "get_instance db1 (instance_id new) = Some new" "instance_id new \<noteq> instance_id ?up" and inv1: "rapp_inv db1" using two old by auto
  have com: "committed db1 ?up new db2" and surv: "get_instance db2 (instance_id new) = Some survivor" and time: "now' < upgrade_deadline ?up new"
    by (rule resolve_outcome_commits [OF up _ new(1) _ assms(5)]; simp)+
  have in1: "new \<in> set (instances db1)" "?up \<in> set (instances db1)" using get_instance_inv [OF inv1 new(1)] get_instance_inv [OF inv1 up] by blast+
  obtain new1 where rows: "get_instance db2 (instance_id new) = Some new1" "instance_state new1 = RUNNING" "package_id new1 = package_id new"
    "configuration new1 = configuration new" "get_instance db2 (instance_id ?up) = None"
    "instance_id ` set (instances db2) = instance_id ` set (instances db1) - {instance_id ?up}"
    by (rule committed_rows [OF com inv1 in1(1) new(2)]) blast
  have "rapp_reach db2" using rapp_reach.resolve [OF rapp_reach.upgrade [OF assms(1)], of env' now' i True env now i package log log'] assms(4,5)
    by (simp add: after_def)
  then have ok: "row_ok survivor \<and> instance_id survivor = instance_id new" using get_instance_inv [OF reach_inv surv] by simp
  have "current_instance_id db2 i = Some (instance_id new)"
    using successor_after_commit [OF com inv1 in1(2)] rows old
    by (simp add: current_instance_id_def walk_forward.simps [of db2 i] walk_forward.simps [of db2 "instance_id new"])
  moreover have "instance_id ` set (instances db1) = insert (instance_id new) (instance_id ` set (instances db))"
    using st by (simp add: started_def insert_instance_def)
  ultimately show ?thesis using rows surv ok time old new(2) st by (auto simp: row_ok_def upgrade_deadline_def started_def)
qed

definition upgraded :: rapp_store where "upgraded = after (resolve_upgrade_outcome willing 20 1 True upgrading [])"

definition upgraded_row :: rapp_instance where
  "upgraded_row = replacement_row\<lparr>instance_state := RUNNING, last_teardown := Some \<lparr>torn_instance = 1, reason = ''UPGRADE_COMMIT'',
     nfo_terminate = ''DONE'', usage_stop = ''DONE'', credential_secret = ''SKIPPED: credential delivery is off'', torn_at = 20\<rparr>\<rparr>"

lemma upgraded_commits:
  "resolve_upgrade_outcome willing 20 1 True upgrading [] =
     (Inr upgraded_row, upgraded, snd (snd (resolve_upgrade_outcome willing 20 1 True upgrading [])))"
  unfolding upgraded_def upgrading_def one_running_rows by code_simp

theorem commit_leaves_one_witness:
  "instance_state upgraded_row = RUNNING \<and> current_instance_id upgraded 1 = Some (instance_id replacement_row)"
  using commit_leaves_one [OF one_running_reach upgrading_starts upgraded_commits] by (simp only: simp_thms)

subsection \<open>The walk back\<close>

lemma walk_back_None [simp]: "walk_back db None seen = []"
  by (simp add: walk_back.simps)

lemma walk_back_Some:
  "walk_back db (Some u) seen = (if version_id u \<in> seen \<or> u \<notin> set (versions db) then []
     else u # walk_back db (version_that_made db (previous_instance u)) (insert (version_id u) seen))"
  by (simp add: walk_back.simps)

lemma version_that_made_in: "version_that_made db i = Some u \<Longrightarrow> u \<in> set (versions db) \<and> version_instance u = i"
  by (auto simp: version_that_made_def dest: row_where_SomeD)

lemma walk_back_unseen: "k \<notin> version_id ` set (versions db) \<Longrightarrow> walk_back db v (insert k seen) = walk_back db v seen"
proof (induction db v seen rule: walk_back.induct)
  case (1 db v seen)
  show ?case
  proof (cases v)
    case (Some u)
    have IH: "walk_back db (version_that_made db (previous_instance u)) (insert k (insert (version_id u) seen)) =
        walk_back db (version_that_made db (previous_instance u)) (insert (version_id u) seen)"
      if "\<not> (version_id u \<in> seen \<or> u \<notin> set (versions db))"
      using 1(1) [OF Some that 1(2)] .
    have "version_id u \<noteq> k" if "u \<in> set (versions db)" using 1(2) that by blast
    then show ?thesis using IH Some by (auto simp: walk_back_Some insert_commute)
  qed simp
qed

lemma walk_back_ids: "version_id ` set (walk_back db v seen) \<inter> seen = {} \<and> distinct (map version_id (walk_back db v seen))"
proof (induction db v seen rule: walk_back.induct)
  case (1 db v seen)
  then show ?case by (cases v) (auto simp: walk_back_Some)
qed

lemma find_skip_last: "\<not> P w \<Longrightarrow> find P (vs @ [w]) = find P vs"
  by (induction vs) auto

text \<open>A version recorded for a row that no version retired, with versions marked, does not change the walk but for the marks.\<close>

lemma find_map_same: "(\<And>v. P (f v) = P v) \<Longrightarrow> find P (map f vs) = map_option f (find P vs)"
  by (induction vs) auto

lemma walk_back_marked:
  assumes f: "\<And>u. version_id (f u) = version_id u" "\<And>u. version_instance (f u) = version_instance u" "\<And>u. previous_instance (f u) = previous_instance u"
  shows "versions db' = map f (versions db @ [w]) \<Longrightarrow> version_instance w \<notin> previous_instance ` set (versions db) \<Longrightarrow>
    (\<And>u. v = Some u \<Longrightarrow> u \<in> set (versions db)) \<Longrightarrow> walk_back db' (map_option f v) seen = map f (walk_back db v seen)"
proof (induction db v seen rule: walk_back.induct)
  case (1 db v seen)
  show ?case
  proof (cases v)
    case (Some u)
    have u: "u \<in> set (versions db)" using 1(4) Some .
    have "previous_instance u \<noteq> version_instance w" using 1(3) u by (metis image_eqI)
    then have made: "version_that_made db' (previous_instance u) = map_option f (version_that_made db (previous_instance u))"
      unfolding version_that_made_def row_where_def 1(2) using f(2)
      by (subst find_map_same) (auto simp: find_skip_last)
    have "walk_back db' (version_that_made db' (previous_instance u)) (insert (version_id u) seen) =
        map f (walk_back db (version_that_made db (previous_instance u)) (insert (version_id u) seen))" if "version_id u \<notin> seen"
      unfolding made by (rule 1(1) [OF Some _ 1(2,3)]) (use that u version_that_made_in in auto)
    moreover have "f u \<in> set (versions db')" using u unfolding 1(2) by simp
    ultimately show ?thesis using Some u f by (simp add: walk_back_Some)
  qed simp
qed

text \<open>The history of a replacement: the version that made it, then the history of the row it replaced.\<close>

lemma version_history_after_commit:
  assumes com: "committed db old new db'" and inv: "rapp_inv db" and old: "old \<in> set (instances db)" "pending_upgrade old = Some (instance_id new)"
    and new: "new \<in> set (instances db)" and other: "instance_id new \<noteq> instance_id old"
  obtains w where "version_kind w = (if rollback_of_version new = None then UPGRADE else ROLLBACK)" "version_id w \<notin> version_id ` set (versions db)"
    "version_history db' (instance_id new) = map (mark_undone (rollback_of_version new) (version_id w)) (w # version_history db (instance_id old))"
proof -
  obtain w where w: "version_instance w = instance_id new" "previous_instance w = instance_id old"
    "version_id w = fresh_id (map version_id (versions db))" "version_kind w = (if rollback_of_version new = None then UPGRADE else ROLLBACK)"
    "versions db' = map (mark_undone (rollback_of_version new) (version_id w)) (versions db @ [w])"
    by (rule committed_versions [OF com]) blast
  define f where "f = mark_undone (rollback_of_version new) (version_id w)"
  note vs = w(5) [folded f_def]
  have f: "version_id (f u) = version_id u" "version_instance (f u) = version_instance u" "previous_instance (f u) = previous_instance u" for u
    by (simp_all add: f_def)
  have hist: "history_ok (versions db) (pointers (instances db))" using inv by (simp add: rapp_inv_def)
  have nobody: "version_instance w \<notin> previous_instance ` set (versions db)"
    unfolding w(1) by (rule history_okD(3) [OF hist]) (use new in \<open>simp add: pointers_ids\<close>)
  have fresh: "version_id w \<notin> version_id ` set (versions db)" using fresh_id_notin [of "map version_id (versions db)"] by (simp add: w(3))
  have "instance_id new \<notin> version_instance ` set (versions db)"
    by (rule history_okD(4) [OF hist, of "instance_id old"]) (use in_pointers [OF old(1)] old(2) in simp)
  then have unmade: "\<forall>v \<in> set (versions db). version_instance v \<noteq> instance_id new" by (metis image_eqI)
  have made: "version_that_made db' (instance_id new) = Some (f w)"
    unfolding version_that_made_def row_where_def vs by (rule find_map_last) (use unmade w(1) in \<open>auto simp: f(2)\<close>)
  have before: "version_that_made db' (instance_id old) = map_option f (version_that_made db (instance_id old))"
    unfolding version_that_made_def row_where_def vs
    by (subst find_map_same) (use w(1) other in \<open>auto simp: f(2) find_skip_last\<close>)
  have walk: "walk_back db' (map_option f (version_that_made db (instance_id old))) seen = map f (walk_back db (version_that_made db (instance_id old)) seen)"
    for seen
    by (rule walk_back_marked [OF f vs nobody]) (use version_that_made_in in blast)
  have "f w \<in> set (versions db')" unfolding vs by simp
  then have "version_history db' (instance_id new) = f w # map f (walk_back db (version_that_made db (instance_id old)) {version_id w})"
    using before walk [of "{version_id w}"] w(2) f by (simp add: version_history_def made walk_back_Some)
  also have "walk_back db (version_that_made db (instance_id old)) {version_id w} = version_history db (instance_id old)"
    unfolding version_history_def by (rule walk_back_unseen [OF fresh])
  finally show thesis using that [of w] w(4) fresh by (simp add: f_def)
qed

lemma find_after_mark:
  "find P xs = Some x \<Longrightarrow> distinct (map key xs) \<Longrightarrow> \<not> P (f x) \<Longrightarrow> (\<And>y. y \<in> set xs \<Longrightarrow> key y \<noteq> key x \<Longrightarrow> f y = y) \<Longrightarrow>
   find P (map f xs) = find P (tl (dropWhile (\<lambda>y. y \<noteq> x) xs))"
proof (induction xs)
  case (Cons y xs)
  show ?case
  proof (cases "P y")
    case True
    then have "x = y" using Cons.prems(1) by simp
    moreover have "map f xs = xs" using Cons.prems(2,4) \<open>x = y\<close> by (intro map_idI) (metis imageI list.set_intros(2) list.simps(9) distinct.simps(2) set_map)
    ultimately show ?thesis using Cons.prems(3) by simp
  next
    case False
    then have x: "find P xs = Some x" "x \<noteq> y" using Cons.prems(1) by (auto simp: find_Some_iff)
    then have "x \<in> set xs" by (auto simp: find_Some_iff)
    then have "f y = y" using Cons.prems(2,4) by auto
    then show ?thesis using Cons.IH [OF x(1) _ Cons.prems(3)] Cons.prems(2,4) x(2) False by auto
  qed
qed simp

lemma version_history_distinct: "distinct (map version_id (version_history db i))"
  using walk_back_ids by (auto simp: version_history_def)

lemma version_history_same: "versions db' = versions db \<Longrightarrow> version_history db' i = version_history db i"
proof -
  assume same: "versions db' = versions db"
  then have made: "version_that_made db' = version_that_made db" by (simp add: version_that_made_def fun_eq_iff)
  have "versions db' = versions d \<Longrightarrow> version_that_made db' = version_that_made d \<Longrightarrow> walk_back db' v seen = walk_back d v seen" for d v seen
  proof (induction d v seen rule: walk_back.induct)
    case (1 d v seen)
    then show ?case by (cases v) (simp_all add: walk_back_Some)
  qed
  then show ?thesis using same made by (simp add: version_history_def)
qed

lemma rollback_instance_started:
  assumes "current_instance_id db i = Some c" "get_instance db c = Some cur" "upgrade_owner db cur = None"
    "rollback_instance env now i db log = (Inr (new, target), db', log')"
  shows "rollback_target db c = Some target" "started db cur (previous_package target) (Some target) new db'"
proof -
  have c: "instance_id cur = c" using assms(2) by (auto simp: get_instance_def dest: row_where_SomeD)
  have "commit db (then_do (start_rollback env now db cur) (\<lambda>started.
      case started of None \<Rightarrow> fail_with ROLLBACK_HISTORY_UNAVAILABLE
      | Some ((new, db'), target) \<Rightarrow> give ((new, target), db'))) log = (Inr (new, target), db', log')"
    using assms by (simp add: rollback_instance_def with_instance_def load_instance_def instance_or_404_def)
  moreover have "gives (then_do (start_rollback env now db cur) (\<lambda>started.
      case started of None \<Rightarrow> fail_with ROLLBACK_HISTORY_UNAVAILABLE | Some ((new, db'), target) \<Rightarrow> give ((new, target), db')))
      (\<lambda>((new, target), db'). rollback_target db c = Some target \<and> started db cur (previous_package target) (Some target) new db')"
    unfolding start_rollback_def c
    by (auto intro!: gives_then gives_give gives_fail gives_mono [OF start_upgrade_gives] split: option.split prod.split)
  ultimately have "rollback_target db c = Some target \<and> started db cur (previous_package target) (Some target) new db'"
    by (fastforce simp: commit_def gives_def split: prod.splits sum.splits)
  then show "rollback_target db c = Some target" "started db cur (previous_package target) (Some target) new db'" by simp_all
qed

text \<open>A rollback brings back the package and the configuration the newest upgrade not yet undone had replaced, and once
  it is confirmed the next rollback of the survivor undoes the upgrade before that one: rollbacks walk back through the
  history and never forth.\<close>

theorem rollbacks_walk_back:
  assumes "rapp_reach db" "current_instance_id db i = Some c" "get_instance db c = Some cur" "upgrade_owner db cur = None"
    "rollback_instance env now i db log = (Inr (new, target), db1, log1)"
    "resolve_upgrade_outcome env' now' c True db1 log' = (Inr survivor, db2, log2)"
  shows "package_id survivor = previous_package target \<and> configuration survivor = previous_configuration target \<and>
     rollback_target db c = Some target \<and>
     rollback_target db2 (instance_id survivor) =
       find (\<lambda>v. version_kind v = UPGRADE \<and> rolled_back_by v = None) (tl (dropWhile (\<lambda>v. v \<noteq> target) (version_history db c)))"
proof -
  have inv: "rapp_inv db" by (rule reach_inv) fact
  note cur = get_instance_inv [OF inv assms(3)]
  note target = rollback_instance_started [OF assms(2-5)]
  let ?up = "cur\<lparr>instance_state := UPGRADING, pending_upgrade := Some (instance_id new)\<rparr>"
  note two = started_inv [OF inv _ target(2)]
  have up: "get_instance db1 c = Some ?up" using two cur by auto
  have new: "get_instance db1 (instance_id new) = Some new" "instance_id new \<noteq> instance_id ?up" and inv1: "rapp_inv db1" using two cur by auto
  have com: "committed db1 ?up new db2" and surv: "get_instance db2 (instance_id new) = Some survivor"
    by (rule resolve_outcome_commits [OF up _ new(1) _ assms(6)]; simp)+
  have in1: "new \<in> set (instances db1)" "?up \<in> set (instances db1)" using get_instance_inv [OF inv1 new(1)] get_instance_inv [OF inv1 up] by blast+
  obtain new1 where rows: "get_instance db2 (instance_id new) = Some new1" "package_id new1 = package_id new" "configuration new1 = configuration new"
    by (rule committed_rows [OF com inv1 in1(1) new(2)]) blast
  have undone: "rollback_of_version new = Some (version_id target)" using target(2) by (simp add: started_def)
  have "versions db1 = versions db" using target(2) by (simp add: started_def insert_instance_def)
  note same = version_history_same [OF this]
  obtain w where w: "version_kind w = ROLLBACK"
      "version_history db2 (instance_id new) = map (mark_undone (rollback_of_version new) (version_id w)) (w # version_history db c)"
    by (rule version_history_after_commit [OF com inv1 in1(2) _ in1(1) new(2)]) (use undone same cur in auto)
  let ?ok = "\<lambda>v. version_kind v = UPGRADE \<and> rolled_back_by v = None"
  let ?f = "mark_undone (rollback_of_version new) (version_id w)"
  have "find ?ok (version_history db c) = Some target" using target(1) by (simp add: rollback_target_def)
  from find_after_mark [OF this version_history_distinct, of ?f]
  have "find ?ok (map ?f (version_history db c)) = find ?ok (tl (dropWhile (\<lambda>v. v \<noteq> target) (version_history db c)))"
    using undone by simp
  then have "rollback_target db2 (instance_id new) = find ?ok (tl (dropWhile (\<lambda>v. v \<noteq> target) (version_history db c)))"
    using w by (simp add: rollback_target_def)
  moreover have "instance_id survivor = instance_id new" using surv by (auto simp: get_instance_def dest: row_where_SomeD)
  ultimately show ?thesis using rows surv target by (simp add: started_def)
qed

text \<open>Package 8 is rolled back to package 7.\<close>

definition going_back :: "(rapp_instance \<times> instance_version) served" where
  "going_back = rollback_instance willing 30 1 upgraded []"

definition gone_back :: "rapp_instance served" where
  "gone_back = resolve_upgrade_outcome willing 40 2 True (after going_back) []"

lemma upgraded_reach: "rapp_reach upgraded"
  unfolding upgraded_def upgrading_def by (intro rapp_reach.intros one_running_reach)

lemma answered: "\<not> isl (fst x) \<Longrightarrow> x = (Inr (projr (fst x)), after x, snd (snd x))"
  by (cases x) (simp add: after_def)

lemma both_answered: "\<not> isl (fst going_back)" "\<not> isl (fst gone_back)"
  unfolding gone_back_def going_back_def upgraded_def upgrading_def one_running_rows by code_simp+

lemma goes_back:
  "current_instance_id upgraded 1 = Some 2" "get_instance upgraded 2 = Some upgraded_row" "upgrade_owner upgraded upgraded_row = None"
  "rollback_instance willing 30 1 upgraded [] = (Inr (fst (projr (fst going_back)), snd (projr (fst going_back))), after going_back, snd (snd going_back))"
  "resolve_upgrade_outcome willing 40 2 True (after going_back) [] = (Inr (projr (fst gone_back)), after gone_back, snd (snd gone_back))"
proof -
  show "current_instance_id upgraded 1 = Some 2" "get_instance upgraded 2 = Some upgraded_row" "upgrade_owner upgraded upgraded_row = None"
    unfolding upgraded_def upgrading_def one_running_rows by code_simp+
  show "rollback_instance willing 30 1 upgraded [] = (Inr (fst (projr (fst going_back)), snd (projr (fst going_back))), after going_back, snd (snd going_back))"
    by (simp only: prod.collapse going_back_def [symmetric] answered [OF both_answered(1), symmetric])
  show "resolve_upgrade_outcome willing 40 2 True (after going_back) [] = (Inr (projr (fst gone_back)), after gone_back, snd (snd gone_back))"
    by (simp only: gone_back_def [symmetric] answered [OF both_answered(2), symmetric])
qed

theorem rollbacks_walk_back_witness:
  "package_id (projr (fst gone_back)) = 7 \<and> rollback_target (after gone_back) (instance_id (projr (fst gone_back))) = None"
proof -
  have "previous_package (snd (projr (fst going_back))) = 7"
    "find (\<lambda>v. version_kind v = UPGRADE \<and> rolled_back_by v = None)
       (tl (dropWhile (\<lambda>v. v \<noteq> snd (projr (fst going_back))) (version_history upgraded 2))) = None"
    unfolding going_back_def upgraded_def upgrading_def one_running_rows by code_simp+
  then show ?thesis using rollbacks_walk_back [OF upgraded_reach goes_back] by simp
qed

end
