(* ===== verification/RappSwitches.thy ===== *)
theory RappSwitches
  imports RappClaims
begin

section \<open>Bring-up, teardown and the kill switches of rApps\<close>

subsection \<open>A rApp runs only within the limits that were accepted\<close>

lemma commit_gives: "gives work P \<Longrightarrow> commit db work log = (Inr x, db', log') \<Longrightarrow> P (x, db')"
  by (auto simp: commit_def gives_def split: prod.splits sum.splits)

lemma call_gives: "gives (call env c) (\<lambda>r. \<exists>l. r = peers env l c)"
  by (auto simp: gives_def call_def)

definition limits_accepted :: "environment \<Rightarrow> json \<Rightarrow> rapp_instance \<Rightarrow> bool" where
  "limits_accepted env status inst \<longleftrightarrow> declared_limits status = [] \<or>
     (\<exists>l body. peers env l (Put_rapp_limits (client_id inst) (declared_limits status)) = Some (200, body))"

definition policy_accepted :: "environment \<Rightarrow> rapp_instance \<Rightarrow> bool" where
  "policy_accepted env inst \<longleftrightarrow>
     (\<forall>policy. approval_policy inst = Some policy \<longrightarrow>
        (\<exists>l body. peers env l (Put_approval_policy (client_id inst) policy) = Some (200, body) \<and>
           (\<forall>n > 1. required_approvals policy = Some n \<longrightarrow> member ''requiredApprovals'' body = Some (JInt (int n)))))"

lemma limits_gives:
  "gives (apply_rapp_limits env status inst) (\<lambda>r. \<exists>b. r = inst\<lparr>rapp_limits_set := b\<rparr> \<and> limits_accepted env status inst)"
proof -
  have "gives (then_do (call env (Put_rapp_limits (client_id inst) (declared_limits status))) (\<lambda>r.
        case r of Some (code, _) \<Rightarrow> if code = 200 then give (inst\<lparr>rapp_limits_set := True\<rparr>) else fail_with ENDPOINT_UNREACHABLE
        | None \<Rightarrow> fail_with ENDPOINT_UNREACHABLE)) (\<lambda>r. \<exists>b. r = inst\<lparr>rapp_limits_set := b\<rparr> \<and> limits_accepted env status inst)"
    by (rule gives_then [OF gives_mono [OF call_gives]]) (auto simp: limits_accepted_def intro!: gives_fail gives_give split: option.split)
  moreover have "\<exists>b. inst = inst\<lparr>rapp_limits_set := b\<rparr>" by (rule exI [of _ "rapp_limits_set inst"]) simp
  ultimately show ?thesis by (auto simp: apply_rapp_limits_def Let_def limits_accepted_def intro!: gives_give)
qed

lemma policy_gives: "gives (apply_approval_policy env inst) (\<lambda>_. policy_accepted env inst)"
proof (cases "approval_policy inst")
  case (Some policy)
  have "gives (then_do (call env (Put_approval_policy (client_id inst) policy)) (\<lambda>r.
      case r of Some (code, body) \<Rightarrow>
          if code = 200 \<and> (wanted > 1 \<longrightarrow> member ''requiredApprovals'' body = Some (JInt (int wanted))) then give () else fail_with ENDPOINT_UNREACHABLE
      | None \<Rightarrow> fail_with ENDPOINT_UNREACHABLE)) (\<lambda>_. policy_accepted env inst)"
    if "wanted = (case required_approvals policy of None \<Rightarrow> 1 | Some n \<Rightarrow> n)" for wanted
    by (rule gives_then [OF gives_mono [OF call_gives]])
      (use Some that in \<open>auto simp: policy_accepted_def intro!: gives_fail gives_give split: option.split\<close>)
  then show ?thesis using Some by (simp add: apply_approval_policy_def Let_def)
qed (auto simp: apply_approval_policy_def policy_accepted_def intro: gives_give)

lemma sme_gives: "gives (register_sme_declarations env status inst) (\<lambda>r. \<exists>ids. r = inst\<lparr>sme_service_ids := ids\<rparr>)"
proof -
  have "\<exists>ids. inst = inst\<lparr>sme_service_ids := ids\<rparr>" by (rule exI [of _ "sme_service_ids inst"]) simp
  note same = this
  have set_ids: "\<exists>ids. inst\<lparr>sme_service_ids := x\<rparr> = inst\<lparr>sme_service_ids := ids\<rparr>" for x by blast
  show ?thesis by (auto simp: register_sme_declarations_def intro!: io_rules same set_ids split: option.split)
qed

text \<open>What the package's onboarding status was read as.\<close>

definition status_read :: "environment \<Rightarrow> rapp_instance \<Rightarrow> json \<Rightarrow> bool" where
  "status_read env inst status \<longleftrightarrow>
     (\<exists>l code body. peers env l (Get_onboarding_status (package_id inst)) = Some (code, body) \<and> status = (if code = 200 then body else JObject []))"

lemma status_readI:
  "peers env l (Get_onboarding_status (package_id inst)) = Some (200, body) \<Longrightarrow> status_read env inst body"
  "peers env l (Get_onboarding_status (package_id inst)) = Some (code, body) \<Longrightarrow> code \<noteq> 200 \<Longrightarrow> status_read env inst (JObject [])"
  unfolding status_read_def by (metis (full_types))+

lemma status_gives: "gives (onboarding_status env inst) (status_read env inst)"
  unfolding onboarding_status_def must_answer_def
  by (intro gives_then gives_mono [OF call_gives]) (auto intro: status_readI intro!: gives_give gives_fail split: option.split)

definition brought_up :: "environment \<Rightarrow> rapp_instance \<Rightarrow> bool" where
  "brought_up env inst \<longleftrightarrow> (\<exists>status. status_read env inst status \<and> limits_accepted env status inst) \<and> policy_accepted env inst"

lemma brought_up_fields:
  "brought_up env (inst\<lparr>rapp_limits_set := b, sme_service_ids := ids\<rparr>) = brought_up env inst"
  "brought_up env (inst\<lparr>instance_state := s\<rparr>) = brought_up env inst"
  by (simp_all add: brought_up_def status_read_def limits_accepted_def policy_accepted_def client_id_def)

lemma on_bootstrap_accepted:
  "gives (on_bootstrap env inst) (\<lambda>r. \<exists>b ids. r = inst\<lparr>rapp_limits_set := b, sme_service_ids := ids\<rparr> \<and> brought_up env inst)"
proof -
  have pol: "policy_accepted env (inst\<lparr>rapp_limits_set := b\<rparr>) = policy_accepted env inst" for b
    by (simp add: policy_accepted_def client_id_def)
  have "gives (then_do (apply_approval_policy env (inst\<lparr>rapp_limits_set := b\<rparr>)) (\<lambda>_. register_sme_declarations env status (inst\<lparr>rapp_limits_set := b\<rparr>)))
      (\<lambda>r. \<exists>b ids. r = inst\<lparr>rapp_limits_set := b, sme_service_ids := ids\<rparr> \<and> brought_up env inst)"
    if "status_read env inst status" "limits_accepted env status inst" for status b
    by (rule gives_then [OF gives_mono [OF policy_gives]], rule gives_mono [OF sme_gives])
      (use that in \<open>auto simp: brought_up_def pol\<close>)
  note rest = this
  show ?thesis unfolding on_bootstrap_def
  proof (rule gives_then [OF gives_mono [OF status_gives]], rule gives_then [OF gives_mono [OF limits_gives]])
    fix status r assume "status_read env inst status" "\<exists>b. r = inst\<lparr>rapp_limits_set := b\<rparr> \<and> limits_accepted env status inst"
    then show "gives (then_do (apply_approval_policy env r) (\<lambda>_. register_sme_declarations env status r))
        (\<lambda>r. \<exists>b ids. r = inst\<lparr>rapp_limits_set := b, sme_service_ids := ids\<rparr> \<and> brought_up env inst)"
      using rest by blast
  qed
qed

lemma fire_bootstrap_ok: "gives (fire_io env BOOTSTRAP_OK inst) (\<lambda>r. r = inst\<lparr>instance_state := RUNNING\<rparr>)"
  by (cases "instance_state inst") (auto simp: gives_def fire_io_def fire_first_passing fsm_tables)

text \<open>When the report that a workload is up is accepted, the instance is RUNNING, and RAN NF OAM had accepted both the
  limits its package declares and the approval policy of its operator, echoing the number of approvals where that is
  more than one. A refusal of either leaves no running instance.\<close>

theorem bootstrap_fails_closed:
  assumes "bootstrap_complete env now who i db log = (Inr inst, db', log')"
  shows "instance_state inst = RUNNING \<and> brought_up env inst"
proof -
  have boot: "gives (check ok (if instance_state r \<noteq> DEPLOYING then fail_with illegal_transition_error
      else then_do (on_bootstrap env r) (\<lambda>r'. then_do (fire_io env BOOTSTRAP_OK r') (\<lambda>r''. keep r'' d))))
      (\<lambda>(r', _). instance_state r' = RUNNING \<and> brought_up env r')" for ok r d
  proof -
    have kept: "gives (then_do (fire_io env BOOTSTRAP_OK r') (\<lambda>r''. keep r'' d)) (\<lambda>(r', _). instance_state r' = RUNNING \<and> brought_up env r')"
      if "brought_up env r'" for r'
      by (rule gives_then [OF gives_mono [OF fire_bootstrap_ok]]) (use that in \<open>auto simp: keep_def brought_up_fields intro!: gives_give\<close>)
    have "gives (then_do (on_bootstrap env r) (\<lambda>r'. then_do (fire_io env BOOTSTRAP_OK r') (\<lambda>r''. keep r'' d)))
        (\<lambda>(r', _). instance_state r' = RUNNING \<and> brought_up env r')"
      by (rule gives_then [OF gives_mono [OF on_bootstrap_accepted]], rule kept) (auto simp: brought_up_fields)
    then show ?thesis by (intro gives_check) (simp add: gives_fail)
  qed
  obtain r d l where "commit d (check (own_instance_or_operator who r) (if instance_state r \<noteq> DEPLOYING then fail_with illegal_transition_error
      else then_do (on_bootstrap env r) (\<lambda>r'. then_do (fire_io env BOOTSTRAP_OK r') (\<lambda>r''. keep r'' d)))) l = (Inr inst, db', log')"
    using assms by (auto simp: bootstrap_complete_def with_instance_def split: prod.splits sum.splits)
  from commit_gives [OF boot this] show ?thesis by simp
qed

theorem bootstrap_fails_closed_witness:
  "brought_up willing running_row"
proof -
  have "bootstrap_complete willing 5 (\<lambda>_. None) 1 (after (create_instance no_urls willing 0 demo_create no_rapps [])) [] =
    (Inr running_row, one_running, snd (snd (bootstrap_complete willing 5 (\<lambda>_. None) 1 (after (create_instance no_urls willing 0 demo_create no_rapps [])) [])))"
    unfolding one_running_rows by code_simp
  from bootstrap_fails_closed [OF this] show ?thesis ..
qed

subsection \<open>The order of a termination\<close>

text \<open>How many of \<open>cs\<close> are asked: all, or those up to the first that gets no answer.\<close>

definition asked_until_failure :: "environment \<Rightarrow> peer_log \<Rightarrow> peer_call list \<Rightarrow> nat \<Rightarrow> bool" where
  "asked_until_failure env log cs k \<longleftrightarrow> k \<le> length cs \<and>
     (\<forall>j < k. peers env (log @ take j cs) (cs ! j) = None \<longrightarrow> k = Suc j) \<and>
     (k < length cs \<longrightarrow> 0 < k \<and> peers env (log @ take (k - 1) cs) (cs ! (k - 1)) = None)"

lemma asked_until_failure_Suc:
  assumes "asked_until_failure env (log @ [c]) cs k" "peers env log c \<noteq> None"
  shows "asked_until_failure env log (c # cs) (Suc k)"
proof -
  have "Suc k = Suc j" if "j < Suc k" "peers env (log @ take j (c # cs)) ((c # cs) ! j) = None" for j
    using that assms by (cases j) (auto simp: asked_until_failure_def)
  moreover have "peers env (log @ take k (c # cs)) ((c # cs) ! k) = None" if "k < length cs"
    using that assms(1) by (cases k) (auto simp: asked_until_failure_def)
  ultimately show ?thesis using assms(1) by (simp add: asked_until_failure_def)
qed

lemma delete_until_failure_log:
  "\<exists>k. snd (delete_until_failure env cs ctx) = snd ctx @ take k cs \<and> asked_until_failure env (snd ctx) cs k"
proof (induction env cs ctx rule: delete_until_failure.induct)
  case (2 env c cs ctx)
  show ?case
  proof (cases "peers env (snd ctx) c")
    case None
    then show ?thesis by (intro exI [of _ 1]) (simp add: log_call_def asked_until_failure_def)
  next
    case (Some r)
    then obtain k where k: "snd (delete_until_failure env cs (log_call c ctx)) = snd (log_call c ctx) @ take k cs"
      "asked_until_failure env (snd (log_call c ctx)) cs k" using 2 by blast
    then have "asked_until_failure env (snd ctx) (c # cs) (Suc k)"
      using Some asked_until_failure_Suc [of env "snd ctx" c cs k] by (simp add: log_call_def)
    then show ?thesis using Some k by (intro exI [of _ "Suc k"]) (simp add: log_call_def)
  qed
qed (auto simp: asked_until_failure_def)

text \<open>What a teardown with a credential asks the other modules to forget, in order; a silent SME cuts its part short.\<close>

definition sme_deregistrations :: "string \<Rightarrow> rapp_instance \<Rightarrow> peer_call list" where
  "sme_deregistrations cid inst = map (Delete_service_api cid) (case sme_service_ids inst of None \<Rightarrow> [] | Some ids \<Rightarrow> ids) @ [Delete_provider cid]"

definition deregistrations :: "nat \<Rightarrow> string \<Rightarrow> rapp_instance \<Rightarrow> peer_log" where
  "deregistrations k cid inst =
     [Delete_production_capabilities cid] @ take k (sme_deregistrations cid inst) @
     (if rapp_limits_set inst then [Delete_rapp_limits cid] else []) @ (if approval_policy inst \<noteq> None then [Delete_approval_policy cid] else [])"

text \<open>What is taken down after them.\<close>

definition takedown :: "environment \<Rightarrow> rapp_instance \<Rightarrow> peer_log" where
  "takedown env inst =
     (case workload_ref inst of None \<Rightarrow> [] | Some ref \<Rightarrow> if ref = [] then [] else [Delete_deployment ref]) @
     (case usage_registration inst of None \<Rightarrow> [] | Some reg \<Rightarrow> [Stop_usage (package_id inst) reg]) @
     (case delivery env of Kubernetes \<Rightarrow> [Delete_secret (instance_id inst)] | _ \<Rightarrow> [])"

lemma terminate_side_effects_log:
  assumes "oauth_client_id inst = Some cid"
  obtains k where "terminate_side_effects env (inst, log) = (inst\<lparr>oauth_client_id := None\<rparr>, log @ deregistrations k cid inst @ [Delete_invoker cid])"
    "asked_until_failure env (log @ [Delete_production_capabilities cid]) (sme_deregistrations cid inst) k"
proof -
  let ?cs = "sme_deregistrations cid inst"
  let ?ctx = "(inst, log @ [Delete_production_capabilities cid])"
  obtain k where k: "snd (delete_until_failure env ?cs ?ctx) = (log @ [Delete_production_capabilities cid]) @ take k ?cs"
    "asked_until_failure env (log @ [Delete_production_capabilities cid]) ?cs k"
    using delete_until_failure_log [of env ?cs ?ctx] by auto
  have sme: "delete_until_failure env ?cs ?ctx = (inst, (log @ [Delete_production_capabilities cid]) @ take k ?cs)"
    using k delete_until_failure_row [of env ?cs ?ctx] by (metis fst_conv prod.collapse)
  show thesis
    by (rule that [of k]) (use assms sme k(2) in \<open>simp_all add: terminate_side_effects_def reconsider_registrations_def reconsider_dme_registration_def
        reconsider_sme_registration_def reconsider_rapp_limits_def reconsider_approval_policy_def revoke_credential_def log_call_def
        deregistrations_def flip: sme_deregistrations_def del: take_append\<close>)
qed

lemma release_log:
  obtains t u where "release_instance_resources env now why (inst, log) = (t, inst\<lparr>usage_registration := u\<rparr>, log @ takedown env inst)"
proof -
  obtain t i' log' where r: "release_instance_resources env now why (inst, log) = (t, i', log')" by (metis prod_cases3)
  obtain u where "i' = inst\<lparr>usage_registration := u\<rparr>" using release_row [of env now why "(inst, log)"] r by auto
  have w: "snd (withdraw env i l) = l @ (case delivery env of Kubernetes \<Rightarrow> [Delete_secret i] | _ \<Rightarrow> [])" for i l
    by (simp add: withdraw_def split: delivery_mode.split)
  have "snd (snd (release_instance_resources env now why (inst, log))) = snd (withdraw env (instance_id inst)
      (log @ (case workload_ref inst of None \<Rightarrow> [] | Some ref \<Rightarrow> if ref = [] then [] else [Delete_deployment ref]) @
       (case usage_registration inst of None \<Rightarrow> [] | Some reg \<Rightarrow> [Stop_usage (package_id inst) reg])))"
    by (simp add: release_instance_resources_def Let_def log_call_def split: prod.split option.split)
  then have "snd (snd (release_instance_resources env now why (inst, log))) = log @ takedown env inst"
    by (simp add: w takedown_def)
  then show thesis using that r \<open>i' = inst\<lparr>usage_registration := u\<rparr>\<close> by simp
qed

text \<open>C38: No peer can hold up a termination: an instance that is DEPLOYING, RUNNING or FAULTED, holds a credential and is not the
  replacement of a pending upgrade, terminates whatever the other modules answer (an instance in an upgrade is refused).
  Exactly this is asked of them, in this order: to forget its data production, its APIs and provider entry (until SME gives
  no answer), its limits and its approval policy if it has any; then its OAuth client is revoked; only then its workload
  is deleted, its usage registration stopped and its Secret removed.\<close>

theorem teardown_deregisters_first:
  assumes "get_instance db i = Some inst" "upgrade_owner db inst = None" "oauth_client_id inst = Some cid"
    "instance_state inst \<in> {DEPLOYING, RUNNING, FAULTED}"
  shows "\<exists>t u k. let inst' = inst\<lparr>instance_state := UNDEPLOYED, oauth_client_id := None, usage_registration := u, last_teardown := Some t\<rparr>
     in terminate_instance env now i db log =
          (Inr inst', put_instance inst' db, log @ deregistrations k cid inst @ [Delete_invoker cid] @ takedown env inst) \<and>
        asked_until_failure env (log @ [Delete_production_capabilities cid]) (sme_deregistrations cid inst) k"
proof -
  obtain k where k: "terminate_side_effects env (inst, log) = (inst\<lparr>oauth_client_id := None\<rparr>, log @ deregistrations k cid inst @ [Delete_invoker cid])"
    "asked_until_failure env (log @ [Delete_production_capabilities cid]) (sme_deregistrations cid inst) k"
    by (rule terminate_side_effects_log [OF assms(3)])
  let ?down = "inst\<lparr>instance_state := UNDEPLOYED, oauth_client_id := None\<rparr>"
  have down: "inst\<lparr>oauth_client_id := None, instance_state := UNDEPLOYED\<rparr> = ?down" by (cases inst) simp
  have fired: "fire_io env TERMINATE inst log = (Inr ?down, log @ deregistrations k cid inst @ [Delete_invoker cid])"
    using assms(4) k down by (auto simp: fire_io_def fire_first_passing fsm_tables run_action_def)
  obtain t u where rel: "release_instance_resources env now ''TERMINATE'' (?down, log @ deregistrations k cid inst @ [Delete_invoker cid]) =
      (t, ?down\<lparr>usage_registration := u\<rparr>, (log @ deregistrations k cid inst @ [Delete_invoker cid]) @ takedown env ?down)"
    by (rule release_log [where inst = ?down])
  have tail: "takedown env ?down = takedown env inst" by (simp add: takedown_def split: option.split delivery_mode.split)
  show ?thesis
    by (rule exI [of _ t], rule exI [of _ u], rule exI [of _ k])
      (use assms(1,2) fired rel [unfolded tail] k(2) in \<open>simp add: Let_def terminate_instance_def with_instance_def load_instance_def instance_or_404_def
        commit_def then_do_def release_io_def keep_def give_def\<close>)
qed

theorem teardown_deregisters_first_witness:
  "\<exists>t u k. let inst' = running_row\<lparr>instance_state := UNDEPLOYED, oauth_client_id := None, usage_registration := u, last_teardown := Some t\<rparr>
     in terminate_instance willing 9 1 one_running [] =
          (Inr inst', put_instance inst' one_running, [] @ deregistrations k ''inv-1'' running_row @ [Delete_invoker ''inv-1''] @ takedown willing running_row) \<and>
        asked_until_failure willing ([] @ [Delete_production_capabilities ''inv-1'']) (sme_deregistrations ''inv-1'' running_row) k"
  by (rule teardown_deregisters_first) (rule upgrading_starts, rule upgrading_starts, simp_all add: running_row_def)

subsection \<open>The global stop\<close>

definition switch_accepted :: "environment \<Rightarrow> string \<Rightarrow> string option \<Rightarrow> rapp_instance \<Rightarrow> bool" where
  "switch_accepted env by' why inst \<longleftrightarrow>
     (\<exists>l r. peers env l (Put_kill (client_id inst) by' why) = Some r \<and> fst r \<in> {200, 204})"

lemma kill_call_accepted:
  assumes "kill_call env inst (\<lambda>cid. Put_kill cid by' why) log = (Inr rep, log')"
  shows "switch_accepted env by' why inst"
proof -
  obtain cid where "oauth_client_id inst = Some cid" "peers env log (Put_kill cid by' why) = Some rep" "fst rep \<in> {200, 204}"
    using assms by (auto simp: kill_call_def then_do_def call_def give_def fail_with_def split: option.splits if_splits)
  then show ?thesis unfolding switch_accepted_def client_id_def by (intro exI [of _ log] exI [of _ rep]) simp
qed

lemma kill_each_accounts:
  "\<exists>s a f log'. kill_each env by' why already rows log = (Inr (s, a, f), log') \<and> s + a + length f = length rows \<and>
     set f \<subseteq> instance_id ` set rows \<and>
     (\<forall>inst \<in> set rows. instance_id inst \<in> set f \<or> client_id inst \<in> set already \<or> switch_accepted env by' why inst)"
proof (induction rows arbitrary: log)
  case (Cons inst rest)
  consider (stopped) "case oauth_client_id inst of None \<Rightarrow> False | Some cid \<Rightarrow> cid \<in> set already"
    | (failed) err log1 where "\<not> (case oauth_client_id inst of None \<Rightarrow> False | Some cid \<Rightarrow> cid \<in> set already)"
        "kill_call env inst (\<lambda>cid. Put_kill cid by' why) log = (Inl err, log1)"
    | (accepted) rep log1 where "\<not> (case oauth_client_id inst of None \<Rightarrow> False | Some cid \<Rightarrow> cid \<in> set already)"
        "kill_call env inst (\<lambda>cid. Put_kill cid by' why) log = (Inr rep, log1)"
    by (metis prod.collapse sum.collapse(1) sum.collapse(2))
  then show ?case
  proof cases
    case stopped
    then have "client_id inst \<in> set already" by (auto simp: client_id_def split: option.splits)
    moreover obtain s a f log' where "kill_each env by' why already rest log = (Inr (s, a, f), log')" "s + a + length f = length rest"
      "set f \<subseteq> instance_id ` set rest"
      "\<forall>inst \<in> set rest. instance_id inst \<in> set f \<or> client_id inst \<in> set already \<or> switch_accepted env by' why inst"
      using Cons.IH [of log] by blast
    ultimately show ?thesis using stopped
      by (intro exI [of _ s] exI [of _ "a + 1"] exI [of _ f] exI [of _ log']) (auto simp: then_do_def give_def)
  next
    case (failed err log1)
    obtain s a f log' where "kill_each env by' why already rest log1 = (Inr (s, a, f), log')" "s + a + length f = length rest"
      "set f \<subseteq> instance_id ` set rest"
      "\<forall>inst \<in> set rest. instance_id inst \<in> set f \<or> client_id inst \<in> set already \<or> switch_accepted env by' why inst"
      using Cons.IH [of log1] by blast
    then show ?thesis using failed
      by (intro exI [of _ s] exI [of _ a] exI [of _ "instance_id inst # f"] exI [of _ log']) (auto simp: then_do_def give_def)
  next
    case (accepted rep log1)
    obtain s a f log' where "kill_each env by' why already rest log1 = (Inr (s, a, f), log')" "s + a + length f = length rest"
      "set f \<subseteq> instance_id ` set rest"
      "\<forall>inst \<in> set rest. instance_id inst \<in> set f \<or> client_id inst \<in> set already \<or> switch_accepted env by' why inst"
      using Cons.IH [of log1] by blast
    then show ?thesis using accepted kill_call_accepted [OF accepted(2)]
      by (intro exI [of _ "s + 1"] exI [of _ a] exI [of _ f] exI [of _ log']) (auto simp: then_do_def give_def)
  qed
qed (simp add: give_def)

text \<open>RAN NF OAM's list, read in pages.\<close>

definition lists_kills :: "environment \<Rightarrow> json list \<Rightarrow> bool" where
  "lists_kills env items \<longleftrightarrow> (\<forall>l offset. peers env l (Get_kill_list KILL_LIST_PAGE offset) =
     Some (200, JObject [(''items'', JList (take KILL_LIST_PAGE (drop offset items)))]))"

lemma invoker_ids_append: "invoker_ids (xs @ ys) = invoker_ids xs @ invoker_ids ys"
  by (simp add: invoker_ids_def map_filter_def)

lemma stopped_invoker_ids_all:
  assumes "lists_kills env items"
  shows "length items < offset + fuel * KILL_LIST_PAGE \<Longrightarrow> 0 < fuel \<Longrightarrow>
    \<exists>log'. stopped_invoker_ids fuel env offset stopped log = (Inr (Some (stopped @ invoker_ids (drop offset items))), log')"
proof (induction fuel arbitrary: offset stopped log)
  case (Suc fuel)
  let ?page = "take KILL_LIST_PAGE (drop offset items)"
  have answer: "peers env log (Get_kill_list KILL_LIST_PAGE offset) = Some (200, JObject [(''items'', JList ?page)])"
    using assms by (simp add: lists_kills_def)
  have listed: "listed ''items'' (JObject [(''items'', JList ?page)]) = ?page" by (simp add: listed_def member_def)
  show ?case
  proof (cases "length ?page < KILL_LIST_PAGE")
    case True
    then have "?page = drop offset items" by simp
    then show ?thesis using True answer listed by (simp add: then_do_def call_def give_def Let_def)
  next
    case False
    then have long: "offset + KILL_LIST_PAGE \<le> length items" by (simp add: KILL_LIST_PAGE_def)
    then have "0 < fuel" using Suc.prems(1) by (cases fuel) auto
    then obtain log' where "stopped_invoker_ids fuel env (offset + KILL_LIST_PAGE) (stopped @ invoker_ids ?page) (log @ [Get_kill_list KILL_LIST_PAGE offset]) =
        (Inr (Some ((stopped @ invoker_ids ?page) @ invoker_ids (drop (offset + KILL_LIST_PAGE) items))), log')"
      using Suc.IH [of "offset + KILL_LIST_PAGE"] Suc.prems(1) by (metis add.assoc add.commute mult_Suc)
    moreover have "invoker_ids ?page @ invoker_ids (drop (offset + KILL_LIST_PAGE) items) = invoker_ids (drop offset items)"
      unfolding invoker_ids_append [symmetric] by (metis add.commute append_take_drop_id drop_drop)
    ultimately show ?thesis using False answer listed by (simp add: then_do_def call_def give_def Let_def)
  qed
qed simp

text \<open>The global stop accounts for every live instance: those it stopped, those already stopped and those that failed are
  all of them, and an instance that is not reported as failed is on RAN NF OAM's list or its kill switch was accepted there.
  The loop over the pages of that list ends as soon as the fuel exceeds their number.\<close>

theorem kill_all_accounts:
  assumes "lists_kills env items" "length items < fuel * KILL_LIST_PAGE"
  shows "\<exists>s a f log'. kill_all_instances fuel env by' why db log = (Inr (Some (s, a, f)), log') \<and>
     s + a + length f = length (live_instances db) \<and> set f \<subseteq> instance_id ` set (live_instances db) \<and>
     (\<forall>inst \<in> set (live_instances db). instance_id inst \<in> set f \<or> client_id inst \<in> set (invoker_ids items) \<or> switch_accepted env by' why inst)"
proof -
  have "0 < fuel" using assms(2) by (cases fuel) auto
  then obtain log1 where "stopped_invoker_ids fuel env 0 [] log = (Inr (Some (invoker_ids items)), log1)"
    using stopped_invoker_ids_all [OF assms(1), of 0 fuel "[]" log] assms(2) by auto
  moreover obtain s a f log2 where "kill_each env by' why (invoker_ids items) (live_instances db) log1 = (Inr (s, a, f), log2)"
    "s + a + length f = length (live_instances db)" "set f \<subseteq> instance_id ` set (live_instances db)"
    "\<forall>inst \<in> set (live_instances db). instance_id inst \<in> set f \<or> client_id inst \<in> set (invoker_ids items) \<or> switch_accepted env by' why inst"
    using kill_each_accounts [of env by' why "invoker_ids items" "live_instances db" log1] by blast
  ultimately show ?thesis
    by (intro exI [of _ s] exI [of _ a] exI [of _ f] exI [of _ log2]) (simp add: kill_all_instances_def then_do_def give_def)
qed

text \<open>A list with one entry, and switches that fail.\<close>

definition unreachable_switches :: environment where
  "unreachable_switches = \<lparr>peers = (\<lambda>log c. case c of
      Get_kill_list limit offset \<Rightarrow> Some (200, JObject [(''items'', JList (take limit (drop offset [JObject [(''invokerId'', JStr ''inv-9'')]])))])
    | _ \<Rightarrow> None), delivery = Off\<rparr>"

theorem kill_all_accounts_witness:
  "\<exists>s a f log'. kill_all_instances 1 unreachable_switches ''ops'' None one_running [] = (Inr (Some (s, a, f)), log') \<and> f = [1]"
proof -
  have "lists_kills unreachable_switches [JObject [(''invokerId'', JStr ''inv-9'')]]" by (simp add: lists_kills_def unreachable_switches_def)
  note all = kill_all_accounts [OF this, of 1 "''ops''" None one_running "[]"]
  obtain s a f log' where f: "kill_all_instances 1 unreachable_switches ''ops'' None one_running [] = (Inr (Some (s, a, f)), log')"
    using all by (auto simp: KILL_LIST_PAGE_def)
  have "kill_all_instances 1 unreachable_switches ''ops'' None one_running [] = (Inr (Some (0, 0, [1])), [Get_kill_list 500 0, Put_kill ''inv-1'' ''ops'' None])"
    unfolding one_running_rows by code_simp
  then show ?thesis using f by simp
qed

end
