(* ===== verification/Ldn.thy ===== *)
theory Ldn
  imports AccessScope
begin

section \<open>Distinguished names (ldn.py) and the containment tree (mo\_tree.py)\<close>

text \<open>
  A reference to a managed object is a flat id or a distinguished name: \<open>Class=id\<close> parts, root first,
  joined by commas. The tree of managed objects has one row for each name and is closed under parents.
\<close>

subsection \<open>Parsing a name\<close>

text \<open>\<open>_CLASS\<close>; the dollar of the expression also allows one newline at the end.\<close>

definition class_name :: "string \<Rightarrow> bool" where
  "class_name s =
     (case (if s \<noteq> [] \<and> last s = CHR 0x0A then butlast s else s) of
        [] \<Rightarrow> False
      | ch # rest \<Rightarrow> (alnum ch \<and> \<not> (CHR ''0'' \<le> ch \<and> ch \<le> CHR ''9'') \<or> ch = CHR ''_'')
          \<and> list_all (\<lambda>c. alnum c \<or> c = CHR ''_'') rest)"

definition parse_rdn :: "string \<Rightarrow> py_error + string \<times> string" where
  "parse_rdn part =
     (case partition_at (CHR ''='') part of (cls, sep, ident) \<Rightarrow>
        if \<not> sep \<or> \<not> class_name cls \<or> strip ident = [] then Inl (ValueError ''not a distinguished name'')
        else Inr (cls, strip ident))"

definition parse_ldn :: "string \<Rightarrow> py_error + (string \<times> string) list" where
  "parse_ldn ref = collect parse_rdn (split_on (CHR '','') ref)"

definition check_ref :: "string option \<Rightarrow> py_error + string option" where
  "check_ref ref =
     (case or_none ref of
        None \<Rightarrow> Inr ref
      | Some s \<Rightarrow> if CHR ''='' \<in> set s then and_then (parse_ldn s) (\<lambda>_. Inr ref) else Inr ref)"

definition leaf_class :: "string option \<Rightarrow> py_error + string option" where
  "leaf_class ref =
     (case or_none ref of
        None \<Rightarrow> Inr None
      | Some s \<Rightarrow> if CHR ''='' \<notin> set s then Inr None
                  else and_then (parse_ldn s) (\<lambda>rdns. Inr (Some (fst (last rdns)))))"

definition leaf_id :: "string option \<Rightarrow> py_error + string option" where
  "leaf_id ref =
     (case or_none ref of
        None \<Rightarrow> Inr None
      | Some s \<Rightarrow> if CHR ''='' \<in> set s then and_then (parse_ldn s) (\<lambda>rdns. Inr (Some (snd (last rdns)))) else Inr (Some s))"

definition rdn_text :: "string \<times> string \<Rightarrow> string" where
  "rdn_text rdn = fst rdn @ ''='' @ snd rdn"

subsection \<open>The names an element and its functions have in the tree\<close>

definition root_dn :: "string \<Rightarrow> string" where
  "root_dn ref = (if CHR ''='' \<in> set ref then ref else ''ManagedElement='' @ ref)"

definition target_dn :: "string \<Rightarrow> string option \<Rightarrow> string" where
  "target_dn ref function =
     (case or_none function of
        None \<Rightarrow> root_dn ref
      | Some f \<Rightarrow> if CHR ''='' \<notin> set f then root_dn ref
                  else if prefix ''ManagedElement='' f then f else root_dn ref @ '','' @ f)"

text \<open>Every name from the root down to the name itself.\<close>

definition ancestors :: "string \<Rightarrow> py_error + string list" where
  "ancestors dn = and_then (parse_ldn dn) (\<lambda>rdns.
     Inr (map (\<lambda>n. join_with (CHR '','') (map rdn_text (take (Suc n) rdns))) [0..<length rdns]))"

subsection \<open>The tree\<close>

datatype mo_source = Registry | Walk

record managed_object =
  dn :: string
  parent_dn :: "string option"
  object_class :: string
  object_id :: string
  object_element :: string
  source :: mo_source

definition get_object :: "managed_object list \<Rightarrow> string \<Rightarrow> managed_object option" where
  "get_object tree name = row_where (\<lambda>o'. dn o' = name) tree"

definition object_exists :: "managed_object list \<Rightarrow> string \<Rightarrow> bool" where
  "object_exists tree name = (get_object tree name \<noteq> None)"

text \<open>The loop of \<open>ensure\<close> over the path, with the parent it came from.\<close>

fun ensure_path :: "string \<Rightarrow> mo_source \<Rightarrow> string option \<Rightarrow> string list \<Rightarrow> managed_object list \<Rightarrow> py_error + managed_object list" where
  "ensure_path element src parent [] tree = Inr tree"
| "ensure_path element src parent (path # paths) tree =
     (case get_object tree path of
        Some _ \<Rightarrow>
          ensure_path element src (Some path) paths
            (if src = Registry then update_where (\<lambda>o'. dn o' = path) (\<lambda>o'. o'\<lparr>source := Registry\<rparr>) tree else tree)
      | None \<Rightarrow>
          and_then (parse_ldn path) (\<lambda>rdns.
            ensure_path element src (Some path) paths
              (tree @ [\<lparr>dn = path, parent_dn = parent, object_class = fst (last rdns), object_id = snd (last rdns),
                        object_element = element, source = src\<rparr>])))"

definition ensure :: "string \<Rightarrow> string \<Rightarrow> mo_source \<Rightarrow> managed_object list \<Rightarrow> py_error + managed_object list" where
  "ensure element name src tree = and_then (ancestors name) (\<lambda>paths. ensure_path element src None paths tree)"

definition sync_registry :: "string \<Rightarrow> string option \<Rightarrow> managed_object list \<Rightarrow> py_error + managed_object list" where
  "sync_registry ref function tree =
     and_then (ensure ref (root_dn ref) Registry tree) (\<lambda>tree1.
     case or_none function of None \<Rightarrow> Inr tree1 | Some f \<Rightarrow> ensure ref (target_dn ref (Some f)) Registry tree1)"

text \<open>Deleting a row deletes, by the foreign key, the rows whose parent it is, and so on down.\<close>

fun and_below :: "nat \<Rightarrow> managed_object list \<Rightarrow> string list \<Rightarrow> string list" where
  "and_below 0 tree names = names"
| "and_below (Suc n) tree names =
     and_below n tree (names @ map dn (filter (\<lambda>o'. parent_dn o' \<in> Some ` set names \<and> dn o' \<notin> set names) tree))"

definition delete_objects :: "string list \<Rightarrow> managed_object list \<Rightarrow> managed_object list" where
  "delete_objects names tree = delete_where (\<lambda>o'. dn o' \<in> set (and_below (length tree) tree names)) tree"

definition walk_dns :: "string \<Rightarrow> string list \<Rightarrow> string list" where
  "walk_dns ref paths = sort (remdups (map (\<lambda>path. root_dn ref @ '','' @ path) paths))"

definition apply_walk :: "string \<Rightarrow> string list \<Rightarrow> managed_object list \<Rightarrow> py_error + managed_object list" where
  "apply_walk ref paths tree =
     and_then (collect ancestors (walk_dns ref paths)) (\<lambda>chains.
       let removed = map dn (filter (\<lambda>o'. object_element o' = ref \<and> source o' = Walk \<and> dn o' \<notin> set (concat chains)) tree)
       in each (\<lambda>name. ensure ref name Walk) (walk_dns ref paths) (delete_objects removed tree))"

text \<open>How one node stands to another (\<open>topology.py\<close>).\<close>

datatype relation = SAME | DIFFERENT_ELEMENT | ANCESTOR | DESCENDANT | SIBLING | SAME_ELEMENT

definition containment_relation :: "managed_object \<Rightarrow> managed_object \<Rightarrow> py_error + relation" where
  "containment_relation a b =
     (if dn a = dn b then Inr SAME
      else if object_element a \<noteq> object_element b then Inr DIFFERENT_ELEMENT
      else and_then (ancestors (dn a)) (\<lambda>chain_a. and_then (ancestors (dn b)) (\<lambda>chain_b.
        Inr (if dn a \<in> set chain_b then ANCESTOR
             else if dn b \<in> set chain_a then DESCENDANT
             else if parent_dn a \<noteq> None \<and> parent_dn a = parent_dn b then SIBLING
             else SAME_ELEMENT))))"

subsection \<open>Names that parse\<close>

lemma alnum_not: "\<not> alnum CHR '',''" "\<not> alnum CHR ''=''"
  by (simp_all add: alnum_def)

lemma class_name_chars: "class_name s \<Longrightarrow> CHR '','' \<notin> set s \<and> CHR ''='' \<notin> set s \<and> s \<noteq> []"
proof -
  assume c: "class_name s"
  define t where "t = (if s \<noteq> [] \<and> last s = CHR 0x0A then butlast s else s)"
  have chars: "alnum ch \<or> ch = CHR ''_''" if "ch \<in> set t" for ch
    using c that unfolding class_name_def t_def [symmetric] by (cases t) (auto simp: list_all_iff)
  have "set s \<subseteq> set t \<union> {CHR 0x0A}"
    by (cases "s = []") (auto simp: t_def dest: in_set_butlastD, metis Un_iff append_butlast_last_id in_set_conv_decomp list.set_intros(1) set_ConsD set_append empty_iff list.set(1))
  moreover have "t \<noteq> []" using c unfolding class_name_def t_def [symmetric] by (cases t) auto
  moreover have "s \<noteq> []" using \<open>t \<noteq> []\<close> by (auto simp: t_def)
  ultimately show ?thesis using chars alnum_not by fastforce
qed

definition good_rdn :: "string \<times> string \<Rightarrow> bool" where
  "good_rdn rdn \<longleftrightarrow> class_name (fst rdn) \<and> snd rdn \<noteq> [] \<and> strip (snd rdn) = snd rdn \<and> CHR '','' \<notin> set (snd rdn)"

lemma parse_rdn_good: "parse_rdn part = Inr rdn \<Longrightarrow> CHR '','' \<notin> set part \<Longrightarrow> good_rdn rdn"
proof -
  assume p: "parse_rdn part = Inr rdn" and comma: "CHR '','' \<notin> set part"
  let ?ident = "drop 1 (dropWhile (\<lambda>ch. ch \<noteq> CHR ''='') part)"
  have "set ?ident \<subseteq> set part" by (meson set_drop_subset set_dropWhileD subset_iff)
  then have "CHR '','' \<notin> set (strip ?ident)" using comma set_strip by blast
  then show ?thesis using p by (auto simp: parse_rdn_def partition_at_def good_rdn_def split: if_splits)
qed

lemma parse_rdn_text: "good_rdn rdn \<Longrightarrow> parse_rdn (rdn_text rdn) = Inr rdn"
proof -
  assume g: "good_rdn rdn"
  then have no: "CHR ''='' \<notin> set (fst rdn)" using class_name_chars by (auto simp: good_rdn_def)
  have "takeWhile (\<lambda>ch. ch \<noteq> CHR ''='') (fst rdn @ CHR ''='' # snd rdn) = fst rdn"
    "dropWhile (\<lambda>ch. ch \<noteq> CHR ''='') (fst rdn @ CHR ''='' # snd rdn) = CHR ''='' # snd rdn"
    using no by (auto simp: takeWhile_append dropWhile_append)
  then show ?thesis using g by (cases rdn) (simp add: parse_rdn_def partition_at_def rdn_text_def good_rdn_def)
qed

lemma parse_ldn_good: "parse_ldn s = Inr rdns \<Longrightarrow> rdns \<noteq> [] \<and> list_all good_rdn rdns"
proof -
  assume "parse_ldn s = Inr rdns"
  then have a: "list_all2 (\<lambda>x y. parse_rdn x = Inr y) (split_on (CHR '','') s) rdns"
    unfolding parse_ldn_def by (rule collect_Inr)
  then have "rdns \<noteq> []" using split_on_not_Nil by fastforce
  moreover have "list_all good_rdn rdns"
    unfolding list_all_iff
  proof
    fix y assume "y \<in> set rdns"
    with a obtain x where "x \<in> set (split_on (CHR '','') s)" "parse_rdn x = Inr y"
      unfolding list_all2_conv_all_nth in_set_conv_nth by metis
    then show "good_rdn y" using parse_rdn_good split_on_parts by blast
  qed
  ultimately show ?thesis by simp
qed

definition name_of :: "(string \<times> string) list \<Rightarrow> string" where
  "name_of rdns = join_with (CHR '','') (map rdn_text rdns)"

lemma parse_name_of: "rdns \<noteq> [] \<Longrightarrow> list_all good_rdn rdns \<Longrightarrow> parse_ldn (name_of rdns) = Inr rdns"
proof -
  assume r: "rdns \<noteq> []" "list_all good_rdn rdns"
  have "\<forall>l \<in> set (map rdn_text rdns). CHR '','' \<notin> set l"
    using r(2) class_name_chars by (auto simp: list_all_iff rdn_text_def good_rdn_def)
  then have "split_on (CHR '','') (name_of rdns) = map rdn_text rdns"
    using r(1) by (simp add: name_of_def split_on_join)
  then show ?thesis
    using r(2) unfolding parse_ldn_def
    by (intro collect_all) (simp add: list.rel_map list_all2_same list_all_iff parse_rdn_text)
qed


lemma ancestors_name_of:
  "rdns \<noteq> [] \<Longrightarrow> list_all good_rdn rdns \<Longrightarrow> ancestors (name_of rdns) = Inr (map (\<lambda>n. name_of (take (Suc n) rdns)) [0..<length rdns])"
  using parse_name_of [of rdns] by (simp add: ancestors_def name_of_def)

text \<open>What \<open>ancestors\<close> gives is the chain of prefixes of the parts it parsed.\<close>

lemma ancestors_chain:
  assumes "ancestors s = Inr paths"
  obtains rdns where "rdns \<noteq> []" "list_all good_rdn rdns" "paths = map (\<lambda>n. name_of (take (Suc n) rdns)) [0..<length rdns]"
  using assms parse_ldn_good unfolding ancestors_def name_of_def and_then_Inr_iff by blast

lemma name_of_inj: "rdns \<noteq> [] \<Longrightarrow> list_all good_rdn rdns \<Longrightarrow> rdns' \<noteq> [] \<Longrightarrow> list_all good_rdn rdns' \<Longrightarrow>
    name_of rdns = name_of rdns' \<longleftrightarrow> rdns = rdns'"
  using parse_name_of by (metis sum.inject(2))

subsection \<open>The tree is closed under parents\<close>

definition parent_rdns :: "(string \<times> string) list \<Rightarrow> string option" where
  "parent_rdns rdns = (if length rdns = 1 then None else Some (name_of (butlast rdns)))"

definition node_ok :: "managed_object list \<Rightarrow> managed_object \<Rightarrow> bool" where
  "node_ok tree o' \<longleftrightarrow> (\<exists>rdns. rdns \<noteq> [] \<and> list_all good_rdn rdns \<and> dn o' = name_of rdns \<and> parent_dn o' = parent_rdns rdns) \<and>
     (\<forall>p. parent_dn o' = Some p \<longrightarrow> (\<exists>q \<in> set tree. dn q = p \<and> (source o' = Registry \<longrightarrow> source q = Registry)))"

definition tree_ok :: "managed_object list \<Rightarrow> bool" where
  "tree_ok tree \<longleftrightarrow> distinct (map dn tree) \<and> (\<forall>o' \<in> set tree. node_ok tree o')"

lemma get_object_Some: "get_object tree name = Some o' \<Longrightarrow> o' \<in> set tree \<and> dn o' = name"
  unfolding get_object_def by (rule row_where_SomeD)

lemma get_object_None: "get_object tree name = None \<longleftrightarrow> name \<notin> dn ` set tree"
  by (auto simp: get_object_def row_where_None)

text \<open>Promoting a row whose parent is vouched for, and adding one whose parent is there, keep the tree.\<close>

lemma promote_ok:
  assumes t: "tree_ok tree" and o': "o1 \<in> set tree" "dn o1 = name"
    and parent: "\<And>p. parent_dn o1 = Some p \<Longrightarrow> \<exists>q \<in> set tree. dn q = p \<and> source q = Registry"
  shows "tree_ok (update_where (\<lambda>o'. dn o' = name) (\<lambda>o'. o'\<lparr>source := Registry\<rparr>) tree)"
proof -
  let ?up = "\<lambda>o'. if dn o' = name then o'\<lparr>source := Registry\<rparr> else o'"
  let ?tree = "update_where (\<lambda>o'. dn o' = name) (\<lambda>o'. o'\<lparr>source := Registry\<rparr>) tree"
  have set: "set ?tree = ?up ` set tree" by (simp add: set_update_where)
  have "map dn ?tree = map dn tree" by (rule map_update_where) simp
  moreover have nodes: "node_ok ?tree (?up o2)" if o2: "o2 \<in> set tree" for o2
  proof -
    have ok: "node_ok tree o2" using t o2 by (simp add: tree_ok_def)
    have same: "dn (?up o2) = dn o2" "parent_dn (?up o2) = parent_dn o2" by simp_all
    have "\<exists>q \<in> set ?tree. dn q = p \<and> (source (?up o2) = Registry \<longrightarrow> source q = Registry)" if p: "parent_dn o2 = Some p" for p
    proof (cases "dn o2 = name")
      case True
      then have "o2 = o1" using t o' o2 distinct_key_eq [of dn tree o2 o1] by (simp add: tree_ok_def)
      with parent p obtain q where "q \<in> set tree" "dn q = p" "source q = Registry" by auto
      then show ?thesis unfolding set by (intro bexI [of _ "?up q"]) auto
    next
      case False
      from ok p obtain q where "q \<in> set tree" "dn q = p" "source o2 = Registry \<longrightarrow> source q = Registry" by (auto simp: node_ok_def)
      then show ?thesis unfolding set using False by (intro bexI [of _ "?up q"]) auto
    qed
    then show ?thesis using ok unfolding node_ok_def same by blast
  qed
  then have "\<forall>o' \<in> set ?tree. node_ok ?tree o'" unfolding set by blast
  ultimately show ?thesis using t unfolding tree_ok_def by simp
qed

lemma add_ok:
  assumes t: "tree_ok tree" and new: "dn n \<notin> dn ` set tree" and node: "node_ok tree n"
  shows "tree_ok (tree @ [n])"
proof -
  have "node_ok (tree @ [n]) o'" if "node_ok tree o'" for o' using that unfolding node_ok_def by auto
  then show ?thesis using t new node by (auto simp: tree_ok_def)
qed


lemma parent_take:
  assumes "k < length rdns"
  shows "parent_rdns (take (Suc k) rdns) = (if k = 0 then None else Some (name_of (take k rdns)))"
  using assms by (auto simp: parent_rdns_def butlast_take)

text \<open>What \<open>ensure\<close> does on the rest of a path whose part before it is in the tree.\<close>

definition ensured :: "mo_source \<Rightarrow> string \<Rightarrow> string list \<Rightarrow> managed_object list \<Rightarrow> managed_object list \<Rightarrow> bool" where
  "ensured src element paths tree tree' \<longleftrightarrow> tree_ok tree' \<and> set paths \<union> dn ` set tree \<subseteq> dn ` set tree' \<and>
     (src = Walk \<longrightarrow> set tree \<subseteq> set tree') \<and>
     (\<forall>o' \<in> set tree'. (\<exists>q \<in> set tree. dn q = dn o' \<and> object_element q = object_element o' \<and> source o' \<in> {source q, src})
        \<or> dn o' \<in> set paths \<and> source o' = src \<and> object_element o' = element)"

lemma ensure_path_ok:
  assumes r: "list_all good_rdn rdns"
  shows "ensure_path element src (if k = 0 then None else Some (name_of (take k rdns)))
      (map (\<lambda>n. name_of (take (Suc n) rdns)) [k..<length rdns]) tree = Inr tree' \<Longrightarrow> k \<le> length rdns \<Longrightarrow> tree_ok tree \<Longrightarrow>
    (k > 0 \<Longrightarrow> \<exists>q \<in> set tree. dn q = name_of (take k rdns) \<and> (src = Registry \<longrightarrow> source q = Registry)) \<Longrightarrow>
    ensured src element (map (\<lambda>n. name_of (take (Suc n) rdns)) [k..<length rdns]) tree tree'"
proof (induction "length rdns - k" arbitrary: k tree)
  case 0
  then show ?case by (auto simp: ensured_def)
next
  case (Suc d)
  then have k: "k < length rdns" by simp
  define path where "path = name_of (take (Suc k) rdns)"
  define paths where "paths = map (\<lambda>n. name_of (take (Suc n) rdns)) [Suc k..<length rdns]"
  have split: "map (\<lambda>n. name_of (take (Suc n) rdns)) [k..<length rdns] = path # paths"
    using k by (simp add: path_def paths_def upt_rec)
  have good: "take (Suc k) rdns \<noteq> []" "list_all good_rdn (take (Suc k) rdns)"
    using k r by (auto simp: list_all_iff dest: in_set_takeD)
  have par: "parent_rdns (take (Suc k) rdns) = (if k = 0 then None else Some (name_of (take k rdns)))" by (rule parent_take [OF k])
  have step: "ensured src element paths t tree'" if "ensure_path element src (Some path) paths t = Inr tree'" "tree_ok t"
      "\<exists>q \<in> set t. dn q = path \<and> (src = Registry \<longrightarrow> source q = Registry)" for t
    using Suc.hyps(1) [of "Suc k" t] that Suc.hyps(2) k unfolding path_def paths_def by simp
  show ?case
  proof (cases "get_object tree path")
    case None
    then have new: "path \<notin> dn ` set tree" by (simp add: get_object_None)
    from Suc.prems(1) None obtain cls where run: "ensure_path element src (Some path) paths
        (tree @ [\<lparr>dn = path, parent_dn = (if k = 0 then None else Some (name_of (take k rdns))), object_class = fst cls, object_id = snd cls,
          object_element = element, source = src\<rparr>]) = Inr tree'"
      unfolding split by (auto simp: and_then_Inr_iff)
    define n where "n = \<lparr>dn = path, parent_dn = (if k = 0 then None else Some (name_of (take k rdns))), object_class = fst cls,
        object_id = snd cls, object_element = element, source = src\<rparr>"
    have "dn n = name_of (take (Suc k) rdns)" "parent_dn n = parent_rdns (take (Suc k) rdns)"
      using par by (simp_all add: n_def path_def)
    moreover have "\<exists>q \<in> set tree. dn q = p \<and> (source n = Registry \<longrightarrow> source q = Registry)" if "parent_dn n = Some p" for p
      using that Suc.prems(4) by (auto simp: n_def split: if_splits)
    ultimately have "node_ok tree n" unfolding node_ok_def using good by blast
    then have ok: "tree_ok (tree @ [n])" using add_ok Suc.prems(3) new by (simp add: n_def)
    have "ensured src element paths (tree @ [n]) tree'"
      using step [OF run [folded n_def] ok] by (auto simp: n_def)
    then have e: "tree_ok tree'" "set paths \<union> dn ` set (tree @ [n]) \<subseteq> dn ` set tree'" "src = Walk \<longrightarrow> set (tree @ [n]) \<subseteq> set tree'"
      "\<And>o'. o' \<in> set tree' \<Longrightarrow> (\<exists>q \<in> set (tree @ [n]). dn q = dn o' \<and> object_element q = object_element o' \<and> source o' \<in> {source q, src})
        \<or> dn o' \<in> set paths \<and> source o' = src \<and> object_element o' = element"
      unfolding ensured_def by blast+
    have "(\<exists>q \<in> set tree. dn q = dn o' \<and> object_element q = object_element o' \<and> source o' \<in> {source q, src})
        \<or> dn o' \<in> set (path # paths) \<and> source o' = src \<and> object_element o' = element" if "o' \<in> set tree'" for o'
      using e(4) [OF that] by (auto simp: n_def)
    then show ?thesis unfolding split ensured_def using e(1-3) by (auto simp: n_def)
  next
    case (Some o1)
    then have o1: "o1 \<in> set tree" "dn o1 = path" using get_object_Some by auto
    define t where "t = (if src = Registry then update_where (\<lambda>o'. dn o' = path) (\<lambda>o'. o'\<lparr>source := Registry\<rparr>) tree else tree)"
    have run: "ensure_path element src (Some path) paths t = Inr tree'"
      using Suc.prems(1) Some unfolding split t_def by simp
    obtain rs where rs: "rs \<noteq> []" "list_all good_rdn rs" "dn o1 = name_of rs" "parent_dn o1 = parent_rdns rs"
      using o1 Suc.prems(3) unfolding tree_ok_def node_ok_def by blast
    have "name_of rs = name_of (take (Suc k) rdns)" using rs(3) o1(2) unfolding path_def by (rule trans [OF sym])
    then have "rs = take (Suc k) rdns" by (rule iffD1 [OF name_of_inj [OF rs(1,2) good]])
    then have parent: "parent_dn o1 = (if k = 0 then None else Some (name_of (take k rdns)))" using rs(4) par by simp
    have ok: "tree_ok t"
      unfolding t_def using Suc.prems(3) promote_ok [OF Suc.prems(3) o1] parent Suc.prems(4) by (auto split: if_splits)
    have "map dn t = map dn tree" by (simp add: t_def map_update_where)
    then have dns: "dn ` set t = dn ` set tree" by (metis set_map)
    have same: "src = Walk \<Longrightarrow> t = tree" by (simp add: t_def)
    have old: "\<exists>q \<in> set tree. dn q = dn r \<and> object_element q = object_element r \<and> source r \<in> {source q, src}" if "r \<in> set t" for r
      using that unfolding t_def by (auto simp: set_update_where split: if_splits)
    have "\<exists>q \<in> set t. dn q = path \<and> (src = Registry \<longrightarrow> source q = Registry)"
    proof (cases "src = Registry")
      case True
      have "o1\<lparr>source := Registry\<rparr> \<in> set (update_where (\<lambda>o'. dn o' = path) (\<lambda>o'. o'\<lparr>source := Registry\<rparr>) tree)"
        unfolding set_update_where by (rule image_eqI [of _ _ o1]) (simp_all add: o1)
      then show ?thesis using True o1(2) unfolding t_def by (intro bexI [of _ "o1\<lparr>source := Registry\<rparr>"]) simp_all
    qed (use o1 in \<open>auto simp: t_def\<close>)
    then have e: "tree_ok tree'" "set paths \<union> dn ` set t \<subseteq> dn ` set tree'" "src = Walk \<longrightarrow> set t \<subseteq> set tree'"
      "\<And>o'. o' \<in> set tree' \<Longrightarrow> (\<exists>q \<in> set t. dn q = dn o' \<and> object_element q = object_element o' \<and> source o' \<in> {source q, src})
        \<or> dn o' \<in> set paths \<and> source o' = src \<and> object_element o' = element"
      using step [OF run ok] unfolding ensured_def by blast+
    have "(\<exists>q \<in> set tree. dn q = dn o' \<and> object_element q = object_element o' \<and> source o' \<in> {source q, src})
        \<or> dn o' \<in> set (path # paths) \<and> source o' = src \<and> object_element o' = element" if "o' \<in> set tree'" for o'
      using e(4) [OF that]
    proof (elim disjE bexE conjE)
      fix q assume q: "q \<in> set t" "dn q = dn o'" "object_element q = object_element o'" "source o' \<in> {source q, src}"
      obtain r where "r \<in> set tree" "dn r = dn q" "object_element r = object_element q" "source q \<in> {source r, src}"
        using old [OF q(1)] by blast
      then have "r \<in> set tree \<and> dn r = dn o' \<and> object_element r = object_element o' \<and> source o' \<in> {source r, src}" using q(2-4) by auto
      then show ?thesis by blast
    qed simp
    then show ?thesis unfolding split ensured_def using e(1-3) dns same o1 by auto
  qed
qed

lemma ensure_ok:
  assumes "ensure element name src tree = Inr tree'" "tree_ok tree"
  obtains paths where "ancestors name = Inr paths" "ensured src element paths tree tree'"
proof -
  from assms(1) obtain paths where a: "ancestors name = Inr paths" "ensure_path element src None paths tree = Inr tree'"
    by (auto simp: ensure_def and_then_Inr_iff)
  from a(1) obtain rdns where r: "rdns \<noteq> []" "list_all good_rdn rdns" "paths = map (\<lambda>n. name_of (take (Suc n) rdns)) [0..<length rdns]"
    by (rule ancestors_chain)
  have "ensured src element paths tree tree'"
    using ensure_path_ok [OF r(2), of element src 0 tree tree'] a(2) assms(2) r(3) by simp
  with a(1) show ?thesis by (rule that)
qed


subsection \<open>Deleting with what hangs below\<close>

lemma and_below_Walk:
  assumes t: "tree_ok tree"
  shows "\<forall>o' \<in> set tree. dn o' \<in> set names \<longrightarrow> source o' = Walk \<Longrightarrow> o' \<in> set tree \<Longrightarrow> dn o' \<in> set (and_below n tree names) \<Longrightarrow> source o' = Walk"
proof (induction n arbitrary: names)
  case (Suc n)
  define more where "more = names @ map dn (filter (\<lambda>o'. parent_dn o' \<in> Some ` set names \<and> dn o' \<notin> set names) tree)"
  have "source o2 = Walk" if o2: "o2 \<in> set tree" "dn o2 \<in> set more" for o2
  proof (cases "dn o2 \<in> set names")
    case False
    with o2 obtain o3 where o3: "o3 \<in> set tree" "dn o3 = dn o2" "parent_dn o3 \<in> Some ` set names" by (auto simp: more_def)
    then have "o3 = o2" using distinct_key_eq [of dn tree o3 o2] t o2 by (simp add: tree_ok_def)
    with o3 obtain p where p: "parent_dn o2 = Some p" "p \<in> set names" by auto
    with t o2 obtain q where "q \<in> set tree" "dn q = p" "source o2 = Registry \<longrightarrow> source q = Registry"
      unfolding tree_ok_def node_ok_def by blast
    with Suc.prems(1) p show ?thesis by (cases "source o2") auto
  qed (use Suc.prems o2 in blast)
  then show ?case using Suc.IH [of more] Suc.prems by (simp add: more_def)
qed auto

lemma and_below_grows: "set names \<subseteq> set (and_below n tree names)"
proof (induction n arbitrary: names)
  case (Suc n)
  show ?case using Suc.IH [of "names @ map dn (filter (\<lambda>o'. parent_dn o' \<in> Some ` set names \<and> dn o' \<notin> set names) tree)"] by auto
qed simp

text \<open>As many rounds as there are rows reach everything below.\<close>

lemma and_below_closed:
  "length (filter (\<lambda>o'. dn o' \<notin> set names) tree) \<le> n \<Longrightarrow> o' \<in> set tree \<Longrightarrow> parent_dn o' = Some p \<Longrightarrow>
     p \<in> set (and_below n tree names) \<Longrightarrow> dn o' \<in> set (and_below n tree names)"
proof (induction n arbitrary: names)
  case 0
  then have "filter (\<lambda>o'. dn o' \<notin> set names) tree = []" by simp
  then show ?case using 0 by (simp add: filter_empty_conv)
next
  case (Suc n)
  define fresh where "fresh = filter (\<lambda>o'. parent_dn o' \<in> Some ` set names \<and> dn o' \<notin> set names) tree"
  show ?case
  proof (cases "fresh = []")
    case True
    have "and_below m tree names = names" for m
      by (induction m) (use True in \<open>simp_all add: fresh_def\<close>)
    with Suc.prems True show ?thesis by (auto simp: fresh_def filter_empty_conv)
  next
    case False
    then obtain r where r: "r \<in> set fresh" by (cases fresh) auto
    have "length (filter (\<lambda>o'. dn o' \<notin> set (names @ map dn fresh)) tree) < length (filter (\<lambda>o'. dn o' \<notin> set names) tree)"
    proof -
      have "filter (\<lambda>o'. dn o' \<notin> set (names @ map dn fresh)) tree
          = filter (\<lambda>o'. dn o' \<notin> dn ` set fresh) (filter (\<lambda>o'. dn o' \<notin> set names) tree)" by (auto intro: filter_cong)
      also have "length \<dots> < length (filter (\<lambda>o'. dn o' \<notin> set names) tree)"
        using r by (intro length_filter_less [of r]) (auto simp: fresh_def)
      finally show ?thesis .
    qed
    then have "length (filter (\<lambda>o'. dn o' \<notin> set (names @ map dn fresh)) tree) \<le> n" using Suc.prems(1) by simp
    then show ?thesis using Suc.IH [of "names @ map dn fresh"] Suc.prems by (simp add: fresh_def)
  qed
qed

lemma delete_objects_ok:
  assumes t: "tree_ok tree" and names: "\<forall>o' \<in> set tree. dn o' \<in> set names \<longrightarrow> source o' = Walk"
  shows "tree_ok (delete_objects names tree)"
    "set (delete_objects names tree) \<subseteq> set tree"
    "o' \<in> set tree \<Longrightarrow> source o' = Registry \<Longrightarrow> o' \<in> set (delete_objects names tree)"
    "dn o' \<in> set names \<Longrightarrow> o' \<notin> set (delete_objects names tree)"
proof -
  let ?gone = "set (and_below (length tree) tree names)"
  have set: "set (delete_objects names tree) = {o' \<in> set tree. dn o' \<notin> ?gone}"
    by (simp add: delete_objects_def set_delete_where)
  show "set (delete_objects names tree) \<subseteq> set tree" unfolding set by auto
  show "o' \<in> set tree \<Longrightarrow> source o' = Registry \<Longrightarrow> o' \<in> set (delete_objects names tree)"
    unfolding set using and_below_Walk [OF t names] by auto
  show "dn o' \<in> set names \<Longrightarrow> o' \<notin> set (delete_objects names tree)"
    unfolding set using and_below_grows by auto
  have "node_ok (delete_objects names tree) o1" if o1: "o1 \<in> set (delete_objects names tree)" for o1
  proof -
    have ok: "node_ok tree o1" using t o1 unfolding set tree_ok_def by auto
    have "q \<in> set (delete_objects names tree)" if q: "q \<in> set tree" "parent_dn o1 = Some (dn q)" for q
      using and_below_closed [of names tree "length tree" o1 "dn q"] q o1 unfolding set by (auto simp: length_filter_le)
    with ok show ?thesis unfolding node_ok_def by metis
  qed
  then show "tree_ok (delete_objects names tree)"
    using t by (simp add: tree_ok_def delete_objects_def distinct_map_delete_where)
qed


lemma each_ensure_walk:
  assumes chains: "\<And>name. name \<in> set names \<Longrightarrow> \<exists>paths. ancestors name = Inr paths \<and> set paths \<subseteq> W"
  shows "each (\<lambda>name. ensure ref name Walk) names tree = Inr tree' \<Longrightarrow> tree_ok tree \<Longrightarrow>
    tree_ok tree' \<and> set tree \<subseteq> set tree' \<and>
    (\<forall>name \<in> set names. \<exists>paths. ancestors name = Inr paths \<and> set paths \<subseteq> dn ` set tree') \<and>
    (\<forall>o' \<in> set tree'. (\<exists>q \<in> set tree. dn q = dn o' \<and> object_element q = object_element o' \<and> source o' \<in> {source q, Walk})
        \<or> dn o' \<in> W \<and> source o' = Walk)"
  using chains
proof (induction names arbitrary: tree)
  case (Cons name names)
  from Cons.prems(1) obtain t where t: "ensure ref name Walk tree = Inr t" "each (\<lambda>name. ensure ref name Walk) names t = Inr tree'"
    by (auto simp: and_then_Inr_iff)
  obtain paths where p: "ancestors name = Inr paths" "ensured Walk ref paths tree t" using ensure_ok [OF t(1) Cons.prems(2)] .
  have W: "set paths \<subseteq> W" using Cons.prems(3) [of name] p(1) by auto
  have t_ok: "tree_ok t" "set tree \<subseteq> set t" "set paths \<subseteq> dn ` set t" using p(2) by (simp_all add: ensured_def)
  have ih: "tree_ok tree'" "set t \<subseteq> set tree'"
    "\<forall>name \<in> set names. \<exists>paths. ancestors name = Inr paths \<and> set paths \<subseteq> dn ` set tree'"
    "\<And>o'. o' \<in> set tree' \<Longrightarrow> (\<exists>q \<in> set t. dn q = dn o' \<and> object_element q = object_element o' \<and> source o' \<in> {source q, Walk})
        \<or> dn o' \<in> W \<and> source o' = Walk"
    using Cons.IH [OF t(2) t_ok(1)] Cons.prems(3) by auto
  have "(\<exists>q \<in> set tree. dn q = dn o' \<and> object_element q = object_element o' \<and> source o' \<in> {source q, Walk}) \<or> dn o' \<in> W \<and> source o' = Walk"
    if o': "o' \<in> set tree'" for o'
    using ih(4) [OF o']
  proof (elim disjE bexE conjE)
    fix q assume q: "q \<in> set t" "dn q = dn o'" "object_element q = object_element o'" "source o' \<in> {source q, Walk}"
    have "(\<exists>r \<in> set tree. dn r = dn q \<and> object_element r = object_element q \<and> source q \<in> {source r, Walk}) \<or> dn q \<in> set paths \<and> source q = Walk"
      using p(2) q(1) unfolding ensured_def by blast
    then show ?thesis using q(2-4) W by (cases "source q") auto
  qed simp
  moreover have "set paths \<subseteq> dn ` set tree'" using t_ok(3) ih(2) by blast
  ultimately show ?case using ih t_ok(2) p(1) by auto
qed auto

text \<open>C27: A walk of an element makes the containment tree match the report and never drops what the registry vouches
  for: from a tree closed under parents, the result is closed under parents, every registry node is still there as it
  was, every object reported and each of its ancestors is there, and each node of the element that only a walk put
  there is one the report names or an ancestor of one.\<close>

theorem walk_matches_report:
  assumes t: "tree_ok tree" and w: "apply_walk ref paths tree = Inr tree'"
  shows "\<exists>chains. collect ancestors (walk_dns ref paths) = Inr chains \<and>
     tree_ok tree' \<and> {o' \<in> set tree. source o' = Registry} \<subseteq> set tree' \<and> set (concat chains) \<subseteq> dn ` set tree' \<and>
     dn ` {o' \<in> set tree'. object_element o' = ref \<and> source o' = Walk} \<subseteq> set (concat chains)"
proof -
  from w obtain chains where c: "collect ancestors (walk_dns ref paths) = Inr chains"
    by (auto simp: apply_walk_def and_then_Inr_iff)
  define removed where "removed = map dn (filter (\<lambda>o'. object_element o' = ref \<and> source o' = Walk \<and> dn o' \<notin> set (concat chains)) tree)"
  define t1 where "t1 = delete_objects removed tree"
  have run: "each (\<lambda>name. ensure ref name Walk) (walk_dns ref paths) t1 = Inr tree'"
    using w c by (simp add: apply_walk_def t1_def removed_def Let_def)
  have walked: "\<forall>o' \<in> set tree. dn o' \<in> set removed \<longrightarrow> source o' = Walk"
    using t by (auto simp: removed_def tree_ok_def dest: distinct_key_eq [of dn tree])
  note d = delete_objects_ok [OF t walked]
  have chains: "\<exists>paths. ancestors name = Inr paths \<and> set paths \<subseteq> set (concat chains)" if "name \<in> set (walk_dns ref paths)" for name
    using collect_set [OF c that] by auto
  note e = each_ensure_walk [OF chains run d(1) [folded t1_def]]
  have "set (concat chains) \<subseteq> dn ` set tree'"
  proof
    fix name assume "name \<in> set (concat chains)"
    then obtain p where p: "p \<in> set chains" "name \<in> set p" by auto
    from collect_Inr [OF c] p(1) obtain x where "x \<in> set (walk_dns ref paths)" "ancestors x = Inr p"
      unfolding list_all2_conv_all_nth in_set_conv_nth by metis
    then show "name \<in> dn ` set tree'" using e p(2) by fastforce
  qed
  moreover have "{o' \<in> set tree. source o' = Registry} \<subseteq> set tree'" using d(3) e unfolding t1_def by blast
  moreover have "dn o' \<in> set (concat chains)" if o': "o' \<in> set tree'" "object_element o' = ref" "source o' = Walk" for o'
  proof (rule ccontr)
    assume out: "dn o' \<notin> set (concat chains)"
    then obtain q where q: "q \<in> set t1" "dn q = dn o'" "object_element q = ref" using e o' by auto
    have qt: "q \<in> set tree" using q(1) d(2) unfolding t1_def by blast
    show False
    proof (cases "source q")
      case Registry
      then have "q \<in> set tree'" using e q(1) by blast
      then have "q = o'" using e o'(1) q(2) distinct_key_eq [of dn tree' q o'] by (simp add: tree_ok_def)
      then show False using o'(3) Registry by simp
    next
      case Walk
      then have "dn q \<in> set removed"
        unfolding removed_def set_map by (intro imageI) (use qt q out in simp)
      then show False using d(4) q(1) unfolding t1_def by blast
    qed
  qed
  ultimately show ?thesis using c e by blast
qed


definition demo_tree :: "managed_object list" where
  "demo_tree = [\<lparr>dn = ''ManagedElement=A'', parent_dn = None, object_class = ''ManagedElement'', object_id = ''A'',
      object_element = ''A'', source = Registry\<rparr>]"

lemma demo_tree_ok: "tree_ok demo_tree"
proof -
  have "node_ok demo_tree \<lparr>dn = ''ManagedElement=A'', parent_dn = None, object_class = ''ManagedElement'', object_id = ''A'',
      object_element = ''A'', source = Registry\<rparr>"
    unfolding node_ok_def
    by (intro conjI exI [of _ "[(''ManagedElement'', ''A'')]"])
       (simp_all add: name_of_def rdn_text_def parent_rdns_def good_rdn_def class_name_def alnum_def strip_def blank_def)
  then show ?thesis by (simp add: tree_ok_def demo_tree_def)
qed

theorem walk_matches_report_witness:
  "\<exists>tree'. apply_walk ''A'' [''GNBDUFunction=1''] demo_tree = Inr tree' \<and> tree_ok tree' \<and> length tree' = 2"
proof -
  have run: "apply_walk ''A'' [''GNBDUFunction=1''] demo_tree = Inr (demo_tree @
      [\<lparr>dn = ''ManagedElement=A,GNBDUFunction=1'', parent_dn = Some ''ManagedElement=A'', object_class = ''GNBDUFunction'',
        object_id = ''1'', object_element = ''A'', source = Walk\<rparr>])"
    by code_simp
  from walk_matches_report [OF demo_tree_ok run] show ?thesis using run by (auto simp: demo_tree_def)
qed

end
