(* ===== verification/Msac.thy ===== *)
theory Msac
  imports Ldn Errors
begin

section \<open>Management service access control (ran-nf-oam/app/msac.py)\<close>

text \<open>
  Identities name roles, roles list access rules, and a rule allows or denies operations on the
  objects its selector matches. The lists of ids are JSON columns, so nothing but the routes keeps
  them pointing at rows that exist. The stored credential hash is its only trace of the secret; the
  hash is a parameter.
\<close>

datatype msac_operation = Create | Read | Update | Delete | Exec
datatype rule_action = ALLOW | DENY

record access_rule =
  rule_id :: uid
  rule_name :: string
  data_node_selector :: string
  rule_operations :: "msac_operation list"
  rule_action :: rule_action
  component_c_data :: "string list"

record msac_role =
  role_id :: uid
  role_name :: string
  access_rules_list :: "uid list"

record msac_identity =
  identity_id :: uid
  identity_type :: string
  identity_name :: string
  credential_hash :: "string option"
  role_list :: "uid list"

record msac_store =
  access_rules :: "access_rule list"
  roles :: "msac_role list"
  identities :: "msac_identity list"

definition get_rule :: "msac_store \<Rightarrow> uid \<Rightarrow> access_rule option" where
  "get_rule db i = row_where (\<lambda>r. rule_id r = i) (access_rules db)"

definition get_role :: "msac_store \<Rightarrow> uid \<Rightarrow> msac_role option" where
  "get_role db i = row_where (\<lambda>r. role_id r = i) (roles db)"

definition get_identity :: "msac_store \<Rightarrow> uid \<Rightarrow> msac_identity option" where
  "get_identity db i = row_where (\<lambda>r. identity_id r = i) (identities db)"

subsection \<open>Targets and selectors\<close>

text \<open>The edit-config operation and the one it needs here.\<close>

definition CONFIG_OPERATION :: "string \<rightharpoonup> msac_operation" where
  "CONFIG_OPERATION = [''merge'' \<mapsto> Update, ''replace'' \<mapsto> Update, ''create'' \<mapsto> Create, ''delete'' \<mapsto> Delete, ''remove'' \<mapsto> Delete]"

definition target_path :: "string \<Rightarrow> string option \<Rightarrow> py_error + string" where
  "target_path ref function =
     and_then (if CHR ''='' \<in> set ref then and_then (parse_ldn ref) (\<lambda>rdns. Inr (map rdn_text rdns))
               else Inr [''ManagedElement='' @ ref]) (\<lambda>element.
     and_then (case or_none function of
                 None \<Rightarrow> Inr []
               | Some f \<Rightarrow> if CHR ''='' \<in> set f then and_then (parse_ldn f) (\<lambda>rdns. Inr (map rdn_text rdns)) else Inr [f]) (\<lambda>below.
     Inr (''/'' @ join_with (CHR ''/'') (element @ below))))"

text \<open>A star stands for any text without a newline, every other character for itself.\<close>

fun glob :: "string \<Rightarrow> string \<Rightarrow> bool" where
  "glob [] t = (t = [])"
| "glob (p # ps) t =
     (if p = CHR ''*'' then glob ps t \<or> (case t of [] \<Rightarrow> False | ch # t' \<Rightarrow> ch \<noteq> CHR 0x0A \<and> glob (p # ps) t')
      else (case t of [] \<Rightarrow> False | ch # t' \<Rightarrow> ch = p \<and> glob ps t'))"

definition selects :: "string \<Rightarrow> string \<Rightarrow> bool" where
  "selects selector target =
     (let stripped = rstrip_char (CHR ''/'') selector in glob (if stripped = [] then ''/*'' else stripped) target)"

text \<open>\<open>_SEGMENT\<close>: a class, an equals sign and an id without the characters of a Jex expression, or a lone star, after
  which the dollar of the expression allows one newline.\<close>

definition segment_ok :: "string \<Rightarrow> bool" where
  "segment_ok seg \<longleftrightarrow> seg \<in> {''*'', [CHR ''*'', CHR 0x0A]} \<or>
     (case partition_at (CHR ''='') seg of (cls, sep, ident) \<Rightarrow>
        sep \<and> ident \<noteq> [] \<and> list_all (\<lambda>ch. ch \<notin> {CHR ''/'', CHR ''['', CHR '']'', CHR ''@'', CHR 0x27, CHR 0x22}) ident \<and>
        (case cls of [] \<Rightarrow> False
         | ch # rest \<Rightarrow> (alnum ch \<and> \<not> (CHR ''0'' \<le> ch \<and> ch \<le> CHR ''9'') \<or> ch \<in> {CHR ''_'', CHR ''*''})
             \<and> list_all (\<lambda>c. alnum c \<or> c \<in> {CHR ''_'', CHR ''*''}) rest))"

definition check_selector :: "string \<Rightarrow> http_error + unit" where
  "check_selector selector =
     (case selector of
        [] \<Rightarrow> Inl SCHEMA_VALIDATION_FAILED
      | ch # rest \<Rightarrow>
          if ch \<noteq> CHR ''/'' then Inl SCHEMA_VALIDATION_FAILED
          else let parts = split_on (CHR ''/'') rest;
                   segments = (if last parts = [] then butlast parts else parts)
               in if list_all segment_ok segments then Inr () else Inl SCHEMA_VALIDATION_FAILED)"

subsection \<open>The decision\<close>

definition rules_of :: "msac_store \<Rightarrow> msac_role list \<Rightarrow> access_rule list" where
  "rules_of db rs = List.map_filter (get_rule db) (remdups (concat (map access_rules_list rs)))"

definition resolve_roles :: "msac_store \<Rightarrow> string \<Rightarrow> string option \<Rightarrow> bool \<times> msac_role list" where
  "resolve_roles db requested_by msac_role =
     (let identity = row_where (\<lambda>i. identity_name i = requested_by) (identities db);
          own = List.map_filter (get_role db) (case identity of None \<Rightarrow> [] | Some i \<Rightarrow> role_list i);
          named = (case or_none msac_role of None \<Rightarrow> None | Some n \<Rightarrow> row_where (\<lambda>r. role_name r = n) (roles db))
      in (identity \<noteq> None \<or> named \<noteq> None,
          case named of None \<Rightarrow> own | Some r \<Rightarrow> if r \<in> set own then own else own @ [r]))"

definition authorize :: "msac_store \<Rightarrow> msac_role list \<Rightarrow> string \<Rightarrow> msac_operation \<Rightarrow> bool" where
  "authorize db rs target operation =
     (let matched = filter (\<lambda>r. operation \<in> set (rule_operations r) \<and> selects (data_node_selector r) target) (rules_of db rs)
      in if list_ex (\<lambda>r. rule_action r = DENY) matched then False else list_ex (\<lambda>r. rule_action r = ALLOW) matched)"

definition reach_on :: "string option \<Rightarrow> bool" where
  "reach_on setting = (lower (strip (case setting of None \<Rightarrow> [] | Some v \<Rightarrow> v)) \<in> {''1'', ''true'', ''yes'', ''on''})"

text \<open>The caller's roles when the switch is on and the caller is a registered identity.\<close>

definition managed_roles :: "bool \<Rightarrow> msac_store \<Rightarrow> string option \<Rightarrow> msac_role list option" where
  "managed_roles reach db requester =
     (if \<not> reach then None
      else case or_none requester of None \<Rightarrow> None
           | Some who \<Rightarrow> (case resolve_roles db who None of (managed, rs) \<Rightarrow> if managed then Some rs else None))"

definition may_read :: "bool \<Rightarrow> msac_store \<Rightarrow> string option \<Rightarrow> string \<Rightarrow> py_error + bool" where
  "may_read reach db requester ref =
     (case managed_roles reach db requester of
        None \<Rightarrow> Inr True
      | Some rs \<Rightarrow> and_then (target_path ref None) (\<lambda>target. Inr (authorize db rs target Read)))"

definition may_read_everywhere :: "bool \<Rightarrow> msac_store \<Rightarrow> string option \<Rightarrow> bool" where
  "may_read_everywhere reach db requester =
     (case managed_roles reach db requester of None \<Rightarrow> True | Some rs \<Rightarrow> authorize db rs ''/'' Read)"

definition unreadable_elements :: "bool \<Rightarrow> msac_store \<Rightarrow> string option \<Rightarrow> string list \<Rightarrow> py_error + string list" where
  "unreadable_elements reach db requester refs =
     (case managed_roles reach db requester of
        None \<Rightarrow> Inr []
      | Some rs \<Rightarrow>
          and_then (collect (\<lambda>ref. and_then (target_path ref None) (\<lambda>target. Inr (ref, authorize db rs target Read))) (remdups refs))
            (\<lambda>asked. Inr (map fst (filter (\<lambda>(ref, ok). \<not> ok) asked))))"

text \<open>\<open>readable\<close>: a list route without the rows of those elements.\<close>

definition readable :: "bool \<Rightarrow> msac_store \<Rightarrow> string option \<Rightarrow> ('r \<Rightarrow> string) \<Rightarrow> 'r list \<Rightarrow> py_error + 'r list" where
  "readable reach db requester column rows =
     and_then (unreadable_elements reach db requester (map column rows)) (\<lambda>hidden.
       Inr (filter (\<lambda>r. column r \<notin> set hidden) rows))"

subsection \<open>The routes that change rules, roles and identities\<close>

definition operation_text :: "msac_operation \<Rightarrow> string" where
  "operation_text op = (case op of Create \<Rightarrow> ''create'' | Read \<Rightarrow> ''read'' | Update \<Rightarrow> ''update'' | Delete \<Rightarrow> ''delete'' | Exec \<Rightarrow> ''exec'')"

definition require_refs :: "uid list \<Rightarrow> uid list \<Rightarrow> http_error + unit" where
  "require_refs known ids = (if list_ex (\<lambda>i. i \<notin> set known) ids then Inl SCHEMA_VALIDATION_FAILED else Inr ())"

definition create_access_rule ::
  "string \<Rightarrow> string \<Rightarrow> msac_operation list \<Rightarrow> rule_action \<Rightarrow> string list \<Rightarrow> msac_store \<Rightarrow> http_error + msac_store" where
  "create_access_rule name selector operations act component db =
     and_then (check_selector selector) (\<lambda>_.
       Inr (db\<lparr>access_rules := access_rules db @
         [\<lparr>rule_id = fresh_id (map rule_id (access_rules db)), rule_name = name, data_node_selector = selector,
           rule_operations = sort_key operation_text (remdups operations), rule_action = act,
           component_c_data = sort (remdups component)\<rparr>]\<rparr>))"

definition delete_access_rule :: "uid \<Rightarrow> msac_store \<Rightarrow> http_error + msac_store" where
  "delete_access_rule i db =
     (if get_rule db i = None then Inr db
      else Inr (db\<lparr>roles := map (\<lambda>r. r\<lparr>access_rules_list := filter (\<lambda>k. k \<noteq> i) (access_rules_list r)\<rparr>) (roles db),
                  access_rules := delete_where (\<lambda>r. rule_id r = i) (access_rules db)\<rparr>))"

definition create_role :: "string \<Rightarrow> uid list \<Rightarrow> msac_store \<Rightarrow> http_error + msac_store" where
  "create_role name rules db =
     and_then (require_refs (map rule_id (access_rules db)) rules) (\<lambda>_.
       if name \<in> role_name ` set (roles db) then Inl SCHEMA_VALIDATION_FAILED
       else Inr (db\<lparr>roles := roles db @
         [\<lparr>role_id = fresh_id (map role_id (roles db)), role_name = name, access_rules_list = rules\<rparr>]\<rparr>))"

text \<open>The new name is not compared with the others; the unique constraint is, at the commit.\<close>

definition replace_role :: "uid \<Rightarrow> string \<Rightarrow> uid list \<Rightarrow> msac_store \<Rightarrow> http_error + msac_store" where
  "replace_role i name rules db =
     (case get_role db i of
        None \<Rightarrow> Inl NRM_OBJECT_NOT_FOUND
      | Some row \<Rightarrow>
          and_then (require_refs (map rule_id (access_rules db)) rules) (\<lambda>_.
            if list_ex (\<lambda>r. role_id r \<noteq> i \<and> role_name r = name) (roles db) then Inl RESOURCE_ALREADY_EXISTS
            else Inr (db\<lparr>roles := update_where (\<lambda>r. role_id r = i) (\<lambda>r. r\<lparr>role_name := name, access_rules_list := rules\<rparr>) (roles db)\<rparr>)))"

definition delete_role :: "uid \<Rightarrow> msac_store \<Rightarrow> http_error + msac_store" where
  "delete_role i db =
     (if get_role db i = None then Inr db
      else Inr (db\<lparr>identities := map (\<lambda>k. k\<lparr>role_list := filter (\<lambda>r. r \<noteq> i) (role_list k)\<rparr>) (identities db),
                  roles := delete_where (\<lambda>r. role_id r = i) (roles db)\<rparr>))"

definition create_identity ::
  "(string \<Rightarrow> string) \<Rightarrow> string \<Rightarrow> string \<Rightarrow> string option \<Rightarrow> uid list \<Rightarrow> msac_store \<Rightarrow> http_error + msac_store" where
  "create_identity hash kind name credential rs db =
     and_then (require_refs (map role_id (roles db)) rs) (\<lambda>_.
       if name \<in> identity_name ` set (identities db) then Inl SCHEMA_VALIDATION_FAILED
       else Inr (db\<lparr>identities := identities db @
         [\<lparr>identity_id = fresh_id (map identity_id (identities db)), identity_type = kind, identity_name = name,
           credential_hash = map_option hash (or_none credential), role_list = rs\<rparr>]\<rparr>))"

definition replace_identity ::
  "(string \<Rightarrow> string) \<Rightarrow> uid \<Rightarrow> string \<Rightarrow> string \<Rightarrow> string option \<Rightarrow> uid list \<Rightarrow> msac_store \<Rightarrow> http_error + msac_store" where
  "replace_identity hash i kind name credential rs db =
     (case get_identity db i of
        None \<Rightarrow> Inl NRM_OBJECT_NOT_FOUND
      | Some row \<Rightarrow>
          and_then (require_refs (map role_id (roles db)) rs) (\<lambda>_.
            if list_ex (\<lambda>k. identity_id k \<noteq> i \<and> identity_name k = name) (identities db) then Inl RESOURCE_ALREADY_EXISTS
            else Inr (db\<lparr>identities := update_where (\<lambda>k. identity_id k = i)
                (\<lambda>k. k\<lparr>identity_type := kind, identity_name := name, role_list := rs,
                        credential_hash := (case or_none credential of None \<Rightarrow> credential_hash k | Some c \<Rightarrow> Some (hash c))\<rparr>)
                (identities db)\<rparr>)))"

definition delete_identity :: "uid \<Rightarrow> msac_store \<Rightarrow> http_error + msac_store" where
  "delete_identity i db = Inr (db\<lparr>identities := delete_where (\<lambda>k. identity_id k = i) (identities db)\<rparr>)"

text \<open>One request of the router, and the stores its requests can reach.\<close>

datatype msac_request =
    CreateAccessRule string string "msac_operation list" rule_action "string list"
  | DeleteAccessRule uid
  | CreateRole string "uid list"
  | ReplaceRole uid string "uid list"
  | DeleteRole uid
  | CreateIdentity string string "string option" "uid list"
  | ReplaceIdentity uid string string "string option" "uid list"
  | DeleteIdentity uid

fun msac_route :: "(string \<Rightarrow> string) \<Rightarrow> msac_request \<Rightarrow> msac_store \<Rightarrow> http_error + msac_store" where
  "msac_route hash (CreateAccessRule name selector operations act component) = create_access_rule name selector operations act component"
| "msac_route hash (DeleteAccessRule i) = delete_access_rule i"
| "msac_route hash (CreateRole name rules) = create_role name rules"
| "msac_route hash (ReplaceRole i name rules) = replace_role i name rules"
| "msac_route hash (DeleteRole i) = delete_role i"
| "msac_route hash (CreateIdentity kind name credential rs) = create_identity hash kind name credential rs"
| "msac_route hash (ReplaceIdentity i kind name credential rs) = replace_identity hash i kind name credential rs"
| "msac_route hash (DeleteIdentity i) = delete_identity i"

inductive msac_reach :: "(string \<Rightarrow> string) \<Rightarrow> msac_store \<Rightarrow> bool" for hash where
  empty: "msac_reach hash \<lparr>access_rules = [], roles = [], identities = []\<rparr>"
| route: "msac_reach hash db \<Longrightarrow> msac_route hash request db = Inr db' \<Longrightarrow> msac_reach hash db'"

subsection \<open>The lists of ids point at rows that exist\<close>

text \<open>A table with a key, a unique name and a list of ids, all of them allowed.\<close>

definition listed :: "('r \<Rightarrow> uid) \<Rightarrow> ('r \<Rightarrow> string) \<Rightarrow> ('r \<Rightarrow> uid list) \<Rightarrow> uid set \<Rightarrow> 'r list \<Rightarrow> bool" where
  "listed key name ids allowed rows \<longleftrightarrow>
     distinct (map key rows) \<and> distinct (map name rows) \<and> (\<forall>r \<in> set rows. set (ids r) \<subseteq> allowed)"

lemma listed_add:
  "listed key name ids A rows \<Longrightarrow> key r = fresh_id (map key rows) \<Longrightarrow> name r \<notin> name ` set rows \<Longrightarrow> set (ids r) \<subseteq> A \<Longrightarrow>
     listed key name ids A (rows @ [r])"
  using fresh_id_notin [of "map key rows"] by (auto simp: listed_def)

lemma listed_update:
  assumes "listed key name ids A rows" "\<And>r. r \<in> set rows \<Longrightarrow> key r \<noteq> i \<Longrightarrow> name r \<noteq> n"
    "\<And>r. key (f r) = key r" "\<And>r. name (f r) = n" "\<And>r. set (ids (f r)) \<subseteq> A"
  shows "listed key name ids A (update_where (\<lambda>r. key r = i) f rows)"
proof -
  have "distinct (map name (update_where (\<lambda>r. key r = i) f rows))" if "distinct (map key rows)" "distinct (map name rows)"
    using that assms(2) by (induction rows) (auto simp: update_where_def image_iff assms(4))
  moreover have "map key (update_where (\<lambda>r. key r = i) f rows) = map key rows" by (rule map_update_where) (rule assms(3))
  ultimately show ?thesis using assms(1,5) by (auto simp: listed_def set_update_where)
qed

lemma listed_delete: "listed key name ids A rows \<Longrightarrow> listed key name ids A (delete_where P rows)"
  by (simp add: listed_def distinct_map_delete_where set_delete_where)

lemma listed_more: "listed key name ids A rows \<Longrightarrow> listed key name ids (insert i A) rows"
  by (auto simp: listed_def)

lemma list_all_delete: "list_all P rows \<Longrightarrow> list_all P (delete_where Q rows)"
  by (simp add: list_all_iff set_delete_where)

lemma listed_less:
  assumes "listed key name ids A rows" "\<And>r. key (f r) = key r" "\<And>r. name (f r) = name r" "\<And>r. set (ids (f r)) = set (ids r) - {i}"
  shows "listed key name ids (A - {i}) (map f rows)"
  using assms by (auto simp: listed_def comp_def)

definition lists_resolve :: "msac_store \<Rightarrow> bool" where
  "lists_resolve db \<longleftrightarrow>
     distinct (map rule_id (access_rules db)) \<and> list_all (\<lambda>r. check_selector (data_node_selector r) = Inr ()) (access_rules db) \<and>
     listed role_id role_name access_rules_list (rule_id ` set (access_rules db)) (roles db) \<and>
     listed identity_id identity_name role_list (role_id ` set (roles db)) (identities db)"

lemma require_refs_ok: "require_refs (map key rows) ids = Inr u \<longleftrightarrow> set ids \<subseteq> key ` set rows"
  by (auto simp: require_refs_def list_ex_iff)

lemma ids_after_delete: "key ` set (delete_where (\<lambda>r. key r = i) rows) = key ` set rows - {i}"
  by (auto simp: set_delete_where)

lemma ids_after_update: "(\<And>r. key (f r) = key r) \<Longrightarrow> key ` set (update_where P f rows) = key ` set rows"
  by (metis map_update_where set_map)

lemma create_rule_resolves:
  assumes r: "lists_resolve db" and c: "create_access_rule name selector operations act component db = Inr db'"
  shows "lists_resolve db'"
  using r c fresh_id_notin [of "map rule_id (access_rules db)"]
  by (auto simp: create_access_rule_def lists_resolve_def and_then_Inr_iff intro!: listed_more)

lemma delete_rule_resolves:
  assumes r: "lists_resolve db" and c: "delete_access_rule i db = Inr db'"
  shows "lists_resolve db'"
proof -
  have "listed role_id role_name access_rules_list (rule_id ` set (access_rules db) - {i})
      (map (\<lambda>r. r\<lparr>access_rules_list := filter (\<lambda>k. k \<noteq> i) (access_rules_list r)\<rparr>) (roles db))"
    by (rule listed_less) (use r in \<open>auto simp: lists_resolve_def\<close>)
  then show ?thesis
    using r c by (auto simp: delete_access_rule_def lists_resolve_def ids_after_delete image_image distinct_map_delete_where list_all_delete
        simp del: set_map split: if_splits) (simp add: image_image)
qed

lemma create_role_resolves:
  assumes r: "lists_resolve db" and c: "create_role name rules db = Inr db'"
  shows "lists_resolve db'"
proof -
  from c have "set rules \<subseteq> rule_id ` set (access_rules db)" "name \<notin> role_name ` set (roles db)"
    and db': "db' = db\<lparr>roles := roles db @ [\<lparr>role_id = fresh_id (map role_id (roles db)), role_name = name, access_rules_list = rules\<rparr>]\<rparr>"
    by (auto simp: create_role_def and_then_Inr_iff require_refs_ok split: if_splits)
  with r show ?thesis unfolding db' lists_resolve_def by (simp add: listed_add listed_more)
qed

lemma replace_role_resolves:
  assumes r: "lists_resolve db" and c: "replace_role i name rules db = Inr db'"
  shows "lists_resolve db'"
proof -
  from c have "set rules \<subseteq> rule_id ` set (access_rules db)" "\<forall>r \<in> set (roles db). role_id r \<noteq> i \<longrightarrow> role_name r \<noteq> name"
    and db': "db' = db\<lparr>roles := update_where (\<lambda>r. role_id r = i) (\<lambda>r. r\<lparr>role_name := name, access_rules_list := rules\<rparr>) (roles db)\<rparr>"
    by (auto simp: replace_role_def and_then_Inr_iff require_refs_ok list_ex_iff split: option.splits if_splits)
  with r show ?thesis unfolding db' lists_resolve_def by (simp add: listed_update [where n = name] ids_after_update)
qed

lemma delete_role_resolves:
  assumes r: "lists_resolve db" and c: "delete_role i db = Inr db'"
  shows "lists_resolve db'"
proof -
  have "listed identity_id identity_name role_list (role_id ` set (roles db) - {i})
      (map (\<lambda>k. k\<lparr>role_list := filter (\<lambda>r. r \<noteq> i) (role_list k)\<rparr>) (identities db))"
    by (rule listed_less) (use r in \<open>auto simp: lists_resolve_def\<close>)
  then show ?thesis
    using r c by (auto simp: delete_role_def lists_resolve_def ids_after_delete listed_delete split: if_splits)
qed

lemma create_identity_resolves:
  assumes r: "lists_resolve db" and c: "create_identity hash kind name credential rs db = Inr db'"
  shows "lists_resolve db'"
proof -
  from c have "set rs \<subseteq> role_id ` set (roles db)" "name \<notin> identity_name ` set (identities db)"
    and db': "db' = db\<lparr>identities := identities db @
         [\<lparr>identity_id = fresh_id (map identity_id (identities db)), identity_type = kind, identity_name = name,
           credential_hash = map_option hash (or_none credential), role_list = rs\<rparr>]\<rparr>"
    by (auto simp: create_identity_def and_then_Inr_iff require_refs_ok split: if_splits)
  with r show ?thesis unfolding db' lists_resolve_def by (simp add: listed_add)
qed

lemma replace_identity_resolves:
  assumes r: "lists_resolve db" and c: "replace_identity hash i kind name credential rs db = Inr db'"
  shows "lists_resolve db'"
proof -
  from c have "set rs \<subseteq> role_id ` set (roles db)" "\<forall>k \<in> set (identities db). identity_id k \<noteq> i \<longrightarrow> identity_name k \<noteq> name"
    and db': "db' = db\<lparr>identities := update_where (\<lambda>k. identity_id k = i)
                (\<lambda>k. k\<lparr>identity_type := kind, identity_name := name, role_list := rs,
                        credential_hash := (case or_none credential of None \<Rightarrow> credential_hash k | Some c \<Rightarrow> Some (hash c))\<rparr>)
                (identities db)\<rparr>"
    by (auto simp: replace_identity_def and_then_Inr_iff require_refs_ok list_ex_iff split: option.splits if_splits)
  with r show ?thesis unfolding db' lists_resolve_def by (simp add: listed_update [where n = name])
qed

lemma delete_identity_resolves: "lists_resolve db \<Longrightarrow> delete_identity i db = Inr db' \<Longrightarrow> lists_resolve db'"
  by (auto simp: delete_identity_def lists_resolve_def intro!: listed_delete)

lemmas route_resolves = create_rule_resolves delete_rule_resolves create_role_resolves replace_role_resolves delete_role_resolves
  create_identity_resolves replace_identity_resolves delete_identity_resolves

lemma reach_resolves: "msac_reach hash db \<Longrightarrow> lists_resolve db"
proof (induction rule: msac_reach.induct)
  case (route db request db')
  then show ?case by (cases request) (auto intro: route_resolves)
qed (simp add: lists_resolve_def listed_def)


subsection \<open>Which selector selects the root\<close>

lemma glob_stars: "glob ps [] \<longleftrightarrow> set ps \<subseteq> {CHR ''*''}"
  by (induction ps) auto

lemma glob_star: "CHR 0x0A \<notin> set t \<Longrightarrow> glob ''*'' t"
  by (induction t) auto

lemma rstrip_char_last: "rstrip_char c s \<noteq> [] \<Longrightarrow> last (rstrip_char c s) \<noteq> c"
  using hd_dropWhile [of "\<lambda>ch. ch = c" "rev s"] by (auto simp: rstrip_char_def last_rev)

lemma rstrip_char_split: "\<exists>n. s = rstrip_char c s @ replicate n c"
proof -
  have "rev s = takeWhile (\<lambda>ch. ch = c) (rev s) @ dropWhile (\<lambda>ch. ch = c) (rev s)" by simp
  then have "s = rstrip_char c s @ rev (takeWhile (\<lambda>ch. ch = c) (rev s))" by (metis rev_append rev_rev_ident rstrip_char_def)
  moreover have "takeWhile (\<lambda>ch. ch = c) (rev s) = replicate (length (takeWhile (\<lambda>ch. ch = c) (rev s))) c"
    by (metis (full_types) replicate_length_same set_takeWhileD)
  ultimately show ?thesis by (metis rev_replicate)
qed

lemma split_on_snoc: "c \<notin> set l \<Longrightarrow> split_on c (l @ replicate n c) = l # replicate n []"
proof (induction l)
  case Nil
  show ?case by (induction n) auto
qed (auto split: list.splits)

text \<open>A selector the router accepts and that selects the root is the catch-all.\<close>

lemma root_selector:
  assumes ok: "check_selector s = Inr ()" and root: "selects s ''/''" and t: "CHR 0x0A \<notin> set t"
  shows "selects s (CHR ''/'' # t)"
proof (cases "rstrip_char (CHR ''/'') s = []")
  case True
  then show ?thesis using glob_star [OF t] by (simp add: selects_def)
next
  case False
  define p where "p = rstrip_char (CHR ''/'') s"
  obtain n where s: "s = p @ replicate n (CHR ''/'')" using rstrip_char_split [of s "CHR ''/''"] by (auto simp: p_def)
  obtain ps where p: "p = CHR ''/'' # ps"
  proof (cases p)
    case (Cons ch ps)
    then show ?thesis using ok s that by (auto simp: check_selector_def split: if_splits)
  qed (use False in \<open>simp add: p_def\<close>)
  have "set ps \<subseteq> {CHR ''*''}" using root False glob_stars [of ps] by (simp add: selects_def p_def [symmetric] p)
  moreover have "ps \<noteq> []" using rstrip_char_last [OF False] by (auto simp: p_def [symmetric] p)
  ultimately obtain m where ps: "ps = replicate (Suc m) (CHR ''*'')"
    by (metis length_0_conv not0_implies_Suc replicate_length_same singletonD subset_eq)
  have parts: "split_on (CHR ''/'') (ps @ replicate n (CHR ''/'')) = ps # replicate n []" by (rule split_on_snoc) (simp add: ps)
  have "list_all segment_ok (if last (ps # replicate n []) = [] then butlast (ps # replicate n []) else ps # replicate n [])"
    using ok unfolding s p check_selector_def by (simp only: append_Cons list.case parts Let_def) (simp split: if_splits)
  then have "segment_ok ps" using \<open>ps \<noteq> []\<close> by (cases n) (auto split: if_splits)
  then have "ps = ''*''" using ps by (cases m) (auto simp: segment_ok_def partition_at_def)
  then show ?thesis using glob_star [OF t] False by (simp add: selects_def p_def [symmetric] p)
qed

lemma rules_of_stored: "r \<in> set (rules_of db rs) \<Longrightarrow> r \<in> set (access_rules db)"
  by (auto simp: rules_of_def List.map_filter_def get_rule_def dest: row_where_SomeD split: option.splits)

definition matching :: "msac_store \<Rightarrow> msac_role list \<Rightarrow> string \<Rightarrow> msac_operation \<Rightarrow> rule_action \<Rightarrow> bool" where
  "matching db rs target operation act \<longleftrightarrow>
     (\<exists>r \<in> set (rules_of db rs). rule_action r = act \<and> operation \<in> set (rule_operations r) \<and> selects (data_node_selector r) target)"

lemma authorize_iff: "authorize db rs target operation \<longleftrightarrow> matching db rs target operation ALLOW \<and> \<not> matching db rs target operation DENY"
  by (auto simp: authorize_def matching_def list_ex_iff Let_def)

subsection \<open>Claims\<close>

text \<open>C28: The id lists of roles and identities, JSON columns no foreign key guards, always resolve: in every store the
  router's requests can reach, every rule a role lists and every role an identity lists exists, no two roles and no two
  identities share a name, and every stored selector is one the evaluation understands.\<close>

theorem access_lists_resolve:
  assumes "msac_reach hash db"
  shows "list_all (\<lambda>r. list_all (\<lambda>i. get_rule db i \<noteq> None) (access_rules_list r)) (roles db) \<and>
    list_all (\<lambda>k. list_all (\<lambda>i. get_role db i \<noteq> None) (role_list k)) (identities db) \<and>
    distinct (map role_name (roles db)) \<and> distinct (map identity_name (identities db)) \<and>
    list_all (\<lambda>r. check_selector (data_node_selector r) = Inr ()) (access_rules db)"
  using reach_resolves [OF assms]
  by (force simp: lists_resolve_def listed_def list_all_iff get_rule_def get_role_def row_where_None)

definition demo_requests :: "msac_request list" where
  "demo_requests = [CreateAccessRule ''all'' ''/*'' [Read, Update] ALLOW [], CreateAccessRule ''core'' ''/ManagedElement=core'' [Update] DENY [],
     CreateRole ''ops'' [1, 2], CreateIdentity ''USERNAME'' ''ann'' None [1], DeleteAccessRule 1]"

fun msac_run :: "(string \<Rightarrow> string) \<Rightarrow> msac_request list \<Rightarrow> msac_store \<Rightarrow> http_error + msac_store" where
  "msac_run hash [] db = Inr db"
| "msac_run hash (q # qs) db = and_then (msac_route hash q db) (msac_run hash qs)"

lemma msac_run_reach: "msac_run hash qs db = Inr db' \<Longrightarrow> msac_reach hash db \<Longrightarrow> msac_reach hash db'"
  by (induction qs arbitrary: db) (auto simp: and_then_Inr_iff intro: msac_reach.route)

definition demo_access :: "nat \<Rightarrow> msac_store" where
  "demo_access n = (case msac_run id (take n demo_requests) \<lparr>access_rules = [], roles = [], identities = []\<rparr> of Inr db \<Rightarrow> db | Inl _ \<Rightarrow> \<lparr>access_rules = [], roles = [], identities = []\<rparr>)"

lemma demo_access_reach: "msac_reach id (demo_access n)"
  by (auto simp: demo_access_def intro: msac_reach.empty msac_run_reach split: sum.split)

theorem access_lists_resolve_witness:
  "map access_rules_list (roles (demo_access 5)) = [[2]] \<and> distinct (map role_name (roles (demo_access 5)))"
proof -
  have "map access_rules_list (roles (demo_access 5)) = [[2]]" by code_simp
  then show ?thesis using access_lists_resolve [OF demo_access_reach [of 5]] by blast
qed

text \<open>C29: An identity that may do something everywhere is refused an object only by a rule that denies it: the root is
  selected by the catch-all alone, so in every reachable store, if the roles allow an operation on the root then for each
  object below it (a path without a newline) they allow it or one of their rules denies that object that operation.\<close>

theorem whole_network_means_every_object:
  assumes "msac_reach hash db" "authorize db rs ''/'' operation" "CHR 0x0A \<notin> set path"
  shows "authorize db rs (CHR ''/'' # path) operation \<or> matching db rs (CHR ''/'' # path) operation DENY"
proof -
  from assms(2) obtain r where r: "r \<in> set (rules_of db rs)" "rule_action r = ALLOW" "operation \<in> set (rule_operations r)"
      "selects (data_node_selector r) ''/''"
    by (auto simp: authorize_iff matching_def)
  have "check_selector (data_node_selector r) = Inr ()"
    using reach_resolves [OF assms(1)] rules_of_stored [OF r(1)] by (simp add: lists_resolve_def list_all_iff)
  then have "selects (data_node_selector r) (CHR ''/'' # path)" using root_selector r(4) assms(3) by blast
  then show ?thesis using r unfolding authorize_iff matching_def by blast
qed

theorem whole_network_means_every_object_witness:
  "authorize (demo_access 4) (roles (demo_access 4)) ''/ManagedElement=core'' Update \<or>
   matching (demo_access 4) (roles (demo_access 4)) ''/ManagedElement=core'' Update DENY"
proof -
  have "authorize (demo_access 4) (roles (demo_access 4)) ''/'' Update" by code_simp
  then show ?thesis using whole_network_means_every_object [OF demo_access_reach [of 4], of "roles (demo_access 4)" Update "''ManagedElement=core''"]
    by simp
qed

text \<open>Naming a role in the request never lifts a refusal: when a rule of the identity's own roles denies an operation
  on a target, the identity stays refused whatever role the request names beside them.\<close>

theorem named_role_never_lifts_deny:
  assumes "matching db (snd (resolve_roles db who None)) target operation DENY"
  shows "\<not> authorize db (snd (resolve_roles db who named)) target operation"
proof -
  have "set (rules_of db (snd (resolve_roles db who None))) \<subseteq> set (rules_of db (snd (resolve_roles db who named)))"
    by (auto simp: rules_of_def resolve_roles_def List.map_filter_def Let_def split: option.splits)
  then show ?thesis using assms unfolding authorize_iff matching_def by blast
qed

theorem named_role_never_lifts_deny_witness:
  "\<not> authorize (demo_access 4) (snd (resolve_roles (demo_access 4) ''ann'' (Some ''ops''))) ''/ManagedElement=core'' Update"
proof -
  have "matching (demo_access 4) (snd (resolve_roles (demo_access 4) ''ann'' None)) ''/ManagedElement=core'' Update DENY" by code_simp
  then show ?thesis by (rule named_role_never_lifts_deny)
qed

end
