(* ===== verification/ConfigStore.thy ===== *)
theory ConfigStore
  imports Complex_Main RanStore Msac Computations
begin

section \<open>The store and the session of the configuration jobs (ran-nf-oam/app/models.py)\<close>

text \<open>
  The tables the write path of \<open>main.py\<close> works on, the requests it takes, and what it is connected to.
  A request runs in one database session: \<open>work\<close> is what the session sees, \<open>kept\<close> what it has committed,
  and \<open>exchanges\<close> what was sent to network functions, which no rollback undoes. The O1 clients answer from
  what was sent before; the clock is a function of the exchanges, so waiting and sending take time and
  nothing else does. Durations are whole numbers in the unit of the clock.
\<close>

type_synonym attributes = "(string \<times> json) list"

subsection \<open>Requests\<close>

record change =
  target_element :: string
  target_function :: "string option"
  attribute_changes :: "attributes option"
  asked_operation :: "string option"

definition operation_of :: "change \<Rightarrow> string" where
  "operation_of c = (case asked_operation c of None \<Rightarrow> ''merge'' | Some name \<Rightarrow> name)"

definition attributes_of :: "change \<Rightarrow> attributes" where
  "attributes_of c = (case attribute_changes c of None \<Rightarrow> [] | Some a \<Rightarrow> a)"

datatype gate_action = HaltJob | RevertJob

record kpi_guard =
  guard_kpi :: string
  baseline_minutes :: nat
  observation_minutes :: nat
  max_regression_percent :: rat
  higher_is_better :: bool
  min_samples :: nat
  guard_revert :: bool
  guard_msac_role :: "string option"

record decision_context =
  inputs_ref :: "string option"
  model_version :: "string option"
  rationale :: "string option"
  action_id :: "string option"

record change_window =
  window_start :: "seconds option"
  window_close :: "seconds option"

record write_request =
  req_by :: string
  req_decision :: "decision_context option"
  req_scope :: "string option"
  req_scope_alias :: "string option"
  req_changes :: "change list"
  req_msac_role :: "string option"
  req_dry_run :: bool
  req_wave_size :: "nat option"
  req_wave_pause :: nat
  req_max_new_alarms :: nat
  req_on_gate_failure :: gate_action
  req_kpi_guard :: "kpi_guard option"
  req_window :: "change_window option"
  req_require_approval :: bool

text \<open>What the validators of the body leave: the access scope filled from its alias, or a refusal.\<close>

definition window_ok :: "change_window \<Rightarrow> bool" where
  "window_ok w \<longleftrightarrow> \<not> (window_start w = None \<and> window_close w = None) \<and>
     (case (window_start w, window_close w) of (Some start, Some close) \<Rightarrow> start < close | _ \<Rightarrow> True)"

definition validated :: "write_request \<Rightarrow> http_error + write_request" where
  "validated body =
     (if req_scope body = None \<and> req_scope_alias body = None then Inl SCHEMA_VALIDATION_FAILED
      else if req_scope body \<noteq> None \<and> req_scope_alias body \<noteq> None \<and> req_scope body \<noteq> req_scope_alias body then Inl SCHEMA_VALIDATION_FAILED
      else if req_wave_size body = Some 0 \<or> \<not> (case req_window body of None \<Rightarrow> True | Some w \<Rightarrow> window_ok w) then Inl SCHEMA_VALIDATION_FAILED
      else case collect (\<lambda>c. and_then (check_ref (Some (target_element c))) (\<lambda>_. check_ref (target_function c))) (req_changes body) of
             Inl _ \<Rightarrow> Inl SCHEMA_VALIDATION_FAILED
           | Inr _ \<Rightarrow> Inr (body\<lparr>req_scope := (if req_scope body \<noteq> None then req_scope body else req_scope_alias body)\<rparr>))"

definition plain_request :: "string \<Rightarrow> string \<Rightarrow> string option \<Rightarrow> change list \<Rightarrow> write_request" where
  "plain_request by_whom access role changes =
     \<lparr>req_by = by_whom, req_decision = None, req_scope = Some access, req_scope_alias = None, req_changes = changes,
      req_msac_role = role, req_dry_run = False, req_wave_size = None, req_wave_pause = 0, req_max_new_alarms = 0,
      req_on_gate_failure = HaltJob, req_kpi_guard = None, req_window = None, req_require_approval = False\<rparr>"

subsection \<open>Tables\<close>

datatype job_halt = GATE_FAILED | OPERATOR_HALT | WAVE_PAUSE | REVERT_REFUSED

record guard_verdict =
  verdict :: string
  guard_reverted :: bool
  checked_at :: seconds

record write_config_job = config_job +
  cm_requested_by :: string
  cm_scope :: string
  cm_validated_at :: "seconds option"
  cm_status :: JobState
  cm_msac_role :: "string option"
  cm_forced :: bool
  cm_wave_size :: "nat option"
  cm_wave_pause :: nat
  cm_wave_count :: nat
  cm_current_wave :: nat
  cm_max_new_alarms :: nat
  cm_on_gate_failure :: gate_action
  cm_next_wave_at :: "seconds option"
  cm_halted_reason :: "job_halt option"
  cm_halted_detail :: "string option"
  cm_created_at :: seconds
  cm_kpi_guard :: "kpi_guard option"
  cm_guard_result :: "guard_verdict option"
  cm_guard_checked_at :: "seconds option"
  cm_scheduled_at :: "seconds option"
  cm_window_end :: "seconds option"
  cm_decided_by :: "string option"
  cm_decided_at :: "seconds option"
  cm_decision_reason :: "string option"

record sub_change =
  sub_id :: uid
  sub_job :: uid
  sub_element :: string
  sub_function :: "string option"
  sub_attributes :: attributes
  sub_operation :: string
  sub_status :: string
  sub_reason :: "string option"
  sub_detail :: "string option"
  sub_attempts :: nat
  sub_position :: nat
  sub_wave :: nat

record cm_snapshot =
  snapshot_id :: uid
  snap_sub_change :: uid
  snap_job :: uid
  snap_element :: string
  snap_function :: "string option"
  snap_operation :: string
  before_image :: "attributes option"
  after_image :: "attributes option"
  before_error :: "string option"
  snap_created_at :: seconds

record rapp_limit =
  limit_invoker :: string
  max_config_jobs_per_hour :: "nat option"
  max_elements_per_job :: "nat option"
  max_change_percent :: "rat option"

record rapp_kill =
  kill_invoker :: string
  kill_reason :: "string option"
  killed_by :: string
  killed_at :: seconds

record safeguard_refusal =
  refusal_id :: uid
  refused_at :: seconds
  refused_invoker :: string
  refused_requester :: "string option"
  refusal_code :: string
  notified :: bool

record safeguard_subscription =
  safeguard_subscription_id :: uid
  safeguard_callback :: string
  wanted_refusals :: "string list"

datatype timeout_action = EXPIRE | REJECT

record approval_policy =
  policy_invoker :: string
  policy_timeout :: nat
  policy_on_timeout :: timeout_action
  policy_set_by :: "string option"
  policy_required :: nat

datatype approval_status = PENDING | APPROVED | REJECTED | EXPIRED | REFUSED

record approval_vote =
  vote_by :: string
  vote_at :: seconds
  vote_reason :: "string option"

record action_approval =
  approval_id :: uid
  appr_invoker :: string
  appr_requested_by :: string
  appr_status :: approval_status
  appr_request :: write_request
  appr_elements :: "string list"
  appr_created_at :: seconds
  appr_expires_at :: seconds
  appr_on_timeout :: timeout_action
  appr_decided_by :: "string option"
  appr_decided_at :: "seconds option"
  appr_decision_reason :: "string option"
  appr_job :: "uid option"
  appr_refusal_code :: "string option"
  appr_requester_scope :: json
  appr_required :: nat
  appr_votes :: "approval_vote list"

record approval_subscription =
  approval_subscription_id :: uid
  approval_callback :: string

datatype disposition = DIRECT | APPROVED | ROLLBACK | REJECTED | EXPIRED | REFUSED

record decision_record =
  decision_id :: uid
  occurred_at :: seconds
  dec_invoker :: string
  dec_requested_by :: string
  dec_disposition :: disposition
  dec_job :: "uid option"
  dec_approval :: "uid option"
  dec_context :: decision_context
  dec_decided_by :: "string option"
  dec_decided_at :: "seconds option"
  dec_elements :: "string list"
  dec_change_count :: nat
  dec_approvers :: "string list option"
  dec_audit_seq :: "nat option"

text \<open>What the shared audit chain holds of a decision (its hashes are in \<open>AuditTrail\<close>).\<close>

record audited_decision =
  audited_seq :: nat
  audited_invoker :: string
  audited_disposition :: disposition
  audited_decision :: uid

record cm_store =
  ran :: ran_store
  access :: msac_store
  objects :: "managed_object list"
  kpi_names :: "string list"
  cm_jobs :: "write_config_job list"
  sub_changes :: "sub_change list"
  snapshots :: "cm_snapshot list"
  limits :: "rapp_limit list"
  kills :: "rapp_kill list"
  refusals :: "safeguard_refusal list"
  safeguard_subscriptions :: "safeguard_subscription list"
  policies :: "approval_policy list"
  approvals :: "action_approval list"
  approval_subscriptions :: "approval_subscription list"
  decisions :: "decision_record list"
  audited :: "audited_decision list"

subsection \<open>What is outside: the O1 clients, the clock and the settings\<close>

datatype o1_client = NetconfHttp | NetconfSession | Restconf

text \<open>\<open>_o1_client\<close>: which pair of functions carries a protocol over a transport, and the reason a failure has when
  the client gives none.\<close>

definition o1_client :: "string \<Rightarrow> string \<Rightarrow> o1_client option" where
  "o1_client protocol carried =
     (if protocol = ''NETCONF'' \<and> carried \<in> {''ssh'', ''tls''} then Some NetconfSession
      else if protocol = ''NETCONF'' then Some NetconfHttp
      else if protocol = ''RESTCONF'' then Some Restconf
      else None)"

definition default_reason :: "o1_client \<Rightarrow> string" where
  "default_reason client = (case client of Restconf \<Rightarrow> ''RESTCONF_REQUEST_FAILED'' | _ \<Rightarrow> ''NETCONF_RPC_FAILED'')"

record o1_object =
  via :: o1_client
  at_uri :: string
  obj_element :: string
  obj_function :: "string option"

record o1_edit =
  edit_object :: o1_object
  edit_operation :: string
  edit_attributes :: attributes

text \<open>The last components of a refusal are its reason, its text and whether it may be tried again.\<close>

datatype edit_reply = Accepted | Refused "string option" "string option" bool
datatype read_reply = Values attributes | Unread | Raised string

text \<open>An edit carries the id of its job as its message id.\<close>

datatype exchange =
    Slept seconds
  | Sent uid o1_edit
  | SentTogether uid "o1_edit list"
  | ReadObject o1_object

record o1_environment =
  clock :: "exchange list \<Rightarrow> seconds"
  answers_edit :: "exchange list \<Rightarrow> uid \<Rightarrow> o1_edit \<Rightarrow> edit_reply"
  answers_edits :: "exchange list \<Rightarrow> uid \<Rightarrow> o1_edit list \<Rightarrow> edit_reply list"
  answers_read :: "exchange list \<Rightarrow> o1_object \<Rightarrow> read_reply"
  takes_transactions :: "string \<Rightarrow> bool"
  schema_problems :: "change \<Rightarrow> string list"
  as_number :: "json \<Rightarrow> rat option"
  kpi_value :: "string \<Rightarrow> string \<Rightarrow> seconds \<Rightarrow> seconds \<Rightarrow> rat option \<times> nat"
  safe_destination :: "string \<Rightarrow> bool"
  retry_delays :: "seconds list"
  retry_budget :: seconds
  keep_snapshots :: bool
  enforce_mo_tree :: bool
  event_min_interval :: seconds
  guard_grace_minutes :: nat
  claim_loads :: "string \<Rightarrow> json option"
  audit_writes :: nat

subsection \<open>The session\<close>

record session =
  work :: cm_store
  kept :: cm_store
  exchanges :: "exchange list"

type_synonym 'a cm = "(session, http_error, 'a) comp"

definition now :: "o1_environment \<Rightarrow> seconds cm" where
  "now env = look (\<lambda>s. clock env (exchanges s))"

definition reading :: "(cm_store \<Rightarrow> 'a) \<Rightarrow> 'a cm" where
  "reading f = look (\<lambda>s. f (work s))"

definition writing :: "(cm_store \<Rightarrow> cm_store) \<Rightarrow> unit cm" where
  "writing f = change (\<lambda>s. s\<lparr>work := f (work s)\<rparr>)"

definition commit_session :: "unit cm" where
  "commit_session = change (\<lambda>s. s\<lparr>kept := work s\<rparr>)"

definition rollback_session :: "unit cm" where
  "rollback_session = change (\<lambda>s. s\<lparr>work := kept s\<rparr>)"

definition logged :: "exchange \<Rightarrow> unit cm" where
  "logged x = change (\<lambda>s. s\<lparr>exchanges := exchanges s @ [x]\<rparr>)"

definition sleep :: "seconds \<Rightarrow> unit cm" where
  "sleep d = logged (Slept d)"

definition send_edit :: "o1_environment \<Rightarrow> uid \<Rightarrow> o1_edit \<Rightarrow> edit_reply cm" where
  "send_edit env i e = then_do (look (\<lambda>s. answers_edit env (exchanges s) i e)) (\<lambda>r. then_do (logged (Sent i e)) (\<lambda>_. give r))"

definition send_edits :: "o1_environment \<Rightarrow> uid \<Rightarrow> o1_edit list \<Rightarrow> edit_reply list cm" where
  "send_edits env i es = then_do (look (\<lambda>s. answers_edits env (exchanges s) i es)) (\<lambda>r. then_do (logged (SentTogether i es)) (\<lambda>_. give r))"

definition read_object :: "o1_environment \<Rightarrow> o1_object \<Rightarrow> read_reply cm" where
  "read_object env x = then_do (look (\<lambda>s. answers_read env (exchanges s) x)) (\<lambda>r. then_do (logged (ReadObject x)) (\<lambda>_. give r))"

text \<open>A request starts a session on what is stored and leaves what it committed.\<close>

definition run_request :: "'a cm \<Rightarrow> cm_store \<Rightarrow> exchange list \<Rightarrow> (http_error + 'a) \<times> cm_store \<times> exchange list" where
  "run_request m db sent = (case m \<lparr>work = db, kept = db, exchanges = sent\<rparr> of (r, s) \<Rightarrow> (r, kept s, exchanges s))"

subsection \<open>Rows\<close>

definition get_cm_job :: "cm_store \<Rightarrow> uid \<Rightarrow> write_config_job option" where
  "get_cm_job db i = row_where (\<lambda>j. cm_job_id j = i) (cm_jobs db)"

definition update_cm_job :: "uid \<Rightarrow> (write_config_job \<Rightarrow> write_config_job) \<Rightarrow> cm_store \<Rightarrow> cm_store" where
  "update_cm_job i f db = db\<lparr>cm_jobs := update_where (\<lambda>j. cm_job_id j = i) f (cm_jobs db)\<rparr>"

definition subs_of :: "cm_store \<Rightarrow> uid \<Rightarrow> sub_change list" where
  "subs_of db i = filter (\<lambda>r. sub_job r = i) (sub_changes db)"

definition update_subs :: "(sub_change \<Rightarrow> bool) \<Rightarrow> (sub_change \<Rightarrow> sub_change) \<Rightarrow> cm_store \<Rightarrow> cm_store" where
  "update_subs P f db = db\<lparr>sub_changes := update_where P f (sub_changes db)\<rparr>"

text \<open>The row of a job the session holds; there is always one, and \<open>db.get_one\<close> of a missing row raises.\<close>

definition the_job :: "uid \<Rightarrow> write_config_job cm" where
  "the_job i = then_do (reading (\<lambda>db. get_cm_job db i)) (\<lambda>j.
     case j of None \<Rightarrow> fail_with (Unhandled ''NoResultFound'') | Some job \<Rightarrow> give job)"

text \<open>A transition of a job outside every \<open>try\<close>.\<close>

definition fire_job :: "uid \<Rightarrow> JobEvent \<Rightarrow> unit cm" where
  "fire_job i ev = then_do (the_job i) (\<lambda>job.
     then_do (from_sum (uncaught (fire WRITE_CONFIG_JOB_FSM (cm_status job) ev ()))) (\<lambda>st.
     writing (update_cm_job i (\<lambda>j. j\<lparr>cm_status := st\<rparr>))))"

end
