(* ===== verification/O1Dispatch.thy ===== *)
theory O1Dispatch
  imports ConfigStore
begin

section \<open>Sending one change to a network function (ran-nf-oam/app/main.py)\<close>

text \<open>
  Whether a change can be sent, the values it is about to replace, and the edit with its retries. A
  retry is made only after a failure the client calls transient, and only while the time spent and the
  next delay stay within the budget.
\<close>

definition MISSED_HEARTBEAT_THRESHOLD :: seconds where "MISSED_HEARTBEAT_THRESHOLD = 90"

definition age_endpoint_health :: "seconds \<Rightarrow> o1_endpoint \<Rightarrow> http_error + o1_endpoint" where
  "age_endpoint_health t ep =
     (if health_status ep = ACTIVE \<and> (case last_heartbeat_at ep of None \<Rightarrow> False | Some h \<Rightarrow> MISSED_HEARTBEAT_THRESHOLD < t - h)
      then and_then (uncaught (fire ENDPOINT_HEALTH_FSM ACTIVE MISSED_HEARTBEATS ())) (\<lambda>st. Inr (ep\<lparr>health_status := st\<rparr>))
      else Inr ep)"

definition put_endpoint :: "o1_endpoint \<Rightarrow> cm_store \<Rightarrow> cm_store" where
  "put_endpoint ep db =
     db\<lparr>ran := (ran db)\<lparr>endpoints := update_where (\<lambda>k. endpoint_id k = endpoint_id ep) (\<lambda>_. ep) (endpoints (ran db))\<rparr>\<rparr>"

definition get_endpoint :: "cm_store \<Rightarrow> uid \<Rightarrow> o1_endpoint option" where
  "get_endpoint db i = row_where (\<lambda>k. endpoint_id k = i) (endpoints (ran db))"

definition dispatch_blocker :: "o1_environment \<Rightarrow> change \<Rightarrow> (string option \<times> managed_entity option \<times> o1_endpoint option) cm" where
  "dispatch_blocker env c =
     then_do (reading (\<lambda>db. get_entity (ran db) (target_element c))) (\<lambda>me.
     case me of None \<Rightarrow> give (Some ''ENDPOINT_UNREACHABLE'', None, None)
     | Some m \<Rightarrow> (case entity_endpoint_id m of
         None \<Rightarrow> give (Some ''ENDPOINT_UNREACHABLE'', Some m, None)
       | Some i \<Rightarrow>
           then_do (reading (\<lambda>db. get_endpoint db i)) (\<lambda>found.
           case found of None \<Rightarrow> fail_with (Unhandled ''NoResultFound'')
           | Some ep0 \<Rightarrow>
               then_do (now env) (\<lambda>t.
               then_do (from_sum (age_endpoint_health t ep0)) (\<lambda>ep.
               then_do (writing (put_endpoint ep)) (\<lambda>_.
               then_do (reading objects) (\<lambda>tree.
               give (if health_status ep \<in> {UNREACHABLE, DEGRADED} then Some ''ENDPOINT_UNREACHABLE''
                     else if o1_client (entity_protocol m) (transport ep) = None then Some ''PROTOCOL_NOT_SUPPORTED''
                     else if enforce_mo_tree env \<and> \<not> object_exists tree (target_dn (target_element c) (target_function c))
                     then Some ''MANAGED_OBJECT_NOT_FOUND'' else None, Some m, Some ep))))))))"

text \<open>\<open>d.get(name)\<close> of the values read: null when the name is not there.\<close>

definition value_of :: "attributes \<Rightarrow> string \<Rightarrow> json" where
  "value_of attrs name = (case map_of attrs name of None \<Rightarrow> JNull | Some v \<Rightarrow> v)"

definition o1_object_of :: "o1_client \<Rightarrow> o1_endpoint \<Rightarrow> change \<Rightarrow> o1_object" where
  "o1_object_of client ep c =
     \<lparr>via = client, at_uri = adaptor_uri ep, obj_element = target_element c, obj_function = target_function c\<rparr>"

definition capture_before ::
  "o1_environment \<Rightarrow> managed_entity \<Rightarrow> o1_endpoint \<Rightarrow> change \<Rightarrow> attributes \<Rightarrow> (attributes option \<times> string option) cm" where
  "capture_before env me ep c wanted =
     (case o1_client (entity_protocol me) (transport ep) of
        None \<Rightarrow> fail_with (Unhandled ''TypeError'')
      | Some client \<Rightarrow>
          then_do (read_object env (o1_object_of client ep c)) (\<lambda>r. give (case r of
              Raised exc \<Rightarrow> (None, Some (''before-image read raised '' @ exc))
            | Unread \<Rightarrow> (None, Some ''before-image read failed'')
            | Values current \<Rightarrow> (Some (if wanted \<noteq> [] then map (\<lambda>(name, _). (name, value_of current name)) wanted else current), None))))"

subsection \<open>Attempts\<close>

text \<open>Applied, the reason it was not, the attempts made and what the adaptor said.\<close>

type_synonym dispatch_outcome = "bool \<times> string option \<times> nat \<times> string option"

definition over_budget :: "o1_environment \<Rightarrow> seconds \<Rightarrow> seconds \<Rightarrow> nat \<Rightarrow> seconds \<Rightarrow> bool" where
  "over_budget env started t attempts delay \<longleftrightarrow> 0 < attempts \<and> retry_budget env < t - started + delay"

definition pause :: "seconds \<Rightarrow> unit cm" where
  "pause delay = (if delay \<noteq> 0 then sleep delay else give ())"

fun attempts_from ::
  "o1_environment \<Rightarrow> uid \<Rightarrow> o1_edit \<Rightarrow> seconds \<Rightarrow> seconds list \<Rightarrow> string option \<Rightarrow> nat \<Rightarrow> string option \<Rightarrow> dispatch_outcome cm" where
  "attempts_from env i e started [] reason attempts detail = give (False, reason, attempts, detail)"
| "attempts_from env i e started (delay # delays) reason attempts detail =
     then_do (now env) (\<lambda>t.
     if over_budget env started t attempts delay then give (False, reason, attempts, detail)
     else then_do (pause delay) (\<lambda>_.
          then_do (send_edit env i e) (\<lambda>r.
          case r of
            Accepted \<Rightarrow> give (True, None, Suc attempts, None)
          | Refused why what retryable \<Rightarrow>
              let reason' = (case or_none why of None \<Rightarrow> Some (default_reason (via (edit_object e))) | Some w \<Rightarrow> Some w)
              in if \<not> retryable then give (False, reason', Suc attempts, what)
                 else attempts_from env i e started delays reason' (Suc attempts) what)))"

definition dispatch_with_retries :: "o1_environment \<Rightarrow> uid \<Rightarrow> o1_edit \<Rightarrow> dispatch_outcome cm" where
  "dispatch_with_retries env i e = then_do (now env) (\<lambda>started. attempts_from env i e started (retry_delays env) None 0 None)"

definition transaction_group_key :: "managed_entity option \<Rightarrow> o1_endpoint option \<Rightarrow> o1_environment \<Rightarrow> string option" where
  "transaction_group_key me ep env =
     (case (me, ep) of
        (Some m, Some k) \<Rightarrow>
          if entity_protocol m \<noteq> ''NETCONF'' \<or> transport k \<notin> {''ssh'', ''tls''} then None
          else if takes_transactions env (adaptor_uri k) then Some (entity_ref m) else None
      | _ \<Rightarrow> None)"

fun group_attempts_from ::
  "o1_environment \<Rightarrow> uid \<Rightarrow> o1_edit list \<Rightarrow> seconds \<Rightarrow> seconds list \<Rightarrow> edit_reply list \<Rightarrow> nat \<Rightarrow> (edit_reply list \<times> nat) cm" where
  "group_attempts_from env i es started [] results attempts = give (results, attempts)"
| "group_attempts_from env i es started (delay # delays) results attempts =
     then_do (now env) (\<lambda>t.
     if over_budget env started t attempts delay then give (results, attempts)
     else then_do (pause delay) (\<lambda>_.
          then_do (send_edits env i es) (\<lambda>rs.
          if list_all (\<lambda>r. r = Accepted) rs \<or> \<not> list_ex (\<lambda>r. case r of Refused _ _ retryable \<Rightarrow> retryable | Accepted \<Rightarrow> False) rs
          then give (rs, Suc attempts)
          else group_attempts_from env i es started delays rs (Suc attempts))))"

definition dispatch_group_with_retries :: "o1_environment \<Rightarrow> uid \<Rightarrow> o1_edit list \<Rightarrow> dispatch_outcome list cm" where
  "dispatch_group_with_retries env i es =
     then_do (now env) (\<lambda>started.
     then_do (group_attempts_from env i es started (retry_delays env) [] 0) (\<lambda>(results, attempts).
     give (map (\<lambda>r. case r of
         Accepted \<Rightarrow> (True, None, attempts, None)
       | Refused why what _ \<Rightarrow>
           (False, Some (case or_none why of None \<Rightarrow> ''NETCONF_RPC_FAILED'' | Some w \<Rightarrow> w), attempts, what)) results)))"

text \<open>What the service says the longest dispatch of one change takes, the client giving up after \<open>timeout\<close>.\<close>

definition worst_case_dispatch_seconds :: "o1_environment \<Rightarrow> seconds \<Rightarrow> seconds" where
  "worst_case_dispatch_seconds env timeout = min (sum_list (retry_delays env)) (retry_budget env) + timeout"

definition worst_case_sub_change_seconds :: "o1_environment \<Rightarrow> seconds \<Rightarrow> seconds" where
  "worst_case_sub_change_seconds env timeout = worst_case_dispatch_seconds env timeout + (if keep_snapshots env then timeout else 0)"

end
