(* ===== verification/Safeguards.thy ===== *)
theory Safeguards
  imports O1Dispatch
begin

section \<open>The safeguards an rApp's write passes (ran-nf-oam/app/main.py)\<close>

text \<open>
  The kill switch, the scope, the hourly budget and the limits on one job, and how a refusal is
  recorded and announced. A refusal commits its record before the error ends the request. The texts of
  the errors are not modelled.
\<close>

definition RATE_WINDOW :: seconds where "RATE_WINDOW = 3600"

definition code_of :: "http_error \<Rightarrow> string" where
  "code_of err = (case err of Problem code _ \<Rightarrow> code | Unhandled _ \<Rightarrow> ''INTERNAL_ERROR'')"

text \<open>Whether the same refusal of the same rApp was announced within the interval.\<close>

definition announced_lately :: "o1_environment \<Rightarrow> seconds \<Rightarrow> string \<Rightarrow> string \<Rightarrow> cm_store \<Rightarrow> bool" where
  "announced_lately env t caller code db \<longleftrightarrow> 0 < event_min_interval env \<and>
     list_ex (\<lambda>r. refused_invoker r = caller \<and> refusal_code r = code \<and> notified r \<and> t - event_min_interval env \<le> refused_at r) (refusals db)"

definition record_refusal :: "o1_environment \<Rightarrow> seconds \<Rightarrow> string \<Rightarrow> string option \<Rightarrow> string \<Rightarrow> cm_store \<Rightarrow> cm_store" where
  "record_refusal env t caller asker code db =
     (let repeat = announced_lately env t caller code db;
          i = fresh_id (map refusal_id (refusals db));
          recorded = db\<lparr>refusals := refusals db @ [\<lparr>refusal_id = i, refused_at = t, refused_invoker = caller,
                          refused_requester = asker, refusal_code = code, notified = \<not> repeat\<rparr>]\<rparr>
      in if repeat then recorded
         else recorded\<lparr>ran := (ran recorded)\<lparr>outbox := outbox (ran recorded) @
                map (\<lambda>sub. \<lparr>notice_target = safeguard_callback sub, notice_type = ''RAPP_SAFEGUARD_REFUSAL'',
                            notice_fields = [(''refusalId'', JInt (int i)), (''refusal'', JStr code), (''invokerId'', JStr caller),
                              (''requestedBy'', (case asker of None \<Rightarrow> JNull | Some w \<Rightarrow> JStr w))], notice_at = t\<rparr>)
                    (filter (\<lambda>sub. wanted_refusals sub = [] \<or> code \<in> set (wanted_refusals sub)) (safeguard_subscriptions recorded))\<rparr>\<rparr>)"

definition refuse :: "o1_environment \<Rightarrow> string \<Rightarrow> string option \<Rightarrow> http_error \<Rightarrow> 'a cm" where
  "refuse env caller asker err =
     then_do (now env) (\<lambda>t.
     then_do (writing (record_refusal env t caller asker (code_of err))) (\<lambda>_.
     then_do commit_session (\<lambda>_. fail_with err)))"

definition refuse_if_killed :: "o1_environment \<Rightarrow> string option \<Rightarrow> string option \<Rightarrow> unit cm" where
  "refuse_if_killed env caller asker =
     (case or_none caller of
        None \<Rightarrow> give ()
      | Some who \<Rightarrow>
          then_do (reading (\<lambda>db. row_where (\<lambda>k. kill_invoker k = who) (kills db))) (\<lambda>kill.
          if kill = None then give () else refuse env who asker RAPP_KILLED))"

definition require_elements :: "scope option \<Rightarrow> string list \<Rightarrow> unit cm" where
  "require_elements sc refs =
     then_do (reading (\<lambda>db. denied_refs (entities (ran db)) sc refs)) (\<lambda>denied.
     if denied \<noteq> [] then fail_with SCOPE_DENIED else give ())"

definition enforce_scope :: "o1_environment \<Rightarrow> scope option \<Rightarrow> string option \<Rightarrow> string option \<Rightarrow> string list \<Rightarrow> unit cm" where
  "enforce_scope env sc caller asker refs =
     catch (require_elements sc refs) (\<lambda>err.
       case or_none caller of None \<Rightarrow> fail_with err | Some who \<Rightarrow> refuse env who asker err)"

definition limit_of :: "cm_store \<Rightarrow> string option \<Rightarrow> rapp_limit option" where
  "limit_of db caller =
     (case or_none caller of None \<Rightarrow> None | Some who \<Rightarrow> row_where (\<lambda>l. limit_invoker l = who) (limits db))"

definition jobs_since :: "cm_store \<Rightarrow> string \<Rightarrow> seconds \<Rightarrow> nat" where
  "jobs_since db who since = length (filter (\<lambda>j. config_invoker_id j = Some who \<and> since \<le> cm_created_at j) (cm_jobs db))"

definition enforce_rapp_limit :: "o1_environment \<Rightarrow> string option \<Rightarrow> string option \<Rightarrow> unit cm" where
  "enforce_rapp_limit env caller asker =
     then_do (reading (\<lambda>db. limit_of db caller)) (\<lambda>limit.
     case limit of None \<Rightarrow> give ()
     | Some l \<Rightarrow> (case max_config_jobs_per_hour l of
         None \<Rightarrow> give ()
       | Some most \<Rightarrow>
           then_do (now env) (\<lambda>t.
           then_do (reading (\<lambda>db. jobs_since db (limit_invoker l) (t - RATE_WINDOW))) (\<lambda>used.
           if most \<le> used then refuse env (limit_invoker l) asker RAPP_RATE_LIMITED else give ()))))"

text \<open>\<open>maxChangePercent\<close>: no move from zero but to zero.\<close>

definition moves_too_far :: "rat \<Rightarrow> rat \<Rightarrow> rat \<Rightarrow> bool" where
  "moves_too_far most current target =
     (let moved = \<bar>target - current\<bar>
      in if moved = 0 then most < 0 else current = 0 \<or> most < moved / \<bar>current\<bar> * 100)"

definition check_value :: "o1_environment \<Rightarrow> string \<Rightarrow> string option \<Rightarrow> rat \<Rightarrow> attributes \<Rightarrow> string \<times> json \<Rightarrow> unit cm" where
  "check_value env who asker most before setting =
     (case (as_number env (value_of before (fst setting)), as_number env (snd setting)) of
        (Some current, Some target) \<Rightarrow>
          if moves_too_far most current target then refuse env who asker RAPP_MAGNITUDE_EXCEEDED else give ()
      | _ \<Rightarrow> refuse env who asker RAPP_MAGNITUDE_EXCEEDED)"

definition check_change :: "o1_environment \<Rightarrow> string \<Rightarrow> string option \<Rightarrow> rat \<Rightarrow> change \<Rightarrow> unit cm" where
  "check_change env who asker most c =
     (let wanted = filter (\<lambda>(name, v). as_number env v \<noteq> None) (attributes_of c)
      in if wanted = [] then give ()
         else then_do (dispatch_blocker env c) (\<lambda>(_, me, ep).
              then_do (case (me, ep) of
                         (Some m, Some k) \<Rightarrow> capture_before env m k c wanted
                       | _ \<Rightarrow> give (None, Some ''the element has no usable endpoint'')) (\<lambda>(before, _).
              for_each (check_value env who asker most (case before of None \<Rightarrow> [] | Some b \<Rightarrow> b)) wanted)))"

definition enforce_change_limits :: "o1_environment \<Rightarrow> write_request \<Rightarrow> string option \<Rightarrow> unit cm" where
  "enforce_change_limits env body caller =
     then_do (reading (\<lambda>db. limit_of db caller)) (\<lambda>limit.
     case limit of None \<Rightarrow> give ()
     | Some l \<Rightarrow>
         then_do (case max_elements_per_job l of
                    None \<Rightarrow> give ()
                  | Some most \<Rightarrow>
                      if most < length (dict_fromkeys (map target_element (req_changes body)))
                      then refuse env (limit_invoker l) (Some (req_by body)) RAPP_BLAST_RADIUS_EXCEEDED else give ()) (\<lambda>_.
         case max_change_percent l of
           None \<Rightarrow> give ()
         | Some most \<Rightarrow> for_each (check_change env (limit_invoker l) (Some (req_by body)) most) (req_changes body)))"

subsection \<open>The routes that set them\<close>

text \<open>A caller may not set its own.\<close>

definition not_own_limit :: "string option \<Rightarrow> string \<Rightarrow> unit cm" where
  "not_own_limit caller who = (if caller = Some who then fail_with RAPP_LIMIT_SELF_CHANGE else give ())"

definition limit_body_ok :: "nat option \<Rightarrow> nat option \<Rightarrow> rat option \<Rightarrow> bool" where
  "limit_body_ok per_hour per_job percent \<longleftrightarrow> \<not> (per_hour = None \<and> per_job = None \<and> percent = None) \<and>
     (case per_hour of None \<Rightarrow> True | Some n \<Rightarrow> 1 \<le> n \<and> n \<le> 100000) \<and>
     (case per_job of None \<Rightarrow> True | Some n \<Rightarrow> 1 \<le> n \<and> n \<le> 10000) \<and>
     (case percent of None \<Rightarrow> True | Some p \<Rightarrow> 0 < p \<and> p \<le> 10000)"

definition set_rapp_limit :: "string option \<Rightarrow> string \<Rightarrow> nat option \<Rightarrow> nat option \<Rightarrow> rat option \<Rightarrow> unit cm" where
  "set_rapp_limit caller who per_hour per_job percent =
     (if \<not> limit_body_ok per_hour per_job percent then fail_with SCHEMA_VALIDATION_FAILED
      else then_do (not_own_limit caller who) (\<lambda>_.
           then_do (writing (\<lambda>db.
             let row = \<lparr>limit_invoker = who, max_config_jobs_per_hour = per_hour, max_elements_per_job = per_job, max_change_percent = percent\<rparr>
             in if row_where (\<lambda>l. limit_invoker l = who) (limits db) = None then db\<lparr>limits := limits db @ [row]\<rparr>
                else db\<lparr>limits := update_where (\<lambda>l. limit_invoker l = who) (\<lambda>_. row) (limits db)\<rparr>)) (\<lambda>_.
           commit_session)))"

definition delete_rapp_limit :: "string option \<Rightarrow> string \<Rightarrow> unit cm" where
  "delete_rapp_limit caller who =
     then_do (not_own_limit caller who) (\<lambda>_.
     then_do (reading (\<lambda>db. row_where (\<lambda>l. limit_invoker l = who) (limits db))) (\<lambda>row.
     if row = None then fail_with RAPP_LIMIT_NOT_FOUND
     else then_do (writing (\<lambda>db. db\<lparr>limits := delete_where (\<lambda>l. limit_invoker l = who) (limits db)\<rparr>)) (\<lambda>_. commit_session)))"

definition read_rapp_limit :: "o1_environment \<Rightarrow> string \<Rightarrow> (rapp_limit \<times> nat) cm" where
  "read_rapp_limit env who =
     then_do (reading (\<lambda>db. row_where (\<lambda>l. limit_invoker l = who) (limits db))) (\<lambda>row.
     case row of None \<Rightarrow> fail_with RAPP_LIMIT_NOT_FOUND
     | Some l \<Rightarrow> then_do (now env) (\<lambda>t. then_do (reading (\<lambda>db. jobs_since db who (t - RATE_WINDOW))) (\<lambda>used. give (l, used))))"

text \<open>Repeating a kill keeps its time.\<close>

definition kill_rapp :: "o1_environment \<Rightarrow> string \<Rightarrow> string \<Rightarrow> string option \<Rightarrow> unit cm" where
  "kill_rapp env who asker why =
     (if asker = [] then fail_with SCHEMA_VALIDATION_FAILED
      else then_do (now env) (\<lambda>t.
           then_do (writing (\<lambda>db.
             if row_where (\<lambda>k. kill_invoker k = who) (kills db) = None
             then db\<lparr>kills := kills db @ [\<lparr>kill_invoker = who, kill_reason = why, killed_by = asker, killed_at = t\<rparr>]\<rparr>
             else db\<lparr>kills := update_where (\<lambda>k. kill_invoker k = who) (\<lambda>k. k\<lparr>kill_reason := why, killed_by := asker\<rparr>) (kills db)\<rparr>)) (\<lambda>_.
           commit_session)))"

definition lift_rapp_kill :: "string \<Rightarrow> unit cm" where
  "lift_rapp_kill who =
     then_do (reading (\<lambda>db. row_where (\<lambda>k. kill_invoker k = who) (kills db))) (\<lambda>row.
     if row = None then fail_with RAPP_KILL_NOT_FOUND
     else then_do (writing (\<lambda>db. db\<lparr>kills := delete_where (\<lambda>k. kill_invoker k = who) (kills db)\<rparr>)) (\<lambda>_. commit_session))"

definition subscribe_to_safeguard_refusals :: "o1_environment \<Rightarrow> string \<Rightarrow> string list \<Rightarrow> unit cm" where
  "subscribe_to_safeguard_refusals env uri codes =
     (if \<not> safe_destination env uri then fail_with SCHEMA_VALIDATION_FAILED
      else then_do (writing (\<lambda>db. db\<lparr>safeguard_subscriptions := safeguard_subscriptions db @
             [\<lparr>safeguard_subscription_id = fresh_id (map safeguard_subscription_id (safeguard_subscriptions db)),
               safeguard_callback = uri, wanted_refusals = sort (remdups codes)\<rparr>]\<rparr>)) (\<lambda>_. commit_session))"

definition unsubscribe_from_safeguard_refusals :: "uid \<Rightarrow> unit cm" where
  "unsubscribe_from_safeguard_refusals i =
     then_do (reading (\<lambda>db. row_where (\<lambda>s. safeguard_subscription_id s = i) (safeguard_subscriptions db))) (\<lambda>row.
     if row = None then fail_with SAFEGUARD_SUBSCRIPTION_NOT_FOUND
     else then_do (writing (\<lambda>db. db\<lparr>safeguard_subscriptions :=
            delete_where (\<lambda>s. safeguard_subscription_id s = i) (safeguard_subscriptions db)\<rparr>)) (\<lambda>_. commit_session))"

text \<open>The purge, never with no age; how many it deleted.\<close>

definition purge_safeguard_refusals :: "o1_environment \<Rightarrow> int \<Rightarrow> nat cm" where
  "purge_safeguard_refusals env days =
     then_do (now env) (\<lambda>t.
     then_do (reading (\<lambda>db. length (filter (\<lambda>r. refused_at r < t - days * 86400) (refusals db)))) (\<lambda>n.
     then_do (writing (\<lambda>db. db\<lparr>refusals := delete_where (\<lambda>r. refused_at r < t - days * 86400) (refusals db)\<rparr>)) (\<lambda>_.
     then_do commit_session (\<lambda>_. give n))))"

definition purge_refusals :: "o1_environment \<Rightarrow> int \<Rightarrow> int option \<Rightarrow> nat cm" where
  "purge_refusals env retention_days older_than =
     (let days = (case older_than of None \<Rightarrow> retention_days | Some d \<Rightarrow> d)
      in if days \<le> 0 then fail_with SCHEMA_VALIDATION_FAILED else purge_safeguard_refusals env days)"

end
