(* ===== verification/ConfigJobs.thy ===== *)
theory ConfigJobs
  imports Safeguards
begin

section \<open>Writing configuration: waves, gates, reverts (ran-nf-oam/app/main.py)\<close>

text \<open>
  A write is checked, recorded as a job with its changes and dispatched wave by wave. After each wave
  but the last the health gates look at it; a failed gate halts the job or undoes what was applied with a
  job of its own. That job has one wave, so it asks no gate: the revert is a parameter of the write, and
  one level of it is all a request reaches.
\<close>

subsection \<open>Python's text of a value\<close>

definition hex_digit :: "nat \<Rightarrow> char" where "hex_digit n = (if n < 10 then char_of (48 + n) else char_of (87 + n))"

definition escaped :: "char \<Rightarrow> char \<Rightarrow> string" where
  "escaped quote ch =
     (if ch = quote \<or> ch = CHR 0x5C then [CHR 0x5C, ch]
      else if ch = CHR 0x0A then [CHR 0x5C, CHR ''n''] else if ch = CHR 0x0D then [CHR 0x5C, CHR ''r'']
      else if ch = CHR 0x09 then [CHR 0x5C, CHR ''t'']
      else let n = of_char ch in if n < (32::nat) \<or> n = 127 then [CHR 0x5C, CHR ''x'', hex_digit (n div 16), hex_digit (n mod 16)] else [ch])"

definition quoted :: "string \<Rightarrow> string" where
  "quoted s = (let quote = (if CHR 0x27 \<in> set s \<and> CHR 0x22 \<notin> set s then CHR 0x22 else CHR 0x27)
     in quote # concat (map (escaped quote) s) @ [quote])"

fun py_repr :: "json \<Rightarrow> string" and repr_list :: "json list \<Rightarrow> string" and repr_members :: "(string \<times> json) list \<Rightarrow> string" where
  "py_repr JNull = ''None''"
| "py_repr (JBool b) = (if b then ''True'' else ''False'')"
| "py_repr (JInt n) = (if n < 0 then CHR ''-'' # str (nat (- n)) else str (nat n))"
| "py_repr (JStr s) = quoted s"
| "py_repr (JList vs) = ''['' @ repr_list vs @ '']''"
| "py_repr (JObject ms) = [CHR 0x7B] @ repr_members ms @ [CHR 0x7D]"
| "repr_list [] = []"
| "repr_list [v] = py_repr v"
| "repr_list (v # vs) = py_repr v @ '', '' @ repr_list vs"
| "repr_members [] = []"
| "repr_members [(k, v)] = quoted k @ '': '' @ py_repr v"
| "repr_members ((k, v) # ms) = quoted k @ '': '' @ py_repr v @ '', '' @ repr_members ms"

definition py_str :: "json \<Rightarrow> string" where
  "py_str v = (case v of JStr s \<Rightarrow> s | _ \<Rightarrow> py_repr v)"

subsection \<open>Waves\<close>

definition elements_of :: "write_request \<Rightarrow> string list" where
  "elements_of body = dict_fromkeys (map target_element (req_changes body))"

definition size_of_waves :: "write_request \<Rightarrow> nat" where
  "size_of_waves body =
     (case req_wave_size body of Some (Suc n) \<Rightarrow> Suc n | _ \<Rightarrow> max 1 (length (elements_of body)))"

definition wave_of :: "write_request \<Rightarrow> string \<Rightarrow> nat" where
  "wave_of body e = length (takeWhile (\<lambda>x. x \<noteq> e) (elements_of body)) div size_of_waves body + 1"

definition waves_in :: "write_request \<Rightarrow> nat" where
  "waves_in body = fold max (map (wave_of body) (elements_of body)) 1"

definition wave_rows :: "cm_store \<Rightarrow> uid \<Rightarrow> nat \<Rightarrow> sub_change list" where
  "wave_rows db i w = sort_key sub_position (filter (\<lambda>r. sub_wave r = w) (subs_of db i))"

definition change_of :: "sub_change \<Rightarrow> change" where
  "change_of r = \<lparr>target_element = sub_element r, target_function = sub_function r,
     attribute_changes = Some (sub_attributes r), asked_operation = Some (sub_operation r)\<rparr>"

definition edit_of :: "o1_client \<Rightarrow> o1_endpoint \<Rightarrow> change \<Rightarrow> o1_edit" where
  "edit_of client ep c =
     \<lparr>edit_object = o1_object_of client ep c, edit_operation = operation_of c, edit_attributes = attributes_of c\<rparr>"

subsection \<open>Dispatching one wave\<close>

definition raise_dispatch_alarm :: "seconds \<Rightarrow> uid \<Rightarrow> change \<Rightarrow> string option \<Rightarrow> nat \<Rightarrow> cm_store \<Rightarrow> cm_store" where
  "raise_dispatch_alarm t i c why attempts db =
     (let target = (case or_none (target_function c) of None \<Rightarrow> target_element c | Some f \<Rightarrow> f)
      in db\<lparr>ran := (ran db)\<lparr>alarms := alarms (ran db) @
           [\<lparr>source_alarm_id = ''o1-config:'' @ str i @ '':'' @ target, alarm_element = target_element c, severity = ''major'',
             alarm_type = ''COMMUNICATIONS_ALARM'', probable_cause = (case why of None \<Rightarrow> [] | Some w \<Rightarrow> w),
             specific_problem = ''edit-config to '' @ target @ '' failed after '' @ str attempts @ '' attempts'', raised_at = t\<rparr>]\<rparr>\<rparr>)"

type_synonym row_outcome = "attributes option \<times> string option \<times> dispatch_outcome"

definition capture_if_kept :: "o1_environment \<Rightarrow> managed_entity \<Rightarrow> o1_endpoint \<Rightarrow> change \<Rightarrow> (attributes option \<times> string option) cm" where
  "capture_if_kept env me ep c = (if keep_snapshots env then capture_before env me ep c (attributes_of c) else give (None, None))"

definition add_snapshot :: "seconds \<Rightarrow> sub_change \<Rightarrow> row_outcome \<Rightarrow> cm_store \<Rightarrow> cm_store" where
  "add_snapshot t row out db =
     (case out of (before, before_err, applied, _) \<Rightarrow>
        db\<lparr>snapshots := snapshots db @
          [\<lparr>snapshot_id = fresh_id (map snapshot_id (snapshots db)), snap_sub_change = sub_id row, snap_job = sub_job row,
            snap_element = sub_element row, snap_function = sub_function row, snap_operation = sub_operation row,
            before_image = before,
            after_image = (if applied \<and> sub_operation row \<notin> {''delete'', ''remove''} then Some (sub_attributes row) else None),
            before_error = before_err, snap_created_at = t\<rparr>]\<rparr>)"

definition record_outcome :: "o1_environment \<Rightarrow> uid \<Rightarrow> sub_change \<Rightarrow> row_outcome \<Rightarrow> unit cm" where
  "record_outcome env i row out =
     (case out of (_, _, applied, why, attempts, detail) \<Rightarrow>
        then_do (now env) (\<lambda>t.
        then_do (if \<not> applied \<and> 1 < attempts then writing (raise_dispatch_alarm t i (change_of row) why attempts) else give ()) (\<lambda>_.
        then_do (writing (update_subs (\<lambda>r. sub_id r = sub_id row) (\<lambda>r. r\<lparr>
            sub_status := (if applied then ''APPLIED'' else ''REJECTED''), sub_reason := why, sub_detail := detail, sub_attempts := attempts\<rparr>))) (\<lambda>_.
        if keep_snapshots env then writing (add_snapshot t row out) else give ()))))"

text \<open>A row of the wave with its place, what the registry says of it and the transaction it would join.\<close>

record wave_item =
  item_index :: nat
  item_row :: sub_change
  item_check :: "string option \<times> managed_entity option \<times> o1_endpoint option"

definition item_key :: "o1_environment \<Rightarrow> wave_item \<Rightarrow> string option" where
  "item_key env item = (case item_check item of (blocker, me, ep) \<Rightarrow>
     if blocker = None then transaction_group_key me ep env else None)"

definition members_of :: "o1_environment \<Rightarrow> wave_item list \<Rightarrow> wave_item \<Rightarrow> wave_item list" where
  "members_of env items item =
     (if item_key env item = None then [item] else filter (\<lambda>k. item_key env k = item_key env item) items)"

definition dispatch_alone :: "o1_environment \<Rightarrow> uid \<Rightarrow> managed_entity \<Rightarrow> o1_endpoint \<Rightarrow> change \<Rightarrow> row_outcome cm" where
  "dispatch_alone env i me ep c =
     then_do (capture_if_kept env me ep c) (\<lambda>(before, before_err).
     case o1_client (entity_protocol me) (transport ep) of
       None \<Rightarrow> fail_with (Unhandled ''TypeError'')
     | Some client \<Rightarrow> then_do (dispatch_with_retries env i (edit_of client ep c)) (\<lambda>out. give (before, before_err, out)))"

definition dispatch_together ::
  "o1_environment \<Rightarrow> uid \<Rightarrow> managed_entity \<Rightarrow> o1_endpoint \<Rightarrow> wave_item list \<Rightarrow> (nat \<times> row_outcome) list cm" where
  "dispatch_together env i me ep items =
     then_do (map_each (\<lambda>k. capture_if_kept env me ep (change_of (item_row k))) items) (\<lambda>befores.
     then_do (dispatch_group_with_retries env i (map (\<lambda>k. edit_of NetconfSession ep (change_of (item_row k))) items)) (\<lambda>outs.
     give (zip (map item_index items) (map2 (\<lambda>(before, before_err) out. (before, before_err, out)) befores outs))))"

definition reject_row :: "sub_change \<Rightarrow> string \<Rightarrow> unit cm" where
  "reject_row row why = writing (update_subs (\<lambda>r. sub_id r = sub_id row) (\<lambda>r. r\<lparr>sub_status := ''REJECTED'', sub_reason := Some why\<rparr>))"

fun dispatch_items :: "o1_environment \<Rightarrow> uid \<Rightarrow> wave_item list \<Rightarrow> (nat \<times> row_outcome) list \<Rightarrow> wave_item list \<Rightarrow> unit cm" where
  "dispatch_items env i all outcomes [] = give ()"
| "dispatch_items env i all outcomes (item # items) =
     (case item_check item of
        (Some blocker, _, _) \<Rightarrow> then_do (reject_row (item_row item) blocker) (\<lambda>_. dispatch_items env i all outcomes items)
      | (None, Some me, Some ep) \<Rightarrow>
          if 1 < length (members_of env all item) then
            then_do (case map_of outcomes (item_index item) of
                       Some _ \<Rightarrow> give outcomes
                     | None \<Rightarrow> then_do (dispatch_together env i me ep (members_of env all item)) (\<lambda>outs. give (outs @ outcomes))) (\<lambda>known.
            case map_of known (item_index item) of
              None \<Rightarrow> fail_with (Unhandled ''KeyError'')
            | Some out \<Rightarrow> then_do (record_outcome env i (item_row item) out) (\<lambda>_. dispatch_items env i all known items))
          else
            then_do (dispatch_alone env i me ep (change_of (item_row item))) (\<lambda>out.
            then_do (record_outcome env i (item_row item) out) (\<lambda>_. dispatch_items env i all outcomes items))
      | _ \<Rightarrow> fail_with (Unhandled ''AttributeError''))"

definition dispatch_wave :: "o1_environment \<Rightarrow> uid \<Rightarrow> sub_change list \<Rightarrow> unit cm" where
  "dispatch_wave env i rows =
     then_do (map_each (\<lambda>r. dispatch_blocker env (change_of r)) rows) (\<lambda>checks.
     let items = map (\<lambda>(n, r, check). \<lparr>item_index = n, item_row = r, item_check = check\<rparr>) (zip [0..<length rows] (zip rows checks))
     in dispatch_items env i items [] items)"

end
