(* ===== verification/WriteJobs.thy ===== *)
theory WriteJobs
  imports ConfigJobs
begin

section \<open>Making, running and undoing a configuration job (ran-nf-oam/app/main.py)\<close>

text \<open>
  The undo plan of a job, the health gates between its waves, the loop over the waves, and
  \<open>_execute_write\<close>, which makes the job. The undo job of a failed gate is made by \<open>_execute_write\<close> itself:
  \<open>revert\<close> bounds how deep that goes.
\<close>

subsection \<open>Dictionaries in insertion order\<close>

fun dict_put :: "'k \<Rightarrow> 'v \<Rightarrow> ('k \<times> 'v) list \<Rightarrow> ('k \<times> 'v) list" where
  "dict_put k v [] = [(k, v)]"
| "dict_put k v ((k', v') # ps) = (if k' = k then (k, v) # ps else (k', v') # dict_put k v ps)"

definition dict_merge :: "('k \<times> 'v) list \<Rightarrow> ('k \<times> 'v) list \<Rightarrow> ('k \<times> 'v) list" where
  "dict_merge a b = fold (\<lambda>(k, v). dict_put k v) b a"

fun joined :: "string \<Rightarrow> string list \<Rightarrow> string" where
  "joined sep [] = []"
| "joined sep [x] = x"
| "joined sep (x # xs) = x @ sep @ joined sep xs"

subsection \<open>The plan that undoes a job\<close>

type_synonym mo_target = "string \<times> string option"

record undo_plan =
  undo_changes :: "change list"
  undo_expected :: "(mo_target \<times> attributes option) list"
  undo_problems :: "string list"

definition undo_of :: "cm_snapshot \<Rightarrow> string \<Rightarrow> attributes \<Rightarrow> change" where
  "undo_of row name attrs = \<lparr>target_element = snap_element row, target_function = or_none (snap_function row),
     attribute_changes = Some attrs, asked_operation = Some name\<rparr>"

definition snap_target :: "cm_snapshot \<Rightarrow> mo_target" where
  "snap_target row = (snap_element row, snap_function row)"

definition snap_label :: "cm_snapshot \<Rightarrow> string" where
  "snap_label row = (case or_none (snap_function row) of None \<Rightarrow> snap_element row | Some f \<Rightarrow> f)"

definition written :: "cm_snapshot \<Rightarrow> attributes" where
  "written row = (case after_image row of None \<Rightarrow> [] | Some a \<Rightarrow> a)"

definition left_there :: "cm_snapshot \<Rightarrow> undo_plan \<Rightarrow> attributes option" where
  "left_there row p = Some (dict_merge (case map_of (undo_expected p) (snap_target row) of Some (Some a) \<Rightarrow> a | _ \<Rightarrow> []) (written row))"

definition planned :: "cm_snapshot \<Rightarrow> change \<Rightarrow> attributes option \<Rightarrow> undo_plan \<Rightarrow> undo_plan" where
  "planned row c want p = p\<lparr>undo_changes := undo_changes p @ [c], undo_expected := dict_put (snap_target row) want (undo_expected p)\<rparr>"

definition cannot :: "string \<Rightarrow> undo_plan \<Rightarrow> undo_plan" where
  "cannot why p = p\<lparr>undo_problems := undo_problems p @ [why]\<rparr>"

definition plan_step :: "cm_snapshot \<Rightarrow> undo_plan \<Rightarrow> undo_plan" where
  "plan_step row p =
     (if snap_operation row \<in> {''merge'', ''replace''} then
        (case before_image row of
           None \<Rightarrow> cannot (snap_label row @ '': no before image ('' @
                     (case or_none (before_error row) of None \<Rightarrow> ''not recorded'' | Some e \<Rightarrow> e) @ '')'') p
         | Some before \<Rightarrow>
             (let absent = sort (filter (\<lambda>k. value_of before k = JNull) (map fst (written row)))
              in if absent \<noteq> [] then cannot (snap_label row @ '': '' @ joined '', '' absent @ '' had no value before the write, which cannot be restored'') p
                 else planned row (undo_of row ''merge'' (map (\<lambda>(k, _). (k, value_of before k)) (written row))) (left_there row p) p))
      else if snap_operation row = ''create'' then planned row (undo_of row ''delete'' []) (left_there row p) p
      else if snap_operation row \<in> {''delete'', ''remove''} then
        (case before_image row of
           Some (a # attrs) \<Rightarrow> planned row (undo_of row ''create'' (a # attrs)) None p
         | _ \<Rightarrow> cannot (snap_label row @ '': the deleted object's values were not recorded'') p)
      else cannot (snap_label row @ '': no way to undo a '' @ quoted (snap_operation row) @ '' write'') p)"

text \<open>
  The rows in order of their creation. Ids grow here, so rows of one instant come in the order they were made; the code breaks
  such a tie by a random id (creation times have microseconds, and an exchange with the element lies between two rows).
\<close>

definition undoable_rows :: "cm_store \<Rightarrow> uid \<Rightarrow> string set option \<Rightarrow> cm_snapshot list" where
  "undoable_rows db i only =
     sort_key snap_created_at (sort_key snapshot_id (filter (\<lambda>row. snap_job row = i \<and>
       (\<exists>r \<in> set (sub_changes db). sub_id r = snap_sub_change row \<and> sub_status r = ''APPLIED'') \<and>
       (case only of None \<Rightarrow> True | Some es \<Rightarrow> snap_element row \<in> es)) (snapshots db)))"

definition rollback_plan :: "cm_store \<Rightarrow> uid \<Rightarrow> string set option \<Rightarrow> undo_plan" where
  "rollback_plan db i only =
     (let rows = undoable_rows db i only; none = \<lparr>undo_changes = [], undo_expected = [], undo_problems = []\<rparr>
      in if rows = [] then none\<lparr>undo_problems :=
           [''the job applied nothing that has a snapshot (nothing was applied, snapshots are off, or they were purged)'']\<rparr>
         else let p = fold plan_step rows none in p\<lparr>undo_changes := rev (undo_changes p)\<rparr>)"

record difference =
  diff_target :: mo_target
  diff_attribute :: "string option"
  diff_expected :: json
  diff_actual :: json
  diff_error :: "string option"

definition unread :: "mo_target \<Rightarrow> attributes option \<Rightarrow> string \<Rightarrow> difference list" where
  "unread target want why = [\<lparr>diff_target = target, diff_attribute = None,
     diff_expected = (case want of None \<Rightarrow> JNull | Some a \<Rightarrow> JObject a), diff_actual = JNull, diff_error = Some why\<rparr>]"

definition differs :: "mo_target \<Rightarrow> attributes option \<Rightarrow> attributes \<Rightarrow> difference list" where
  "differs target want current =
     (case want of
        None \<Rightarrow> if current = [] then [] else [\<lparr>diff_target = target, diff_attribute = None, diff_expected = JNull, diff_actual = JObject current, diff_error = None\<rparr>]
      | Some a \<Rightarrow> map (\<lambda>(k, v). \<lparr>diff_target = target, diff_attribute = Some k, diff_expected = v, diff_actual = value_of current k, diff_error = None\<rparr>)
                      (filter (\<lambda>(k, v). py_str (value_of current k) \<noteq> py_str v) a))"

definition difference_of :: "o1_environment \<Rightarrow> mo_target \<times> attributes option \<Rightarrow> difference list cm" where
  "difference_of env entry =
     (case entry of (target, want) \<Rightarrow>
        then_do (reading (\<lambda>db. case get_entity (ran db) (fst target) of
            None \<Rightarrow> None
          | Some me \<Rightarrow> (case entity_endpoint_id me of None \<Rightarrow> None
              | Some e \<Rightarrow> (case get_endpoint db e of None \<Rightarrow> None
                  | Some ep \<Rightarrow> map_option (\<lambda>client. \<lparr>via = client, at_uri = adaptor_uri ep, obj_element = fst target, obj_function = snd target\<rparr>)
                                (o1_client (entity_protocol me) (transport ep)))))) (\<lambda>found.
        case found of
          None \<Rightarrow> give (unread target want ''the element has no reachable O1 adaptor to read'')
        | Some x \<Rightarrow> then_do (read_object env x) (\<lambda>r. give (case r of
              Values current \<Rightarrow> differs target want current
            | _ \<Rightarrow> unread target want ''the current values could not be read''))))"

definition changed_since :: "o1_environment \<Rightarrow> (mo_target \<times> attributes option) list \<Rightarrow> difference list cm" where
  "changed_since env expected = then_do (map_each (difference_of env) expected) (\<lambda>found. give (concat found))"

subsection \<open>Health gates\<close>

type_synonym cm_gate = "cm_store \<Rightarrow> write_config_job \<Rightarrow> sub_change list \<Rightarrow> seconds \<Rightarrow> string option"

definition wave_text :: "sub_change list \<Rightarrow> string" where
  "wave_text rows = (case rows of [] \<Rightarrow> [] | r # _ \<Rightarrow> str (sub_wave r))"

definition gate_rejections :: cm_gate where
  "gate_rejections db job rows started =
     (let rejected = filter (\<lambda>r. sub_status r = ''REJECTED'') rows
      in case rejected of [] \<Rightarrow> None
         | r # _ \<Rightarrow> Some (str (length rejected) @ '' sub-change(s) of wave '' @ wave_text rows @ '' were rejected (first: '' @
             (case or_none (sub_function r) of None \<Rightarrow> sub_element r | Some f \<Rightarrow> f) @ '': '' @
             (case sub_reason r of None \<Rightarrow> ''None'' | Some why \<Rightarrow> why) @ '')''))"

definition gate_alarms :: cm_gate where
  "gate_alarms db job rows started =
     (let raised = length (filter (\<lambda>a. alarm_element a \<in> sub_element ` set rows \<and> started \<le> raised_at a \<and> severity a \<in> {''critical'', ''major''}) (alarms (ran db)))
      in if cm_max_new_alarms job < raised
         then Some (str raised @ '' new critical or major alarm(s) on the elements of wave '' @ wave_text rows @ '' (limit '' @ str (cm_max_new_alarms job) @ '')'')
         else None)"

definition CM_GATES :: "cm_gate list" where "CM_GATES = [gate_rejections, gate_alarms]"

definition gate_failure :: cm_gate where
  "gate_failure db job rows started = (case List.map_filter (\<lambda>gate. gate db job rows started) CM_GATES of [] \<Rightarrow> None | why # _ \<Rightarrow> Some why)"

subsection \<open>The loop over the waves\<close>

definition finish_job :: "uid \<Rightarrow> unit cm" where
  "finish_job i =
     then_do (reading (\<lambda>db. map sub_status (subs_of db i))) (\<lambda>outcomes.
     then_do (fire_job i (aggregate_event outcomes)) (\<lambda>_.
     writing (update_cm_job i (\<lambda>j. j\<lparr>cm_next_wave_at := None\<rparr>))))"

definition halt_job :: "uid \<Rightarrow> job_halt \<Rightarrow> string option \<Rightarrow> seconds option \<Rightarrow> unit cm" where
  "halt_job i why detail next_at =
     then_do (fire_job i JobEvent.HALT) (\<lambda>_.
     writing (update_cm_job i (\<lambda>j. j\<lparr>cm_halted_reason := Some why, cm_halted_detail := detail, cm_next_wave_at := next_at\<rparr>)))"

function advance_from :: "o1_environment \<Rightarrow> (uid \<Rightarrow> string \<Rightarrow> unit cm) \<Rightarrow> uid \<Rightarrow> nat \<Rightarrow> nat \<Rightarrow> unit cm" where
  "advance_from env undo i count wave =
     then_do (now env) (\<lambda>started.
     then_do (reading (\<lambda>db. wave_rows db i wave)) (\<lambda>rows.
     then_do (dispatch_wave env i rows) (\<lambda>_.
     then_do (writing (update_cm_job i (\<lambda>j. j\<lparr>cm_current_wave := wave\<rparr>))) (\<lambda>_.
     if count \<le> wave then finish_job i
     else then_do (the_job i) (\<lambda>job.
          then_do (reading (\<lambda>db. gate_failure db job (wave_rows db i wave) started)) (\<lambda>failure.
          case failure of
            Some why \<Rightarrow> if cm_on_gate_failure job = RevertJob then undo i why else halt_job i GATE_FAILED (Some why) None
          | None \<Rightarrow>
              if 0 < cm_wave_pause job then then_do (now env) (\<lambda>t. halt_job i WAVE_PAUSE None (Some (t + int (cm_wave_pause job))))
              else advance_from env undo i count (Suc wave)))))))"
  by pat_completeness auto

termination by (relation "measure (\<lambda>(env, undo, i, count, wave). count - wave)") auto

declare advance_from.simps [simp del]

definition advance_with :: "o1_environment \<Rightarrow> (uid \<Rightarrow> string \<Rightarrow> unit cm) \<Rightarrow> uid \<Rightarrow> unit cm" where
  "advance_with env undo i = then_do (the_job i) (\<lambda>job. advance_from env undo i (cm_wave_count job) (Suc (cm_current_wave job)))"

subsection \<open>Decision records\<close>

definition APPROVAL_SWEEP_BATCH :: nat where "APPROVAL_SWEEP_BATCH = 100"

definition get_approval :: "cm_store \<Rightarrow> uid \<Rightarrow> action_approval option" where
  "get_approval db a = row_where (\<lambda>r. approval_id r = a) (approvals db)"

definition update_approval :: "uid \<Rightarrow> (action_approval \<Rightarrow> action_approval) \<Rightarrow> cm_store \<Rightarrow> cm_store" where
  "update_approval a f db = db\<lparr>approvals := update_where (\<lambda>r. approval_id r = a) f (approvals db)\<rparr>"

definition record_decision :: "o1_environment \<Rightarrow> string \<Rightarrow> write_request \<Rightarrow> disposition \<Rightarrow> uid option \<Rightarrow> uid option \<Rightarrow> unit cm" where
  "record_decision env who body how job approval =
     then_do (now env) (\<lambda>t.
     writing (\<lambda>db.
       let row = (case approval of None \<Rightarrow> None | Some a \<Rightarrow> get_approval db a)
       in db\<lparr>decisions := decisions db @
            [\<lparr>decision_id = fresh_id (map decision_id (decisions db)), occurred_at = t, dec_invoker = who, dec_requested_by = req_by body,
              dec_disposition = how, dec_job = job, dec_approval = approval,
              dec_context = (case req_decision body of Some d \<Rightarrow> d
                             | None \<Rightarrow> \<lparr>inputs_ref = None, model_version = None, rationale = None, action_id = None\<rparr>),
              dec_decided_by = (case row of None \<Rightarrow> None | Some r \<Rightarrow> appr_decided_by r),
              dec_decided_at = (case row of None \<Rightarrow> None | Some r \<Rightarrow> appr_decided_at r),
              dec_elements = elements_of body, dec_change_count = length (req_changes body),
              dec_approvers = (case row of None \<Rightarrow> None | Some r \<Rightarrow> if 1 < appr_required r then Some (map vote_by (appr_votes r)) else None),
              dec_audit_seq = None\<rparr>]\<rparr>))"

text \<open>Each record not yet in the audit chain gets its row there, the oldest first, one commit each, until one write of
  the chain fails. Nobody waits for it and nothing depends on it.\<close>

fun chain_oldest :: "nat \<Rightarrow> cm_store \<Rightarrow> cm_store" where
  "chain_oldest 0 db = db"
| "chain_oldest (Suc n) db =
     (case sort_key occurred_at (filter (\<lambda>d. dec_audit_seq d = None) (decisions db)) of
        [] \<Rightarrow> db
      | d # _ \<Rightarrow>
          let seq = fresh_id (map audited_seq (audited db))
          in chain_oldest n (db\<lparr>decisions := update_where (\<lambda>r. decision_id r = decision_id d) (\<lambda>r. r\<lparr>dec_audit_seq := Some seq\<rparr>) (decisions db),
               audited := audited db @ [\<lparr>audited_seq = seq, audited_invoker = dec_invoker d,
                                         audited_disposition = dec_disposition d, audited_decision = decision_id d\<rparr>]\<rparr>))"

definition chain_decisions_quietly :: "o1_environment \<Rightarrow> unit cm" where
  "chain_decisions_quietly env = then_do (writing (chain_oldest (min APPROVAL_SWEEP_BATCH (audit_writes env)))) (\<lambda>_. commit_session)"

subsection \<open>Holding a write for approval\<close>

definition approval_notice :: "seconds \<Rightarrow> string \<Rightarrow> action_approval \<Rightarrow> approval_subscription \<Rightarrow> notice" where
  "approval_notice t kind row sub =
     \<lparr>notice_target = approval_callback sub, notice_type = kind,
      notice_fields = [(''approvalId'', JInt (int (approval_id row))), (''invokerId'', JStr (appr_invoker row)),
        (''requestedBy'', JStr (appr_requested_by row)), (''managedElements'', JList (map JStr (appr_elements row))),
        (''changeCount'', JInt (int (length (req_changes (appr_request row)))))] @
        (if 1 < appr_required row
         then [(''requiredApprovals'', JInt (int (appr_required row))), (''approvalsGiven'', JInt (int (length (appr_votes row))))] else []),
      notice_at = t\<rparr>"

definition notify_approvers :: "o1_environment \<Rightarrow> string \<Rightarrow> uid \<Rightarrow> unit cm" where
  "notify_approvers env kind a =
     then_do (now env) (\<lambda>t.
     writing (\<lambda>db. case get_approval db a of None \<Rightarrow> db
       | Some row \<Rightarrow> db\<lparr>ran := (ran db)\<lparr>outbox := outbox (ran db) @ map (approval_notice t kind row) (approval_subscriptions db)\<rparr>\<rparr>))"

record dry_verdict =
  dry_element :: string
  dry_function :: "string option"
  dry_operation :: string
  dry_reason :: "string option"

datatype write_answer =
    JobSummary uid JobState nat nat "job_halt option"
  | ParkedFor uid seconds
  | DryRun bool "string list list" "dry_verdict list"

definition park_for_approval :: "o1_environment \<Rightarrow> write_request \<Rightarrow> string \<Rightarrow> approval_policy \<Rightarrow> scope option \<Rightarrow> write_answer cm" where
  "park_for_approval env body who policy sc =
     then_do (now env) (\<lambda>t.
     then_do (reading (\<lambda>db. fresh_id (map approval_id (approvals db)))) (\<lambda>a.
     let expires = t + int (policy_timeout policy)
     in then_do (writing (\<lambda>db. db\<lparr>approvals := approvals db @
            [\<lparr>approval_id = a, appr_invoker = who, appr_requested_by = req_by body, appr_status = approval_status.PENDING,
              appr_request = body, appr_elements = elements_of body, appr_created_at = t, appr_expires_at = expires,
              appr_on_timeout = policy_on_timeout policy, appr_decided_by = None, appr_decided_at = None, appr_decision_reason = None,
              appr_job = None, appr_refusal_code = None, appr_requester_scope = to_claim sc,
              appr_required = policy_required policy, appr_votes = []\<rparr>]\<rparr>)) (\<lambda>_.
        then_do (notify_approvers env ''RAPP_APPROVAL_REQUESTED'' a) (\<lambda>_.
        then_do commit_session (\<lambda>_. give (ParkedFor a expires))))))"

subsection \<open>The checks of a write\<close>

definition denied_changes :: "cm_store \<Rightarrow> write_request \<Rightarrow> py_error + change list" where
  "denied_changes db body =
     (let roles = snd (resolve_roles (access db) (req_by body) (req_msac_role body))
      in and_then (collect (\<lambda>c. and_then (target_path (target_element c) (target_function c)) (\<lambda>target.
             Inr (c, case CONFIG_OPERATION (operation_of c) of None \<Rightarrow> True | Some p \<Rightarrow> \<not> authorize (access db) roles target p))) (req_changes body)) (\<lambda>judged.
         Inr (map fst (filter snd judged))))"

definition check_access :: "cm_store \<Rightarrow> write_request \<Rightarrow> http_error + unit" where
  "check_access db body =
     (if fst (resolve_roles (access db) (req_by body) (req_msac_role body)) then
        (case denied_changes db body of
           Inl _ \<Rightarrow> Inl (Unhandled ''ValueError'')
         | Inr denied \<Rightarrow> if denied \<noteq> [] then Inl MSAC_ACCESS_DENIED else Inr ())
      else if req_scope body = Some ''entire-RAN'' \<and> or_none (req_msac_role body) = None then Inl MSAC_ACCESS_DENIED
      else Inr ())"

definition check_changes :: "o1_environment \<Rightarrow> cm_store \<Rightarrow> write_request \<Rightarrow> http_error + unit" where
  "check_changes env db body =
     and_then (collect (\<lambda>c. and_then (require_service (ran db) (target_element c) ''PROV'') (\<lambda>_. Inr (schema_problems env c))) (req_changes body)) (\<lambda>problems.
     if concat problems \<noteq> [] then Inl SCHEMA_VALIDATION_FAILED else Inr ())"

definition check_guard :: "cm_store \<Rightarrow> write_request \<Rightarrow> http_error + unit" where
  "check_guard db body =
     (case req_kpi_guard body of None \<Rightarrow> Inr () | Some g \<Rightarrow> if guard_kpi g \<in> set (kpi_names db) then Inr () else Inl KPI_NOT_FOUND)"

definition plan_dry_run :: "o1_environment \<Rightarrow> write_request \<Rightarrow> write_answer cm" where
  "plan_dry_run env body =
     then_do (map_each (\<lambda>c. then_do (dispatch_blocker env c) (\<lambda>(blocker, _, _).
        give \<lparr>dry_element = target_element c, dry_function = target_function c, dry_operation = operation_of c, dry_reason = blocker\<rparr>))
        (req_changes body)) (\<lambda>verdicts.
     give (DryRun (list_all (\<lambda>v. dry_reason v = None) verdicts)
             (map (\<lambda>w. filter (\<lambda>e. wave_of body e = w) (elements_of body)) [1..<Suc (waves_in body)]) verdicts))"

subsection \<open>Making the job\<close>

definition CHANGE_WINDOW_CLOSED :: http_error where "CHANGE_WINDOW_CLOSED = Problem ''CHANGE_WINDOW_CLOSED'' 409"
definition CHANGE_WINDOW_NOT_OPEN :: http_error where "CHANGE_WINDOW_NOT_OPEN = Problem ''CHANGE_WINDOW_NOT_OPEN'' 409"

definition window_shut :: "seconds \<Rightarrow> seconds option \<Rightarrow> bool" where
  "window_shut t close = (case close of None \<Rightarrow> False | Some e \<Rightarrow> e \<le> t)"

definition not_open_yet :: "seconds \<Rightarrow> seconds option \<Rightarrow> bool" where
  "not_open_yet t opening = (case opening of None \<Rightarrow> False | Some s \<Rightarrow> t < s)"

definition job_summary :: "write_config_job \<Rightarrow> write_answer" where
  "job_summary job = JobSummary (cm_job_id job) (cm_status job) (cm_current_wave job) (cm_wave_count job) (cm_halted_reason job)"

definition make_job ::
  "seconds \<Rightarrow> write_request \<Rightarrow> change_window option \<Rightarrow> string option \<Rightarrow> uid option \<Rightarrow> bool \<Rightarrow> uid \<Rightarrow> cm_store \<Rightarrow> cm_store" where
  "make_job t body window invoker undoes forced i db = db\<lparr>cm_jobs := cm_jobs db @
     [\<lparr>cm_job_id = i, config_invoker_id = invoker, config_rollback_of = undoes, cm_requested_by = req_by body,
       cm_scope = (case req_scope body of None \<Rightarrow> [] | Some s \<Rightarrow> s), cm_validated_at = Some t, cm_status = JobState.PENDING,
       cm_msac_role = req_msac_role body, cm_forced = forced, cm_wave_size = req_wave_size body, cm_wave_pause = req_wave_pause body,
       cm_wave_count = waves_in body, cm_current_wave = 0, cm_max_new_alarms = req_max_new_alarms body,
       cm_on_gate_failure = req_on_gate_failure body, cm_next_wave_at = None, cm_halted_reason = None, cm_halted_detail = None,
       cm_created_at = t, cm_kpi_guard = req_kpi_guard body, cm_guard_result = None, cm_guard_checked_at = None,
       cm_scheduled_at = (case window of None \<Rightarrow> None | Some w \<Rightarrow> window_start w),
       cm_window_end = (case window of None \<Rightarrow> None | Some w \<Rightarrow> window_close w),
       cm_decided_by = None, cm_decided_at = None, cm_decision_reason = None\<rparr>]\<rparr>"

definition sub_change_of :: "write_request \<Rightarrow> uid \<Rightarrow> uid \<Rightarrow> nat \<times> change \<Rightarrow> sub_change" where
  "sub_change_of body i first entry =
     (case entry of (n, c) \<Rightarrow>
        \<lparr>sub_id = first + n, sub_job = i, sub_element = target_element c, sub_function = target_function c,
         sub_attributes = attributes_of c, sub_operation = operation_of c, sub_status = ''PENDING'', sub_reason = None, sub_detail = None,
         sub_attempts = 0, sub_position = n, sub_wave = wave_of body (target_element c)\<rparr>)"

definition make_sub_changes :: "write_request \<Rightarrow> uid \<Rightarrow> cm_store \<Rightarrow> cm_store" where
  "make_sub_changes body i db =
     db\<lparr>sub_changes := sub_changes db @
          map (sub_change_of body i (fresh_id (map sub_id (sub_changes db)))) (zip [0..<length (req_changes body)] (req_changes body))\<rparr>"

text \<open>The caller commits.\<close>

definition approve_window ::
  "o1_environment \<Rightarrow> (uid \<Rightarrow> string \<Rightarrow> unit cm) \<Rightarrow> uid \<Rightarrow> string \<Rightarrow> string option \<Rightarrow> unit cm" where
  "approve_window env undo i decider why =
     then_do (now env) (\<lambda>t.
     then_do (the_job i) (\<lambda>job.
     if window_shut t (cm_window_end job) then fail_with CHANGE_WINDOW_CLOSED
     else then_do (writing (update_cm_job i (\<lambda>j. j\<lparr>cm_decided_by := Some decider, cm_decided_at := Some t, cm_decision_reason := why\<rparr>))) (\<lambda>_.
     if not_open_yet t (cm_scheduled_at job) then fire_job i APPROVE_FOR_WINDOW
     else then_do (refuse_if_killed env (config_invoker_id job) (Some (cm_requested_by job))) (\<lambda>_.
          then_do (fire_job i APPROVE) (\<lambda>_.
          then_do (writing (update_cm_job i (\<lambda>j. j\<lparr>cm_validated_at := Some t\<rparr>))) (\<lambda>_.
          advance_with env undo i))))))"

text \<open>What a job is made for: the job it undoes and whether over later changes, who calls, the rApp it is for, whether a
  policy may hold it, the approval it comes from and the scope of the requester.\<close>

record write_origin =
  undoes :: "uid option"
  forced_undo :: bool
  invoker :: "string option"
  actor :: "string option"
  may_park :: bool
  from_approval :: "uid option"
  caller_scope :: "scope option"

definition plain_origin :: "uid option \<Rightarrow> bool \<Rightarrow> write_origin" where
  "plain_origin job force = \<lparr>undoes = job, forced_undo = force, invoker = None, actor = None, may_park = False,
     from_approval = None, caller_scope = None\<rparr>"

text \<open>From the row of the new job on.\<close>

definition run_new_job ::
  "o1_environment \<Rightarrow> (uid \<Rightarrow> string \<Rightarrow> unit cm) \<Rightarrow> write_request \<Rightarrow> write_origin \<Rightarrow> bool \<Rightarrow> uid \<Rightarrow> write_answer cm" where
  "run_new_job env undo body why hold i =
     then_do (fire_job i (if hold then REQUEST_APPROVAL else PRECHECK_PASS)) (\<lambda>_.
     then_do (writing (make_sub_changes body i)) (\<lambda>_.
     then_do (case from_approval why of None \<Rightarrow> give ()
              | Some a \<Rightarrow> writing (update_approval a (\<lambda>r. r\<lparr>appr_status := approval_status.APPROVED, appr_job := Some i\<rparr>))) (\<lambda>_.
     then_do (case or_none (actor why) of None \<Rightarrow> give ()
              | Some who \<Rightarrow> record_decision env who body
                  (if undoes why \<noteq> None then ROLLBACK else if from_approval why \<noteq> None then disposition.APPROVED else DIRECT)
                  (Some i) (from_approval why)) (\<lambda>_.
     then_do (if hold then (case from_approval why of
                  None \<Rightarrow> give ()
                | Some a \<Rightarrow> then_do (reading (\<lambda>db. case get_approval db a of None \<Rightarrow> None | Some r \<Rightarrow> or_none (appr_decided_by r))) (\<lambda>who.
                    approve_window env undo i (case who of None \<Rightarrow> ''system:rapp-approval'' | Some w \<Rightarrow> w)
                      (Some (''approved as rApp request '' @ str a))))
              else advance_with env undo i) (\<lambda>_.
     then_do commit_session (\<lambda>_.
     then_do (if or_none (actor why) \<noteq> None then chain_decisions_quietly env else give ()) (\<lambda>_.
     then_do (the_job i) (\<lambda>job. give (job_summary job)))))))))"

definition start_job :: "o1_environment \<Rightarrow> (uid \<Rightarrow> string \<Rightarrow> unit cm) \<Rightarrow> write_request \<Rightarrow> write_origin \<Rightarrow> write_answer cm" where
  "start_job env undo body why =
     (let window = (if undoes why = None then req_window body else None);
          hold = (undoes why = None \<and> (window \<noteq> None \<or> req_require_approval body))
      in then_do (now env) (\<lambda>t.
         if (case window of None \<Rightarrow> False | Some w \<Rightarrow> window_shut t (window_close w)) then fail_with SCHEMA_VALIDATION_FAILED
         else then_do (reading (\<lambda>db. fresh_id (map cm_job_id (cm_jobs db)))) (\<lambda>i.
              then_do (writing (make_job t body window (invoker why) (undoes why) (forced_undo why) i)) (\<lambda>_.
              run_new_job env undo body why hold i))))"

definition execute_write_with ::
  "o1_environment \<Rightarrow> (uid \<Rightarrow> string \<Rightarrow> unit cm) \<Rightarrow> write_request \<Rightarrow> write_origin \<Rightarrow> write_answer cm" where
  "execute_write_with env undo body why =
     then_do (reading (\<lambda>db. and_then (check_access db body) (\<lambda>_. and_then (check_changes env db body) (\<lambda>_. check_guard db body)))) (\<lambda>checked.
     then_do (from_sum checked) (\<lambda>_.
     if req_dry_run body then plan_dry_run env body
     else then_do (reading (\<lambda>db. if may_park why then (case or_none (invoker why) of None \<Rightarrow> None
            | Some who \<Rightarrow> row_where (\<lambda>p. policy_invoker p = who) (policies db)) else None)) (\<lambda>policy.
          case policy of
            Some p \<Rightarrow> park_for_approval env body (policy_invoker p) p (caller_scope why)
          | None \<Rightarrow> start_job env undo body why)))"

subsection \<open>Undoing what the waves applied\<close>

definition undo_request :: "string \<Rightarrow> string \<Rightarrow> string option \<Rightarrow> change list \<Rightarrow> http_error + write_request" where
  "undo_request by_whom access_scope role changes =
     (case validated (plain_request by_whom access_scope role changes) of
        Inl _ \<Rightarrow> Inl (Unhandled ''ValidationError'') | Inr body \<Rightarrow> Inr body)"

definition state_text :: "JobState \<Rightarrow> string" where
  "state_text st = (case st of JobState.PENDING \<Rightarrow> ''PENDING'' | PENDING_APPROVAL \<Rightarrow> ''PENDING_APPROVAL'' | SCHEDULED \<Rightarrow> ''SCHEDULED''
     | PROCESSING \<Rightarrow> ''PROCESSING'' | JobState.HALTED \<Rightarrow> ''HALTED'' | JobState.COMPLETED \<Rightarrow> ''COMPLETED''
     | PARTIAL_SUCCESS \<Rightarrow> ''PARTIAL_SUCCESS'' | JobState.FAILED \<Rightarrow> ''FAILED'' | JobState.REJECTED \<Rightarrow> ''REJECTED'')"

definition mark_reverted :: "uid \<Rightarrow> cm_store \<Rightarrow> cm_store" where
  "mark_reverted i = update_subs (\<lambda>r. sub_job r = i) (\<lambda>r.
     if sub_status r = ''APPLIED'' then r\<lparr>sub_status := ''REVERTED''\<rparr>
     else if sub_status r = ''PENDING'' then r\<lparr>sub_status := ''REJECTED'', sub_reason := Some ''WAVE_NOT_RUN''\<rparr> else r)"

definition auto_revert :: "o1_environment \<Rightarrow> (write_request \<Rightarrow> write_origin \<Rightarrow> write_answer cm) \<Rightarrow> uid \<Rightarrow> string \<Rightarrow> unit cm" where
  "auto_revert env write i failure =
     then_do (the_job i) (\<lambda>job.
     then_do (reading (\<lambda>db. rollback_plan db i None)) (\<lambda>plan.
     then_do (if undo_problems plan = [] then changed_since env (undo_expected plan) else give []) (\<lambda>changed.
     if undo_problems plan \<noteq> [] \<or> changed \<noteq> [] then
       halt_job i REVERT_REFUSED (Some (failure @ ''; not reverted: '' @
         (if undo_problems plan \<noteq> [] then joined ''; '' (undo_problems plan)
          else str (length changed) @ '' value(s) changed since the waves wrote them''))) None
     else then_do (from_sum (undo_request (cm_requested_by job) (cm_scope job) (cm_msac_role job) (undo_changes plan))) (\<lambda>body.
          then_do (write body (plain_origin (Some i) False)) (\<lambda>answer.
          case answer of
            JobSummary u st _ _ _ \<Rightarrow>
              if st \<noteq> JobState.COMPLETED then
                halt_job i REVERT_REFUSED (Some (failure @ ''; the revert job '' @ str u @ '' ended '' @ state_text st)) None
              else then_do (writing (mark_reverted i)) (\<lambda>_.
                   then_do (writing (update_cm_job i (\<lambda>j. j\<lparr>cm_halted_reason := Some GATE_FAILED,
                       cm_halted_detail := Some (failure @ ''; reverted by job '' @ str u)\<rparr>))) (\<lambda>_.
                   finish_job i))
          | _ \<Rightarrow> fail_with (Unhandled ''KeyError''))))))"

text \<open>A write whose undo may itself be undone \<open>n\<close> times; an undo job has one wave, so it never is.\<close>

primrec revert :: "nat \<Rightarrow> o1_environment \<Rightarrow> uid \<Rightarrow> string \<Rightarrow> unit cm" where
  "revert 0 env = (\<lambda>_ _. fail_with (Unhandled ''RecursionError''))"
| "revert (Suc n) env = auto_revert env (execute_write_with env (revert n env))"

definition execute_write :: "o1_environment \<Rightarrow> write_request \<Rightarrow> write_origin \<Rightarrow> write_answer cm" where
  "execute_write env = execute_write_with env (revert 1 env)"

definition advance :: "o1_environment \<Rightarrow> uid \<Rightarrow> unit cm" where
  "advance env = advance_with env (revert 1 env)"

end
