(* ===== verification/Approvals.thy ===== *)
theory Approvals
  imports WriteJobs
begin

section \<open>Approvals of rApp actions (ran-nf-oam/app/main.py)\<close>

text \<open>
  A request parked for a person: the policies, who may decide, the votes, the lapse at its time, and the
  approval that makes the job. Names are compared as \<open>str.casefold\<close> does on ASCII; the row lock of a
  decision makes each route one step.
\<close>

subsection \<open>Requests as the routes see them\<close>

definition role_of :: "headers \<Rightarrow> string option" where "role_of h = h ROLE_HEADER"

definition acting_user :: "headers \<Rightarrow> string option" where
  "acting_user h = (if role_of h = Some ROLE_INTERNAL then or_none (map_option strip (h ACTING_USER_HEADER)) else None)"

definition request_scope :: "o1_environment \<Rightarrow> headers \<Rightarrow> scope option" where
  "request_scope env h = scope_of (claim_loads env) h"

definition acting_rapp :: "headers \<Rightarrow> string option" where
  "acting_rapp h = (if role_of h = Some ROLE_INTERNAL \<and> or_none (h ON_BEHALF_OF_HEADER) = None then None else invoker_id h)"

text \<open>Nobody's jobs, or the invoker whose jobs the caller is limited to.\<close>

definition job_owner_filter :: "o1_environment \<Rightarrow> headers \<Rightarrow> string option option" where
  "job_owner_filter env h =
     (if request_scope env h = None then None
      else if role_of h = Some ROLE_INTERNAL \<and> or_none (h ON_BEHALF_OF_HEADER) = None then None
      else Some (invoker_id h))"

subsection \<open>Policies and subscriptions\<close>

definition policy_body_ok :: "string \<Rightarrow> nat \<Rightarrow> nat \<Rightarrow> bool" where
  "policy_body_ok asker timeout required \<longleftrightarrow> asker \<noteq> [] \<and> 60 \<le> timeout \<and> timeout \<le> 604800 \<and> required \<in> {1, 2}"

definition set_approval_policy :: "headers \<Rightarrow> string \<Rightarrow> string \<Rightarrow> nat \<Rightarrow> timeout_action \<Rightarrow> nat \<Rightarrow> unit cm" where
  "set_approval_policy h who asker timeout on_timeout required =
     (if \<not> policy_body_ok asker timeout required then fail_with SCHEMA_VALIDATION_FAILED
      else then_do (not_own_limit (invoker_id h) who) (\<lambda>_.
           then_do (writing (\<lambda>db.
             let row = \<lparr>policy_invoker = who, policy_timeout = timeout, policy_on_timeout = on_timeout, policy_set_by = Some asker, policy_required = required\<rparr>
             in if row_where (\<lambda>p. policy_invoker p = who) (policies db) = None then db\<lparr>policies := policies db @ [row]\<rparr>
                else db\<lparr>policies := update_where (\<lambda>p. policy_invoker p = who) (\<lambda>_. row) (policies db)\<rparr>)) (\<lambda>_.
           commit_session)))"

definition delete_approval_policy :: "headers \<Rightarrow> string \<Rightarrow> unit cm" where
  "delete_approval_policy h who =
     then_do (not_own_limit (invoker_id h) who) (\<lambda>_.
     then_do (reading (\<lambda>db. row_where (\<lambda>p. policy_invoker p = who) (policies db))) (\<lambda>row.
     if row = None then fail_with APPROVAL_POLICY_NOT_FOUND
     else then_do (writing (\<lambda>db. db\<lparr>policies := delete_where (\<lambda>p. policy_invoker p = who) (policies db)\<rparr>)) (\<lambda>_. commit_session)))"

definition subscribe_to_approvals :: "o1_environment \<Rightarrow> string \<Rightarrow> unit cm" where
  "subscribe_to_approvals env uri =
     (if uri = [] \<or> 2000 < length uri \<or> \<not> safe_destination env uri then fail_with SCHEMA_VALIDATION_FAILED
      else then_do (writing (\<lambda>db. db\<lparr>approval_subscriptions := approval_subscriptions db @
             [\<lparr>approval_subscription_id = fresh_id (map approval_subscription_id (approval_subscriptions db)), approval_callback = uri\<rparr>]\<rparr>)) (\<lambda>_.
           commit_session))"

definition unsubscribe_from_approvals :: "uid \<Rightarrow> unit cm" where
  "unsubscribe_from_approvals i =
     then_do (reading (\<lambda>db. row_where (\<lambda>s. approval_subscription_id s = i) (approval_subscriptions db))) (\<lambda>row.
     if row = None then fail_with APPROVAL_SUBSCRIPTION_NOT_FOUND
     else then_do (writing (\<lambda>db. db\<lparr>approval_subscriptions :=
            delete_where (\<lambda>s. approval_subscription_id s = i) (approval_subscriptions db)\<rparr>)) (\<lambda>_. commit_session))"

subsection \<open>Who decides\<close>

definition SYSTEM_DECIDER :: string where "SYSTEM_DECIDER = ''system:timeout''"
definition APPROVAL_ALREADY_GIVEN :: http_error where "APPROVAL_ALREADY_GIVEN = Problem ''APPROVAL_ALREADY_GIVEN'' 409"
definition APPROVER_IDENTITY_REQUIRED :: http_error where "APPROVER_IDENTITY_REQUIRED = Problem ''APPROVER_IDENTITY_REQUIRED'' 403"
definition APPROVER_IDENTITY_MISMATCH :: http_error where "APPROVER_IDENTITY_MISMATCH = Problem ''APPROVER_IDENTITY_MISMATCH'' 403"

definition same_person :: "string \<Rightarrow> string \<Rightarrow> bool" where
  "same_person a b \<longleftrightarrow> lower (strip a) = lower (strip b)"

definition decider :: "headers \<Rightarrow> string option \<Rightarrow> http_error + string" where
  "decider h claimed =
     (if role_of h \<noteq> Some ROLE_INTERNAL then (case claimed of None \<Rightarrow> Inl SCHEMA_VALIDATION_FAILED | Some who \<Rightarrow> Inr who)
      else case acting_user h of
             None \<Rightarrow> Inl APPROVER_IDENTITY_REQUIRED
           | Some verified \<Rightarrow> (case claimed of None \<Rightarrow> Inr verified
               | Some who \<Rightarrow> if same_person who verified then Inr verified else Inl APPROVER_IDENTITY_MISMATCH))"

definition the_approval :: "uid \<Rightarrow> action_approval cm" where
  "the_approval a = then_do (reading (\<lambda>db. get_approval db a)) (\<lambda>row.
     case row of None \<Rightarrow> fail_with APPROVAL_NOT_FOUND | Some r \<Rightarrow> give r)"

definition pending_and_due :: "seconds \<Rightarrow> action_approval \<Rightarrow> bool" where
  "pending_and_due t row \<longleftrightarrow> appr_status row = approval_status.PENDING \<and> appr_expires_at row \<le> t"

text \<open>True when it lapsed; \<open>t\<close> is when the caller says it is.\<close>

definition lapse_if_due :: "o1_environment \<Rightarrow> uid \<Rightarrow> seconds \<Rightarrow> bool cm" where
  "lapse_if_due env a t =
     then_do (reading (\<lambda>db. get_approval db a)) (\<lambda>found.
     case found of None \<Rightarrow> give False
     | Some row \<Rightarrow>
         if \<not> pending_and_due t row then give False
         else let st = (if appr_on_timeout row = REJECT then approval_status.REJECTED else approval_status.EXPIRED)
              in then_do (writing (update_approval a (\<lambda>r. r\<lparr>appr_status := st, appr_decided_by := Some SYSTEM_DECIDER, appr_decided_at := Some t,
                     appr_decision_reason := Some ''nobody decided before it expired''\<rparr>))) (\<lambda>_.
                 then_do (record_decision env (appr_invoker row) (appr_request row)
                     (if st = approval_status.REJECTED then disposition.REJECTED else disposition.EXPIRED) None (Some a)) (\<lambda>_.
                 then_do (notify_approvers env ''RAPP_APPROVAL_LAPSED'' a) (\<lambda>_. give True))))"

fun lapse_each :: "o1_environment \<Rightarrow> seconds \<Rightarrow> uid list \<Rightarrow> uid list cm" where
  "lapse_each env t [] = give []"
| "lapse_each env t (a # as) =
     then_do (lapse_if_due env a t) (\<lambda>lapsed.
     then_do (if lapsed then commit_session else rollback_session) (\<lambda>_.
     then_do (lapse_each env t as) (\<lambda>rest. give (if lapsed then a # rest else rest))))"

definition lapse_due_approvals :: "o1_environment \<Rightarrow> uid list cm" where
  "lapse_due_approvals env =
     then_do (now env) (\<lambda>t.
     then_do (reading (\<lambda>db. map approval_id (take APPROVAL_SWEEP_BATCH (sort_key appr_expires_at (filter (pending_and_due t) (approvals db)))))) (\<lambda>due.
     then_do (lapse_each env t due) (\<lambda>lapsed.
     then_do (if lapsed \<noteq> [] then chain_decisions_quietly env else give ()) (\<lambda>_. give lapsed))))"

text \<open>Lapsed just now, and kept so.\<close>

definition settle_lapse :: "o1_environment \<Rightarrow> uid \<Rightarrow> unit cm" where
  "settle_lapse env a =
     then_do (now env) (\<lambda>t.
     then_do (lapse_if_due env a t) (\<lambda>lapsed.
     if lapsed then then_do commit_session (\<lambda>_. chain_decisions_quietly env) else give ()))"

definition read_approval :: "o1_environment \<Rightarrow> headers \<Rightarrow> uid \<Rightarrow> action_approval cm" where
  "read_approval env h a =
     then_do (the_approval a) (\<lambda>row.
     if (case job_owner_filter env h of None \<Rightarrow> False | Some owner \<Rightarrow> Some (appr_invoker row) \<noteq> owner) then fail_with APPROVAL_NOT_FOUND
     else then_do (settle_lapse env a) (\<lambda>_. the_approval a))"

definition own_decision :: "headers \<Rightarrow> string \<Rightarrow> action_approval \<Rightarrow> bool" where
  "own_decision h who row \<longleftrightarrow> who = appr_invoker row \<or> who = appr_requested_by row \<or> invoker_id h = Some (appr_invoker row) \<or>
     (1 < appr_required row \<and> (same_person who (appr_invoker row) \<or> same_person who (appr_requested_by row)))"

definition decision_body_ok :: "string option \<Rightarrow> string option \<Rightarrow> bool" where
  "decision_body_ok claimed why \<longleftrightarrow> (case claimed of None \<Rightarrow> True | Some w \<Rightarrow> 1 \<le> length w \<and> length w \<le> 200) \<and>
     (case why of None \<Rightarrow> True | Some r \<Rightarrow> length r \<le> 1000)"

definition decidable :: "o1_environment \<Rightarrow> headers \<Rightarrow> uid \<Rightarrow> string option \<Rightarrow> string option \<Rightarrow> (string \<times> action_approval) cm" where
  "decidable env h a claimed why =
     (if \<not> decision_body_ok claimed why then fail_with SCHEMA_VALIDATION_FAILED
      else if role_of h = Some ROLE_RAPP then fail_with ROLE_NOT_PERMITTED
      else then_do (from_sum (decider h claimed)) (\<lambda>who.
           then_do (the_approval a) (\<lambda>row.
           if own_decision h who row then fail_with APPROVAL_SELF_DECISION
           else then_do (settle_lapse env a) (\<lambda>_.
                then_do (the_approval a) (\<lambda>row'.
                if appr_status row' \<noteq> approval_status.PENDING then fail_with APPROVAL_NOT_PENDING else give (who, row'))))))"

subsection \<open>Approving and rejecting\<close>

definition cast_vote :: "uid \<Rightarrow> string \<Rightarrow> seconds \<Rightarrow> string option \<Rightarrow> unit cm" where
  "cast_vote a who t why =
     writing (update_approval a (\<lambda>r. r\<lparr>appr_votes := appr_votes r @ [\<lparr>vote_by = who, vote_at = t, vote_reason = why\<rparr>]\<rparr>))"

definition has_voted :: "string \<Rightarrow> action_approval \<Rightarrow> bool" where
  "has_voted who row \<longleftrightarrow> list_ex (\<lambda>v. same_person (vote_by v) who) (appr_votes row)"

definition sign :: "uid \<Rightarrow> string \<Rightarrow> seconds \<Rightarrow> string option \<Rightarrow> unit cm" where
  "sign a who t why = writing (update_approval a (\<lambda>r. r\<lparr>appr_decided_by := Some who, appr_decided_at := Some t, appr_decision_reason := why\<rparr>))"

text \<open>The safeguards again, then the write.\<close>

definition run_approved :: "o1_environment \<Rightarrow> uid \<Rightarrow> action_approval \<Rightarrow> string \<Rightarrow> string option \<Rightarrow> write_answer cm" where
  "run_approved env a row who why =
     (let caller = Some (appr_invoker row); asker = Some (appr_requested_by row); body = appr_request row
      in then_do (refuse_if_killed env caller asker) (\<lambda>_.
         then_do (enforce_rapp_limit env caller asker) (\<lambda>_.
         then_do (enforce_scope env (from_introspection (appr_requester_scope row)) caller asker (map target_element (req_changes body))) (\<lambda>_.
         then_do (enforce_change_limits env body caller) (\<lambda>_.
         then_do (now env) (\<lambda>t.
         then_do (sign a who t why) (\<lambda>_.
         execute_write env body \<lparr>undoes = None, forced_undo = False, invoker = caller, actor = caller, may_park = False,
           from_approval = Some a, caller_scope = None\<rparr>)))))))"

definition close_refused :: "o1_environment \<Rightarrow> uid \<Rightarrow> string \<Rightarrow> string option \<Rightarrow> http_error \<Rightarrow> unit cm" where
  "close_refused env a who why err =
     then_do (the_approval a) (\<lambda>row.
     if appr_status row \<noteq> approval_status.PENDING then give ()
     else then_do (now env) (\<lambda>t.
          then_do (writing (update_approval a (\<lambda>r. r\<lparr>appr_status := approval_status.REFUSED, appr_refusal_code := Some (code_of err),
             appr_decided_by := Some who, appr_decided_at := Some t, appr_decision_reason := why\<rparr>))) (\<lambda>_.
          then_do (if 1 < appr_required row \<and> \<not> has_voted who row then cast_vote a who t why else give ()) (\<lambda>_.
          then_do (record_decision env (appr_invoker row) (appr_request row) disposition.REFUSED None (Some a)) (\<lambda>_.
          then_do commit_session (\<lambda>_. chain_decisions_quietly env))))))"

text \<open>Only an HTTP error is caught; anything else leaves the request pending.\<close>

definition or_close_refused :: "o1_environment \<Rightarrow> uid \<Rightarrow> string \<Rightarrow> string option \<Rightarrow> 'a cm \<Rightarrow> 'a cm" where
  "or_close_refused env a who why m =
     catch m (\<lambda>err. case err of
       Unhandled _ \<Rightarrow> fail_with err
     | Problem _ _ \<Rightarrow> then_do rollback_session (\<lambda>_. then_do (close_refused env a who why err) (\<lambda>_. fail_with err)))"

definition approve_action :: "o1_environment \<Rightarrow> headers \<Rightarrow> uid \<Rightarrow> string option \<Rightarrow> string option \<Rightarrow> (action_approval \<times> JobState option) cm" where
  "approve_action env h a claimed why =
     then_do (decidable env h a claimed why) (\<lambda>(who, row).
     then_do (now env) (\<lambda>t.
     if 1 < appr_required row \<and> has_voted who row then fail_with APPROVAL_ALREADY_GIVEN
     else then_do (if 1 < appr_required row then cast_vote a who t why else give ()) (\<lambda>_.
     if 1 < appr_required row \<and> length (appr_votes row) + 1 < appr_required row then
       then_do commit_session (\<lambda>_. then_do (the_approval a) (\<lambda>row'. give (row', None)))
     else then_do (or_close_refused env a who why (run_approved env a row who why)) (\<lambda>answer.
          then_do (the_approval a) (\<lambda>row'.
          give (row', case answer of JobSummary _ st _ _ _ \<Rightarrow> Some st | _ \<Rightarrow> None))))))"

definition reject_action :: "o1_environment \<Rightarrow> headers \<Rightarrow> uid \<Rightarrow> string option \<Rightarrow> string option \<Rightarrow> action_approval cm" where
  "reject_action env h a claimed why =
     then_do (decidable env h a claimed why) (\<lambda>(who, row).
     then_do (now env) (\<lambda>t.
     then_do (writing (update_approval a (\<lambda>r. r\<lparr>appr_status := approval_status.REJECTED,
        appr_decided_by := Some who, appr_decided_at := Some t, appr_decision_reason := why\<rparr>))) (\<lambda>_.
     then_do (record_decision env (appr_invoker row) (appr_request row) disposition.REJECTED None (Some a)) (\<lambda>_.
     then_do commit_session (\<lambda>_.
     then_do (chain_decisions_quietly env) (\<lambda>_. the_approval a))))))"

end
