(* ===== verification/ConfigRoutes.thy ===== *)
theory ConfigRoutes
  imports Approvals
begin

section \<open>The routes of the configuration jobs (ran-nf-oam/app/main.py)\<close>

text \<open>
  A new write, and every route that acts on a job: rollback, KPI check and guard, continue, halt, abort, the
  scheduler's sweep, and the approval of a job held for its change window. Rationals stand for floats.
\<close>

definition write_configuration_changes :: "o1_environment \<Rightarrow> headers \<Rightarrow> write_request \<Rightarrow> write_answer cm" where
  "write_configuration_changes env h asked =
     then_do (from_sum (validated asked)) (\<lambda>body.
     let caller = invoker_id h; sc = request_scope env h; asker = Some (req_by body)
     in then_do (refuse_if_killed env caller asker) (\<lambda>_.
        then_do (enforce_scope env sc caller asker (map target_element (req_changes body))) (\<lambda>_.
        then_do (enforce_rapp_limit env caller asker) (\<lambda>_.
        then_do (enforce_change_limits env body caller) (\<lambda>_.
        execute_write env body \<lparr>undoes = None, forced_undo = False, invoker = caller, actor = acting_rapp h, may_park = True,
          from_approval = None, caller_scope = sc\<rparr>)))))"

subsection \<open>Which jobs a caller may act on\<close>

definition job_owned :: "o1_environment \<Rightarrow> headers \<Rightarrow> cm_store \<Rightarrow> write_config_job \<Rightarrow> bool" where
  "job_owned env h db job =
     (case job_owner_filter env h of None \<Rightarrow> True
      | Some owner \<Rightarrow> owner_walk (map config_job.truncate (cm_jobs db)) owner (Some (config_job.truncate job)) {})"

definition job_elements :: "cm_store \<Rightarrow> uid \<Rightarrow> string list" where
  "job_elements db i = remdups (map sub_element (subs_of db i))"

definition job_in_reach :: "o1_environment \<Rightarrow> headers \<Rightarrow> uid \<Rightarrow> string option \<Rightarrow> write_config_job cm" where
  "job_in_reach env h i asker =
     then_do (reading (\<lambda>db. (get_cm_job db i, denied_refs (entities (ran db)) (request_scope env h) (job_elements db i),
                            case get_cm_job db i of None \<Rightarrow> False | Some job \<Rightarrow> job_owned env h db job))) (\<lambda>(found, denied, owned).
     case found of
       None \<Rightarrow> fail_with CONFIG_JOB_NOT_FOUND
     | Some job \<Rightarrow>
         if \<not> owned then fail_with CONFIG_JOB_NOT_FOUND
         else if denied \<noteq> [] then (case or_none (invoker_id h) of None \<Rightarrow> fail_with SCOPE_DENIED | Some who \<Rightarrow> refuse env who asker SCOPE_DENIED)
         else give job)"

subsection \<open>Rollback\<close>

datatype rollback_answer = RollbackPlan "change list" "difference list" | RolledBack write_answer bool

text \<open>The checks of an undo: the plan, and what changed since the job wrote it.\<close>

definition plan_undo :: "o1_environment \<Rightarrow> uid \<Rightarrow> string set option \<Rightarrow> (undo_plan \<times> difference list) cm" where
  "plan_undo env i only =
     then_do (reading (\<lambda>db. rollback_plan db i only)) (\<lambda>plan.
     if undo_problems plan \<noteq> [] then fail_with ROLLBACK_NOT_POSSIBLE
     else then_do (changed_since env (undo_expected plan)) (\<lambda>changed. give (plan, changed)))"

definition rollback_configuration_job ::
  "o1_environment \<Rightarrow> headers \<Rightarrow> uid \<Rightarrow> string \<Rightarrow> string option \<Rightarrow> string option \<Rightarrow> bool \<Rightarrow> bool \<Rightarrow> rollback_answer cm" where
  "rollback_configuration_job env h i asker access_scope role force dry =
     then_do (job_in_reach env h i (Some asker)) (\<lambda>job.
     then_do (plan_undo env i None) (\<lambda>(plan, changed).
     if dry then give (RollbackPlan (undo_changes plan) changed)
     else if changed \<noteq> [] \<and> \<not> force then fail_with CONFIG_CHANGED_SINCE
     else then_do (from_sum (undo_request asker (case or_none access_scope of None \<Rightarrow> cm_scope job | Some s \<Rightarrow> s) role (undo_changes plan))) (\<lambda>body.
          then_do (execute_write env body ((plain_origin (Some i) (changed \<noteq> []))\<lparr>actor := acting_rapp h\<rparr>)) (\<lambda>answer.
          give (RolledBack answer (changed \<noteq> []))))))"

subsection \<open>The KPI check\<close>

record kpi_check_request =
  check_settings :: kpi_guard
  check_by :: string
  check_scope :: "string option"
  check_role :: "string option"
  check_force :: bool

datatype kpi_verdict = REGRESSED | INSUFFICIENT_DATA | OK | ERROR

definition verdict_text :: "kpi_verdict \<Rightarrow> string" where
  "verdict_text v = (case v of REGRESSED \<Rightarrow> ''REGRESSED'' | INSUFFICIENT_DATA \<Rightarrow> ''INSUFFICIENT_DATA'' | OK \<Rightarrow> ''OK'' | ERROR \<Rightarrow> ''ERROR'')"

record kpi_answer =
  answer_verdict :: kpi_verdict
  answer_elements :: "(string \<times> kpi_verdict) list"
  answer_reverted :: bool
  answer_revert_job :: "uid option"

definition element_verdict :: "kpi_guard \<Rightarrow> rat option \<times> nat \<Rightarrow> rat option \<times> nat \<Rightarrow> kpi_verdict" where
  "element_verdict g base seen =
     (if snd base < min_samples g \<or> snd seen < min_samples g then INSUFFICIENT_DATA
      else case (fst base, fst seen) of
          (Some b, Some o1) \<Rightarrow>
            if b = 0 then INSUFFICIENT_DATA
            else let worse = (if higher_is_better g then b - o1 else o1 - b)
                 in if max_regression_percent g < 100 * worse / \<bar>b\<bar> then REGRESSED else OK
        | _ \<Rightarrow> INSUFFICIENT_DATA)"

definition job_verdict :: "(string \<times> kpi_verdict) list \<Rightarrow> kpi_verdict" where
  "job_verdict results =
     (if list_ex (\<lambda>r. snd r = REGRESSED) results then REGRESSED
      else if list_ex (\<lambda>r. snd r = INSUFFICIENT_DATA) results \<or> results = [] then INSUFFICIENT_DATA else OK)"

definition applied_elements :: "cm_store \<Rightarrow> uid \<Rightarrow> string list" where
  "applied_elements db i = sort (remdups (map sub_element (filter (\<lambda>r. sub_status r = ''APPLIED'') (subs_of db i))))"

definition element_results :: "o1_environment \<Rightarrow> kpi_guard \<Rightarrow> seconds \<Rightarrow> string list \<Rightarrow> (string \<times> kpi_verdict) list" where
  "element_results env g anchor refs =
     map (\<lambda>e. (e, element_verdict g
                    (kpi_value env (guard_kpi g) e (anchor - 60 * int (baseline_minutes g)) anchor)
                    (kpi_value env (guard_kpi g) e anchor (anchor + 60 * int (observation_minutes g))))) refs"

definition kpi_check :: "o1_environment \<Rightarrow> uid \<Rightarrow> kpi_check_request \<Rightarrow> kpi_answer cm" where
  "kpi_check env i req =
     (let g = check_settings req
      in then_do (the_job i) (\<lambda>job.
         then_do (reading (\<lambda>db. guard_kpi g \<in> set (kpi_names db))) (\<lambda>defined.
         if \<not> defined then fail_with KPI_NOT_FOUND
         else then_do (now env) (\<lambda>t.
              then_do (reading (\<lambda>db. element_results env g (case cm_validated_at job of None \<Rightarrow> t | Some v \<Rightarrow> v) (applied_elements db i))) (\<lambda>results.
              let regressed = map fst (filter (\<lambda>r. snd r = REGRESSED) results);
                  answer = \<lparr>answer_verdict = job_verdict results, answer_elements = results, answer_reverted = False, answer_revert_job = None\<rparr>
              in if regressed = [] \<or> \<not> guard_revert g then give answer
                 else then_do (plan_undo env i (Some (set regressed))) (\<lambda>(plan, changed).
                      if changed \<noteq> [] \<and> \<not> check_force req then fail_with CONFIG_CHANGED_SINCE
                      else then_do (from_sum (undo_request (check_by req)
                              (case or_none (check_scope req) of None \<Rightarrow> cm_scope job | Some s \<Rightarrow> s) (check_role req) (undo_changes plan))) (\<lambda>body.
                           then_do (execute_write env body (plain_origin (Some i) (changed \<noteq> []))) (\<lambda>undo.
                           case undo of
                             JobSummary u st _ _ _ \<Rightarrow> give (answer\<lparr>answer_reverted := (st = JobState.COMPLETED), answer_revert_job := Some u\<rparr>)
                           | _ \<Rightarrow> fail_with (Unhandled ''KeyError'')))))))))"

definition check_configuration_job_kpi :: "o1_environment \<Rightarrow> headers \<Rightarrow> uid \<Rightarrow> kpi_check_request \<Rightarrow> kpi_answer cm" where
  "check_configuration_job_kpi env h i req =
     then_do (job_in_reach env h i (Some (check_by req))) (\<lambda>_. kpi_check env i req)"

subsection \<open>KPI guards\<close>

definition guard_request :: "write_config_job \<Rightarrow> kpi_guard \<Rightarrow> kpi_check_request" where
  "guard_request job g = \<lparr>check_settings = g, check_by = ''kpi-guard:'' @ cm_requested_by job, check_scope = Some (cm_scope job),
     check_role = (if or_none (guard_msac_role g) \<noteq> None then guard_msac_role g else cm_msac_role job), check_force = False\<rparr>"

text \<open>An error of the check is a verdict of its own: a refused revert keeps the regression it found.\<close>

definition guarded_check :: "o1_environment \<Rightarrow> uid \<Rightarrow> write_config_job \<Rightarrow> kpi_guard \<Rightarrow> (kpi_verdict \<times> bool) cm" where
  "guarded_check env i job g =
     catch (then_do (kpi_check env i (guard_request job g)) (\<lambda>answer. give (answer_verdict answer, answer_reverted answer))) (\<lambda>err.
       then_do rollback_session (\<lambda>_.
       give (case err of
           Problem _ code \<Rightarrow> if code \<in> {409, 422} \<and> guard_revert g then REGRESSED else ERROR
         | Unhandled _ \<Rightarrow> ERROR, False)))"

definition run_guard :: "o1_environment \<Rightarrow> seconds \<Rightarrow> uid \<Rightarrow> unit cm" where
  "run_guard env t i =
     then_do (the_job i) (\<lambda>job.
     case cm_kpi_guard job of
       None \<Rightarrow> fail_with (Unhandled ''TypeError'')
     | Some g \<Rightarrow>
         let ends = (case cm_validated_at job of None \<Rightarrow> cm_created_at job | Some v \<Rightarrow> v) + 60 * int (observation_minutes g)
         in if t < ends then give ()
            else then_do (guarded_check env i job g) (\<lambda>(v, done_it).
                 let final = (v \<in> {OK, REGRESSED} \<or> ends + 60 * int (guard_grace_minutes env) \<le> t)
                 in then_do (writing (update_cm_job i (\<lambda>j. j\<lparr>
                        cm_guard_result := Some \<lparr>verdict = verdict_text v, guard_reverted = done_it, checked_at = t\<rparr>,
                        cm_guard_checked_at := (if final then Some t else None)\<rparr>))) (\<lambda>_. commit_session)))"

definition guard_due :: "write_config_job \<Rightarrow> bool" where
  "guard_due job \<longleftrightarrow> cm_kpi_guard job \<noteq> None \<and> cm_guard_checked_at job = None \<and> cm_status job \<in> {JobState.COMPLETED, PARTIAL_SUCCESS}"

definition run_due_kpi_guards :: "o1_environment \<Rightarrow> seconds option \<Rightarrow> unit cm" where
  "run_due_kpi_guards env at_time =
     then_do (now env) (\<lambda>t.
     then_do (reading (\<lambda>db. map cm_job_id (sort_key cm_created_at (filter guard_due (cm_jobs db))))) (\<lambda>due.
     for_each (run_guard env (case at_time of None \<Rightarrow> t | Some t' \<Rightarrow> t')) due))"

subsection \<open>Continue, halt, abort\<close>

definition halted_job :: "o1_environment \<Rightarrow> headers \<Rightarrow> uid \<Rightarrow> string option \<Rightarrow> write_config_job cm" where
  "halted_job env h i asker =
     then_do (job_in_reach env h i asker) (\<lambda>job.
     if cm_status job \<noteq> JobState.HALTED then fail_with LIFECYCLE_ILLEGAL_TRANSITION else give job)"

text \<open>The machine is asked about the state the route has tested for, not about the row again.\<close>

definition fire_from :: "uid \<Rightarrow> JobState \<Rightarrow> JobEvent \<Rightarrow> unit cm" where
  "fire_from i st ev =
     then_do (from_sum (uncaught (fire WRITE_CONFIG_JOB_FSM st ev ()))) (\<lambda>st'. writing (update_cm_job i (\<lambda>j. j\<lparr>cm_status := st'\<rparr>)))"

definition summary_of :: "uid \<Rightarrow> write_answer cm" where
  "summary_of i = then_do (the_job i) (\<lambda>job. give (job_summary job))"

definition resume_job :: "o1_environment \<Rightarrow> uid \<Rightarrow> write_answer cm" where
  "resume_job env i =
     then_do (fire_from i JobState.HALTED JobEvent.RESUME) (\<lambda>_.
     then_do (writing (update_cm_job i (\<lambda>j. j\<lparr>cm_halted_reason := None, cm_halted_detail := None, cm_next_wave_at := None\<rparr>))) (\<lambda>_.
     then_do (advance env i) (\<lambda>_.
     then_do commit_session (\<lambda>_. summary_of i))))"

definition start_scheduled :: "o1_environment \<Rightarrow> write_config_job \<Rightarrow> string \<Rightarrow> bool \<Rightarrow> write_answer cm" where
  "start_scheduled env job asker force =
     (let i = cm_job_id job
      in then_do (now env) (\<lambda>t.
         if window_shut t (cm_window_end job) then fail_with CHANGE_WINDOW_CLOSED
         else if not_open_yet t (cm_scheduled_at job) \<and> \<not> force then fail_with CHANGE_WINDOW_NOT_OPEN
         else then_do (refuse_if_killed env (config_invoker_id job) (Some asker)) (\<lambda>_.
              then_do (fire_from i SCHEDULED JobEvent.START) (\<lambda>_.
              then_do (writing (update_cm_job i (\<lambda>j. j\<lparr>cm_validated_at := Some t\<rparr>))) (\<lambda>_.
              then_do (advance env i) (\<lambda>_.
              then_do commit_session (\<lambda>_. summary_of i)))))))"

definition continue_configuration_job :: "o1_environment \<Rightarrow> headers \<Rightarrow> uid \<Rightarrow> string \<Rightarrow> bool \<Rightarrow> write_answer cm" where
  "continue_configuration_job env h i asker force =
     then_do (job_in_reach env h i (Some asker)) (\<lambda>scheduled.
     if cm_status scheduled = SCHEDULED then start_scheduled env scheduled asker force
     else then_do (halted_job env h i (Some asker)) (\<lambda>job.
          then_do (refuse_if_killed env (config_invoker_id job) (Some asker)) (\<lambda>_.
          then_do (now env) (\<lambda>t.
          if cm_halted_reason job = Some WAVE_PAUSE \<and> not_open_yet t (cm_next_wave_at job) \<and> \<not> force then fail_with WAVE_PAUSE_NOT_ELAPSED
          else resume_job env i))))"

definition halt_configuration_job :: "o1_environment \<Rightarrow> headers \<Rightarrow> uid \<Rightarrow> string \<Rightarrow> write_answer cm" where
  "halt_configuration_job env h i asker =
     then_do (halted_job env h i (Some asker)) (\<lambda>job.
     then_do (if cm_halted_reason job = Some WAVE_PAUSE
              then then_do (writing (update_cm_job i (\<lambda>j. j\<lparr>cm_halted_reason := Some OPERATOR_HALT,
                       cm_halted_detail := Some (''halted by '' @ asker), cm_next_wave_at := None\<rparr>))) (\<lambda>_. commit_session)
              else give ()) (\<lambda>_. summary_of i))"

definition halt_text :: "job_halt option \<Rightarrow> string" where
  "halt_text r = (case r of None \<Rightarrow> ''None'' | Some GATE_FAILED \<Rightarrow> ''GATE_FAILED'' | Some OPERATOR_HALT \<Rightarrow> ''OPERATOR_HALT''
     | Some WAVE_PAUSE \<Rightarrow> ''WAVE_PAUSE'' | Some REVERT_REFUSED \<Rightarrow> ''REVERT_REFUSED'')"

definition abort_configuration_job :: "o1_environment \<Rightarrow> headers \<Rightarrow> uid \<Rightarrow> string \<Rightarrow> write_answer cm" where
  "abort_configuration_job env h i asker =
     then_do (halted_job env h i (Some asker)) (\<lambda>job.
     then_do (writing (update_subs (\<lambda>r. sub_job r = i \<and> sub_status r = ''PENDING'')
        (\<lambda>r. r\<lparr>sub_status := ''REJECTED'', sub_reason := Some ''WAVE_NOT_RUN''\<rparr>))) (\<lambda>_.
     then_do (writing (update_cm_job i (\<lambda>j. j\<lparr>cm_halted_detail := Some (''aborted by '' @ asker @ '' ('' @ halt_text (cm_halted_reason job) @ '')'')\<rparr>))) (\<lambda>_.
     then_do (finish_job i) (\<lambda>_.
     then_do commit_session (\<lambda>_. summary_of i)))))"

definition pause_elapsed :: "seconds \<Rightarrow> write_config_job \<Rightarrow> bool" where
  "pause_elapsed t job \<longleftrightarrow> cm_status job = JobState.HALTED \<and> cm_halted_reason job = Some WAVE_PAUSE \<and>
     (case cm_next_wave_at job of None \<Rightarrow> False | Some w \<Rightarrow> w \<le> t)"

definition advance_due_jobs :: "o1_environment \<Rightarrow> write_answer list cm" where
  "advance_due_jobs env =
     then_do (now env) (\<lambda>t.
     then_do (reading (\<lambda>db. map cm_job_id (sort_key (\<lambda>j. the (cm_next_wave_at j)) (filter (pause_elapsed t) (cm_jobs db))))) (\<lambda>due.
     map_each (resume_job env) due))"

subsection \<open>Jobs held for a change window\<close>

definition waiting_job ::
  "o1_environment \<Rightarrow> headers \<Rightarrow> uid \<Rightarrow> string option \<Rightarrow> string option \<Rightarrow> JobState set \<Rightarrow> (string \<times> write_config_job) cm" where
  "waiting_job env h i claimed why states =
     (if \<not> decision_body_ok claimed why then fail_with SCHEMA_VALIDATION_FAILED
      else if role_of h = Some ROLE_RAPP then fail_with ROLE_NOT_PERMITTED
      else then_do (from_sum (decider h claimed)) (\<lambda>who.
           then_do (job_in_reach env h i (Some who)) (\<lambda>job.
           if cm_status job \<notin> states then fail_with APPROVAL_NOT_PENDING else give (who, job))))"

definition approve_configuration_job :: "o1_environment \<Rightarrow> headers \<Rightarrow> uid \<Rightarrow> string option \<Rightarrow> string option \<Rightarrow> write_answer cm" where
  "approve_configuration_job env h i claimed why =
     then_do (waiting_job env h i claimed why {PENDING_APPROVAL}) (\<lambda>(who, job).
     if same_person who (cm_requested_by job) \<or> (case config_invoker_id job of None \<Rightarrow> False | Some r \<Rightarrow> same_person who r)
     then fail_with APPROVAL_SELF_DECISION
     else then_do (approve_window env (revert 1 env) i who why) (\<lambda>_.
          then_do commit_session (\<lambda>_. summary_of i)))"

definition reject_configuration_job :: "o1_environment \<Rightarrow> headers \<Rightarrow> uid \<Rightarrow> string option \<Rightarrow> string option \<Rightarrow> write_answer cm" where
  "reject_configuration_job env h i claimed why =
     then_do (waiting_job env h i claimed why {PENDING_APPROVAL, SCHEDULED}) (\<lambda>(who, job).
     then_do (fire_job i JobEvent.REJECT) (\<lambda>_.
     then_do (now env) (\<lambda>t.
     then_do (writing (update_cm_job i (\<lambda>j. j\<lparr>cm_decided_by := Some who, cm_decided_at := Some t, cm_decision_reason := why\<rparr>))) (\<lambda>_.
     then_do (writing (update_subs (\<lambda>r. sub_job r = i) (\<lambda>r. r\<lparr>sub_status := ''REJECTED'', sub_reason := Some ''APPROVAL_REJECTED''\<rparr>))) (\<lambda>_.
     then_do commit_session (\<lambda>_. summary_of i))))))"

subsection \<open>The history and the writes of onboarding\<close>

definition purge_configuration_history :: "o1_environment \<Rightarrow> int \<Rightarrow> int option \<Rightarrow> nat cm" where
  "purge_configuration_history env retention_days older_than =
     (let days = (case older_than of None \<Rightarrow> retention_days | Some d \<Rightarrow> d)
      in if days \<le> 0 then fail_with SCHEMA_VALIDATION_FAILED
         else then_do (now env) (\<lambda>t.
              then_do (reading (\<lambda>db. length (filter (\<lambda>r. snap_created_at r < t - days * 86400) (snapshots db)))) (\<lambda>n.
              then_do (writing (\<lambda>db. db\<lparr>snapshots := delete_where (\<lambda>r. snap_created_at r < t - days * 86400) (snapshots db)\<rparr>)) (\<lambda>_.
              then_do commit_session (\<lambda>_. give n)))))"

text \<open>
  The write \<open>apply_template\<close> makes: the changes of a template for one element. What it does around it, to the row of the onboarding, is in \<open>Onboarding\<close>.
\<close>

definition onboarding_change :: "string \<Rightarrow> template_change \<Rightarrow> change" where
  "onboarding_change ref c =
     \<lparr>target_element = ref, target_function = or_none (change_function_ref c), attribute_changes = Some (change_attributes c),
      asked_operation = Some (change_operation c)\<rparr>"

definition onboarding_write :: "o1_environment \<Rightarrow> string \<Rightarrow> string \<Rightarrow> template_change list \<Rightarrow> write_answer cm" where
  "onboarding_write env template ref cs =
     (case validated (plain_request (''onboarding:'' @ template) ''managed-element'' None (map (onboarding_change ref) cs)) of
        Inl _ \<Rightarrow> fail_with (Unhandled ''ValidationError'')
      | Inr body \<Rightarrow> execute_write env body (plain_origin None False))"

end
