(* ===== verification/ConfigFrames.thy ===== *)
theory ConfigFrames
  imports ConfigRoutes
begin

section \<open>What a step of the write path leaves alone\<close>

text \<open>
  \<open>evolves R m\<close>: whatever \<open>m\<close> does, the store of the session moves along the relation \<open>R\<close>, and what it
  commits lies on the way. The locales collect the writes of dispatching, of advancing a job and of making
  one: a relation that takes each of those writes is kept by the whole operation.
\<close>

definition evolves :: "(cm_store \<Rightarrow> cm_store \<Rightarrow> bool) \<Rightarrow> 'a cm \<Rightarrow> bool" where
  "evolves R m \<longleftrightarrow> (\<forall>s r s'. m s = (r, s') \<longrightarrow>
     R (work s) (work s') \<and> (kept s' = kept s \<or> R (work s) (kept s') \<and> R (kept s') (work s')))"

named_theorems evolving \<open>computations whose store moves along a relation\<close>

lemma evolvesD: "evolves R m \<Longrightarrow> m s = (r, s') \<Longrightarrow> R (work s) (work s')"
  by (auto simp: evolves_def)

lemma evolves_keptD: "evolves R m \<Longrightarrow> m s = (r, s') \<Longrightarrow> kept s' = kept s \<or> R (work s) (kept s') \<and> R (kept s') (work s')"
  by (auto simp: evolves_def)

lemma evolves_mono: "evolves R m \<Longrightarrow> (\<And>a b. R a b \<Longrightarrow> S a b) \<Longrightarrow> evolves S m"
  unfolding evolves_def by blast

subsection \<open>One step of a session\<close>

lemma step_now: "then_do (now env) f s = f (clock env (exchanges s)) s"
  by (simp add: then_do_def now_def look_def)

lemma step_reading: "then_do (reading g) f s = f (g (work s)) s"
  by (simp add: then_do_def reading_def look_def)

lemma step_writing: "then_do (writing g) f s = f () (s\<lparr>work := g (work s)\<rparr>)"
  by (simp add: then_do_def writing_def change_def)

lemma step_if: "(if c then m else m') s = (if c then m s else m' s)"
  by simp

lemma step_sum: "then_do (from_sum (Inl e)) f s = (Inl e, s)" "then_do (from_sum (Inr x)) f s = f x s"
  by (simp_all add: then_do_def from_sum_def)

lemma run_both:
  assumes "then_do m f s = (r, s')"
  obtains err where "m s = (Inl err, s')" "r = Inl err" | x s1 where "m s = (Inr x, s1)" "f x s1 = (r, s')"
  using assms by (auto simp: then_do_def split: prod.splits sum.splits)

subsection \<open>Tables that stay\<close>

text \<open>A table, or anything else read off the store, that stays what it is.\<close>

definition same_on :: "(cm_store \<Rightarrow> 'x) \<Rightarrow> cm_store \<Rightarrow> cm_store \<Rightarrow> bool" where
  "same_on f a b \<longleftrightarrow> f a = f b"

lemma same_on_refl [simp]: "same_on f a a"
  by (simp add: same_on_def)

lemma same_on_trans: "same_on f a b \<Longrightarrow> same_on f b c \<Longrightarrow> same_on f a c"
  by (simp add: same_on_def)

lemma read_constant: "then_do (reading (\<lambda>_. c)) f = f c"
  by (rule ext) (simp add: then_do_def reading_def look_def)

subsection \<open>Relations a computation moves along\<close>

locale store_relation =
  fixes R :: "cm_store \<Rightarrow> cm_store \<Rightarrow> bool"
  assumes same [intro, simp]: "R db db"
    and along [trans]: "R a b \<Longrightarrow> R b c \<Longrightarrow> R a c"
begin

lemma give [evolving, simp]: "evolves R (give x)"
  by (simp add: evolves_def give_def)

lemma fail [evolving, simp]: "evolves R (fail_with err)"
  by (simp add: evolves_def fail_with_def)

lemma sums [evolving, simp]: "evolves R (from_sum x)"
  by (simp add: evolves_def from_sum_def)

lemma looking [evolving, simp]: "evolves R (look f)"
  by (simp add: evolves_def look_def)

lemma reads [evolving, simp]: "evolves R (reading f)" "evolves R (now env)"
  by (simp_all add: reading_def now_def)

lemma logs [evolving, simp]: "evolves R (logged x)" "evolves R (sleep d)"
  by (simp_all add: evolves_def logged_def sleep_def change_def)

lemma commits [evolving, simp]: "evolves R commit_session"
  by (simp add: evolves_def commit_session_def change_def)

lemma writes: "(\<And>db. R db (f db)) \<Longrightarrow> evolves R (writing f)"
  by (simp add: evolves_def writing_def change_def)

lemma thens:
  assumes m: "evolves R m" and f: "\<And>x. evolves R (f x)"
  shows "evolves R (then_do m f)"
proof (unfold evolves_def, intro allI impI)
  fix s r s' assume run: "then_do m f s = (r, s')"
  obtain r1 s1 where m1: "m s = (r1, s1)" by (cases "m s")
  note step1 = evolvesD [OF m m1] evolves_keptD [OF m m1]
  show "R (work s) (work s') \<and> (kept s' = kept s \<or> R (work s) (kept s') \<and> R (kept s') (work s'))"
  proof (cases r1)
    case (Inl err)
    with run m1 step1 show ?thesis by (simp add: then_do_def)
  next
    case (Inr x)
    with run m1 have "f x s1 = (r, s')" by (simp add: then_do_def)
    with step1 evolvesD [OF f this] evolves_keptD [OF f this] show ?thesis by (metis along)
  qed
qed

lemma catches: "evolves R m \<Longrightarrow> (\<And>err. evolves R (h err)) \<Longrightarrow> evolves R (catch m h)"
proof (unfold evolves_def, intro allI impI)
  fix s r s' assume m: "\<forall>s r s'. m s = (r, s') \<longrightarrow> R (work s) (work s') \<and> (kept s' = kept s \<or> R (work s) (kept s') \<and> R (kept s') (work s'))"
    and h: "\<And>err. \<forall>s r s'. h err s = (r, s') \<longrightarrow> R (work s) (work s') \<and> (kept s' = kept s \<or> R (work s) (kept s') \<and> R (kept s') (work s'))"
    and run: "catch m h s = (r, s')"
  obtain r1 s1 where m1: "m s = (r1, s1)" by (cases "m s")
  note step1 = m [rule_format, OF m1]
  show "R (work s) (work s') \<and> (kept s' = kept s \<or> R (work s) (kept s') \<and> R (kept s') (work s'))"
  proof (cases r1)
    case (Inr x)
    with run m1 step1 show ?thesis by (simp add: catch_def)
  next
    case (Inl err)
    with run m1 have "h err s1 = (r, s')" by (simp add: catch_def)
    with step1 h [rule_format, OF this] show ?thesis by (metis along)
  qed
qed

lemma loops: "(\<And>x. evolves R (f x)) \<Longrightarrow> evolves R (for_each f xs)"
  by (induction xs) (auto intro: thens)

lemma maps: "(\<And>x. evolves R (f x)) \<Longrightarrow> evolves R (map_each f xs)"
  by (induction xs) (auto intro!: thens)

lemma ifs: "(b \<Longrightarrow> evolves R m) \<Longrightarrow> (\<not> b \<Longrightarrow> evolves R m') \<Longrightarrow> evolves R (if b then m else m')"
  by simp

lemmas flow = ifs thens catches loops maps

lemma sends [simp]: "evolves R (send_edit env i e)" "evolves R (send_edits env i es)" "evolves R (read_object env x)"
  by (simp_all add: send_edit_def send_edits_def read_object_def thens)

lemma attempts [simp]: "evolves R (attempts_from env i e started delays reason n detail)"
  by (induction env i e started delays reason n detail rule: attempts_from.induct)
    (auto intro!: thens simp: pause_def Let_def split: edit_reply.splits)

lemma group_attempts [simp]: "evolves R (group_attempts_from env i es started delays results n)"
  by (induction env i es started delays results n rule: group_attempts_from.induct) (auto intro!: thens simp: pause_def)

lemma dispatches [simp]: "evolves R (dispatch_with_retries env i e)" "evolves R (dispatch_group_with_retries env i es)"
  by (auto intro!: thens simp: dispatch_with_retries_def dispatch_group_with_retries_def split: prod.splits)

lemma captures [simp]: "evolves R (capture_before env me ep c wanted)" "evolves R (capture_if_kept env me ep c)"
  by (auto intro!: thens simp: capture_if_kept_def capture_before_def split: option.splits)

lemma the_job [simp]: "evolves R (the_job i)"
  by (auto intro!: thens simp: the_job_def split: option.splits)

lemma changed [simp]: "evolves R (changed_since env expected)"
  by (auto intro!: thens maps simp: changed_since_def difference_of_def split: option.splits prod.splits)

end

text \<open>
  Dispatching: endpoints age, alarms are raised, sub-changes get their outcome, snapshots are added. A sub-change keeps its place,
  and is never given back its first status.
\<close>

definition keeps_place :: "(sub_change \<Rightarrow> sub_change) \<Rightarrow> bool" where
  "keeps_place f \<longleftrightarrow> (\<forall>r. sub_id (f r) = sub_id r \<and> sub_job (f r) = sub_job r \<and> sub_element (f r) = sub_element r \<and>
     sub_wave (f r) = sub_wave r \<and> sub_position (f r) = sub_position r \<and>
     sub_function (f r) = sub_function r \<and> sub_attributes (f r) = sub_attributes r \<and> sub_operation (f r) = sub_operation r \<and>
     (sub_status (f r) = sub_status r \<or> sub_status (f r) \<in> {''APPLIED'', ''REJECTED'', ''REVERTED''}))"

locale dispatch_relation = store_relation R for R :: "cm_store \<Rightarrow> cm_store \<Rightarrow> bool" +
  assumes aging: "R db (put_endpoint ep db)"
    and alarming: "R db (raise_dispatch_alarm t i c why n db)"
    and outcome: "keeps_place f \<Longrightarrow> R db (update_subs (\<lambda>r. sub_id r = k) f db)"
    and keeping: "R db (add_snapshot t row out db)"
begin

lemma blocker [simp]: "evolves R (dispatch_blocker env c)"
  by (auto intro!: thens writes aging simp: dispatch_blocker_def split: option.splits)

lemma recorded [simp]: "evolves R (record_outcome env i row out)"
  by (auto intro!: thens writes alarming outcome keeping simp: record_outcome_def keeps_place_def split: prod.splits)

lemma rejected [simp]: "evolves R (reject_row row why)"
  by (auto intro!: writes outcome simp: reject_row_def keeps_place_def)

lemma alone [simp]: "evolves R (dispatch_alone env i me ep c)"
  by (auto intro!: thens simp: dispatch_alone_def split: option.splits prod.splits)

lemma grouped [simp]: "evolves R (dispatch_together env i me ep items)"
  by (auto intro!: thens maps simp: dispatch_together_def)

lemma items [simp]: "evolves R (dispatch_items env i all outcomes items)"
proof (induction env i all outcomes items rule: dispatch_items.induct)
  case (2 env i all outcomes item items)
  then show ?case by (auto intro!: thens split: option.splits prod.splits)
qed simp

lemma wave [simp]: "evolves R (dispatch_wave env i rows)"
  by (auto intro!: thens maps simp: dispatch_wave_def Let_def)

end

text \<open>The safeguards: they read network functions and may record a refusal.\<close>

locale safeguard_relation = dispatch_relation R for R :: "cm_store \<Rightarrow> cm_store \<Rightarrow> bool" +
  assumes refusing: "R db (record_refusal env t who asker code db)"
begin

lemma refuses [simp]: "evolves R (refuse env who asker err)"
  by (auto intro!: thens writes refusing simp: refuse_def)

lemma refuses_killed [simp]: "evolves R (refuse_if_killed env caller asker)"
  by (auto intro!: thens simp: refuse_if_killed_def split: option.splits)

lemma scoping [simp]: "evolves R (enforce_scope env sc caller asker refs)"
  by (auto intro!: catches thens simp: enforce_scope_def require_elements_def split: option.splits)

lemma limiting [simp]: "evolves R (enforce_rapp_limit env caller asker)"
  by (auto intro!: thens simp: enforce_rapp_limit_def split: option.splits)

lemma valuing [simp]: "evolves R (check_value env who asker most before setting)"
  by (auto simp: check_value_def split: option.splits)

lemma changing [simp]: "evolves R (check_change env who asker most c)"
  by (auto intro!: thens loops simp: check_change_def Let_def split: option.splits prod.splits)

lemma bounding [simp]: "evolves R (enforce_change_limits env body caller)"
  by (auto intro!: thens loops simp: enforce_change_limits_def split: option.splits)

end

text \<open>Advancing the job \<open>i\<close>: its row changes but for what it was made with, and its sub-changes may be marked.\<close>

definition keeps_origin :: "(write_config_job \<Rightarrow> write_config_job) \<Rightarrow> bool" where
  "keeps_origin f \<longleftrightarrow> (\<forall>j. config_job.truncate (f j) = config_job.truncate j \<and> cm_requested_by (f j) = cm_requested_by j \<and>
     cm_created_at (f j) = cm_created_at j \<and> cm_wave_count (f j) = cm_wave_count j \<and> cm_on_gate_failure (f j) = cm_on_gate_failure j)"

locale advance_relation = dispatch_relation R for R :: "cm_store \<Rightarrow> cm_store \<Rightarrow> bool" +
  fixes i :: uid
  assumes row: "keeps_origin f \<Longrightarrow> R db (update_cm_job i f db)"
begin

lemma fires [simp]: "evolves R (fire_job i ev)"
  by (auto intro!: thens writes row simp: fire_job_def keeps_origin_def config_job.truncate_def split: option.splits)

lemma finishes [simp]: "evolves R (finish_job i)"
  by (auto intro!: thens writes row simp: finish_job_def keeps_origin_def config_job.truncate_def)

lemma halts [simp]: "evolves R (halt_job i why detail next_at)"
  by (auto intro!: thens writes row simp: halt_job_def keeps_origin_def config_job.truncate_def)

lemma advances_from:
  assumes "\<And>why. evolves R (undo i why)"
  shows "evolves R (advance_from env undo i count w)"
proof (induction "count - w" arbitrary: w rule: less_induct)
  case less
  then show ?case
    by (subst advance_from.simps)
      (auto intro!: thens writes row assms simp: keeps_origin_def config_job.truncate_def split: option.splits)
qed

lemma advances: "(\<And>why. evolves R (undo i why)) \<Longrightarrow> evolves R (advance_with env undo i)"
  by (auto intro!: thens advances_from simp: advance_with_def)

end

text \<open>A whole write: \<open>ok\<close> says which origins are meant, and undoing is among them.\<close>

locale write_relation = safeguard_relation R for R :: "cm_store \<Rightarrow> cm_store \<Rightarrow> bool" +
  fixes ok :: "write_origin \<Rightarrow> bool"
  assumes row: "keeps_origin f \<Longrightarrow> R db (update_cm_job i f db)"
    and undoing: "ok (plain_origin (Some i) b)"
    and making: "ok why \<Longrightarrow> i = fresh_id (map cm_job_id (cm_jobs db)) \<Longrightarrow>
      R db (make_job t body window (invoker why) (undoes why) (forced_undo why) i db)"
    and parts: "R db (make_sub_changes body i db)"
    and marking: "R db (mark_reverted i db)"
    and deciding: "R db (db\<lparr>decisions := ds\<rparr>)"
    and auditing: "R db (db\<lparr>audited := es\<rparr>)"
    and closing: "ok why \<Longrightarrow> from_approval why = Some a \<Longrightarrow>
      R db (update_approval a (\<lambda>r. r\<lparr>appr_status := approval_status.APPROVED, appr_job := Some i\<rparr>) db)"
    and parking: "ok why \<Longrightarrow> may_park why \<Longrightarrow> approval_id r = fresh_id (map approval_id (approvals db)) \<Longrightarrow>
      appr_status r = approval_status.PENDING \<Longrightarrow> appr_votes r = [] \<Longrightarrow> R db (db\<lparr>approvals := approvals db @ [r]\<rparr>)"
    and telling: "R db (db\<lparr>ran := (ran db)\<lparr>outbox := ns\<rparr>\<rparr>)"
begin

sublocale job: advance_relation R i for i
  by unfold_locales (rule row)

lemma chains [simp]: "evolves R (chain_decisions_quietly env)"
proof -
  have "R db (chain_oldest n db)" for n db
  proof (induction n arbitrary: db)
    case (Suc n)
    show ?case
    proof (cases "sort_key occurred_at (filter (\<lambda>d. dec_audit_seq d = None) (decisions db))")
      case (Cons d ds)
      have two: "R db (db\<lparr>decisions := x, audited := y\<rparr>)" for x y
        using deciding [of db x] auditing [of "db\<lparr>decisions := x\<rparr>" y] by (auto intro: along)
      from Cons show ?thesis by (auto simp: Let_def intro!: along [OF two Suc.IH])
    qed simp
  qed simp
  then show ?thesis by (auto intro!: thens writes simp: chain_decisions_quietly_def)
qed

lemma decides [simp]: "evolves R (record_decision env who body how job approval)"
  by (auto intro!: thens writes deciding simp: record_decision_def Let_def)

lemma notifies [simp]: "evolves R (notify_approvers env kind a)"
  by (auto intro!: thens writes telling simp: notify_approvers_def split: option.splits)

lemma window: "(\<And>i why. evolves R (undo i why)) \<Longrightarrow> evolves R (approve_window env undo i who why)"
  by (auto intro!: thens writes row job.advances simp: approve_window_def keeps_origin_def config_job.truncate_def)

lemma fresh_row:
  "ok why \<Longrightarrow> (\<And>i. evolves R (f i)) \<Longrightarrow>
     evolves R (then_do (reading (\<lambda>db. fresh_id (map cm_job_id (cm_jobs db)))) (\<lambda>i.
       then_do (writing (make_job t body window (invoker why) (undoes why) (forced_undo why) i)) (\<lambda>_. f i)))"
proof (unfold evolves_def, intro allI impI)
  fix s r s' assume ok: "ok why" and f: "\<And>i. \<forall>s r s'. f i s = (r, s') \<longrightarrow> R (work s) (work s') \<and> (kept s' = kept s \<or> R (work s) (kept s') \<and> R (kept s') (work s'))"
    and run: "then_do (reading (\<lambda>db. fresh_id (map cm_job_id (cm_jobs db)))) (\<lambda>i.
       then_do (writing (make_job t body window (invoker why) (undoes why) (forced_undo why) i)) (\<lambda>_. f i)) s = (r, s')"
  define i where "i = fresh_id (map cm_job_id (cm_jobs (work s)))"
  define db where "db = make_job t body window (invoker why) (undoes why) (forced_undo why) i (work s)"
  from run have f': "f i (s\<lparr>work := db\<rparr>) = (r, s')"
    by (simp add: then_do_def reading_def look_def writing_def change_def i_def db_def)
  have "R (work s) db" unfolding db_def by (rule making [OF ok i_def])
  with f [rule_format, OF f'] show "R (work s) (work s') \<and> (kept s' = kept s \<or> R (work s) (kept s') \<and> R (kept s') (work s'))"
    by (auto intro: along)
qed

lemma runs:
  assumes closing': "\<And>db a i. from_approval why = Some a \<Longrightarrow>
      R db (update_approval a (\<lambda>r. r\<lparr>appr_status := approval_status.APPROVED, appr_job := Some i\<rparr>) db)"
    and undo: "\<And>i why. evolves R (undo i why)"
  shows "evolves R (run_new_job env undo body why hold i)"
proof -
  have closes: "evolves R (case from_approval why of None \<Rightarrow> give ()
      | Some a \<Rightarrow> writing (update_approval a (\<lambda>r. r\<lparr>appr_status := approval_status.APPROVED, appr_job := Some i\<rparr>)))"
    using closing' by (cases "from_approval why") (simp_all add: writes)
  have decide: "evolves R (case or_none (actor why) of None \<Rightarrow> give () | Some who \<Rightarrow> record_decision env who body (k who) (Some i) a)" for k a
    by (simp split: option.split)
  have windows: "evolves R (case from_approval why of None \<Rightarrow> give ()
      | Some a \<Rightarrow> then_do (reading (f a)) (\<lambda>who. approve_window env undo i (d who) (w a)))" for d w and f :: "uid \<Rightarrow> cm_store \<Rightarrow> string option"
    by (cases "from_approval why") (simp_all add: thens window [OF undo])
  have chain: "evolves R (if b then chain_decisions_quietly env else give ())" for b
    by simp
  show ?thesis
    unfolding run_new_job_def
    by (intro thens ifs closes decide windows writes parts job.advances [OF undo] chain) simp_all
qed

lemma starts:
  assumes ok: "ok why" and undo: "\<And>i why. evolves R (undo i why)"
  shows "evolves R (start_job env undo body why)"
  unfolding start_job_def Let_def
  by (rule thens, simp, intro ifs fail fresh_row [OF ok] runs closing [OF ok] undo)

lemma executes_with:
  assumes ok: "ok why" and undo: "\<And>i why. evolves R (undo i why)"
  shows "evolves R (execute_write_with env undo body why)"
proof -
  have opens: "evolves R (then_do (reading (\<lambda>db. fresh_id (map approval_id (approvals db)))) (\<lambda>a.
      then_do (writing (\<lambda>db. db\<lparr>approvals := approvals db @ [r a]\<rparr>)) (\<lambda>_. f a)))"
    if park: "may_park why" and r: "\<And>a. approval_id (r a) = a \<and> appr_status (r a) = approval_status.PENDING \<and> appr_votes (r a) = []"
      and f: "\<And>a. evolves R (f a)" for r and f :: "uid \<Rightarrow> write_answer cm"
  proof (unfold evolves_def, intro allI impI)
    fix s x s' assume run: "then_do (reading (\<lambda>db. fresh_id (map approval_id (approvals db)))) (\<lambda>a.
        then_do (writing (\<lambda>db. db\<lparr>approvals := approvals db @ [r a]\<rparr>)) (\<lambda>_. f a)) s = (x, s')"
    define a where "a = fresh_id (map approval_id (approvals (work s)))"
    define db where "db = (work s)\<lparr>approvals := approvals (work s) @ [r a]\<rparr>"
    from run have f': "f a (s\<lparr>work := db\<rparr>) = (x, s')"
      by (simp add: then_do_def reading_def look_def writing_def change_def a_def db_def)
    have "R (work s) db" unfolding db_def using parking [OF ok park, of "r a" "work s"] r [of a] by (simp add: a_def)
    with evolvesD [OF f f'] evolves_keptD [OF f f']
    show "R (work s) (work s') \<and> (kept s' = kept s \<or> R (work s) (kept s') \<and> R (kept s') (work s'))"
      by (auto intro: along)
  qed
  have parks: "evolves R (park_for_approval env body who p sc)" if "may_park why" for who p sc
    unfolding park_for_approval_def Let_def
    by (rule thens, simp, rule opens [OF that]) (simp_all add: thens)
  show ?thesis
    unfolding execute_write_with_def
  proof (rule thens, simp, rule thens, simp, rule ifs)
    fix x show "evolves R (plan_dry_run env body)" by (auto intro!: thens maps simp: plan_dry_run_def)
  next
    fix x
    show "evolves R (then_do (reading (\<lambda>db. if may_park why then case or_none (invoker why) of None \<Rightarrow> None
        | Some who \<Rightarrow> row_where (\<lambda>p. policy_invoker p = who) (policies db) else None))
        (\<lambda>policy. case policy of None \<Rightarrow> start_job env undo body why
           | Some p \<Rightarrow> park_for_approval env body (policy_invoker p) p (caller_scope why)))"
    proof (cases "may_park why")
      case True
      then show ?thesis by (auto simp: starts [OF ok undo] intro!: thens parks split: option.splits)
    next
      case False
      then show ?thesis by (simp add: read_constant starts [OF ok undo])
    qed
  qed
qed

lemma reverts: "evolves R (revert n env i why)"
proof (induction n arbitrary: i why)
  case (Suc n)
  show ?case
    unfolding revert.simps auto_revert_def
    by (auto intro!: thens writes row marking executes_with [OF undoing Suc.IH] simp: keeps_origin_def config_job.truncate_def
        split: write_answer.splits)
qed simp

lemma executes: "ok why \<Longrightarrow> evolves R (execute_write env body why)"
  by (auto intro!: executes_with reverts simp: execute_write_def simp del: revert.simps)

lemma advanced: "evolves R (advance env i)"
  by (auto intro!: job.advances reverts simp: advance_def simp del: revert.simps)

end

end
