(* ===== verification/ConfigReach.thy ===== *)
theory ConfigReach
  imports ConfigFrames
begin

section \<open>Every request the configuration service answers\<close>

text \<open>
  The routes as one datatype, and the stores that requests lead to. Between requests anything may happen
  to what other services write: the registry, alarms, access rules, the object tree, the KPIs.
\<close>

datatype cm_request =
    AskWrite headers write_request
  | AskRollback headers uid string "string option" "string option" bool bool
  | AskKpiCheck headers uid kpi_check_request
  | AskGuards "seconds option"
  | AskContinue headers uid string bool
  | AskHalt headers uid string
  | AskAbort headers uid string
  | AskAdvance
  | AskApproveJob headers uid "string option" "string option"
  | AskRejectJob headers uid "string option" "string option"
  | AskApprove headers uid "string option" "string option"
  | AskReject headers uid "string option" "string option"
  | AskReadApproval headers uid
  | AskLapse
  | AskSetPolicy headers string string nat timeout_action nat
  | AskDropPolicy headers string
  | AskTellApprovers string
  | AskUntellApprovers uid
  | AskKill string string "string option"
  | AskLiftKill string
  | AskSetLimit headers string "nat option" "nat option" "rat option"
  | AskDropLimit headers string
  | AskTellRefusals string "string list"
  | AskUntellRefusals uid
  | AskPurgeRefusals int "int option"
  | AskPurgeHistory int "int option"
  | AskOnboard string string "template_change list"

definition discard :: "'a cm \<Rightarrow> unit cm" where
  "discard m = then_do m (\<lambda>_. give ())"

fun serve :: "o1_environment \<Rightarrow> cm_request \<Rightarrow> unit cm" where
  "serve env (AskWrite h body) = discard (write_configuration_changes env h body)"
| "serve env (AskRollback h i asker sc role force dry) = discard (rollback_configuration_job env h i asker sc role force dry)"
| "serve env (AskKpiCheck h i req) = discard (check_configuration_job_kpi env h i req)"
| "serve env (AskGuards t) = run_due_kpi_guards env t"
| "serve env (AskContinue h i asker force) = discard (continue_configuration_job env h i asker force)"
| "serve env (AskHalt h i asker) = discard (halt_configuration_job env h i asker)"
| "serve env (AskAbort h i asker) = discard (abort_configuration_job env h i asker)"
| "serve env AskAdvance = discard (advance_due_jobs env)"
| "serve env (AskApproveJob h i who why) = discard (approve_configuration_job env h i who why)"
| "serve env (AskRejectJob h i who why) = discard (reject_configuration_job env h i who why)"
| "serve env (AskApprove h a who why) = discard (approve_action env h a who why)"
| "serve env (AskReject h a who why) = discard (reject_action env h a who why)"
| "serve env (AskReadApproval h a) = discard (read_approval env h a)"
| "serve env AskLapse = discard (lapse_due_approvals env)"
| "serve env (AskSetPolicy h who asker timeout on_timeout required) = set_approval_policy h who asker timeout on_timeout required"
| "serve env (AskDropPolicy h who) = delete_approval_policy h who"
| "serve env (AskTellApprovers uri) = subscribe_to_approvals env uri"
| "serve env (AskUntellApprovers i) = unsubscribe_from_approvals i"
| "serve env (AskKill who asker why) = kill_rapp env who asker why"
| "serve env (AskLiftKill who) = lift_rapp_kill who"
| "serve env (AskSetLimit h who per_hour per_job percent) = set_rapp_limit (invoker_id h) who per_hour per_job percent"
| "serve env (AskDropLimit h who) = delete_rapp_limit (invoker_id h) who"
| "serve env (AskTellRefusals uri codes) = subscribe_to_safeguard_refusals env uri codes"
| "serve env (AskUntellRefusals i) = unsubscribe_from_safeguard_refusals i"
| "serve env (AskPurgeRefusals retention older) = discard (purge_refusals env retention older)"
| "serve env (AskPurgeHistory retention older) = discard (purge_configuration_history env retention older)"
| "serve env (AskOnboard template ref cs) = discard (onboarding_write env template ref cs)"

definition fresh_store :: "cm_store \<Rightarrow> bool" where
  "fresh_store db \<longleftrightarrow> cm_jobs db = [] \<and> sub_changes db = [] \<and> snapshots db = [] \<and> approvals db = [] \<and> decisions db = [] \<and> audited db = []"

inductive cm_reachable :: "o1_environment \<Rightarrow> cm_store \<Rightarrow> exchange list \<Rightarrow> bool" for env where
  empty: "fresh_store db \<Longrightarrow> cm_reachable env db sent"
| served: "cm_reachable env db sent \<Longrightarrow> run_request (serve env req) db sent = (r, db', sent') \<Longrightarrow> cm_reachable env db' sent'"
| elsewhere: "cm_reachable env db sent \<Longrightarrow> cm_reachable env (db\<lparr>ran := x, access := y, objects := z, kpi_names := k\<rparr>) sent'"

subsection \<open>Invariants of what a session sees and of what it keeps\<close>

definition in_both :: "(cm_store \<Rightarrow> bool) \<Rightarrow> session \<Rightarrow> bool" where
  "in_both I s \<longleftrightarrow> I (work s) \<and> I (kept s)"

definition steady :: "(cm_store \<Rightarrow> bool) \<Rightarrow> 'a cm \<Rightarrow> bool" where
  "steady I m \<longleftrightarrow> triple (in_both I) m (\<lambda>_. in_both I) (\<lambda>_. in_both I)"

named_theorems steady_rules \<open>computations that keep an invariant of both stores\<close>

lemma steadyD: "steady I m \<Longrightarrow> in_both I s \<Longrightarrow> m s = (r, s') \<Longrightarrow> in_both I s'"
  by (cases r) (auto simp: steady_def triple_def split: prod.splits sum.splits)

lemma steadyI: "(\<And>s r s'. in_both I s \<Longrightarrow> m s = (r, s') \<Longrightarrow> in_both I s') \<Longrightarrow> steady I m"
  by (auto simp: steady_def triple_def split: prod.splits sum.splits)

lemma steady_evolves: "evolves R m \<Longrightarrow> (\<And>a b. R a b \<Longrightarrow> I a \<Longrightarrow> I b) \<Longrightarrow> steady I m"
  by (rule steadyI) (metis in_both_def evolvesD evolves_keptD)

lemma steady_basic [steady_rules, simp]:
  "steady I (give x)" "steady I (fail_with err)" "steady I (look f)" "steady I (reading g)" "steady I (now env)"
  "steady I commit_session" "steady I rollback_session" "steady I (from_sum y)"
  by (auto intro!: steadyI simp: comp_defs in_both_def reading_def now_def commit_session_def rollback_session_def)

lemma steady_writing: "(\<And>db. I db \<Longrightarrow> I (f db)) \<Longrightarrow> steady I (writing f)"
  by (auto intro!: steadyI simp: writing_def change_def in_both_def)

lemma steady_then [steady_rules]: "steady I m \<Longrightarrow> (\<And>x. steady I (f x)) \<Longrightarrow> steady I (then_do m f)"
  unfolding steady_def by (rule triple_then)

lemma steady_catch [steady_rules]: "steady I m \<Longrightarrow> (\<And>err. steady I (h err)) \<Longrightarrow> steady I (catch m h)"
  unfolding steady_def by (rule triple_catch)

lemma steady_if [steady_rules]: "(c \<Longrightarrow> steady I m) \<Longrightarrow> (\<not> c \<Longrightarrow> steady I m') \<Longrightarrow> steady I (if c then m else m')"
  by simp

lemma steady_loops [steady_rules]:
  "(\<And>x. steady I (f x)) \<Longrightarrow> steady I (for_each f xs)" "(\<And>x. steady I (g x)) \<Longrightarrow> steady I (map_each g xs)"
  unfolding steady_def by (auto intro: triple_for_each triple_map_each)

lemma steady_discard: "steady I m \<Longrightarrow> steady I (discard m)"
  by (simp add: discard_def steady_then)

lemma steady_request: "steady I m \<Longrightarrow> I db \<Longrightarrow> run_request m db sent = (r, db', sent') \<Longrightarrow> I db'"
  by (auto simp: run_request_def in_both_def split: prod.splits dest!: steadyD [of I m])

text \<open>What every request keeps, and no other service touches, holds of every store that is reached.\<close>

lemma reachable_invariant:
  assumes "cm_reachable env db sent"
    and "\<And>db. fresh_store db \<Longrightarrow> I db"
    and "\<And>req db sent r db' sent'. I db \<Longrightarrow> run_request (serve env req) db sent = (r, db', sent') \<Longrightarrow> I db'"
    and "\<And>db x y z k. I db \<Longrightarrow> I (db\<lparr>ran := x, access := y, objects := z, kpi_names := k\<rparr>)"
  shows "I db"
  using assms(1) by induction (auto intro: assms)

subsection \<open>The routes of jobs keep what each of their writes keeps\<close>

locale job_invariant =
  fixes I :: "cm_store \<Rightarrow> bool"
  assumes I_aging: "I db \<Longrightarrow> I (put_endpoint ep db)"
    and I_alarm: "I db \<Longrightarrow> I (raise_dispatch_alarm t i c why n db)"
    and I_subs: "keeps_place f \<Longrightarrow> I db \<Longrightarrow> I (update_subs P f db)"
    and I_snapshot: "I db \<Longrightarrow> I (add_snapshot t row out db)"
    and I_refusal: "I db \<Longrightarrow> I (record_refusal env t who asker code db)"
    and I_row: "keeps_origin g \<Longrightarrow> I db \<Longrightarrow> I (update_cm_job i g db)"
    and I_make: "I db \<Longrightarrow> i = fresh_id (map cm_job_id (cm_jobs db)) \<Longrightarrow> I (make_job t body window owner undone force i db)"
    and I_parts: "I db \<Longrightarrow> I (make_sub_changes body i db)"
    and I_decisions: "I db \<Longrightarrow> I (db\<lparr>decisions := ds\<rparr>)"
    and I_audited: "I db \<Longrightarrow> I (db\<lparr>audited := es\<rparr>)"
    and I_parking: "I db \<Longrightarrow> approval_id r = fresh_id (map approval_id (approvals db)) \<Longrightarrow> appr_status r = approval_status.PENDING \<Longrightarrow>
      appr_votes r = [] \<Longrightarrow> I (db\<lparr>approvals := approvals db @ [r]\<rparr>)"
    and I_outbox: "I db \<Longrightarrow> I (db\<lparr>ran := (ran db)\<lparr>outbox := ns\<rparr>\<rparr>)"
begin

lemma I_marking: "I db \<Longrightarrow> I (mark_reverted i db)"
  unfolding mark_reverted_def by (rule I_subs) (simp_all add: keeps_place_def)

sublocale direct: write_relation "\<lambda>a b. I a \<longrightarrow> I b" "\<lambda>why. from_approval why = None"
  by unfold_locales (auto intro: I_aging I_alarm I_subs I_snapshot I_refusal I_row I_make I_parts I_decisions I_audited I_parking I_outbox
      I_marking simp: plain_origin_def)

lemma direct_steady: "evolves (\<lambda>a b. I a \<longrightarrow> I b) m \<Longrightarrow> steady I m"
  by (erule steady_evolves) auto

lemma steady_pieces [simp]:
  "steady I (the_job i)" "steady I (fire_job i ev)" "steady I (finish_job i)" "steady I (refuse env who asker err)"
  "steady I (refuse_if_killed env caller asker2)" "steady I (enforce_scope env sc caller asker2 refs)"
  "steady I (enforce_rapp_limit env caller asker2)" "steady I (enforce_change_limits env body caller)"
  "steady I (changed_since env expected)" "steady I (advance env i)" "steady I (chain_decisions_quietly env)"
  "steady I (record_decision env who2 body how job approval)" "steady I (notify_approvers env kind a)"
  by (rule direct_steady; simp add: direct.job.fires direct.job.finishes direct.advanced)+

lemma steady_execute: "from_approval why = None \<Longrightarrow> steady I (execute_write env body why)"
  by (rule direct_steady [OF direct.executes])

lemma steady_row: "keeps_origin f \<Longrightarrow> steady I (writing (update_cm_job i f))"
  by (rule steady_writing) (rule I_row)

lemma steady_subs: "keeps_place f \<Longrightarrow> steady I (writing (update_subs P f))"
  by (rule steady_writing) (rule I_subs)

lemma steady_reach: "steady I (job_in_reach env h i asker)"
  unfolding job_in_reach_def by (auto intro!: steady_then split: option.split)

lemma steady_summary: "steady I (summary_of i)"
  unfolding summary_of_def by (auto intro!: steady_then)

lemma steady_fire_from: "steady I (fire_from i st ev)"
  unfolding fire_from_def by (auto intro!: steady_then steady_row simp: keeps_origin_def config_job.truncate_def)

lemma steady_resume: "steady I (resume_job env i)"
  unfolding resume_job_def
  by (auto intro!: steady_then steady_row steady_fire_from steady_summary simp: keeps_origin_def config_job.truncate_def)

lemma steady_plan: "steady I (plan_undo env i only)"
  unfolding plan_undo_def by (auto intro!: steady_then)

lemma steady_kpi_check: "steady I (kpi_check env i req)"
  unfolding kpi_check_def Let_def
  by (auto intro!: steady_then steady_plan steady_execute simp: plain_origin_def split: write_answer.split prod.split)

lemma steady_guard: "steady I (run_guard env t i)"
  unfolding run_guard_def guarded_check_def Let_def
  by (auto intro!: steady_then steady_catch steady_kpi_check steady_row simp: keeps_origin_def config_job.truncate_def
      split: option.split prod.split http_error.split)

lemma steady_halted: "steady I (halted_job env h i asker)"
  unfolding halted_job_def by (auto intro!: steady_then steady_reach)

lemma steady_waiting: "steady I (waiting_job env h i who why states)"
  unfolding waiting_job_def by (auto intro!: steady_then steady_reach)

lemma steady_window: "steady I (approve_window env (revert n env) i who why)"
  by (rule direct_steady [OF direct.window [OF direct.reverts]])

lemma steady_job_routes:
  "steady I (serve env (AskWrite h body))" "steady I (serve env (AskRollback h i asker sc role force dry))"
  "steady I (serve env (AskKpiCheck h i req))" "steady I (serve env (AskGuards t))" "steady I (serve env (AskContinue h i asker force))"
  "steady I (serve env (AskHalt h i asker))" "steady I (serve env (AskAbort h i asker))" "steady I (serve env AskAdvance)"
  "steady I (serve env (AskApproveJob h i who why))" "steady I (serve env (AskRejectJob h i who why))"
  "steady I (serve env (AskOnboard template ref cs))"
proof -
  note origin = keeps_origin_def config_job.truncate_def keeps_place_def plain_origin_def
  show "steady I (serve env (AskWrite h body))"
    by (auto simp: write_configuration_changes_def Let_def intro!: steady_discard steady_then steady_execute)
  show "steady I (serve env (AskRollback h i asker sc role force dry))"
    by (auto simp: rollback_configuration_job_def origin intro!: steady_discard steady_then steady_execute steady_reach steady_plan split: prod.split)
  show "steady I (serve env (AskKpiCheck h i req))"
    by (auto simp: check_configuration_job_kpi_def intro!: steady_discard steady_then steady_reach steady_kpi_check)
  show "steady I (serve env (AskGuards t))"
    by (auto simp: run_due_kpi_guards_def intro!: steady_discard steady_then steady_loops steady_guard)
  show "steady I (serve env (AskContinue h i asker force))"
    by (auto simp: continue_configuration_job_def start_scheduled_def Let_def origin
        intro!: steady_discard steady_then steady_reach steady_halted steady_resume steady_fire_from steady_row steady_summary)
  show "steady I (serve env (AskHalt h i asker))"
    by (auto simp: halt_configuration_job_def origin intro!: steady_discard steady_then steady_halted steady_row steady_summary)
  show "steady I (serve env (AskAbort h i asker))"
    by (auto simp: abort_configuration_job_def origin intro!: steady_discard steady_then steady_halted steady_row steady_summary steady_subs)
  show "steady I (serve env AskAdvance)"
    by (auto simp: advance_due_jobs_def intro!: steady_discard steady_then steady_loops steady_resume)
  show "steady I (serve env (AskApproveJob h i who why))"
    by (auto simp: approve_configuration_job_def intro!: steady_discard steady_then steady_waiting steady_window steady_summary simp del: revert.simps One_nat_def split: prod.split)
  show "steady I (serve env (AskRejectJob h i who why))"
    by (auto simp: reject_configuration_job_def origin intro!: steady_discard steady_then steady_waiting steady_row steady_subs steady_summary split: prod.split)
  show "steady I (serve env (AskOnboard template ref cs))"
    by (auto simp: onboarding_write_def origin intro!: steady_discard steady_execute split: sum.split)
qed

end
text \<open>With the routes that only write a setting.\<close>

locale service_invariant = job_invariant I for I :: "cm_store \<Rightarrow> bool" +
  assumes I_policies: "I db \<Longrightarrow> I (db\<lparr>policies := ps\<rparr>)"
    and I_told: "I db \<Longrightarrow> I (db\<lparr>approval_subscriptions := ts\<rparr>)"
    and I_kills: "I db \<Longrightarrow> I (db\<lparr>kills := ks\<rparr>)"
    and I_limits: "I db \<Longrightarrow> I (db\<lparr>limits := ls\<rparr>)"
    and I_safeguards: "I db \<Longrightarrow> I (db\<lparr>safeguard_subscriptions := ss\<rparr>)"
    and I_refusals: "I db \<Longrightarrow> I (db\<lparr>refusals := rs\<rparr>)"
    and I_history: "I db \<Longrightarrow> I (db\<lparr>snapshots := delete_where P (snapshots db)\<rparr>)"
begin

lemma steady_own: "steady I (not_own_limit caller who)"
  by (simp add: not_own_limit_def)

lemma steady_settings:
  "steady I (serve env (AskSetPolicy h who asker timeout on_timeout required))" "steady I (serve env (AskDropPolicy h who))"
  "steady I (serve env (AskTellApprovers uri))" "steady I (serve env (AskUntellApprovers i))"
  "steady I (serve env (AskKill who asker why))" "steady I (serve env (AskLiftKill who))"
  "steady I (serve env (AskSetLimit h who per_hour per_job percent))" "steady I (serve env (AskDropLimit h who))"
  "steady I (serve env (AskTellRefusals uri codes))" "steady I (serve env (AskUntellRefusals i))"
  "steady I (serve env (AskPurgeRefusals retention older))" "steady I (serve env (AskPurgeHistory retention older))"
proof -
  show "steady I (serve env (AskSetPolicy h who asker timeout on_timeout required))"
    by (auto simp: set_approval_policy_def Let_def intro!: steady_then steady_own steady_writing I_policies)
  show "steady I (serve env (AskDropPolicy h who))"
    by (auto simp: delete_approval_policy_def intro!: steady_then steady_own steady_writing I_policies)
  show "steady I (serve env (AskTellApprovers uri))"
    by (auto simp: subscribe_to_approvals_def intro!: steady_then steady_writing I_told)
  show "steady I (serve env (AskUntellApprovers i))"
    by (auto simp: unsubscribe_from_approvals_def intro!: steady_then steady_writing I_told)
  show "steady I (serve env (AskKill who asker why))"
    by (auto simp: kill_rapp_def intro!: steady_then steady_writing I_kills)
  show "steady I (serve env (AskLiftKill who))"
    by (auto simp: lift_rapp_kill_def intro!: steady_then steady_writing I_kills)
  show "steady I (serve env (AskSetLimit h who per_hour per_job percent))"
    by (auto simp: set_rapp_limit_def Let_def intro!: steady_then steady_own steady_writing I_limits)
  show "steady I (serve env (AskDropLimit h who))"
    by (auto simp: delete_rapp_limit_def intro!: steady_then steady_own steady_writing I_limits)
  show "steady I (serve env (AskTellRefusals uri codes))"
    by (auto simp: subscribe_to_safeguard_refusals_def intro!: steady_then steady_writing I_safeguards)
  show "steady I (serve env (AskUntellRefusals i))"
    by (auto simp: unsubscribe_from_safeguard_refusals_def intro!: steady_then steady_writing I_safeguards)
  show "steady I (serve env (AskPurgeRefusals retention older))"
    by (auto simp: purge_refusals_def purge_safeguard_refusals_def Let_def intro!: steady_discard steady_then steady_writing I_refusals)
  show "steady I (serve env (AskPurgeHistory retention older))"
    by (auto simp: purge_configuration_history_def Let_def intro!: steady_discard steady_then steady_writing I_history)
qed

text \<open>Every request, once the four routes that decide an approval are known to keep it.\<close>

lemma steady_serve:
  assumes "\<And>h a who why. steady I (serve env (AskApprove h a who why))" "\<And>h a who why. steady I (serve env (AskReject h a who why))"
    "\<And>h a. steady I (serve env (AskReadApproval h a))" "steady I (serve env AskLapse)"
  shows "steady I (serve env req)"
proof (cases req)
qed (simp_all only: assms steady_settings steady_job_routes)

end

end
