(* ===== verification/ApprovalSafety.thy ===== *)
theory ApprovalSafety
  imports ConfigReach
begin

section \<open>Approvals are decided once, and by two people where two are asked for\<close>

definition person :: "string \<Rightarrow> string" where
  "person name = lower (strip name)"

lemma same_person_iff: "same_person a b \<longleftrightarrow> person a = person b"
  by (simp add: same_person_def person_def)

definition two_people :: "action_approval \<Rightarrow> bool" where
  "two_people r \<longleftrightarrow> (1 < appr_required r \<longrightarrow>
     distinct (map (person \<circ> vote_by) (appr_votes r)) \<and>
     person (appr_invoker r) \<notin> (person \<circ> vote_by) ` set (appr_votes r) \<and>
     person (appr_requested_by r) \<notin> (person \<circ> vote_by) ` set (appr_votes r) \<and>
     (appr_status r = approval_status.APPROVED \<longrightarrow> appr_required r \<le> length (appr_votes r)))"

lemma approvals_untouched [simp]:
  "approvals (put_endpoint ep db) = approvals db" "approvals (raise_dispatch_alarm t i c why n db) = approvals db"
  "approvals (update_subs P f db) = approvals db" "approvals (add_snapshot t row out db) = approvals db"
  "approvals (make_sub_changes body i db) = approvals db" "approvals (mark_reverted i db) = approvals db"
  "approvals (record_refusal env t who asker code db) = approvals db" "approvals (update_cm_job i g db) = approvals db"
  "approvals (make_job t body w owner undone force i db) = approvals db"
  by (simp_all add: put_endpoint_def raise_dispatch_alarm_def update_subs_def add_snapshot_def make_sub_changes_def mark_reverted_def
      record_refusal_def update_cm_job_def make_job_def Let_def split: option.split prod.split)

lemma set_update_approval: "set (approvals (update_approval a f db)) = (\<lambda>r. if approval_id r = a then f r else r) ` set (approvals db)"
  by (simp add: update_approval_def set_update_where)

text \<open>An invariant of the approvals alone, which a new request meets.\<close>

locale approval_invariant =
  fixes A :: "action_approval list \<Rightarrow> bool"
  assumes parked: "A rs \<Longrightarrow> approval_id r = fresh_id (map approval_id rs) \<Longrightarrow> appr_status r = approval_status.PENDING \<Longrightarrow> appr_votes r = [] \<Longrightarrow> A (rs @ [r])"
begin

sublocale all: service_invariant "\<lambda>db. A (approvals db)"
  by unfold_locales (simp_all add: parked)

end

subsection \<open>What a decision changes of a request\<close>

definition asked_as :: "action_approval \<Rightarrow> uid \<times> string \<times> string \<times> nat" where
  "asked_as r = (approval_id r, appr_invoker r, appr_requested_by r, appr_required r)"

text \<open>Running an approved request signs it and may close it as approved; nothing else of any request changes.\<close>

definition closes_row :: "uid \<Rightarrow> action_approval \<Rightarrow> action_approval \<Rightarrow> bool" where
  "closes_row a r r' \<longleftrightarrow> (approval_id r \<noteq> a \<longrightarrow> r' = r) \<and> asked_as r' = asked_as r \<and> appr_votes r' = appr_votes r \<and>
     (appr_status r' = appr_status r \<or> appr_status r' = approval_status.APPROVED)"

definition closes :: "uid \<Rightarrow> cm_store \<Rightarrow> cm_store \<Rightarrow> bool" where
  "closes a db db' \<longleftrightarrow> list_all2 (closes_row a) (approvals db) (approvals db')"

lemma closes_row_refl: "closes_row a r r"
  by (simp add: closes_row_def)

lemma closes_row_trans: "closes_row a r s \<Longrightarrow> closes_row a s t \<Longrightarrow> closes_row a r t"
  by (auto simp: closes_row_def asked_as_def)

lemma closes_same: "approvals db' = approvals db \<Longrightarrow> closes a db db'"
  by (simp add: closes_def list_all2_same closes_row_refl)

lemma closes_trans: "closes a x y \<Longrightarrow> closes a y z \<Longrightarrow> closes a x z"
  unfolding closes_def by (rule list_all2_trans [OF closes_row_trans])

lemma closes_update:
  assumes "\<And>r. approval_id r = a \<Longrightarrow> closes_row a r (f r)"
  shows "closes a db (update_approval a f db)"
  using assms by (simp add: closes_def update_approval_def update_where_def list_all2_map2 list_all2_same closes_row_refl)

lemma closes_approved: "closes a db (update_approval a (\<lambda>r. r\<lparr>appr_status := approval_status.APPROVED, appr_job := Some i\<rparr>) db)"
  by (rule closes_update) (simp add: closes_row_def asked_as_def)

interpretation touch: write_relation "closes a" "\<lambda>why. \<not> may_park why \<and> (from_approval why = None \<or> from_approval why = Some a)" for a
  by unfold_locales
    (erule (1) closes_trans | simp add: closes_same plain_origin_def | (auto simp: closes_approved)[1])+

lemma touch_sign: "evolves (closes a) (sign a who t why)"
  unfolding sign_def by (rule touch.writes [OF closes_update]) (simp add: closes_row_def asked_as_def)

lemma touch_run: "evolves (closes a) (run_approved env a row who why)"
  unfolding run_approved_def Let_def
  by (intro touch.thens touch.refuses_killed touch.limiting touch.scoping touch.bounding touch.reads touch_sign touch.executes) simp

lemma two_closes:
  assumes "closes a db db'" "\<forall>r \<in> set (approvals db). two_people r \<and> (approval_id r = a \<longrightarrow> 1 < appr_required r \<longrightarrow> appr_required r \<le> length (appr_votes r))"
  shows "\<forall>r \<in> set (approvals db'). two_people r \<and> (approval_id r = a \<longrightarrow> 1 < appr_required r \<longrightarrow> appr_required r \<le> length (appr_votes r))"
proof
  fix r' assume "r' \<in> set (approvals db')"
  with assms(1) obtain r where "r \<in> set (approvals db)" "closes_row a r r'"
    unfolding closes_def by (metis in_set_conv_nth list_all2_conv_all_nth)
  with assms(2) show "two_people r' \<and> (approval_id r' = a \<longrightarrow> 1 < appr_required r' \<longrightarrow> appr_required r' \<le> length (appr_votes r'))"
    by (auto simp: closes_row_def two_people_def asked_as_def)
qed

subsection \<open>Decided once\<close>

definition held :: "action_approval \<Rightarrow> action_approval list \<Rightarrow> bool" where
  "held r rs \<longleftrightarrow> r \<in> set rs \<and> appr_status r \<noteq> approval_status.PENDING \<and> distinct (map approval_id rs)"

interpretation hold: approval_invariant "held r" for r
  by unfold_locales (use fresh_id_notin in \<open>auto simp: held_def\<close>)

lemma held_found: "held r (approvals db) \<Longrightarrow> get_approval db (approval_id r) = Some r"
proof -
  assume held: "held r (approvals db)"
  then have "find (\<lambda>k. approval_id k = approval_id r) (approvals db) = Some r"
    using find_same_key [of approval_id "approvals db" r] by (simp add: held_def eq_commute)
  then show ?thesis by (simp add: get_approval_def row_where_def)
qed

lemma held_other:
  "approval_id r \<noteq> a \<Longrightarrow> (\<And>k. approval_id (g k) = approval_id k) \<Longrightarrow> held r (approvals db) \<Longrightarrow> held r (approvals (update_approval a g db))"
  by (auto simp: held_def update_approval_def set_update_where map_update_where image_iff)

lemma held_closes: "closes a db db' \<Longrightarrow> approval_id r \<noteq> a \<Longrightarrow> held r (approvals db) \<Longrightarrow> held r (approvals db')"
proof -
  assume closes: "closes a db db'" and other: "approval_id r \<noteq> a" and held: "held r (approvals db)"
  have "map approval_id (approvals db') = map approval_id (approvals db)"
    using closes unfolding closes_def by (induction rule: list_all2_induct) (auto simp: closes_row_def asked_as_def)
  moreover have "r \<in> set (approvals db')"
  proof -
    from held obtain k where k: "k < length (approvals db)" "approvals db ! k = r" by (auto simp: held_def in_set_conv_nth)
    with closes have "closes_row a r (approvals db' ! k)" "k < length (approvals db')"
      by (auto simp: closes_def list_all2_conv_all_nth)
    with other show ?thesis by (auto simp: closes_row_def in_set_conv_nth)
  qed
  ultimately show ?thesis using held by (simp add: held_def)
qed

abbreviation steadily :: "action_approval \<Rightarrow> 'a cm \<Rightarrow> bool" where
  "steadily r \<equiv> steady (\<lambda>db. held r (approvals db))"

lemma hold_write: "approval_id r \<noteq> a \<Longrightarrow> (\<And>k. approval_id (g k) = approval_id k) \<Longrightarrow> steadily r (writing (update_approval a g))"
  by (rule steady_writing) (rule held_other)
lemma hold_the [simp]: "steadily r (the_approval a)"
  unfolding the_approval_def by (auto intro!: steady_then split: option.split)

lemma hold_lapse: "steadily r (lapse_if_due env a t)"
proof (cases "approval_id r = a")
  case False
  then show ?thesis
    by (auto simp: lapse_if_due_def Let_def intro!: steady_then hold_write split: option.split)
next
  case True
  show ?thesis
  proof (rule steadyI)
    fix s x s' assume held: "in_both (\<lambda>db. held r (approvals db)) s" and run: "lapse_if_due env a t s = (x, s')"
    then have "get_approval (work s) a = Some r" using held_found [of r "work s"] True by (simp add: in_both_def)
    moreover have "\<not> pending_and_due t r" using held by (simp add: in_both_def held_def pending_and_due_def)
    ultimately have "s' = s" using run by (simp add: lapse_if_due_def then_do_def reading_def look_def give_def)
    with held show "in_both (\<lambda>db. held r (approvals db)) s'" by simp
  qed
qed

lemma hold_settle: "steadily r (settle_lapse env a)"
  unfolding settle_lapse_def by (auto intro!: steady_then hold_lapse)

lemma hold_decidable: "steadily r (decidable env h a who why)"
  unfolding decidable_def by (auto intro!: steady_then hold_settle)

text \<open>A request that is decided is not decidable.\<close>

lemma held_not_decidable:
  "triple (in_both (\<lambda>db. held r (approvals db))) (decidable env h (approval_id r) who why) (\<lambda>_ _. False) (\<lambda>_. in_both (\<lambda>db. held r (approvals db)))"
proof -
  let ?J = "in_both (\<lambda>db. held r (approvals db))"
  have found: "triple ?J (the_approval (approval_id r)) (\<lambda>row s. row = r \<and> ?J s) (\<lambda>_. ?J)"
    unfolding triple_def
    by (auto simp: the_approval_def step_reading give_def in_both_def held_found)
  have settled: "triple ?J (settle_lapse env (approval_id r)) (\<lambda>_. ?J) (\<lambda>_. ?J)"
    using hold_settle unfolding steady_def .
  have failing: "triple (\<lambda>s. row = r \<and> ?J s) (if appr_status row \<noteq> approval_status.PENDING then fail_with err else give x) (\<lambda>_ _. False) (\<lambda>_. ?J)"
    for row err and x :: "string \<times> action_approval"
    by (auto simp: triple_def fail_with_def in_both_def held_def give_def)
  have judged: "triple (\<lambda>s. row = r \<and> ?J s) (if c then fail_with err else m) (\<lambda>_ _. False) (\<lambda>_. ?J)"
    if "triple ?J m (\<lambda>_ _. False) (\<lambda>_. ?J)" for row c err and m :: "(string \<times> action_approval) cm"
    using that by (auto simp: triple_def fail_with_def)
  have asked: "triple ?J (from_sum x) (\<lambda>_. ?J) (\<lambda>_. ?J)" for x :: "http_error + string"
    by (auto simp: triple_def from_sum_def split: sum.splits)
  have refused: "triple ?J (if c then fail_with err else m) (\<lambda>_ _. False) (\<lambda>_. ?J)"
    if "triple ?J m (\<lambda>_ _. False) (\<lambda>_. ?J)" for c err and m :: "(string \<times> action_approval) cm"
    using that by (auto simp: triple_def fail_with_def)
  show ?thesis
    unfolding decidable_def
    by (rule refused, rule refused, rule triple_then [OF _ asked], rule triple_then [OF _ found], rule judged,
        rule triple_then [OF _ settled], rule triple_then [OF _ found], rule failing)
qed

lemma hold_decided:
  assumes "approval_id r \<noteq> a \<Longrightarrow> (\<And>x. steadily r (f x))"
  shows "steadily r (then_do (decidable env h a who why) f)"
proof (cases "approval_id r = a")
  case False
  then show ?thesis using assms by (intro steady_then hold_decidable) simp
next
  case True
  have "triple (\<lambda>s. False) (f x) (\<lambda>_. in_both (\<lambda>db. held r (approvals db))) (\<lambda>_. in_both (\<lambda>db. held r (approvals db)))" for x
    by (simp add: triple_def)
  moreover have "triple (in_both (\<lambda>db. held r (approvals db))) (decidable env h a who why) (\<lambda>_ _. False) (\<lambda>_. in_both (\<lambda>db. held r (approvals db)))"
    using held_not_decidable [of r env h who why] True by simp
  ultimately show ?thesis unfolding steady_def by (rule triple_then)
qed

lemma hold_close: "approval_id r \<noteq> a \<Longrightarrow> steadily r (close_refused env a who why err)"
  by (auto simp: close_refused_def cast_vote_def intro!: steady_then hold_write)

lemma hold_run: "approval_id r \<noteq> a \<Longrightarrow> steadily r (run_approved env a row who why)"
  by (rule steady_evolves [OF touch_run]) (rule held_closes)

lemma hold_serve: "steadily r (serve env req)"
proof (rule hold.all.steady_serve)
  show "steadily r (serve env (AskApprove h a who why))" for h a who why
    unfolding serve.simps approve_action_def
    by (rule steady_discard, rule hold_decided)
      (auto simp: cast_vote_def or_close_refused_def intro!: steady_then steady_catch hold_write hold_close hold_run split: prod.split http_error.split)
  show "steadily r (serve env (AskReject h a who why))" for h a who why
    unfolding serve.simps reject_action_def
    by (rule steady_discard, rule hold_decided) (auto intro!: steady_then hold_write split: prod.split)
  show "steadily r (serve env (AskReadApproval h a))" for h a
    by (auto simp: read_approval_def intro!: steady_discard steady_then hold_settle)
  have "steadily r (lapse_each env t as)" for t as
    by (induction as) (auto intro!: steady_then hold_lapse)
  then show "steadily r (serve env AskLapse)"
    by (auto simp: lapse_due_approvals_def intro!: steady_discard steady_then)
qed

text \<open>C4: An approval request is decided once. Once it is approved, rejected, expired or refused, nothing the service is asked
  - another decision, the sweep of lapsed requests, a read, a write, any route of a job - changes the row again:
  not its status, its decider, its votes, nor the job it made.\<close>

theorem decided_once:
  "run_request (serve env req) db sent = (x, db', sent') \<Longrightarrow> distinct (map approval_id (approvals db)) \<Longrightarrow>
     r \<in> set (approvals db) \<Longrightarrow> appr_status r \<noteq> approval_status.PENDING \<Longrightarrow>
     r \<in> set (approvals db') \<and> distinct (map approval_id (approvals db'))"
proof -
  assume run: "run_request (serve env req) db sent = (x, db', sent')"
    and row: "distinct (map approval_id (approvals db))" "r \<in> set (approvals db)" "appr_status r \<noteq> approval_status.PENDING"
  then have "held r (approvals db)" by (simp add: held_def)
  from steady_request [OF hold_serve this run] show ?thesis by (simp add: held_def)
qed
subsection \<open>Two people\<close>

definition sound :: "action_approval list \<Rightarrow> bool" where
  "sound rs \<longleftrightarrow> distinct (map approval_id rs) \<and> (\<forall>r \<in> set rs. two_people r)"

interpretation two: approval_invariant sound
  by unfold_locales (use fresh_id_notin in \<open>auto simp: sound_def two_people_def\<close>)

abbreviation soundly :: "'a cm \<Rightarrow> bool" where
  "soundly \<equiv> steady (\<lambda>db. sound (approvals db))"

lemma sound_update:
  "sound (approvals db) \<Longrightarrow> (\<And>r. approval_id (g r) = approval_id r) \<Longrightarrow> (\<And>r. r \<in> set (approvals db) \<Longrightarrow> approval_id r = a \<Longrightarrow> two_people (g r)) \<Longrightarrow>
     sound (approvals (update_approval a g db))"
  by (auto simp: sound_def update_approval_def set_update_where map_update_where)

lemma two_people_ended: "two_people r \<Longrightarrow> asked_as r' = asked_as r \<Longrightarrow> appr_votes r' = appr_votes r \<Longrightarrow> appr_status r' \<noteq> approval_status.APPROVED \<Longrightarrow> two_people r'"
  by (simp add: two_people_def asked_as_def)

lemma two_end:
  assumes "\<And>r. asked_as (g r) = asked_as r \<and> appr_votes (g r) = appr_votes r \<and> appr_status (g r) \<noteq> approval_status.APPROVED"
  shows "soundly (writing (update_approval a g))"
proof (rule steady_writing, rule sound_update)
  show "approval_id (g r) = approval_id r" for r using assms [of r] by (simp add: asked_as_def)
  show "two_people (g r)" if "sound (approvals db)" "r \<in> set (approvals db)" for db r
    using that assms [of r] two_people_ended [of r "g r"] by (simp add: sound_def)
qed

lemma two_the [simp]: "soundly (the_approval a)"
  unfolding the_approval_def by (auto intro!: steady_then split: option.split)

lemma two_lapse: "soundly (lapse_if_due env a t)"
  by (auto simp: lapse_if_due_def Let_def asked_as_def intro!: steady_then two_end split: option.split)

lemma two_settle: "soundly (settle_lapse env a)"
  unfolding settle_lapse_def by (auto intro!: steady_then two_lapse)

lemma two_decidable: "soundly (decidable env h a who why)"
  unfolding decidable_def by (auto intro!: steady_then two_settle)

text \<open>The request \<open>a\<close> is there, and \<open>who\<close> has not asked for it.\<close>

definition stranger :: "string \<Rightarrow> action_approval \<Rightarrow> bool" where
  "stranger who r \<longleftrightarrow> (1 < appr_required r \<longrightarrow> person who \<noteq> person (appr_invoker r) \<and> person who \<noteq> person (appr_requested_by r))"

definition open_to :: "string \<Rightarrow> uid \<Rightarrow> action_approval list \<Rightarrow> bool" where
  "open_to who a rs \<longleftrightarrow> sound rs \<and> a \<in> approval_id ` set rs \<and> (\<forall>r \<in> set rs. approval_id r = a \<longrightarrow> stranger who r)"

interpretation opened: approval_invariant "open_to who a" for who a
  by unfold_locales (use two.parked fresh_id_notin in \<open>auto simp: open_to_def\<close>)

lemma stranger_asked: "asked_as k = asked_as r \<Longrightarrow> stranger who k = stranger who r"
  by (simp add: stranger_def asked_as_def)

lemma not_own_stranger: "\<not> own_decision h who r \<Longrightarrow> stranger who r"
  by (simp add: own_decision_def stranger_def same_person_iff)

lemma sound_row: "sound (approvals db) \<Longrightarrow> get_approval db a = Some row \<Longrightarrow> r \<in> set (approvals db) \<Longrightarrow> approval_id r = a \<Longrightarrow> r = row"
  using distinct_key_eq [of approval_id "approvals db" r row] row_where_SomeD [of "\<lambda>r. approval_id r = a" "approvals db" row]
  by (auto simp: sound_def get_approval_def)

lemma open_found: "sound (approvals db) \<Longrightarrow> get_approval db a = Some row \<Longrightarrow> stranger who row \<Longrightarrow> open_to who a (approvals db)"
  using sound_row [of db a row] row_where_SomeD [of "\<lambda>r. approval_id r = a" "approvals db" row]
  by (auto simp: open_to_def get_approval_def)

lemma open_update:
  assumes "open_to who a (approvals db)" "\<And>r. asked_as (g r) = asked_as r"
    "\<And>r. r \<in> set (approvals db) \<Longrightarrow> approval_id r = a \<Longrightarrow> stranger who r \<Longrightarrow> two_people (g r)"
  shows "open_to who a (approvals (update_approval a g db))"
proof -
  have ids: "approval_id (g r) = approval_id r" for r using assms(2) [of r] by (simp add: asked_as_def)
  have "sound (approvals (update_approval a g db))"
    using assms by (intro sound_update ids) (auto simp: open_to_def)
  moreover have "stranger who (g r)" if "r \<in> set (approvals db)" "approval_id r = a" for r
    using assms(1) that stranger_asked [OF assms(2)] by (auto simp: open_to_def)
  moreover have "map approval_id (approvals (update_approval a g db)) = map approval_id (approvals db)"
    by (simp add: update_approval_def map_update_where ids)
  then have "a \<in> approval_id ` set (approvals (update_approval a g db))"
    using assms(1) unfolding open_to_def by (metis list.set_map)
  ultimately show ?thesis using ids by (auto simp: open_to_def set_update_approval split: if_splits)
qed

abbreviation openly :: "string \<Rightarrow> uid \<Rightarrow> 'a cm \<Rightarrow> bool" where
  "openly who a \<equiv> steady (\<lambda>db. open_to who a (approvals db))"

lemma open_end:
  assumes "\<And>r. asked_as (g r) = asked_as r \<and> appr_votes (g r) = appr_votes r \<and> appr_status (g r) \<noteq> approval_status.APPROVED"
  shows "openly who a (writing (update_approval a g))"
proof (rule steady_writing, rule open_update)
  show "two_people (g r)" if "open_to who a (approvals db)" "r \<in> set (approvals db)" for db r
    using that assms [of r] two_people_ended [of r "g r"] by (simp add: open_to_def sound_def)
qed (use assms in auto)

lemma open_the [simp]: "openly who a (the_approval k)"
  unfolding the_approval_def by (auto intro!: steady_then split: option.split)

lemma open_settle: "openly who a (settle_lapse env a)"
  by (auto simp: settle_lapse_def lapse_if_due_def Let_def asked_as_def intro!: steady_then open_end split: option.split)

lemma the_approval_gives: "triple P (the_approval a) (\<lambda>row s. P s \<and> get_approval (work s) a = Some row) (\<lambda>_. P)"
  by (auto simp: triple_def the_approval_def step_reading give_def fail_with_def split: option.split)

lemma triple_refuse_if: "(\<not> c \<Longrightarrow> triple P m Q E) \<Longrightarrow> (\<And>s. P s \<Longrightarrow> E err s) \<Longrightarrow> triple P (if c then fail_with err else m) Q E"
  by (auto simp: triple_def fail_with_def)

lemma decidable_opens:
  "triple (\<lambda>s. sound (approvals (work s)) \<and> kept s = work s) (decidable env h a claimed why)
     (\<lambda>p s. in_both (\<lambda>db. open_to (fst p) a (approvals db)) s \<and> get_approval (work s) a = Some (snd p))
     (\<lambda>_. in_both (\<lambda>db. sound (approvals db)))"
proof -
  let ?P = "\<lambda>s. sound (approvals (work s)) \<and> kept s = work s" and ?E = "\<lambda>_. in_both (\<lambda>db. sound (approvals db))"
  let ?Q = "\<lambda>p s. in_both (\<lambda>db. open_to (fst p) a (approvals db)) s \<and> get_approval (work s) a = Some (snd p)"
  have E: "?P s \<Longrightarrow> ?E err s" for s and err :: http_error by (simp add: in_both_def)
  have ES: "in_both (\<lambda>db. open_to who a (approvals db)) s \<Longrightarrow> ?E err s" for who s and err :: http_error
    by (simp add: in_both_def open_to_def)
  have settle: "triple (in_both (\<lambda>db. open_to who a (approvals db))) (settle_lapse env a) (\<lambda>_. in_both (\<lambda>db. open_to who a (approvals db))) ?E" for who
    by (rule triple_weaken [OF open_settle [of who a env, unfolded steady_def]]) (auto intro: ES)
  have reread: "triple (in_both (\<lambda>db. open_to who a (approvals db))) (the_approval a)
      (\<lambda>row s. in_both (\<lambda>db. open_to who a (approvals db)) s \<and> get_approval (work s) a = Some row) ?E" for who
    by (rule triple_weaken [OF the_approval_gives [of "in_both (\<lambda>db. open_to who a (approvals db))" a]]) (auto intro: ES)
  have last: "triple (\<lambda>s. in_both (\<lambda>db. open_to who a (approvals db)) s \<and> get_approval (work s) a = Some row)
      (if appr_status row \<noteq> approval_status.PENDING then fail_with APPROVAL_NOT_PENDING else give (who, row)) ?Q ?E" for who row
    using ES by (auto simp: triple_def fail_with_def give_def)
  have judged: "triple (\<lambda>s. ?P s \<and> get_approval (work s) a = Some row)
      (if own_decision h who row then fail_with APPROVAL_SELF_DECISION
       else then_do (settle_lapse env a) (\<lambda>_. then_do (the_approval a) (\<lambda>row'.
            if appr_status row' \<noteq> approval_status.PENDING then fail_with APPROVAL_NOT_PENDING else give (who, row')))) ?Q ?E" for who row
  proof (rule triple_refuse_if)
    assume "\<not> own_decision h who row"
    then have go: "in_both (\<lambda>db. open_to who a (approvals db)) s" if "?P s \<and> get_approval (work s) a = Some row" for s
      using that open_found [of "work s" a row who] by (simp add: in_both_def not_own_stranger)
    have "triple (in_both (\<lambda>db. open_to who a (approvals db))) (then_do (settle_lapse env a) (\<lambda>_. then_do (the_approval a) (\<lambda>row'.
            if appr_status row' \<noteq> approval_status.PENDING then fail_with APPROVAL_NOT_PENDING else give (who, row')))) ?Q ?E"
      by (rule triple_then [OF _ settle], rule triple_then [OF _ reread], rule last)
    then show "triple (\<lambda>s. ?P s \<and> get_approval (work s) a = Some row) (then_do (settle_lapse env a) (\<lambda>_. then_do (the_approval a) (\<lambda>row'.
            if appr_status row' \<noteq> approval_status.PENDING then fail_with APPROVAL_NOT_PENDING else give (who, row')))) ?Q ?E"
      by (rule triple_weaken) (use go in auto)
  qed (simp add: in_both_def)
  have first: "triple ?P (the_approval a) (\<lambda>row s. ?P s \<and> get_approval (work s) a = Some row) ?E"
    by (rule triple_weaken [OF the_approval_gives [of ?P a]]) (auto intro: E)
  have asked: "triple ?P (from_sum x) (\<lambda>_. ?P) ?E" for x :: "http_error + string"
    using E by (auto simp: triple_def from_sum_def split: sum.splits)
  show ?thesis
    unfolding decidable_def
    by (rule triple_refuse_if, rule triple_refuse_if, rule triple_then [OF _ asked], rule triple_then [OF _ first], rule judged) (rule E, assumption)+
qed
text \<open>A vote by someone who has neither asked nor voted.\<close>

lemma vote_ok:
  assumes "two_people r" "stranger who r" "1 < appr_required r \<Longrightarrow> \<not> has_voted who r" "appr_status r \<noteq> approval_status.APPROVED \<or> appr_required r \<le> 1"
  shows "two_people (r\<lparr>appr_votes := appr_votes r @ [\<lparr>vote_by = who, vote_at = t, vote_reason = why\<rparr>]\<rparr>)"
  using assms by (auto simp: two_people_def stranger_def has_voted_def same_person_iff list_ex_iff)

lemma open_vote:
  assumes "open_to who a (approvals db)" "get_approval db a = Some row" "1 < appr_required row \<Longrightarrow> \<not> has_voted who row"
    "appr_status row \<noteq> approval_status.APPROVED"
  shows "open_to who a (approvals (update_approval a (\<lambda>r. r\<lparr>appr_votes := appr_votes r @ [\<lparr>vote_by = who, vote_at = t, vote_reason = why\<rparr>]\<rparr>) db))"
proof (rule open_update [OF assms(1)])
  fix r assume r: "r \<in> set (approvals db)" "approval_id r = a" "stranger who r"
  with assms(1,2) have "r = row" using sound_row by (auto simp: open_to_def)
  with r assms show "two_people (r\<lparr>appr_votes := appr_votes r @ [\<lparr>vote_by = who, vote_at = t, vote_reason = why\<rparr>]\<rparr>)"
    by (intro vote_ok) (auto simp: open_to_def sound_def)
qed (simp add: asked_as_def)

definition enough :: "uid \<Rightarrow> cm_store \<Rightarrow> bool" where
  "enough a db \<longleftrightarrow> (\<forall>r \<in> set (approvals db). approval_id r = a \<longrightarrow> 1 < appr_required r \<longrightarrow> appr_required r \<le> length (appr_votes r))"

lemma closes_enough:
  assumes "closes a db db'" "open_to who a (approvals db)" "enough a db"
  shows "open_to who a (approvals db')" "enough a db'"
proof -
  have ids: "map asked_as (approvals db') = map asked_as (approvals db)"
    using assms(1) unfolding closes_def by (induction rule: list_all2_induct) (auto simp: closes_row_def)
  have "map (fst \<circ> asked_as) (approvals db') = map (fst \<circ> asked_as) (approvals db)"
    using arg_cong [OF ids, of "map fst"] by simp
  then have ids': "map approval_id (approvals db') = map approval_id (approvals db)" by (simp add: comp_def asked_as_def)
  have two: "two_people r \<and> (approval_id r = a \<longrightarrow> 1 < appr_required r \<longrightarrow> appr_required r \<le> length (appr_votes r))" if "r \<in> set (approvals db')" for r
    by (rule two_closes [OF assms(1), rule_format, OF _ that]) (use assms(2,3) in \<open>simp_all add: open_to_def sound_def enough_def\<close>)
  have strange: "stranger who r" if "r \<in> set (approvals db')" "approval_id r = a" for r
  proof -
    from that(1) ids obtain k where "k \<in> set (approvals db)" "asked_as k = asked_as r" by (metis (no_types, opaque_lifting) image_iff list.set_map)
    with assms(2) that(2) stranger_asked [of r k who] show ?thesis by (auto simp: open_to_def asked_as_def)
  qed
  show "open_to who a (approvals db')"
    using two strange ids' assms(2) unfolding open_to_def sound_def by (metis list.set_map)
  show "enough a db'" using two by (simp add: enough_def)
qed

lemma run_opens:
  "triple (\<lambda>s. in_both (\<lambda>db. open_to who a (approvals db)) s \<and> enough a (work s)) (run_approved env a row who why)
     (\<lambda>_. in_both (\<lambda>db. open_to who a (approvals db))) (\<lambda>_. in_both (\<lambda>db. open_to who a (approvals db)))"
proof -
  have "in_both (\<lambda>db. open_to who a (approvals db)) s'"
    if "in_both (\<lambda>db. open_to who a (approvals db)) s" "enough a (work s)" "run_approved env a row who why s = (x, s')" for s x s'
    using that(1,2) closes_enough evolvesD [OF touch_run that(3)] evolves_keptD [OF touch_run that(3)] unfolding in_both_def by metis
  then show ?thesis unfolding triple_def by (auto split: prod.split sum.split)
qed

lemma close_opens: "openly who a (close_refused env a who why err)"
proof -
  let ?J = "in_both (\<lambda>db. open_to who a (approvals db))"
  have ended: "triple (\<lambda>s. ?J s \<and> get_approval (work s) a = Some row)
      (writing (update_approval a (\<lambda>r. r\<lparr>appr_status := approval_status.REFUSED, appr_refusal_code := Some (code_of err),
         appr_decided_by := Some who, appr_decided_at := Some t, appr_decision_reason := why\<rparr>)))
      (\<lambda>_ s. ?J s \<and> (\<exists>k. get_approval (work s) a = Some k \<and> appr_votes k = appr_votes row \<and> appr_status k = approval_status.REFUSED)) (\<lambda>_. ?J)"
    (is "triple _ (writing (update_approval a ?g)) _ _") for row t
  proof -
    have "openly who a (writing (update_approval a ?g))" by (rule open_end) (simp add: asked_as_def)
    moreover have "get_approval (update_approval a ?g db) a = Some (?g row)" if "get_approval db a = Some row" for db
      using that row_where_SomeD [of "\<lambda>r. approval_id r = a" "approvals db" row]
      by (simp add: get_approval_def update_approval_def row_where_update)
    ultimately show ?thesis
      unfolding steady_def triple_def by (fastforce simp: writing_def change_def)
  qed
  have votes: "triple (\<lambda>s. ?J s \<and> (\<exists>k. get_approval (work s) a = Some k \<and> appr_votes k = appr_votes row \<and> appr_status k = approval_status.REFUSED))
      (if 1 < appr_required row \<and> \<not> has_voted who row then cast_vote a who t why else give ()) (\<lambda>_. ?J) (\<lambda>_. ?J)" for row t
    by (auto simp: triple_def cast_vote_def writing_def change_def give_def in_both_def has_voted_def intro!: open_vote)
  have rest: "triple ?J (then_do (record_decision env w body disposition.REFUSED None (Some a)) (\<lambda>_. then_do commit_session (\<lambda>_. chain_decisions_quietly env)))
      (\<lambda>_. ?J) (\<lambda>_. ?J)" for w body
    unfolding steady_def [symmetric] by (auto intro!: steady_then)
  have whole: "triple (\<lambda>s. ?J s \<and> get_approval (work s) a = Some row)
      (if appr_status row \<noteq> approval_status.PENDING then give ()
       else then_do (now env) (\<lambda>t. then_do (writing (update_approval a (\<lambda>r. r\<lparr>appr_status := approval_status.REFUSED, appr_refusal_code := Some (code_of err),
             appr_decided_by := Some who, appr_decided_at := Some t, appr_decision_reason := why\<rparr>))) (\<lambda>_.
          then_do (if 1 < appr_required row \<and> \<not> has_voted who row then cast_vote a who t why else give ()) (\<lambda>_.
          then_do (record_decision env (appr_invoker row) (appr_request row) disposition.REFUSED None (Some a)) (\<lambda>_.
          then_do commit_session (\<lambda>_. chain_decisions_quietly env)))))) (\<lambda>_. ?J) (\<lambda>_. ?J)" for row
  proof (cases "appr_status row = approval_status.PENDING")
    case True
    have time: "triple (\<lambda>s. ?J s \<and> get_approval (work s) a = Some row) (now env) (\<lambda>_ s. ?J s \<and> get_approval (work s) a = Some row) (\<lambda>_. ?J)"
      by (auto simp: triple_def now_def look_def)
    have "triple (\<lambda>s. ?J s \<and> get_approval (work s) a = Some row)
       (then_do (now env) (\<lambda>t. then_do (writing (update_approval a (\<lambda>r. r\<lparr>appr_status := approval_status.REFUSED, appr_refusal_code := Some (code_of err),
             appr_decided_by := Some who, appr_decided_at := Some t, appr_decision_reason := why\<rparr>))) (\<lambda>_.
          then_do (if 1 < appr_required row \<and> \<not> has_voted who row then cast_vote a who t why else give ()) (\<lambda>_.
          then_do (record_decision env (appr_invoker row) (appr_request row) disposition.REFUSED None (Some a)) (\<lambda>_.
          then_do commit_session (\<lambda>_. chain_decisions_quietly env)))))) (\<lambda>_. ?J) (\<lambda>_. ?J)"
      by (rule triple_then [OF _ time], rule triple_then [OF _ ended], rule triple_then [OF _ votes], rule rest)
    with True show ?thesis by simp
  qed (simp add: triple_def give_def)
  show ?thesis
    unfolding steady_def close_refused_def by (rule triple_then [OF whole the_approval_gives])
qed
text \<open>The steps of an approval, one lemma each. \<open>deciding\<close> is where \<open>decidable\<close> leaves the session.\<close>

abbreviation opened_for :: "string \<Rightarrow> uid \<Rightarrow> session \<Rightarrow> bool" where
  "opened_for who a \<equiv> in_both (\<lambda>db. open_to who a (approvals db))"

abbreviation sound_both :: "session \<Rightarrow> bool" where
  "sound_both \<equiv> in_both (\<lambda>db. sound (approvals db))"

definition deciding :: "string \<Rightarrow> uid \<Rightarrow> action_approval \<Rightarrow> session \<Rightarrow> bool" where
  "deciding who a row s \<longleftrightarrow> opened_for who a s \<and> get_approval (work s) a = Some row \<and> appr_status row = approval_status.PENDING"

lemma opened_sound: "opened_for who a s \<Longrightarrow> sound_both s"
  by (simp add: in_both_def open_to_def)

lemma deciding_row: "deciding who a row s \<Longrightarrow> r \<in> set (approvals (work s)) \<Longrightarrow> approval_id r = a \<Longrightarrow> r = row"
  using sound_row [of "work s" a row r] by (auto simp: deciding_def in_both_def open_to_def)

lemma decidable_decides:
  "triple (\<lambda>s. sound (approvals (work s)) \<and> kept s = work s) (decidable env h a claimed why)
     (\<lambda>p. deciding (fst p) a (snd p)) (\<lambda>_. sound_both)"
proof -
  have "appr_status (snd p) = approval_status.PENDING" if "decidable env h a claimed why s = (Inr p, s')" for s p s'
    using that by (auto simp: decidable_def fail_with_def give_def elim!: run_both split: if_splits)
  then show ?thesis using decidable_opens [of env h a claimed why]
    unfolding triple_def deciding_def by (fastforce split: prod.splits sum.splits)
qed

lemma enough_votes:
  assumes "deciding who a row s" "appr_required row \<le> length (appr_votes row) + 1"
  shows "enough a (update_approval a (\<lambda>r. r\<lparr>appr_votes := appr_votes r @ [v]\<rparr>) (work s))"
  unfolding enough_def set_update_approval
proof (intro ballI impI)
  fix r assume "r \<in> (\<lambda>r. if approval_id r = a then r\<lparr>appr_votes := appr_votes r @ [v]\<rparr> else r) ` set (approvals (work s))" and "approval_id r = a"
  then obtain k where "k \<in> set (approvals (work s))" "approval_id k = a" "r = k\<lparr>appr_votes := appr_votes k @ [v]\<rparr>"
    by (auto split: if_splits)
  moreover from this have "k = row" using deciding_row [OF assms(1)] by blast
  ultimately show "appr_required r \<le> length (appr_votes r)" using assms(2) by simp
qed

lemma vote_step:
  assumes fresh: "\<not> (1 < appr_required row \<and> has_voted who row)"
  shows "triple (deciding who a row) (if 1 < appr_required row then cast_vote a who t why else give ())
    (\<lambda>_ s. opened_for who a s \<and> (\<not> (1 < appr_required row \<and> length (appr_votes row) + 1 < appr_required row) \<longrightarrow> enough a (work s)))
    (\<lambda>_. sound_both)"
proof (cases "1 < appr_required row")
  case False
  have "enough a (work s)" if "deciding who a row s" for s
    unfolding enough_def using deciding_row [OF that] False by blast
  with False show ?thesis by (simp add: triple_def give_def) (simp add: deciding_def)
next
  case True
  let ?v = "\<lparr>vote_by = who, vote_at = t, vote_reason = why\<rparr>"
  let ?g = "\<lambda>r. r\<lparr>appr_votes := appr_votes r @ [?v]\<rparr>"
  have "opened_for who a (s\<lparr>work := update_approval a ?g (work s)\<rparr>)" if "deciding who a row s" for s
    using that fresh True open_vote [of who a "work s" row t why] unfolding deciding_def in_both_def by simp
  moreover have "enough a (update_approval a ?g (work s))"
    if "deciding who a row s" "\<not> length (appr_votes row) + 1 < appr_required row" for s
    using enough_votes [OF that(1)] that(2) by simp
  ultimately show ?thesis using True by (simp add: triple_def cast_vote_def writing_def change_def)
qed

lemma final_step:
  "triple (\<lambda>s. opened_for who a s \<and> enough a (work s))
     (then_do (or_close_refused env a who why (run_approved env a row who why)) (\<lambda>answer. then_do (the_approval a) (\<lambda>row'. give (row', k answer))))
     (\<lambda>_. sound_both) (\<lambda>_. sound_both)"
proof -
  have "triple (opened_for who a) (case err of Unhandled w \<Rightarrow> fail_with err
      | Problem c n \<Rightarrow> then_do rollback_session (\<lambda>_. then_do (close_refused env a who why err) (\<lambda>_. fail_with err)))
      (\<lambda>_ :: write_answer. opened_for who a) (\<lambda>_. opened_for who a)" for err
    unfolding steady_def [symmetric] by (auto intro!: steady_then close_opens split: http_error.split)
  then have m: "triple (\<lambda>s. opened_for who a s \<and> enough a (work s)) (or_close_refused env a who why (run_approved env a row who why))
      (\<lambda>_. opened_for who a) (\<lambda>_. opened_for who a)"
    unfolding or_close_refused_def by (rule triple_catch [OF _ run_opens])
  have f: "triple (opened_for who a) (then_do (the_approval a) (\<lambda>row'. give (row', k answer))) (\<lambda>_. opened_for who a) (\<lambda>_. opened_for who a)" for answer
    unfolding steady_def [symmetric] by (auto intro!: steady_then)
  have "triple (\<lambda>s. opened_for who a s \<and> enough a (work s))
    (then_do (or_close_refused env a who why (run_approved env a row who why)) (\<lambda>answer. then_do (the_approval a) (\<lambda>row'. give (row', k answer))))
    (\<lambda>_. opened_for who a) (\<lambda>_. opened_for who a)" by (rule triple_then [OF f m])
  then show ?thesis by (rule triple_weaken) (auto intro: opened_sound)
qed

lemma first_step:
  "triple (opened_for who a) (then_do commit_session (\<lambda>_. then_do (the_approval a) (\<lambda>row'. give (row', None))))
     (\<lambda>_ :: action_approval \<times> JobState option. sound_both) (\<lambda>_. sound_both)"
  by (rule triple_weaken [of "opened_for who a" _ "\<lambda>_. opened_for who a" "\<lambda>_. opened_for who a"])
    (auto simp: steady_def [symmetric] intro!: steady_then opened_sound)

lemma approve_sound:
  "triple (\<lambda>s. sound (approvals (work s)) \<and> kept s = work s) (approve_action env h a claimed why) (\<lambda>_. sound_both) (\<lambda>_. sound_both)"
  unfolding approve_action_def
proof (rule triple_then [OF _ decidable_decides])
  fix p :: "string \<times> action_approval"
  obtain who row where p: "p = (who, row)" by (cases p)
  have time: "triple (deciding who a row) (now env) (\<lambda>_. deciding who a row) (\<lambda>_. sound_both)"
    by (simp add: triple_def now_def look_def)
  have either: "triple (\<lambda>s. opened_for who a s \<and> (\<not> c \<longrightarrow> enough a (work s)))
      (if c then then_do commit_session (\<lambda>_. then_do (the_approval a) (\<lambda>row'. give (row', None)))
       else then_do (or_close_refused env a who why (run_approved env a row who why)) (\<lambda>answer. then_do (the_approval a) (\<lambda>row'. give (row', k answer))))
      (\<lambda>_. sound_both) (\<lambda>_. sound_both)" for c and k :: "write_answer \<Rightarrow> JobState option"
    using final_step [of who a env why row k] first_step [of who a] by (cases c) simp_all
  show "triple (deciding (fst p) a (snd p)) (case p of (who, row) \<Rightarrow> then_do (now env) (\<lambda>t.
     if 1 < appr_required row \<and> has_voted who row then fail_with APPROVAL_ALREADY_GIVEN
     else then_do (if 1 < appr_required row then cast_vote a who t why else give ()) (\<lambda>_.
     if 1 < appr_required row \<and> length (appr_votes row) + 1 < appr_required row then
       then_do commit_session (\<lambda>_. then_do (the_approval a) (\<lambda>row'. give (row', None)))
     else then_do (or_close_refused env a who why (run_approved env a row who why)) (\<lambda>answer.
          then_do (the_approval a) (\<lambda>row'.
          give (row', case answer of JobSummary _ st _ _ _ \<Rightarrow> Some st | _ \<Rightarrow> None)))))) (\<lambda>_. sound_both) (\<lambda>_. sound_both)"
    unfolding p prod.case fst_conv snd_conv
    by (rule triple_then [OF _ time], rule triple_refuse_if, rule triple_then [OF either vote_step], assumption)
      (auto simp: deciding_def intro: opened_sound)
qed

lemma sound_request:
  assumes "sound (approvals db)" "run_request (serve env req) db sent = (r, db', sent')"
  shows "sound (approvals db')"
proof (cases "\<exists>h a claimed why. req = AskApprove h a claimed why")
  case True
  then obtain h a claimed why where req: "req = AskApprove h a claimed why" by blast
  have "triple (\<lambda>s. sound (approvals (work s)) \<and> kept s = work s) (serve env req) (\<lambda>_. sound_both) (\<lambda>_. sound_both)"
    unfolding req serve.simps discard_def by (rule triple_then [OF triple_give approve_sound])
  note done_it = tripleD [OF this] triple_errorD [OF this]
  from assms(2) obtain s' where s': "serve env req \<lparr>work = db, kept = db, exchanges = sent\<rparr> = (r, s')" "db' = kept s'"
    by (auto simp: run_request_def split: prod.splits)
  then have "sound_both s'" using assms(1) done_it [of "\<lparr>work = db, kept = db, exchanges = sent\<rparr>" _ s'] by (cases r) auto
  with s' show ?thesis by (simp add: in_both_def)
next
  case False
  have "soundly (serve env (AskReject h a who why))" for h a who why
    by (auto simp: reject_action_def asked_as_def intro!: steady_discard steady_then two_decidable two_end split: prod.split)
  moreover have "soundly (serve env (AskReadApproval h a))" for h a
    by (auto simp: read_approval_def intro!: steady_discard steady_then two_settle)
  moreover have "soundly (lapse_each env t as)" for t as
    by (induction as) (auto intro!: steady_then two_lapse)
  then have "soundly (serve env AskLapse)"
    by (auto simp: lapse_due_approvals_def intro!: steady_discard steady_then)
  ultimately have "soundly (serve env req)"
    using False by (cases req) (simp_all only: two.all.steady_settings two.all.steady_job_routes, blast)
  from steady_request [OF this] assms show ?thesis by blast
qed

text \<open>C3: A request that needs two approvals is approved by two people. Whatever the service was asked, in whatever order, an
  approved request that needed more than one approval carries that many votes, no two of one person (case and
  surrounding space apart), none of the rApp's or of the one who asked.\<close>

theorem two_people_approve:
  "cm_reachable env db sent \<Longrightarrow> r \<in> set (approvals db) \<Longrightarrow> 1 < appr_required r \<Longrightarrow> appr_status r = approval_status.APPROVED \<Longrightarrow>
     appr_required r \<le> card ((person \<circ> vote_by) ` set (appr_votes r)) \<and>
     person (appr_invoker r) \<notin> (person \<circ> vote_by) ` set (appr_votes r) \<and>
     person (appr_requested_by r) \<notin> (person \<circ> vote_by) ` set (appr_votes r)"
proof -
  assume reach: "cm_reachable env db sent" and r: "r \<in> set (approvals db)" "1 < appr_required r" "appr_status r = approval_status.APPROVED"
  have "sound (approvals db)"
    by (rule reachable_invariant [OF reach, of "\<lambda>db. sound (approvals db)"])
      (auto simp: fresh_store_def sound_def [of "[]"] dest: sound_request)
  with r have two: "two_people r" by (simp add: sound_def)
  then have "card ((person \<circ> vote_by) ` set (appr_votes r)) = length (appr_votes r)"
    using r(2) distinct_card [of "map (person \<circ> vote_by) (appr_votes r)"] by (simp add: two_people_def)
  with two r show ?thesis by (simp add: two_people_def)
qed

end
