(* ===== verification/ConfigTypes.thy ===== *)
theory ConfigTypes
  imports ApprovalSafety
begin

section \<open>The rows of the configuration tables stay well-formed\<close>

text \<open>
  An invariant that does not look at the approvals is kept by the routes that decide one as soon as the
  others keep it. The rows of jobs, their changes and their snapshots have such an invariant.
\<close>

locale table_invariant = service_invariant I for I :: "cm_store \<Rightarrow> bool" +
  assumes I_approvals: "I db \<Longrightarrow> I (db\<lparr>approvals := rows\<rparr>)"
begin

lemma I_closed: "I db \<Longrightarrow> I (update_approval a f db)"
  unfolding update_approval_def by (rule I_approvals)

sublocale each: write_relation "\<lambda>a b. I a \<longrightarrow> I b" "\<lambda>_. True"
  by unfold_locales (auto intro: I_aging I_alarm I_subs I_snapshot I_refusal I_row I_make I_parts I_decisions I_audited I_approvals
      I_closed I_outbox I_marking)

lemma steady_signed: "steady I (writing (update_approval a f))"
  by (rule steady_writing) (rule I_closed)

lemma steady_the: "steady I (the_approval a)"
  unfolding the_approval_def by (auto intro!: steady_then split: option.split)

lemma steady_lapse: "steady I (lapse_if_due env a t)"
  by (auto simp: lapse_if_due_def Let_def intro!: steady_then steady_signed split: option.split)

lemma steady_settle: "steady I (settle_lapse env a)"
  unfolding settle_lapse_def by (auto intro!: steady_then steady_lapse)

lemma steady_decidable: "steady I (decidable env h a who why)"
  unfolding decidable_def by (auto intro!: steady_then steady_settle steady_the)

lemma steady_run: "steady I (run_approved env a row who why)"
  unfolding run_approved_def Let_def sign_def
  by (intro steady_then steady_pieces steady_basic steady_signed steady_evolves [OF each.executes]) auto

lemma steady_close: "steady I (close_refused env a who why err)"
  by (auto simp: close_refused_def cast_vote_def intro!: steady_then steady_signed steady_the)

lemma steady_all: "steady I (serve env req)"
proof (rule steady_serve)
  show "steady I (serve env (AskApprove h a who why))" for h a who why
    by (auto simp: approve_action_def cast_vote_def or_close_refused_def intro!: steady_discard steady_then steady_catch steady_decidable
        steady_signed steady_run steady_close steady_the split: prod.split http_error.split)
  show "steady I (serve env (AskReject h a who why))" for h a who why
    by (auto simp: reject_action_def intro!: steady_discard steady_then steady_decidable steady_signed steady_the split: prod.split)
  show "steady I (serve env (AskReadApproval h a))" for h a
    by (auto simp: read_approval_def intro!: steady_discard steady_then steady_settle steady_the)
  have "steady I (lapse_each env t as)" for t as
    by (induction as) (auto intro!: steady_then steady_lapse)
  then show "steady I (serve env AskLapse)"
    by (auto simp: lapse_due_approvals_def intro!: steady_discard steady_then)
qed

end

subsection \<open>The rows\<close>

definition row_ok :: "sub_change \<Rightarrow> bool" where
  "row_ok r \<longleftrightarrow> sub_status r \<in> {''PENDING'', ''APPLIED'', ''REJECTED'', ''REVERTED''} \<and> 1 \<le> sub_wave r"

definition tables_ok :: "cm_store \<Rightarrow> bool" where
  "tables_ok db \<longleftrightarrow> (\<forall>r \<in> set (sub_changes db). row_ok r) \<and> distinct (map sub_id (sub_changes db)) \<and>
     distinct (map cm_job_id (cm_jobs db)) \<and> distinct (map snapshot_id (snapshots db))"

lemma distinct_from: "distinct (map (\<lambda>n. m + n) [0..<k])" for m :: nat
  by (simp add: distinct_map inj_on_def)

lemma keys_of_parts: "map sub_id (map (sub_change_of body i m) (zip [0..<length cs] cs)) = map (\<lambda>n. m + n) [0..<length cs]"
  by (rule nth_equalityI) (simp_all add: sub_change_of_def)

lemma above_all: "x \<in> set xs \<Longrightarrow> x < fresh_id xs + n"
  using fold_max_upper [of x xs 0] by (simp add: fresh_id_def)

lemma tables_parts: "tables_ok db \<Longrightarrow> tables_ok (make_sub_changes body i db)"
proof -
  assume ok: "tables_ok db"
  let ?m = "fresh_id (map sub_id (sub_changes db))"
  let ?new = "map (sub_change_of body i ?m) (zip [0..<length (req_changes body)] (req_changes body))"
  have "set (map sub_id (sub_changes db)) \<inter> set (map (\<lambda>n. ?m + n) [0..<length (req_changes body)]) = {}"
  proof (intro equals0I)
    fix x assume "x \<in> set (map sub_id (sub_changes db)) \<inter> set (map (\<lambda>n. ?m + n) [0..<length (req_changes body)])"
    then have "x \<in> set (map sub_id (sub_changes db))" "\<exists>n. x = ?m + n" unfolding Int_iff set_map by blast+
    then obtain n where "x \<in> set (map sub_id (sub_changes db))" "x = ?m + n" by (elim exE)
    with above_all [of x "map sub_id (sub_changes db)" n] show False by simp
  qed
  then have "distinct (map sub_id (sub_changes db @ ?new))"
    unfolding map_append keys_of_parts distinct_append
    using ok distinct_from [of ?m "length (req_changes body)"] by (simp only: tables_ok_def)
  moreover have "\<forall>r \<in> set ?new. row_ok r"
    by (auto simp: sub_change_of_def row_ok_def wave_of_def)
  ultimately show ?thesis using ok by (auto simp: tables_ok_def make_sub_changes_def)
qed

lemma tables_subs:
  assumes "keeps_place f" "tables_ok db"
  shows "tables_ok (update_subs P f db)"
proof -
  have rows: "row_ok (f r)" if "row_ok r" for r
  proof -
    from assms(1) have "sub_wave (f r) = sub_wave r" "sub_status (f r) = sub_status r \<or> sub_status (f r) \<in> {''APPLIED'', ''REJECTED'', ''REVERTED''}"
      by (auto simp only: keeps_place_def)
    with that show ?thesis unfolding row_ok_def by (metis insertCI)
  qed
  have "map sub_id (update_where P f rows) = map sub_id rows" for rows
    by (rule map_update_where) (use assms(1) in \<open>simp only: keeps_place_def\<close>)
  moreover have "\<forall>r \<in> set (update_where P f (sub_changes db)). row_ok r"
    using assms(2) rows by (fastforce simp: tables_ok_def set_update_where)
  ultimately show ?thesis using assms(2) by (simp add: tables_ok_def update_subs_def)
qed

lemma tables_snapshot: "tables_ok db \<Longrightarrow> tables_ok (add_snapshot t row out db)"
  using fresh_id_notin [of "map snapshot_id (snapshots db)"]
  by (cases out) (simp add: tables_ok_def add_snapshot_def)

lemma tables_make: "tables_ok db \<Longrightarrow> tables_ok (make_job t body window owner undone force (fresh_id (map cm_job_id (cm_jobs db))) db)"
  using fresh_id_notin [of "map cm_job_id (cm_jobs db)"] by (simp add: tables_ok_def make_job_def)

lemma tables_row: "keeps_origin g \<Longrightarrow> tables_ok db \<Longrightarrow> tables_ok (update_cm_job i g db)"
  by (simp add: tables_ok_def update_cm_job_def map_update_where keeps_origin_def config_job.truncate_def)

interpretation tables: table_invariant tables_ok
  by unfold_locales
    (simp_all add: tables_parts tables_subs tables_row tables_make tables_snapshot,
     simp_all add: tables_ok_def raise_dispatch_alarm_def put_endpoint_def record_refusal_def Let_def distinct_map_delete_where)

text \<open>What becomes of a change: it keeps what it says, and does not become PENDING again.\<close>

definition change_lives :: "sub_change \<Rightarrow> cm_store \<Rightarrow> bool" where
  "change_lives r db \<longleftrightarrow> (\<exists>r' \<in> set (sub_changes db). sub_id r' = sub_id r \<and> sub_job r' = sub_job r \<and> sub_element r' = sub_element r \<and>
     sub_function r' = sub_function r \<and> sub_attributes r' = sub_attributes r \<and> sub_operation r' = sub_operation r \<and>
     sub_wave r' = sub_wave r \<and> sub_position r' = sub_position r \<and>
     (sub_status r' = sub_status r \<or> sub_status r' \<in> {''APPLIED'', ''REJECTED'', ''REVERTED''}))"

lemma lives_there: "r \<in> set (sub_changes db) \<Longrightarrow> change_lives r db"
  unfolding change_lives_def by blast

lemma lives_same: "change_lives r db \<Longrightarrow> set (sub_changes db) \<subseteq> set (sub_changes db') \<Longrightarrow> change_lives r db'"
  unfolding change_lives_def by blast

lemma lives_subs:
  assumes "keeps_place f" "change_lives r db"
  shows "change_lives r (update_subs P f db)"
proof -
  obtain k where k: "k \<in> set (sub_changes db)" "change_lives r (db\<lparr>sub_changes := [k]\<rparr>)"
    using assms(2) unfolding change_lives_def by auto
  let ?k = "if P k then f k else k"
  have "?k \<in> set (sub_changes (update_subs P f db))" using k(1) by (simp add: update_subs_def update_where_def)
  moreover have "change_lives r (db\<lparr>sub_changes := [?k]\<rparr>)"
    using k(2) assms(1) unfolding change_lives_def keeps_place_def by (cases "P k") (simp_all, metis)
  ultimately show ?thesis unfolding change_lives_def by auto
qed

interpretation lives: table_invariant "change_lives r" for r
proof unfold_locales
  fix f P db assume "keeps_place f" "change_lives r db"
  then show "change_lives r (update_subs P f db)" by (rule lives_subs)
qed (erule lives_same; simp add: make_sub_changes_def make_job_def add_snapshot_def update_cm_job_def raise_dispatch_alarm_def put_endpoint_def
      record_refusal_def Let_def split: prod.split)+

text \<open>C10: The record of a change is permanent: in every store the routes of the service reach (a purge of the history, a
  write of an onboarding and the decisions on approvals included), a change is PENDING, APPLIED, REJECTED or REVERTED and is
  of a wave numbered from one; and whatever is asked next, the change stays in the table with what it says (its job,
  element, function, attributes, operation, wave and place), and once it has left PENDING it is never PENDING again.\<close>

theorem change_rows_permanent:
  assumes "cm_reachable env db sent" "r \<in> set (sub_changes db)"
  shows "row_ok r \<and> change_lives r (fst (snd (run_request (serve env req) db sent)))"
proof
  have "tables_ok db"
    using assms(1)
  proof (rule reachable_invariant)
    show "fresh_store db \<Longrightarrow> tables_ok db" for db by (simp add: tables_ok_def fresh_store_def)
    show "tables_ok d \<Longrightarrow> run_request (serve env req) d x = (r, d', x') \<Longrightarrow> tables_ok d'" for req d x r d' x'
      by (rule steady_request [OF tables.steady_all])
    show "tables_ok d \<Longrightarrow> tables_ok (d\<lparr>ran := x, access := y, objects := z, kpi_names := k\<rparr>)" for d x y z k
      by (simp add: tables_ok_def)
  qed
  then show "row_ok r" using assms(2) by (simp add: tables_ok_def)
  show "change_lives r (fst (snd (run_request (serve env req) db sent)))"
    using steady_request [OF lives.steady_all lives_there [OF assms(2)]] by (metis prod.collapse)
qed

end
