(* ===== verification/ConfigFacts.thy ===== *)
theory ConfigFacts
  imports ConfigRoutes
begin

section \<open>Waves, the time of a dispatch and the depth of an undo\<close>

text \<open>
  What the write path promises without looking at the tables: how elements are packed into waves, how long
  one dispatch takes, and that an undo never asks for another.
\<close>

subsection \<open>Packing elements into waves\<close>

lemma index_nth: "distinct xs \<Longrightarrow> n < length xs \<Longrightarrow> length (takeWhile (\<lambda>x. x \<noteq> xs ! n) xs) = n"
proof (induction xs arbitrary: n)
  case (Cons y ys)
  then show ?case by (cases n) (auto simp: nth_Cons')
qed simp

lemma filter_chunk:
  assumes "distinct xs"
  shows "filter (\<lambda>x. length (takeWhile (\<lambda>y. y \<noteq> x) xs) div k = w) xs = map ((!) xs) (filter (\<lambda>n. n div k = w) [0..<length xs])"
proof -
  have "filter (\<lambda>x. length (takeWhile (\<lambda>y. y \<noteq> x) xs) div k = w) (map ((!) xs) [0..<length xs]) =
        map ((!) xs) (filter (\<lambda>n. n div k = w) [0..<length xs])"
    unfolding filter_map by (intro arg_cong [where f = "map ((!) xs)"] filter_cong) (auto simp: index_nth [OF assms])
  then show ?thesis by (simp add: map_nth)
qed

lemma div_interval: "0 < k \<Longrightarrow> (n div k = w) = (w * k \<le> n \<and> n < w * k + k)" for n k w :: nat
  by (metis add.commute div_nat_eqI dividend_less_times_div less_eq_div_iff_mult_less_eq mult.commute mult_Suc_right order_refl)

lemma filter_interval: "filter (\<lambda>n. a \<le> n \<and> n < b) [0..<m] = [a..<min b m]" for a b m :: nat
proof (induction m)
  case (Suc m)
  then show ?case by (cases "b = Suc m") (auto simp: min_def)
qed simp

lemma chunk_of_list:
  assumes "0 < k"
  shows "map ((!) xs) (filter (\<lambda>n. n div k = w) [0..<length xs]) = take k (drop (w * k) xs)"
proof -
  have "filter (\<lambda>n. n div k = w) [0..<length xs] = [w * k..<min (w * k + k) (length xs)]"
    by (simp add: div_interval [OF assms] filter_interval)
  then show ?thesis by (auto intro!: nth_equalityI simp: min_def)
qed

lemma size_of_waves_pos [simp]: "0 < size_of_waves body" "size_of_waves body \<noteq> 0"
  by (auto simp: size_of_waves_def split: option.splits nat.splits)

lemma distinct_elements_of [simp]: "distinct (elements_of body)"
  by (simp add: elements_of_def)

lemma wave_of_nth: "n < length (elements_of body) \<Longrightarrow> wave_of body (elements_of body ! n) = n div size_of_waves body + 1"
  by (simp add: wave_of_def index_nth)

lemma fold_max: "fold max xs (a::nat) = Max (insert a (set xs))"
  by (metis Max.set_eq_fold list.simps(15))

lemma waves_in_ge: "e \<in> set (elements_of body) \<Longrightarrow> wave_of body e \<le> waves_in body"
  by (simp add: waves_in_def fold_max)

lemma waves_in_pos [simp]: "1 \<le> waves_in body" "0 < waves_in body"
proof -
  show "1 \<le> waves_in body" by (simp add: waves_in_def fold_max)
  then show "0 < waves_in body" by simp
qed

lemma waves_in_count:
  assumes "elements_of body \<noteq> []"
  shows "waves_in body = (length (elements_of body) - 1) div size_of_waves body + 1"
proof -
  let ?es = "elements_of body" and ?k = "size_of_waves body"
  let ?m = "(length ?es - 1) div ?k + 1"
  have "map (wave_of body) ?es = map (\<lambda>n. n div ?k + 1) [0..<length ?es]"
    by (rule nth_equalityI) (simp_all add: wave_of_nth)
  then have waves: "wave_of body ` set ?es = (\<lambda>n. n div ?k + 1) ` {0..<length ?es}"
    by (metis list.set_map set_upt)
  have "Max (insert 1 (wave_of body ` set ?es)) = ?m"
  proof (rule Max_eqI)
    fix w assume "w \<in> insert 1 (wave_of body ` set ?es)"
    then show "w \<le> ?m" unfolding waves using assms by (auto intro!: div_le_mono)
  next
    have "length ?es - 1 < length ?es" using assms by simp
    then show "?m \<in> insert 1 (wave_of body ` set ?es)" unfolding waves by auto
  qed simp
  then show ?thesis by (simp add: waves_in_def fold_max)
qed

text \<open>C8: The elements of a write go in waves that are consecutive chunks of \<open>waveSize\<close> elements (all of them
  when no size is given), in the order the request names them: wave \<open>w\<close> holds exactly the chunk number \<open>w\<close>, the
  numbering has no gaps, and as many waves are counted as chunks are needed.\<close>

theorem waves_are_chunks:
  "elements_of body \<noteq> [] \<Longrightarrow>
     filter (\<lambda>e. wave_of body e = Suc w) (elements_of body) = take (size_of_waves body) (drop (w * size_of_waves body) (elements_of body)) \<and>
     waves_in body = (length (elements_of body) - 1) div size_of_waves body + 1 \<and>
     (filter (\<lambda>e. wave_of body e = Suc w) (elements_of body) = [] \<longleftrightarrow> waves_in body \<le> w)"
proof -
  assume some: "elements_of body \<noteq> []"
  have chunk: "filter (\<lambda>e. wave_of body e = Suc w) (elements_of body) = take (size_of_waves body) (drop (w * size_of_waves body) (elements_of body))"
    using filter_chunk [of "elements_of body" "size_of_waves body" w] chunk_of_list [of "size_of_waves body" "elements_of body" w]
    by (simp add: wave_of_def)
  have "length (elements_of body) \<le> w * size_of_waves body \<longleftrightarrow> (length (elements_of body) - 1) div size_of_waves body < w"
    using some by (cases "length (elements_of body)") (simp_all add: div_less_iff_less_mult Suc_le_eq)
  with chunk waves_in_count [OF some] size_of_waves_pos [of body] show ?thesis by (auto simp: Suc_le_eq)
qed

subsection \<open>How long one dispatch takes\<close>

text \<open>A clock that a sleep moves by its length and an edit by at most \<open>timeout\<close>.\<close>

definition keeps_time :: "o1_environment \<Rightarrow> seconds \<Rightarrow> bool" where
  "keeps_time env timeout \<longleftrightarrow> (\<forall>xs d. clock env (xs @ [Slept d]) = clock env xs + d) \<and>
     (\<forall>xs i e. clock env (xs @ [Sent i e]) \<le> clock env xs + timeout)"

lemma attempt_time:
  assumes clock: "keeps_time env timeout" and budget: "retry_budget env \<le> most" and timeout: "0 \<le> timeout"
  shows "attempts_from env i e started delays reason n detail s = (res, s') \<Longrightarrow>
     (if n = 0 then delays \<noteq> [] \<and> clock env (exchanges s) = started \<and> hd delays \<le> most
      else clock env (exchanges s) \<le> started + most + timeout) \<Longrightarrow>
     clock env (exchanges s') \<le> started + most + timeout"
proof (induction delays arbitrary: s reason n detail)
  case Nil
  then show ?case by (auto simp: give_def split: if_splits)
next
  case (Cons delay delays)
  let ?t = "clock env (exchanges s)"
  show ?case
  proof (cases "over_budget env started ?t n delay")
    case True
    with Cons.prems show ?thesis by (auto simp: then_do_def now_def look_def give_def over_budget_def)
  next
    case False
    define s1 where "s1 = snd (pause delay s)"
    have s1: "pause delay s = (Inr (), s1)" "clock env (exchanges s1) = ?t + delay"
      using clock by (auto simp: s1_def pause_def sleep_def logged_def change_def give_def keeps_time_def)
    have soon: "clock env (exchanges s1) \<le> started + most"
      using False Cons.prems(2) budget s1(2) by (auto simp: over_budget_def split: if_splits)
    define s2 where "s2 = s1\<lparr>exchanges := exchanges s1 @ [Sent i e]\<rparr>"
    have after: "clock env (exchanges s2) \<le> started + most + timeout"
    proof -
      have "clock env (exchanges s2) \<le> clock env (exchanges s1) + timeout" using clock by (simp add: s2_def keeps_time_def)
      with soon show ?thesis by linarith
    qed
    have sent: "send_edit env i e s1 = (Inr (answers_edit env (exchanges s1) i e), s2)"
      by (simp add: send_edit_def then_do_def look_def logged_def change_def give_def s2_def)
    show ?thesis
    proof (cases "answers_edit env (exchanges s1) i e")
      case Accepted
      with Cons.prems(1) False s1(1) sent after show ?thesis by (simp add: then_do_def now_def look_def give_def)
    next
      case (Refused why what retryable)
      define r where "r = (case or_none why of None \<Rightarrow> Some (default_reason (via (edit_object e))) | Some w \<Rightarrow> Some w)"
      have run: "(if \<not> retryable then give (False, r, Suc n, what) else attempts_from env i e started delays r (Suc n) what) s2 = (res, s')"
        using Cons.prems(1) False s1(1) sent Refused by (cases retryable) (simp_all add: then_do_def now_def look_def Let_def r_def)
      show ?thesis
      proof (cases retryable)
        case True
        with run Cons.IH [of r "Suc n" what s2] after show ?thesis by simp
      next
        case False
        with run after show ?thesis by (simp add: give_def)
      qed
    qed
  qed
qed

text \<open>C7: However a network function answers, dispatching one change ends within the retry budget (or the first delay, if
  that is longer) plus the time of one exchange. With delays that add up to the budget or more, and a first
  delay within it, that is what \<open>worst_case_dispatch_seconds\<close> promises.\<close>

theorem dispatch_time_bounded:
  "keeps_time env timeout \<Longrightarrow> 0 \<le> timeout \<Longrightarrow> retry_delays env = first # later \<Longrightarrow>
     dispatch_with_retries env i e s = (res, s') \<Longrightarrow>
     clock env (exchanges s') \<le> clock env (exchanges s) + max first (retry_budget env) + timeout \<and>
     (first \<le> retry_budget env \<and> retry_budget env \<le> sum_list (retry_delays env) \<longrightarrow>
        clock env (exchanges s') \<le> clock env (exchanges s) + worst_case_dispatch_seconds env timeout)"
proof -
  assume clock: "keeps_time env timeout" and timeout: "0 \<le> timeout" and delays: "retry_delays env = first # later"
    and run: "dispatch_with_retries env i e s = (res, s')"
  from run have "attempts_from env i e (clock env (exchanges s)) (first # later) None 0 None s = (res, s')"
    by (simp add: dispatch_with_retries_def then_do_def now_def look_def delays)
  from attempt_time [OF clock _ timeout this, of "max first (retry_budget env)"]
  have "clock env (exchanges s') \<le> clock env (exchanges s) + max first (retry_budget env) + timeout" by simp
  then show ?thesis by (auto simp: worst_case_dispatch_seconds_def max_def min_def)
qed

end
