(* ===== verification/UndoDepth.thy ===== *)
theory UndoDepth
  imports ConfigFrames ConfigFacts
begin

section \<open>Jobs stay what they were made as, and an undo never nests\<close>

text \<open>What a job is made with and keeps: its id, its owner and what it undoes; who asked, when, how many waves, and what a failed gate does.\<close>

definition origin_of :: "write_config_job \<Rightarrow> config_job \<times> string \<times> seconds \<times> nat \<times> gate_action" where
  "origin_of j = (config_job.truncate j, cm_requested_by j, cm_created_at j, cm_wave_count j, cm_on_gate_failure j)"

definition origin_id :: "config_job \<times> string \<times> seconds \<times> nat \<times> gate_action \<Rightarrow> uid" where
  "origin_id x = cm_job_id (fst x)"

lemma origin_id [simp]: "origin_id (origin_of j) = cm_job_id j"
  by (simp add: origin_id_def origin_of_def config_job.truncate_def)

lemma keeps_origin_iff: "keeps_origin f \<longleftrightarrow> (\<forall>j. origin_of (f j) = origin_of j)"
  by (auto simp: keeps_origin_def origin_of_def)

definition jobs_grow :: "(config_job \<times> string \<times> seconds \<times> nat \<times> gate_action \<Rightarrow> bool) \<Rightarrow> cm_store \<Rightarrow> cm_store \<Rightarrow> bool" where
  "jobs_grow Q db db' \<longleftrightarrow> (\<exists>new. map origin_of (cm_jobs db') = map origin_of (cm_jobs db) @ new \<and> (\<forall>x \<in> set new. Q x))"

lemma jobs_grow_same: "map origin_of (cm_jobs db') = map origin_of (cm_jobs db) \<Longrightarrow> jobs_grow Q db db'"
  by (auto simp: jobs_grow_def)

lemma jobs_grow_trans: "jobs_grow Q a b \<Longrightarrow> jobs_grow Q b c \<Longrightarrow> jobs_grow Q a c"
  by (fastforce simp: jobs_grow_def)

lemma origins_update: "keeps_origin f \<Longrightarrow> map origin_of (cm_jobs (update_cm_job i f db)) = map origin_of (cm_jobs db)"
  by (simp add: update_cm_job_def map_update_where keeps_origin_iff)

lemma jobs_untouched [simp]:
  "cm_jobs (put_endpoint ep db) = cm_jobs db" "cm_jobs (raise_dispatch_alarm t i c why n db) = cm_jobs db"
  "cm_jobs (update_subs P f db) = cm_jobs db" "cm_jobs (add_snapshot t row out db) = cm_jobs db"
  "cm_jobs (make_sub_changes body i db) = cm_jobs db" "cm_jobs (mark_reverted i db) = cm_jobs db"
  "cm_jobs (record_refusal env t who asker code db) = cm_jobs db" "cm_jobs (update_approval a g db) = cm_jobs db"
  by (simp_all add: put_endpoint_def raise_dispatch_alarm_def update_subs_def add_snapshot_def make_sub_changes_def mark_reverted_def
      record_refusal_def update_approval_def Let_def split: option.split prod.split)

definition new_origin :: "seconds \<Rightarrow> write_request \<Rightarrow> string option \<Rightarrow> uid option \<Rightarrow> uid \<Rightarrow> config_job \<times> string \<times> seconds \<times> nat \<times> gate_action" where
  "new_origin t body who und i = (\<lparr>cm_job_id = i, config_invoker_id = who, config_rollback_of = und\<rparr>, req_by body, t, waves_in body, req_on_gate_failure body)"

lemma origins_make: "map origin_of (cm_jobs (make_job t body window who und forced i db)) = map origin_of (cm_jobs db) @ [new_origin t body who und i]"
  by (simp add: make_job_def origin_of_def new_origin_def config_job.truncate_def)

text \<open>The rows of jobs only grow, and those an undo adds belong to no rApp.\<close>

lemma grow_make: "Q (new_origin t body who und i) \<Longrightarrow> jobs_grow Q db (make_job t body window who und forced i db)"
  by (simp add: jobs_grow_def origins_make)

interpretation grow: write_relation "jobs_grow (\<lambda>_. True)" "\<lambda>_. True"
  by unfold_locales (erule (1) jobs_grow_trans | simp add: jobs_grow_same origins_update grow_make)+

interpretation undos: write_relation "jobs_grow (\<lambda>x. config_invoker_id (fst x) = None)" "\<lambda>why. invoker why = None"
  by unfold_locales (erule (1) jobs_grow_trans | simp add: jobs_grow_same origins_update grow_make plain_origin_def new_origin_def)+

lemma job_remains:
  assumes grow: "jobs_grow Q db db'" and job: "get_cm_job db i = Some j"
  obtains k where "get_cm_job db' i = Some k" "origin_of k = origin_of j"
proof -
  let ?find = "\<lambda>rows. find (\<lambda>x. origin_id x = i) (map origin_of rows)"
  have get: "map_option origin_of (get_cm_job d i) = ?find (cm_jobs d)" for d
    using find_key(2) [of origin_of origin_id i "cm_jobs d"] by (simp add: get_cm_job_def row_where_def)
  have "?find (cm_jobs db) = Some (origin_of j)" using get [of db] job by simp
  then have "?find (cm_jobs db') = Some (origin_of j)" using grow by (auto simp: jobs_grow_def find_append)
  then show thesis using get [of db'] that by (cases "get_cm_job db' i") auto
qed
subsection \<open>One level of undo\<close>

text \<open>The session has a job \<open>i\<close> made with \<open>P\<close>: it keeps it whatever is done.\<close>

definition job_made :: "(config_job \<times> string \<times> seconds \<times> nat \<times> gate_action \<Rightarrow> bool) \<Rightarrow> uid \<Rightarrow> session \<Rightarrow> bool" where
  "job_made P i s \<longleftrightarrow> (\<exists>j. get_cm_job (work s) i = Some j \<and> P (origin_of j))"

definition one_wave :: "config_job \<times> string \<times> seconds \<times> nat \<times> gate_action \<Rightarrow> bool" where
  "one_wave x \<longleftrightarrow> fst (snd (snd (snd x))) = 1"

definition halting :: "config_job \<times> string \<times> seconds \<times> nat \<times> gate_action \<Rightarrow> bool" where
  "halting x \<longleftrightarrow> snd (snd (snd (snd x))) = HaltJob"

lemma origin_kinds [simp]:
  "one_wave (origin_of j) \<longleftrightarrow> cm_wave_count j = 1" "halting (origin_of j) \<longleftrightarrow> cm_on_gate_failure j = HaltJob"
  by (simp_all add: one_wave_def halting_def origin_of_def)

lemma job_made_after:
  assumes "evolves (jobs_grow Q) m" "job_made P i s" "m s = (r, s')"
  shows "job_made P i s'"
proof -
  from assms(2) obtain j where j: "get_cm_job (work s) i = Some j" "P (origin_of j)" by (auto simp: job_made_def)
  obtain k where "get_cm_job (work s') i = Some k" "origin_of k = origin_of j"
    using job_remains [OF evolvesD [OF assms(1,3)] j(1)] .
  with j(2) show ?thesis by (auto simp: job_made_def)
qed

lemma agree_then:
  assumes "evolves (jobs_grow Q) m" "job_made P i s" "\<And>x s'. job_made P i s' \<Longrightarrow> f x s' = g x s'"
  shows "then_do m f s = then_do m g s"
  using job_made_after [OF assms(1,2)] assms(3) by (auto simp: then_do_def split: prod.split sum.split)

lemma agree_first: "m s = m' s \<Longrightarrow> then_do m f s = then_do m' f s"
  by (simp add: then_do_def)

lemma agree_after: "(\<And>x s'. m s = (Inr x, s') \<Longrightarrow> f x s' = g x s') \<Longrightarrow> then_do m f s = then_do m g s"
  by (auto simp: then_do_def split: prod.split sum.split)

lemma last_wave_agrees: "count \<le> w \<Longrightarrow> advance_from env u i count w = advance_from env v i count w"
  by (subst (1 2) advance_from.simps) simp

lemma advance_agrees: "job_made one_wave i s \<Longrightarrow> advance_with env u i s = advance_with env v i s"
  unfolding advance_with_def
  by (rule agree_after) (auto simp: job_made_def the_job_def then_do_def reading_def look_def give_def
      intro: fun_cong [OF last_wave_agrees])

text \<open>Where a gate failure only halts, no undo is asked for.\<close>

lemma halting_agrees: "job_made halting i s \<Longrightarrow> advance_from env u i count w s = advance_from env v i count w s"
proof (induction "count - w" arbitrary: w s rule: less_induct)
  case less
  have bump: "evolves (jobs_grow (\<lambda>_. True)) (writing (update_cm_job i (\<lambda>j. j\<lparr>cm_current_wave := w\<rparr>)))"
    by (rule grow.writes [OF grow.row]) (simp add: keeps_origin_def config_job.truncate_def)
  show ?case
  proof (cases "count \<le> w")
    case True
    then show ?thesis by (simp add: last_wave_agrees [where u = u and v = v])
  next
    case False
    have rest: "then_do (reading (\<lambda>db. gate_failure db job (wave_rows db i w) started)) (\<lambda>failure. case failure of
          Some why \<Rightarrow> if cm_on_gate_failure job = RevertJob then u i why else halt_job i GATE_FAILED (Some why) None
        | None \<Rightarrow> if 0 < cm_wave_pause job then then_do (now env) (\<lambda>t. halt_job i WAVE_PAUSE None (Some (t + int (cm_wave_pause job))))
                  else advance_from env u i count (Suc w)) s' =
      then_do (reading (\<lambda>db. gate_failure db job (wave_rows db i w) started)) (\<lambda>failure. case failure of
          Some why \<Rightarrow> if cm_on_gate_failure job = RevertJob then v i why else halt_job i GATE_FAILED (Some why) None
        | None \<Rightarrow> if 0 < cm_wave_pause job then then_do (now env) (\<lambda>t. halt_job i WAVE_PAUSE None (Some (t + int (cm_wave_pause job))))
                  else advance_from env v i count (Suc w)) s'"
      if "cm_on_gate_failure job = HaltJob" "job_made halting i s'" for job s' started
      by (rule agree_then [OF grow.reads(1) that(2)]) (use that(1) False less.hyps [of "Suc w"] in \<open>auto split: option.split\<close>)
    have jobs: "then_do (the_job i) f s' = then_do (the_job i) g s'"
      if "job_made halting i s'" "\<And>job s''. cm_on_gate_failure job = HaltJob \<Longrightarrow> job_made halting i s'' \<Longrightarrow> f job s'' = g job s''"
      for s' and f g :: "write_config_job \<Rightarrow> unit cm"
      using that by (auto simp: job_made_def the_job_def then_do_def reading_def look_def give_def)
    show ?thesis
      unfolding advance_from.simps [of env u i count w] advance_from.simps [of env v i count w] if_not_P [OF False]
      by (rule agree_then [OF grow.reads(2) less.prems], rule agree_then [OF grow.reads(1)], assumption,
          rule agree_then [OF grow.wave], assumption, rule agree_then [OF bump], assumption, rule jobs, assumption) (rule rest)
  qed
qed

lemma run_agrees:
  assumes "job_made one_wave i s"
  shows "run_new_job env u body why False i s = run_new_job env v body why False i s"
proof -
  have closes: "evolves (jobs_grow (\<lambda>_. True)) (case from_approval why of None \<Rightarrow> give ()
      | Some a \<Rightarrow> writing (update_approval a (\<lambda>r. r\<lparr>appr_status := approval_status.APPROVED, appr_job := Some i\<rparr>)))"
    by (auto intro!: grow.writes jobs_grow_same split: option.split)
  have decide: "evolves (jobs_grow (\<lambda>_. True)) (case or_none (actor why) of None \<Rightarrow> give () | Some who \<Rightarrow> record_decision env who body (k who) (Some i) a)" for k a
    by (simp split: option.split)
  have parts: "evolves (jobs_grow (\<lambda>_. True)) (writing (make_sub_changes body i))"
    by (rule grow.writes [OF grow.parts])
  show ?thesis
    unfolding run_new_job_def
    by (rule agree_then [OF grow.job.fires assms], rule agree_then [OF parts], assumption, rule agree_then [OF closes], assumption,
        rule agree_then [OF decide], assumption, rule agree_first) (simp add: advance_agrees)
qed

lemma undo_one_wave: "undo_request who sc role changes = Inr body \<Longrightarrow> waves_in body = 1"
proof -
  assume "undo_request who sc role changes = Inr body"
  then have size: "req_wave_size body = None"
    by (auto simp: undo_request_def validated_def plain_request_def split: sum.splits if_splits)
  show "waves_in body = 1"
  proof (cases "elements_of body = []")
    case True
    then show ?thesis by (simp add: waves_in_def)
  next
    case False
    then have "size_of_waves body = length (elements_of body)"
      using size by (cases "elements_of body") (simp_all add: size_of_waves_def)
    with waves_in_count [OF False] False show ?thesis by simp
  qed
qed

text \<open>The row of a new job is the one found under its id.\<close>

lemma fresh_made:
  assumes "P (new_origin t body who und k)" "k = fresh_id (map cm_job_id (cm_jobs (work s)))"
  shows "job_made P k (s\<lparr>work := make_job t body w who und forced k (work s)\<rparr>)"
proof -
  have "find (\<lambda>j. cm_job_id j = k) (cm_jobs (work s)) = None"
    using fresh_id_notin [of "map cm_job_id (cm_jobs (work s))"] assms(2) by (auto simp: find_None_iff)
  then show ?thesis using assms(1)
    by (simp add: job_made_def get_cm_job_def row_where_def make_job_def find_append origin_of_def new_origin_def config_job.truncate_def)
qed

lemma start_agrees:
  assumes "waves_in body = 1"
  shows "start_job env u body (plain_origin (Some i) b) = start_job env v body (plain_origin (Some i) b)"
proof
  fix s
  have made: "job_made one_wave k (s'\<lparr>work := make_job t body w who und forced k (work s')\<rparr>)"
    if "k = fresh_id (map cm_job_id (cm_jobs (work s')))" for k s' t w who und forced
    using fresh_made [of one_wave t body who und k s' w forced] that assms by (simp add: new_origin_def one_wave_def)
  show "start_job env u body (plain_origin (Some i) b) s = start_job env v body (plain_origin (Some i) b) s"
    by (simp add: start_job_def plain_origin_def Let_def then_do_def now_def look_def reading_def writing_def change_def run_agrees [OF made [OF refl]])
qed

text \<open>C9: The undo of a failed gate is itself a write, which may have a failing gate of its own and ask for an undo. It never
  does: the undo job has one wave, and a gate is only asked between waves. However deep undoing were allowed to
  go, the outcome is that of one level, the one the service's routes are modelled with.\<close>

theorem undo_never_nests: "revert (Suc n) env = revert (Suc 0) env"
proof -
  have same: "execute_write_with env u body (plain_origin (Some i) b) = execute_write_with env v body (plain_origin (Some i) b)"
    if "undo_request who sc role changes = Inr body" for u v body i b who sc role changes
    using start_agrees [OF undo_one_wave [OF that], of env u i b v] unfolding execute_write_with_def by simp
  have "auto_revert env (execute_write_with env u) i why s = auto_revert env (execute_write_with env v) i why s" for u v i why s
    unfolding auto_revert_def
    by (intro agree_after) (auto intro!: agree_after agree_first fun_cong [OF same] simp: from_sum_def)
  then show ?thesis by (auto intro!: ext)
qed

end
