(* ===== verification/ConfigSafety.thy ===== *)
theory ConfigSafety
  imports UndoDepth
begin

section \<open>Refused writes: what they send, and what an rApp may start\<close>

text \<open>
  \<open>quiet\<close>: nothing is sent. \<open>crashes\<close>: the only errors are those no route expects. A write that is refused
  with a problem was refused before anything was sent, where a failed gate only halts.
\<close>

fun edits_sent :: "exchange list \<Rightarrow> o1_edit list" where
  "edits_sent [] = []"
| "edits_sent (Sent i e # xs) = e # edits_sent xs"
| "edits_sent (SentTogether i es # xs) = es @ edits_sent xs"
| "edits_sent (_ # xs) = edits_sent xs"

lemma edits_sent_append [simp]: "edits_sent (xs @ ys) = edits_sent xs @ edits_sent ys"
  by (induction xs rule: edits_sent.induct) simp_all

definition quiet :: "'a cm \<Rightarrow> bool" where
  "quiet m \<longleftrightarrow> (\<forall>s r s'. m s = (r, s') \<longrightarrow> edits_sent (exchanges s') = edits_sent (exchanges s))"

definition crashes :: "'a cm \<Rightarrow> bool" where
  "crashes m \<longleftrightarrow> (\<forall>s err s'. m s = (Inl err, s') \<longrightarrow> (\<exists>w. err = Unhandled w))"

definition clean :: "'a cm \<Rightarrow> bool" where
  "clean m \<longleftrightarrow> (\<forall>s c n s'. m s = (Inl (Problem c n), s') \<longrightarrow> edits_sent (exchanges s') = edits_sent (exchanges s))"

named_theorems quiet_rules \<open>what sends nothing\<close>
named_theorems crash_rules \<open>what raises no problem\<close>

lemma quiet_basic [quiet_rules, simp]:
  "quiet (give x)" "quiet (fail_with err)" "quiet (look f)" "quiet (reading f2)" "quiet (writing g)" "quiet (now env)"
  "quiet commit_session" "quiet rollback_session" "quiet (from_sum outcome)" "quiet (read_object env k)"
  by (auto simp: quiet_def comp_defs reading_def writing_def now_def commit_session_def rollback_session_def read_object_def logged_def)

lemma quiet_then [quiet_rules]: "quiet m \<Longrightarrow> (\<And>x. quiet (f x)) \<Longrightarrow> quiet (then_do m f)"
  unfolding quiet_def then_do_def by (fastforce split: prod.splits sum.splits)

lemma quiet_catch [quiet_rules]: "quiet m \<Longrightarrow> (\<And>x. quiet (h x)) \<Longrightarrow> quiet (catch m h)"
  unfolding quiet_def catch_def by (fastforce split: prod.splits sum.splits)

lemma quiet_for_each [quiet_rules]: "(\<And>x. quiet (f x)) \<Longrightarrow> quiet (for_each f xs)"
  by (induction xs) (auto intro!: quiet_then)

lemma quiet_map_each [quiet_rules]: "(\<And>x. quiet (f x)) \<Longrightarrow> quiet (map_each f xs)"
  by (induction xs) (auto intro!: quiet_then)

lemma quiet_steps [simp]:
  "quiet (the_job i)" "quiet (fire_job i ev)" "quiet (capture_before env me ep c wanted)" "quiet (dispatch_blocker env c)"
  "quiet (changed_since env expected)" "quiet (record_decision env who body how job approval)" "quiet (chain_decisions_quietly env)"
  "quiet (notify_approvers env kind a)" "quiet (refuse env who2 asker err)" "quiet (plan_dry_run env body)"
proof -
  show job: "quiet (the_job i)" for i by (auto intro!: quiet_then simp: the_job_def split: option.splits)
  show "quiet (fire_job i ev)" by (auto intro!: quiet_then job simp: fire_job_def)
  show "quiet (capture_before env me ep c wanted)" by (auto intro!: quiet_then simp: capture_before_def split: option.splits)
  show blocker: "quiet (dispatch_blocker env c)" for c by (auto intro!: quiet_then simp: dispatch_blocker_def split: option.splits)
  show "quiet (changed_since env expected)"
    by (auto intro!: quiet_then quiet_map_each simp: changed_since_def difference_of_def split: option.splits prod.splits)
  show "quiet (record_decision env who body how job approval)" by (auto intro!: quiet_then simp: record_decision_def)
  show "quiet (chain_decisions_quietly env)" by (auto intro!: quiet_then simp: chain_decisions_quietly_def)
  show "quiet (notify_approvers env kind a)" by (auto intro!: quiet_then simp: notify_approvers_def)
  show "quiet (refuse env who2 asker err)" by (auto intro!: quiet_then simp: refuse_def)
  show "quiet (plan_dry_run env body)"
    by (auto intro!: quiet_then quiet_map_each blocker simp: plan_dry_run_def split: prod.splits)
qed

lemma quiet_safeguards [simp]:
  "quiet (refuse_if_killed env caller asker)" "quiet (enforce_scope env sc caller asker refs)"
  "quiet (enforce_rapp_limit env caller asker)" "quiet (enforce_change_limits env body caller)"
proof -
  show "quiet (refuse_if_killed env caller asker)"
    by (auto intro!: quiet_then simp: refuse_if_killed_def split: option.splits)
  show "quiet (enforce_scope env sc caller asker refs)"
    by (auto intro!: quiet_catch quiet_then simp: enforce_scope_def require_elements_def split: option.splits)
  show "quiet (enforce_rapp_limit env caller asker)"
    by (auto intro!: quiet_then simp: enforce_rapp_limit_def split: option.splits)
  have "quiet (check_value env who asker most before setting)" for who asker most before setting
    by (auto simp: check_value_def split: option.splits)
  then have "quiet (check_change env who asker most c)" for who asker most c
    by (auto intro!: quiet_then quiet_for_each simp: check_change_def Let_def split: option.splits prod.splits)
  then show "quiet (enforce_change_limits env body caller)"
    by (auto intro!: quiet_then quiet_for_each simp: enforce_change_limits_def split: option.splits)
qed

subsection \<open>Dispatching raises no problem\<close>

lemma crash_basic [crash_rules, simp]:
  "crashes (give x)" "crashes (fail_with (Unhandled w))" "crashes (look f)" "crashes (reading f2)" "crashes (writing g)" "crashes (now env)"
  "crashes commit_session" "crashes (send_edit env i e)" "crashes (send_edits env i es)" "crashes (read_object env k)" "crashes (sleep d)"
  by (auto simp: crashes_def comp_defs reading_def writing_def now_def commit_session_def read_object_def logged_def send_edit_def send_edits_def sleep_def)

lemma crash_uncaught [simp]: "crashes (from_sum (uncaught r))"
  by (auto simp: crashes_def from_sum_def uncaught_def split: sum.splits prod.splits)

lemma crash_then [crash_rules]: "crashes m \<Longrightarrow> (\<And>x. crashes (f x)) \<Longrightarrow> crashes (then_do m f)"
  unfolding crashes_def then_do_def by (fastforce split: prod.splits sum.splits)

lemma crash_map_each [crash_rules]: "(\<And>x. crashes (f x)) \<Longrightarrow> crashes (map_each f xs)"
  by (induction xs) (auto intro!: crash_then)
lemma crash_aging [simp]: "crashes (from_sum (age_endpoint_health t ep))"
  by (auto simp: crashes_def from_sum_def age_endpoint_health_def and_then_def uncaught_def split: sum.splits prod.splits if_splits)

lemma crash_steps [simp]:
  "crashes (the_job i)" "crashes (fire_job i ev)" "crashes (capture_if_kept env me ep c)" "crashes (dispatch_blocker env c)"
  "crashes (chain_decisions_quietly env)" "crashes (dispatch_with_retries env i2 e)" "crashes (dispatch_group_with_retries env i2 es)"
proof -
  show job: "crashes (the_job i)" for i by (auto intro!: crash_then simp: the_job_def split: option.splits)
  show "crashes (fire_job i ev)" by (auto intro!: crash_then job simp: fire_job_def)
  show "crashes (capture_if_kept env me ep c)"
    by (auto intro!: crash_then simp: capture_if_kept_def capture_before_def split: option.splits)
  show "crashes (dispatch_blocker env c)" by (auto intro!: crash_then simp: dispatch_blocker_def split: option.splits)
  show "crashes (chain_decisions_quietly env)" by (auto intro!: crash_then simp: chain_decisions_quietly_def)
  have "crashes (attempts_from env i2 e started delays reason n detail)" for started delays reason n detail
    by (induction env i2 e started delays reason n detail rule: attempts_from.induct)
      (auto intro!: crash_then simp: pause_def Let_def split: edit_reply.splits)
  then show "crashes (dispatch_with_retries env i2 e)" by (auto intro!: crash_then simp: dispatch_with_retries_def)
  have "crashes (group_attempts_from env i2 es started delays results n)" for started delays results n
    by (induction env i2 es started delays results n rule: group_attempts_from.induct) (auto intro!: crash_then simp: pause_def)
  then show "crashes (dispatch_group_with_retries env i2 es)"
    by (auto intro!: crash_then simp: dispatch_group_with_retries_def split: prod.splits)
qed

lemma crash_items: "crashes (dispatch_items env i all outcomes items)"
proof (induction env i all outcomes items rule: dispatch_items.induct)
  case (2 env i all outcomes item items)
  have "crashes (record_outcome env i row out)" for row out
    by (auto intro!: crash_then simp: record_outcome_def split: prod.splits)
  moreover have "crashes (dispatch_alone env i me ep c)" for me ep c
    by (auto intro!: crash_then simp: dispatch_alone_def split: option.splits prod.splits)
  moreover have "crashes (dispatch_together env i me ep ks)" for me ep ks
    by (auto intro!: crash_then crash_map_each simp: dispatch_together_def)
  ultimately show ?case using 2 by (auto intro!: crash_then simp: reject_row_def split: option.splits prod.splits)
qed simp

lemma crash_wave [simp]: "crashes (dispatch_wave env i rows)"
  by (auto intro!: crash_then crash_map_each crash_items simp: dispatch_wave_def Let_def)

lemma crash_advance: "(\<And>why. crashes (undo i why)) \<Longrightarrow> crashes (advance_from env undo i count w)"
proof (induction "count - w" arbitrary: w rule: less_induct)
  case less
  have "crashes (finish_job i)" by (auto intro!: crash_then simp: finish_job_def)
  moreover have "crashes (halt_job i why detail next_at)" for why detail next_at
    by (auto intro!: crash_then simp: halt_job_def)
  ultimately show ?case using less
    by (subst advance_from.simps) (auto intro!: crash_then split: option.splits)
qed

subsection \<open>Problems come before the first edit\<close>

lemma clean_quiet: "quiet m \<Longrightarrow> clean m"
  by (auto simp: quiet_def clean_def)

lemma clean_crashes: "crashes m \<Longrightarrow> clean m"
  by (fastforce simp: crashes_def clean_def)

definition clean_at :: "session \<Rightarrow> 'a cm \<Rightarrow> bool" where
  "clean_at s m \<longleftrightarrow> (\<forall>c n s'. m s = (Inl (Problem c n), s') \<longrightarrow> edits_sent (exchanges s') = edits_sent (exchanges s))"

lemma clean_at_quiet: "quiet m \<Longrightarrow> clean_at s m"
  by (auto simp: quiet_def clean_at_def)

lemma clean_at_crashes: "crashes m \<Longrightarrow> clean_at s m"
  by (fastforce simp: crashes_def clean_at_def)

lemma clean_at_then: "quiet m \<Longrightarrow> (\<And>x s'. m s = (Inr x, s') \<Longrightarrow> clean_at s' (f x)) \<Longrightarrow> clean_at s (then_do m f)"
  unfolding clean_at_def then_do_def quiet_def by (auto split: prod.splits sum.splits)

lemma clean_at_same: "m s = m' s \<Longrightarrow> clean_at s m' \<Longrightarrow> clean_at s m"
  by (simp add: clean_at_def)

lemma clean_if: "clean_at s m \<Longrightarrow> clean_at s m' \<Longrightarrow> clean_at s (if c then m else m')"
  by simp

lemma clean_run:
  assumes halts: "job_made halting i s" and direct: "from_approval why = None"
  shows "clean_at s (run_new_job env undo body why hold i)"
proof -
  have chronicle: "quiet (case or_none (actor why) of None \<Rightarrow> give () | Some who \<Rightarrow> record_decision env who body (k who) (Some i) None)" for k
    by (simp split: option.split)
  have chronicle_grow: "evolves (jobs_grow (\<lambda>_. True)) (case or_none (actor why) of None \<Rightarrow> give () | Some who \<Rightarrow> record_decision env who body (k who) (Some i) None)" for k
    by (simp split: option.split)
  have parts: "evolves (jobs_grow (\<lambda>_. True)) (writing (make_sub_changes body i))"
    by (rule grow.writes [OF grow.parts])
  let ?advance = "\<lambda>u. then_do (if hold then give () else advance_with env u i) (\<lambda>_. then_do commit_session (\<lambda>_.
     then_do (if or_none (actor why) \<noteq> None then chain_decisions_quietly env else give ()) (\<lambda>_.
     then_do (the_job i) (\<lambda>job. give (job_summary job)))))"
  have advance: "clean_at s' (?advance undo)" if "job_made halting i s'" for s'
  proof (rule clean_at_same [of _ _ "?advance (\<lambda>_ _. give ())"])
    have "advance_with env undo i s' = advance_with env (\<lambda>_ _. give ()) i s'"
      unfolding advance_with_def by (rule agree_then [OF grow.the_job that]) (rule halting_agrees)
    then show "?advance undo s' = ?advance (\<lambda>_ _. give ()) s'" by (cases hold) (auto intro: agree_first)
    show "clean_at s' (?advance (\<lambda>_ _. give ()))"
      by (auto intro!: clean_at_crashes crash_then crash_advance simp: advance_with_def)
  qed
  show ?thesis
    unfolding run_new_job_def direct option.case
    by (rule clean_at_then [OF quiet_steps(2)], rule clean_at_then [OF quiet_basic(5)], rule clean_at_then [OF quiet_basic(1)],
        rule clean_at_then [OF chronicle], rule advance, rule job_made_after [OF chronicle_grow], rule job_made_after [OF grow.give],
        rule job_made_after [OF parts], rule job_made_after [OF grow.job.fires halts])
qed

lemma clean_start:
  assumes "req_on_gate_failure body = HaltJob" and "from_approval why = None"
  shows "clean_at s (start_job env undo body why)"
proof -
  have made: "job_made halting k (s'\<lparr>work := make_job t body w who und forced k (work s')\<rparr>)"
    if "k = fresh_id (map cm_job_id (cm_jobs (work s')))" for k s' t w who und forced
    using fresh_made [of halting t body who und k s' w forced] that assms(1) by (simp add: new_origin_def halting_def)
  show ?thesis
    unfolding start_job_def Let_def
    by (rule clean_at_then [OF quiet_basic(6)], rule clean_if, rule clean_at_quiet, simp, rule clean_at_then [OF quiet_basic(4)],
        rule clean_at_then [OF quiet_basic(5)], rule clean_run [OF _ assms(2)])
      (auto simp: reading_def look_def writing_def change_def intro!: made)
qed
lemma clean_execute:
  assumes "req_on_gate_failure body = HaltJob" and "from_approval why = None"
  shows "clean_at s (execute_write_with env undo body why)"
proof -
  have parks: "quiet (park_for_approval env body who p sc)" for who p sc
    by (auto intro!: quiet_then simp: park_for_approval_def Let_def)
  show ?thesis
    unfolding execute_write_with_def
    by (rule clean_at_then [OF quiet_basic(4)], rule clean_at_then [OF quiet_basic(9)], rule clean_if, rule clean_at_quiet, simp,
        rule clean_at_then [OF quiet_basic(4)])
      (auto intro: clean_at_quiet [OF parks] clean_start [OF assms] split: option.split)
qed

lemma validated_halts: "validated asked = Inr body \<Longrightarrow> req_on_gate_failure body = req_on_gate_failure asked"
  by (auto simp: validated_def split: if_splits sum.splits)

text \<open>C2: A write that is refused with a problem - a safeguard, access control, a missing service, the data model, an
  unknown KPI, a closed window - has sent nothing to any network function, for every job whose failed gate halts.\<close>

theorem refused_write_sends_nothing:
  "req_on_gate_failure asked = HaltJob \<Longrightarrow>
     run_request (write_configuration_changes env h asked) db sent = (Inl (Problem code n), db', sent') \<Longrightarrow>
     edits_sent sent' = edits_sent sent"
proof -
  assume halts: "req_on_gate_failure asked = HaltJob"
    and run: "run_request (write_configuration_changes env h asked) db sent = (Inl (Problem code n), db', sent')"
  have "clean_at s (write_configuration_changes env h asked)" for s
    unfolding write_configuration_changes_def Let_def
    by (intro clean_at_then quiet_basic quiet_safeguards)
      (auto simp: from_sum_def execute_write_def intro!: clean_execute dest: validated_halts [THEN trans, OF _ halts])
  with run show ?thesis
    by (auto simp: run_request_def clean_at_def split: prod.splits)
qed
subsection \<open>The kill switch and the budget\<close>

lemma refuse_runs:
  "refuse env who asker err s =
     (Inl err, let db = record_refusal env (clock env (exchanges s)) who asker (code_of err) (work s) in s\<lparr>work := db, kept := db\<rparr>)"
  by (simp add: refuse_def then_do_def now_def look_def writing_def change_def commit_session_def fail_with_def Let_def)

lemma killed_runs:
  assumes "or_none caller = Some who" "who \<in> kill_invoker ` set (kills (work s))"
  shows "refuse_if_killed env caller asker s = refuse env who asker RAPP_KILLED s"
proof -
  have "row_where (\<lambda>k. kill_invoker k = who) (kills (work s)) \<noteq> None" using assms(2) by (auto simp: row_where_None)
  then show ?thesis unfolding refuse_if_killed_def assms(1) by (auto simp: then_do_def reading_def look_def)
qed

text \<open>C1: Once an operator has stopped an rApp, a write it asks for is answered 403 \<open>RAPP_KILLED\<close>: nothing is read from or sent to
  any network function, no job, change or approval request is made, and the refusal itself is on record.\<close>

theorem killed_rapp_writes_nothing:
  "validated asked = Inr body \<Longrightarrow> or_none (invoker_id h) = Some who \<Longrightarrow> who \<in> kill_invoker ` set (kills db) \<Longrightarrow>
     run_request (write_configuration_changes env h asked) db sent = (r, db', sent') \<Longrightarrow>
     r = Inl RAPP_KILLED \<and> sent' = sent \<and> cm_jobs db' = cm_jobs db \<and> sub_changes db' = sub_changes db \<and> approvals db' = approvals db \<and>
     (\<exists>e. refusals db' = refusals db @ [e] \<and> refused_invoker e = who \<and> refusal_code e = ''RAPP_KILLED'')"
proof -
  assume body: "validated asked = Inr body" and who: "or_none (invoker_id h) = Some who" and killed: "who \<in> kill_invoker ` set (kills db)"
    and run: "run_request (write_configuration_changes env h asked) db sent = (r, db', sent')"
  let ?s = "\<lparr>work = db, kept = db, exchanges = sent\<rparr>"
  have "refuse_if_killed env (invoker_id h) (Some (req_by body)) ?s = refuse env who (Some (req_by body)) RAPP_KILLED ?s"
    by (rule killed_runs [OF who]) (use killed in simp)
  then have "write_configuration_changes env h asked ?s = refuse env who (Some (req_by body)) RAPP_KILLED ?s"
    by (simp add: write_configuration_changes_def then_do_def from_sum_def body refuse_runs Let_def)
  with run have "r = Inl RAPP_KILLED" "sent' = sent"
    and db': "db' = record_refusal env (clock env sent) who (Some (req_by body)) ''RAPP_KILLED'' db"
    by (auto simp: run_request_def refuse_runs Let_def code_of_def RAPP_KILLED_def)
  moreover have "sub_changes db' = sub_changes db" "approvals db' = approvals db" "cm_jobs db' = cm_jobs db"
    "\<exists>e. refusals db' = refusals db @ [e] \<and> refused_invoker e = who \<and> refusal_code e = ''RAPP_KILLED''"
    unfolding db' by (simp_all add: record_refusal_def Let_def)
  ultimately show ?thesis by simp
qed

text \<open>The jobs of an rApp since a moment, from what jobs are made with.\<close>

definition counts_for :: "string \<Rightarrow> seconds \<Rightarrow> config_job \<times> string \<times> seconds \<times> nat \<times> gate_action \<Rightarrow> bool" where
  "counts_for who since x \<longleftrightarrow> config_invoker_id (fst x) = Some who \<and> since \<le> fst (snd (snd x))"

lemma jobs_since_origins: "jobs_since db who since = length (filter (counts_for who since) (map origin_of (cm_jobs db)))"
  by (simp add: jobs_since_def counts_for_def origin_of_def config_job.truncate_def filter_map comp_def)

lemma undo_spends_nothing: "jobs_grow (\<lambda>x. config_invoker_id (fst x) = None) db db' \<Longrightarrow> jobs_since db' who since = jobs_since db who since"
proof -
  assume "jobs_grow (\<lambda>x. config_invoker_id (fst x) = None) db db'"
  then obtain new where new: "map origin_of (cm_jobs db') = map origin_of (cm_jobs db) @ new" "\<forall>x \<in> set new. config_invoker_id (fst x) = None"
    by (auto simp: jobs_grow_def)
  have "filter (counts_for who since) new = []" using new(2) by (auto simp: counts_for_def filter_empty_conv)
  then show ?thesis unfolding jobs_since_origins new(1) by (simp only: filter_append length_append list.size add_0_right)
qed

interpretation same_jobs: safeguard_relation "same_on cm_jobs"
  by unfold_locales (erule (1) same_on_trans | simp add: same_on_def)+

lemma same_count: "same_on cm_jobs a b \<Longrightarrow> jobs_since b who since = jobs_since a who since"
  by (simp add: same_on_def jobs_since_def)

lemma start_runs:
  "start_job env undo body why s =
     (let window = (if undoes why = None then req_window body else None); t = clock env (exchanges s);
          k = fresh_id (map cm_job_id (cm_jobs (work s)))
      in if (case window of None \<Rightarrow> False | Some w \<Rightarrow> window_shut t (window_close w)) then (Inl SCHEMA_VALIDATION_FAILED, s)
         else run_new_job env undo body why (undoes why = None \<and> (window \<noteq> None \<or> req_require_approval body)) k
                (s\<lparr>work := make_job t body window (invoker why) (undoes why) (forced_undo why) k (work s)\<rparr>))"
  unfolding start_job_def Let_def step_now step_if step_reading step_writing fail_with_def
  by (rule refl)

lemma start_spends:
  assumes run: "start_job env (revert n env) body why s = (r, s')" and kept: "jobs_since (kept s) who since = jobs_since (work s) who since"
    and direct: "from_approval why = None"
  shows "jobs_since (kept s') who since \<le> Suc (jobs_since (work s) who since)"
proof (cases "s' = s")
  case True
  then show ?thesis using kept by simp
next
  case False
  let ?Q = "\<lambda>x :: config_job \<times> string \<times> seconds \<times> nat \<times> gate_action. config_invoker_id (fst x) = None"
  have else_part: "y = (r, s')" if "(if c then (x, s) else y) = (r, s')" for c x and y :: "(http_error + write_answer) \<times> session"
    using that False by (cases c) auto
  from else_part [OF run [unfolded start_runs Let_def]]
  obtain hold k s1 where s1: "\<exists>t w und forced. s1 = s\<lparr>work := make_job t body w (invoker why) und forced k (work s)\<rparr>"
    and tl: "run_new_job env (revert n env) body why hold k s1 = (r, s')" by blast
  have tail: "evolves (jobs_grow ?Q) (run_new_job env (revert n env) body why hold k)"
    by (rule undos.runs [OF _ undos.reverts]) (use direct in simp)
  have "jobs_since (work s1) who since \<le> Suc (jobs_since (work s) who since)" "kept s1 = kept s"
    using s1 by (auto simp: jobs_since_def make_job_def)
  then show ?thesis using evolves_keptD [OF tail tl] kept by (auto simp: undo_spends_nothing)
qed
lemma execute_spends:
  assumes run: "execute_write env body why s = (r, s')" and kept: "jobs_since (kept s) who since = jobs_since (work s) who since"
    and direct: "from_approval why = None"
  shows "jobs_since (kept s') who since \<le> Suc (jobs_since (work s) who since)"
proof -
  have still: "jobs_since (kept u) who since \<le> Suc (jobs_since (work s) who since)"
    if "evolves (same_on cm_jobs) m" "m s = (x, u)" for m :: "write_answer cm" and x u
    using evolves_keptD [OF that] kept same_count [of "work s" "kept u" who since] by auto
  have parks: "evolves (same_on cm_jobs) (park_for_approval env body w p sc)" for w p sc
    by (auto intro!: same_jobs.thens same_jobs.writes simp: park_for_approval_def notify_approvers_def same_on_def Let_def split: option.split)
  have dry: "evolves (same_on cm_jobs) (plan_dry_run env body)"
    by (auto intro!: same_jobs.thens same_jobs.maps simp: plan_dry_run_def)
  have ends: "jobs_since (kept u) who since \<le> Suc (jobs_since (work s) who since)"
    if "(if req_dry_run body then plan_dry_run env body s else (case policy of None \<Rightarrow> start_job env (revert 1 env) body why
        | Some p \<Rightarrow> park_for_approval env body (policy_invoker p) p (caller_scope why)) s) = (x, u)" for policy x u
    using that still [OF dry] still [OF parks] start_spends [OF _ kept direct] by (auto split: if_splits option.splits simp del: revert.simps One_nat_def)
  show ?thesis
  proof (cases "and_then (check_access (work s) body) (\<lambda>_. and_then (check_changes env (work s) body) (\<lambda>_. check_guard (work s) body))")
    case (Inl err)
    with run kept show ?thesis
      unfolding execute_write_def execute_write_with_def step_reading by (simp add: step_sum)
  next
    case (Inr u)
    with run ends show ?thesis
      unfolding execute_write_def execute_write_with_def step_reading
      by (simp add: step_sum step_if step_reading del: revert.simps One_nat_def)
  qed
qed
text \<open>A safeguard that lets a request pass has changed nothing.\<close>

lemma killed_passes: "refuse_if_killed env caller asker s = (Inr x, s') \<Longrightarrow> s' = s"
  by (auto simp: refuse_if_killed_def then_do_def reading_def look_def give_def refuse_runs split: option.splits if_splits)

lemma scope_passes: "enforce_scope env sc caller asker refs s = (Inr x, s') \<Longrightarrow> s' = s"
  by (auto simp: enforce_scope_def require_elements_def catch_def then_do_def reading_def look_def give_def fail_with_def refuse_runs
      split: option.splits if_splits prod.splits sum.splits)

lemma limit_passes:
  "enforce_rapp_limit env caller asker s = (Inr x, s') \<Longrightarrow> s' = s \<and>
     (\<forall>l most. limit_of (work s) caller = Some l \<and> max_config_jobs_per_hour l = Some most \<longrightarrow>
        jobs_since (work s) (limit_invoker l) (clock env (exchanges s) - RATE_WINDOW) < most)"
  by (auto simp: enforce_rapp_limit_def step_now step_reading give_def refuse_runs Let_def split: option.splits if_splits)

text \<open>A write either stops at a safeguard, and no job is made, or its job is made after every one of them.\<close>

lemma stops_or_runs:
  assumes caller: "invoker_id h = Some who" and s: "s = \<lparr>work = db, kept = db, exchanges = sent\<rparr>"
    and run: "write_configuration_changes env h asked s = (r, s')"
  shows "jobs_since (kept s') x t = jobs_since db x t \<or>
    (\<exists>body y s1. enforce_rapp_limit env (Some who) (Some (req_by body)) s = (Inr y, s) \<and> enforce_change_limits env body (Some who) s = (Inr (), s1) \<and>
       execute_write env body \<lparr>undoes = None, forced_undo = False, invoker = Some who, actor = acting_rapp h, may_park = True,
         from_approval = None, caller_scope = request_scope env h\<rparr> s1 = (r, s'))"
proof -
  let ?stays = "jobs_since (kept s') x t = jobs_since db x t"
  let ?scoped = "\<lambda>body. enforce_scope env (request_scope env h) (Some who) (Some (req_by body)) (map target_element (req_changes body))"
  have still: ?stays if "evolves (same_on cm_jobs) m" "m s = (y, s')" for m :: "unit cm" and y
    using evolves_keptD [OF that] s by (auto dest: same_count)
  from run show ?thesis
    unfolding write_configuration_changes_def Let_def caller
  proof (elim run_both)
    fix err assume "from_sum (validated asked) s = (Inl err, s')"
    then have "kept s' = db" by (auto simp: from_sum_def s)
    then show ?thesis by simp
  next
    fix body s1 err assume "from_sum (validated asked) s = (Inr body, s1)" and 2: "refuse_if_killed env (Some who) (Some (req_by body)) s1 = (Inl err, s')"
    then have "s1 = s" by (simp add: from_sum_def)
    with still [OF same_jobs.refuses_killed] 2 show ?thesis by fastforce
  next
    fix body s1 x2 s2 err assume 1: "from_sum (validated asked) s = (Inr body, s1)"
      and 2: "refuse_if_killed env (Some who) (Some (req_by body)) s1 = (Inr x2, s2)" and 3: "?scoped body s2 = (Inl err, s')"
    from 1 killed_passes [OF 2] have "s2 = s" by (simp add: from_sum_def)
    with still [OF same_jobs.scoping] 3 show ?thesis by fastforce
  next
    fix body s1 x2 s2 x3 s3 err assume 1: "from_sum (validated asked) s = (Inr body, s1)"
      and 2: "refuse_if_killed env (Some who) (Some (req_by body)) s1 = (Inr x2, s2)" and 3: "?scoped body s2 = (Inr x3, s3)"
      and 4: "enforce_rapp_limit env (Some who) (Some (req_by body)) s3 = (Inl err, s')"
    from 1 killed_passes [OF 2] scope_passes [OF 3] have "s3 = s" by (simp add: from_sum_def)
    with still [OF same_jobs.limiting] 4 show ?thesis by fastforce
  next
    fix body s1 x2 s2 x3 s3 x4 s4 err assume 1: "from_sum (validated asked) s = (Inr body, s1)"
      and 2: "refuse_if_killed env (Some who) (Some (req_by body)) s1 = (Inr x2, s2)" and 3: "?scoped body s2 = (Inr x3, s3)"
      and 4: "enforce_rapp_limit env (Some who) (Some (req_by body)) s3 = (Inr x4, s4)" and 5: "enforce_change_limits env body (Some who) s4 = (Inl err, s')"
    from 1 killed_passes [OF 2] scope_passes [OF 3] limit_passes [OF 4] have "s4 = s" by (simp add: from_sum_def)
    with still [OF same_jobs.bounding] 5 show ?thesis by fastforce
  next
    fix body s1 x2 s2 x3 s3 x4 s4 x5 s5 assume 1: "from_sum (validated asked) s = (Inr body, s1)"
      and 2: "refuse_if_killed env (Some who) (Some (req_by body)) s1 = (Inr x2, s2)" and 3: "?scoped body s2 = (Inr x3, s3)"
      and 4: "enforce_rapp_limit env (Some who) (Some (req_by body)) s3 = (Inr x4, s4)" and 5: "enforce_change_limits env body (Some who) s4 = (Inr x5, s5)"
      and 6: "execute_write env body \<lparr>undoes = None, forced_undo = False, invoker = Some who, actor = acting_rapp h, may_park = True,
          from_approval = None, caller_scope = request_scope env h\<rparr> s5 = (r, s')"
    from 1 killed_passes [OF 2] scope_passes [OF 3] limit_passes [OF 4] have "s3 = s" "s4 = s" by (simp_all add: from_sum_def)
    with 4 5 6 show ?thesis by fastforce
  qed
qed

text \<open>C6: An rApp with an hourly budget never has more jobs from the last hour than it, whatever a write it asks for does: the jobs
  counted after the request are within the budget, or no more than there were. Undo jobs a failed gate makes do not count.\<close>

theorem hourly_budget_holds:
  "invoker_id h = Some who \<Longrightarrow> who \<noteq> [] \<Longrightarrow> row_where (\<lambda>l. limit_invoker l = who) (limits db) = Some l \<Longrightarrow>
     max_config_jobs_per_hour l = Some most \<Longrightarrow>
     run_request (write_configuration_changes env h asked) db sent = (r, db', sent') \<Longrightarrow>
     jobs_since db' who (clock env sent - RATE_WINDOW) \<le> max most (jobs_since db who (clock env sent - RATE_WINDOW))"
proof -
  assume caller: "invoker_id h = Some who" "who \<noteq> []" and row: "row_where (\<lambda>l. limit_invoker l = who) (limits db) = Some l"
    and most: "max_config_jobs_per_hour l = Some most" and run: "run_request (write_configuration_changes env h asked) db sent = (r, db', sent')"
  define s where "s = \<lparr>work = db, kept = db, exchanges = sent\<rparr>"
  let ?n = "\<lambda>d. jobs_since d who (clock env sent - RATE_WINDOW)"
  obtain s' where go: "write_configuration_changes env h asked s = (r, s')" and db': "db' = kept s'"
    using run by (auto simp: run_request_def s_def split: prod.splits)
  have limit: "limit_of (work s) (Some who) = Some l" and who: "limit_invoker l = who"
    using caller row row_where_SomeD [OF row] by (simp_all add: limit_of_def or_none_def s_def)
  from stops_or_runs [OF caller(1) s_def go, of who "clock env sent - RATE_WINDOW"] show ?thesis
  proof (elim disjE exE conjE)
    fix body y s1 assume budget: "enforce_rapp_limit env (Some who) (Some (req_by body)) s = (Inr y, s)"
      and limits: "enforce_change_limits env body (Some who) s = (Inr (), s1)"
      and wrote: "execute_write env body \<lparr>undoes = None, forced_undo = False, invoker = Some who, actor = acting_rapp h, may_park = True,
          from_approval = None, caller_scope = request_scope env h\<rparr> s1 = (r, s')"
    have "?n db < most" using limit_passes [OF budget] limit most who by (auto simp: s_def)
    moreover have "?n (kept s1) = ?n db" "?n (work s1) = ?n db"
      using evolves_keptD [OF same_jobs.bounding limits] evolvesD [OF same_jobs.bounding limits] by (auto simp: s_def dest: same_count)
    ultimately show ?thesis
      using execute_spends [OF wrote, of who "clock env sent - RATE_WINDOW"] by (simp add: db')
  qed (simp add: db')
qed

end
