(* ===== verification/UndoPlan.thy ===== *)
theory UndoPlan
  imports WriteJobs
begin

section \<open>The undo plan restores what a job replaced\<close>

text \<open>
  Specification: the objects of a network function are maps from attribute names to values. A network function is
  not part of the code: what an edit does to its objects is a parameter, and \<open>follows_rfc6241\<close> is what RFC 6241
  section 7.2 says of the operations, in the cases in which they succeed. A snapshot is faithful when it holds what
  the read before the edit returned and what the edit wrote; a deletion is one that named no attributes, so that the
  whole object was read.
\<close>

type_synonym nf_objects = "mo_target \<Rightarrow> (string \<rightharpoonup> json) option"

definition follows_rfc6241 :: "(change \<Rightarrow> nf_objects \<Rightarrow> nf_objects) \<Rightarrow> bool" where
  "follows_rfc6241 edit \<longleftrightarrow> (\<forall>c n. let t = (target_element c, target_function c); a = map_of (attributes_of c) in
     (\<forall>u. u \<noteq> t \<longrightarrow> edit c n u = n u) \<and>
     (\<forall>m. operation_of c = ''merge'' \<longrightarrow> n t = Some m \<longrightarrow> edit c n t = Some (m ++ a)) \<and>
     (operation_of c = ''replace'' \<longrightarrow> edit c n t = Some a) \<and>
     (operation_of c = ''create'' \<longrightarrow> n t = None \<longrightarrow> edit c n t = Some a) \<and>
     (operation_of c \<in> {''delete'', ''remove''} \<longrightarrow> n t \<noteq> None \<longrightarrow> edit c n t = None))"

text \<open>What a read returns of an object.\<close>

definition reads_as :: "nf_objects \<Rightarrow> mo_target \<Rightarrow> attributes \<Rightarrow> bool" where
  "reads_as n t current \<longleftrightarrow> (case n t of None \<Rightarrow> current = [] | Some m \<Rightarrow> map_of current = m)"

text \<open>The edit a snapshot was taken of.\<close>

definition edit_of_row :: "cm_snapshot \<Rightarrow> change" where
  "edit_of_row row = \<lparr>target_element = snap_element row, target_function = snap_function row,
     attribute_changes = Some (written row), asked_operation = Some (snap_operation row)\<rparr>"

definition faithful :: "nf_objects \<Rightarrow> cm_snapshot \<Rightarrow> bool" where
  "faithful n row \<longleftrightarrow> snap_function row \<noteq> Some [] \<and> distinct (map fst (written row)) \<and>
     (\<exists>current. reads_as n (snap_target row) current \<and>
        (snap_operation row \<in> {''merge'', ''replace''} \<and> n (snap_target row) \<noteq> None \<and>
           before_image row = Some (if written row \<noteq> [] then map (\<lambda>(k, _). (k, value_of current k)) (written row) else current) \<or>
         snap_operation row = ''create'' \<and> n (snap_target row) = None \<or>
         snap_operation row \<in> {''delete'', ''remove''} \<and> n (snap_target row) \<noteq> None \<and> before_image row = Some current \<and> after_image row = None))"

text \<open>A job took the objects from \<open>n\<close> to \<open>n'\<close>, leaving these snapshots.\<close>

inductive ran_through :: "(change \<Rightarrow> nf_objects \<Rightarrow> nf_objects) \<Rightarrow> nf_objects \<Rightarrow> cm_snapshot list \<Rightarrow> nf_objects \<Rightarrow> bool" for edit where
  none: "ran_through edit n [] n"
| edit: "ran_through edit n rows n' \<Longrightarrow> faithful n' row \<Longrightarrow> ran_through edit n (rows @ [row]) (edit (edit_of_row row) n')"

text \<open>
  What an undo brings back: the objects that were there and no others, each with values it had before, and with
  all of them for the attributes in \<open>K\<close>. A replace takes away the attributes it does not write, and only the ones it
  writes are read before it: \<open>restored\<close> says, per object, for which attributes the plan of a job restores the value.
\<close>

definition as_before :: "(mo_target \<Rightarrow> string set) \<Rightarrow> nf_objects \<Rightarrow> nf_objects \<Rightarrow> bool" where
  "as_before K n x \<longleftrightarrow> (\<forall>t. (x t = None \<longleftrightarrow> n t = None) \<and>
     (\<forall>a b. x t = Some a \<longrightarrow> n t = Some b \<longrightarrow> a \<subseteq>\<^sub>m b \<and> (\<forall>k \<in> K t. a k = b k)))"

definition settles :: "cm_snapshot \<Rightarrow> (mo_target \<Rightarrow> string set) \<Rightarrow> mo_target \<Rightarrow> string set" where
  "settles row K = K(snap_target row :=
     (if snap_operation row = ''merge'' then K (snap_target row) \<union> set (map fst (written row))
      else if snap_operation row = ''replace'' then set (map fst (written row)) else UNIV))"

definition restored :: "cm_snapshot list \<Rightarrow> mo_target \<Rightarrow> string set" where
  "restored rows = foldr settles rows (\<lambda>_. UNIV)"

subsection \<open>One snapshot\<close>

definition undo_row :: "cm_snapshot \<Rightarrow> change" where
  "undo_row row =
     (if snap_operation row = ''create'' then undo_of row ''delete'' []
      else if snap_operation row \<in> {''delete'', ''remove''} then undo_of row ''create'' (case before_image row of None \<Rightarrow> [] | Some b \<Rightarrow> b)
      else undo_of row ''merge'' (map (\<lambda>(k, _). (k, value_of (case before_image row of None \<Rightarrow> [] | Some b \<Rightarrow> b) k)) (written row)))"

lemma sort_nothing: "sort_key g xs = [] \<longleftrightarrow> xs = []"
  by (metis length_0_conv length_sort)

lemma plan_step_cases:
  "(\<exists>why. plan_step row p = cannot why p) \<or>
   plan_step row p = planned row (undo_row row) (if snap_operation row \<in> {''delete'', ''remove''} then None else left_there row p) p"
proof -
  consider "snap_operation row = ''create''" | "snap_operation row \<in> {''delete'', ''remove''}" | "snap_operation row \<in> {''merge'', ''replace''}"
    | "snap_operation row \<notin> {''create'', ''delete'', ''remove'', ''merge'', ''replace''}" by blast
  then show ?thesis
  proof cases
    case 1
    then show ?thesis by (simp add: plan_step_def undo_row_def)
  next
    case 2
    then have "snap_operation row \<noteq> ''create''" "snap_operation row \<notin> {''merge'', ''replace''}" by auto
    then show ?thesis using 2 by (cases "before_image row") (auto simp: plan_step_def undo_row_def split: list.split simp del: insert_iff)
  next
    case 3
    then have "snap_operation row \<noteq> ''create''" "snap_operation row \<notin> {''delete'', ''remove''}" by auto
    then show ?thesis using 3 by (cases "before_image row") (auto simp: plan_step_def undo_row_def Let_def simp del: insert_iff)
  next
    case 4
    then show ?thesis by (auto simp: plan_step_def)
  qed
qed

lemma plan_step_problem: "undo_problems (plan_step row p) \<noteq> [] \<or> undo_problems p = []"
  using plan_step_cases [of row p] by (auto simp: cannot_def planned_def)

lemma plan_step_ok:
  assumes "undo_problems (plan_step row p) = []"
  shows "undo_problems p = []" and "undo_changes (plan_step row p) = undo_changes p @ [undo_row row]"
    and "undo_expected (plan_step row p) = dict_put (snap_target row) (if snap_operation row \<in> {''delete'', ''remove''} then None else left_there row p) (undo_expected p)"
proof -
  have "plan_step row p = planned row (undo_row row) (if snap_operation row \<in> {''delete'', ''remove''} then None else left_there row p) p"
    using plan_step_cases [of row p] assms unfolding cannot_def by force
  then show "undo_problems p = []" "undo_changes (plan_step row p) = undo_changes p @ [undo_row row]"
    "undo_expected (plan_step row p) = dict_put (snap_target row) (if snap_operation row \<in> {''delete'', ''remove''} then None else left_there row p) (undo_expected p)"
    using assms by (simp_all add: planned_def del: insert_iff)
qed

lemma map_of_put: "map_of (dict_put k v ps) = (map_of ps)(k \<mapsto> v)"
  by (induction k v ps rule: dict_put.induct) auto

lemma keys_put: "distinct (map fst ps) \<Longrightarrow> distinct (map fst (dict_put k v ps)) \<and> set (map fst (dict_put k v ps)) = insert k (set (map fst ps))"
  by (induction k v ps rule: dict_put.induct) auto

lemma merge_props: "distinct (map fst a) \<Longrightarrow> distinct (map fst b) \<Longrightarrow> distinct (map fst (dict_merge a b)) \<and> map_of (dict_merge a b) = map_of a ++ map_of b"
proof (induction b arbitrary: a)
  case (Cons p b)
  obtain k v where p: "p = (k, v)" by (cases p)
  have step: "dict_merge a ((k, v) # b) = dict_merge (dict_put k v a) b" by (simp add: dict_merge_def)
  have fresh: "k \<notin> dom (map_of b)" using Cons.prems(2) by (simp add: p dom_map_of_conv_image_fst)
  have "(map_of a)(k \<mapsto> v) ++ map_of b = map_of a ++ (map_of b)(k \<mapsto> v)"
    by (simp only: map_add_upd map_add_upd_left [OF fresh])
  then show ?case using Cons.IH [of "dict_put k v a"] Cons.prems keys_put [of a k v]
    unfolding p step by (simp only: map_of_put map_of.simps fst_conv snd_conv list.map distinct.simps)
qed (simp add: dict_merge_def)

text \<open>The values read before a merge or a replace whose undo the plan could make are the ones that were there.\<close>

lemma listed: "map_of (map (\<lambda>(k, _). (k, g k)) ps) = (\<lambda>k. if k \<in> fst ` set ps then Some (g k) else None)"
  by (induction ps) (auto simp: fun_eq_iff)

lemma recorded_value:
  assumes ok: "undo_problems (plan_step row p) = []" and op: "snap_operation row \<in> {''merge'', ''replace''}"
    and before: "before_image row = Some (if written row \<noteq> [] then map (\<lambda>(k, _). (k, value_of current k)) (written row) else current)"
    and k: "k \<in> fst ` set (written row)"
  shows "map_of current k = Some (value_of (the (before_image row)) k)"
proof -
  let ?b = "if written row \<noteq> [] then map (\<lambda>(k, _). (k, value_of current k)) (written row) else current"
  have "value_of ?b k = value_of current k"
    using k listed [of "value_of current" "written row"] by (auto simp: value_of_def)
  moreover have "sort (filter (\<lambda>k. value_of ?b k = JNull) (map fst (written row))) = []"
    using ok op before unfolding plan_step_def by (simp add: cannot_def Let_def split: if_splits)
  then have "value_of ?b k \<noteq> JNull" using k by (auto simp: sort_nothing filter_empty_conv)
  ultimately show ?thesis using before by (auto simp: value_of_def split: option.splits)
qed

lemma recorded_there:
  assumes "undo_problems (plan_step row p) = []" "snap_operation row \<in> {''merge'', ''replace''}"
    and "before_image row = Some (if written row \<noteq> [] then map (\<lambda>(k, _). (k, value_of current k)) (written row) else current)"
  shows "set (map fst (written row)) \<subseteq> dom (map_of current)"
  using recorded_value [OF assms] by auto

lemma recorded_values:
  assumes "undo_problems (plan_step row p) = []" "snap_operation row \<in> {''merge'', ''replace''}"
    and "before_image row = Some (if written row \<noteq> [] then map (\<lambda>(k, _). (k, value_of current k)) (written row) else current)"
  shows "map_of (map (\<lambda>(k, _). (k, value_of (the (before_image row)) k)) (written row)) = map_of current |` set (map fst (written row))"
  unfolding listed using recorded_value [OF assms] by (auto simp: fun_eq_iff restrict_map_def)

lemma follows_at:
  assumes "follows_rfc6241 edit" "t = (target_element c, target_function c)"
  shows "u \<noteq> t \<Longrightarrow> edit c n u = n u"
    and "operation_of c = ''merge'' \<Longrightarrow> n t = Some m \<Longrightarrow> edit c n t = Some (m ++ map_of (attributes_of c))"
    and "operation_of c = ''replace'' \<Longrightarrow> edit c n t = Some (map_of (attributes_of c))"
    and "operation_of c = ''create'' \<Longrightarrow> n t = None \<Longrightarrow> edit c n t = Some (map_of (attributes_of c))"
    and "operation_of c \<in> {''delete'', ''remove''} \<Longrightarrow> n t \<noteq> None \<Longrightarrow> edit c n t = None"
proof -
  note law = assms(1) [unfolded follows_rfc6241_def Let_def, rule_format, of c n, folded assms(2)]
  show "u \<noteq> t \<Longrightarrow> edit c n u = n u" using law by (cases u) simp
  show "operation_of c = ''merge'' \<Longrightarrow> n t = Some m \<Longrightarrow> edit c n t = Some (m ++ map_of (attributes_of c))" using law by simp
  show "operation_of c = ''replace'' \<Longrightarrow> edit c n t = Some (map_of (attributes_of c))" using law by simp
  show "operation_of c = ''create'' \<Longrightarrow> n t = None \<Longrightarrow> edit c n t = Some (map_of (attributes_of c))" using law by simp
  show "operation_of c \<in> {''delete'', ''remove''} \<Longrightarrow> n t \<noteq> None \<Longrightarrow> edit c n t = None" using law by simp
qed

lemma row_parts [simp]:
  "target_element (edit_of_row row) = snap_element row" "target_function (edit_of_row row) = snap_function row"
  "operation_of (edit_of_row row) = snap_operation row" "attributes_of (edit_of_row row) = written row"
  "target_element (undo_of row name attrs) = snap_element row" "target_function (undo_of row name attrs) = or_none (snap_function row)"
  "operation_of (undo_of row name attrs) = name" "attributes_of (undo_of row name attrs) = attrs"
  by (simp_all add: edit_of_row_def undo_of_def operation_of_def attributes_of_def)

text \<open>Undoing the last edit.\<close>

lemma undo_last:
  assumes edits: "follows_rfc6241 edit" and ok: "undo_problems (plan_step row p) = []" and row: "faithful n row"
    and near: "as_before K (edit (edit_of_row row) n) x"
  shows "as_before (settles row K) n (edit (undo_row row) x)"
proof -
  let ?t = "snap_target row" and ?ks = "set (map fst (written row))"
  from row obtain current where current: "reads_as n ?t current"
    and op: "snap_operation row \<in> {''merge'', ''replace''} \<and> n ?t \<noteq> None \<and>
           before_image row = Some (if written row \<noteq> [] then map (\<lambda>(k, _). (k, value_of current k)) (written row) else current) \<or>
         snap_operation row = ''create'' \<and> n ?t = None \<or>
         snap_operation row \<in> {''delete'', ''remove''} \<and> n ?t \<noteq> None \<and> before_image row = Some current \<and> after_image row = None"
    and f: "or_none (snap_function row) = snap_function row"
    by (auto simp: faithful_def or_none_def split: option.split)
  have forth: "?t = (target_element (edit_of_row row), target_function (edit_of_row row))" by (simp add: snap_target_def)
  have target: "?t = (target_element (undo_row row), target_function (undo_row row))" by (simp add: undo_row_def snap_target_def f)
  note forth_at = follows_at [OF edits forth] and back_at = follows_at [OF edits target]
  have other: "edit (undo_row row) x u = x u" "edit (edit_of_row row) n u = n u" if "u \<noteq> ?t" for u
    using forth_at(1) back_at(1) that by blast+
  have near_at: "(x u = None \<longleftrightarrow> edit (edit_of_row row) n u = None)"
    "x u = Some a \<Longrightarrow> edit (edit_of_row row) n u = Some b \<Longrightarrow> a \<subseteq>\<^sub>m b \<and> (\<forall>k \<in> K u. a k = b k)" for u a b
    using near unfolding as_before_def by blast+
  have here: "(edit (undo_row row) x ?t = None \<longleftrightarrow> n ?t = None) \<and>
    (\<forall>a b. edit (undo_row row) x ?t = Some a \<longrightarrow> n ?t = Some b \<longrightarrow> a \<subseteq>\<^sub>m b \<and> (\<forall>k \<in> settles row K ?t. a k = b k))"
    using op
  proof (elim disjE conjE)
    assume op: "snap_operation row \<in> {''merge'', ''replace''}" and there: "n ?t \<noteq> None"
      and before: "before_image row = Some (if written row \<noteq> [] then map (\<lambda>(k, _). (k, value_of current k)) (written row) else current)"
    obtain m where m: "n ?t = Some m" "map_of current = m" using current there by (auto simp: reads_as_def)
    have undo: "undo_row row = undo_of row ''merge'' (map (\<lambda>(k, _). (k, value_of (the (before_image row)) k)) (written row))"
      using op before unfolding undo_row_def by auto
    have restores: "edit (undo_row row) x ?t = Some (a ++ (m |` ?ks))" if "x ?t = Some a" for a
      using back_at(2) [of x a] that undo recorded_values [OF ok op before] m(2) by simp
    have written_there: "?ks \<subseteq> dom m" using recorded_there [OF ok op before] m(2) by simp
    have same: "(a ++ (m |` ?ks)) k = m k" if "k \<in> ?ks" for a k
      using that written_there by (auto simp: map_add_def restrict_map_def split: option.split)
    have else_same: "(a ++ (m |` ?ks)) k = a k" if "k \<notin> ?ks" for a k
      using that by (simp add: map_add_def)
    show ?thesis
    proof (cases "snap_operation row = ''merge''")
      case True
      have post: "edit (edit_of_row row) n ?t = Some (m ++ map_of (written row))"
        using forth_at(2) True m(1) by simp
      then obtain a where a: "x ?t = Some a" using near_at(1) [of ?t] by auto
      have a_le: "a \<subseteq>\<^sub>m m ++ map_of (written row)" "\<forall>k \<in> K ?t. a k = (m ++ map_of (written row)) k"
        using near_at(2) [OF a post] by blast+
      have outside: "(m ++ map_of (written row)) k = m k" if "k \<notin> ?ks" for k
        using that by (simp add: map_add_def map_of_eq_None_iff [THEN iffD2])
      have "(a ++ (m |` ?ks)) \<subseteq>\<^sub>m m"
        unfolding map_le_def using same else_same a_le(1) outside by (metis domIff map_le_def)
      moreover have "(a ++ (m |` ?ks)) k = m k" if "k \<in> K ?t \<union> ?ks" for k
        using that a_le(2) outside same else_same by (metis UnE)
      ultimately show ?thesis using restores [OF a] m(1) True by (simp add: settles_def)
    next
      case False
      then have replaced: "snap_operation row = ''replace''" using op by simp
      have post: "edit (edit_of_row row) n ?t = Some (map_of (written row))"
        using forth_at(3) replaced by simp
      then obtain a where a: "x ?t = Some a" using near_at(1) [of ?t] by auto
      have a_le: "a \<subseteq>\<^sub>m map_of (written row)" using near_at(2) [OF a post] by blast
      have none: "a k = None" if "k \<notin> ?ks" for k
        using a_le that map_of_eq_None_iff [of "written row" k] by (metis domIff map_le_def list.set_map)
      have "(a ++ (m |` ?ks)) \<subseteq>\<^sub>m m"
        unfolding map_le_def using same else_same none by (metis domIff)
      then show ?thesis using restores [OF a] m(1) replaced same by (simp add: settles_def)
    qed
  next
    assume "snap_operation row = ''create''" "n ?t = None"
    then have "edit (edit_of_row row) n ?t \<noteq> None" "operation_of (undo_row row) = ''delete''"
      using forth_at(4) by (simp_all add: undo_row_def)
    moreover from this have "x ?t \<noteq> None" using near_at(1) [of ?t] by simp
    ultimately have "edit (undo_row row) x ?t = None" using back_at(5) [of x] by simp
    then show ?thesis using \<open>n ?t = None\<close> by simp
  next
    assume gone: "snap_operation row \<in> {''delete'', ''remove''}" "n ?t \<noteq> None" "before_image row = Some current"
    then have "edit (edit_of_row row) n ?t = None" "undo_row row = undo_of row ''create'' current"
      using forth_at(5) by (auto simp: undo_row_def)
    then have "edit (undo_row row) x ?t = Some (map_of current)" using back_at(4) [of x] near_at(1) [of ?t] by simp
    then show ?thesis using gone current by (auto simp: reads_as_def)
  qed
  show ?thesis
    unfolding as_before_def
  proof (intro allI)
    fix u
    show "(edit (undo_row row) x u = None \<longleftrightarrow> n u = None) \<and>
      (\<forall>a b. edit (undo_row row) x u = Some a \<longrightarrow> n u = Some b \<longrightarrow> a \<subseteq>\<^sub>m b \<and> (\<forall>k \<in> settles row K u. a k = b k))"
    proof (cases "u = ?t")
      case False
      then have "settles row K u = K u" by (simp add: settles_def)
      then show ?thesis using other [OF False] near_at [of u] by simp
    qed (use here in simp)
  qed
qed

subsection \<open>The whole plan\<close>

text \<open>Of the objects in \<open>T\<close>, which no edit replaces, the plan expects to find what the edits left.\<close>

definition left_by :: "mo_target set \<Rightarrow> nf_objects \<Rightarrow> (mo_target \<times> attributes option) list \<Rightarrow> bool" where
  "left_by T n expected \<longleftrightarrow> distinct (map fst expected) \<and>
     (\<forall>t \<in> T. \<forall>want. map_of expected t = Some want \<longrightarrow>
        (case want of None \<Rightarrow> n t = None
         | Some a \<Rightarrow> distinct (map fst a) \<and> (\<exists>m. n t = Some m \<and> map_of a \<subseteq>\<^sub>m m)))"

lemma left_by_at:
  "left_by T n expected \<Longrightarrow> t \<in> T \<Longrightarrow> map_of expected t = Some want \<Longrightarrow>
     (case want of None \<Rightarrow> n t = None | Some a \<Rightarrow> distinct (map fst a) \<and> (\<exists>m. n t = Some m \<and> map_of a \<subseteq>\<^sub>m m))"
  unfolding left_by_def by blast

lemma left_by_put:
  assumes "left_by T n expected" and "\<And>u. u \<noteq> t \<Longrightarrow> n' u = n u"
    and "t \<in> T \<Longrightarrow> case want of None \<Rightarrow> n' t = None | Some a \<Rightarrow> distinct (map fst a) \<and> (\<exists>m. n' t = Some m \<and> map_of a \<subseteq>\<^sub>m m)"
  shows "left_by T n' (dict_put t want expected)"
  unfolding left_by_def map_of_put
proof (intro conjI ballI allI impI)
  show "distinct (map fst (dict_put t want expected))" using assms(1) keys_put [of expected t want] by (simp add: left_by_def)
  fix u w assume u: "u \<in> T" "((map_of expected)(t \<mapsto> want)) u = Some w"
  show "case w of None \<Rightarrow> n' u = None | Some a \<Rightarrow> distinct (map fst a) \<and> (\<exists>m. n' u = Some m \<and> map_of a \<subseteq>\<^sub>m m)"
  proof (cases "u = t")
    case True
    then have "w = want" using u(2) by simp
    then show ?thesis using assms(3) True u(1) by (simp only:)
  next
    case False
    then have "n' u = n u" and "map_of expected u = Some w" using assms(2) u(2) by auto
    then show ?thesis using left_by_at [OF assms(1) u(1)] by (simp only:)
  qed
qed

lemma left_by_merge:
  assumes left: "left_by T n (undo_expected p)" "snap_target row \<in> T" and keys: "distinct (map fst (written row))"
    and m: "n (snap_target row) = Some m"
  shows "case left_there row p of None \<Rightarrow> False
    | Some a \<Rightarrow> distinct (map fst a) \<and> map_of a \<subseteq>\<^sub>m m ++ map_of (written row)"
proof -
  define a where "a = (case map_of (undo_expected p) (snap_target row) of Some (Some a) \<Rightarrow> a | _ \<Rightarrow> [])"
  have a: "distinct (map fst a)" "map_of a \<subseteq>\<^sub>m m"
    using left_by_at [OF left] m by (auto simp: a_def split: option.splits)
  have "map_of a ++ map_of (written row) \<subseteq>\<^sub>m m ++ map_of (written row)"
    using a(2) by (auto simp: map_le_def map_add_def split: option.splits)
  then show ?thesis using merge_props [OF a(1) keys] by (simp add: left_there_def flip: a_def)
qed

lemma left_by_create:
  assumes left: "left_by T n (undo_expected p)" "snap_target row \<in> T" and keys: "distinct (map fst (written row))"
    and m: "n (snap_target row) = None"
  shows "case left_there row p of None \<Rightarrow> False | Some a \<Rightarrow> distinct (map fst a) \<and> map_of a = map_of (written row)"
proof -
  have "(case map_of (undo_expected p) (snap_target row) of Some (Some a) \<Rightarrow> a | _ \<Rightarrow> []) = []"
    using left_by_at [OF left] m by (auto split: option.splits)
  then show ?thesis using merge_props [of "[]" "written row"] keys by (simp add: left_there_def)
qed

lemma left_by_step:
  assumes edits: "follows_rfc6241 edit" and ok: "undo_problems (plan_step row p) = []" and row: "faithful n row"
    and left: "left_by T n (undo_expected p)" and kept: "snap_operation row = ''replace'' \<Longrightarrow> snap_target row \<notin> T"
  shows "left_by T (edit (edit_of_row row) n) (undo_expected (plan_step row p))"
  unfolding plan_step_ok(3) [OF ok]
proof (rule left_by_put [OF left])
  have forth: "snap_target row = (target_element (edit_of_row row), target_function (edit_of_row row))" by (simp add: snap_target_def)
  note forth_at = follows_at [OF edits forth]
  show "edit (edit_of_row row) n u = n u" if "u \<noteq> snap_target row" for u using that forth_at(1) by blast
  have keys: "distinct (map fst (written row))" using row by (simp add: faithful_def)
  assume t: "snap_target row \<in> T"
  then have "snap_operation row \<noteq> ''replace''" using kept by blast
  with row consider m where "snap_operation row = ''merge''" "n (snap_target row) = Some m"
    | "snap_operation row = ''create''" "n (snap_target row) = None"
    | "snap_operation row \<in> {''delete'', ''remove''}" "n (snap_target row) \<noteq> None"
    by (auto simp: faithful_def)
  then show "case if snap_operation row \<in> {''delete'', ''remove''} then None else left_there row p of
      None \<Rightarrow> edit (edit_of_row row) n (snap_target row) = None
    | Some a \<Rightarrow> distinct (map fst a) \<and> (\<exists>m. edit (edit_of_row row) n (snap_target row) = Some m \<and> map_of a \<subseteq>\<^sub>m m)"
  proof cases
    case (1 m)
    then show ?thesis using left_by_merge [OF left t keys 1(2)] forth_at(2) by (auto split: option.splits)
  next
    case 2
    then show ?thesis using left_by_create [OF left t keys 2(2)] forth_at(4) by (auto split: option.splits)
  next
    case 3
    then show ?thesis using forth_at(5) by auto
  qed
qed

lemma plan_restores:
  assumes "ran_through edit n rows n'" and "follows_rfc6241 edit" and "undo_problems (fold plan_step rows p) = []"
    and "undo_changes p = []" and "as_before K n' x"
  shows "as_before (foldr settles rows K) n (fold edit (rev (undo_changes (fold plan_step rows p))) x)"
  using assms
proof (induction arbitrary: K x rule: ran_through.induct)
  case (edit n rows n' row)
  have ok: "undo_problems (plan_step row (fold plan_step rows p)) = []" using edit.prems(2) by simp
  show ?case using edit.IH [OF edit.prems(1) plan_step_ok(1) [OF ok] edit.prems(3) undo_last [OF edit.prems(1) ok edit.hyps(2) edit.prems(4)]]
      plan_step_ok(2) [OF ok]
    by simp
qed simp

lemma plan_expects:
  assumes "ran_through edit n rows n'" and "follows_rfc6241 edit" and "undo_problems (fold plan_step rows p) = []"
    and "left_by T n (undo_expected p)" and "\<And>row. row \<in> set rows \<Longrightarrow> snap_operation row = ''replace'' \<Longrightarrow> snap_target row \<notin> T"
  shows "left_by T n' (undo_expected (fold plan_step rows p))"
  using assms
proof (induction rule: ran_through.induct)
  case (edit n rows n' row)
  have ok: "undo_problems (plan_step row (fold plan_step rows p)) = []" using edit.prems(2) by simp
  show ?case using left_by_step [OF edit.prems(1) ok edit.hyps(2) edit.IH [OF edit.prems(1) plan_step_ok(1) [OF ok] edit.prems(3)]] edit.prems(4)
    by simp
qed simp

text \<open>Nothing differs from what the plan expects as long as nobody else wrote.\<close>

lemma nothing_differs:
  assumes "left_by T n expected" "t \<in> T" and "map_of expected t = Some want" and "reads_as n t current"
  shows "differs t want current = []"
proof (cases want)
  case (Some a)
  then obtain m where a: "distinct (map fst a)" "n t = Some m" "map_of a \<subseteq>\<^sub>m m" using left_by_at [OF assms(1-3)] by auto
  have "value_of current k = v" if "(k, v) \<in> set a" for k v
    using assms(4) a that by (auto simp: reads_as_def value_of_def map_le_def dom_def split: option.split)
  then show ?thesis by (auto simp: Some differs_def filter_empty_conv)
qed (use left_by_at [OF assms(1-3)] assms(4) in \<open>simp add: differs_def reads_as_def\<close>)

lemma restored_all: "(\<And>row. row \<in> set rows \<Longrightarrow> snap_target row = t \<Longrightarrow> snap_operation row \<noteq> ''replace'') \<Longrightarrow> restored rows t = UNIV"
  unfolding restored_def by (induction rows) (auto simp: settles_def)

lemma as_before_exact: "as_before K n x \<Longrightarrow> K t = UNIV \<Longrightarrow> x t = n t"
  unfolding as_before_def by (elim allE [of _ t]) (cases "x t"; cases "n t"; auto simp: fun_eq_iff)

text \<open>C5: A rollback plan without problems undoes its job. For network functions that follow RFC 6241 and snapshots that say
  what each edit (merge, replace, create, delete of a whole object) replaced and wrote, carrying the plan's changes out
  after the job's edits leaves exactly the objects that were there before, with no value they did not have, and with
  the old value of every attribute but those a replace took away without naming them; an object no edit replaced is
  exactly what it was, and a read of it before the rollback finds nothing different from what the plan expects.\<close>

theorem undo_plan_restores:
  assumes edits: "follows_rfc6241 edit" and run: "ran_through edit n (undoable_rows db i only) n'"
    and ok: "undo_problems (rollback_plan db i only) = []"
  shows "as_before (restored (undoable_rows db i only)) n (fold edit (undo_changes (rollback_plan db i only)) n') \<and>
    (\<forall>t. (\<forall>row \<in> set (undoable_rows db i only). snap_target row = t \<longrightarrow> snap_operation row \<noteq> ''replace'') \<longrightarrow>
       fold edit (undo_changes (rollback_plan db i only)) n' t = n t \<and>
       (\<forall>want current. map_of (undo_expected (rollback_plan db i only)) t = Some want \<longrightarrow> reads_as n' t current \<longrightarrow>
          differs t want current = []))"
proof -
  define p where "p = \<lparr>undo_changes = [], undo_expected = [], undo_problems = []\<rparr>"
  define q where "q = fold plan_step (undoable_rows db i only) p"
  have plan: "rollback_plan db i only = q\<lparr>undo_changes := rev (undo_changes q)\<rparr>" and no: "undo_problems q = []"
    using ok by (auto simp: rollback_plan_def p_def q_def Let_def split: if_splits)
  have start: "as_before (\<lambda>_. UNIV) n' n'" "left_by {t} n (undo_expected p)" for t
    by (simp_all add: as_before_def left_by_def p_def)
  have undone: "as_before (restored (undoable_rows db i only)) n (fold edit (undo_changes (rollback_plan db i only)) n')"
    unfolding restored_def plan using plan_restores [OF run edits no [unfolded q_def] _ start(1)] by (simp add: p_def q_def)
  show ?thesis
  proof (intro conjI allI impI undone)
    fix t assume plain: "\<forall>row \<in> set (undoable_rows db i only). snap_target row = t \<longrightarrow> snap_operation row \<noteq> ''replace''"
    show "fold edit (undo_changes (rollback_plan db i only)) n' t = n t"
      using as_before_exact [OF undone] restored_all plain by blast
    fix want current assume "map_of (undo_expected (rollback_plan db i only)) t = Some want" "reads_as n' t current"
    moreover have "left_by {t} n' (undo_expected q)"
      unfolding q_def by (rule plan_expects [OF run edits no [unfolded q_def] start(2) [of t]]) (use plain in auto)
    ultimately show "differs t want current = []" using nothing_differs [of "{t}" n' "undo_expected q" t want current] by (simp add: plan)
  qed
qed

end
