(* ===== verification/ConfigDemo.thy ===== *)
theory ConfigDemo
  imports ConfigTypes ConfigSafety UndoPlan
begin

section \<open>A small network and what the properties say of it\<close>

text \<open>
  Three elements behind one adaptor, each edit and read taking a second; the requests of one rApp and of its
  operators. Each property of the write path with a hypothesis is applied to them.
\<close>

definition demo_took :: "exchange \<Rightarrow> seconds" where
  "demo_took x = (case x of Slept d \<Rightarrow> d | _ \<Rightarrow> 1)"

definition demo_env :: o1_environment where
  "demo_env = \<lparr>clock = (\<lambda>xs. 100000 + sum_list (map demo_took xs)),
     answers_edit = (\<lambda>xs i e. Accepted), answers_edits = (\<lambda>xs i es. map (\<lambda>_. Accepted) es),
     answers_read = (\<lambda>xs x. Values [(''txPower'', JInt 40)]), takes_transactions = (\<lambda>_. False), schema_problems = (\<lambda>_. []),
     as_number = (\<lambda>v. case v of JInt n \<Rightarrow> Some (of_int n) | _ \<Rightarrow> None), kpi_value = (\<lambda>_ _ _ _. (None, 0)),
     safe_destination = (\<lambda>_. True), retry_delays = [0, 5], retry_budget = 35, keep_snapshots = True, enforce_mo_tree = False,
     event_min_interval = 60, guard_grace_minutes = 60, claim_loads = (\<lambda>_. None), audit_writes = 4\<rparr>"

definition demo_element :: "string \<Rightarrow> managed_entity" where
  "demo_element e = \<lparr>entity_ref = e, entity_type = ''GNB'', vendor_name = None, entity_protocol = ''NETCONF'',
     entity_region = None, entity_tenant = None, entity_endpoint_id = Some 1\<rparr>"

definition demo_db :: cm_store where
  "demo_db = \<lparr>ran = \<lparr>entities = map demo_element [''ME1'', ''ME2'', ''ME3''],
       endpoints = [\<lparr>endpoint_id = 1, adaptor_uri = ''http://o1'', transport = ''http'', health_status = ACTIVE, last_heartbeat_at = None, endpoint_services = None\<rparr>],
       vendors = [], software_jobs = [], campaigns = [], alarms = [], subscriptions = [], ran_store.outbox = [], templates = [], onboardings = []\<rparr>,
     access = \<lparr>access_rules = [], roles = [], identities = []\<rparr>, objects = [], kpi_names = [], cm_jobs = [], sub_changes = [], snapshots = [],
     limits = [\<lparr>limit_invoker = ''rapp-1'', max_config_jobs_per_hour = Some 1, max_elements_per_job = None, max_change_percent = None\<rparr>],
     kills = [\<lparr>kill_invoker = ''rapp-9'', kill_reason = None, killed_by = ''op'', killed_at = 5\<rparr>], refusals = [], safeguard_subscriptions = [],
     policies = [\<lparr>policy_invoker = ''rapp-2'', policy_timeout = 600, policy_on_timeout = EXPIRE, policy_set_by = None, policy_required = 2\<rparr>],
     approvals = [], approval_subscriptions = [], decisions = [], audited = []\<rparr>"

definition demo_change :: "string \<Rightarrow> change" where
  "demo_change e = \<lparr>target_element = e, target_function = None, attribute_changes = Some [(''txPower'', JInt 43)], asked_operation = None\<rparr>"

definition demo_write :: "string list \<Rightarrow> write_request" where
  "demo_write es = (plain_request ''planner'' ''cells'' None (map demo_change es))\<lparr>req_wave_size := Some 2\<rparr>"

definition from_rapp :: "string \<Rightarrow> headers" where
  "from_rapp who = [INVOKER_ID_HEADER \<mapsto> who]"

definition from_user :: "string \<Rightarrow> headers" where
  "from_user who = [ROLE_HEADER \<mapsto> ROLE_INTERNAL, ACTING_USER_HEADER \<mapsto> who]"

definition demo_parked :: action_approval where
  "demo_parked = \<lparr>approval_id = 1, appr_invoker = ''rapp-2'', appr_requested_by = ''planner'', appr_status = approval_status.PENDING,
     appr_request = demo_write [''ME1''], appr_elements = [''ME1''], appr_created_at = 100000,
     appr_expires_at = 100600, appr_on_timeout = EXPIRE, appr_decided_by = None, appr_decided_at = None, appr_decision_reason = None,
     appr_job = None, appr_refusal_code = None, appr_requester_scope = JNull, appr_required = 2, appr_votes = []\<rparr>"

definition demo_vote :: "string \<Rightarrow> approval_vote" where
  "demo_vote who = \<lparr>vote_by = who, vote_at = 100000, vote_reason = None\<rparr>"

definition demo_voted :: action_approval where "demo_voted = demo_parked\<lparr>appr_votes := [demo_vote ''alice'']\<rparr>"

lemma demo_parks: "run_request (serve demo_env (AskWrite (from_rapp ''rapp-2'') (demo_write [''ME1'']))) demo_db [] =
    (Inr (), demo_db\<lparr>approvals := [demo_parked]\<rparr>, [])"
  by code_simp

lemma demo_votes: "run_request (serve demo_env (AskApprove (from_user ''alice'') 1 None None)) (demo_db\<lparr>approvals := [demo_parked]\<rparr>) [] =
    (Inr (), demo_db\<lparr>approvals := [demo_voted]\<rparr>, [])"
  by code_simp

definition demo_decided :: "(http_error + unit) \<times> cm_store \<times> exchange list" where
  "demo_decided = run_request (serve demo_env (AskApprove (from_user ''bob'') 1 None None)) (demo_db\<lparr>approvals := [demo_voted]\<rparr>) []"

lemma demo_approves: "(case demo_decided of (_, db, sent) \<Rightarrow>
     map (\<lambda>r. (appr_required r, appr_status r, map vote_by (appr_votes r))) (approvals db) = [(2, approval_status.APPROVED, [''alice'', ''bob''])] \<and>
     map cm_status (cm_jobs db) = [JobState.COMPLETED] \<and> length sent = 2)"
  by code_simp

subsection \<open>Witnesses\<close>

lemma waves_are_chunks_witness:
  "filter (\<lambda>e. wave_of (demo_write [''ME1'', ''ME2'', ''ME3'']) e = 2) [''ME1'', ''ME2'', ''ME3''] = [''ME3'']"
proof -
  have "elements_of (demo_write [''ME1'', ''ME2'', ''ME3'']) = [''ME1'', ''ME2'', ''ME3'']" by code_simp
  moreover have "size_of_waves (demo_write [''ME1'', ''ME2'', ''ME3'']) = 2" by code_simp
  ultimately show ?thesis using waves_are_chunks [of "demo_write [''ME1'', ''ME2'', ''ME3'']" 1] by (simp add: numeral_2_eq_2)
qed

definition demo_session :: session where
  "demo_session = \<lparr>work = demo_db, kept = demo_db, exchanges = []\<rparr>"

definition demo_edit :: o1_edit where
  "demo_edit = \<lparr>edit_object = \<lparr>via = NetconfHttp, at_uri = ''http://o1'', obj_element = ''ME1'', obj_function = None\<rparr>,
     edit_operation = ''merge'', edit_attributes = [(''txPower'', JInt 43)]\<rparr>"

lemma demo_keeps_time: "keeps_time demo_env 1"
  by (simp add: keeps_time_def demo_env_def demo_took_def split: exchange.split)

lemma dispatch_time_bounded_witness:
  "clock demo_env (exchanges (snd (dispatch_with_retries demo_env 1 demo_edit demo_session))) \<le> 100036"
proof -
  have "clock demo_env (exchanges demo_session) = 100000" "max 0 (retry_budget demo_env) = 35" "retry_delays demo_env = [0, 5]" by code_simp+
  moreover obtain r s where "dispatch_with_retries demo_env 1 demo_edit demo_session = (r, s)" by (rule prod.exhaust)
  ultimately show ?thesis using dispatch_time_bounded [OF demo_keeps_time, of 0 "[5]" 1 demo_edit demo_session r s] by simp
qed

definition demo_everywhere :: write_request where
  "demo_everywhere = plain_request ''planner'' ''entire-RAN'' None [demo_change ''ME1'']"

lemma demo_refused: "fst (run_request (write_configuration_changes demo_env (from_rapp ''rapp-1'') demo_everywhere) demo_db []) = Inl (Problem ''MSAC_ACCESS_DENIED'' 403)"
  by code_simp

lemma refused_write_sends_nothing_witness:
  "edits_sent (snd (snd (run_request (write_configuration_changes demo_env (from_rapp ''rapp-1'') demo_everywhere) demo_db []))) = []"
  using refused_write_sends_nothing [of demo_everywhere demo_env "from_rapp ''rapp-1''" demo_db "[]"] demo_refused
  by (cases "run_request (write_configuration_changes demo_env (from_rapp ''rapp-1'') demo_everywhere) demo_db []")
    (auto simp: demo_everywhere_def plain_request_def)

lemma killed_rapp_writes_nothing_witness:
  "fst (run_request (write_configuration_changes demo_env (from_rapp ''rapp-9'') (demo_write [''ME1''])) demo_db []) = Inl RAPP_KILLED"
proof -
  have "validated (demo_write [''ME1'']) = Inr (demo_write [''ME1''])" "or_none (invoker_id (from_rapp ''rapp-9'')) = Some ''rapp-9''"
    "''rapp-9'' \<in> kill_invoker ` set (kills demo_db)"
    by code_simp+
  then show ?thesis using killed_rapp_writes_nothing [of _ _ "from_rapp ''rapp-9''" "''rapp-9''" demo_db demo_env "[]"] prod_cases3 by (metis fst_conv)
qed

lemma hourly_budget_holds_witness:
  "jobs_since (fst (snd (run_request (write_configuration_changes demo_env (from_rapp ''rapp-1'') (demo_write [''ME1''])) demo_db []))) ''rapp-1''
     (100000 - RATE_WINDOW) \<le> 1"
proof -
  have "invoker_id (from_rapp ''rapp-1'') = Some ''rapp-1''" "clock demo_env [] = 100000" "jobs_since demo_db ''rapp-1'' (100000 - RATE_WINDOW) = 0"
    "row_where (\<lambda>l. limit_invoker l = ''rapp-1'') (limits demo_db) =
       Some \<lparr>limit_invoker = ''rapp-1'', max_config_jobs_per_hour = Some 1, max_elements_per_job = None, max_change_percent = None\<rparr>"
    by code_simp+
  then show ?thesis
    using hourly_budget_holds [of "from_rapp ''rapp-1''" "''rapp-1''" demo_db _ 1 demo_env "demo_write [''ME1'']" "[]"]
    by (cases "run_request (write_configuration_changes demo_env (from_rapp ''rapp-1'') (demo_write [''ME1''])) demo_db []") auto
qed

lemma decided_once_witness:
  "demo_parked\<lparr>appr_status := approval_status.REJECTED\<rparr> \<in> set (approvals (fst (snd (run_request
     (serve demo_env (AskApprove (from_user ''alice'') 1 None None)) (demo_db\<lparr>approvals := [demo_parked\<lparr>appr_status := approval_status.REJECTED\<rparr>]\<rparr>) []))))"
  using decided_once [of demo_env "AskApprove (from_user ''alice'') 1 None None" "demo_db\<lparr>approvals := [demo_parked\<lparr>appr_status := approval_status.REJECTED\<rparr>]\<rparr>" "[]"]
  by (cases "run_request (serve demo_env (AskApprove (from_user ''alice'') 1 None None)) (demo_db\<lparr>approvals := [demo_parked\<lparr>appr_status := approval_status.REJECTED\<rparr>]\<rparr>) []") auto

lemma demo_reachable: "demo_decided = (r, db, sent) \<Longrightarrow> cm_reachable demo_env db sent"
proof -
  assume decided: "demo_decided = (r, db, sent)"
  have "fresh_store demo_db" by (simp add: fresh_store_def demo_db_def)
  then have "cm_reachable demo_env (demo_db\<lparr>approvals := [demo_voted]\<rparr>) []"
    using cm_reachable.served [OF cm_reachable.served [OF cm_reachable.empty demo_parks] demo_votes] by blast
  then show ?thesis using cm_reachable.served decided unfolding demo_decided_def by blast
qed

lemma two_people_approve_witness:
  "2 \<le> card ((person \<circ> vote_by) ` set (appr_votes (hd (approvals (fst (snd demo_decided))))))"
proof -
  obtain r db sent where decided: "demo_decided = (r, db, sent)" by (rule prod_cases3)
  obtain a where "approvals db = [a]" "appr_required a = 2" "appr_status a = approval_status.APPROVED"
    using demo_approves by (auto simp: decided)
  then show ?thesis using two_people_approve [OF demo_reachable [OF decided], of a] by (simp add: decided)
qed

text \<open>The change of the approved job, and what becomes of it when an operator aborts.\<close>

lemma change_rows_permanent_witness:
  "row_ok (hd (sub_changes (fst (snd demo_decided)))) \<and>
   change_lives (hd (sub_changes (fst (snd demo_decided))))
     (fst (snd (run_request (serve demo_env (AskAbort (from_user ''alice'') 1 ''alice'')) (fst (snd demo_decided)) (snd (snd demo_decided)))))"
proof -
  obtain r db sent where decided: "demo_decided = (r, db, sent)" by (rule prod_cases3)
  have "sub_changes (fst (snd demo_decided)) \<noteq> []" by code_simp
  then have "hd (sub_changes db) \<in> set (sub_changes db)" by (simp add: decided)
  then show ?thesis using change_rows_permanent [OF demo_reachable [OF decided]] by (simp add: decided del: serve.simps)
qed

text \<open>
  Operations as RFC 6241 has them. A job took one cell from 40 to 43 and replaced the attributes of another, which
  lost its power; the objects before it.
\<close>

definition rfc_edit :: "change \<Rightarrow> nf_objects \<Rightarrow> nf_objects" where
  "rfc_edit c n =
     (let t = (target_element c, target_function c); a = map_of (attributes_of c)
      in if operation_of c = ''merge'' then n(t := Some ((case n t of None \<Rightarrow> Map.empty | Some m \<Rightarrow> m) ++ a))
         else if operation_of c \<in> {''create'', ''replace''} then n(t := Some a)
         else if operation_of c \<in> {''delete'', ''remove''} then n(t := None) else n)"

lemma rfc_edit_follows: "follows_rfc6241 rfc_edit"
  by (auto simp: follows_rfc6241_def rfc_edit_def Let_def)

definition demo_row :: cm_snapshot where
  "demo_row = \<lparr>snapshot_id = 1, snap_sub_change = 1, snap_job = 1, snap_element = ''ME1'', snap_function = None, snap_operation = ''merge'',
     before_image = Some [(''txPower'', JInt 40)], after_image = Some [(''txPower'', JInt 43)], before_error = None, snap_created_at = 100001\<rparr>"

definition demo_replaced :: "string \<Rightarrow> cm_snapshot" where
  "demo_replaced e = \<lparr>snapshot_id = 2, snap_sub_change = 2, snap_job = 1, snap_element = e, snap_function = None, snap_operation = ''replace'',
     before_image = Some [(''tilt'', JInt 2)], after_image = Some [(''tilt'', JInt 5)], before_error = None, snap_created_at = 100002\<rparr>"

definition demo_applied :: "nat \<Rightarrow> cm_snapshot \<Rightarrow> sub_change" where
  "demo_applied i row = \<lparr>sub_id = i, sub_job = 1, sub_element = snap_element row, sub_function = None,
     sub_attributes = written row, sub_operation = snap_operation row, sub_status = ''APPLIED'', sub_reason = None, sub_detail = None,
     sub_attempts = 1, sub_position = 0, sub_wave = 1\<rparr>"

definition demo_written :: "string \<Rightarrow> cm_store" where
  "demo_written e = demo_db\<lparr>snapshots := [demo_row, demo_replaced e], sub_changes := [demo_applied 1 demo_row, demo_applied 2 (demo_replaced e)]\<rparr>"

definition demo_objects :: nf_objects where
  "demo_objects = [(''ME1'', None) \<mapsto> [''txPower'' \<mapsto> JInt 40, ''tilt'' \<mapsto> JInt 2], (''ME2'', None) \<mapsto> [''txPower'' \<mapsto> JInt 41, ''tilt'' \<mapsto> JInt 2]]"

definition demo_after :: nf_objects where
  "demo_after = rfc_edit (edit_of_row (demo_replaced ''ME2'')) (rfc_edit (edit_of_row demo_row) demo_objects)"

lemma demo_rows: "undoable_rows (demo_written ''ME2'') 1 None = ([] @ [demo_row]) @ [demo_replaced ''ME2'']"
  by code_simp

lemma demo_ran: "ran_through rfc_edit demo_objects (undoable_rows (demo_written ''ME2'') 1 None) demo_after"
proof -
  note parts = snap_target_def reads_as_def value_of_def written_def fun_eq_iff
  have "faithful demo_objects demo_row"
    unfolding faithful_def
    by (intro conjI exI [of _ "[(''txPower'', JInt 40), (''tilt'', JInt 2)]"])
      (auto simp: demo_row_def demo_objects_def parts)
  moreover have "faithful (rfc_edit (edit_of_row demo_row) demo_objects) (demo_replaced ''ME2'')"
    unfolding faithful_def
    by (intro conjI exI [of _ "[(''txPower'', JInt 41), (''tilt'', JInt 2)]"])
      (auto simp: demo_replaced_def demo_row_def rfc_edit_def edit_of_row_def demo_objects_def operation_of_def attributes_of_def Let_def parts)
  ultimately show ?thesis unfolding demo_rows demo_after_def by (intro ran_through.intros)
qed

lemma demo_plan:
  "undo_problems (rollback_plan (demo_written ''ME2'') 1 None) = []"
  "map_of (undo_expected (rollback_plan (demo_written ''ME2'') 1 None)) (''ME1'', None) = Some (Some [(''txPower'', JInt 43)])"
  by code_simp+

lemma undo_plan_restores_witness:
  "as_before (restored [demo_row, demo_replaced ''ME2'']) demo_objects (fold rfc_edit (undo_changes (rollback_plan (demo_written ''ME2'') 1 None)) demo_after) \<and>
   fold rfc_edit (undo_changes (rollback_plan (demo_written ''ME2'') 1 None)) demo_after (''ME1'', None) = demo_objects (''ME1'', None) \<and>
   differs (''ME1'', None) (Some [(''txPower'', JInt 43)]) [(''txPower'', JInt 43), (''tilt'', JInt 2)] = []"
proof -
  note holds = undo_plan_restores [OF rfc_edit_follows demo_ran demo_plan(1)]
  have one: "\<forall>row \<in> set (undoable_rows (demo_written ''ME2'') 1 None). snap_target row = (''ME1'', None) \<longrightarrow> snap_operation row \<noteq> ''replace''"
    unfolding demo_rows by (simp add: demo_row_def demo_replaced_def snap_target_def)
  have "reads_as demo_after (''ME1'', None) [(''txPower'', JInt 43), (''tilt'', JInt 2)]"
    by (auto simp: demo_after_def reads_as_def rfc_edit_def edit_of_row_def demo_row_def demo_replaced_def demo_objects_def operation_of_def
        attributes_of_def written_def Let_def fun_eq_iff)
  then show ?thesis
    using holds [THEN conjunct1] holds [THEN conjunct2, rule_format, of "(''ME1'', None)"] one demo_plan(2)
    by (simp add: demo_rows [simplified])
qed

text \<open>
  When the replaced object is one the job had changed before, the plan expects an attribute the replace took away: the
  rollback reports a change since, though nobody else wrote.
\<close>

lemma replace_looks_like_a_conflict:
  "undo_problems (rollback_plan (demo_written ''ME1'') 1 None) = [] \<and>
   map diff_attribute (differs (''ME1'', None) (the (map_of (undo_expected (rollback_plan (demo_written ''ME1'') 1 None)) (''ME1'', None)))
     [(''tilt'', JInt 5)]) = [Some ''txPower'']"
  by code_simp

subsection \<open>Where the code and its documentation differ\<close>

text \<open>A job of a stopped rApp that waits between its waves.\<close>

definition demo_paused :: "JobState \<Rightarrow> job_halt option \<Rightarrow> seconds option \<Rightarrow> write_config_job" where
  "demo_paused st why next_at = \<lparr>cm_job_id = 1, config_invoker_id = Some ''rapp-9'', config_rollback_of = None, cm_requested_by = ''planner'',
     cm_scope = ''cells'', cm_validated_at = Some 50, cm_status = st, cm_msac_role = None, cm_forced = False, cm_wave_size = Some 1,
     cm_wave_pause = 60, cm_wave_count = 1, cm_current_wave = 0, cm_max_new_alarms = 0, cm_on_gate_failure = HaltJob, cm_next_wave_at = next_at,
     cm_halted_reason = why, cm_halted_detail = None, cm_created_at = 50, cm_kpi_guard = None, cm_guard_result = None,
     cm_guard_checked_at = None, cm_scheduled_at = None, cm_window_end = None, cm_decided_by = None, cm_decided_at = None, cm_decision_reason = None\<rparr>"

definition demo_waiting :: "write_config_job \<Rightarrow> cm_store" where
  "demo_waiting job = demo_db\<lparr>cm_jobs := [job], sub_changes := [\<lparr>sub_id = 1, sub_job = 1, sub_element = ''ME1'', sub_function = None,
     sub_attributes = [(''txPower'', JInt 43)], sub_operation = ''merge'', sub_status = ''PENDING'', sub_reason = None, sub_detail = None,
     sub_attempts = 0, sub_position = 0, sub_wave = 1\<rparr>]\<rparr>"

text \<open>\<open>kill_rapp\<close> says that such a job does not go on; the sweep of elapsed pauses sends its next wave.\<close>

lemma stopped_rapp_goes_on_by_sweep:
  "length (edits_sent (snd (snd (run_request (serve demo_env AskAdvance) (demo_waiting (demo_paused JobState.HALTED (Some WAVE_PAUSE) (Some 90))) [])))) = 1"
  by code_simp

text \<open>An operator's \<open>continue\<close> of the same job is refused.\<close>

lemma stopped_rapp_not_continued:
  "edits_sent (snd (snd (run_request (serve demo_env (AskContinue (from_user ''alice'') 1 ''alice'' True))
     (demo_waiting (demo_paused JobState.HALTED (Some WAVE_PAUSE) (Some 90))) []))) = []"
  by code_simp

text \<open>An approval that is refused because the rApp is stopped leaves its decider on the job that still waits.\<close>

lemma refused_approval_leaves_decider:
  "map (\<lambda>j. (cm_status j, cm_decided_by j)) (cm_jobs (fst (snd (run_request (serve demo_env (AskApproveJob (from_user ''alice'') 1 None None))
     (demo_waiting (demo_paused PENDING_APPROVAL None None)) [])))) = [(PENDING_APPROVAL, Some ''alice'')]"
  by code_simp

text \<open>An adaptor that answers nothing for the whole timeout of 30, with delays 0 and 5: the dispatch takes 65, the promised worst case is 35.\<close>

definition demo_slow :: o1_environment where
  "demo_slow = demo_env\<lparr>clock := (\<lambda>xs. sum_list (map (\<lambda>x. case x of Slept d \<Rightarrow> d | _ \<Rightarrow> 30) xs)),
     answers_edit := (\<lambda>_ _ _. Refused (Some ''TIMEOUT'') None True)\<rparr>"

lemma worst_case_is_not_the_worst:
  "clock demo_slow (exchanges (snd (dispatch_with_retries demo_slow 1 demo_edit demo_session))) = 65 \<and> worst_case_dispatch_seconds demo_slow 30 = 35"
  by code_simp

end
