(* ===== verification/SmeRegistry.thy ===== *)
theory SmeRegistry
  imports AccessScope Errors
begin

section \<open>The registries of SME\<close>

text \<open>
  The tables of \<open>sme/app/models.py\<close> and the operations of \<open>sme/app/main.py\<close> on providers,
  published services, event subscriptions and trusted invokers. A table is the list of its rows. A
  notification is not sent by a route: \<open>_deliver\<close> adds it to the outbox of the transaction, which
  \<open>event_queue\<close> holds in order. A route that raises leaves the store as it was. Of an AEF profile
  (a JSON object) the parts the code reads are kept.
\<close>

record aef_profile =
  aef_name :: "string option"
  aef_protocol :: "string option"
  aef_data_format :: "string option"
  aef_versions :: "string option list list"

record authz_policy =
  allowed_consumers :: "string list option"
  gates_discovery_visibility :: bool

record service_profile =
  service_id :: uid
  service_name :: string
  producer_id :: string
  service_endpoint :: string
  service_version :: string
  full_api_versions :: "string list"
  service_capabilities :: json
  selection_criteria :: json
  module_scope :: string
  aef_profiles :: "aef_profile list"
  api_supp_feats :: "string option"
  shareable_info :: json
  service_policy :: "authz_policy option"

record provider_registration =
  apf_id :: string
  provider_domain_info :: "string option"

record event_subscription =
  event_subscription_id :: uid
  subscriber_id :: string
  wanted_events :: "string list"
  event_callback :: string
  api_ids :: "string list option"
  api_invoker_ids :: "string list option"
  aef_ids :: "string list option"

record security_info =
  sec_aef :: "string option"
  sec_api :: "string option"
  authentication_info :: "string option"
  authorization_info :: "string option"
  pref_security_methods :: "string list"
  sel_security_method :: string

record trusted_invoker =
  trusted_id :: string
  notification_destination :: string
  request_test_notification :: bool
  security_infos :: "security_info list"

text \<open>What an event is about: the values the filters compare, by key of \<open>eventDetail\<close>.\<close>

record event_detail =
  detail_apis :: "string list option"
  detail_invokers :: "string list option"
  detail_aefs :: "string list option"

record capif_event =
  event_to :: string
  event_for :: uid
  event_name :: string
  event_about :: event_detail

record invoker_registration =
  api_invoker_id :: string
  public_key :: string
  onboarding_secret_hash :: string
  invoker_created_at :: seconds
  last_token_issued_at :: "seconds option"
  invoker_kind :: string
  invoker_claim :: json

record access_token =
  access_token_hash :: string
  token_invoker :: string
  token_expires_at :: seconds
  granted_scope :: "string option"

record used_assertion =
  used_jti :: string
  assertion_invoker :: string
  assertion_expires_at :: seconds

record sme_store =
  providers :: "provider_registration list"
  services :: "service_profile list"
  event_subscriptions :: "event_subscription list"
  trusted_invokers :: "trusted_invoker list"
  invokers :: "invoker_registration list"
  tokens :: "access_token list"
  used_assertions :: "used_assertion list"
  event_queue :: "capif_event list"

definition SERVICE_API_EVENTS :: "string list" where
  "SERVICE_API_EVENTS = [''SERVICE_API_AVAILABLE'', ''SERVICE_API_UNAVAILABLE'', ''SERVICE_API_UPDATE'']"

definition API_INVOKER_EVENTS :: "string list" where
  "API_INVOKER_EVENTS = [''API_INVOKER_ONBOARDED'', ''API_INVOKER_OFFBOARDED'', ''API_INVOKER_UPDATED'']"

definition EVENT_TYPES :: "string list" where
  "EVENT_TYPES = SERVICE_API_EVENTS @ API_INVOKER_EVENTS"

subsection \<open>Who sees a service\<close>

definition visible_to :: "service_profile \<Rightarrow> string \<Rightarrow> bool" where
  "visible_to s i =
     (case service_policy s of None \<Rightarrow> True
      | Some p \<Rightarrow> \<not> gates_discovery_visibility p \<or> (case allowed_consumers p of None \<Rightarrow> True | Some l \<Rightarrow> l = [] \<or> i \<in> set l))"

text \<open>\<open>_aef_ids\<close> is a set; as a list it keeps the order of the profiles.\<close>

definition service_aefs :: "service_profile \<Rightarrow> string list" where
  "service_aefs s = List.map_filter (\<lambda>p. or_none (aef_name p)) (aef_profiles s)"

fun profile_matches :: "string option \<Rightarrow> string option \<Rightarrow> string option \<Rightarrow> string option \<Rightarrow> aef_profile list \<Rightarrow> bool" where
  "profile_matches aef protocol format comm [] = False"
| "profile_matches aef protocol format comm (p # ps) =
     (if aef \<noteq> None \<and> aef_name p \<noteq> aef \<or> protocol \<noteq> None \<and> aef_protocol p \<noteq> protocol \<or>
         format \<noteq> None \<and> aef_data_format p \<noteq> format \<or>
         comm \<noteq> None \<and> comm \<notin> set (concat (aef_versions p))
      then profile_matches aef protocol format comm ps else True)"

definition matches_aef_filters :: "service_profile \<Rightarrow> string option \<Rightarrow> string option \<Rightarrow> string option \<Rightarrow> string option \<Rightarrow> bool" where
  "matches_aef_filters s aef protocol format comm =
     (let a = or_none aef; p = or_none protocol; f = or_none format; c = or_none comm
      in if a = None \<and> p = None \<and> f = None \<and> c = None then True else profile_matches a p f c (aef_profiles s))"

record discovery =
  wanted_name :: "string option"
  wanted_version :: "string option"
  wanted_aef :: "string option"
  wanted_protocol :: "string option"
  wanted_format :: "string option"
  wanted_comm :: "string option"

definition column_is :: "string option \<Rightarrow> string \<Rightarrow> bool" where
  "column_is wanted v = (case or_none wanted of None \<Rightarrow> True | Some w \<Rightarrow> v = w)"

definition discover_services :: "string \<Rightarrow> discovery \<Rightarrow> sme_store \<Rightarrow> service_profile list" where
  "discover_services i q st =
     (let rows = filter (\<lambda>s. column_is (wanted_name q) (service_name s) \<and> column_is (wanted_version q) (service_version s)) (services st)
      in filter (\<lambda>s. matches_aef_filters s (wanted_aef q) (wanted_protocol q) (wanted_format q) (wanted_comm q) \<and> visible_to s i) rows)"

subsection \<open>Events\<close>

fun shares :: "string list option \<Rightarrow> string list option \<Rightarrow> bool" where
  "shares wanted carried =
     (case wanted of None \<Rightarrow> True
      | Some ws \<Rightarrow> ws = [] \<or> list_ex (\<lambda>w. w \<in> set (case carried of None \<Rightarrow> [] | Some cs \<Rightarrow> cs)) ws)"

definition filters_match :: "event_subscription \<Rightarrow> event_detail \<Rightarrow> bool" where
  "filters_match sub d =
     (shares (api_ids sub) (detail_apis d) \<and> shares (api_invoker_ids sub) (detail_invokers d) \<and> shares (aef_ids sub) (detail_aefs d))"

definition deliver :: "string \<Rightarrow> event_detail \<Rightarrow> (event_subscription \<Rightarrow> bool) \<Rightarrow> sme_store \<Rightarrow> sme_store" where
  "deliver name d seen st =
     st\<lparr>event_queue := event_queue st @
        map (\<lambda>sub. \<lparr>event_to = event_callback sub, event_for = event_subscription_id sub, event_name = name, event_about = d\<rparr>)
            (filter (\<lambda>sub. name \<in> set (wanted_events sub) \<and> filters_match sub d \<and> seen sub) (event_subscriptions st))\<rparr>"

text \<open>\<open>sorted(_aef_ids(service))\<close>: the set, in order.\<close>

definition notify_service_change :: "service_profile \<Rightarrow> string \<Rightarrow> sme_store \<Rightarrow> sme_store" where
  "notify_service_change s name =
     deliver name \<lparr>detail_apis = Some [str (service_id s)], detail_invokers = None, detail_aefs = Some (sort (remdups (service_aefs s)))\<rparr>
       (\<lambda>sub. visible_to s (subscriber_id sub))"

definition notify_invoker_change :: "string \<Rightarrow> string \<Rightarrow> sme_store \<Rightarrow> sme_store" where
  "notify_invoker_change i name =
     deliver name \<lparr>detail_apis = None, detail_invokers = Some [i], detail_aefs = None\<rparr> (\<lambda>sub. True)"

record event_request =
  asked_events :: "string list"
  asked_callback :: string
  asked_apis :: "string list option"
  asked_invokers :: "string list option"
  asked_aefs :: "string list option"

definition subscribe_events :: "string \<Rightarrow> event_request \<Rightarrow> sme_store \<Rightarrow> http_error + uid \<times> sme_store" where
  "subscribe_events i req st =
     (if \<not> set (asked_events req) \<subseteq> set EVENT_TYPES then Inl SUBSCRIPTION_SCOPE_CONFLICT
      else let new = fresh_id (map event_subscription_id (event_subscriptions st))
           in Inr (new, st\<lparr>event_subscriptions := event_subscriptions st @
                [\<lparr>event_subscription_id = new, subscriber_id = i, wanted_events = asked_events req, event_callback = asked_callback req,
                  api_ids = asked_apis req, api_invoker_ids = asked_invokers req, aef_ids = asked_aefs req\<rparr>]\<rparr>))"

definition unsubscribe_events :: "string \<Rightarrow> uid \<Rightarrow> sme_store \<Rightarrow> sme_store" where
  "unsubscribe_events i n st =
     (case row_where (\<lambda>s. event_subscription_id s = n) (event_subscriptions st) of
        None \<Rightarrow> st
      | Some sub \<Rightarrow> if subscriber_id sub = i
                    then st\<lparr>event_subscriptions := delete_where (\<lambda>s. event_subscription_id s = n) (event_subscriptions st)\<rparr> else st)"

subsection \<open>Providers and the services they publish\<close>

definition get_provider :: "sme_store \<Rightarrow> string \<Rightarrow> provider_registration option" where
  "get_provider st i = row_where (\<lambda>p. apf_id p = i) (providers st)"

definition register_provider :: "string \<Rightarrow> string option \<Rightarrow> sme_store \<Rightarrow> sme_store" where
  "register_provider i info st =
     (case get_provider st i of
        None \<Rightarrow> st\<lparr>providers := providers st @ [\<lparr>apf_id = i, provider_domain_info = info\<rparr>]\<rparr>
      | Some _ \<Rightarrow> st\<lparr>providers := update_where (\<lambda>p. apf_id p = i) (\<lambda>p. p\<lparr>provider_domain_info := info\<rparr>) (providers st)\<rparr>)"

definition deregister_provider :: "string \<Rightarrow> sme_store \<Rightarrow> sme_store" where
  "deregister_provider i st = st\<lparr>providers := delete_where (\<lambda>p. apf_id p = i) (providers st)\<rparr>"

record service_request =
  asked_name :: string
  asked_endpoint :: string
  asked_version :: string
  asked_full_versions :: "string list"
  asked_capabilities :: json
  asked_criteria :: json
  asked_module :: string
  asked_consumers :: "string list"
  asked_profiles :: "aef_profile list"
  asked_feats :: "string option"
  asked_shareable :: json

definition service_named :: "sme_store \<Rightarrow> string \<Rightarrow> service_profile option" where
  "service_named st n = row_where (\<lambda>s. service_name s = n) (services st)"

text \<open>The row of the request, under the id and with the policy it already had.\<close>

definition profile_of :: "uid \<Rightarrow> string \<Rightarrow> service_request \<Rightarrow> authz_policy option \<Rightarrow> service_profile" where
  "profile_of n apf req old =
     \<lparr>service_id = n, service_name = asked_name req, producer_id = apf, service_endpoint = asked_endpoint req,
      service_version = asked_version req, full_api_versions = asked_full_versions req,
      service_capabilities = asked_capabilities req, selection_criteria = asked_criteria req,
      module_scope = asked_module req, aef_profiles = asked_profiles req, api_supp_feats = asked_feats req,
      shareable_info = asked_shareable req,
      service_policy = Some (case old of
          None \<Rightarrow> \<lparr>allowed_consumers = Some (asked_consumers req), gates_discovery_visibility = True\<rparr>
        | Some p \<Rightarrow> p\<lparr>allowed_consumers := Some (asked_consumers req)\<rparr>)\<rparr>"

definition register_service :: "string \<Rightarrow> service_request \<Rightarrow> sme_store \<Rightarrow> http_error + uid \<times> sme_store" where
  "register_service apf req st =
     (if get_provider st apf = None then Inl APF_NOT_REGISTERED
      else case service_named st (asked_name req) of
        Some old \<Rightarrow>
          if producer_id old \<noteq> apf then Inl SERVICE_NAME_CONFLICT
          else let new = profile_of (service_id old) apf req (service_policy old);
                   st' = st\<lparr>services := update_where (\<lambda>s. service_id s = service_id old) (\<lambda>_. new) (services st)\<rparr>
               in Inr (service_id new, notify_service_change new ''SERVICE_API_UPDATE'' st')
      | None \<Rightarrow>
          let new = profile_of (fresh_id (map service_id (services st))) apf req None
          in Inr (service_id new, notify_service_change new ''SERVICE_API_AVAILABLE'' (st\<lparr>services := services st @ [new]\<rparr>)))"

definition deregister_service :: "string \<Rightarrow> uid \<Rightarrow> sme_store \<Rightarrow> sme_store" where
  "deregister_service apf n st =
     (case row_where (\<lambda>s. service_id s = n) (services st) of
        None \<Rightarrow> st
      | Some s \<Rightarrow>
          if producer_id s = apf
          then let st' = notify_service_change s ''SERVICE_API_UNAVAILABLE'' st
               in st'\<lparr>services := delete_where (\<lambda>s. service_id s = n) (services st')\<rparr>
          else st)"

definition query_own_services :: "string \<Rightarrow> sme_store \<Rightarrow> http_error + service_profile list" where
  "query_own_services apf st =
     (let rows = filter (\<lambda>s. producer_id s = apf) (services st)
      in if rows = [] \<and> get_provider st apf = None then Inl PUBLISHING_FUNCTION_NOT_FOUND else Inr rows)"

end
