(* ===== verification/Roles.thy ===== *)
theory Roles
  imports AccessScope
begin

section \<open>What an rApp may call\<close>

text \<open>
  The two route lists of \<open>shared/smo_shared/roles.py\<close>, the exemptions of the gateway's kill switch
  (\<open>shared/smo_shared/killswitch.py\<close>) and the path test of \<open>r1-termination/app/main.py\<close>.
  The regular expressions of the lists are values of a small type of patterns: literal text, one segment
  (\<open>[^/]+\<close>), sequence, choice and an optional part; \<open>remainders\<close> gives what is left of the text
  after each way a pattern can match a prefix of it. Every pattern of the code starts with \<open>^\<close> and ends
  with \<open>$\<close>, which also matches before a trailing newline: \<open>full_match\<close> is \<open>re.fullmatch\<close>,
  \<open>match_dollar\<close> is \<open>re.match\<close>.
\<close>

subsection \<open>Path patterns\<close>

datatype pattern = Lit string | Segment | Then pattern pattern | Or pattern pattern | Maybe pattern

fun segment_remainders :: "string \<Rightarrow> string list" where
  "segment_remainders [] = []"
| "segment_remainders (c # s) = (if c = CHR ''/'' then [] else s # segment_remainders s)"

fun remainders :: "pattern \<Rightarrow> string \<Rightarrow> string list" where
  "remainders (Lit l) s = (if prefix l s then [drop (length l) s] else [])"
| "remainders Segment s = segment_remainders s"
| "remainders (Then p q) s = concat (map (remainders q) (remainders p s))"
| "remainders (Or p q) s = remainders p s @ remainders q s"
| "remainders (Maybe p) s = remainders p s @ [s]"

definition full_match :: "pattern \<Rightarrow> string \<Rightarrow> bool" where
  "full_match p s \<longleftrightarrow> [] \<in> set (remainders p s)"

definition match_dollar :: "pattern \<Rightarrow> string \<Rightarrow> bool" where
  "match_dollar p s \<longleftrightarrow> [] \<in> set (remainders p s) \<or> [CHR 0x0A] \<in> set (remainders p s)"

fun one_of :: "string list \<Rightarrow> pattern" where
  "one_of [] = Lit []"
| "one_of [l] = Lit l"
| "one_of (l # ls) = Or (Lit l) (one_of ls)"

text \<open>\<open>text\<close>, then one segment, then \<open>text\<close>.\<close>

definition around :: "string \<Rightarrow> string \<Rightarrow> pattern" where
  "around l r = Then (Lit l) (Then Segment (Lit r))"

subsection \<open>The lists\<close>

definition INTERNAL_SCOPES :: "string list" where "INTERNAL_SCOPES = [''smo-internal'', ''smo-gui'']"
definition RAPP_SCOPE :: string where "RAPP_SCOPE = ''smo-rapp''"
definition CHANGES :: "string list" where "CHANGES = [''POST'', ''PUT'', ''PATCH'', ''DELETE'']"

definition INTERNAL_ONLY :: "(string \<times> string list \<times> pattern) list" where
  "INTERNAL_ONLY =
    [(''/ran-nf-oam'', [''PUT'', ''DELETE''], around ''/rapp-limits/'' ''''),
     (''/ran-nf-oam'', [''PUT'', ''DELETE''], around ''/kpi-definitions/'' ''''),
     (''/ran-nf-oam'', [''POST''], Lit ''/config-history/purge''),
     (''/ran-nf-oam'', [''PUT'', ''DELETE''], around ''/rapp-kill/'' ''''),
     (''/ran-nf-oam'', [''GET''], Lit ''/rapp-kill''),
     (''/rapp-mgmt'', [''PUT'', ''DELETE''], around ''/instances/'' ''/kill''),
     (''/rapp-mgmt'', [''PUT'', ''DELETE'', ''GET''], Lit ''/kill-all''),
     (''/ran-nf-oam'', [''POST''], Lit ''/kpi-definitions/standard''),
     (''/ran-nf-oam'', [''POST''], around ''/kpis/'' ''/publish''),
     (''/ran-nf-oam'', [''GET'', ''POST'', ''DELETE''], Then (Lit ''/safeguard-subscriptions'') (Maybe (around ''/'' ''''))),
     (''/ran-nf-oam'', [''GET''], Lit ''/safeguard-refusals''),
     (''/ran-nf-oam'', [''POST''], Lit ''/safeguard-refusals/purge''),
     (''/ran-nf-oam'', [''PUT'', ''DELETE''], around ''/kpi-schedules/'' ''''),
     (''/ran-nf-oam'', [''PUT'', ''DELETE''], around ''/rapp-approval-policy/'' ''''),
     (''/ran-nf-oam'', [''POST''], Then (Lit ''/rapp-approvals/'')
         (Or (Then Segment (Then (Lit ''/'') (one_of [''approve'', ''reject'']))) (Lit ''expire-due''))),
     (''/ran-nf-oam'', [''GET''], Lit ''/rapp-approvals''),
     (''/ran-nf-oam'', [''GET'', ''POST'', ''DELETE''], Then (Lit ''/approval-subscriptions'') (Maybe (around ''/'' ''''))),
     (''/ran-nf-oam'', [''GET'', ''POST'', ''DELETE''], Then (Lit ''/lifecycle-subscriptions'') (Maybe (around ''/'' ''''))),
     (''/ran-nf-oam'', [''GET''], Then (Lit ''/decision-records'') (Maybe (Lit ''/export.csv''))),
     (''/sme'', [''PUT''], around ''/invoker-registrations/'' ''/authz-scope''),
     (''/ran-nf-oam'', [''PUT''], around ''/managed-entities/'' ''/scope'')]"

text \<open>\<open>None\<close> as the rules of a module allows every change there.\<close>

definition RAPP_MAY_CHANGE :: "(string \<times> (string list \<times> pattern) list option) list" where
  "RAPP_MAY_CHANGE =
    [(''/sme'', Some
       [([''POST''], Then (Lit ''/'') (Or (one_of [''provider-registrations'', ''invoker-registrations''])
                                         (Then (Lit ''oauth2/'') (one_of [''token'', ''introspect''])))),
        ([''DELETE''], around ''/provider-registrations/'' ''''),
        ([''POST''], around ''/published-apis/v1/'' ''/service-apis''),
        ([''DELETE''], Then (around ''/published-apis/v1/'' ''/service-apis/'') Segment),
        ([''POST''], around ''/capif-events/v1/'' ''/subscriptions''),
        ([''DELETE''], Then (around ''/capif-events/v1/'' ''/subscriptions/'') Segment)]),
     (''/dme'', Some
       [([''POST''], Then (Lit ''/'') (one_of [''actions'', ''production-capabilities'', ''data-jobs'', ''offers'', ''type-subscriptions''])),
        ([''DELETE''], Then (Lit ''/'') (one_of [''production-capabilities'', ''data-jobs''])),
        ([''PUT'', ''DELETE''], around ''/data-jobs/'' ''''),
        ([''POST''], around ''/data-jobs/'' ''/records''),
        ([''DELETE''], Then (Lit ''/'') (Then (one_of [''dme-types'', ''offers'', ''type-subscriptions'']) (around ''/'' ''''))),
        ([''POST''], around ''/offers/'' ''/notify'')]),
     (''/aimgf'', Some
       [([''POST''], Then (Lit ''/'') (Or (one_of [''training-jobs'', ''validation-jobs'', ''emulation-jobs'', ''feature-groups'', ''mlmf/subscriptions''])
           (Or (Then (Lit ''ml-'') (Then (one_of [''training'', ''testing'', ''update'', ''model-loading'']) (Lit ''-requests'')))
               (Lit ''aiml-inference-reports'')))),
        ([''DELETE''], Then (Lit ''/'') (Then (one_of [''training-jobs'', ''feature-groups'', ''mlmf/subscriptions'', ''ml-training-requests'']) (around ''/'' ''''))),
        ([''PATCH''], Then (Lit ''/ml-'') (Then (one_of [''training'', ''testing'', ''update'', ''model-loading'']) (around ''-requests/'' ''''))),
        ([''POST''], Then (around ''/training-jobs/'' ''/'') (one_of [''suspend'', ''resume'', ''progress'', ''model-metrics'', ''complete''])),
        ([''POST''], Then (Lit ''/'') (Then (one_of [''validation'', ''emulation'']) (around ''-jobs/'' ''/complete''))),
        ([''POST''], around ''/mlmf/subscriptions/'' ''/reports''),
        ([''POST''], Then (around ''/models/'' ''/'') (one_of [''advance'', ''inference-jobs'', ''runtime/deploy'', ''runtime/activate''])),
        ([''POST''], around ''/inference-jobs/'' ''/resolve'')]),
     (''/mlmr'', Some
       [([''POST''], Then (Lit ''/'') (one_of [''models'', ''coordination-groups''])),
        ([''PUT'', ''DELETE''], around ''/models/'' ''''),
        ([''POST''], around ''/models/'' ''/artifact''),
        ([''PATCH''], around ''/models/'' ''/phase-info'')]),
     (''/mllf'', Some [([''POST''], around ''/models/'' ''/deploy'')]),
     (''/rapp-mgmt'', Some
       [([''PUT'', ''DELETE''], around ''/instances/'' ''/operator-api''),
        ([''POST''], Then (around ''/instances/'' ''/'') (one_of [''bootstrap-complete'', ''performance'']))]),
     (''/mdaf'', Some
       [([''POST''], Then (Lit ''/'') (one_of [''subscriptions'', ''mda-requests'', ''mda-reports'', ''reports''])),
        ([''DELETE''], Then (Lit ''/'') (Then (one_of [''subscriptions'', ''mda-requests'']) (around ''/'' '''')))]),
     (''/intent-service'', Some
       [([''POST''], Then (Lit ''/'') (one_of [''intents'', ''intent-reports'', ''intent-handling-functions'', ''autonomy-dispatches''])),
        ([''DELETE''], Then (Lit ''/'') (Then (one_of [''intents'', ''intent-handling-functions'']) (around ''/'' ''''))),
        ([''PATCH''], around ''/intents/'' ''/admin-state''),
        ([''POST''], around ''/intents/'' ''/negotiation-feedback''),
        ([''POST''], Then (around ''/autonomy-dispatches/'' ''/'') (one_of [''resolve'', ''reject'']))]),
     (''/ran-nf-oam'', Some
       [([''POST''], Lit ''/config-jobs''),
        ([''POST''], around ''/config-jobs/'' ''/rollback'')]),
     (''/ran-analytics'', None),
     (''/dme-push'', None),
     (''/dme-pull'', None)]"

text \<open>\<open>'/' + path.lstrip('/')\<close>.\<close>

definition rooted :: "string \<Rightarrow> string" where
  "rooted path = CHR ''/'' # dropWhile (\<lambda>c. c = CHR ''/'') path"

definition rapp_may_change :: "string \<Rightarrow> string \<Rightarrow> string \<Rightarrow> bool" where
  "rapp_may_change module meth path =
     (if upper meth \<notin> set CHANGES then True
      else case map_of RAPP_MAY_CHANGE module of
             None \<Rightarrow> False
           | Some None \<Rightarrow> True
           | Some (Some rules) \<Rightarrow> list_ex (\<lambda>(methods, p). upper meth \<in> set methods \<and> full_match p (rooted path)) rules)"

definition internal_only :: "string \<Rightarrow> string \<Rightarrow> string \<Rightarrow> bool" where
  "internal_only module meth path =
     list_ex (\<lambda>(m, methods, p). m = module \<and> upper meth \<in> set methods \<and> match_dollar p (rooted path)) INTERNAL_ONLY"

definition enforcement_mode :: "string option \<Rightarrow> string" where
  "enforcement_mode setting =
     (let mode = lower (strip (case setting of None \<Rightarrow> ''enforce'' | Some s \<Rightarrow> s))
      in if mode = ''enforce'' \<or> mode = ''audit'' then mode else ''enforce'')"

definition enrollment_secret_valid :: "string option \<Rightarrow> string \<Rightarrow> bool" where
  "enrollment_secret_valid presented expected =
     (case presented of None \<Rightarrow> False | Some p \<Rightarrow> p \<noteq> [] \<and> expected \<noteq> [] \<and> p = expected)"

subsection \<open>What the kill switch does not stop\<close>

definition EXEMPT :: "(string \<times> string \<times> pattern) list" where
  "EXEMPT =
    [(''POST'', ''/sme'', Then (Lit ''/oauth2/'') (one_of [''token'', ''introspect''])),
     (''POST'', ''/ran-nf-oam'', around ''/config-jobs/'' ''/rollback''),
     (''POST'', ''/ran-nf-oam'', Lit ''/config-jobs'')]"

definition kill_enforced :: "string option \<Rightarrow> bool" where
  "kill_enforced setting =
     (lower (strip (case setting of None \<Rightarrow> ''on'' | Some s \<Rightarrow> s)) \<notin> {''off'', ''false'', ''0'', ''no''})"

definition exempt :: "string \<Rightarrow> string \<Rightarrow> string \<Rightarrow> bool" where
  "exempt module meth path =
     (if upper meth = ''DELETE'' then True
      else list_ex (\<lambda>(m, place, p). m = upper meth \<and> place = module \<and> full_match p (rooted path)) EXEMPT)"

subsection \<open>Paths in resolved form\<close>

text \<open>\<open>parts[-1] == ''\<close> drops one trailing empty part.\<close>

definition without_trailing :: "string list \<Rightarrow> string list" where
  "without_trailing parts = (if parts \<noteq> [] \<and> last parts = [] then butlast parts else parts)"

definition path_problem :: "string \<Rightarrow> bool" where
  "path_problem rest =
     (CHR 0x5C \<in> set rest \<or> CHR 0x00 \<in> set rest \<or>
      list_ex (\<lambda>part. part \<in> {[], ''.'', ''..''}) (without_trailing (split_on CHR ''/'' rest)))"

definition remove_suffix :: "string \<Rightarrow> string \<Rightarrow> string" where
  "remove_suffix tail s = (if tail \<noteq> [] \<and> suffix tail s then take (length s - length tail) s else s)"

subsection \<open>The two lists do not meet\<close>

text \<open>Text every match of a pattern starts with, and ends with.\<close>

fun first_text :: "pattern \<Rightarrow> string" where
  "first_text (Lit l) = l"
| "first_text (Then (Lit l) q) = l @ first_text q"
| "first_text (Then p q) = first_text p"
| "first_text _ = []"

fun last_text :: "pattern \<Rightarrow> string" where
  "last_text (Lit l) = l"
| "last_text (Then p q) = last_text q"
| "last_text _ = []"

lemma segment_remainders_suffix: "r \<in> set (segment_remainders s) \<Longrightarrow> suffix r s"
  by (induction s) (auto simp: suffix_ConsI split: if_splits)

lemma remainders_suffix: "r \<in> set (remainders p s) \<Longrightarrow> suffix r s"
proof (induction p arbitrary: r s)
  case (Lit l)
  then show ?case by (auto simp: suffix_drop split: if_splits)
next
  case (Then p q)
  then show ?case by simp (meson suffix_order.trans)
qed (auto simp: segment_remainders_suffix)

lemma first_text_prefix: "r \<in> set (remainders p s) \<Longrightarrow> prefix (first_text p) s"
proof (induction p arbitrary: r s rule: first_text.induct)
  case (2 l q)
  then show ?case by (auto simp: prefix_def split: if_splits)
qed (auto simp: prefix_def split: if_splits)

lemma last_text_suffix: "r \<in> set (remainders p s) \<Longrightarrow> suffix (last_text p @ r) s"
proof (induction p arbitrary: r s rule: last_text.induct)
  case (1 l)
  then show ?case by (auto simp: prefix_def split: if_splits)
next
  case (2 p q)
  then obtain s' where s': "s' \<in> set (remainders p s)" "r \<in> set (remainders q s')" by auto
  show ?case
    using suffix_order.trans [OF 2(1) [OF s'(2)] remainders_suffix [OF s'(1)]] by simp
qed (auto intro: remainders_suffix segment_remainders_suffix)

definition incomparable :: "string \<Rightarrow> string \<Rightarrow> bool" where
  "incomparable u v \<longleftrightarrow> \<not> suffix u v \<and> \<not> suffix v u"

definition apart :: "pattern \<Rightarrow> pattern \<Rightarrow> bool" where
  "apart p q \<longleftrightarrow>
     incomparable (rev (first_text p)) (rev (first_text q)) \<or>
     incomparable (last_text p) (last_text q) \<and> incomparable (last_text p) (last_text q @ [CHR 0x0A])"

lemma incomparable_suffixes: "incomparable u v \<Longrightarrow> suffix u s \<Longrightarrow> \<not> suffix v s"
  using suffix_same_cases [of u s v] by (auto simp: incomparable_def)

lemma apart_no_match: "apart p q \<Longrightarrow> full_match p s \<Longrightarrow> \<not> match_dollar q s"
proof
  assume apart: "apart p q" and p: "full_match p s" and q: "match_dollar q s"
  obtain r where r: "r \<in> set (remainders q s)" "r = [] \<or> r = [CHR 0x0A]" using q by (auto simp: match_dollar_def)
  have p': "[] \<in> set (remainders p s)" using p by (simp add: full_match_def)
  show False
    using apart first_text_prefix [OF p'] first_text_prefix [OF r(1)] last_text_suffix [OF p'] last_text_suffix [OF r(1)] r(2)
    by (auto simp: apart_def suffix_to_prefix dest: incomparable_suffixes [of _ _ "rev s"] incomparable_suffixes [of _ _ s])
qed

definition lists_apart :: bool where
  "lists_apart \<longleftrightarrow>
     list_all (\<lambda>(module, rules).
       list_all (\<lambda>(m, denied, q). m = module \<longrightarrow>
         (case rules of None \<Rightarrow> False
          | Some rs \<Rightarrow> list_all (\<lambda>(methods, p). (\<forall>x \<in> set methods. x \<notin> set denied) \<or> apart p q) rs)) INTERNAL_ONLY)
       RAPP_MAY_CHANGE"

lemma lists_apart: lists_apart
  by code_simp

lemma allowed_change_not_internal:
  assumes "rapp_may_change module meth path" "upper meth \<in> set CHANGES"
  shows "\<not> internal_only module meth path"
proof
  assume "internal_only module meth path"
  then obtain denied q where q: "(module, denied, q) \<in> set INTERNAL_ONLY" "upper meth \<in> set denied" "match_dollar q (rooted path)"
    by (auto simp: internal_only_def list_ex_iff)
  obtain rules where rules: "map_of RAPP_MAY_CHANGE module = Some rules"
    using assms by (auto simp: rapp_may_change_def split: option.splits if_splits)
  have ok: "case rules of None \<Rightarrow> False
      | Some rs \<Rightarrow> list_all (\<lambda>(methods, p). (\<forall>x \<in> set methods. x \<notin> set denied) \<or> apart p q) rs"
    using lists_apart map_of_SomeD [OF rules] q(1) unfolding lists_apart_def list_all_iff by fastforce
  then obtain rs where rs: "rules = Some rs" by (cases rules) auto
  obtain methods p where p: "(methods, p) \<in> set rs" "upper meth \<in> set methods" "full_match p (rooted path)"
    using assms rules rs by (auto simp: rapp_may_change_def list_ex_iff)
  then have "apart p q" using ok rs q(2) by (fastforce simp: list_all_iff)
  then show False using apart_no_match p(3) q(3) by blast
qed

end
