(* ===== verification/SmeTokens.thy ===== *)
theory SmeTokens
  imports SmeRegistry Roles
begin

section \<open>Invokers and their tokens\<close>

text \<open>
  The invoker and trusted-invoker registries and the two OAuth2 routes of \<open>sme/app/main.py\<close>. What the
  service takes from libraries is a parameter: \<open>load_pem\<close> is \<open>load_pem_public_key\<close>,
  \<open>assertion_failure\<close> is what \<open>jwt.decode\<close> finds wrong with an assertion under a key and a clock
  (\<open>None\<close>: nothing) and \<open>claims_of\<close> the claims inside it; \<open>scrypt\<close> (hex salt, secret, hex
  digest) and \<open>sha256\<close> are the digests of \<open>hashlib\<close>. Random values (\<open>uuid4\<close>,
  \<open>token_urlsafe\<close>, \<open>token_bytes\<close>) are arguments. A refused request rolls back: the store is as before.
\<close>

record assertion_claims =
  claim_iss :: string
  claim_sub :: string
  claim_exp :: seconds
  claim_jti :: string

record 'k crypto =
  load_pem :: "string \<Rightarrow> 'k option"
  assertion_failure :: "'k \<Rightarrow> seconds \<Rightarrow> string \<Rightarrow> string option"
  claims_of :: "string \<Rightarrow> assertion_claims"
  scrypt :: "string \<Rightarrow> string \<Rightarrow> string"
  sha256 :: "string \<Rightarrow> string"

definition ACCESS_TOKEN_TTL_SECONDS :: seconds where "ACCESS_TOKEN_TTL_SECONDS = 3600"
definition GRANTED_AS_GIVEN :: "string list" where "GRANTED_AS_GIVEN = INTERNAL_SCOPES @ [RAPP_SCOPE]"
definition CAPIF_SCOPE_PREFIX :: string where "CAPIF_SCOPE_PREFIX = ''3gpp#''"
definition CLIENT_ASSERTION_TYPE :: string where
  "CLIENT_ASSERTION_TYPE = ''urn:ietf:params:oauth:client-assertion-type:jwt-bearer''"
definition MAX_ASSERTION_LIFETIME_SECONDS :: seconds where "MAX_ASSERTION_LIFETIME_SECONDS = 300"

text \<open>\<open>datetime.fromtimestamp\<close> raises for a moment after the year 9999.\<close>

definition LAST_TIMESTAMP :: seconds where "LAST_TIMESTAMP = 253402300799"

definition get_invoker :: "sme_store \<Rightarrow> string \<Rightarrow> invoker_registration option" where
  "get_invoker st i = row_where (\<lambda>r. api_invoker_id r = i) (invokers st)"

definition get_trusted :: "sme_store \<Rightarrow> string \<Rightarrow> trusted_invoker option" where
  "get_trusted st i = row_where (\<lambda>t. trusted_id t = i) (trusted_invokers st)"

definition get_token :: "sme_store \<Rightarrow> string \<Rightarrow> access_token option" where
  "get_token st h = row_where (\<lambda>t. access_token_hash t = h) (tokens st)"

subsection \<open>Secrets and keys\<close>

definition hash_secret :: "'k crypto \<Rightarrow> string \<Rightarrow> string \<Rightarrow> string" where
  "hash_secret c salt secret = salt @ CHR '':'' # scrypt c salt secret"

definition verify_secret :: "'k crypto \<Rightarrow> string \<Rightarrow> string \<Rightarrow> py_error + bool" where
  "verify_secret c secret stored =
     (case split_on CHR '':'' stored of
        [salt, digest] \<Rightarrow> Inr (scrypt c salt secret = digest)
      | _ \<Rightarrow> Inl (ValueError ''not salt and digest''))"

definition looks_like_pem :: "string \<Rightarrow> bool" where
  "looks_like_pem v = prefix ''-----BEGIN'' (dropWhile blank v)"

definition pem_public_key :: "'k crypto \<Rightarrow> string \<Rightarrow> 'k option" where
  "pem_public_key c v = (if looks_like_pem v then load_pem c v else None)"

definition check_public_key :: "'k crypto \<Rightarrow> string \<Rightarrow> http_error + unit" where
  "check_public_key c v =
     (if looks_like_pem v \<and> pem_public_key c v = None then Inl SECURITY_CONTEXT_INVALID else Inr ())"

definition checked_scope :: "json \<Rightarrow> http_error + json" where
  "checked_scope v = (case from_claim v of Inl _ \<Rightarrow> Inl AUTHZ_SCOPE_INVALID | Inr s \<Rightarrow> Inr (to_claim s))"

subsection \<open>Invokers\<close>

text \<open>The settings SME reads: the enrollment secret (\<open>read_secret\<close>), open enrollment, the role enforcement.\<close>

record sme_settings =
  enrollment_secret :: "string option"
  open_enrollment :: "string option"
  role_enforcement :: "string option"

definition enrolled :: "sme_settings \<Rightarrow> string option \<Rightarrow> http_error + string" where
  "enrolled cfg presented =
     (case or_none (enrollment_secret cfg) of
        None \<Rightarrow>
          if lower (strip (case open_enrollment cfg of None \<Rightarrow> '''' | Some v \<Rightarrow> v)) \<in> {''1'', ''true'', ''yes'', ''on''}
          then Inr ROLE_INTERNAL else Inl ENROLLMENT_NOT_CONFIGURED
      | Some expected \<Rightarrow>
          if presented = None then Inr ROLE_RAPP
          else if \<not> enrollment_secret_valid presented expected then Inl ENROLLMENT_REFUSED
          else Inr ROLE_INTERNAL)"

text \<open>The claim a new invoker gets from the claim it asks for and the scope of the caller that registers it.\<close>

definition handed_claim :: "scope option \<Rightarrow> json \<Rightarrow> http_error + json" where
  "handed_claim caller claim =
     (case caller of None \<Rightarrow> Inr claim
      | Some s \<Rightarrow>
          if regions s = Some {} \<or> tenants s = Some {} then Inl SCOPE_DENIED
          else if claim \<noteq> JNull \<and> \<not> covers caller (case from_claim claim of Inl _ \<Rightarrow> None | Inr w \<Rightarrow> w) then Inl SCOPE_DENIED
          else Inr (if claim \<noteq> JNull then claim else to_claim caller))"

record onboarding_request =
  asked_key :: string
  asked_scope :: json

record onboarded =
  new_invoker :: string
  new_secret :: string
  new_role :: string
  key_authentication :: bool
  new_claim :: json

definition register_invoker :: "'k crypto \<Rightarrow> sme_settings \<Rightarrow> seconds \<Rightarrow> string \<times> string \<times> string \<Rightarrow> scope option \<Rightarrow> string option \<Rightarrow>
    onboarding_request \<Rightarrow> sme_store \<Rightarrow> http_error + onboarded \<times> sme_store" where
  "register_invoker c cfg now random caller presented req st =
     (case random of (uuid, secret, salt) \<Rightarrow>
      and_then (check_public_key c (asked_key req)) (\<lambda>_.
      and_then (checked_scope (asked_scope req)) (\<lambda>asked.
      and_then (handed_claim caller asked) (\<lambda>claim.
      and_then (enrolled cfg presented) (\<lambda>kind.
        let i = ''api-invoker-'' @ uuid;
            row = \<lparr>api_invoker_id = i, public_key = asked_key req, onboarding_secret_hash = hash_secret c salt secret,
                   invoker_created_at = now, last_token_issued_at = None, invoker_kind = kind, invoker_claim = claim\<rparr>
        in if get_invoker st i \<noteq> None then Inl (Unhandled ''IntegrityError'')
           else Inr (\<lparr>new_invoker = i, new_secret = secret, new_role = kind,
                       key_authentication = (pem_public_key c (asked_key req) \<noteq> None), new_claim = claim\<rparr>,
                     notify_invoker_change i ''API_INVOKER_ONBOARDED'' (st\<lparr>invokers := invokers st @ [row]\<rparr>)))))))"

definition update_invoker :: "'k crypto \<Rightarrow> string \<Rightarrow> string \<Rightarrow> sme_store \<Rightarrow> http_error + sme_store" where
  "update_invoker c i key st =
     (if get_invoker st i = None then Inl INVOKER_NOT_REGISTERED
      else and_then (check_public_key c key) (\<lambda>_.
        Inr (notify_invoker_change i ''API_INVOKER_UPDATED''
          (st\<lparr>invokers := update_where (\<lambda>r. api_invoker_id r = i) (\<lambda>r. r\<lparr>public_key := key\<rparr>) (invokers st)\<rparr>))))"

definition set_invoker_authz_scope :: "string \<Rightarrow> json \<Rightarrow> sme_store \<Rightarrow> http_error + sme_store" where
  "set_invoker_authz_scope i v st =
     (if get_invoker st i = None then Inl INVOKER_NOT_REGISTERED
      else and_then (checked_scope v) (\<lambda>claim.
        Inr (notify_invoker_change i ''API_INVOKER_UPDATED''
          (st\<lparr>invokers := update_where (\<lambda>r. api_invoker_id r = i) (\<lambda>r. r\<lparr>invoker_claim := claim\<rparr>) (invokers st)\<rparr>))))"

definition offboard :: "string \<Rightarrow> sme_store \<Rightarrow> sme_store" where
  "offboard i st =
     notify_invoker_change i ''API_INVOKER_OFFBOARDED''
       (st\<lparr>tokens := delete_where (\<lambda>t. token_invoker t = i) (tokens st),
           trusted_invokers := delete_where (\<lambda>t. trusted_id t = i) (trusted_invokers st),
           invokers := delete_where (\<lambda>r. api_invoker_id r = i) (invokers st)\<rparr>)"

definition offboard_invoker :: "string \<Rightarrow> sme_store \<Rightarrow> sme_store" where
  "offboard_invoker i st = (if get_invoker st i = None then st else offboard i st)"

definition stale_invokers :: "seconds \<Rightarrow> int \<Rightarrow> sme_store \<Rightarrow> string list" where
  "stale_invokers now days st =
     map api_invoker_id (filter (\<lambda>r. (case last_token_issued_at r of None \<Rightarrow> invoker_created_at r | Some t \<Rightarrow> t) < now - days * 86400) (invokers st))"

definition purge_stale_invokers :: "seconds \<Rightarrow> int \<Rightarrow> bool \<Rightarrow> sme_store \<Rightarrow> http_error + string list \<times> sme_store" where
  "purge_stale_invokers now days dry_run st =
     (if \<not> (0 < days \<and> days \<le> 36500) then Inl SCHEMA_VALIDATION_FAILED
      else let stale = stale_invokers now days st
           in Inr (sort stale, if dry_run then st else fold offboard stale st))"

subsection \<open>Tokens\<close>

record token_request =
  grant_type :: string
  client_id :: string
  client_secret :: "string option"
  asked_grant :: "string option"
  client_assertion_type :: "string option"
  client_assertion :: "string option"

text \<open>
  \<open>Inr None\<close>: the assertion authenticates the invoker and is recorded as used. \<open>now\<close> is read once; the code reads the clock
  twice, when the JWT library checks \<open>exp\<close> and again for the purge. An assertion whose \<open>exp\<close> lies between the two readings
  deletes its own used row and is exchanged again, which is not seen here.
\<close>

definition verify_client_assertion :: "'k crypto \<Rightarrow> seconds \<Rightarrow> invoker_registration \<Rightarrow> token_request \<Rightarrow> string \<Rightarrow> sme_store \<Rightarrow>
    py_error + string option \<times> sme_store" where
  "verify_client_assertion c now who req assertion st =
     (if client_assertion_type req \<noteq> Some CLIENT_ASSERTION_TYPE then Inr (Some ''client_assertion_type'', st)
      else case pem_public_key c (public_key who) of
        None \<Rightarrow> Inr (Some ''invoker has no PEM public key'', st)
      | Some key \<Rightarrow>
          (case assertion_failure c key now assertion of
             Some problem \<Rightarrow> Inr (Some problem, st)
           | None \<Rightarrow>
               let claims = claims_of c assertion
               in if claim_iss claims \<noteq> api_invoker_id who \<or> claim_sub claims \<noteq> api_invoker_id who
                  then Inr (Some ''iss and sub must both be the client_id'', st)
                  else if claim_exp claims > LAST_TIMESTAMP then Inl (ValueError ''year is out of range'')
                  else if claim_exp claims - now > MAX_ASSERTION_LIFETIME_SECONDS then Inr (Some ''must expire sooner'', st)
                  else let kept = delete_where (\<lambda>u. assertion_expires_at u \<le> now) (used_assertions st)
                       in if row_where (\<lambda>u. used_jti u = claim_jti claims) kept \<noteq> None
                          then Inr (Some ''jti already used'', st\<lparr>used_assertions := kept\<rparr>)
                          else Inr (None, st\<lparr>used_assertions := kept @
                                 [\<lparr>used_jti = claim_jti claims, assertion_invoker = api_invoker_id who,
                                   assertion_expires_at = claim_exp claims\<rparr>]\<rparr>)))"

datatype scope_problem =
    For_modules_only
  | Unknown_form
  | Malformed_entry string
  | Not_published string
  | Not_exposed string string

fun check_names :: "sme_store \<Rightarrow> string \<Rightarrow> string \<Rightarrow> string list \<Rightarrow> scope_problem option" where
  "check_names st i aef [] = None"
| "check_names st i aef (n # ns) =
     (case service_named st n of
        None \<Rightarrow> Some (Not_published n)
      | Some s \<Rightarrow>
          if \<not> visible_to s i then Some (Not_published n)
          else if aef \<notin> set (service_aefs s) then Some (Not_exposed n aef)
          else check_names st i aef ns)"

fun check_entries :: "sme_store \<Rightarrow> string \<Rightarrow> string list \<Rightarrow> scope_problem option" where
  "check_entries st i [] = None"
| "check_entries st i (part # parts) =
     (case partition_at CHR '':'' part of (aef, sep, names) \<Rightarrow>
        let ns = filter (\<lambda>n. n \<noteq> []) (split_on CHR '','' names)
        in if \<not> sep \<or> aef = [] \<or> ns = [] then Some (Malformed_entry part)
           else case check_names st i aef ns of Some problem \<Rightarrow> Some problem | None \<Rightarrow> check_entries st i parts)"

definition check_scope :: "sme_settings \<Rightarrow> sme_store \<Rightarrow> string option \<Rightarrow> string \<Rightarrow> string \<Rightarrow> scope_problem option" where
  "check_scope cfg st asked i kind =
     (if (\<exists>s \<in> set INTERNAL_SCOPES. asked = Some s) \<and> kind \<noteq> ROLE_INTERNAL
      then (if enforcement_mode (role_enforcement cfg) = ''enforce'' then Some For_modules_only else None)
      else case or_none asked of
        None \<Rightarrow> None
      | Some s \<Rightarrow>
          if s \<in> set GRANTED_AS_GIVEN then None
          else if \<not> prefix CAPIF_SCOPE_PREFIX s then Some Unknown_form
          else check_entries st i (split_on CHR '';'' (drop (length CAPIF_SCOPE_PREFIX) s)))"

datatype token_reply =
    Granted string "string option"
  | Refused string
  | Scope_refused scope_problem
  | Raised py_error

definition authenticate :: "'k crypto \<Rightarrow> seconds \<Rightarrow> invoker_registration \<Rightarrow> token_request \<Rightarrow> sme_store \<Rightarrow> token_reply + sme_store" where
  "authenticate c now who req st =
     (case client_assertion req of
        Some a \<Rightarrow>
          (case verify_client_assertion c now who req a st of
             Inl err \<Rightarrow> Inl (Raised err)
           | Inr (Some problem, _) \<Rightarrow> Inl (Refused ''invalid_client'')
           | Inr (None, st') \<Rightarrow> Inr st')
      | None \<Rightarrow>
          (case verify_secret c (case client_secret req of None \<Rightarrow> '''' | Some s \<Rightarrow> s) (onboarding_secret_hash who) of
             Inl err \<Rightarrow> Inl (Raised err)
           | Inr good \<Rightarrow> if good then Inr st else Inl (Refused ''unauthorized_client'')))"

definition issue_access_token :: "'k crypto \<Rightarrow> sme_settings \<Rightarrow> seconds \<Rightarrow> string \<Rightarrow> token_request \<Rightarrow> sme_store \<Rightarrow> token_reply \<times> sme_store" where
  "issue_access_token c cfg now token req st =
     (if grant_type req \<noteq> ''client_credentials'' then (Refused ''unsupported_grant_type'', st)
      else if client_secret req \<noteq> None \<and> client_assertion req \<noteq> None then (Refused ''invalid_request'', st)
      else case get_invoker st (client_id req) of
        None \<Rightarrow> (Refused ''invalid_client'', st)
      | Some who \<Rightarrow>
          (case authenticate c now who req st of
             Inl reply \<Rightarrow> (reply, st)
           | Inr st1 \<Rightarrow>
               (case check_scope cfg st1 (asked_grant req) (api_invoker_id who) (invoker_kind who) of
                  Some problem \<Rightarrow> (Scope_refused problem, st)
                | None \<Rightarrow>
                    let row = \<lparr>access_token_hash = sha256 c token, token_invoker = api_invoker_id who,
                               token_expires_at = now + ACCESS_TOKEN_TTL_SECONDS, granted_scope = or_none (asked_grant req)\<rparr>
                    in if get_token st1 (sha256 c token) \<noteq> None then (Raised (RuntimeError ''IntegrityError''), st)
                       else (Granted token (asked_grant req),
                             st1\<lparr>tokens := tokens st1 @ [row],
                                 invokers := update_where (\<lambda>r. api_invoker_id r = api_invoker_id who)
                                   (\<lambda>r. r\<lparr>last_token_issued_at := Some now\<rparr>) (invokers st1)\<rparr>))))"

text \<open>What introspection answers; \<open>None\<close> is \<open>{active: false}\<close>.\<close>

record introspection =
  active_client :: string
  active_until :: seconds
  active_role :: string
  active_scope :: "string option"
  active_claim :: json

definition introspect_token :: "'k crypto \<Rightarrow> seconds \<Rightarrow> string \<Rightarrow> sme_store \<Rightarrow> introspection option" where
  "introspect_token c now token st =
     (case get_token st (sha256 c token) of
        None \<Rightarrow> None
      | Some t \<Rightarrow>
          if token_expires_at t \<le> now then None
          else let reg = get_invoker st (token_invoker t)
               in Some \<lparr>active_client = token_invoker t, active_until = token_expires_at t,
                        active_role = (case reg of None \<Rightarrow> ROLE_RAPP | Some r \<Rightarrow> invoker_kind r),
                        active_scope = or_none (granted_scope t),
                        active_claim = (case reg of None \<Rightarrow> JNull
                          | Some r \<Rightarrow> if invoker_claim r = JObject [] then JNull else invoker_claim r)\<rparr>)"

subsection \<open>Trusted invokers\<close>

record security_request =
  req_aef :: "string option"
  req_api :: "string option"
  req_authentication :: "string option"
  req_authorization :: "string option"
  req_methods :: "string list"

record service_security =
  req_destination :: string
  req_test :: bool
  req_infos :: "security_request list"

definition validate_service_security :: "service_security \<Rightarrow> http_error + unit" where
  "validate_service_security body =
     (if strip (req_destination body) = [] then Inl SECURITY_CONTEXT_INVALID
      else if req_infos body = [] then Inl SECURITY_CONTEXT_INVALID
      else if list_ex (\<lambda>q. req_methods q = []) (req_infos body) then Inl SECURITY_CONTEXT_INVALID
      else Inr ())"

definition with_sel_method :: "security_request list \<Rightarrow> security_info list" where
  "with_sel_method infos =
     map (\<lambda>q. \<lparr>sec_aef = req_aef q, sec_api = req_api q, authentication_info = req_authentication q,
               authorization_info = req_authorization q, pref_security_methods = req_methods q,
               sel_security_method = hd (req_methods q)\<rparr>) infos"

definition fill_trusted :: "service_security \<Rightarrow> trusted_invoker \<Rightarrow> trusted_invoker" where
  "fill_trusted body t =
     t\<lparr>notification_destination := req_destination body, request_test_notification := req_test body,
       security_infos := with_sel_method (req_infos body)\<rparr>"

definition register_trusted_invoker :: "string \<Rightarrow> service_security \<Rightarrow> sme_store \<Rightarrow> http_error + sme_store" where
  "register_trusted_invoker i body st =
     (if get_invoker st i = None then Inl INVOKER_NOT_REGISTERED
      else and_then (validate_service_security body) (\<lambda>_. Inr
        (case get_trusted st i of
           None \<Rightarrow> st\<lparr>trusted_invokers := trusted_invokers st @
                       [fill_trusted body \<lparr>trusted_id = i, notification_destination = [], request_test_notification = False, security_infos = []\<rparr>]\<rparr>
         | Some _ \<Rightarrow> st\<lparr>trusted_invokers := update_where (\<lambda>t. trusted_id t = i) (fill_trusted body) (trusted_invokers st)\<rparr>)))"

definition update_trusted_invoker :: "string \<Rightarrow> service_security \<Rightarrow> sme_store \<Rightarrow> http_error + sme_store" where
  "update_trusted_invoker i body st =
     (if get_trusted st i = None then Inl TRUSTED_INVOKER_NOT_FOUND
      else and_then (validate_service_security body) (\<lambda>_.
        Inr (st\<lparr>trusted_invokers := update_where (\<lambda>t. trusted_id t = i) (fill_trusted body) (trusted_invokers st)\<rparr>)))"

definition get_trusted_invoker :: "string \<Rightarrow> bool \<Rightarrow> bool \<Rightarrow> sme_store \<Rightarrow> http_error + trusted_invoker" where
  "get_trusted_invoker i want_authentication want_authorization st =
     (case get_trusted st i of
        None \<Rightarrow> Inl TRUSTED_INVOKER_NOT_FOUND
      | Some t \<Rightarrow> Inr (t\<lparr>security_infos := map (\<lambda>s. s\<lparr>
            authentication_info := if want_authentication then authentication_info s else Some '''',
            authorization_info := if want_authorization then authorization_info s else Some ''''\<rparr>) (security_infos t)\<rparr>))"

definition deregister_trusted_invoker :: "string \<Rightarrow> sme_store \<Rightarrow> sme_store" where
  "deregister_trusted_invoker i st = st\<lparr>trusted_invokers := delete_where (\<lambda>t. trusted_id t = i) (trusted_invokers st)\<rparr>"

definition revoke_trusted_invoker :: "string \<Rightarrow> string option \<Rightarrow> string list \<Rightarrow> sme_store \<Rightarrow> http_error + sme_store" where
  "revoke_trusted_invoker i aef apis st =
     (if apis = [] then Inl SECURITY_CONTEXT_INVALID
      else case get_trusted st i of
        None \<Rightarrow> Inl TRUSTED_INVOKER_NOT_FOUND
      | Some t \<Rightarrow>
          let remaining = filter (\<lambda>s. sec_aef s \<noteq> aef \<and> sec_api s \<notin> Some ` set apis) (security_infos t)
          in Inr (if remaining = [] then deregister_trusted_invoker i st
                  else st\<lparr>trusted_invokers := update_where (\<lambda>t. trusted_id t = i) (\<lambda>t. t\<lparr>security_infos := remaining\<rparr>) (trusted_invokers st)\<rparr>))"

end
