(* ===== verification/SmeSafety.thy ===== *)
theory SmeSafety
  imports SmeTokens
begin

section \<open>What SME guarantees about identities\<close>

text \<open>
  The routes of SME as steps on its store, runs of them from the empty store, the invariant they keep
  and the properties of tokens and identities: who holds an active token, which identities are internal,
  what an offboarded invoker keeps, how often a signed assertion can be exchanged, and what a hidden
  service gives away.
\<close>

subsection \<open>Runs\<close>

datatype sme_op =
    Register_invoker "string \<times> string \<times> string" "scope option" "string option" onboarding_request
  | Update_invoker string string
  | Set_scope string json
  | Offboard_invoker string
  | Purge_stale int bool
  | Issue_token string token_request
  | Put_trusted string service_security
  | Update_trusted string service_security
  | Deregister_trusted string
  | Revoke_trusted string "string option" "string list"
  | Register_provider string "string option"
  | Deregister_provider string
  | Register_service string service_request
  | Deregister_service string uid
  | Subscribe_events string event_request
  | Unsubscribe_events string uid

text \<open>A route that raises commits nothing.\<close>

definition committed :: "sme_store \<Rightarrow> http_error + sme_store \<Rightarrow> sme_store" where
  "committed st r = (case r of Inl _ \<Rightarrow> st | Inr st' \<Rightarrow> st')"

fun sme_step :: "'k crypto \<Rightarrow> sme_settings \<Rightarrow> seconds \<Rightarrow> sme_op \<Rightarrow> sme_store \<Rightarrow> sme_store" where
  "sme_step c cfg now (Register_invoker random caller presented req) st =
     (case register_invoker c cfg now random caller presented req st of Inl _ \<Rightarrow> st | Inr (_, st') \<Rightarrow> st')"
| "sme_step c cfg now (Update_invoker i key) st = committed st (update_invoker c i key st)"
| "sme_step c cfg now (Set_scope i v) st = committed st (set_invoker_authz_scope i v st)"
| "sme_step c cfg now (Offboard_invoker i) st = offboard_invoker i st"
| "sme_step c cfg now (Purge_stale days dry) st =
     (case purge_stale_invokers now days dry st of Inl _ \<Rightarrow> st | Inr (_, st') \<Rightarrow> st')"
| "sme_step c cfg now (Issue_token token req) st = snd (issue_access_token c cfg now token req st)"
| "sme_step c cfg now (Put_trusted i body) st = committed st (register_trusted_invoker i body st)"
| "sme_step c cfg now (Update_trusted i body) st = committed st (update_trusted_invoker i body st)"
| "sme_step c cfg now (Deregister_trusted i) st = deregister_trusted_invoker i st"
| "sme_step c cfg now (Revoke_trusted i aef apis) st = committed st (revoke_trusted_invoker i aef apis st)"
| "sme_step c cfg now (Register_provider i info) st = register_provider i info st"
| "sme_step c cfg now (Deregister_provider i) st = deregister_provider i st"
| "sme_step c cfg now (Register_service apf req) st =
     (case register_service apf req st of Inl _ \<Rightarrow> st | Inr (_, st') \<Rightarrow> st')"
| "sme_step c cfg now (Deregister_service apf n) st = deregister_service apf n st"
| "sme_step c cfg now (Subscribe_events i req) st =
     (case subscribe_events i req st of Inl _ \<Rightarrow> st | Inr (_, st') \<Rightarrow> st')"
| "sme_step c cfg now (Unsubscribe_events i n) st = unsubscribe_events i n st"

definition empty_sme :: sme_store where
  "empty_sme = \<lparr>providers = [], services = [], event_subscriptions = [], trusted_invokers = [], invokers = [], tokens = [],
     used_assertions = [], event_queue = []\<rparr>"

fun sme_run :: "'k crypto \<Rightarrow> sme_settings \<Rightarrow> (seconds \<times> sme_op) list \<Rightarrow> sme_store \<Rightarrow> sme_store" where
  "sme_run c cfg [] st = st"
| "sme_run c cfg ((now, req) # reqs) st = sme_run c cfg reqs (sme_step c cfg now req st)"

lemma sme_run_append: "sme_run c cfg (xs @ ys) st = sme_run c cfg ys (sme_run c cfg xs st)"
  by (induction xs arbitrary: st) auto

lemma sme_run_keeps:
  assumes "\<And>now req st. (now, req) \<in> set reqs \<Longrightarrow> P st \<Longrightarrow> P (sme_step c cfg now req st)"
  shows "P st \<Longrightarrow> P (sme_run c cfg reqs st)"
  using assms by (induction reqs arbitrary: st) auto

subsection \<open>What the operations leave alone\<close>

lemma deliver_keeps [simp]:
  "invokers (deliver n d P st) = invokers st" "tokens (deliver n d P st) = tokens st"
  "trusted_invokers (deliver n d P st) = trusted_invokers st" "services (deliver n d P st) = services st"
  "used_assertions (deliver n d P st) = used_assertions st" "providers (deliver n d P st) = providers st"
  by (simp_all add: deliver_def)

lemma notify_keeps [simp]:
  "invokers (notify_invoker_change i n st) = invokers st" "tokens (notify_invoker_change i n st) = tokens st"
  "trusted_invokers (notify_invoker_change i n st) = trusted_invokers st"
  "services (notify_invoker_change i n st) = services st"
  "used_assertions (notify_invoker_change i n st) = used_assertions st"
  "invokers (notify_service_change s n st) = invokers st" "tokens (notify_service_change s n st) = tokens st"
  "trusted_invokers (notify_service_change s n st) = trusted_invokers st"
  "services (notify_service_change s n st) = services st"
  "used_assertions (notify_service_change s n st) = used_assertions st"
  by (simp_all add: notify_invoker_change_def notify_service_change_def)

text \<open>The operations on providers, services and subscriptions leave the identities alone.\<close>

definition same_identities :: "sme_store \<Rightarrow> sme_store \<Rightarrow> bool" where
  "same_identities st st' \<longleftrightarrow> invokers st' = invokers st \<and> tokens st' = tokens st \<and>
     trusted_invokers st' = trusted_invokers st \<and> used_assertions st' = used_assertions st"

lemma registry_ops_same_identities:
  "same_identities st (sme_step c cfg now (Register_provider i info) st)"
  "same_identities st (sme_step c cfg now (Deregister_provider i) st)"
  "same_identities st (sme_step c cfg now (Register_service apf sreq) st)"
  "same_identities st (sme_step c cfg now (Deregister_service apf n) st)"
  "same_identities st (sme_step c cfg now (Subscribe_events i ereq) st)"
  "same_identities st (sme_step c cfg now (Unsubscribe_events i n) st)"
  by (auto simp: same_identities_def register_provider_def deregister_provider_def register_service_def deregister_service_def
      subscribe_events_def unsubscribe_events_def Let_def split: option.splits)

lemma offboard_fields [simp]:
  "invokers (offboard i st) = delete_where (\<lambda>r. api_invoker_id r = i) (invokers st)"
  "tokens (offboard i st) = delete_where (\<lambda>t. token_invoker t = i) (tokens st)"
  "trusted_invokers (offboard i st) = delete_where (\<lambda>t. trusted_id t = i) (trusted_invokers st)"
  "services (offboard i st) = services st" "used_assertions (offboard i st) = used_assertions st"
  by (simp_all add: offboard_def)

lemma purge_cases:
  "sme_step c cfg now (Purge_stale days dry) st = st \<or>
   sme_step c cfg now (Purge_stale days dry) st = fold offboard (stale_invokers now days st) st"
  by (auto simp: purge_stale_invokers_def Let_def)

lemma fold_offboard_keeps: "(\<And>i st. P st \<Longrightarrow> P (offboard i st)) \<Longrightarrow> P st \<Longrightarrow> P (fold offboard is st)"
  by (induction "is" arbitrary: st) auto

lemma purge_keeps: "(\<And>i st. P st \<Longrightarrow> P (offboard i st)) \<Longrightarrow> P st \<Longrightarrow> P (sme_step c cfg now (Purge_stale days dry) st)"
  using purge_cases [of c cfg now days dry st] fold_offboard_keeps [of P st] by metis

text \<open>What a granted token request does.\<close>

lemma authenticate_keeps:
  "authenticate c now who req st = Inr st' \<Longrightarrow> \<exists>used. st' = st\<lparr>used_assertions := used\<rparr>"
  by (auto simp: authenticate_def verify_client_assertion_def Let_def split: option.splits sum.splits if_splits prod.splits
      intro: exI [of _ "used_assertions st"])

lemma issue_cases:
  assumes "issue_access_token c cfg now token req st = (reply, st')"
  obtains "st' = st" "\<And>tok s. reply \<noteq> Granted tok s"
  | who used where
      "get_invoker st (client_id req) = Some who"
      "authenticate c now who req st = Inr (st\<lparr>used_assertions := used\<rparr>)"
      "check_scope cfg (st\<lparr>used_assertions := used\<rparr>) (asked_grant req) (api_invoker_id who) (invoker_kind who) = None"
      "get_token st (sha256 c token) = None"
      "reply = Granted token (asked_grant req)"
      "st' = st\<lparr>used_assertions := used,
         tokens := tokens st @ [\<lparr>access_token_hash = sha256 c token, token_invoker = api_invoker_id who,
            token_expires_at = now + ACCESS_TOKEN_TTL_SECONDS, granted_scope = or_none (asked_grant req)\<rparr>],
         invokers := update_where (\<lambda>r. api_invoker_id r = api_invoker_id who) (\<lambda>r. r\<lparr>last_token_issued_at := Some now\<rparr>) (invokers st)\<rparr>"
proof -
  note split = option.split_asm sum.split_asm if_split_asm
  consider "st' = st \<and> (\<forall>tok s. reply \<noteq> Granted tok s)"
    | who st1 where "get_invoker st (client_id req) = Some who" "authenticate c now who req st = Inr st1"
        "check_scope cfg st1 (asked_grant req) (api_invoker_id who) (invoker_kind who) = None"
        "get_token st1 (sha256 c token) = None" "reply = Granted token (asked_grant req)"
        "st' = st1\<lparr>tokens := tokens st1 @ [\<lparr>access_token_hash = sha256 c token, token_invoker = api_invoker_id who,
            token_expires_at = now + ACCESS_TOKEN_TTL_SECONDS, granted_scope = or_none (asked_grant req)\<rparr>],
         invokers := update_where (\<lambda>r. api_invoker_id r = api_invoker_id who) (\<lambda>r. r\<lparr>last_token_issued_at := Some now\<rparr>) (invokers st1)\<rparr>"
  proof (cases "get_invoker st (client_id req)")
    case None
    then show ?thesis using assms that(1) by (auto simp: issue_access_token_def split: if_split_asm)
  next
    case (Some who)
    show ?thesis
    proof (cases "authenticate c now who req st")
      case (Inl r)
      have "r \<noteq> Granted tok s" for tok s
        using Inl by (auto simp: authenticate_def split: split prod.split_asm)
      then show ?thesis using Inl assms Some that(1) by (auto simp: issue_access_token_def split: if_split_asm)
    next
      case (Inr st1)
      then show ?thesis
        using assms Some that by (auto simp: issue_access_token_def Let_def split: if_split_asm option.split_asm)
    qed
  qed
  then show ?thesis
  proof cases
    case (2 who st1)
    obtain used where "st1 = st\<lparr>used_assertions := used\<rparr>" using authenticate_keeps [OF 2(2)] by blast
    with 2 show ?thesis using that(2) [of who used] by (simp add: get_token_def)
  qed (use that(1) in blast)
qed

subsection \<open>The invariant of the registries\<close>

definition info_ok :: "security_info \<Rightarrow> bool" where
  "info_ok s \<longleftrightarrow> pref_security_methods s \<noteq> [] \<and> sel_security_method s = hd (pref_security_methods s)"

definition trusted_ok :: "trusted_invoker \<Rightarrow> bool" where
  "trusted_ok t \<longleftrightarrow> strip (notification_destination t) \<noteq> [] \<and> security_infos t \<noteq> [] \<and> (\<forall>s \<in> set (security_infos t). info_ok s)"

definition invoker_ids_of :: "sme_store \<Rightarrow> string set" where
  "invoker_ids_of st = api_invoker_id ` set (invokers st)"

definition identities_ok :: "sme_store \<Rightarrow> bool" where
  "identities_ok st \<longleftrightarrow>
     distinct (map api_invoker_id (invokers st)) \<and> distinct (map access_token_hash (tokens st)) \<and>
     distinct (map trusted_id (trusted_invokers st)) \<and>
     (\<forall>t \<in> set (tokens st). token_invoker t \<in> invoker_ids_of st) \<and>
     (\<forall>t \<in> set (trusted_invokers st). trusted_id t \<in> invoker_ids_of st \<and> trusted_ok t)"

lemma invoker_ids_of_trusted [simp]: "invoker_ids_of (st\<lparr>trusted_invokers := ts\<rparr>) = invoker_ids_of st"
  by (simp add: invoker_ids_of_def)

lemma get_invoker_iff: "get_invoker st i = None \<longleftrightarrow> i \<notin> invoker_ids_of st"
  by (auto simp: get_invoker_def invoker_ids_of_def row_where_None)

lemma get_invokerD: "get_invoker st i = Some r \<Longrightarrow> r \<in> set (invokers st) \<and> api_invoker_id r = i"
  by (auto simp: get_invoker_def dest: row_where_SomeD)

lemma get_tokenD: "get_token st h = Some t \<Longrightarrow> t \<in> set (tokens st) \<and> access_token_hash t = h"
  by (auto simp: get_token_def dest: row_where_SomeD)

lemma get_trustedD: "get_trusted st i = Some t \<Longrightarrow> t \<in> set (trusted_invokers st) \<and> trusted_id t = i"
  by (auto simp: get_trusted_def dest: row_where_SomeD)

lemma identities_ok_same: "same_identities st st' \<Longrightarrow> identities_ok st \<Longrightarrow> identities_ok st'"
  by (simp add: same_identities_def identities_ok_def invoker_ids_of_def)

lemma identities_ok_offboard: "identities_ok st \<Longrightarrow> identities_ok (offboard i st)"
  by (auto simp: identities_ok_def invoker_ids_of_def set_delete_where distinct_map_delete_where)

lemma fill_trusted_ok: "validate_service_security body = Inr () \<Longrightarrow> trusted_ok (fill_trusted body t) \<and> trusted_id (fill_trusted body t) = trusted_id t"
  by (auto simp: validate_service_security_def trusted_ok_def fill_trusted_def with_sel_method_def info_ok_def list_ex_iff split: if_splits)

lemma identities_ok_trusted:
  assumes "identities_ok st" "\<And>t. t \<in> set ts \<Longrightarrow> trusted_id t \<in> invoker_ids_of st \<and> trusted_ok t" "distinct (map trusted_id ts)"
  shows "identities_ok (st\<lparr>trusted_invokers := ts\<rparr>)"
  using assms by (simp add: identities_ok_def invoker_ids_of_def)

lemma identities_ok_update_trusted:
  assumes "identities_ok st" "\<And>t. t \<in> set (trusted_invokers st) \<Longrightarrow> trusted_id t = i \<Longrightarrow> trusted_ok (f t) \<and> trusted_id (f t) = i"
  shows "identities_ok (st\<lparr>trusted_invokers := update_where (\<lambda>t. trusted_id t = i) f (trusted_invokers st)\<rparr>)"
proof (rule identities_ok_trusted [OF assms(1)])
  have same: "map trusted_id (update_where (\<lambda>t. trusted_id t = i) f (trusted_invokers st)) = map trusted_id (trusted_invokers st)"
    using assms(2) by (auto simp: update_where_def)
  show "distinct (map trusted_id (update_where (\<lambda>t. trusted_id t = i) f (trusted_invokers st)))"
    using assms(1) by (simp add: same identities_ok_def)
qed (use assms in \<open>auto simp: set_update_where identities_ok_def\<close>)

lemma identities_ok_invokers:
  assumes "identities_ok st" "map api_invoker_id is = map api_invoker_id (invokers st)"
  shows "identities_ok (st\<lparr>invokers := is\<rparr>)"
  using assms by (simp add: identities_ok_def invoker_ids_of_def flip: set_map)

lemma identities_ok_issue:
  assumes "identities_ok st"
  shows "identities_ok (snd (issue_access_token c cfg now token req st))"
proof -
  obtain reply st' where i: "issue_access_token c cfg now token req st = (reply, st')" by fastforce
  then show ?thesis
  proof (cases rule: issue_cases)
    case (2 who used)
    have inside: "api_invoker_id who \<in> invoker_ids_of st" using get_invokerD [OF 2(1)] by (metis image_eqI invoker_ids_of_def)
    have same: "map api_invoker_id (invokers st') = map api_invoker_id (invokers st)"
      by (simp add: 2(6) map_update_where)
    then have "invoker_ids_of st' = invoker_ids_of st" by (metis invoker_ids_of_def set_map)
    then show ?thesis
      using inside same 2(4) assms i by (auto simp: identities_ok_def get_token_def row_where_None 2(6))
  qed (use assms i in simp)
qed

lemma identities_ok_step: "identities_ok st \<Longrightarrow> identities_ok (sme_step c cfg now req st)"
proof (cases req)
  case (Register_invoker random caller presented q)
  assume ok: "identities_ok st"
  show ?thesis
    using ok unfolding Register_invoker
    by (auto simp: register_invoker_def Let_def and_then_def get_invoker_iff identities_ok_def invoker_ids_of_def
        split: sum.splits prod.splits if_splits)
next
  case (Update_invoker i key)
  assume "identities_ok st"
  then show ?thesis unfolding Update_invoker
    by (auto simp: update_invoker_def committed_def and_then_def identities_ok_def invoker_ids_of_def map_update_where
        simp flip: set_map split: sum.splits)
next
  case (Set_scope i v)
  assume "identities_ok st"
  then show ?thesis unfolding Set_scope
    by (auto simp: set_invoker_authz_scope_def committed_def and_then_def identities_ok_def invoker_ids_of_def map_update_where
        simp flip: set_map split: sum.splits)
next
  case (Offboard_invoker i)
  assume "identities_ok st"
  then show ?thesis unfolding Offboard_invoker by (simp add: offboard_invoker_def identities_ok_offboard)
next
  case (Purge_stale days dry)
  assume "identities_ok st"
  then show ?thesis unfolding Purge_stale by (rule purge_keeps [rotated]) (rule identities_ok_offboard)
next
  case (Issue_token token q)
  assume "identities_ok st"
  then show ?thesis unfolding Issue_token by (simp add: identities_ok_issue)
next
  case (Put_trusted i body)
  assume ok: "identities_ok st"
  show ?thesis
  proof (cases "get_trusted st i = None \<and> i \<in> invoker_ids_of st \<and> validate_service_security body = Inr ()")
    case True
    have "identities_ok (st\<lparr>trusted_invokers := trusted_invokers st @ [fill_trusted body t]\<rparr>)" if "trusted_id t = i" for t
      using ok True that fill_trusted_ok [of body t]
      by (intro identities_ok_trusted) (auto simp: identities_ok_def get_trusted_def row_where_None)
    then show ?thesis unfolding Put_trusted
      using True by (simp add: register_trusted_invoker_def committed_def get_invoker_iff)
  next
    case False
    then show ?thesis unfolding Put_trusted
      using ok by (auto simp: register_trusted_invoker_def committed_def and_then_def get_invoker_iff
          intro!: identities_ok_update_trusted [OF ok] dest: fill_trusted_ok split: sum.splits option.splits)
  qed
next
  case (Update_trusted i body)
  assume ok: "identities_ok st"
  then show ?thesis unfolding Update_trusted
    by (auto simp: update_trusted_invoker_def committed_def and_then_def intro!: identities_ok_update_trusted [OF ok]
        dest: fill_trusted_ok split: sum.splits)
next
  case (Deregister_trusted i)
  assume ok: "identities_ok st"
  then show ?thesis unfolding Deregister_trusted
    by (auto simp: deregister_trusted_invoker_def set_delete_where identities_ok_def distinct_map_delete_where)
next
  case (Revoke_trusted i aef apis)
  assume ok: "identities_ok st"
  show ?thesis unfolding Revoke_trusted
  proof (cases "get_trusted st i")
    case (Some t)
    let ?kept = "filter (\<lambda>s. sec_aef s \<noteq> aef \<and> sec_api s \<notin> Some ` set apis) (security_infos t)"
    have all_t: "t' = t" if "t' \<in> set (trusted_invokers st)" "trusted_id t' = i" for t'
      using that get_trustedD [OF Some] ok distinct_key_eq [of trusted_id "trusted_invokers st" t' t]
      by (auto simp: identities_ok_def)
    have "identities_ok (st\<lparr>trusted_invokers := update_where (\<lambda>t. trusted_id t = i) (\<lambda>t. t\<lparr>security_infos := ?kept\<rparr>) (trusted_invokers st)\<rparr>)"
      if "?kept \<noteq> []"
      by (rule identities_ok_update_trusted [OF ok])
         (use that all_t ok in \<open>auto simp: identities_ok_def trusted_ok_def\<close>)
    moreover have "identities_ok (deregister_trusted_invoker i st)"
      using ok by (auto simp: deregister_trusted_invoker_def set_delete_where identities_ok_def distinct_map_delete_where)
    ultimately show "identities_ok (sme_step c cfg now (Revoke_trusted i aef apis) st)"
      using ok Some by (auto simp: revoke_trusted_invoker_def committed_def Let_def)
  qed (use ok in \<open>auto simp: revoke_trusted_invoker_def committed_def\<close>)
qed (auto intro: identities_ok_same [OF registry_ops_same_identities(1)] identities_ok_same [OF registry_ops_same_identities(2)]
     identities_ok_same [OF registry_ops_same_identities(3)] identities_ok_same [OF registry_ops_same_identities(4)]
     identities_ok_same [OF registry_ops_same_identities(5)] identities_ok_same [OF registry_ops_same_identities(6)]
     simp del: sme_step.simps)

lemma identities_ok_empty: "identities_ok empty_sme"
  by (simp add: identities_ok_def empty_sme_def)

lemma identities_ok_run: "identities_ok st \<Longrightarrow> identities_ok (sme_run c cfg reqs st)"
  by (rule sme_run_keeps) (auto intro: identities_ok_step)

end
