(* ===== verification/SmeServices.thy ===== *)
theory SmeServices
  imports SmeSafety
begin

section \<open>Published services: names, owners and visibility\<close>

text \<open>
  The service registry along runs of SME: a name belongs to one service, whose producer alone can change or
  withdraw it, and a service an invoker may not see is not observable to it through discovery, the token route or
  the notifications it gets.
\<close>

definition services_ok :: "sme_store \<Rightarrow> bool" where
  "services_ok st \<longleftrightarrow> distinct (map service_name (services st)) \<and> distinct (map service_id (services st))"

lemma map_update_in:
  "(\<And>r. r \<in> set rows \<Longrightarrow> P r \<Longrightarrow> k (f r) = k r) \<Longrightarrow> map k (update_where P f rows) = map k rows"
  by (auto simp: update_where_def)

lemma service_namedD: "service_named st n = Some s \<Longrightarrow> s \<in> set (services st) \<and> service_name s = n"
  by (auto simp: service_named_def dest: row_where_SomeD)

lemma service_by_id:
  "services_ok st \<Longrightarrow> s \<in> set (services st) \<Longrightarrow> r \<in> set (services st) \<Longrightarrow> service_id r = service_id s \<Longrightarrow> r = s"
  using distinct_key_eq [of service_id] by (auto simp: services_ok_def)

lemma profile_of_fields [simp]:
  "service_id (profile_of n apf req old) = n" "service_name (profile_of n apf req old) = asked_name req"
  "producer_id (profile_of n apf req old) = apf"
  by (simp_all add: profile_of_def)

text \<open>The outcomes of a registration.\<close>

lemma register_service_cases:
  assumes "register_service apf req st = Inr (n, st')"
  obtains old where "service_named st (asked_name req) = Some old" "producer_id old = apf" "n = service_id old"
      "services st' = update_where (\<lambda>s. service_id s = n) (\<lambda>_. profile_of n apf req (service_policy old)) (services st)"
  | "service_named st (asked_name req) = None" "n = fresh_id (map service_id (services st))"
      "services st' = services st @ [profile_of n apf req None]"
  using assms by (auto simp: register_service_def Let_def split: if_splits option.splits)

lemma services_ok_register:
  assumes "services_ok st" "register_service apf req st = Inr (n, st')"
  shows "services_ok st'"
  using assms(2)
proof (cases rule: register_service_cases)
  case (1 old)
  have old: "old \<in> set (services st)" "service_name old = asked_name req" using service_namedD [OF 1(1)] by auto
  have one: "r = old" if "r \<in> set (services st)" "service_id r = n" for r
    using service_by_id [OF assms(1) old(1)] that 1(3) by simp
  have "map service_name (services st') = map service_name (services st)" "map service_id (services st') = map service_id (services st)"
    unfolding 1(4) using one old(2) by (intro map_update_in; auto)+
  then show ?thesis using assms(1) by (simp add: services_ok_def)
next
  case 2
  then show ?thesis
    using assms(1) fresh_id_notin [of "map service_id (services st)"]
    by (auto simp: services_ok_def service_named_def row_where_None)
qed

lemma services_kept:
  assumes "\<And>apf req. op \<noteq> Register_service apf req" "\<And>apf n. op \<noteq> Deregister_service apf n"
  shows "services (sme_step c cfg now op st) = services st"
proof (cases op)
  case (Purge_stale days dry)
  show ?thesis unfolding Purge_stale by (rule purge_keeps) simp_all
next
  case (Issue_token token q)
  obtain reply st' where i: "issue_access_token c cfg now token q st = (reply, st')" by fastforce
  then show ?thesis by (cases rule: issue_cases) (use Issue_token i in simp_all)
qed (use assms in \<open>auto simp: committed_def and_then_def Let_def register_invoker_def update_invoker_def set_invoker_authz_scope_def
    offboard_invoker_def register_trusted_invoker_def update_trusted_invoker_def deregister_trusted_invoker_def
    revoke_trusted_invoker_def register_provider_def deregister_provider_def subscribe_events_def unsubscribe_events_def
    split: sum.splits option.splits prod.splits\<close>)

lemma services_ok_step: "services_ok st \<Longrightarrow> services_ok (sme_step c cfg now op st)"
proof (cases op)
  case (Register_service apf req)
  assume "services_ok st"
  then show ?thesis unfolding Register_service by (auto intro: services_ok_register split: sum.splits)
next
  case (Deregister_service apf n)
  assume "services_ok st"
  then show ?thesis unfolding Deregister_service
    by (auto simp: services_ok_def deregister_service_def Let_def distinct_map_delete_where split: option.splits)
qed (simp_all add: services_ok_def services_kept del: sme_step.simps)

lemma services_ok_run: "services_ok (sme_run c cfg reqs empty_sme)"
proof (rule sme_run_keeps)
  show "services_ok empty_sme" by (simp add: services_ok_def empty_sme_def)
qed (rule services_ok_step)

subsection \<open>What a hidden service gives away\<close>

lemma discover_without: "\<not> visible_to s i \<Longrightarrow> services st = xs @ s # ys \<Longrightarrow>
    discover_services i q st = discover_services i q (st\<lparr>services := xs @ ys\<rparr>)"
  by (simp add: discover_services_def Let_def)

definition seen_service :: "sme_store \<Rightarrow> string \<Rightarrow> string \<Rightarrow> service_profile option" where
  "seen_service st i n = (case service_named st n of None \<Rightarrow> None | Some s \<Rightarrow> if visible_to s i then Some s else None)"

lemma check_names_seen:
  "check_names st i aef (n # ns) =
     (case seen_service st i n of None \<Rightarrow> Some (Not_published n)
      | Some s \<Rightarrow> if aef \<notin> set (service_aefs s) then Some (Not_exposed n aef) else check_names st i aef ns)"
  by (auto simp: seen_service_def split: option.splits)

declare check_names.simps(2) [simp del]

lemma check_names_cong: "(\<And>n. seen_service st i n = seen_service st' i n) \<Longrightarrow> check_names st i aef ns = check_names st' i aef ns"
  by (induction ns) (auto simp: check_names_seen split: option.splits)

lemma check_entries_cong:
  "(\<And>n. seen_service st i n = seen_service st' i n) \<Longrightarrow> check_entries st i parts = check_entries st' i parts"
  by (induction parts) (auto simp: Let_def check_names_cong [of st i st'] split: option.splits prod.splits)

lemma check_scope_cong:
  "(\<And>n. seen_service st i n = seen_service st' i n) \<Longrightarrow> check_scope cfg st asked i kind = check_scope cfg st' asked i kind"
proof -
  assume "\<And>n. seen_service st i n = seen_service st' i n"
  then have "check_entries st i = check_entries st' i" by (intro ext check_entries_cong)
  then show ?thesis by (simp only: check_scope_def)
qed

lemma seen_without:
  assumes "services_ok st" "services st = xs @ s # ys" "\<not> visible_to s i"
  shows "seen_service st i n = seen_service (st\<lparr>services := xs @ ys\<rparr>) i n"
proof (cases "service_name s = n")
  case True
  then have "find (\<lambda>r. service_name r = n) xs = None" "find (\<lambda>r. service_name r = n) ys = None"
    using assms(1,2) by (auto simp: services_ok_def find_None_iff) (metis image_eqI)+
  then show ?thesis using True assms(2,3) by (simp add: seen_service_def service_named_def row_where_def find_append)
next
  case False
  then show ?thesis using assms(2)
    by (cases "find (\<lambda>s. service_name s = n) xs") (simp_all add: seen_service_def service_named_def row_where_def find_append)
qed

lemma authenticate_services:
  "authenticate c now who req (st\<lparr>services := v\<rparr>) =
     (case authenticate c now who req st of Inl r \<Rightarrow> Inl r | Inr st1 \<Rightarrow> Inr (st1\<lparr>services := v\<rparr>))"
  by (auto simp: authenticate_def verify_client_assertion_def Let_def split: option.splits sum.splits)

lemma authenticate_kept: "authenticate c now who req st = Inr st1 \<Longrightarrow> services st1 = services st"
  using authenticate_keeps by fastforce

lemma issue_without:
  assumes ok: "services_ok st" and st: "services st = xs @ s # ys" "\<not> visible_to s (client_id req)"
  shows "fst (issue_access_token c cfg now token req st) = fst (issue_access_token c cfg now token req (st\<lparr>services := xs @ ys\<rparr>))"
proof -
  have same: "check_scope cfg st1 asked (client_id req) kind = check_scope cfg (st1\<lparr>services := xs @ ys\<rparr>) asked (client_id req) kind"
    if "services st1 = services st" for st1 asked kind
    by (rule check_scope_cong, rule seen_without) (use that ok st in \<open>auto simp: services_ok_def\<close>)
  show ?thesis
  proof (cases "get_invoker st (client_id req)")
    case (Some who)
    have id: "api_invoker_id who = client_id req" using get_invokerD [OF Some] by simp
    show ?thesis
    proof (cases "authenticate c now who req st")
      case (Inr st1)
      then show ?thesis
        using Some same [OF authenticate_kept [OF Inr]]
        by (simp add: issue_access_token_def authenticate_services get_invoker_def get_token_def id Let_def split: option.splits)
    qed (use Some in \<open>simp add: issue_access_token_def authenticate_services get_invoker_def\<close>)
  qed (simp add: issue_access_token_def get_invoker_def)
qed

subsection \<open>The properties\<close>

text \<open>C19: A hidden service is unobservable: for an invoker that a service's policy hides it from, SME answers every
  discovery and every token request (whatever scope it asks for) as if the service did not exist, and no notification
  of a change of the service goes to a subscription of that invoker.\<close>

theorem hidden_service_unobservable:
  assumes "st = sme_run c cfg reqs empty_sme" "services st = xs @ s # ys" "\<not> visible_to s i"
  shows "discover_services i q st = discover_services i q (st\<lparr>services := xs @ ys\<rparr>) \<and>
    (client_id req = i \<longrightarrow> fst (issue_access_token c cfg now token req st) =
       fst (issue_access_token c cfg now token req (st\<lparr>services := xs @ ys\<rparr>))) \<and>
    (\<exists>more. event_queue (notify_service_change s n st) = event_queue st @ more \<and>
       (\<forall>e \<in> set more. \<exists>sub \<in> set (event_subscriptions st). event_for e = event_subscription_id sub \<and> subscriber_id sub \<noteq> i))"
proof -
  have ok: "services_ok st" unfolding assms(1) by (rule services_ok_run)
  have "\<exists>more. event_queue (notify_service_change s n st) = event_queue st @ more \<and>
       (\<forall>e \<in> set more. \<exists>sub \<in> set (event_subscriptions st). event_for e = event_subscription_id sub \<and> subscriber_id sub \<noteq> i)"
    using assms(3) by (auto simp: notify_service_change_def deliver_def)
  then show ?thesis using discover_without [OF assms(3,2)] issue_without [OF ok assms(2), of req] assms(3) by blast
qed

text \<open>A service name has one owner: after any run of SME no two services have the same name, and while a service
  is registered a request of another producer neither replaces nor withdraws it: registering its name is refused and
  withdrawing it changes nothing.\<close>

theorem service_name_has_one_owner:
  assumes "st = sme_run c cfg reqs empty_sme" "s \<in> set (services st)"
  shows "distinct (map service_name (services st)) \<and>
    (\<forall>apf req. apf \<noteq> producer_id s \<longrightarrow> asked_name req = service_name s \<longrightarrow>
       register_service apf req st \<in> {Inl SERVICE_NAME_CONFLICT, Inl APF_NOT_REGISTERED}) \<and>
    (\<forall>apf. apf \<noteq> producer_id s \<longrightarrow> deregister_service apf (service_id s) st = st)"
proof -
  have ok: "services_ok st" unfolding assms(1) by (rule services_ok_run)
  have name: "service_named st (service_name s) = Some s"
    using ok assms(2) find_same_key [of service_name "services st" s] by (simp add: services_ok_def service_named_def row_where_def)
  have i: "row_where (\<lambda>r. service_id r = service_id s) (services st) = Some s"
    using ok assms(2) find_same_key [of service_id "services st" s] by (simp add: services_ok_def row_where_def)
  show ?thesis using ok name i by (auto simp: services_ok_def register_service_def deregister_service_def)
qed

end
