(* ===== verification/SmeClaims.thy ===== *)
theory SmeClaims
  imports SmeSafety
begin

section \<open>Identities, tokens and hidden services: the properties\<close>

text \<open>
  What holds of tokens, identities and claims in every run of SME: where the tokens come from, which are
  internal, what an offboarding leaves, and that a signed assertion buys one token (an interpretation of
  \<open>exclusive_claim\<close>).
\<close>

subsection \<open>Where the tokens of a run come from\<close>

definition issued_by :: "'k crypto \<Rightarrow> (seconds \<times> sme_op) list \<Rightarrow> access_token \<Rightarrow> bool" where
  "issued_by c reqs t \<longleftrightarrow> (\<exists>now token req. (now, Issue_token token req) \<in> set reqs \<and>
     t = \<lparr>access_token_hash = sha256 c token, token_invoker = client_id req,
          token_expires_at = now + ACCESS_TOKEN_TTL_SECONDS, granted_scope = or_none (asked_grant req)\<rparr>)"

lemma issued_by_Cons: "issued_by c (r # reqs) t \<longleftrightarrow> issued_by c [r] t \<or> issued_by c reqs t"
  unfolding issued_by_def by simp blast

text \<open>How one step changes invokers and tokens.\<close>

definition kinds :: "sme_store \<Rightarrow> (string \<times> string) list" where
  "kinds st = map (\<lambda>r. (api_invoker_id r, invoker_kind r)) (invokers st)"

lemma kinds_update:
  "(\<And>r. api_invoker_id (f r) = api_invoker_id r \<and> invoker_kind (f r) = invoker_kind r) \<Longrightarrow>
     map (\<lambda>r. (api_invoker_id r, invoker_kind r)) (update_where P f rows) = map (\<lambda>r. (api_invoker_id r, invoker_kind r)) rows"
  by (rule map_update_where) simp

lemma invoker_ids_kinds: "invoker_ids_of st = fst ` set (kinds st)"
  by (simp add: invoker_ids_of_def kinds_def image_image)

definition onboards :: "sme_settings \<Rightarrow> sme_op \<Rightarrow> (string \<times> string) set" where
  "onboards cfg req = (case req of
       Register_invoker random caller presented q \<Rightarrow>
         {(''api-invoker-'' @ fst random, kind) | kind. enrolled cfg presented = Inr kind}
     | _ \<Rightarrow> {})"

definition grants :: "'k crypto \<Rightarrow> sme_settings \<Rightarrow> seconds \<Rightarrow> sme_op \<Rightarrow> sme_store \<Rightarrow> access_token set" where
  "grants c cfg now req st = {t. issued_by c [(now, req)] t \<and> (\<exists>kind. (token_invoker t, kind) \<in> set (kinds st) \<and>
     (enforcement_mode (role_enforcement cfg) = ''enforce'' \<longrightarrow> (\<exists>s \<in> set INTERNAL_SCOPES. granted_scope t = Some s) \<longrightarrow> kind = ROLE_INTERNAL))}"

text \<open>Nothing but onboarding adds an identity, nothing but the token route a token; offboarding removes both together.\<close>

definition tracks :: "sme_store \<Rightarrow> (string \<times> string) set \<Rightarrow> access_token set \<Rightarrow> sme_store \<Rightarrow> bool" where
  "tracks st new granted st' \<longleftrightarrow>
     set (kinds st') \<subseteq> set (kinds st) \<union> new \<and> set (tokens st') \<subseteq> set (tokens st) \<union> granted \<and>
     (\<forall>t \<in> set (tokens st'). t \<in> set (tokens st) \<longrightarrow>
        (\<forall>kind. (token_invoker t, kind) \<in> set (kinds st) \<longrightarrow> (token_invoker t, kind) \<in> set (kinds st'))) \<and>
     (\<forall>t \<in> granted. \<forall>kind. (token_invoker t, kind) \<in> set (kinds st) \<longrightarrow> (token_invoker t, kind) \<in> set (kinds st'))"

lemma tracks_same: "kinds st' = kinds st \<Longrightarrow> tokens st' = tokens st \<Longrightarrow> tracks st new granted st'"
  by (simp add: tracks_def)

lemma tracks_registry: "same_identities st st' \<Longrightarrow> tracks st new granted st'"
  by (rule tracks_same) (simp_all add: same_identities_def kinds_def)

lemma tracks_offboard: "tracks st new {} (offboard i st)"
  by (auto simp: tracks_def kinds_def set_delete_where)

lemma tracks_fold_offboard: "tracks st new {} (fold offboard is st)"
proof (induction "is" arbitrary: st)
  case Nil
  show ?case by (simp add: tracks_def)
next
  case (Cons i "is")
  then show ?case using tracks_offboard [of st new i] Cons.IH [of "offboard i st"] unfolding tracks_def by fastforce
qed

lemma tracks_step: "tracks st (onboards cfg req) (grants c cfg now req st) (sme_step c cfg now req st)"
proof (cases req)
  case (Register_invoker random caller presented q)
  show ?thesis unfolding Register_invoker
    by (auto simp: register_invoker_def Let_def and_then_def tracks_def onboards_def kinds_def grants_def issued_by_def
        split: sum.splits prod.splits)
next
  case (Update_invoker i key)
  show ?thesis unfolding Update_invoker
    by (rule tracks_same)
       (auto simp: update_invoker_def committed_def and_then_def kinds_def kinds_update split: sum.splits)
next
  case (Set_scope i v)
  show ?thesis unfolding Set_scope
    by (rule tracks_same)
       (auto simp: set_invoker_authz_scope_def committed_def and_then_def kinds_def kinds_update split: sum.splits)
next
  case (Offboard_invoker i)
  show ?thesis unfolding Offboard_invoker
    using tracks_offboard [of st "{}" i] by (auto simp: offboard_invoker_def onboards_def grants_def issued_by_def tracks_def)
next
  case (Purge_stale days dry)
  show ?thesis unfolding Purge_stale
    using purge_cases [of c cfg now days dry st] tracks_fold_offboard [of st "{}" "stale_invokers now days st"]
    by (auto simp: onboards_def grants_def issued_by_def tracks_def)
next
  case (Issue_token token q)
  obtain reply st' where i: "issue_access_token c cfg now token q st = (reply, st')" by fastforce
  then show ?thesis
  proof (cases rule: issue_cases)
    case 1
    then show ?thesis using i by (auto simp: tracks_def Issue_token)
  next
    case (2 who used)
    have who: "who \<in> set (invokers st)" "api_invoker_id who = client_id q" using get_invokerD [OF 2(1)] by auto
    have same: "kinds st' = kinds st" by (simp add: 2(6) kinds_def kinds_update)
    have kind: "(client_id q, invoker_kind who) \<in> set (kinds st)" using who by (force simp: kinds_def)
    have scope: "invoker_kind who = ROLE_INTERNAL"
      if "enforcement_mode (role_enforcement cfg) = ''enforce''" "s \<in> set INTERNAL_SCOPES" "or_none (asked_grant q) = Some s" for s
      using 2(3) that by (auto simp: check_scope_def split: if_splits)
    let ?t = "\<lparr>access_token_hash = sha256 c token, token_invoker = client_id q,
        token_expires_at = now + ACCESS_TOKEN_TTL_SECONDS, granted_scope = or_none (asked_grant q)\<rparr>"
    have "?t \<in> grants c cfg now (Issue_token token q) st"
      using kind scope by (auto simp: grants_def issued_by_def)
    then show ?thesis unfolding Issue_token
      using i same by (auto simp: tracks_def 2(6) who(2))
  qed
next
  case (Put_trusted i body)
  show ?thesis unfolding Put_trusted
    by (rule tracks_same)
       (auto simp: register_trusted_invoker_def committed_def and_then_def kinds_def split: sum.splits option.splits)
next
  case (Update_trusted i body)
  show ?thesis unfolding Update_trusted
    by (rule tracks_same)
       (auto simp: update_trusted_invoker_def committed_def and_then_def kinds_def split: sum.splits)
next
  case (Revoke_trusted i aef apis)
  show ?thesis unfolding Revoke_trusted
    by (rule tracks_same)
       (auto simp: revoke_trusted_invoker_def deregister_trusted_invoker_def committed_def Let_def kinds_def split: option.splits)
next
  case (Deregister_trusted i)
  show ?thesis unfolding Deregister_trusted
    by (rule tracks_same) (auto simp: deregister_trusted_invoker_def kinds_def)
qed (simp_all del: sme_step.simps add: tracks_registry registry_ops_same_identities)

text \<open>Along a run: identities come from onboarding, tokens from the token route, and a token keeps its identity.\<close>

definition all_onboarded :: "sme_settings \<Rightarrow> (seconds \<times> sme_op) list \<Rightarrow> (string \<times> string) set" where
  "all_onboarded cfg reqs = (\<Union>(now, req) \<in> set reqs. onboards cfg req)"

lemma all_onboardedE:
  assumes "(i, kind) \<in> all_onboarded cfg reqs"
  obtains t random caller presented req where "(t, Register_invoker random caller presented req) \<in> set reqs"
    "i = ''api-invoker-'' @ fst random" "enrolled cfg presented = Inr kind"
  using assms by (auto simp: all_onboarded_def onboards_def simp del: append_Cons append_Nil split: sme_op.splits)

lemma run_identities: "set (kinds (sme_run c cfg reqs st)) \<subseteq> set (kinds st) \<union> all_onboarded cfg reqs"
proof (induction reqs arbitrary: st)
  case (Cons r reqs)
  obtain now req where r: "r = (now, req)" by fastforce
  show ?case
    using Cons.IH [of "sme_step c cfg now req st"] tracks_step [of st cfg req c now] r
    unfolding tracks_def all_onboarded_def by auto
qed (simp add: all_onboarded_def)

lemma run_tokens: "t \<in> set (tokens (sme_run c cfg reqs st)) \<Longrightarrow> t \<in> set (tokens st) \<or> issued_by c reqs t"
proof (induction reqs arbitrary: st)
  case (Cons r reqs)
  obtain now req where r: "r = (now, req)" by fastforce
  show ?case
    using Cons.IH [of "sme_step c cfg now req st"] Cons.prems tracks_step [of st cfg req c now] r
      issued_by_Cons [of c r reqs t]
    unfolding tracks_def grants_def by auto
qed simp

text \<open>A token of an internal scope belongs to an internal identity.\<close>

definition scopes_enrolled :: "sme_store \<Rightarrow> bool" where
  "scopes_enrolled st \<longleftrightarrow> (\<forall>t \<in> set (tokens st). (\<exists>s \<in> set INTERNAL_SCOPES. granted_scope t = Some s) \<longrightarrow>
     (token_invoker t, ROLE_INTERNAL) \<in> set (kinds st))"

lemma scopes_enrolled_run:
  assumes "enforcement_mode (role_enforcement cfg) = ''enforce''"
  shows "scopes_enrolled st \<Longrightarrow> scopes_enrolled (sme_run c cfg reqs st)"
proof (rule sme_run_keeps)
  fix now req st assume "scopes_enrolled st"
  then show "scopes_enrolled (sme_step c cfg now req st)"
    using tracks_step [of st cfg req c now] assms unfolding scopes_enrolled_def tracks_def grants_def by blast
qed

subsection \<open>An assertion is exchanged once\<close>

text \<open>
  A request of a run, with the time that passed since the one before: whether it exchanged the assertion
  \<open>a\<close> for a token, and what it leaves. An assertion counts as used once its identifier is recorded up to its
  expiry, or it has expired.
\<close>

definition exchange :: "'k crypto \<Rightarrow> sme_settings \<Rightarrow> string \<Rightarrow> seconds \<times> sme_op \<Rightarrow> sme_store \<times> seconds \<Rightarrow> bool \<times> sme_store \<times> seconds" where
  "exchange c cfg a = (\<lambda>(passed, req) (st, clock).
     (case req of
        Issue_token token q \<Rightarrow> client_assertion q = Some a \<and>
          (case fst (issue_access_token c cfg (clock + passed) token q st) of Granted _ _ \<Rightarrow> True | _ \<Rightarrow> False)
      | _ \<Rightarrow> False,
      sme_step c cfg (clock + passed) req st, clock + passed))"

fun exchanges :: "'k crypto \<Rightarrow> sme_settings \<Rightarrow> string \<Rightarrow> (seconds \<times> sme_op) list \<Rightarrow> sme_store \<times> seconds \<Rightarrow> nat" where
  "exchanges c cfg a [] s = 0"
| "exchanges c cfg a (r # reqs) s = (case exchange c cfg a r s of (granted, s') \<Rightarrow> of_bool granted + exchanges c cfg a reqs s')"

definition assertion_used :: "'k crypto \<Rightarrow> string \<Rightarrow> sme_store \<times> seconds \<Rightarrow> bool" where
  "assertion_used c a = (\<lambda>(st, clock). claim_exp (claims_of c a) \<le> clock \<or>
     (\<exists>u \<in> set (used_assertions st). used_jti u = claim_jti (claims_of c a) \<and> claim_exp (claims_of c a) \<le> assertion_expires_at u))"

text \<open>What PyJWT documents: an assertion whose \<open>exp\<close> is not in the future does not decode.\<close>

definition expiry_checked :: "'k crypto \<Rightarrow> bool" where
  "expiry_checked c \<longleftrightarrow> (\<forall>key now a. assertion_failure c key now a = None \<longrightarrow> now < claim_exp (claims_of c a))"

lemma verified_assertion:
  assumes "verify_client_assertion c now who req a st = Inr (None, st')"
  obtains key where "assertion_failure c key now a = None"
    "\<forall>u \<in> set (used_assertions st). now < assertion_expires_at u \<longrightarrow> used_jti u \<noteq> claim_jti (claims_of c a)"
    "used_assertions st' = delete_where (\<lambda>u. assertion_expires_at u \<le> now) (used_assertions st) @
       [\<lparr>used_jti = claim_jti (claims_of c a), assertion_invoker = api_invoker_id who,
         assertion_expires_at = claim_exp (claims_of c a)\<rparr>]"
proof -
  from assms obtain key where "assertion_failure c key now a = None"
    "row_where (\<lambda>u. used_jti u = claim_jti (claims_of c a)) (delete_where (\<lambda>u. assertion_expires_at u \<le> now) (used_assertions st)) = None"
    "used_assertions st' = delete_where (\<lambda>u. assertion_expires_at u \<le> now) (used_assertions st) @
       [\<lparr>used_jti = claim_jti (claims_of c a), assertion_invoker = api_invoker_id who,
         assertion_expires_at = claim_exp (claims_of c a)\<rparr>]"
    by (auto simp: verify_client_assertion_def Let_def split: if_splits option.splits)
  then show ?thesis by (intro that) (auto simp: row_where_None set_delete_where)
qed

lemma authenticate_used:
  assumes "authenticate c now who req st = Inr st'" "u \<in> set (used_assertions st)" "now < assertion_expires_at u"
  shows "u \<in> set (used_assertions st')"
proof (cases "client_assertion req")
  case None
  then show ?thesis using assms by (auto simp: authenticate_def split: sum.splits if_splits)
next
  case (Some a)
  then have "verify_client_assertion c now who req a st = Inr (None, st')"
    using assms(1) by (auto simp: authenticate_def split: sum.splits option.splits prod.splits)
  then show ?thesis by (rule verified_assertion) (use assms(2,3) in \<open>auto simp: set_delete_where\<close>)
qed

lemma step_keeps_used:
  "\<forall>u \<in> set (used_assertions st). now < assertion_expires_at u \<longrightarrow> u \<in> set (used_assertions (sme_step c cfg now req st))"
proof (cases "\<exists>token q. req = Issue_token token q")
  case True
  then obtain token q where req: "req = Issue_token token q" by blast
  obtain reply st' where i: "issue_access_token c cfg now token q st = (reply, st')" by fastforce
  then show ?thesis
  proof (cases rule: issue_cases)
    case (2 who used)
    then show ?thesis using req i authenticate_used [OF 2(2)] by simp
  qed (use req i in simp)
next
  case False
  have "used_assertions (sme_step c cfg now req st) = used_assertions st"
  proof (cases req)
    case (Purge_stale days dry)
    show ?thesis unfolding Purge_stale by (rule purge_keeps) simp_all
  qed (use False registry_ops_same_identities in \<open>auto simp: same_identities_def committed_def and_then_def Let_def
      register_invoker_def update_invoker_def set_invoker_authz_scope_def offboard_invoker_def register_trusted_invoker_def
      update_trusted_invoker_def deregister_trusted_invoker_def revoke_trusted_invoker_def split: sum.splits option.splits prod.splits\<close>)
  then show ?thesis by simp
qed

interpretation assertion: exclusive_claim "exchange c cfg a" "\<lambda>(passed, req). 0 \<le> passed" "assertion_used c a" "\<lambda>_. expiry_checked c"
  for c :: "'k crypto" and cfg a
proof
  fix s r w s'
  assume ok: "expiry_checked c" and within: "case r of (passed, req) \<Rightarrow> 0 \<le> passed" and x: "exchange c cfg a r s = (w, s')"
  obtain passed req st clock st' clock' where r: "r = (passed, req)" and s: "s = (st, clock)" "s' = (st', clock')"
    by (metis surj_pair)
  let ?now = "clock + passed"
  have st': "st' = sme_step c cfg ?now req st" "clock' = ?now" "0 \<le> passed" using x within r s by (auto simp: exchange_def simp del: sme_step.simps)
  have granted: "\<exists>key. assertion_failure c key ?now a = None \<and>
      (\<forall>u \<in> set (used_assertions st). ?now < assertion_expires_at u \<longrightarrow> used_jti u \<noteq> claim_jti (claims_of c a)) \<and>
      (\<exists>u \<in> set (used_assertions st'). used_jti u = claim_jti (claims_of c a) \<and> assertion_expires_at u = claim_exp (claims_of c a))" if won: w
  proof -
    obtain token q tok g where q: "req = Issue_token token q" "client_assertion q = Some a"
      "fst (issue_access_token c cfg ?now token q st) = Granted tok g"
      using x r s won by (auto simp: exchange_def simp del: sme_step.simps split: sme_op.splits token_reply.splits)
    obtain reply st2 where i: "issue_access_token c cfg ?now token q st = (reply, st2)" by fastforce
    then show ?thesis
    proof (cases rule: issue_cases)
      case (2 who used)
      then obtain st1 where v: "verify_client_assertion c ?now who q a st = Inr (None, st1)" "st1 = st\<lparr>used_assertions := used\<rparr>"
        using q(2) by (auto simp: authenticate_def split: option.splits sum.splits)
      then show ?thesis
        using i q(1) 2(6) st'(1) by (auto elim!: verified_assertion)
    qed (use i q(3) in auto)
  qed
  show "expiry_checked c \<and> (w \<longrightarrow> assertion_used c a s')"
    using ok granted s unfolding assertion_used_def by (metis (mono_tags, lifting) case_prod_conv order_refl)
  assume held: "assertion_used c a s"
  have "\<not> w"
  proof
    assume w
    obtain key where key: "assertion_failure c key ?now a = None"
      "\<forall>u \<in> set (used_assertions st). ?now < assertion_expires_at u \<longrightarrow> used_jti u \<noteq> claim_jti (claims_of c a)"
      using granted [OF \<open>w\<close>] by blast
    then have "?now < claim_exp (claims_of c a)" using ok by (auto simp: expiry_checked_def)
    then show False using held key(2) s st'(3) by (force simp: assertion_used_def)
  qed
  moreover have "assertion_used c a s'"
    using held s st' step_keeps_used [of st ?now c cfg req] by (force simp: assertion_used_def)
  ultimately show "\<not> w \<and> assertion_used c a s'" ..
qed

lemma exchanges_wins: "exchanges (c :: 'k crypto) cfg a reqs s = assertion.wins TYPE('k) c cfg a reqs s"
  by (induction reqs arbitrary: s) (auto split: prod.splits)

subsection \<open>A claim handed on is no wider\<close>

lemma axis_of_given:
  assumes "axis_of_claim members axis = Inr a"
    "map_of members axis = (case b of None \<Rightarrow> None | Some B \<Rightarrow> Some (JList (map JStr (sorted_list_of_set B))))"
  shows "a = b"
proof (cases b)
  case (Some B)
  have same: "map (json_text \<circ> JStr) xs = xs" for xs by (induction xs) auto
  have "sorted_list_of_set B \<noteq> []" using assms Some by (auto simp: axis_of_claim_def split: if_splits)
  then have "finite B" using sorted_list_of_set.fold_insort_key.infinite by blast
  then show ?thesis using assms Some by (auto simp: axis_of_claim_def same image_image split: if_splits)
qed (use assms in \<open>simp add: axis_of_claim_def\<close>)

lemma claim_no_wider:
  assumes "from_claim (to_claim (Some s)) = Inr v" "permits v region tenant"
  shows "permits (Some s) region tenant"
proof -
  let ?m = "axis_members ''regions'' (regions s) @ axis_members ''tenants'' (tenants s)"
  show ?thesis
  proof (cases "?m = []")
    case True
    then have "regions s = None" "tenants s = None" by (auto simp: axis_members_def split: option.splits)
    then show ?thesis by (simp add: permits_def axis_permits_def)
  next
    case False
    then obtain rs ts where axes: "axis_of_claim ?m ''regions'' = Inr rs" "axis_of_claim ?m ''tenants'' = Inr ts"
      "v = (if rs = None \<and> ts = None then None else Some \<lparr>regions = rs, tenants = ts\<rparr>)"
      using assms(1) by (auto simp: to_claim_def and_then_Inr_iff split: if_splits)
    have "rs = regions s" by (rule axis_of_given [OF axes(1)]) (auto simp: axis_members_def split: option.splits)
    moreover have "ts = tenants s" by (rule axis_of_given [OF axes(2)]) (auto simp: axis_members_def split: option.splits)
    ultimately show ?thesis using assms(2) axes(3) by (auto simp: permits_def axis_permits_def split: if_splits option.splits)
  qed
qed

lemma handed_claim_no_wider:
  assumes "handed_claim caller claim = Inr given" "permits (from_introspection given) region tenant"
  shows "permits caller region tenant"
proof (cases caller)
  case (Some s)
  obtain v where v: "from_claim given = Inr v" "permits v region tenant"
    using assms(2) by (auto simp: from_introspection_def split: sum.splits)
  show ?thesis
  proof (cases "claim = JNull")
    case True
    then show ?thesis using assms(1) Some v claim_no_wider by (auto simp: handed_claim_def split: if_splits)
  next
    case False
    then have "given = claim" "covers caller v" using assms(1) Some v(1) by (auto simp: handed_claim_def split: if_splits)
    then show ?thesis using covers_exact [of v caller] from_claim_wf [of given] v by auto
  qed
qed (simp add: permits_def)

subsection \<open>The properties\<close>

text \<open>C15: An internal identity was enrolled: in any run of SME with an enrollment secret and the role policy
  enforced, an active token whose introspection says \<open>internal\<close>, or that was granted a scope of the SMO's own
  modules, is for an invoker that was registered by a request that presented that very secret. No sequence of
  registrations, scope edits, token requests and offboardings lets an rApp reach either.\<close>

theorem internal_token_was_enrolled:
  assumes "enrollment_secret cfg = Some secret" "secret \<noteq> []" "enforcement_mode (role_enforcement cfg) = ''enforce''"
    and "introspect_token c now token (sme_run c cfg reqs empty_sme) = Some answer"
    and "active_role answer = ROLE_INTERNAL \<or> active_scope answer \<in> Some ` set INTERNAL_SCOPES"
  shows "\<exists>t random caller req. (t, Register_invoker random caller (Some secret) req) \<in> set reqs \<and>
    active_client answer = ''api-invoker-'' @ fst random"
proof -
  let ?st = "sme_run c cfg reqs empty_sme"
  obtain tk where tk: "tk \<in> set (tokens ?st)" "active_client answer = token_invoker tk"
    "active_role answer = (case get_invoker ?st (token_invoker tk) of None \<Rightarrow> ROLE_RAPP | Some r \<Rightarrow> invoker_kind r)"
    "active_scope answer = or_none (granted_scope tk)"
    using assms(4) by (auto simp: introspect_token_def Let_def dest: get_tokenD split: option.splits if_splits)
  have "scopes_enrolled ?st"
    by (rule scopes_enrolled_run [OF assms(3)]) (simp add: scopes_enrolled_def empty_sme_def)
  then have "active_scope answer \<in> Some ` set INTERNAL_SCOPES \<Longrightarrow> (token_invoker tk, ROLE_INTERNAL) \<in> set (kinds ?st)"
    using tk(1,4) by (auto simp: scopes_enrolled_def)
  moreover have "active_role answer = ROLE_INTERNAL \<Longrightarrow> (token_invoker tk, ROLE_INTERNAL) \<in> set (kinds ?st)"
    using tk(3) get_invokerD [of ?st "token_invoker tk"] by (force simp: kinds_def header_names split: option.splits)
  ultimately have "(token_invoker tk, ROLE_INTERNAL) \<in> all_onboarded cfg reqs"
    using assms(5) run_identities [of c cfg reqs empty_sme] by (auto simp: kinds_def empty_sme_def)
  then obtain t random caller presented req where r: "(t, Register_invoker random caller presented req) \<in> set reqs"
    "token_invoker tk = ''api-invoker-'' @ fst random" "enrolled cfg presented = Inr ROLE_INTERNAL"
    by (rule all_onboardedE)
  have "presented = Some secret"
    using r(3) assms(1,2) by (auto simp: enrolled_def enrollment_secret_valid_def header_names or_none_def split: if_splits option.splits)
  then show ?thesis using r(1,2) tk(2) by metis
qed

text \<open>C20: What introspection calls active was issued: the token was handed out at most an hour ago, by the token
  route, to a request that named the invoker it is for, and that invoker is registered now; role and scope claim
  are the ones its registration holds at the moment of the question.\<close>

theorem active_token_is_live:
  assumes "introspect_token c now token (sme_run c cfg reqs empty_sme) = Some answer"
  shows "\<exists>t token' req reg. (t, Issue_token token' req) \<in> set reqs \<and> sha256 c token' = sha256 c token \<and>
    client_id req = active_client answer \<and> active_until answer = t + ACCESS_TOKEN_TTL_SECONDS \<and> now < active_until answer \<and>
    get_invoker (sme_run c cfg reqs empty_sme) (active_client answer) = Some reg \<and> active_role answer = invoker_kind reg \<and>
    from_introspection (active_claim answer) = from_introspection (invoker_claim reg)"
proof -
  let ?st = "sme_run c cfg reqs empty_sme"
  obtain tk where tk: "tk \<in> set (tokens ?st)" "access_token_hash tk = sha256 c token" "now < token_expires_at tk"
    "active_client answer = token_invoker tk" "active_until answer = token_expires_at tk"
    using assms by (auto simp: introspect_token_def Let_def dest: get_tokenD split: option.splits if_splits)
  have "issued_by c reqs tk" using run_tokens [OF tk(1)] by (simp add: empty_sme_def)
  moreover obtain reg where reg: "get_invoker ?st (token_invoker tk) = Some reg"
    using identities_ok_run [OF identities_ok_empty, of c cfg reqs] tk(1) get_invoker_iff [of ?st "token_invoker tk"]
    by (auto simp: identities_ok_def)
  moreover have "active_role answer = invoker_kind reg"
      "from_introspection (active_claim answer) = from_introspection (invoker_claim reg)"
    using assms tk reg by (auto simp: introspect_token_def Let_def from_introspection_def axis_of_claim_def split: option.splits if_splits)
  ultimately show ?thesis using tk unfolding issued_by_def by force
qed

text \<open>C17: Nothing an offboarded invoker was granted outlives it: whatever SME does after the offboarding, unless it
  draws the same identifier again for a new invoker, no token introspects as active for it and it has no security
  context, though other invokers come, go and get tokens.\<close>

theorem offboarded_stays_out:
  assumes "\<And>t random caller presented req. (t, Register_invoker random caller presented req) \<in> set later \<Longrightarrow>
      ''api-invoker-'' @ fst random \<noteq> i"
  shows "(\<forall>answer. introspect_token c now token (sme_run c cfg later (offboard_invoker i (sme_run c cfg reqs empty_sme))) = Some answer
            \<longrightarrow> active_client answer \<noteq> i) \<and>
         get_trusted (sme_run c cfg later (offboard_invoker i (sme_run c cfg reqs empty_sme))) i = None"
proof -
  let ?before = "sme_run c cfg reqs empty_sme"
  let ?st = "sme_run c cfg later (offboard_invoker i ?before)"
  have ok: "identities_ok ?before" by (rule identities_ok_run [OF identities_ok_empty])
  have ok2: "identities_ok (offboard_invoker i ?before)"
    using ok by (simp add: offboard_invoker_def identities_ok_offboard)
  have "i \<notin> invoker_ids_of (offboard_invoker i ?before)"
    by (auto simp: offboard_invoker_def get_invoker_iff invoker_ids_of_def set_delete_where)
  moreover have "(i, kind) \<notin> all_onboarded cfg later" for kind
    using assms by (blast elim: all_onboardedE)
  ultimately have gone: "i \<notin> invoker_ids_of ?st"
    using run_identities [of c cfg later "offboard_invoker i ?before"] by (auto simp: invoker_ids_kinds)
  have ok3: "identities_ok ?st" using identities_ok_run [OF ok2] .
  show ?thesis
    using gone ok3 by (auto simp: identities_ok_def introspect_token_def Let_def split: option.splits if_splits
        dest!: get_tokenD get_trustedD) (auto simp: get_trusted_def row_where_None)
qed


text \<open>C18: A registration never widens a scope: every element the new invoker's claim reaches, as introspection will
  report it, is one the scope of the caller that registered it reaches, whether the caller named a claim or not.\<close>

theorem registration_never_widens:
  assumes "register_invoker c cfg now random caller presented req st = Inr (reply, st')"
    and "permits (from_introspection (new_claim reply)) region tenant"
  shows "permits caller region tenant"
proof -
  obtain asked claim where "handed_claim caller asked = Inr claim" "new_claim reply = claim"
    using assms(1) by (auto simp: register_invoker_def and_then_Inr_iff Let_def split: prod.splits if_splits)
  then show ?thesis using handed_claim_no_wider assms(2) by blast
qed

end
