(* ===== verification/GatewayCaches.thy ===== *)
theory GatewayCaches
  imports SmeClaims "HOL-Library.AList" Complex_Main
begin

section \<open>The caches of the R1 gateway\<close>

text \<open>
  The cache of kill-switch answers (\<open>shared/smo_shared/killswitch.py\<close>), whose shape the operator-API lookup of
  \<open>r1-termination/app/operator_api.py\<close> repeats, and the cache of token introspections
  (\<open>r1-termination/app/introspection_cache.py\<close>). Clocks are rational numbers of seconds; a dictionary is an
  association list in insertion order, so \<open>popitem(last=False)\<close> takes the head. The digest of a token is a
  parameter.
\<close>

subsection \<open>Answers with an age\<close>

type_synonym 'a aged = "(string \<times> rat \<times> 'a) list"

definition STALE_SECONDS :: rat where "STALE_SECONDS = 60"
definition MAX_CACHED :: nat where "MAX_CACHED = 10000"

definition young :: "rat \<Rightarrow> rat \<Rightarrow> (rat \<times> 'a) option \<Rightarrow> 'a option" where
  "young limit moment entry = (case entry of None \<Rightarrow> None | Some (t, v) \<Rightarrow> if moment - t < limit then Some v else None)"

definition keep_answer :: "string \<Rightarrow> rat \<times> 'a \<Rightarrow> 'a aged \<Rightarrow> 'a aged" where
  "keep_answer k e cache = AList.update k e (if MAX_CACHED \<le> length cache then [] else cache)"

text \<open>\<open>read\<close> is the database: \<open>None\<close> when it cannot be read. \<open>Inl\<close> is \<open>KillSwitchUnavailable\<close>.\<close>

definition is_killed :: "rat \<Rightarrow> rat \<Rightarrow> (string \<Rightarrow> bool option) \<Rightarrow> string \<Rightarrow> bool aged \<Rightarrow> (unit + bool) \<times> bool aged" where
  "is_killed ttl moment read i cache =
     (case young ttl moment (map_of cache i) of
        Some killed \<Rightarrow> (Inr killed, cache)
      | None \<Rightarrow>
          (case read i of
             Some killed \<Rightarrow> (Inr killed, keep_answer i (moment, killed) cache)
           | None \<Rightarrow>
               (case young STALE_SECONDS moment (map_of cache i) of
                  Some killed \<Rightarrow> (Inr killed, cache)
                | None \<Rightarrow> (Inl (), cache))))"

text \<open>
  The history of the switches is \<open>truth\<close>; a cache is truthful at a moment when every entry is what the
  switch was at the time the entry carries, or after it.
\<close>

definition truthful :: "(rat \<Rightarrow> string \<Rightarrow> 'a) \<Rightarrow> rat \<Rightarrow> 'a aged \<Rightarrow> bool" where
  "truthful truth moment cache \<longleftrightarrow> (\<forall>k t v. map_of cache k = Some (t, v) \<longrightarrow> (\<exists>u. t \<le> u \<and> u \<le> moment \<and> truth u k = v))"

lemma truthful_Nil [simp]: "truthful truth moment []"
  by (simp add: truthful_def)

lemma truthful_later: "truthful truth m cache \<Longrightarrow> m \<le> m' \<Longrightarrow> truthful truth m' cache"
  unfolding truthful_def by (meson order_trans)

lemma truthful_keep:
  "truthful truth moment cache \<Longrightarrow> t \<le> u \<Longrightarrow> u \<le> moment \<Longrightarrow> truth u k = v \<Longrightarrow> truthful truth moment (keep_answer k (t, v) cache)"
  by (auto simp: truthful_def keep_answer_def update_conv')

lemma young_truth:
  assumes "truthful truth moment cache" "young limit moment (map_of cache k) = Some v"
  shows "\<exists>u. moment - limit < u \<and> u \<le> moment \<and> truth u k = v"
proof -
  obtain t where t: "map_of cache k = Some (t, v)" "moment - t < limit"
    using assms(2) by (auto simp: young_def split: option.splits if_splits)
  then obtain u where "t \<le> u" "u \<le> moment" "truth u k = v" using assms(1) unfolding truthful_def by meson
  then show ?thesis using t(2) by (intro exI [of _ u]) auto
qed

lemma keep_answer_bound: "length cache \<le> MAX_CACHED \<Longrightarrow> length (keep_answer k e cache) \<le> MAX_CACHED"
proof -
  have one: "length (AList.update k e c) \<le> Suc (length c)" for c :: "'a aged" by (induction c) auto
  show "length cache \<le> MAX_CACHED \<Longrightarrow> length (keep_answer k e cache) \<le> MAX_CACHED"
    using one [of cache] one [of "[]"] by (auto simp: keep_answer_def MAX_CACHED_def)
qed

text \<open>One question: the database answers at some moment \<open>later\<close>, after the clock was read.\<close>

lemma is_killed_truth:
  assumes "truthful truth moment cache" "moment \<le> later" "\<And>b. read i = Some b \<Longrightarrow> truth later i = b" "0 \<le> ttl"
    "is_killed ttl moment read i cache = (Inr b, cache')"
  shows "(\<exists>u. moment - max ttl STALE_SECONDS < u \<and> u \<le> later \<and> truth u i = b) \<and> truthful truth later cache'"
proof (cases "young ttl moment (map_of cache i)")
  case (Some k)
  then have same: "k = b" "cache' = cache" using assms(5) by (auto simp: is_killed_def)
  obtain u where "moment - ttl < u" "u \<le> moment" "truth u i = b" using young_truth [OF assms(1) Some] same(1) by blast
  then have "moment - max ttl STALE_SECONDS < u" "u \<le> later" using assms(2) by auto
  then show ?thesis using \<open>truth u i = b\<close> truthful_later [OF assms(1,2)] same(2) by blast
next
  case None
  show ?thesis
  proof (cases "read i")
    case (Some k)
    then have "truth later i = b" "cache' = keep_answer i (moment, b) cache" using assms(3,5) None by (auto simp: is_killed_def)
    moreover have "moment - max ttl STALE_SECONDS < later" using assms(2) by (simp add: STALE_SECONDS_def max_def)
    ultimately show ?thesis
      using truthful_keep [OF truthful_later [OF assms(1,2)] assms(2) order_refl] by blast
  next
    case none: None
    then have y: "young STALE_SECONDS moment (map_of cache i) = Some b" "cache' = cache"
      using assms(5) None by (auto simp: is_killed_def split: option.splits)
    obtain u where "moment - STALE_SECONDS < u" "u \<le> moment" "truth u i = b" using young_truth [OF assms(1) y(1)] by blast
    then have "moment - max ttl STALE_SECONDS < u" "u \<le> later" using assms(2) by auto
    then show ?thesis using \<open>truth u i = b\<close> truthful_later [OF assms(1,2)] y(2) by blast
  qed
qed

subsection \<open>The cache of token introspections\<close>

record caller =
  caller_id :: string
  caller_role :: string
  caller_scope :: "scope option"

record cached_answer =
  cache_until :: rat
  cached_caller :: "caller option"

record token_cache =
  cache_entries :: "(string \<times> cached_answer) list"
  generation :: nat
  max_entries :: nat

definition NEGATIVE_SECONDS :: rat where "NEGATIVE_SECONDS = 5"

definition new_cache :: "nat \<Rightarrow> token_cache" where
  "new_cache n = \<lparr>cache_entries = [], generation = 0, max_entries = max 1 n\<rparr>"

text \<open>\<open>entries.pop(key, None)\<close>.\<close>

definition without :: "string \<Rightarrow> (string \<times> 'a) list \<Rightarrow> (string \<times> 'a) list" where
  "without key es = filter (\<lambda>(k, e). k \<noteq> key) es"

text \<open>\<open>None\<close> is a miss; an expired entry is deleted on the way.\<close>

definition cache_get :: "string \<Rightarrow> rat \<Rightarrow> token_cache \<Rightarrow> caller option option \<times> token_cache" where
  "cache_get key now c =
     (case map_of (cache_entries c) key of
        None \<Rightarrow> (None, c)
      | Some e \<Rightarrow>
          if cache_until e \<le> now then (None, c\<lparr>cache_entries := without key (cache_entries c)\<rparr>)
          else (Some (cached_caller e), c))"

definition drop_expired :: "rat \<Rightarrow> (string \<times> cached_answer) list \<Rightarrow> (string \<times> cached_answer) list" where
  "drop_expired now es = filter (\<lambda>(k, e). \<not> cache_until e \<le> now) es"

definition cache_put :: "string \<Rightarrow> caller option \<Rightarrow> rat \<Rightarrow> nat \<Rightarrow> rat \<Rightarrow> token_cache \<Rightarrow> token_cache" where
  "cache_put key answer ttl gen now c =
     (if ttl \<le> 0 then c
      else if gen \<noteq> generation c then c
      else let es = without key (cache_entries c) @ [(key, \<lparr>cache_until = now + ttl, cached_caller = answer\<rparr>)]
           in if length es > max_entries c
              then let live = drop_expired now es in c\<lparr>cache_entries := drop (length live - max_entries c) live\<rparr>
              else c\<lparr>cache_entries := es\<rparr>)"

definition evict_invoker :: "string \<Rightarrow> token_cache \<Rightarrow> token_cache" where
  "evict_invoker i c =
     c\<lparr>generation := Suc (generation c),
       cache_entries := filter (\<lambda>(k, e). \<not> (\<exists>who. cached_caller e = Some who \<and> caller_id who = i)) (cache_entries c)\<rparr>"

definition clear_cache :: "token_cache \<Rightarrow> token_cache" where
  "clear_cache c = c\<lparr>generation := Suc (generation c), cache_entries := []\<rparr>"

text \<open>The operations of the cache, as one step each.\<close>

datatype cache_op =
    Get string rat
  | Put string "caller option" rat nat rat
  | Evict string
  | Clear

fun cache_step :: "cache_op \<Rightarrow> token_cache \<Rightarrow> token_cache" where
  "cache_step (Get key now) c = snd (cache_get key now c)"
| "cache_step (Put key answer ttl gen now) c = cache_put key answer ttl gen now c"
| "cache_step (Evict i) c = evict_invoker i c"
| "cache_step Clear c = clear_cache c"

lemma set_cache_put: "set (cache_entries (cache_put key answer ttl gen now c)) \<subseteq>
    insert (key, \<lparr>cache_until = now + ttl, cached_caller = answer\<rparr>) (set (cache_entries c))"
  by (auto simp: cache_put_def Let_def drop_expired_def without_def dest!: in_set_dropD split: if_splits)

lemma cache_put_unless: "ttl \<le> 0 \<or> gen \<noteq> generation c \<Longrightarrow> cache_put key answer ttl gen now c = c"
  by (auto simp: cache_put_def)

lemma cache_put_frame [simp]:
  "generation (cache_put key answer ttl gen now c) = generation c" "max_entries (cache_put key answer ttl gen now c) = max_entries c"
  by (simp_all add: cache_put_def Let_def)

lemma cache_get_frame [simp]:
  "generation (snd (cache_get key now c)) = generation c" "max_entries (snd (cache_get key now c)) = max_entries c"
  by (simp_all add: cache_get_def split: option.splits)

lemma set_cache_get: "set (cache_entries (snd (cache_get key now c))) \<subseteq> set (cache_entries c)"
  by (auto simp: cache_get_def without_def split: option.splits)

lemma cache_hit: "fst (cache_get key now c) = Some answer \<Longrightarrow>
    \<exists>e. (key, e) \<in> set (cache_entries c) \<and> cached_caller e = answer \<and> now < cache_until e"
  by (auto simp: cache_get_def dest!: map_of_SomeD split: option.splits if_splits)

text \<open>The introspection cache is bounded: after any operations on a new cache it holds at most the configured
  number of entries (one at least), each token once, so a flood of distinct tokens cannot grow it.\<close>

theorem token_cache_bounded:
  "length (cache_entries (fold cache_step ops (new_cache n))) \<le> max 1 n \<and>
   distinct (map fst (cache_entries (fold cache_step ops (new_cache n))))"
proof -
  define ok :: "token_cache \<Rightarrow> bool" where
    "ok = (\<lambda>c. max_entries c = max 1 n \<and> length (cache_entries c) \<le> max_entries c \<and> distinct (map fst (cache_entries c)))"
  have filtered: "distinct (map fst (filter P es))" if "distinct (map fst es)" for P and es :: "(string \<times> cached_answer) list"
    using that by (rule distinct_map_filter)
  have deleted: "distinct (map fst (without k es)) \<and> length (without k es) \<le> length es \<and> k \<notin> fst ` set (without k es)"
    if "distinct (map fst es)" for k and es :: "(string \<times> cached_answer) list"
    using that filtered by (simp add: without_def) force
  have "ok (cache_step x c)" if "ok c" for x c
  proof (cases x)
    case (Put key answer ttl gen now)
    have all: "distinct (map fst (without key (cache_entries c) @ [(key, e)]))" for e
      using deleted [of "cache_entries c" key] that by (auto simp: ok_def)
    then have "distinct (map fst (drop m (drop_expired now (without key (cache_entries c) @ [(key, e)]))))" for m e
      unfolding drop_map [symmetric] drop_expired_def by (intro distinct_drop filtered)
    moreover have "length (drop (length es - m) es) \<le> m" for m and es :: "(string \<times> cached_answer) list" by simp
    ultimately show ?thesis
      using that all [of "\<lparr>cache_until = now + ttl, cached_caller = answer\<rparr>"]
      unfolding Put ok_def cache_step.simps cache_put_def Let_def by (simp del: length_drop drop_append)
  next
    case (Get key now)
    then show ?thesis using that deleted [of "cache_entries c" key] by (auto simp: ok_def cache_get_def split: option.splits)
  next
    case (Evict i)
    then show ?thesis
      using that by (auto simp: ok_def evict_invoker_def intro: filtered order_trans [OF length_filter_le])
  qed (use that in \<open>simp add: ok_def clear_cache_def\<close>)
  then have run: "ok (fold cache_step ops c)" if "ok c" for c
    using that by (induction ops arbitrary: c) auto
  have "ok (new_cache n)" by (simp add: ok_def new_cache_def)
  from run [OF this] show ?thesis unfolding ok_def by metis
qed

end
