(* ===== verification/Gateway.thy ===== *)
theory Gateway
  imports GatewayCaches Webhook
begin

section \<open>The R1 gateway\<close>

text \<open>
  \<open>r1-termination/app/main.py\<close> and the operator API of \<open>operator_api.py\<close>. \<open>proxy\<close> is
  the whole handler \<open>_proxy\<close> in the order of its checks; \<open>serve\<close> adds what \<open>proxy\<close> of the code does around it
  (evicting revoked tokens, the audit row). What lies outside is in \<open>gateway_env\<close>: the answers of SME and
  rApp Management to a question asked now, the kill-switch table, the rate limiter (a state of any type, so that
  either limiter of the rate-limit component fits), the settings, the token digest, the JSON serialiser, the
  reader of UUIDs and the correlation and trace ids of the request. Header names are compared as the framework
  compares them, in lower case; a dictionary of headers is an association list.
\<close>

subsection \<open>Requests and their headers\<close>

record request =
  req_method :: string
  full_path :: string
  req_headers :: "(string \<times> string) list"

text \<open>\<open>request.headers.get(name)\<close>: the first header of that name.\<close>

definition received :: "(string \<times> string) list \<Rightarrow> headers" where
  "received hs name = map_of (map (\<lambda>(k, v). (lower k, v)) hs) (lower name)"

definition CORRELATION_ID_HEADER :: string where "CORRELATION_ID_HEADER = ''X-Correlation-ID''"

definition DROPPED :: "string list" where
  "DROPPED = [''host'', lower CORRELATION_ID_HEADER, lower INVOKER_ID_HEADER, lower ROLE_HEADER, lower ON_BEHALF_OF_HEADER,
     lower ACTING_USER_HEADER, lower SCOPE_HEADER, lower ON_BEHALF_SCOPE_HEADER, lower ACTING_USER_SCOPE_HEADER,
     ''traceparent'', ''tracestate'']"

text \<open>\<open>scope.encode\<close>; \<open>dumps\<close> is \<open>json.dumps\<close>.\<close>

definition encode :: "(json \<Rightarrow> string) \<Rightarrow> scope option \<Rightarrow> string option" where
  "encode dumps sc = (case to_claim sc of JNull \<Rightarrow> None | claim \<Rightarrow> Some (dumps claim))"

text \<open>\<open>if value: headers[name] = value\<close>.\<close>

definition set_if :: "string \<Rightarrow> string option \<Rightarrow> (string \<times> string) list \<Rightarrow> (string \<times> string) list" where
  "set_if name v hs = (case or_none v of None \<Rightarrow> hs | Some s \<Rightarrow> AList.update name s hs)"

definition stamp_scope :: "(json \<Rightarrow> string) \<Rightarrow> request \<Rightarrow> string \<Rightarrow> scope option \<Rightarrow> (string \<times> string) list \<Rightarrow> (string \<times> string) list" where
  "stamp_scope dumps req role sc hs =
     (let hs1 = set_if SCOPE_HEADER (encode dumps sc) hs
      in if role = ROLE_INTERNAL
         then set_if ON_BEHALF_SCOPE_HEADER (received (req_headers req) ON_BEHALF_SCOPE_HEADER) hs1 else hs1)"

definition forwarded_headers :: "(json \<Rightarrow> string) \<Rightarrow> string \<Rightarrow> request \<Rightarrow> caller \<Rightarrow> (string \<times> string) list" where
  "forwarded_headers dumps correlation req who =
     (let role = caller_role who;
          own = fold (\<lambda>(k, v). AList.update k v) (filter (\<lambda>(k, v). lower k \<notin> set DROPPED) (req_headers req)) [];
          hs1 = AList.update CORRELATION_ID_HEADER correlation (AList.update ROLE_HEADER role own);
          hs2 = set_if INVOKER_ID_HEADER (Some (caller_id who)) hs1;
          hs3 = stamp_scope dumps req role (caller_scope who) hs2
      in if role \<noteq> ROLE_INTERNAL then hs3
         else let hs4 = set_if ON_BEHALF_OF_HEADER (received (req_headers req) ON_BEHALF_OF_HEADER) hs3
              in if or_none (received (req_headers req) ACTING_USER_HEADER) = None then hs4
                 else set_if ACTING_USER_SCOPE_HEADER (received (req_headers req) ACTING_USER_SCOPE_HEADER)
                        (set_if ACTING_USER_HEADER (received (req_headers req) ACTING_USER_HEADER) hs4))"

subsection \<open>The token\<close>

datatype sme_answer = No_answer | Status nat | Not_json | Says "introspection option"
datatype lookup_failure = Unavailable | Unreadable

definition bearer_token :: "request \<Rightarrow> string option" where
  "bearer_token req =
     (let auth = (case received (req_headers req) ''authorization'' of None \<Rightarrow> '''' | Some v \<Rightarrow> v)
      in if \<not> prefix ''bearer '' (lower auth) then None else or_none (Some (strip (drop 7 auth))))"

definition caller_of :: "introspection \<Rightarrow> caller" where
  "caller_of a =
     \<lparr>caller_id = active_client a,
      caller_role = (if active_role a \<noteq> [] then active_role a
                     else if active_scope a \<in> Some ` set INTERNAL_SCOPES then ROLE_INTERNAL else ROLE_RAPP),
      caller_scope = from_introspection (active_claim a)\<rparr>"

text \<open>How an answer of SME is read (\<open>Inl\<close>: SME could not say, or a 200 that is not JSON, which raises) and how long it may be kept.\<close>

definition read_answer :: "sme_answer \<Rightarrow> lookup_failure + introspection option" where
  "read_answer r =
     (case r of No_answer \<Rightarrow> Inl Unavailable
      | Status n \<Rightarrow> if 500 \<le> n then Inl Unavailable else Inr None
      | Not_json \<Rightarrow> Inl Unreadable
      | Says a \<Rightarrow> Inr a)"

definition life_of :: "rat \<Rightarrow> rat \<Rightarrow> introspection option \<Rightarrow> rat" where
  "life_of ttl now a = (case a of None \<Rightarrow> min ttl NEGATIVE_SECONDS | Some x \<Rightarrow> min ttl (of_int (active_until x) - now))"

definition introspect_bearer :: "(string \<Rightarrow> string) \<Rightarrow> (string \<Rightarrow> sme_answer) \<Rightarrow> rat \<Rightarrow> rat \<Rightarrow> request \<Rightarrow> token_cache \<Rightarrow>
    (lookup_failure + caller option) \<times> token_cache" where
  "introspect_bearer key_of ask ttl now req c =
     (case bearer_token req of
        None \<Rightarrow> (Inr None, c)
      | Some token \<Rightarrow>
          let gen = generation c;
              (found, c1) = (if ttl > 0 then cache_get (key_of token) now c else (None, c))
          in case found of
               Some answer \<Rightarrow> (Inr answer, c1)
             | None \<Rightarrow>
                 (case read_answer (ask token) of
                    Inl why \<Rightarrow> (Inl why, c1)
                  | Inr a \<Rightarrow>
                      (Inr (map_option caller_of a),
                       if ttl > 0 then cache_put (key_of token) (map_option caller_of a) (life_of ttl now a) gen now c1 else c1)))"

text \<open>\<open>_drop_revoked_tokens\<close>.\<close>

definition drop_revoked_tokens :: "string \<Rightarrow> string \<Rightarrow> nat \<Rightarrow> token_cache \<Rightarrow> token_cache" where
  "drop_revoked_tokens meth path status c =
     (if \<not> (200 \<le> status \<and> status < 300) then c
      else case filter (\<lambda>p. p \<noteq> []) (split_on CHR ''/'' path) of
        [a, b, i, d] \<Rightarrow>
          if a = ''sme'' \<and> b = ''invoker-registrations'' \<and> d = ''authz-scope'' \<and> meth = ''PUT'' then evict_invoker i c else c
      | [a, b, i] \<Rightarrow>
          if a = ''sme'' \<and> b = ''invoker-registrations''
          then (if meth = ''DELETE'' then evict_invoker i c
                else if meth = ''POST'' \<and> i = ''purge-stale'' then clear_cache c else c)
          else c
      | _ \<Rightarrow> c)"

lemma set_drop_revoked: "set (cache_entries (drop_revoked_tokens meth path status c)) \<subseteq> set (cache_entries c)"
  by (auto simp: drop_revoked_tokens_def evict_invoker_def clear_cache_def split: list.splits)

lemma generation_drop_revoked: "generation c \<le> generation (drop_revoked_tokens meth path status c)"
  by (auto simp: drop_revoked_tokens_def evict_invoker_def clear_cache_def split: list.splits)

subsection \<open>The operator API of an rApp\<close>

definition OPERATOR_PREFIX :: string where "OPERATOR_PREFIX = ''rapps''"

definition route_character :: "char \<Rightarrow> bool" where
  "route_character ch \<longleftrightarrow> alnum ch \<or> ch \<in> set ''._~-''"

definition declared_route :: "string \<Rightarrow> bool" where
  "declared_route r \<longleftrightarrow> r = [] \<or> (hd r = CHR ''/'' \<and>
     list_all (\<lambda>part. part \<noteq> [] \<and> list_all route_character part) (split_on CHR ''/'' (tl r)))"

definition operator_split :: "(string \<Rightarrow> string option) \<Rightarrow> string \<Rightarrow> (string \<times> string) option" where
  "operator_split read_uuid rest =
     (case partition_at CHR ''/'' rest of (first, found, others) \<Rightarrow>
        if \<not> found then None
        else case partition_at CHR ''/'' others of (second, further, tail) \<Rightarrow>
          if second \<noteq> ''operator'' then None
          else case read_uuid first of None \<Rightarrow> None
            | Some instance_id \<Rightarrow>
                let route = (if further then CHR ''/'' # tail else [])
                in if declared_route route then Some (instance_id, route) else None)"

datatype base_answer = No_base | Base_status nat | Base "string option"

definition resolve_base :: "(string \<Rightarrow> string option) \<Rightarrow> rat \<Rightarrow> rat \<Rightarrow> (string \<Rightarrow> base_answer) \<Rightarrow> string \<Rightarrow> string option aged \<Rightarrow>
    (unit + string option) \<times> string option aged" where
  "resolve_base normalise ttl moment ask i cache =
     (case young ttl moment (map_of cache i) of
        Some base \<Rightarrow> (Inr base, cache)
      | None \<Rightarrow>
          (case (case ask i of No_base \<Rightarrow> None
                 | Base_status n \<Rightarrow> if n = 404 then Some None else None
                 | Base v \<Rightarrow> Some (case v of None \<Rightarrow> None | Some b \<Rightarrow> normalise b)) of
             Some base \<Rightarrow> (Inr base, keep_answer i (moment, base) cache)
           | None \<Rightarrow>
               (case young STALE_SECONDS moment (map_of cache i) of
                  Some base \<Rightarrow> (Inr base, cache)
                | None \<Rightarrow> (Inl (), cache))))"

definition OPERATOR_API_FORWARD :: "string list" where
  "OPERATOR_API_FORWARD = [''content-type'', ''accept'', ''accept-language'', ''user-agent'']"

definition operator_headers :: "(json \<Rightarrow> string) \<Rightarrow> string \<Rightarrow> request \<Rightarrow> caller \<Rightarrow> (string \<times> string) list" where
  "operator_headers dumps correlation req who =
     (let role = caller_role who;
          own = fold (\<lambda>(k, v). AList.update k v) (filter (\<lambda>(k, v). lower k \<in> set OPERATOR_API_FORWARD) (req_headers req)) [];
          hs1 = AList.update CORRELATION_ID_HEADER correlation (AList.update ROLE_HEADER role own);
          hs2 = set_if INVOKER_ID_HEADER (Some (caller_id who)) hs1;
          hs3 = stamp_scope dumps req role (caller_scope who) hs2
      in if role = ROLE_INTERNAL then set_if ON_BEHALF_OF_HEADER (received (req_headers req) ON_BEHALF_OF_HEADER) hs3 else hs3)"

subsection \<open>The proxy\<close>

record call =
  call_method :: string
  call_url :: string
  call_headers :: "(string \<times> string) list"

datatype outcome = Refuse nat string | Forward call

record 'l gateway =
  token_answers :: token_cache
  kill_answers :: "bool aged"
  base_answers :: "string option aged"
  budgets :: 'l

record 'l gateway_env =
  routes :: "string \<Rightarrow> string option"
  cache_seconds :: rat
  kill_seconds :: rat
  base_seconds :: rat
  role_setting :: "string option"
  kill_setting :: "string option"
  auditing :: bool
  key_of :: "string \<Rightarrow> string"
  take_budget :: "string \<Rightarrow> 'l \<Rightarrow> nat option \<times> 'l"
  ask_sme :: "string \<Rightarrow> sme_answer"
  read_switch :: "string \<Rightarrow> bool option"
  ask_base :: "string \<Rightarrow> base_answer"
  read_url :: "string \<Rightarrow> split_url option"
  read_ip :: "string \<Rightarrow> ip_address option"
  read_uuid :: "string \<Rightarrow> string option"
  json_dumps :: "json \<Rightarrow> string"
  correlation_id :: string
  trace_headers :: "(string \<times> string) list"

text \<open>\<open>request.state.audit\<close>: who called, why it was refused, on whose behalf.\<close>

record audited =
  audit_invoker :: string
  audit_role :: string
  audit_refused :: "string option"
  audit_on_behalf :: "string option"

definition module_of :: "string \<Rightarrow> string" where
  "module_of path = CHR ''/'' # fst (partition_at CHR ''/'' path)"

definition rest_of :: "string \<Rightarrow> string" where
  "rest_of path = snd (snd (partition_at CHR ''/'' path))"

text \<open>Whether the role policy lets the caller make the call.\<close>

definition role_permits :: "caller \<Rightarrow> string \<Rightarrow> string \<Rightarrow> string \<Rightarrow> bool" where
  "role_permits who place meth rest \<longleftrightarrow>
     \<not> (caller_role who = ROLE_RAPP \<and> (internal_only place meth rest \<or> \<not> rapp_may_change place meth rest))"

text \<open>Who must not be stopped for the change to pass.\<close>

definition stopped_one :: "request \<Rightarrow> caller \<Rightarrow> string option" where
  "stopped_one req who =
     or_none (if caller_role who = ROLE_RAPP then Some (caller_id who)
              else if caller_role who = ROLE_INTERNAL then received (req_headers req) ON_BEHALF_OF_HEADER else None)"

text \<open>The kill switch: \<open>None\<close> lets the call pass.\<close>

definition kill_check :: "'l gateway_env \<Rightarrow> rat \<Rightarrow> request \<Rightarrow> caller \<Rightarrow> string \<Rightarrow> string \<Rightarrow> bool aged \<Rightarrow> (nat \<times> string) option \<times> bool aged" where
  "kill_check env now req who place rest cache =
     (case stopped_one req who of
        Some i \<Rightarrow>
          if req_method req \<in> set CHANGES \<and> kill_enforced (kill_setting env) \<and> \<not> exempt place (req_method req) rest
          then (case is_killed (kill_seconds env) now (read_switch env) i cache of
                  (Inl _, cache') \<Rightarrow> (Some (503, ''KILL_SWITCH_UNAVAILABLE''), cache')
                | (Inr killed, cache') \<Rightarrow> (if killed then Some (403, ''RAPP_KILLED'') else None, cache'))
          else (None, cache)
      | None \<Rightarrow> (None, cache))"

definition forward_operator_api :: "'l gateway_env \<Rightarrow> rat \<Rightarrow> request \<Rightarrow> string \<Rightarrow> caller \<Rightarrow> string option aged \<Rightarrow> outcome \<times> string option aged" where
  "forward_operator_api env now req rest who cache =
     (case operator_split (read_uuid env) rest of
        None \<Rightarrow> (Refuse 404 ''NO_ROUTE'', cache)
      | Some (i, route) \<Rightarrow>
          (case resolve_base (\<lambda>b. normalise_base_url (read_url env) (read_ip env) (Some b)) (base_seconds env) now (ask_base env) i cache of
             (Inl _, cache') \<Rightarrow> (Refuse 503 ''OPERATOR_API_UNRESOLVED'', cache')
           | (Inr None, cache') \<Rightarrow> (Refuse 404 ''OPERATOR_API_NOT_REGISTERED'', cache')
           | (Inr (Some base), cache') \<Rightarrow>
               (Forward \<lparr>call_method = req_method req, call_url = base @ route,
                  call_headers = fold (\<lambda>(k, v). AList.update k v) (trace_headers env)
                    (operator_headers (json_dumps env) (correlation_id env) req who)\<rparr>, cache')))"

text \<open>From the checks on the path on: the caller is known and within its budget.\<close>

definition vetted :: "'l gateway_env \<Rightarrow> rat \<Rightarrow> request \<Rightarrow> string \<Rightarrow> string option \<Rightarrow> caller \<Rightarrow> 'l gateway \<Rightarrow>
    outcome \<times> string option \<times> 'l gateway" where
  "vetted env now req place backend who g =
     (let rest0 = rest_of (full_path req)
      in if path_problem rest0 then (Refuse 400 ''INVALID_PATH'', None, g)
         else let rest = remove_suffix ''/'' rest0
              in if \<not> role_permits who place (req_method req) rest \<and> enforcement_mode (role_setting env) = ''enforce''
                 then (Refuse 403 ''ROLE_NOT_PERMITTED'', Some ''ROLE_NOT_PERMITTED'', g)
                 else case kill_check env now req who place rest (kill_answers g) of
                   (Some (status, name), kills) \<Rightarrow>
                     (Refuse status name, if name = ''RAPP_KILLED'' then Some name else None, g\<lparr>kill_answers := kills\<rparr>)
                 | (None, kills) \<Rightarrow>
                     (case backend of
                        None \<Rightarrow>
                          (case forward_operator_api env now req rest who (base_answers g) of
                             (out, bases) \<Rightarrow> (out, None, g\<lparr>kill_answers := kills, base_answers := bases\<rparr>))
                      | Some b \<Rightarrow>
                          (Forward \<lparr>call_method = req_method req, call_url = b @ CHR ''/'' # rest,
                             call_headers = fold (\<lambda>(k, v). AList.update k v) (trace_headers env)
                               (forwarded_headers (json_dumps env) (correlation_id env) req who)\<rparr>,
                           None, g\<lparr>kill_answers := kills\<rparr>)))"

definition proxy :: "'l gateway_env \<Rightarrow> rat \<Rightarrow> request \<Rightarrow> 'l gateway \<Rightarrow> outcome \<times> audited option \<times> 'l gateway" where
  "proxy env now req g =
     (let place = module_of (full_path req); backend = routes env place
      in if CHR ''/'' \<in> set (full_path req) \<and> rest_of (full_path req) = ''metrics'' then (Refuse 404 ''NO_ROUTE'', None, g)
         else if backend = None \<and> place \<noteq> CHR ''/'' # OPERATOR_PREFIX then (Refuse 404 ''NO_ROUTE'', None, g)
         else case introspect_bearer (key_of env) (ask_sme env) (cache_seconds env) now req (token_answers g) of
           (Inl Unavailable, c) \<Rightarrow> (Refuse 503 ''AUTH_SERVICE_UNAVAILABLE'', None, g\<lparr>token_answers := c\<rparr>)
         | (Inl Unreadable, c) \<Rightarrow> (Refuse 500 ''Internal Server Error'', None, g\<lparr>token_answers := c\<rparr>)
         | (Inr None, c) \<Rightarrow> (Refuse 401 ''UNAUTHORIZED'', None, g\<lparr>token_answers := c\<rparr>)
         | (Inr (Some who), c) \<Rightarrow>
             let behalf = (if caller_role who = ROLE_INTERNAL then received (req_headers req) ON_BEHALF_OF_HEADER else None);
                 audit = (\<lambda>refused. Some \<lparr>audit_invoker = caller_id who, audit_role = caller_role who, audit_refused = refused,
                            audit_on_behalf = behalf\<rparr>)
             in case take_budget env (if caller_id who = [] then ''anonymous'' else caller_id who) (budgets g) of
                  (Some wait, l) \<Rightarrow> (Refuse 429 ''RATE_LIMITED'', audit None, g\<lparr>token_answers := c, budgets := l\<rparr>)
                | (None, l) \<Rightarrow>
                    (case vetted env now req place (if place = CHR ''/'' # OPERATOR_PREFIX then None else backend) who
                            (g\<lparr>token_answers := c, budgets := l\<rparr>) of
                       (out, refused, g') \<Rightarrow> (out, audit refused, g')))"

subsection \<open>Around the proxy\<close>

datatype upstream = Timed_out | Unreachable | Responded nat

definition status_of :: "outcome \<Rightarrow> upstream \<Rightarrow> nat" where
  "status_of out up =
     (case out of Refuse status name \<Rightarrow> status
      | Forward call \<Rightarrow> (case up of Timed_out \<Rightarrow> 504 | Unreachable \<Rightarrow> 502 | Responded n \<Rightarrow> n))"

record audit_row =
  row_actor :: string
  row_role :: string
  row_action :: string
  row_target :: string
  row_result :: string
  row_on_behalf :: "string option"

definition serve :: "'l gateway_env \<Rightarrow> rat \<Rightarrow> request \<Rightarrow> (call \<Rightarrow> upstream) \<Rightarrow> 'l gateway \<Rightarrow> nat \<times> audit_row option \<times> 'l gateway" where
  "serve env now req backend_answers g =
     (case proxy env now req g of (out, audit, g1) \<Rightarrow>
        let status = status_of out (case out of Forward call \<Rightarrow> backend_answers call | _ \<Rightarrow> Unreachable);
            g2 = g1\<lparr>token_answers := drop_revoked_tokens (req_method req) (full_path req) status (token_answers g1)\<rparr>;
            row = (case audit of
                     None \<Rightarrow> None
                   | Some a \<Rightarrow>
                       if req_method req \<in> set CHANGES \<and> auditing env
                       then Some \<lparr>row_actor = (if audit_invoker a = [] then ''unknown'' else audit_invoker a), row_role = audit_role a,
                                  row_action = req_method req, row_target = CHR ''/'' # full_path req,
                                  row_result = (case audit_refused a of None \<Rightarrow> str status | Some why \<Rightarrow> ''REFUSED:'' @ why),
                                  row_on_behalf = or_none (audit_on_behalf a)\<rparr>
                       else None)
        in (status, row, g2))"

end
