(* ===== verification/GatewayClaims.thy ===== *)
theory GatewayClaims
  imports Gateway
begin

section \<open>What the gateway guarantees\<close>

text \<open>
  What a module behind the gateway may rely on: the headers it reads, how old an accepted token answer can be,
  and what a change of an rApp has passed.
\<close>

subsection \<open>The identity a module reads\<close>

definition names :: "(string \<times> string) list \<Rightarrow> string set" where
  "names hs = (\<lambda>(k, v). lower k) ` set hs"

lemma lower_header_names:
  "lower ROLE_HEADER = ''x-r1-role''" "lower INVOKER_ID_HEADER = ''x-r1-invoker-id''"
  "lower ON_BEHALF_OF_HEADER = ''x-r1-on-behalf-of''" "lower ACTING_USER_HEADER = ''x-r1-acting-user''"
  "lower SCOPE_HEADER = ''x-r1-scope''" "lower ON_BEHALF_SCOPE_HEADER = ''x-r1-on-behalf-scope''"
  "lower ACTING_USER_SCOPE_HEADER = ''x-r1-acting-user-scope''" "lower CORRELATION_ID_HEADER = ''x-correlation-id''"
  by code_simp+

lemma names_update: "names (AList.update k v hs) = insert (lower k) (names hs)"
  by (induction hs) (auto simp: names_def)

lemma received_absent: "lower n \<notin> names hs \<Longrightarrow> received hs n = None"
  by (induction hs) (auto simp: names_def received_def)

lemma received_update_other: "lower n \<noteq> lower k \<Longrightarrow> received (AList.update k v hs) n = received hs n"
  by (induction hs) (auto simp: received_def)

lemma received_update_new: "lower n = lower k \<Longrightarrow> lower k \<notin> names hs \<Longrightarrow> received (AList.update k v hs) n = Some v"
  by (induction hs) (auto simp: received_def names_def)

lemma not_in_names_update: "n \<noteq> lower k \<Longrightarrow> n \<in> names (AList.update k v hs) \<longleftrightarrow> n \<in> names hs"
  by (simp add: names_update)

lemma not_in_names_set_if: "n \<noteq> lower k \<Longrightarrow> n \<in> names (set_if k v hs) \<longleftrightarrow> n \<in> names hs"
  by (simp add: set_if_def names_update split: option.split)

lemma received_set_if:
  "lower n = lower k \<Longrightarrow> lower k \<notin> names hs \<Longrightarrow> received (set_if k v hs) n = or_none v"
  by (cases "or_none v") (simp_all add: set_if_def received_absent received_update_new del: or_none_Some)

lemma received_set_if_other: "lower n \<noteq> lower k \<Longrightarrow> received (set_if k v hs) n = received hs n"
  by (simp add: set_if_def received_update_other split: option.split)

lemma names_fold_update: "names (fold (\<lambda>(k, v). AList.update k v) xs hs) = names xs \<union> names hs"
proof (induction xs arbitrary: hs)
  case (Cons x xs)
  then show ?case by (cases x) (auto simp: names_update, auto simp: names_def)
qed (simp add: names_def)

lemma received_fold_other:
  "lower n \<notin> names xs \<Longrightarrow> received (fold (\<lambda>(k, v). AList.update k v) xs hs) n = received hs n"
proof (induction xs arbitrary: hs)
  case (Cons x xs)
  obtain k v where "x = (k, v)" by fastforce
  then show ?case using Cons by (simp add: names_def received_update_other)
qed simp

lemma own_names: "names (fold (\<lambda>(k, v). AList.update k v) (filter (\<lambda>(k, v). lower k \<notin> set DROPPED) hs) []) \<inter> set DROPPED = {}"
  by (auto simp: names_fold_update) (auto simp: names_def)

text \<open>A scope survives the header: what was introspected is what a module decodes.\<close>

lemma from_claim_restricts: "from_claim j = Inr (Some s) \<Longrightarrow> regions s \<noteq> None \<or> tenants s \<noteq> None"
  by (cases j) (auto simp: and_then_Inr_iff split: if_splits)

lemma decode_encode:
  assumes "sc = from_introspection claim" "loads (dumps (to_claim sc)) = Some (to_claim sc)" "dumps (to_claim sc) \<noteq> []"
  shows "decode loads (or_none (encode dumps sc)) = sc"
proof (cases "from_claim claim")
  case (Inl e)
  have "to_claim (Some DENY_ALL) = JObject [(''regions'', JList [])]"
    by (simp add: to_claim_def DENY_ALL_def axis_members_def)
  then show ?thesis
    using assms Inl by (simp add: encode_def decode_def from_introspection_def or_none_def axis_of_claim_def)
next
  case (Inr found)
  show ?thesis
  proof (cases found)
    case None
    then show ?thesis using Inr assms(1) by (simp add: encode_def decode_def from_introspection_def to_claim_def)
  next
    case (Some s)
    have sc: "sc = Some s" using Inr Some assms(1) by (simp add: from_introspection_def)
    have same: "from_claim (to_claim (Some s)) = Inr (Some s)"
      using claim_roundtrip from_claim_wf from_claim_restricts Inr Some by metis
    then have "to_claim (Some s) \<noteq> JNull" by auto
    then have "encode dumps (Some s) = Some (dumps (to_claim (Some s)))" by (auto simp: encode_def split: json.split)
    then show ?thesis using sc same assms(2,3) by (simp add: decode_def or_none_def)
  qed
qed

lemma forwarded_received:
  fixes req dumps correlation who
  defines "h \<equiv> received (forwarded_headers dumps correlation req who)"
  shows "h ROLE_HEADER = Some (caller_role who)" "h INVOKER_ID_HEADER = or_none (Some (caller_id who))"
    "h SCOPE_HEADER = or_none (encode dumps (caller_scope who))"
    "h ON_BEHALF_OF_HEADER = (if caller_role who = ROLE_INTERNAL then or_none (received (req_headers req) ON_BEHALF_OF_HEADER) else None)"
    "h ACTING_USER_HEADER = (if caller_role who = ROLE_INTERNAL then or_none (received (req_headers req) ACTING_USER_HEADER) else None)"
proof -
  let ?own = "fold (\<lambda>(k, v). AList.update k v) (filter (\<lambda>(k, v). lower k \<notin> set DROPPED) (req_headers req)) []"
  have own: "n \<notin> names ?own" if "n \<in> set DROPPED" for n using own_names [of "req_headers req"] that by blast
  have o: "''x-r1-role'' \<notin> names ?own" "''x-r1-invoker-id'' \<notin> names ?own" "''x-r1-on-behalf-of'' \<notin> names ?own"
    "''x-r1-acting-user'' \<notin> names ?own" "''x-r1-scope'' \<notin> names ?own" "''x-r1-on-behalf-scope'' \<notin> names ?own"
    "''x-r1-acting-user-scope'' \<notin> names ?own" "''x-correlation-id'' \<notin> names ?own"
    by (rule own; simp add: DROPPED_def lower_header_names)+
  note simps = forwarded_headers_def stamp_scope_def Let_def lower_header_names not_in_names_update not_in_names_set_if
    received_set_if received_set_if_other received_update_other received_update_new received_absent o
  show "h ROLE_HEADER = Some (caller_role who)" "h INVOKER_ID_HEADER = or_none (Some (caller_id who))"
      "h SCOPE_HEADER = or_none (encode dumps (caller_scope who))"
    unfolding h_def by (cases "caller_role who = ROLE_INTERNAL"; simp add: simps)+
  show "h ON_BEHALF_OF_HEADER = (if caller_role who = ROLE_INTERNAL then or_none (received (req_headers req) ON_BEHALF_OF_HEADER) else None)"
    unfolding h_def by (cases "caller_role who = ROLE_INTERNAL"; simp add: simps)
  show "h ACTING_USER_HEADER = (if caller_role who = ROLE_INTERNAL then or_none (received (req_headers req) ACTING_USER_HEADER) else None)"
    unfolding h_def
    by (cases "caller_role who = ROLE_INTERNAL"; cases "or_none (received (req_headers req) ACTING_USER_HEADER)")
       (simp_all add: simps del: or_none_Some)
qed

subsection \<open>Where an accepted token comes from\<close>

text \<open>What happens at the gateway to its cache: a request whose token is looked up, an answered change.\<close>

datatype gateway_event =
    Looked_up rat "string \<Rightarrow> sme_answer" request
  | Changed string string nat

fun cache_event :: "(string \<Rightarrow> string) \<Rightarrow> rat \<Rightarrow> gateway_event \<Rightarrow> token_cache \<Rightarrow> token_cache" where
  "cache_event digest ttl (Looked_up now ask req) c = snd (introspect_bearer digest ask ttl now req c)"
| "cache_event digest ttl (Changed meth path status) c = drop_revoked_tokens meth path status c"

lemma introspect_cases:
  assumes "introspect_bearer digest ask ttl now req c = (r, c')"
  obtains "bearer_token req = None" "c' = c" "r = Inr None"
  | token answer where "bearer_token req = Some token" "ttl > 0" "fst (cache_get (digest token) now c) = Some answer"
      "r = Inr answer" "c' = snd (cache_get (digest token) now c)"
  | token why c1 where "bearer_token req = Some token" "read_answer (ask token) = Inl why" "r = Inl why" "c' = c1"
      "c1 = c \<or> c1 = snd (cache_get (digest token) now c)"
  | token a c1 where "bearer_token req = Some token" "read_answer (ask token) = Inr a" "r = Inr (map_option caller_of a)"
      "c1 = c \<or> c1 = snd (cache_get (digest token) now c)"
      "c' = c1 \<or> c' = cache_put (digest token) (map_option caller_of a) (life_of ttl now a) (generation c) now c1"
proof (cases "bearer_token req")
  case None
  then show ?thesis using assms that(1) by (simp add: introspect_bearer_def)
next
  case (Some token)
  obtain found c1 where g: "(if ttl > 0 then cache_get (digest token) now c else (None, c)) = (found, c1)" by fastforce
  then have c1: "c1 = c \<or> c1 = snd (cache_get (digest token) now c)" by (auto split: if_splits)
  show ?thesis
  proof (cases found)
    case found: (Some answer)
    then have got: "ttl > 0" "cache_get (digest token) now c = (Some answer, c1)" using g by (auto split: if_splits)
    then have "r = Inr answer" "c' = c1" using assms Some by (auto simp: introspect_bearer_def)
    then show ?thesis using Some got that(2) by simp
  next
    case None
    show ?thesis
    proof (cases "read_answer (ask token)")
      case (Inl u)
      then show ?thesis using assms Some g None c1 that(3) by (auto simp: introspect_bearer_def)
    next
      case (Inr a)
      then have "r = Inr (map_option caller_of a)"
        "c' = c1 \<or> c' = cache_put (digest token) (map_option caller_of a) (life_of ttl now a) (generation c) now c1"
        using assms Some g None by (auto simp: introspect_bearer_def split: if_splits)
      then show ?thesis using that(4) [OF Some Inr _ c1] by blast
    qed
  qed
qed

text \<open>The lookup an entry was made by.\<close>

definition made_by :: "(string \<Rightarrow> string) \<Rightarrow> rat \<Rightarrow> gateway_event list \<Rightarrow> string \<Rightarrow> caller \<Rightarrow> rat \<Rightarrow> bool" where
  "made_by digest ttl evs key who until \<longleftrightarrow> (\<exists>t ask req token a. Looked_up t ask req \<in> set evs \<and>
     bearer_token req = Some token \<and> digest token = key \<and> ask token = Says (Some a) \<and> who = caller_of a \<and>
     until \<le> t + ttl \<and> until \<le> of_int (active_until a))"

lemma read_answer_active: "read_answer r = Inr (Some a) \<longleftrightarrow> r = Says (Some a)"
  by (cases r) (auto simp: read_answer_def)

lemma entries_made_by:
  "(key, e) \<in> set (cache_entries (fold (cache_event digest ttl) evs (new_cache n))) \<Longrightarrow> cached_caller e = Some who \<Longrightarrow>
     made_by digest ttl evs key who (cache_until e)"
proof (induction evs arbitrary: key e who rule: rev_induct)
  case Nil
  then show ?case by (simp add: new_cache_def)
next
  case (snoc ev evs)
  let ?c = "fold (cache_event digest ttl) evs (new_cache n)"
  have grow: "made_by digest ttl evs k w u \<Longrightarrow> made_by digest ttl (evs @ [ev]) k w u" for k w u
    unfolding made_by_def by fastforce
  have old: "made_by digest ttl (evs @ [ev]) key who (cache_until e)" if "(key, e) \<in> set (cache_entries ?c)"
    using grow snoc.IH [OF that snoc.prems(2)] by blast
  have inside: "(key, e) \<in> set (cache_entries (cache_event digest ttl ev ?c))" using snoc.prems(1) by simp
  show ?case
  proof (cases ev)
    case (Changed meth path status)
    then show ?thesis using inside old set_drop_revoked by fastforce
  next
    case (Looked_up now ask req)
    obtain r c' where i: "introspect_bearer digest ask ttl now req ?c = (r, c')" by fastforce
    have e: "(key, e) \<in> set (cache_entries c')" using inside Looked_up i by simp
    from i show ?thesis
    proof (cases rule: introspect_cases)
      case (4 token a c1)
      have c1: "set (cache_entries c1) \<subseteq> set (cache_entries ?c)" using 4(4) set_cache_get by blast
      show ?thesis
      proof (cases "(key, e) \<in> set (cache_entries c1)")
        case False
        then have new: "key = digest token" "e = \<lparr>cache_until = now + life_of ttl now a, cached_caller = map_option caller_of a\<rparr>"
          using e 4(5) set_cache_put by (fastforce simp del: cached_answer.simps)+
        then obtain x where x: "a = Some x" "who = caller_of x" using snoc.prems(2) by auto
        have "ask token = Says (Some x)" using 4(2) x(1) by (simp add: read_answer_active)
        moreover have "cache_until e \<le> now + ttl" "cache_until e \<le> of_int (active_until x)"
          using new(2) x(1) by (auto simp: life_of_def)
        ultimately show ?thesis using new(1) x(2) 4(1) Looked_up unfolding made_by_def by fastforce
      qed (use old c1 in blast)
    qed (use e old set_cache_get in \<open>auto dest!: subsetD [OF set_cache_get]\<close>)
  qed
qed

text \<open>C14: A cached token answer is short-lived: when the gateway accepts a token, either SME says at this moment that it
  is active for that caller, or SME said so at an earlier lookup of a token of that digest, less than the configured
  time ago, and the token's own end of life, as SME gave it then, is still to come. This holds after any sequence of
  lookups, refusals and revocations, and for role and scope as well: they are the ones of that answer.\<close>

theorem accepted_token_is_recent:
  assumes "introspect_bearer digest ask ttl now req (fold (cache_event digest ttl) evs (new_cache n)) = (Inr (Some who), c')"
  shows "\<exists>token. bearer_token req = Some token \<and>
    ((\<exists>a. ask token = Says (Some a) \<and> who = caller_of a) \<or>
     (\<exists>t ask' req' token' a. Looked_up t ask' req' \<in> set evs \<and> bearer_token req' = Some token' \<and>
        digest token' = digest token \<and> ask' token' = Says (Some a) \<and> who = caller_of a \<and>
        now < t + ttl \<and> now < of_int (active_until a)))"
  using assms
proof (cases rule: introspect_cases)
  case (2 token answer)
  then obtain e where "(digest token, e) \<in> set (cache_entries (fold (cache_event digest ttl) evs (new_cache n)))"
    "cached_caller e = Some who" "now < cache_until e"
    using cache_hit [OF 2(3)] by auto
  then have "made_by digest ttl evs (digest token) who (cache_until e)" and live: "now < cache_until e"
    using entries_made_by by blast+
  then obtain t ask' req' token' a where made: "Looked_up t ask' req' \<in> set evs" "bearer_token req' = Some token'"
    "digest token' = digest token" "ask' token' = Says (Some a)" "who = caller_of a"
    "cache_until e \<le> t + ttl" "cache_until e \<le> of_int (active_until a)"
    unfolding made_by_def by blast
  have "now < t + ttl" "now < of_int (active_until a)" using live made(6,7) by simp_all
  then show ?thesis using 2(1) made(1-5) by blast
next
  case (4 token a c1)
  obtain x where "a = Some x" "who = caller_of x" using 4(3) by (cases a) auto
  then show ?thesis using 4(1,2) by (auto simp: read_answer_active)
qed simp_all

subsection \<open>The properties of a forwarded request\<close>

text \<open>C12: A module can trust the identity headers: whatever headers an rApp sends (its own role, another invoker's id, an
  acting user, a wider scope, in any case and any number), the module the gateway forwards to reads the rApp's own id
  as the originator and the invoker, and the scope SME holds for it as its scope.\<close>

theorem forwarded_identity_vouched:
  assumes "caller_role who = ROLE_RAPP" "caller_scope who = from_introspection claim"
    and "names trace \<subseteq> {''traceparent'', ''tracestate''}"
    and "loads (dumps (to_claim (caller_scope who))) = Some (to_claim (caller_scope who))" "dumps (to_claim (caller_scope who)) \<noteq> []"
  shows "let h = received (fold (\<lambda>(k, v). AList.update k v) trace (forwarded_headers dumps correlation req who))
    in originator_of h = or_none (Some (caller_id who)) \<and> invoker_id h = or_none (Some (caller_id who)) \<and>
       scope_of loads h = caller_scope who"
proof -
  have same: "received (fold (\<lambda>(k, v). AList.update k v) trace (forwarded_headers dumps correlation req who)) n =
      received (forwarded_headers dumps correlation req who) n"
    if "lower n \<notin> {''traceparent'', ''tracestate''}" for n
    by (rule received_fold_other) (use that assms(3) in blast)
  note h = forwarded_received [of dumps correlation req who]
  have "ROLE_RAPP \<noteq> ROLE_INTERNAL" by (simp add: header_names)
  then show ?thesis
    using assms(1) decode_encode [of _ claim loads dumps, OF assms(2,4,5)]
    by (simp add: Let_def originator_of_def invoker_id_def scope_of_def same lower_header_names h del: or_none_Some)
       (simp add: or_none_def split: option.split)
qed

text \<open>
  A run of the gateway, its cache of kill-switch answers empty at the start: requests served one after another, under
  settings and surroundings of their own. \<open>truth\<close> is the history of the switches; the table says what they are
  whenever it can be read.
\<close>

definition reads_truth :: "(rat \<Rightarrow> string \<Rightarrow> bool) \<Rightarrow> rat \<Rightarrow> 'l gateway_env \<Rightarrow> bool" where
  "reads_truth truth now env \<longleftrightarrow> (\<forall>i b. read_switch env i = Some b \<longrightarrow> truth now i = b)"

inductive gateway_ran :: "(rat \<Rightarrow> string \<Rightarrow> bool) \<Rightarrow> rat \<Rightarrow> 'l gateway \<Rightarrow> bool" for truth where
  start: "kill_answers g = [] \<Longrightarrow> gateway_ran truth t g"
| served: "gateway_ran truth t g \<Longrightarrow> t \<le> now \<Longrightarrow> reads_truth truth now env \<Longrightarrow> serve env now req up g = (status, row, g') \<Longrightarrow>
    gateway_ran truth now g'"

lemma is_killed_keeps:
  assumes "truthful truth now cache" "\<And>b. read i = Some b \<Longrightarrow> truth now i = b"
  shows "truthful truth now (snd (is_killed ttl now read i cache))"
  using assms truthful_keep [OF assms(1) order_refl order_refl, of i] by (auto simp: is_killed_def split: option.split)

lemma kill_check_keeps:
  assumes "truthful truth now cache" "reads_truth truth now env"
  shows "truthful truth now (snd (kill_check env now req who place rest cache))"
proof -
  have "truthful truth now (snd (is_killed (kill_seconds env) now (read_switch env) i cache))" for i
    by (rule is_killed_keeps [OF assms(1)]) (use assms(2) in \<open>simp add: reads_truth_def\<close>)
  then show ?thesis using assms(1) by (auto simp: kill_check_def split: option.split prod.split sum.split)
      (metis snd_conv)+
qed

lemma proxy_keeps:
  assumes "truthful truth now (kill_answers g)" "reads_truth truth now env" "proxy env now req g = (out, audit, g')"
  shows "truthful truth now (kill_answers g')"
proof -
  have "truthful truth now (kill_answers h')"
    if "vetted env now req place backend who h = (o1, refused, h')" "kill_answers h = kill_answers g" for place backend who h o1 refused h'
  proof -
    let ?k = "kill_check env now req who place (remove_suffix ''/'' (rest_of (full_path req))) (kill_answers h)"
    have "kill_answers h' = kill_answers h \<or> kill_answers h' = snd ?k"
      using that(1) by (auto simp: vetted_def Let_def split: if_splits prod.splits option.splits)
    then show ?thesis using kill_check_keeps [OF assms(1,2)] assms(1) that(2) by auto
  qed
  then show ?thesis using assms(1,3)
    by (auto simp: proxy_def Let_def split: if_splits sum.splits option.splits prod.splits lookup_failure.splits)
qed

lemma gateway_truthful: "gateway_ran truth t g \<Longrightarrow> truthful truth t (kill_answers g)"
proof (induction rule: gateway_ran.induct)
  case (served t g now env req up status row g')
  obtain out audit g1 where p: "proxy env now req g = (out, audit, g1)" by (metis prod_cases3)
  then have "kill_answers g' = kill_answers g1" using served.hyps(4) by (simp add: serve_def Let_def) auto
  then show ?case using proxy_keeps [OF truthful_later [OF served.IH served.hyps(2)] served.hyps(3) p] by simp
qed simp

text \<open>C11: A change an rApp gets through was vetted. Over any run of the gateway, with the role policy and the kill switch
  enforced, when it forwards a change of an rApp (one with an id): the path after the module's name, less one trailing
  slash, is on the list of what an rApp may change and on none of the internal-only routes; none of its segments is empty,
  \<open>.\<close> or \<open>..\<close>; unless it is an operator API, the call goes to the module's address followed by that very path; and,
  unless the route is exempt, the switch of that rApp was off at some moment of the last minute (or of the configured cache
  time, when that is longer), database outages included. (A \<open>?\<close>, \<open>#\<close> or \<open>%\<close> in the path is checked and sent as any
  other character, though an HTTP client reads it differently.)\<close>

theorem rapp_change_vetted:
  assumes "gateway_ran truth earlier g" "earlier \<le> now" "reads_truth truth now env"
    and "proxy env now req g = (Forward call, Some a, g')"
    and "audit_role a = ROLE_RAPP" "audit_invoker a \<noteq> []" "req_method req \<in> set CHANGES"
    and "enforcement_mode (role_setting env) = ''enforce''" "kill_enforced (kill_setting env)" "0 \<le> kill_seconds env"
  shows "let place = module_of (full_path req); rest = remove_suffix ''/'' (rest_of (full_path req))
    in rapp_may_change place (req_method req) rest \<and> \<not> internal_only place (req_method req) rest \<and>
       set (without_trailing (split_on CHR ''/'' (rest_of (full_path req)))) \<inter> {[], ''.'', ''..''} = {} \<and>
       (place = CHR ''/'' # OPERATOR_PREFIX \<or>
        (\<exists>b. routes env place = Some b \<and> call_url call = b @ CHR ''/'' # rest \<and> call_method call = req_method req)) \<and>
       (exempt place (req_method req) rest \<or>
        (\<exists>u. now - max (kill_seconds env) STALE_SECONDS < u \<and> u \<le> now \<and> \<not> truth u (audit_invoker a)))"
proof -
  let ?place = "module_of (full_path req)" and ?rest = "remove_suffix ''/'' (rest_of (full_path req))"
  have kills: "truthful truth now (kill_answers g)" by (rule truthful_later [OF gateway_truthful [OF assms(1)] assms(2)])
  obtain who backend g1 refused where who: "caller_id who = audit_invoker a" "caller_role who = ROLE_RAPP"
    "vetted env now req ?place backend who g1 = (Forward call, refused, g')" "kill_answers g1 = kill_answers g"
    "?place = CHR ''/'' # OPERATOR_PREFIX \<or> backend = routes env ?place \<and> backend \<noteq> None"
    using assms(4,5)
    by (auto simp: proxy_def Let_def split: if_splits sum.splits option.splits prod.splits lookup_failure.splits)
  obtain kills' where ok: "\<not> path_problem (rest_of (full_path req))" "role_permits who ?place (req_method req) ?rest"
    "kill_check env now req who ?place ?rest (kill_answers g) = (None, kills')"
    using who(3,4) assms(8) by (auto simp: vetted_def Let_def split: if_splits option.splits prod.splits)
  have url: "call_url call = b @ CHR ''/'' # ?rest \<and> call_method call = req_method req" if "backend = Some b" for b
    using who(3,4) ok that assms(8) by (auto simp: vetted_def Let_def split: if_splits prod.splits)
  have stopped: "stopped_one req who = Some (audit_invoker a)"
    using who assms(6) by (simp add: stopped_one_def)
  have "\<exists>u. now - max (kill_seconds env) STALE_SECONDS < u \<and> u \<le> now \<and> \<not> truth u (audit_invoker a)"
    if "\<not> exempt ?place (req_method req) ?rest"
  proof -
    have "is_killed (kill_seconds env) now (read_switch env) (audit_invoker a) (kill_answers g) = (Inr False, kills')"
      using ok(3) stopped assms(7,9) that by (auto simp: kill_check_def split: prod.splits sum.splits if_splits)
    then show ?thesis using is_killed_truth [OF kills order_refl _ assms(10)] assms(3) unfolding reads_truth_def by blast
  qed
  moreover have "set (without_trailing (split_on CHR ''/'' (rest_of (full_path req)))) \<inter> {[], ''.'', ''..''} = {}"
    using ok(1) by (auto simp: path_problem_def list_ex_iff Let_def)
  moreover have "?place = CHR ''/'' # OPERATOR_PREFIX \<or>
      (\<exists>b. routes env ?place = Some b \<and> call_url call = b @ CHR ''/'' # ?rest \<and> call_method call = req_method req)"
    using who(5) url by auto
  ultimately show ?thesis using ok(2) who(2) by (auto simp: role_permits_def Let_def)
qed

end
