(* ===== verification/GatewayRevocation.thy ===== *)
theory GatewayRevocation
  imports Gateway
begin

section \<open>Revocation through the gateway\<close>

text \<open>
  The gateway's lookups, SME and an offboarding that goes through the gateway as one system whose steps
  interleave in any order: a lookup reads the generation of the cache, then asks SME, then stores the answer, and
  between any two of these an invoker may be offboarded, its entries dropped (the gateway does so once SME has
  answered the DELETE) and anything else happen at SME. \<open>asking\<close> are the lookups in flight; \<open>gone\<close> are the
  invokers SME has offboarded on a DELETE, \<open>dropped\<close> those whose DELETE the gateway has finished.
\<close>

record lookup =
  for_token :: string
  at_generation :: nat
  told :: "introspection option option"

record system =
  sme :: sme_store
  answers :: token_cache
  asking :: "lookup list"
  gone :: "string set"
  dropped :: "string set"

text \<open>\<open>uuid4\<close> does not draw an identifier again that was offboarded.\<close>

definition draws_anew :: "sme_op \<Rightarrow> string set \<Rightarrow> bool" where
  "draws_anew req used = (case req of Register_invoker random caller presented q \<Rightarrow> ''api-invoker-'' @ fst random \<notin> used | _ \<Rightarrow> True)"

definition invoker_path :: "string \<Rightarrow> string" where
  "invoker_path i = ''sme/invoker-registrations/'' @ i"

inductive system_step :: "'k crypto \<Rightarrow> sme_settings \<Rightarrow> (string \<Rightarrow> string) \<Rightarrow> rat \<Rightarrow> system \<Rightarrow> system \<Rightarrow> bool"
  for c cfg digest ttl where
  at_sme: "draws_anew req (gone s) \<Longrightarrow> system_step c cfg digest ttl s (s\<lparr>sme := sme_step c cfg t req (sme s)\<rparr>)"
| deletes: "system_step c cfg digest ttl s (s\<lparr>sme := offboard_invoker i (sme s), gone := insert i (gone s)\<rparr>)"
| drops: "i \<in> gone s \<Longrightarrow> i \<noteq> [] \<Longrightarrow> CHR ''/'' \<notin> set i \<Longrightarrow> system_step c cfg digest ttl s
    (s\<lparr>answers := drop_revoked_tokens ''DELETE'' (invoker_path i) 204 (answers s), dropped := insert i (dropped s)\<rparr>)"
| changes: "system_step c cfg digest ttl s (s\<lparr>answers := drop_revoked_tokens meth path status (answers s)\<rparr>)"
| hits: "system_step c cfg digest ttl s (s\<lparr>answers := snd (cache_get (digest token) now (answers s))\<rparr>)"
| begins: "system_step c cfg digest ttl s
    (s\<lparr>asking := \<lparr>for_token = token, at_generation = generation (answers s), told = None\<rparr> # asking s\<rparr>)"
| asks: "asking s = before @ l # others \<Longrightarrow> told l = None \<Longrightarrow> system_step c cfg digest ttl s
    (s\<lparr>asking := before @ l\<lparr>told := Some (introspect_token c t (for_token l) (sme s))\<rparr> # others\<rparr>)"
| stores: "asking s = before @ l # others \<Longrightarrow> told l = Some a \<Longrightarrow> system_step c cfg digest ttl s
    (s\<lparr>asking := before @ others,
       answers := cache_put (digest (for_token l)) (map_option caller_of a) (life_of ttl now a) (at_generation l) now (answers s)\<rparr>)"
| gives_up: "asking s = before @ l # others \<Longrightarrow> system_step c cfg digest ttl s (s\<lparr>asking := before @ others\<rparr>)"

inductive system_run :: "'k crypto \<Rightarrow> sme_settings \<Rightarrow> (string \<Rightarrow> string) \<Rightarrow> rat \<Rightarrow> nat \<Rightarrow> system \<Rightarrow> bool"
  for c cfg digest ttl n where
  start: "system_run c cfg digest ttl n \<lparr>sme = empty_sme, answers = new_cache n, asking = [], gone = {}, dropped = {}\<rparr>"
| further: "system_run c cfg digest ttl n s \<Longrightarrow> system_step c cfg digest ttl s s' \<Longrightarrow> system_run c cfg digest ttl n s'"

text \<open>An answer about a dropped invoker is neither kept nor storable any more.\<close>

definition forgotten :: "system \<Rightarrow> bool" where
  "forgotten s \<longleftrightarrow> identities_ok (sme s) \<and> gone s \<inter> invoker_ids_of (sme s) = {} \<and> dropped s \<subseteq> gone s \<and>
     (\<forall>(key, e) \<in> set (cache_entries (answers s)). \<forall>who. cached_caller e = Some who \<longrightarrow> caller_id who \<notin> dropped s) \<and>
     (\<forall>l \<in> set (asking s). at_generation l \<le> generation (answers s) \<and>
        (\<forall>a. told l = Some (Some a) \<longrightarrow> active_client a \<in> dropped s \<longrightarrow> at_generation l < generation (answers s)))"

lemma evicts: "i \<noteq> [] \<Longrightarrow> CHR ''/'' \<notin> set i \<Longrightarrow>
    drop_revoked_tokens ''DELETE'' (invoker_path i) 204 cache = evict_invoker i cache"
  by (simp add: drop_revoked_tokens_def invoker_path_def split_on_one)

lemma introspected_registered:
  "identities_ok st \<Longrightarrow> introspect_token c t token st = Some a \<Longrightarrow> active_client a \<in> invoker_ids_of st"
  by (auto simp: introspect_token_def Let_def identities_ok_def dest!: get_tokenD split: option.splits if_splits)

lemma onboards_anew: "draws_anew req used \<Longrightarrow> (i, kind) \<in> onboards cfg req \<Longrightarrow> i \<notin> used"
  by (cases req) (simp_all add: draws_anew_def onboards_def)

lemma gone_stay_gone:
  assumes "draws_anew req used" "used \<inter> invoker_ids_of st = {}"
  shows "used \<inter> invoker_ids_of (sme_step c cfg t req st) = {}"
proof (rule equals0I)
  fix i assume "i \<in> used \<inter> invoker_ids_of (sme_step c cfg t req st)"
  then obtain kind where i: "i \<in> used" "(i, kind) \<in> set (kinds (sme_step c cfg t req st))" by (auto simp: invoker_ids_kinds)
  then have "(i, kind) \<in> set (kinds st) \<or> (i, kind) \<in> onboards cfg req"
    using tracks_step [of st cfg req c t] unfolding tracks_def by blast
  moreover have "i \<notin> invoker_ids_of st" using i(1) assms(2) by blast
  ultimately show False using i(1) onboards_anew [OF assms(1)] unfolding invoker_ids_kinds by (metis fst_conv image_eqI)
qed

lemma caller_of_id [simp]: "caller_id (caller_of a) = active_client a"
  by (simp add: caller_of_def)

lemma forgotten_step: "system_step c cfg digest ttl s s' \<Longrightarrow> forgotten s \<Longrightarrow> forgotten s'"
proof (induction rule: system_step.induct)
  case (at_sme req s t)
  have ok: "identities_ok (sme s)" "gone s \<inter> invoker_ids_of (sme s) = {}" using at_sme.prems by (simp_all add: forgotten_def)
  show ?case
    using at_sme.prems identities_ok_step [OF ok(1), of c cfg t req] gone_stay_gone [OF at_sme.hyps ok(2), of c cfg t]
    by (simp add: forgotten_def)
next
  case (deletes s i)
  then show ?case
    by (auto simp: forgotten_def offboard_invoker_def identities_ok_offboard get_invoker_iff)
       (auto simp: invoker_ids_of_def set_delete_where)
next
  case (drops i s)
  then show ?case by (auto simp: forgotten_def evicts evict_invoker_def less_Suc_eq_le)
next
  case (changes s meth path status)
  then show ?case
    using set_drop_revoked [of meth path status "answers s"] generation_drop_revoked [of "answers s" meth path status]
    by (fastforce simp: forgotten_def)
next
  case (hits s token now)
  then show ?case using set_cache_get [of "digest token" now "answers s"] by (fastforce simp: forgotten_def)
next
  case (begins s token)
  then show ?case by (simp add: forgotten_def)
next
  case (asks s before l others t)
  have "active_client a \<notin> dropped s" if "introspect_token c t (for_token l) (sme s) = Some a" for a
    using introspected_registered [OF _ that] asks.prems by (auto simp: forgotten_def)
  then show ?case using asks by (auto simp: forgotten_def)
next
  case (stores s before l others a now)
  let ?put = "cache_put (digest (for_token l)) (map_option caller_of a) (life_of ttl now a) (at_generation l) now (answers s)"
  have new: "caller_id who \<notin> dropped s" if "(key, e) \<in> set (cache_entries ?put)" "cached_caller e = Some who" for key e who
  proof (cases "(key, e) \<in> set (cache_entries (answers s))")
    case False
    then have "at_generation l = generation (answers s)" using that(1) cache_put_unless by metis
    moreover have "e = \<lparr>cache_until = now + life_of ttl now a, cached_caller = map_option caller_of a\<rparr>"
      using False that(1) set_cache_put by blast
    ultimately show ?thesis using stores that(2) by (auto simp: forgotten_def)
  qed (use that(2) stores.prems in \<open>auto simp: forgotten_def\<close>)
  then show ?case using stores by (auto simp: forgotten_def)
next
  case (gives_up s before l others)
  then show ?case by (auto simp: forgotten_def)
qed

lemma forgotten_run: "system_run c cfg digest ttl n s \<Longrightarrow> forgotten s"
proof (induction rule: system_run.induct)
  case start
  then show ?case by (simp add: forgotten_def identities_ok_empty new_cache_def invoker_ids_of_def)
next
  case (further s s')
  then show ?case using forgotten_step by blast
qed

text \<open>C13: A finished offboarding is final: once the gateway has finished a DELETE of an invoker, no lookup in its cache
  yields that invoker again, whatever lookups were in flight when SME deleted it, in whatever order they are answered and
  stored, and however the other requests of gateway and SME interleave. (Other replicas wait for the cache time.)\<close>

theorem offboarded_not_honoured:
  assumes "system_run c cfg digest ttl n s" "i \<in> dropped s" "fst (cache_get (digest token) now (answers s)) = Some (Some who)"
  shows "caller_id who \<noteq> i"
  using forgotten_run [OF assms(1)] cache_hit [OF assms(3)] assms(2) by (fastforce simp: forgotten_def)

end
