(* ===== verification/GatewayDemo.thy ===== *)
theory GatewayDemo
  imports SmeServices GatewayClaims GatewayRevocation
begin

section \<open>The properties of SME and the gateway at work\<close>

text \<open>
  A small platform (two invokers, one token each, one signed assertion, one hidden service, one request of an
  rApp) on which the hypotheses of the properties hold.
\<close>

definition demo_crypto :: "unit crypto" where
  "demo_crypto = \<lparr>load_pem = \<lambda>v. Some (), assertion_failure = \<lambda>key now a. if now < 100 then None else Some ''expired'',
     claims_of = \<lambda>a. \<lparr>claim_iss = ''api-invoker-1'', claim_sub = ''api-invoker-1'', claim_exp = 100, claim_jti = a\<rparr>,
     scrypt = \<lambda>salt secret. secret, sha256 = \<lambda>t. t\<rparr>"

definition demo_settings :: sme_settings where
  "demo_settings = \<lparr>enrollment_secret = Some ''top'', open_enrollment = None, role_enforcement = None\<rparr>"

definition ask_token :: "string \<Rightarrow> string option \<Rightarrow> string option \<Rightarrow> string option \<Rightarrow> token_request" where
  "ask_token i secret scope assertion =
     \<lparr>grant_type = ''client_credentials'', client_id = i, client_secret = secret, asked_grant = scope,
      client_assertion_type = (if assertion = None then None else Some CLIENT_ASSERTION_TYPE), client_assertion = assertion\<rparr>"

definition demo_onboarding :: "string \<Rightarrow> string option \<Rightarrow> string \<Rightarrow> sme_op" where
  "demo_onboarding uuid presented key =
     Register_invoker (uuid, ''s'', ''00'') None presented \<lparr>asked_key = key, asked_scope = JNull\<rparr>"

subsection \<open>Identities and tokens\<close>

definition demo_reqs :: "(seconds \<times> sme_op) list" where
  "demo_reqs = [(0, demo_onboarding ''1'' (Some ''top'') ''k''),
     (1, Issue_token ''t1'' (ask_token ''api-invoker-1'' (Some ''s'') (Some ''smo-internal'') None)),
     (1, demo_onboarding ''2'' None ''k''),
     (2, Issue_token ''t2'' (ask_token ''api-invoker-2'' (Some ''s'') None None))]"

definition demo_answer :: "string \<Rightarrow> string \<Rightarrow> seconds \<Rightarrow> string option \<Rightarrow> introspection" where
  "demo_answer i role until scope =
     \<lparr>active_client = i, active_until = until, active_role = role, active_scope = scope, active_claim = JNull\<rparr>"

lemma demo_introspect:
  "introspect_token demo_crypto 3 ''t1'' (sme_run demo_crypto demo_settings demo_reqs empty_sme) =
     Some (demo_answer ''api-invoker-1'' ROLE_INTERNAL 3601 (Some ''smo-internal''))"
  "introspect_token demo_crypto 3 ''t2'' (sme_run demo_crypto demo_settings demo_reqs empty_sme) =
     Some (demo_answer ''api-invoker-2'' ROLE_RAPP 3602 None)"
  by code_simp+

theorem internal_token_was_enrolled_witness:
  "\<exists>t random caller req. (t, Register_invoker random caller (Some ''top'') req) \<in> set demo_reqs \<and>
     ''api-invoker-1'' = ''api-invoker-'' @ fst random"
  using internal_token_was_enrolled [of demo_settings "''top''" demo_crypto 3 "''t1''" demo_reqs, OF _ _ _ demo_introspect(1)]
  by (simp add: demo_answer_def demo_settings_def enforcement_mode_def strip_def lower_def ascii_lower_def blank_def Let_def)

theorem active_token_is_live_witness:
  "\<exists>t token' req reg. (t, Issue_token token' req) \<in> set demo_reqs \<and> sha256 demo_crypto token' = sha256 demo_crypto ''t2'' \<and>
    client_id req = ''api-invoker-2'' \<and> 3602 = t + ACCESS_TOKEN_TTL_SECONDS \<and> (3::int) < 3602 \<and>
    get_invoker (sme_run demo_crypto demo_settings demo_reqs empty_sme) ''api-invoker-2'' = Some reg \<and> ROLE_RAPP = invoker_kind reg \<and>
    from_introspection JNull = from_introspection (invoker_claim reg)"
  using active_token_is_live [OF demo_introspect(2)] by (simp add: demo_answer_def)

lemma demo_offboarded:
  "introspect_token demo_crypto 5 ''t2''
     (sme_run demo_crypto demo_settings [(4, Issue_token ''t3'' (ask_token ''api-invoker-2'' (Some ''s'') None None))]
       (offboard_invoker ''api-invoker-1'' (sme_run demo_crypto demo_settings demo_reqs empty_sme))) =
     Some (demo_answer ''api-invoker-2'' ROLE_RAPP 3602 None)"
  by code_simp

theorem offboarded_stays_out_witness:
  "active_client (demo_answer ''api-invoker-2'' ROLE_RAPP 3602 None) \<noteq> ''api-invoker-1'' \<and>
   get_trusted (sme_run demo_crypto demo_settings [(4, Issue_token ''t3'' (ask_token ''api-invoker-2'' (Some ''s'') None None))]
       (offboard_invoker ''api-invoker-1'' (sme_run demo_crypto demo_settings demo_reqs empty_sme))) ''api-invoker-1'' = None"
  using offboarded_stays_out [of "[(4, Issue_token ''t3'' (ask_token ''api-invoker-2'' (Some ''s'') None None))]" "''api-invoker-1''"
      demo_crypto 5 "''t2''" demo_settings demo_reqs] demo_offboarded by simp

definition demo_exchange :: "(seconds \<times> sme_op) list" where
  "demo_exchange = [(1, demo_onboarding ''1'' None ''-----BEGIN''),
     (1, Issue_token ''t1'' (ask_token ''api-invoker-1'' None None (Some ''a''))),
     (1, Issue_token ''t2'' (ask_token ''api-invoker-1'' None None (Some ''a'')))]"

lemma demo_exchanged: "exchanges demo_crypto demo_settings ''a'' demo_exchange (empty_sme, 0) = 1"
  by code_simp


definition eu :: scope where "eu = \<lparr>regions = Some {''eu''}, tenants = None\<rparr>"

definition demo_narrowed :: onboarded where
  "demo_narrowed = \<lparr>new_invoker = ''api-invoker-3'', new_secret = ''s'', new_role = ROLE_RAPP, key_authentication = False,
     new_claim = JObject [(''regions'', JList [JStr ''eu''])]\<rparr>"

lemma demo_registered:
  "map_sum id fst (register_invoker demo_crypto demo_settings 0 (''3'', ''s'', ''00'') (Some eu) None
     \<lparr>asked_key = ''k'', asked_scope = JNull\<rparr> empty_sme) = Inr demo_narrowed"
  by code_simp

theorem registration_never_widens_witness: "permits (Some eu) (Some ''eu'') None"
proof -
  obtain st' where "register_invoker demo_crypto demo_settings 0 (''3'', ''s'', ''00'') (Some eu) None
      \<lparr>asked_key = ''k'', asked_scope = JNull\<rparr> empty_sme = Inr (demo_narrowed, st')"
    using demo_registered by (cases "register_invoker demo_crypto demo_settings 0 (''3'', ''s'', ''00'') (Some eu) None
      \<lparr>asked_key = ''k'', asked_scope = JNull\<rparr> empty_sme") auto
  moreover have "permits (from_introspection (new_claim demo_narrowed)) (Some ''eu'') None" by code_simp
  ultimately show ?thesis by (rule registration_never_widens)
qed

subsection \<open>Where the code does otherwise than it says\<close>

text \<open>
  A revocation that names no AEF, only the API \<open>a\<close>, also removes the entry of the API \<open>b\<close>, because that entry
  names no AEF either.
\<close>

definition demo_context :: "string \<Rightarrow> security_request" where
  "demo_context api = \<lparr>req_aef = None, req_api = Some api, req_authentication = None, req_authorization = None, req_methods = [''OAUTH'']\<rparr>"

lemma revocation_takes_too_much:
  "map_sum id (\<lambda>st. get_trusted st ''api-invoker-1'')
     (revoke_trusted_invoker ''api-invoker-1'' None [''a'']
       (committed empty_sme (register_trusted_invoker ''api-invoker-1''
          \<lparr>req_destination = ''http://n'', req_test = False, req_infos = [demo_context ''a'', demo_context ''b'']\<rparr>
          (sme_run demo_crypto demo_settings demo_reqs empty_sme)))) = Inr None"
  by code_simp

text \<open>An assertion whose expiry lies after the year 9999 is not refused: the conversion of the date raises.\<close>

definition far_crypto :: "unit crypto" where
  "far_crypto = demo_crypto\<lparr>claims_of := \<lambda>a. \<lparr>claim_iss = ''api-invoker-1'', claim_sub = ''api-invoker-1'',
     claim_exp = 253402300800, claim_jti = a\<rparr>\<rparr>"

lemma far_expiry_raises:
  "fst (issue_access_token far_crypto demo_settings 2 ''t1'' (ask_token ''api-invoker-1'' None None (Some ''a''))
      (sme_run far_crypto demo_settings [(1, demo_onboarding ''1'' None ''-----BEGIN'')] empty_sme)) =
    Raised (ValueError ''year is out of range'')"
  by code_simp

subsection \<open>A hidden service\<close>

definition demo_service :: "string list \<Rightarrow> string \<Rightarrow> service_request" where
  "demo_service consumers name =
     \<lparr>asked_name = name, asked_endpoint = ''http://a'', asked_version = ''v1'', asked_full_versions = [], asked_capabilities = JNull,
      asked_criteria = JNull, asked_module = ''m'', asked_consumers = consumers,
      asked_profiles = [\<lparr>aef_name = Some ''aef'', aef_protocol = None, aef_data_format = None, aef_versions = []\<rparr>],
      asked_feats = None, asked_shareable = JNull\<rparr>"

definition demo_published :: "(seconds \<times> sme_op) list" where
  "demo_published = demo_reqs @
     [(3, Register_provider ''apf'' None), (3, Register_service ''apf'' (demo_service [] ''open'')),
      (3, Register_service ''apf'' (demo_service [''api-invoker-1''] ''hidden''))]"

definition demo_registry :: sme_store where
  "demo_registry = sme_run demo_crypto demo_settings demo_published empty_sme"

definition demo_profile :: "uid \<Rightarrow> string list \<Rightarrow> string \<Rightarrow> service_profile" where
  "demo_profile n consumers name = profile_of n ''apf'' (demo_service consumers name) None"

lemma demo_services: "services demo_registry = [demo_profile 1 [] ''open''] @ demo_profile 2 [''api-invoker-1''] ''hidden'' # []"
  by code_simp

definition anything :: discovery where
  "anything = \<lparr>wanted_name = None, wanted_version = None, wanted_aef = None, wanted_protocol = None, wanted_format = None, wanted_comm = None\<rparr>"

theorem hidden_service_unobservable_witness:
  "discover_services ''api-invoker-2'' anything demo_registry =
     discover_services ''api-invoker-2'' anything (demo_registry\<lparr>services := [demo_profile 1 [] ''open''] @ []\<rparr>) \<and>
   fst (issue_access_token demo_crypto demo_settings 4 ''t4'' (ask_token ''api-invoker-2'' (Some ''s'') (Some ''3gpp#aef:hidden'') None) demo_registry) =
   fst (issue_access_token demo_crypto demo_settings 4 ''t4'' (ask_token ''api-invoker-2'' (Some ''s'') (Some ''3gpp#aef:hidden'') None)
     (demo_registry\<lparr>services := [demo_profile 1 [] ''open''] @ []\<rparr>))"
proof -
  have "\<not> visible_to (demo_profile 2 [''api-invoker-1''] ''hidden'') ''api-invoker-2''" by code_simp
  moreover have "client_id (ask_token ''api-invoker-2'' (Some ''s'') (Some ''3gpp#aef:hidden'') None) = ''api-invoker-2''"
    by (simp add: ask_token_def)
  ultimately show ?thesis
    using hidden_service_unobservable [OF demo_registry_def demo_services, of "''api-invoker-2''" anything
        "ask_token ''api-invoker-2'' (Some ''s'') (Some ''3gpp#aef:hidden'') None"] by blast
qed

text \<open>The scope names a service that exists but is hidden, and the answer is that of one that is not published.\<close>

lemma demo_hidden_scope:
  "fst (issue_access_token demo_crypto demo_settings 4 ''t4'' (ask_token ''api-invoker-2'' (Some ''s'') (Some ''3gpp#aef:hidden'') None) demo_registry)
     = Scope_refused (Not_published ''hidden'')"
  "fst (issue_access_token demo_crypto demo_settings 4 ''t4'' (ask_token ''api-invoker-1'' (Some ''s'') (Some ''3gpp#aef:hidden'') None) demo_registry)
     = Granted ''t4'' (Some ''3gpp#aef:hidden'')"
  by code_simp+

subsection \<open>A request of an rApp\<close>

definition demo_request :: request where
  "demo_request = \<lparr>req_method = ''POST'', full_path = ''dme/offers'',
     req_headers = [(''authorization'', ''Bearer t2''), (''x-r1-role'', ''internal''), (''X-R1-Invoker-Id'', ''api-invoker-1''),
       (''x-r1-on-behalf-of'', ''api-invoker-1''), (''accept'', ''text'')]\<rparr>"

definition demo_caller :: caller where
  "demo_caller = \<lparr>caller_id = ''api-invoker-2'', caller_role = ROLE_RAPP, caller_scope = from_introspection JNull\<rparr>"

definition demo_sme :: "string \<Rightarrow> sme_answer" where
  "demo_sme token = Says (introspect_token demo_crypto 3 token (sme_run demo_crypto demo_settings demo_reqs empty_sme))"

lemma demo_says: "demo_sme ''t2'' = Says (Some (demo_answer ''api-invoker-2'' ROLE_RAPP 3602 None))"
  by (simp only: demo_sme_def demo_introspect)

lemma demo_caller_of: "caller_of (demo_answer ''api-invoker-2'' ROLE_RAPP 3602 None) = demo_caller"
  by code_simp

lemma demo_bearer: "bearer_token demo_request = Some ''t2''"
  by code_simp

definition demo_events :: "gateway_event list" where
  "demo_events = [Looked_up 3 demo_sme demo_request, Changed ''DELETE'' ''sme/invoker-registrations/api-invoker-1'' 204]"

lemma demo_cached:
  "introspect_bearer (\<lambda>t. t) (\<lambda>_. No_answer) 2 4 demo_request (fold (cache_event (\<lambda>t. t) 2) demo_events (new_cache 10)) =
     (Inr (Some demo_caller), fold (cache_event (\<lambda>t. t) 2) demo_events (new_cache 10))"
proof -
  have life: "life_of 2 3 (Some (demo_answer ''api-invoker-2'' ROLE_RAPP 3602 None)) = 2" by (simp add: life_of_def demo_answer_def)
  have put: "snd (introspect_bearer (\<lambda>t. t) demo_sme 2 3 demo_request (new_cache 10)) =
      \<lparr>cache_entries = [(''t2'', \<lparr>cache_until = 5, cached_caller = Some demo_caller\<rparr>)], generation = 0, max_entries = 10\<rparr>"
    by (simp add: introspect_bearer_def demo_bearer demo_says read_answer_def life demo_caller_of cache_get_def cache_put_def
        new_cache_def without_def)
  have evict: "drop_revoked_tokens ''DELETE'' ''sme/invoker-registrations/api-invoker-1'' 204 c = evict_invoker ''api-invoker-1'' c" for c
    by (simp add: drop_revoked_tokens_def)
  have cache: "fold (cache_event (\<lambda>t. t) 2) demo_events (new_cache 10) =
      \<lparr>cache_entries = [(''t2'', \<lparr>cache_until = 5, cached_caller = Some demo_caller\<rparr>)], generation = 1, max_entries = 10\<rparr>"
    by (simp only: demo_events_def fold_simps cache_event.simps put evict) (simp add: evict_invoker_def demo_caller_def)
  show ?thesis unfolding cache by (simp add: introspect_bearer_def demo_bearer cache_get_def)
qed

theorem accepted_token_is_recent_witness:
  "\<exists>token. bearer_token demo_request = Some token \<and>
    ((\<exists>a. No_answer = Says (Some a) \<and> demo_caller = caller_of a) \<or>
     (\<exists>t ask' req' token' a. Looked_up t ask' req' \<in> set demo_events \<and> bearer_token req' = Some token' \<and>
        token' = token \<and> ask' token' = Says (Some a) \<and> demo_caller = caller_of a \<and>
        (4::rat) < t + 2 \<and> (4::rat) < of_int (active_until a)))"
  by (rule accepted_token_is_recent [OF demo_cached])

theorem forwarded_identity_vouched_witness:
  "let h = received (fold (\<lambda>(k, v). AList.update k v) [(''traceparent'', ''00'')] (forwarded_headers (\<lambda>_. ''{}'') ''c'' demo_request demo_caller))
   in originator_of h = or_none (Some (caller_id demo_caller)) \<and> invoker_id h = or_none (Some (caller_id demo_caller)) \<and>
      scope_of (\<lambda>_. Some JNull) h = caller_scope demo_caller"
  by (rule forwarded_identity_vouched [where claim = JNull])
     (simp_all add: demo_caller_def names_def from_introspection_def to_claim_def lower_def ascii_lower_def)

definition demo_env :: "unit gateway_env" where
  "demo_env = \<lparr>routes = \<lambda>p. if p = ''/dme'' then Some ''http://dme:8000'' else None, cache_seconds = 0, kill_seconds = 3, base_seconds = 5,
     role_setting = None, kill_setting = None, auditing = True, key_of = \<lambda>t. t, take_budget = \<lambda>i l. (None, l), ask_sme = demo_sme,
     read_switch = \<lambda>i. Some (i = ''api-invoker-1''), ask_base = \<lambda>i. No_base, read_url = \<lambda>u. None, read_ip = \<lambda>u. None, read_uuid = \<lambda>u. None,
     json_dumps = \<lambda>j. ''{}'', correlation_id = ''c'', trace_headers = []\<rparr>"

definition demo_gateway :: "unit gateway" where
  "demo_gateway = \<lparr>token_answers = new_cache 10, kill_answers = [], base_answers = [], budgets = ()\<rparr>"

definition demo_audit :: audited where
  "demo_audit = \<lparr>audit_invoker = ''api-invoker-2'', audit_role = ROLE_RAPP, audit_refused = None, audit_on_behalf = None\<rparr>"

definition demo_forwarded :: "call \<times> unit gateway" where
  "demo_forwarded = (\<lparr>call_method = ''POST'', call_url = ''http://dme:8000/offers'',
     call_headers = forwarded_headers (\<lambda>j. ''{}'') ''c'' demo_request demo_caller\<rparr>,
     demo_gateway\<lparr>kill_answers := [(''api-invoker-2'', 3, False)]\<rparr>)"

lemma demo_fields:
  "routes demo_env ''/dme'' = Some ''http://dme:8000''" "cache_seconds demo_env = 0" "kill_seconds demo_env = 3"
  "role_setting demo_env = None" "kill_setting demo_env = None" "key_of demo_env = (\<lambda>t. t)" "take_budget demo_env i l = (None, l)"
  "ask_sme demo_env = demo_sme" "read_switch demo_env = (\<lambda>i. Some (i = ''api-invoker-1''))" "json_dumps demo_env = (\<lambda>j. ''{}'')"
  "correlation_id demo_env = ''c''" "trace_headers demo_env = []"
  "token_answers demo_gateway = new_cache 10" "kill_answers demo_gateway = []" "budgets demo_gateway = ()"
  by (simp_all add: demo_env_def demo_gateway_def)

lemma demo_path:
  "module_of (full_path demo_request) = ''/dme''" "rest_of (full_path demo_request) = ''offers''"
  "path_problem ''offers'' = False" "remove_suffix ''/'' ''offers'' = ''offers''"
  "role_permits demo_caller ''/dme'' ''POST'' ''offers'' = True" "req_method demo_request = ''POST''"
  "without_trailing (split_on CHR ''/'' ''offers'') = [''offers'']" "''POST'' \<in> set CHANGES"
  "enforcement_mode None = ''enforce''" "kill_enforced None"
  by code_simp+

lemma demo_kill: "kill_check demo_env 3 demo_request demo_caller ''/dme'' ''offers'' [] = (None, [(''api-invoker-2'', 3, False)])"
proof -
  have "stopped_one demo_request demo_caller = Some ''api-invoker-2''" "\<not> exempt ''/dme'' ''POST'' ''offers''" by code_simp+
  then show ?thesis by (simp add: kill_check_def demo_path demo_fields is_killed_def young_def keep_answer_def)
qed

lemma demo_vetted:
  "vetted demo_env 3 demo_request ''/dme'' (Some ''http://dme:8000'') demo_caller demo_gateway = (Forward (fst demo_forwarded), None, snd demo_forwarded)"
  unfolding vetted_def Let_def demo_path demo_fields demo_kill by (simp add: demo_forwarded_def)

lemma demo_proxied: "proxy demo_env 3 demo_request demo_gateway = (Forward (fst demo_forwarded), Some demo_audit, snd demo_forwarded)"
proof -
  have token: "introspect_bearer (\<lambda>t. t) demo_sme 0 3 demo_request (new_cache 10) = (Inr (Some demo_caller), new_cache 10)"
    by (simp add: introspect_bearer_def demo_bearer demo_says read_answer_def demo_caller_of)
  have who: "caller_id demo_caller = ''api-invoker-2''" "caller_role demo_caller = ROLE_RAPP" "ROLE_RAPP \<noteq> ROLE_INTERNAL"
    by (simp_all add: demo_caller_def header_names)
  have same: "demo_gateway\<lparr>token_answers := new_cache 10, budgets := ()\<rparr> = demo_gateway" by (simp add: demo_gateway_def)
  show ?thesis
    unfolding proxy_def Let_def demo_path demo_fields token
    by (simp add: demo_fields who demo_vetted same OPERATOR_PREFIX_def demo_audit_def)
qed

theorem rapp_change_vetted_witness:
  "rapp_may_change ''/dme'' ''POST'' ''offers'' \<and> \<not> internal_only ''/dme'' ''POST'' ''offers'' \<and>
   set [''offers''] \<inter> {[], ''.'', ''..''} = {} \<and>
   (''/dme'' = CHR ''/'' # OPERATOR_PREFIX \<or>
    (\<exists>b. Some ''http://dme:8000'' = Some b \<and> call_url (fst demo_forwarded) = b @ CHR ''/'' # ''offers'' \<and>
      call_method (fst demo_forwarded) = ''POST'')) \<and>
   (exempt ''/dme'' ''POST'' ''offers'' \<or>
    (\<exists>u. 3 - max 3 STALE_SECONDS < (u::rat) \<and> u \<le> 3 \<and> \<not> audit_invoker demo_audit = ''api-invoker-1''))"
proof -
  have ran: "gateway_ran (\<lambda>t i. i = ''api-invoker-1'') 2 demo_gateway"
    by (rule gateway_ran.start) (simp add: demo_fields)
  have "(2::rat) \<le> 3" "reads_truth (\<lambda>t i. i = ''api-invoker-1'') 3 demo_env"
    by (simp_all add: reads_truth_def demo_fields)
  note run = rapp_change_vetted [OF ran this demo_proxied]
  have "audit_role demo_audit = ROLE_RAPP" "audit_invoker demo_audit \<noteq> []" "req_method demo_request \<in> set CHANGES"
    "enforcement_mode (role_setting demo_env) = ''enforce''" "kill_enforced (kill_setting demo_env)" "0 \<le> kill_seconds demo_env"
    by (simp_all add: demo_audit_def demo_path demo_fields)
  from run [OF this] show ?thesis unfolding Let_def demo_path demo_fields .
qed

subsection \<open>A path the gateway and the HTTP client read differently\<close>

text \<open>
  The path arrives decoded, so a \<open>%3F\<close> of the request is a \<open>?\<close> in it. It passes as the operator-API route of an instance
  and is put into the address as it is, where it ends the path: what is left is a route no rApp may change.
\<close>

definition question_mark :: request where
  "question_mark = demo_request\<lparr>req_method := ''DELETE'', full_path := ''rapp-mgmt/instances/X?/operator-api''\<rparr>"

lemma question_mark_path:
  "rest_of (full_path question_mark) = ''instances/X?/operator-api''" "path_problem ''instances/X?/operator-api'' = False"
  "remove_suffix ''/'' ''instances/X?/operator-api'' = ''instances/X?/operator-api''" "req_method question_mark = ''DELETE''"
  "role_permits demo_caller ''/rapp-mgmt'' ''DELETE'' ''instances/X?/operator-api'' = True"
  "exempt ''/rapp-mgmt'' ''DELETE'' ''instances/X?/operator-api'' = True"
  by code_simp+

lemma question_mark_passes:
  "fst (vetted demo_env 3 question_mark ''/rapp-mgmt'' (Some ''http://rapp-mgmt:8000'') demo_caller demo_gateway) =
     Forward \<lparr>call_method = ''DELETE'', call_url = ''http://rapp-mgmt:8000/instances/X?/operator-api'',
       call_headers = forwarded_headers (\<lambda>j. ''{}'') ''c'' question_mark demo_caller\<rparr>"
  "takeWhile (\<lambda>ch. ch \<noteq> CHR ''?'') ''instances/X?/operator-api'' = ''instances/X''"
  "\<not> rapp_may_change ''/rapp-mgmt'' ''DELETE'' ''instances/X''"
proof -
  have "kill_check demo_env 3 question_mark demo_caller ''/rapp-mgmt'' ''instances/X?/operator-api'' [] = (None, [])"
    by (simp add: kill_check_def question_mark_path split: option.split)
  then show "fst (vetted demo_env 3 question_mark ''/rapp-mgmt'' (Some ''http://rapp-mgmt:8000'') demo_caller demo_gateway) =
     Forward \<lparr>call_method = ''DELETE'', call_url = ''http://rapp-mgmt:8000/instances/X?/operator-api'',
       call_headers = forwarded_headers (\<lambda>j. ''{}'') ''c'' question_mark demo_caller\<rparr>"
    by (simp add: vetted_def question_mark_path demo_fields)
qed code_simp+

subsection \<open>An offboarding while a lookup is in flight\<close>

text \<open>
  Both invokers hold a token. The gateway begins a lookup of the first one's token and SME answers it; then the first
  invoker is deleted and dropped, the late answer is refused by the cache, and the second one's token is looked up.
\<close>

definition demo_lookup :: "string \<Rightarrow> nat \<Rightarrow> introspection option option \<Rightarrow> lookup" where
  "demo_lookup token gen answer = \<lparr>for_token = token, at_generation = gen, told = answer\<rparr>"

definition demo_first :: introspection where "demo_first = demo_answer ''api-invoker-1'' ROLE_INTERNAL 3601 (Some ''smo-internal'')"
definition demo_second :: introspection where "demo_second = demo_answer ''api-invoker-2'' ROLE_RAPP 3602 None"

definition demo_full :: sme_store where "demo_full = sme_run demo_crypto demo_settings demo_reqs empty_sme"

definition demo_system :: "sme_store \<Rightarrow> token_cache \<Rightarrow> lookup list \<Rightarrow> string set \<Rightarrow> system" where
  "demo_system st c ls removed = \<lparr>sme = st, answers = c, asking = ls, gone = removed, dropped = removed\<rparr>"

abbreviation demo_run :: "system \<Rightarrow> bool" where
  "demo_run \<equiv> system_run demo_crypto demo_settings (\<lambda>t. t) 2 10"

lemma run_at_sme: "demo_run (demo_system st c ls {}) \<Longrightarrow> demo_run (demo_system (sme_run demo_crypto demo_settings reqs st) c ls {})"
proof (induction reqs arbitrary: st)
  case (Cons r reqs)
  obtain t req where r: "r = (t, req)" by fastforce
  have "draws_anew req (gone (demo_system st c ls {}))" by (simp add: draws_anew_def demo_system_def split: sme_op.split)
  from further [OF Cons.prems at_sme [OF this, of demo_crypto demo_settings "\<lambda>t. t" 2 t]]
  have "demo_run (demo_system (sme_step demo_crypto demo_settings t req st) c ls {})"
    by (simp add: demo_system_def del: sme_step.simps)
  then show ?case using Cons.IH r by (simp del: sme_step.simps)
qed simp

lemma demo_started: "demo_run (demo_system demo_full (new_cache 10) [] {})"
  using run_at_sme [of empty_sme "new_cache 10" "[]" demo_reqs] start [of demo_crypto demo_settings "\<lambda>t. t" 2 10]
  by (simp add: demo_system_def demo_full_def)

lemma demo_asked: "demo_run (demo_system demo_full (new_cache 10) [demo_lookup ''t1'' 0 (Some (Some demo_first))] {})"
proof -
  have "demo_run (demo_system demo_full (new_cache 10) [demo_lookup ''t1'' 0 None] {})"
    using further [OF demo_started begins [where token = "''t1''"]] by (simp add: demo_system_def demo_lookup_def new_cache_def)
  from further [OF this asks [where before = "[]" and l = "demo_lookup ''t1'' 0 None" and others = "[]" and t = 3]]
  show ?thesis by (simp add: demo_system_def demo_lookup_def demo_first_def demo_full_def demo_introspect)
qed

definition demo_left :: sme_store where "demo_left = offboard_invoker ''api-invoker-1'' demo_full"

lemma demo_left_says: "introspect_token demo_crypto 3 ''t2'' demo_left = Some demo_second"
  by code_simp

definition demo_emptied :: token_cache where "demo_emptied = (new_cache 10)\<lparr>generation := 1\<rparr>"

lemma demo_finished: "demo_run (demo_system demo_left demo_emptied [] {''api-invoker-1''})"
proof -
  from further [OF demo_asked deletes [where i = "''api-invoker-1''"]]
  have "demo_run ((demo_system demo_left (new_cache 10) [demo_lookup ''t1'' 0 (Some (Some demo_first))] {})\<lparr>gone := {''api-invoker-1''}\<rparr>)"
    by (simp add: demo_system_def demo_left_def)
  from further [OF this drops [where i = "''api-invoker-1''"]]
  have dropped: "demo_run (demo_system demo_left demo_emptied [demo_lookup ''t1'' 0 (Some (Some demo_first))] {''api-invoker-1''})"
    by (simp add: demo_system_def evicts evict_invoker_def new_cache_def demo_emptied_def)
  from further [OF this stores [where before = "[]" and l = "demo_lookup ''t1'' 0 (Some (Some demo_first))" and others = "[]"
      and a = "Some demo_first" and now = 3]]
  show ?thesis by (simp add: demo_system_def demo_lookup_def cache_put_unless demo_emptied_def)
qed

lemma demo_second_cached:
  "demo_run (demo_system demo_left (demo_emptied\<lparr>cache_entries := [(''t2'', \<lparr>cache_until = 5, cached_caller = Some demo_caller\<rparr>)]\<rparr>) []
     {''api-invoker-1''})"
proof -
  from further [OF demo_finished begins [where token = "''t2''"]]
  have "demo_run (demo_system demo_left demo_emptied [demo_lookup ''t2'' 1 None] {''api-invoker-1''})"
    by (simp add: demo_system_def demo_lookup_def demo_emptied_def)
  from further [OF this asks [where before = "[]" and l = "demo_lookup ''t2'' 1 None" and others = "[]" and t = 3]]
  have "demo_run (demo_system demo_left demo_emptied [demo_lookup ''t2'' 1 (Some (Some demo_second))] {''api-invoker-1''})"
    by (simp add: demo_system_def demo_lookup_def demo_left_says)
  from further [OF this stores [where before = "[]" and l = "demo_lookup ''t2'' 1 (Some (Some demo_second))" and others = "[]"
      and a = "Some demo_second" and now = 3]]
  show ?thesis
    using demo_caller_of
    by (simp add: demo_system_def demo_lookup_def demo_emptied_def new_cache_def cache_put_def without_def life_of_def
        demo_second_def demo_answer_def)
qed

theorem offboarded_not_honoured_witness: "caller_id demo_caller \<noteq> ''api-invoker-1''"
  by (rule offboarded_not_honoured [OF demo_second_cached, where token = "''t2''" and now = 4])
     (simp_all add: demo_system_def cache_get_def)

end
